(* ===== verification/Prelude.thy ===== *)
theory Prelude
  imports Main "HOL-Library.List_Lexorder" "HOL-Library.Char_ord" "HOL-Library.AList"
    "HOL-Library.Sublist" "HOL-Library.Word"
begin

text \<open>
  What the components share.  A JavaScript string is a \<^typ>\<open>string\<close>: a list of code units
  below 256; the library order on \<^typ>\<open>string\<close> is then the order of code units that
  \<open><\<close> has in JavaScript.  A JavaScript \<open>Map\<close> is an association list in insertion order:
  \<open>AList.update\<close> overwrites in place or appends, as \<open>Map.set\<close> does.  A thrown
  \<open>Error\<close> is the left side of a sum.  The section on numerals models
  \<open>Number.prototype.toString(16)\<close>, \<open>parseInt(_, 16)\<close> and \<open>padStart\<close> on the
  naturals; the last two sections state the two contracts several components share: a cell that
  keeps the newest of what it is given, and an invariant kept along a run of operations.
\<close>

section \<open>Results, maps and collections of facts\<close>

datatype js_error = JsError string

type_synonym 'a js_result = "js_error + 'a"

type_synonym ('k, 'v) js_map = "('k \<times> 'v) list"

named_theorems frame_simps "what an operation leaves unchanged"

named_theorems inv_intros "preservation of a component's invariant, one fact per operation"

abbreviation js_get :: "('k, 'v) js_map \<Rightarrow> 'k \<Rightarrow> 'v option" where
  "js_get m k \<equiv> map_of m k"

abbreviation js_set :: "('k, 'v) js_map \<Rightarrow> 'k \<Rightarrow> 'v \<Rightarrow> ('k, 'v) js_map" where
  "js_set m k v \<equiv> AList.update k v m"

abbreviation js_del :: "('k, 'v) js_map \<Rightarrow> 'k \<Rightarrow> ('k, 'v) js_map" where
  "js_del m k \<equiv> AList.delete k m"

abbreviation js_keys :: "('k, 'v) js_map \<Rightarrow> 'k list" where
  "js_keys m \<equiv> map fst m"

definition js_wf :: "('k, 'v) js_map \<Rightarrow> bool" where
  "js_wf m \<longleftrightarrow> distinct (js_keys m)"

lemma js_get_set [simp]: "js_get (js_set m k v) k' = (if k' = k then Some v else js_get m k')"
  by (simp add: update_conv')

lemma js_get_del [simp]: "js_get (js_del m k) k' = (if k' = k then None else js_get m k')"
  by (simp add: delete_conv')

lemma js_wf_empty [simp, inv_intros]: "js_wf []"
  by (simp add: js_wf_def)

lemma js_wf_set [intro, inv_intros]: "js_wf m \<Longrightarrow> js_wf (js_set m k v)"
  by (simp add: js_wf_def distinct_update)

lemma js_wf_del [intro, inv_intros]: "js_wf m \<Longrightarrow> js_wf (js_del m k)"
  by (simp add: js_wf_def distinct_delete)

lemma js_wf_get: "js_wf m \<Longrightarrow> (k, v) \<in> set m \<longleftrightarrow> js_get m k = Some v"
  by (simp add: js_wf_def map_of_eq_Some_iff eq_commute)

lemma js_get_mem: "js_get m k = Some v \<Longrightarrow> (k, v) \<in> set m"
  by (rule map_of_SomeD)

lemma js_set_len: "length (js_set m k v) = (if k \<in> fst ` set m then length m else Suc (length m))"
  by (induction m) auto

lemma js_del_len_le: "length (js_del m k) \<le> length m"
  by (simp add: length_delete_le)

lemma js_del_len: "js_wf m \<Longrightarrow> k \<in> fst ` set m \<Longrightarrow> length (js_del m k) = length m - 1"
proof (induction m)
  case (Cons p m)
  have nin: "fst p \<notin> fst ` set m" and wf: "js_wf m"
    using Cons.prems(1) by (auto simp: js_wf_def)
  show ?case
  proof (cases "fst p = k")
    case True
    then have "js_del m k = m" using nin by (simp add: AList.delete_idem image_iff)
    then show ?thesis using True by (cases p) simp
  next
    case False
    then have "k \<in> fst ` set m" using Cons.prems(2) by auto
    with Cons.IH[OF wf] False show ?thesis
      by (cases p; cases m) auto
  qed
qed simp

text \<open>Every entry of a well-formed map satisfies a predicate.\<close>

definition js_all :: "('k \<Rightarrow> 'v \<Rightarrow> bool) \<Rightarrow> ('k, 'v) js_map \<Rightarrow> bool" where
  "js_all P m \<longleftrightarrow> js_wf m \<and> (\<forall>k v. js_get m k = Some v \<longrightarrow> P k v)"

lemma js_all_empty [simp, inv_intros]: "js_all P []"
  by (simp add: js_all_def)

lemma js_all_set [inv_intros]: "js_all P m \<Longrightarrow> P k v \<Longrightarrow> js_all P (js_set m k v)"
  by (auto simp: js_all_def)

lemma js_all_del [inv_intros]: "js_all P m \<Longrightarrow> js_all P (js_del m k)"
  by (auto simp: js_all_def)

lemma js_allD: "js_all P m \<Longrightarrow> js_get m k = Some v \<Longrightarrow> P k v"
  by (simp add: js_all_def)

lemma js_all_wf: "js_all P m \<Longrightarrow> js_wf m"
  by (simp add: js_all_def)

lemma js_all_mem: "js_all P m \<Longrightarrow> (k, v) \<in> set m \<Longrightarrow> P k v"
  by (auto simp: js_all_def js_wf_get)

section \<open>Strings: numerals, searching, case\<close>

definition hex_digit :: "nat \<Rightarrow> char" where
  "hex_digit d = (if d < 10 then char_of (48 + d) else char_of (87 + d))"

definition hex_value :: "char \<Rightarrow> nat option" where
  "hex_value c =
     (let n = (of_char c :: nat)
      in if 48 \<le> n \<and> n \<le> 57 then Some (n - 48)
         else if 97 \<le> n \<and> n \<le> 102 then Some (n - 87)
         else if 65 \<le> n \<and> n \<le> 70 then Some (n - 55) else None)"

text \<open>\<open>n.toString(16)\<close> for a non-negative integer.\<close>

fun to_hex :: "nat \<Rightarrow> string" where
  "to_hex n = (if n < 16 then [hex_digit n] else to_hex (n div 16) @ [hex_digit (n mod 16)])"

declare to_hex.simps [simp del]

text \<open>\<open>String(n)\<close> for a non-negative integer.\<close>

fun decimal_text :: "nat \<Rightarrow> string" where
  "decimal_text n =
     (if n < 10 then [char_of (48 + n)] else decimal_text (n div 10) @ [char_of (48 + n mod 10)])"

declare decimal_text.simps [simp del]

text \<open>The longest prefix of hexadecimal digits, read with the value read so far.\<close>

fun hex_prefix :: "nat \<Rightarrow> string \<Rightarrow> nat" where
  "hex_prefix acc [] = acc"
| "hex_prefix acc (c # cs) =
     (case hex_value c of None \<Rightarrow> acc | Some d \<Rightarrow> hex_prefix (16 * acc + d) cs)"

text \<open>White space that \<open>parseInt\<close> skips, among the code units below 256.\<close>

definition js_space :: "char \<Rightarrow> bool" where
  "js_space c \<longleftrightarrow> (of_char c :: nat) \<in> {9, 10, 11, 12, 13, 32, 160}"

text \<open>\<open>Number.parseInt(s, 16)\<close>: \<open>None\<close> is \<open>NaN\<close>.\<close>

definition parse_hex_digits :: "string \<Rightarrow> nat option" where
  "parse_hex_digits s =
     (case s of [] \<Rightarrow> None
      | c # cs \<Rightarrow> (case hex_value c of None \<Rightarrow> None | Some d \<Rightarrow> Some (hex_prefix 0 (c # cs))))"

definition strip_0x :: "string \<Rightarrow> string" where
  "strip_0x s = (if take 2 s = ''0x'' \<or> take 2 s = ''0X'' then drop 2 s else s)"

definition parse_int16 :: "string \<Rightarrow> int option" where
  "parse_int16 s =
     (let t = dropWhile js_space s
      in case t of
           [] \<Rightarrow> None
         | c # cs \<Rightarrow>
             if c = CHR ''-'' then map_option (\<lambda>n. - int n) (parse_hex_digits (strip_0x cs))
             else if c = CHR ''+'' then map_option int (parse_hex_digits (strip_0x cs))
             else map_option int (parse_hex_digits (strip_0x t)))"

definition pad_start :: "nat \<Rightarrow> char \<Rightarrow> string \<Rightarrow> string" where
  "pad_start w c s = replicate (w - length s) c @ s"

text \<open>\<open>s.indexOf(c, from)\<close>: \<open>-1\<close> when absent.\<close>

fun index_from :: "char \<Rightarrow> string \<Rightarrow> int \<Rightarrow> int" where
  "index_from c [] i = -1"
| "index_from c (x # xs) i = (if x = c then i else index_from c xs (i + 1))"

definition js_index_of :: "string \<Rightarrow> char \<Rightarrow> int \<Rightarrow> int" where
  "js_index_of s c from = (let k = nat from in index_from c (drop k s) (int (min k (length s))))"

definition js_slice :: "string \<Rightarrow> nat \<Rightarrow> nat \<Rightarrow> string" where
  "js_slice s i j = take (j - i) (drop i s)"

text \<open>\<open>s.split(c)\<close> for a one-character separator.\<close>

fun js_split :: "char \<Rightarrow> string \<Rightarrow> string list" where
  "js_split c [] = [[]]"
| "js_split c (x # xs) =
     (if x = c then [] # js_split c xs
      else (case js_split c xs of [] \<Rightarrow> [[x]] | w # ws \<Rightarrow> (x # w) # ws))"

text \<open>\<open>toLowerCase\<close> on the code units below 256: ASCII and the Latin-1 capitals.\<close>

definition char_lower :: "char \<Rightarrow> char" where
  "char_lower c =
     (let n = (of_char c :: nat)
      in if (65 \<le> n \<and> n \<le> 90) \<or> (192 \<le> n \<and> n \<le> 222 \<and> n \<noteq> 215) then char_of (n + 32) else c)"

definition js_lower :: "string \<Rightarrow> string" where
  "js_lower s = map char_lower s"

subsection \<open>Numerals read back\<close>

lemma of_char_of_nat: "n < 256 \<Longrightarrow> of_char (char_of n :: char) = (n :: nat)"
  by (simp add: of_char_of)

lemma hex_value_digit [simp]: "d < 16 \<Longrightarrow> hex_value (hex_digit d) = Some d"
  by (auto simp: hex_digit_def hex_value_def of_char_of_nat Let_def)

lemma of_char_hex_digit:
  "d < 16 \<Longrightarrow> of_char (hex_digit d) = (if d < 10 then 48 + d else 87 + d :: nat)"
  by (simp add: hex_digit_def of_char_of_nat)

lemma hex_digit_neq_dash [simp]: "d < 16 \<Longrightarrow> hex_digit d \<noteq> CHR ''-''"
  by (auto dest!: arg_cong[where f = "of_char :: char \<Rightarrow> nat"] simp: of_char_hex_digit split: if_splits)

lemma hex_prefix_append:
  "\<forall>c \<in> set xs. hex_value c \<noteq> None \<Longrightarrow> hex_prefix a (xs @ ys) = hex_prefix (hex_prefix a xs) ys"
  by (induction xs arbitrary: a) auto

lemma to_hex_not_Nil [simp]: "to_hex n \<noteq> []"
  by (subst to_hex.simps) simp

lemma to_hex_digits: "c \<in> set (to_hex n) \<Longrightarrow> \<exists>d < 16. c = hex_digit d"
proof (induction n rule: to_hex.induct)
  case (1 n)
  show ?case
  proof (cases "n < 16")
    case True
    with "1.prems" show ?thesis by (subst (asm) to_hex.simps) auto
  next
    case False
    have "c \<in> set (to_hex (n div 16)) \<or> c = hex_digit (n mod 16)"
      using "1.prems" False by (subst (asm) to_hex.simps) auto
    moreover have "n mod 16 < 16" by simp
    ultimately show ?thesis using "1.IH"[OF False] by blast
  qed
qed

lemma to_hex_values: "c \<in> set (to_hex n) \<Longrightarrow> hex_value c \<noteq> None"
  using to_hex_digits by fastforce

lemma to_hex_no_dash [simp]: "CHR ''-'' \<notin> set (to_hex n)"
  using to_hex_digits hex_digit_neq_dash by metis

lemma hex_prefix_to_hex [simp]: "hex_prefix 0 (to_hex n) = n"
proof (induction n rule: to_hex.induct)
  case (1 n)
  show ?case
  proof (cases "n < 16")
    case True
    then show ?thesis by (subst to_hex.simps) simp
  next
    case False
    have "hex_prefix 0 (to_hex n) = hex_prefix (hex_prefix 0 (to_hex (n div 16))) [hex_digit (n mod 16)]"
      using False to_hex_values by (subst to_hex.simps) (simp add: hex_prefix_append)
    also have "\<dots> = 16 * (n div 16) + n mod 16"
      using "1.IH"[OF False] by simp
    finally show ?thesis by simp
  qed
qed

lemma to_hex_inj: "to_hex m = to_hex n \<longleftrightarrow> m = n"
  by (metis hex_prefix_to_hex)

lemma hex_prefix_zeros [simp]: "hex_prefix 0 (replicate k (CHR ''0'') @ s) = hex_prefix 0 s"
proof (induction k)
  case (Suc k)
  have "hex_value (CHR ''0'') = Some 0" by (simp add: hex_value_def)
  with Suc show ?case by simp
qed simp

lemma to_hex_length: "0 < k \<Longrightarrow> n < 16 ^ k \<Longrightarrow> length (to_hex n) \<le> k"
proof (induction k arbitrary: n)
  case (Suc k)
  show ?case
  proof (cases "n < 16")
    case True
    then show ?thesis by (subst to_hex.simps) simp
  next
    case False
    with Suc.prems have "0 < k" by (cases k) auto
    moreover have "n div 16 < 16 ^ k" using Suc.prems by (simp add: less_mult_imp_div_less)
    ultimately have "length (to_hex (n div 16)) \<le> k" by (rule Suc.IH)
    with False show ?thesis by (subst to_hex.simps) simp
  qed
qed simp

lemma parse_int16_digits:
  assumes "s \<noteq> []" and hex: "\<forall>c \<in> set s. \<exists>d < 16. c = hex_digit d"
  shows "parse_int16 s = Some (int (hex_prefix 0 s))"
proof -
  obtain c cs where s: "s = c # cs" using assms(1) by (cases s) auto
  then obtain d where d: "d < 16" "c = hex_digit d" using hex by auto
  have oc: "(of_char c :: nat) = (if d < 10 then 48 + d else 87 + d)"
    using d by (simp add: of_char_hex_digit)
  have sp: "\<not> js_space c" using oc d(1) by (auto simp: js_space_def split: if_splits)
  have pl: "c \<noteq> CHR ''+''" and mi: "c \<noteq> CHR ''-''" using oc d(1) by (auto split: if_splits)
  have "take 2 s \<noteq> ''0x'' \<and> take 2 s \<noteq> ''0X''"
  proof -
    { fix x assume "cs \<noteq> []" "hd cs = x" and x: "(of_char x :: nat) \<in> {120, 88}"
      then have "x \<in> set s" using s by (cases cs) auto
      then obtain e where "e < 16" "x = hex_digit e" using hex by auto
      with x have False by (auto simp: of_char_hex_digit split: if_splits) }
    then show ?thesis using s by (cases cs) auto
  qed
  then have st: "strip_0x s = s" by (simp add: strip_0x_def)
  have "parse_hex_digits s = Some (hex_prefix 0 s)"
    using s d by (simp add: parse_hex_digits_def)
  then show ?thesis using s sp pl mi st by (simp add: parse_int16_def)
qed

lemma hex_digit_zero: "CHR ''0'' = hex_digit 0"
  by (simp add: hex_digit_def char_of_def bit_iff_odd)

lemma padded_digits:
  "\<forall>c \<in> set (pad_start w (CHR ''0'') (to_hex n)). \<exists>d < 16. c = hex_digit d"
proof -
  have "\<exists>d < 16. CHR ''0'' = hex_digit d" using hex_digit_zero by (intro exI[of _ 0]) simp
  then show ?thesis using to_hex_digits by (auto simp: pad_start_def)
qed

lemma parse_int16_padded [simp]:
  "parse_int16 (pad_start w (CHR ''0'') (to_hex n)) = Some (int n)"
  by (subst parse_int16_digits[OF _ padded_digits]) (simp_all add: pad_start_def)

lemma parse_int16_to_hex [simp]: "parse_int16 (to_hex n) = Some (int n)"
  using parse_int16_padded[of 0 n] by (simp add: pad_start_def)

definition decimal_read :: "string \<Rightarrow> nat" where
  "decimal_read s = foldl (\<lambda>n c. 10 * n + (of_char c - 48)) 0 s"

lemma decimal_read_text [simp]: "decimal_read (decimal_text n) = n"
proof (induction n rule: decimal_text.induct)
  case (1 n)
  have d: "of_char (char_of (48 + k) :: char) = (48 + k :: nat)" if "k < 10" for k
    using that by (simp add: of_char_of_nat)
  show ?case
  proof (cases "n < 10")
    case True
    then show ?thesis using d by (subst decimal_text.simps) (simp add: decimal_read_def)
  next
    case False
    then have "decimal_read (decimal_text n) = 10 * decimal_read (decimal_text (n div 10)) + n mod 10"
      using d[of "n mod 10"] by (subst decimal_text.simps) (simp add: decimal_read_def)
    then show ?thesis using 1 False by simp
  qed
qed

lemma decimal_text_inj: "decimal_text m = decimal_text n \<longleftrightarrow> m = n"
  by (metis decimal_read_text)

lemma decimal_text_range: "c \<in> set (decimal_text n) \<Longrightarrow> 48 \<le> (of_char c :: nat) \<and> (of_char c :: nat) \<le> 57"
proof (induction n rule: decimal_text.induct)
  case (1 n)
  have d: "of_char (char_of (48 + k) :: char) = (48 + k :: nat)" if "k < 10" for k
    using that by (simp add: of_char_of_nat)
  show ?case
  proof (cases "n < 10")
    case True
    then show ?thesis using 1 d[of n] by (subst (asm) (2) decimal_text.simps) simp
  next
    case False
    then have "c \<in> set (decimal_text (n div 10)) \<or> c = char_of (48 + n mod 10)"
      using 1(2) by (subst (asm) decimal_text.simps) auto
    then show ?thesis using 1(1)[OF False] d[of "n mod 10"] by auto
  qed
qed

lemma pad_start_length: "length s \<le> w \<Longrightarrow> length (pad_start w c s) = w"
  by (simp add: pad_start_def)

lemma pad_start_inj:
  "pad_start w (CHR ''0'') (to_hex m) = pad_start w (CHR ''0'') (to_hex n) \<longleftrightarrow> m = n"
  by (metis parse_int16_padded of_nat_eq_iff option.inject)

subsection \<open>The order of numerals of one width is the order of the numbers\<close>

lemma hex_digit_less: "d < 16 \<Longrightarrow> e < 16 \<Longrightarrow> hex_digit d < hex_digit e \<longleftrightarrow> d < e"
  by (simp add: less_char_def of_char_hex_digit)

lemma hex_digit_eq: "d < 16 \<Longrightarrow> e < 16 \<Longrightarrow> hex_digit d = hex_digit e \<longleftrightarrow> d = e"
  by (metis hex_value_digit option.inject)

lemma hex_prefix_lex:
  assumes "length s = length t"
    and "\<forall>c \<in> set s. \<exists>d < 16. c = hex_digit d" and "\<forall>c \<in> set t. \<exists>d < 16. c = hex_digit d"
  shows "hex_prefix a s < hex_prefix b t \<longleftrightarrow> a < b \<or> (a = b \<and> s < t)"
  using assms
proof (induction s t arbitrary: a b rule: list_induct2)
  case (Cons x xs y ys)
  obtain d where d: "d < 16" "x = hex_digit d" using Cons.prems(1) by auto
  obtain e where e: "e < 16" "y = hex_digit e" using Cons.prems(2) by auto
  have "hex_prefix (16 * a + d) xs < hex_prefix (16 * b + e) ys \<longleftrightarrow>
      16 * a + d < 16 * b + e \<or> (16 * a + d = 16 * b + e \<and> xs < ys)"
    by (rule Cons.IH) (use Cons.prems in auto)
  moreover have "16 * a + d < 16 * b + e \<longleftrightarrow> a < b \<or> (a = b \<and> d < e)"
    and "16 * a + d = 16 * b + e \<longleftrightarrow> a = b \<and> d = e"
    using d(1) e(1) by (cases a b rule: linorder_cases; simp)+
  ultimately show ?case
    using d e by (auto simp: hex_digit_less hex_digit_eq)
qed simp

lemma pad_start_less:
  assumes "m < 16 ^ w" "n < 16 ^ w" "0 < w"
  shows "pad_start w (CHR ''0'') (to_hex m) < pad_start w (CHR ''0'') (to_hex n) \<longleftrightarrow> m < n"
proof -
  let ?p = "\<lambda>k. pad_start w (CHR ''0'') (to_hex k)"
  have "length (?p m) = length (?p n)"
    using assms by (simp add: pad_start_length to_hex_length)
  then have "hex_prefix 0 (?p m) < hex_prefix 0 (?p n) \<longleftrightarrow> ?p m < ?p n"
    by (simp add: hex_prefix_lex[OF _ padded_digits padded_digits])
  then show ?thesis by (simp add: pad_start_def)
qed

lemma append_less_same_length:
  "length xs = length ys \<Longrightarrow> xs @ us < ys @ vs \<longleftrightarrow> xs < ys \<or> (xs = ys \<and> (us :: string) < vs)"
  by (induction xs ys rule: list_induct2) auto

subsection \<open>Searching\<close>

lemma index_from_append:
  "c \<notin> set xs \<Longrightarrow> index_from c (xs @ c # ys) i = i + int (length xs)"
  by (induction xs arbitrary: i) auto

lemma index_from_none: "c \<notin> set xs \<Longrightarrow> index_from c xs i = -1"
  by (induction xs arbitrary: i) auto

lemma js_index_of_append:
  "c \<notin> set xs \<Longrightarrow> js_index_of (pre @ xs @ c # ys) c (int (length pre)) = int (length pre + length xs)"
  by (simp add: js_index_of_def index_from_append)

section \<open>A cell that keeps the newest value\<close>

text \<open>
  The contract behind last-writer-wins state: an empty cell takes what it is given, a full one
  changes only for a strictly newer stamp.  The offline queue, the deletion fence, the newest
  tombstone, the parked write of the sync engine and the hub's workspace documents all promise it.
\<close>

locale newest_cell =
  fixes stamp :: "'r \<Rightarrow> 'k::linorder"
    and offer :: "'r option \<Rightarrow> 'r \<Rightarrow> 'r option"
  assumes offer_None: "offer None r = Some r"
    and offer_newer: "stamp c < stamp r \<Longrightarrow> offer (Some c) r = Some r"
    and offer_older: "\<not> stamp c < stamp r \<Longrightarrow> offer (Some c) r = Some c"
begin

lemma offer_Some: "offer (Some c) r = Some (if stamp c < stamp r then r else c)"
  by (simp add: offer_newer offer_older)

lemma offer_cases: "offer c r = Some r \<or> (c \<noteq> None \<and> offer c r = c)"
  by (cases c) (auto simp: offer_None offer_Some)

lemma offer_idem: "offer (offer c r) r = offer c r"
  by (cases c) (auto simp: offer_None offer_Some)

lemma offer_commute: "stamp a \<noteq> stamp b \<Longrightarrow> offer (offer c a) b = offer (offer c b) a"
  by (cases c) (auto simp: offer_None offer_Some not_less)

lemma offer_mono: "c = Some x \<Longrightarrow> \<exists>y. offer c r = Some y \<and> stamp x \<le> stamp y"
  by (auto simp: offer_Some)

lemma offers_newest:
  assumes "foldl offer c rs = Some m"
  shows "(m \<in> set rs \<or> c = Some m) \<and> (\<forall>r \<in> set rs. stamp r \<le> stamp m) \<and>
    (\<forall>x. c = Some x \<longrightarrow> stamp x \<le> stamp m)"
  using assms
proof (induction rs arbitrary: c)
  case (Cons r rs)
  have "foldl offer (offer c r) rs = Some m" using Cons.prems by simp
  note ih = Cons.IH[OF this]
  obtain y where y: "offer c r = Some y" "stamp r \<le> stamp y"
    by (cases c) (auto simp: offer_None offer_Some not_less)
  show ?case
    using ih y by (cases c) (fastforce simp: offer_None offer_Some split: if_splits)+
qed auto

lemma offers_full: "c \<noteq> None \<or> rs \<noteq> [] \<Longrightarrow> \<exists>m. foldl offer c rs = Some m"
proof (induction rs arbitrary: c)
  case (Cons r rs)
  have "offer c r \<noteq> None" using offer_cases[of c r] by auto
  then show ?case using Cons.IH by simp
qed auto

lemma offers_order_free:
  assumes "set rs = set ts" "inj_on stamp (set rs)"
  shows "foldl offer None rs = foldl offer None ts"
proof (cases "rs = []")
  case True
  then show ?thesis using assms by simp
next
  case False
  then have "ts \<noteq> []" using assms(1) by auto
  with False obtain m n where m: "foldl offer None rs = Some m" and n: "foldl offer None ts = Some n"
    using offers_full by blast
  have mn: "m \<in> set rs" "n \<in> set rs" "stamp n \<le> stamp m" "stamp m \<le> stamp n"
    using offers_newest[OF m] offers_newest[OF n] assms(1) by auto
  then have "m = n" using inj_onD[OF assms(2)] by (simp add: order_antisym)
  then show ?thesis using m n by simp
qed

end

section \<open>An invariant along a run\<close>

locale kept_invariant =
  fixes step :: "'s \<Rightarrow> 'o \<Rightarrow> 's"
    and inv :: "'s \<Rightarrow> bool"
  assumes keep: "inv s \<Longrightarrow> inv (step s x)"
begin

lemma along_run: "inv s \<Longrightarrow> inv (foldl step s xs)"
  by (induction xs arbitrary: s) (auto intro: keep)

end

end
