(* ===== verification/Hlc.thy ===== *)
theory Hlc
  imports Prelude "HOL-Library.Product_Lexorder"
begin

text \<open>
  The hybrid logical clock (packages/protocol/src/hlc.ts): timestamps, their total order, the
  sortable text form and the clock with its three operations.  Milliseconds and counters are
  naturals, as the wire schema demands.  The order of timestamps is the library's
  \<open>linorder\<close> class on the record, which \<open>compareHlc\<close> is shown to compute, so sorting and
  maxima of the library apply to them.
\<close>

record hlc =
  physicalMs :: nat
  logical :: nat
  deviceId :: string

definition MAX_CLOCK_DRIFT_MS :: nat where
  "MAX_CLOCK_DRIFT_MS = 60000"

definition compareHlc :: "hlc \<Rightarrow> hlc \<Rightarrow> int" where
  "compareHlc a b =
     (if physicalMs a \<noteq> physicalMs b then (if physicalMs a < physicalMs b then -1 else 1)
      else if logical a \<noteq> logical b then (if logical a < logical b then -1 else 1)
      else if deviceId a \<noteq> deviceId b then (if deviceId a < deviceId b then -1 else 1)
      else 0)"

definition hlcEquals :: "hlc \<Rightarrow> hlc \<Rightarrow> bool" where
  "hlcEquals a b \<longleftrightarrow> compareHlc a b = 0"

text \<open>The fields compared, in the order they are compared.\<close>

definition hlc_key :: "'a hlc_scheme \<Rightarrow> nat \<times> nat \<times> string \<times> 'a" where
  "hlc_key h = (physicalMs h, logical h, deviceId h, hlc.more h)"

lemma hlc_key_inj: "hlc_key a = hlc_key b \<longleftrightarrow> a = b"
  by (cases a; cases b) (simp add: hlc_key_def)

instantiation hlc_ext :: (linorder) linorder
begin

definition less_hlc_ext :: "'a hlc_scheme \<Rightarrow> 'a hlc_scheme \<Rightarrow> bool" where
  "a < b \<longleftrightarrow> hlc_key a < hlc_key b"

definition less_eq_hlc_ext :: "'a hlc_scheme \<Rightarrow> 'a hlc_scheme \<Rightarrow> bool" where
  "a \<le> b \<longleftrightarrow> hlc_key a \<le> hlc_key b"

instance
  by standard (auto simp: less_eq_hlc_ext_def less_hlc_ext_def hlc_key_inj[symmetric])

end

lemma hlc_less_iff:
  "(a :: hlc) < b \<longleftrightarrow> physicalMs a < physicalMs b \<or> (physicalMs a = physicalMs b \<and>
     (logical a < logical b \<or> (logical a = logical b \<and> deviceId a < deviceId b)))"
  by (auto simp: less_hlc_ext_def hlc_key_def)

lemma hlc_eq_iff:
  "(a :: hlc) = b \<longleftrightarrow> physicalMs a = physicalMs b \<and> logical a = logical b \<and> deviceId a = deviceId b"
  by (auto intro: hlc.equality)

lemma compareHlc_order: "compareHlc a b = (if a < b then -1 else if b < a then 1 else 0)"
  by (cases "physicalMs a" "physicalMs b" rule: linorder_cases;
      cases "logical a" "logical b" rule: linorder_cases;
      cases "deviceId a" "deviceId b" rule: linorder_cases; simp add: compareHlc_def hlc_less_iff)

lemma compareHlc_sign [simp]:
  "compareHlc a b = 0 \<longleftrightarrow> a = b" "0 < compareHlc a b \<longleftrightarrow> b < a" "compareHlc a b < 0 \<longleftrightarrow> a < b"
  "0 \<le> compareHlc a b \<longleftrightarrow> b \<le> a" "compareHlc a b \<le> 0 \<longleftrightarrow> a \<le> b"
  by (auto simp: compareHlc_order)

lemma hlcEquals_eq [simp]: "hlcEquals a b \<longleftrightarrow> a = b"
  by (simp add: hlcEquals_def)

section \<open>The text form\<close>

definition encodeHlc :: "hlc \<Rightarrow> string" where
  "encodeHlc h =
     pad_start 14 (CHR ''0'') (to_hex (physicalMs h)) @ ''-'' @
     pad_start 8 (CHR ''0'') (to_hex (logical h)) @ ''-'' @ deviceId h"

definition decodeHlc :: "string \<Rightarrow> hlc js_result" where
  "decodeHlc s =
     (let first = js_index_of s (CHR ''-'') 0;
          second = js_index_of s (CHR ''-'') (first + 1)
      in if first \<noteq> 14 \<or> second \<noteq> 23 then Inl (JsError (''malformed HLC: '' @ s))
         else
           (let dev = drop (nat second + 1) s
            in case (parse_int16 (js_slice s 0 (nat first)),
                     parse_int16 (js_slice s (nat first + 1) (nat second))) of
                 (Some p, Some l) \<Rightarrow>
                   if length dev = 0 then Inl (JsError (''malformed HLC: '' @ s))
                   else Inr \<lparr>physicalMs = nat p, logical = nat l, deviceId = dev\<rparr>
               | _ \<Rightarrow> Inl (JsError (''malformed HLC: '' @ s))))"

text \<open>The stamps whose text form has its nominal width.\<close>

definition hlc_fits :: "hlc \<Rightarrow> bool" where
  "hlc_fits h \<longleftrightarrow> physicalMs h < 16 ^ 14 \<and> logical h < 16 ^ 8 \<and> deviceId h \<noteq> []"

lemma dash_not_in_padded: "CHR ''-'' \<notin> set (pad_start w (CHR ''0'') (to_hex n))"
proof -
  have "CHR ''-'' \<noteq> CHR ''0''" by simp
  then show ?thesis by (auto simp: pad_start_def)
qed

lemma decode_encode_fits:
  assumes "hlc_fits h"
  shows "decodeHlc (encodeHlc h) = Inr h"
proof -
  define p where "p = pad_start 14 (CHR ''0'') (to_hex (physicalMs h))"
  define l where "l = pad_start 8 (CHR ''0'') (to_hex (logical h))"
  have lp: "length p = 14" and ll: "length l = 8"
    using assms to_hex_length[of 14] to_hex_length[of 8]
    by (simp_all add: p_def l_def hlc_fits_def pad_start_length)
  have s: "encodeHlc h = p @ CHR ''-'' # l @ CHR ''-'' # deviceId h"
    by (simp add: encodeHlc_def p_def l_def)
  have dp: "CHR ''-'' \<notin> set p" "CHR ''-'' \<notin> set l"
    by (simp_all add: p_def l_def dash_not_in_padded)
  have first: "js_index_of (encodeHlc h) (CHR ''-'') 0 = 14"
    using js_index_of_append[of "CHR ''-''" p "[]"] dp lp by (simp add: s)
  have second: "js_index_of (encodeHlc h) (CHR ''-'') 15 = 23"
    using js_index_of_append[of "CHR ''-''" l "p @ ''-''" "deviceId h"] dp lp ll by (simp add: s)
  have sl: "js_slice (encodeHlc h) 0 14 = p" "js_slice (encodeHlc h) 15 23 = l"
    "drop 24 (encodeHlc h) = deviceId h"
    using lp ll by (simp_all add: s js_slice_def)
  have pi: "parse_int16 p = Some (int (physicalMs h))" "parse_int16 l = Some (int (logical h))"
    by (simp_all add: p_def l_def)
  show ?thesis
    using assms unfolding decodeHlc_def Let_def first
    by (simp add: second sl pi hlc_fits_def)
qed

lemma encodeHlc_less:
  assumes "hlc_fits a" "hlc_fits b"
  shows "encodeHlc a < encodeHlc b \<longleftrightarrow> a < b"
proof -
  let ?p = "\<lambda>h. pad_start 14 (CHR ''0'') (to_hex (physicalMs h))"
  let ?l = "\<lambda>h. pad_start 8 (CHR ''0'') (to_hex (logical h))"
  have len: "length (?p a) = length (?p b)" "length (?l a) = length (?l b)"
    using assms to_hex_length[of 14] to_hex_length[of 8]
    by (simp_all add: hlc_fits_def pad_start_length)
  have "encodeHlc a < encodeHlc b \<longleftrightarrow>
      ?p a < ?p b \<or> (?p a = ?p b \<and> (?l a < ?l b \<or> (?l a = ?l b \<and> deviceId a < deviceId b)))"
    by (simp add: encodeHlc_def append_less_same_length[OF len(1)] append_less_same_length[OF len(2)])
  also have "\<dots> \<longleftrightarrow> a < b"
    using assms by (simp add: pad_start_less pad_start_inj hlc_fits_def hlc_less_iff)
  finally show ?thesis .
qed

lemma pad_split:
  assumes "pad_start w (CHR ''0'') (to_hex m) @ CHR ''-'' # xs = pad_start w (CHR ''0'') (to_hex n) @ CHR ''-'' # ys"
  shows "m = n \<and> xs = ys"
proof -
  let ?p = "\<lambda>k. pad_start w (CHR ''0'') (to_hex k)"
  have "takeWhile (\<lambda>c. c \<noteq> CHR ''-'') (?p k @ CHR ''-'' # zs) = ?p k" for k zs
    by (rule takeWhile_tail[THEN trans]) (use dash_not_in_padded[of w k] in auto)
  then have "?p m = ?p n" by (metis assms)
  with assms show ?thesis by (simp add: pad_start_inj)
qed

lemma encodeHlc_inj: "encodeHlc a = encodeHlc b \<longleftrightarrow> a = b"
proof
  assume "encodeHlc a = encodeHlc b"
  then have "physicalMs a = physicalMs b \<and> logical a = logical b \<and> deviceId a = deviceId b"
    unfolding encodeHlc_def by (auto dest!: pad_split)
  then show "a = b" by simp
qed simp

section \<open>The clock\<close>

record hlc_clock =
  clockDevice :: string
  lastPhysicalMs :: nat
  lastLogical :: nat

definition newHlcClock :: "string \<Rightarrow> hlc_clock" where
  "newHlcClock d = \<lparr>clockDevice = d, lastPhysicalMs = 0, lastLogical = 0\<rparr>"

text \<open>Each operation takes what \<open>now()\<close> returns in it.\<close>

definition clock_send :: "nat \<Rightarrow> hlc_clock \<Rightarrow> hlc \<times> hlc_clock" where
  "clock_send wall c =
     (let c' = (if wall > lastPhysicalMs c then c\<lparr>lastPhysicalMs := wall, lastLogical := 0\<rparr>
                else c\<lparr>lastLogical := lastLogical c + 1\<rparr>)
      in (\<lparr>physicalMs = lastPhysicalMs c', logical = lastLogical c', deviceId = clockDevice c'\<rparr>, c'))"

definition clock_receive :: "nat \<Rightarrow> hlc \<Rightarrow> hlc_clock \<Rightarrow> hlc \<times> hlc_clock" where
  "clock_receive wall remote c =
     (let remotePhysical = min (physicalMs remote) (wall + MAX_CLOCK_DRIFT_MS);
          maxPhysical = max (max wall remotePhysical) (lastPhysicalMs c);
          l = (if maxPhysical = lastPhysicalMs c \<and> maxPhysical = remotePhysical
                 then max (lastLogical c) (logical remote) + 1
               else if maxPhysical = lastPhysicalMs c then lastLogical c + 1
               else if maxPhysical = remotePhysical then logical remote + 1
               else 0)
      in (\<lparr>physicalMs = maxPhysical, logical = l, deviceId = clockDevice c\<rparr>,
          c\<lparr>lastPhysicalMs := maxPhysical, lastLogical := l\<rparr>))"

definition clock_restore :: "hlc \<Rightarrow> hlc_clock \<Rightarrow> hlc_clock" where
  "clock_restore h c =
     (if physicalMs h > lastPhysicalMs c \<or>
         (physicalMs h = lastPhysicalMs c \<and> logical h > lastLogical c)
      then c\<lparr>lastPhysicalMs := physicalMs h, lastLogical := logical h\<rparr> else c)"

datatype clock_op = ClockSend nat | ClockReceive nat hlc | ClockRestore hlc

text \<open>One call: the stamp it returns, if any, and the clock after it.\<close>

fun clock_step :: "hlc_clock \<Rightarrow> clock_op \<Rightarrow> hlc option \<times> hlc_clock" where
  "clock_step c (ClockSend wall) = (let (h, c') = clock_send wall c in (Some h, c'))"
| "clock_step c (ClockReceive wall r) = (let (h, c') = clock_receive wall r c in (Some h, c'))"
| "clock_step c (ClockRestore h) = (None, clock_restore h c)"

fun clock_run :: "hlc_clock \<Rightarrow> clock_op list \<Rightarrow> hlc list \<times> hlc_clock" where
  "clock_run c [] = ([], c)"
| "clock_run c (x # xs) =
     (let (h, c1) = clock_step c x; (hs, c2) = clock_run c1 xs
      in ((case h of None \<Rightarrow> hs | Some h \<Rightarrow> h # hs), c2))"

text \<open>The stamp a clock stands at.\<close>

definition clock_at :: "hlc_clock \<Rightarrow> hlc" where
  "clock_at c = \<lparr>physicalMs = lastPhysicalMs c, logical = lastLogical c, deviceId = clockDevice c\<rparr>"

lemmas clock_defs = clock_send_def clock_receive_def clock_restore_def clock_at_def Let_def

lemma clock_device [frame_simps]:
  "clockDevice (snd (clock_send w c)) = clockDevice c"
  "clockDevice (snd (clock_receive w r c)) = clockDevice c"
  "clockDevice (clock_restore h c) = clockDevice c"
  by (auto simp: clock_defs)

lemma clock_step_device [frame_simps]: "clockDevice (snd (clock_step c x)) = clockDevice c"
  by (cases x) (simp_all add: clock_device case_prod_unfold Let_def)

lemma clock_send_at: "fst (clock_send w c) = clock_at (snd (clock_send w c))"
  by (auto simp: clock_defs)

lemma clock_receive_at: "fst (clock_receive w r c) = clock_at (snd (clock_receive w r c))"
  by (auto simp: clock_defs)

lemma clock_send_after: "clock_at c < fst (clock_send w c)"
  by (auto simp: clock_defs hlc_less_iff)

lemma clock_receive_after: "clock_at c < fst (clock_receive w r c)"
  by (auto simp: clock_defs hlc_less_iff)

text \<open>A received stamp within the drift window is overtaken; one beyond it is not followed.\<close>

lemma clock_receive_beats:
  "physicalMs r \<le> w + MAX_CLOCK_DRIFT_MS \<Longrightarrow> r < fst (clock_receive w r c)"
  by (auto simp: clock_defs hlc_less_iff)

lemma clock_restore_at: "clock_at c \<le> clock_at (clock_restore h c)"
  by (auto simp: clock_defs hlc_less_iff order.order_iff_strict)

lemma clock_step_at:
  "(\<forall>h. fst (clock_step c x) = Some h \<longrightarrow> clock_at c < h \<and> h = clock_at (snd (clock_step c x))) \<and>
   clock_at c \<le> clock_at (snd (clock_step c x))"
proof (cases x)
  case (ClockSend w)
  then show ?thesis using clock_send_at[of w c] clock_send_after[of c w] by (auto split: prod.splits)
next
  case (ClockReceive w r)
  then show ?thesis using clock_receive_at[of w r c] clock_receive_after[of c w r]
    by (auto split: prod.splits)
qed (simp add: clock_restore_at)

lemma clock_run_after:
  "(\<forall>h \<in> set (fst (clock_run c xs)). clock_at c < h) \<and> clock_at c \<le> clock_at (snd (clock_run c xs))"
proof (induction xs arbitrary: c)
  case (Cons x xs)
  obtain h c1 where s: "clock_step c x = (h, c1)" by fastforce
  obtain hs c2 where r: "clock_run c1 xs = (hs, c2)" by fastforce
  have "clock_at c \<le> clock_at c1" "\<forall>k. h = Some k \<longrightarrow> clock_at c < k"
    using clock_step_at[of c x] s by auto
  moreover have "\<forall>k \<in> set hs. clock_at c1 < k" "clock_at c1 \<le> clock_at c2"
    using Cons.IH[of c1] r by auto
  ultimately show ?case using s r
    by (auto split: option.splits intro: le_less_trans order_trans)
qed simp

lemma clock_run_sorted: "sorted_wrt (<) (fst (clock_run c xs))"
proof (induction xs arbitrary: c)
  case (Cons x xs)
  obtain h c1 where s: "clock_step c x = (h, c1)" by fastforce
  obtain hs c2 where r: "clock_run c1 xs = (hs, c2)" by fastforce
  have "\<forall>k. h = Some k \<longrightarrow> k = clock_at c1"
    using clock_step_at[of c x] s by auto
  moreover have "\<forall>k \<in> set hs. clock_at c1 < k" "sorted_wrt (<) hs"
    using clock_run_after[of c1 xs] Cons.IH[of c1] r by auto
  ultimately show ?case using s r by (auto split: option.splits)
qed simp

text \<open>The wall-clock readings and persisted stamps of a run stay below a bound.\<close>

fun clock_op_below :: "nat \<Rightarrow> clock_op \<Rightarrow> bool" where
  "clock_op_below w (ClockSend wall) \<longleftrightarrow> wall \<le> w"
| "clock_op_below w (ClockReceive wall r) \<longleftrightarrow> wall \<le> w"
| "clock_op_below w (ClockRestore h) \<longleftrightarrow> physicalMs h \<le> w + MAX_CLOCK_DRIFT_MS"

lemma clock_step_drift:
  "clock_op_below w x \<Longrightarrow> lastPhysicalMs c \<le> w + MAX_CLOCK_DRIFT_MS \<Longrightarrow>
   lastPhysicalMs (snd (clock_step c x)) \<le> w + MAX_CLOCK_DRIFT_MS"
  by (cases x) (auto simp: clock_defs)

lemma clock_run_drift:
  "\<forall>x \<in> set xs. clock_op_below w x \<Longrightarrow> lastPhysicalMs c \<le> w + MAX_CLOCK_DRIFT_MS \<Longrightarrow>
   lastPhysicalMs (snd (clock_run c xs)) \<le> w + MAX_CLOCK_DRIFT_MS \<and>
   (\<forall>h \<in> set (fst (clock_run c xs)). physicalMs h \<le> w + MAX_CLOCK_DRIFT_MS)"
proof (induction xs arbitrary: c)
  case (Cons x xs)
  obtain h c1 where s: "clock_step c x = (h, c1)" by fastforce
  obtain hs c2 where r: "clock_run c1 xs = (hs, c2)" by fastforce
  have c1: "lastPhysicalMs c1 \<le> w + MAX_CLOCK_DRIFT_MS"
    using clock_step_drift[of w x c] Cons.prems s by simp
  have "\<forall>k. h = Some k \<longrightarrow> physicalMs k = lastPhysicalMs c1"
    using clock_step_at[of c x] s by (auto simp: clock_at_def)
  then show ?case using Cons.IH[of c1] Cons.prems(1) c1 s r by (auto split: option.splits)
qed simp

section \<open>Properties\<close>


text \<open>
  No peer can carry a clock more than the drift limit beyond this device's wall clock: when all
  readings, and all persisted stamps, of a run are below the bound, so is every stamp returned.
\<close>

theorem clock_drift_bounded:
  assumes "list_all (clock_op_below w) xs" "lastPhysicalMs c \<le> w + MAX_CLOCK_DRIFT_MS"
    and "h \<in> set (fst (clock_run c xs))"
  shows "physicalMs h \<le> w + MAX_CLOCK_DRIFT_MS"
  using clock_run_drift[of xs w c] assms by (simp add: list_all_iff)

lemma clock_drift_bounded_witness:
  "physicalMs (fst (clock_receive 1000 \<lparr>physicalMs = 9000000, logical = 0, deviceId = ''b''\<rparr>
     (newHlcClock ''a''))) \<le> 1000 + MAX_CLOCK_DRIFT_MS"
  using clock_drift_bounded[of 1000 "[ClockReceive 1000 \<lparr>physicalMs = 9000000, logical = 0, deviceId = ''b''\<rparr>]"
      "newHlcClock ''a''"]
  by (simp add: newHlcClock_def split_beta)

text \<open>
  The text form is faithful within its field widths: it is read back exactly, and the order of
  strings is the order of stamps.
\<close>

theorem encodeHlc_faithful:
  assumes "hlc_fits a" "hlc_fits b"
  shows "decodeHlc (encodeHlc a) = Inr a \<and> (encodeHlc a < encodeHlc b \<longleftrightarrow> compareHlc a b < 0)"
  using decode_encode_fits[OF assms(1)] encodeHlc_less[OF assms] by simp

lemma encodeHlc_faithful_witness:
  "decodeHlc (encodeHlc \<lparr>physicalMs = 255, logical = 7, deviceId = ''a-b''\<rparr>) =
     Inr \<lparr>physicalMs = 255, logical = 7, deviceId = ''a-b''\<rparr> \<and>
   encodeHlc \<lparr>physicalMs = 255, logical = 7, deviceId = ''a-b''\<rparr> <
     encodeHlc \<lparr>physicalMs = 4096, logical = 0, deviceId = ''a''\<rparr>"
  using encodeHlc_faithful[of "\<lparr>physicalMs = 255, logical = 7, deviceId = ''a-b''\<rparr>"
      "\<lparr>physicalMs = 4096, logical = 0, deviceId = ''a''\<rparr>"]
  by (simp add: hlc_fits_def hlc_less_iff)

text \<open>Beyond eight hexadecimal digits of the counter the two orders part.\<close>

lemma encodeHlc_wide_order:
  "compareHlc \<lparr>physicalMs = 1, logical = 2 * 16 ^ 7, deviceId = ''a''\<rparr>
     \<lparr>physicalMs = 1, logical = 16 ^ 8, deviceId = ''a''\<rparr> < 0 \<and>
   encodeHlc \<lparr>physicalMs = 1, logical = 16 ^ 8, deviceId = ''a''\<rparr> <
     encodeHlc \<lparr>physicalMs = 1, logical = 2 * 16 ^ 7, deviceId = ''a''\<rparr>"
  by (simp add: compareHlc_def encodeHlc_def pad_start_def to_hex.simps hex_digit_def char_of_def
      bit_iff_odd less_char_def of_char_def append_less_same_length)

end
