(* ===== verification/Encoding.thy ===== *)
theory Encoding
  imports Prelude
begin

text \<open>
  Byte and text encodings (packages/protocol/src/encoding.ts).  A \<open>Uint8Array\<close> is a list of
  8-bit words.  \<open>TextEncoder\<close>, \<open>btoa\<close> and \<open>atob\<close> belong to the platform's standard library
  and are modelled as their standards define them, for strings of code units below 256;
  \<open>TextDecoder\<close> (\<open>fromUtf8\<close>), whose replacement character lies outside that range, is not.
\<close>

unbundle bit_operations_syntax

type_synonym byte = "8 word"

definition utf8_char :: "char \<Rightarrow> byte list" where
  "utf8_char c =
     (let n = (of_char c :: nat)
      in if n < 128 then [of_nat n] else [of_nat (192 + n div 64), of_nat (128 + n mod 64)])"

definition utf8 :: "string \<Rightarrow> byte list" where
  "utf8 s = concat (map utf8_char s)"

definition toHex :: "byte list \<Rightarrow> string" where
  "toHex bs = concat (map (\<lambda>b. pad_start 2 (CHR ''0'') (to_hex (unat b))) bs)"

text \<open>The loop over the pairs of digits; an element of the array takes the number modulo 256.\<close>

fun fromHex_pairs :: "string \<Rightarrow> byte list js_result" where
  "fromHex_pairs (a # b # rest) =
     (case parse_int16 [a, b] of
        None \<Rightarrow> Inl (JsError ''invalid hex'')
      | Some n \<Rightarrow> (case fromHex_pairs rest of Inl e \<Rightarrow> Inl e | Inr bs \<Rightarrow> Inr (word_of_int n # bs)))"
| "fromHex_pairs _ = Inr []"

definition fromHex :: "string \<Rightarrow> byte list js_result" where
  "fromHex hex =
     (if length hex mod 2 \<noteq> 0 then Inl (JsError ''invalid hex length'') else fromHex_pairs hex)"

section \<open>Base 64\<close>

definition b64_char :: "nat \<Rightarrow> char" where
  "b64_char n =
     (if n < 26 then char_of (65 + n) else if n < 52 then char_of (71 + n)
      else if n < 62 then char_of (n - 4) else if n = 62 then CHR ''+'' else CHR ''/'')"

definition b64_value :: "char \<Rightarrow> nat option" where
  "b64_value c =
     (let n = (of_char c :: nat)
      in if 65 \<le> n \<and> n \<le> 90 then Some (n - 65)
         else if 97 \<le> n \<and> n \<le> 122 then Some (n - 71)
         else if 48 \<le> n \<and> n \<le> 57 then Some (n + 4)
         else if n = 43 then Some 62 else if n = 47 then Some 63 else None)"

fun b64_groups :: "nat list \<Rightarrow> string" where
  "b64_groups (a # b # c # rest) =
     b64_char (a div 4) # b64_char (a mod 4 * 16 + b div 16) #
     b64_char (b mod 16 * 4 + c div 64) # b64_char (c mod 64) # b64_groups rest"
| "b64_groups [a, b] =
     [b64_char (a div 4), b64_char (a mod 4 * 16 + b div 16), b64_char (b mod 16 * 4)]"
| "b64_groups [a] = [b64_char (a div 4), b64_char (a mod 4 * 16)]"
| "b64_groups [] = []"

text \<open>\<open>btoa\<close> of a binary string, given by its code units.\<close>

definition btoa :: "nat list \<Rightarrow> string" where
  "btoa ns = b64_groups ns @ replicate ((3 - length ns mod 3) mod 3) (CHR ''='')"

fun b64_decode :: "nat list \<Rightarrow> nat list" where
  "b64_decode (p # q # r # s # rest) =
     (p * 4 + q div 16) # (q mod 16 * 16 + r div 4) # (r mod 4 * 64 + s) # b64_decode rest"
| "b64_decode [p, q, r] = [p * 4 + q div 16, q mod 16 * 16 + r div 4]"
| "b64_decode [p, q] = [p * 4 + q div 16]"
| "b64_decode _ = []"

definition drop_pad :: "string \<Rightarrow> string" where
  "drop_pad s =
     (if s \<noteq> [] \<and> last s = CHR ''=''
      then (let t = butlast s in if t \<noteq> [] \<and> last t = CHR ''='' then butlast t else t) else s)"

definition ascii_space :: "char \<Rightarrow> bool" where
  "ascii_space c \<longleftrightarrow> (of_char c :: nat) \<in> {9, 10, 12, 13, 32}"

text \<open>\<open>atob\<close>, the forgiving decoder: \<open>Inl\<close> is its \<open>InvalidCharacterError\<close>.\<close>

definition atob :: "string \<Rightarrow> nat list js_result" where
  "atob s =
     (let t = filter (\<lambda>c. \<not> ascii_space c) s;
          u = (if length t mod 4 = 0 then drop_pad t else t)
      in if length u mod 4 = 1 \<or> (\<exists>c \<in> set u. b64_value c = None)
         then Inl (JsError ''InvalidCharacterError'')
         else Inr (b64_decode (map (\<lambda>c. the (b64_value c)) u)))"

text \<open>The binary string is built from pieces of 0x8000 bytes.\<close>

function char_codes :: "byte list \<Rightarrow> nat list" where
  "char_codes bs =
     (if bs = [] then [] else map unat (take 32768 bs) @ char_codes (drop 32768 bs))"
  by pat_completeness auto
termination by (relation "measure length") auto

declare char_codes.simps [simp del]

definition toBase64 :: "byte list \<Rightarrow> string" where
  "toBase64 bs = btoa (char_codes bs)"

definition fromBase64 :: "string \<Rightarrow> byte list js_result" where
  "fromBase64 s = map_sum id (map of_nat) (atob s)"

section \<open>Joining byte strings\<close>

definition concatBytes :: "byte list list \<Rightarrow> byte list" where
  "concatBytes parts = concat parts"

datatype part = PStr string | PBytes "byte list"

fun part_bytes :: "part \<Rightarrow> byte list" where
  "part_bytes (PStr s) = utf8 s"
| "part_bytes (PBytes b) = b"

text \<open>\<open>DataView.setUint32\<close>, big-endian: the length modulo \<open>2^32\<close>.\<close>

definition uint32_be :: "nat \<Rightarrow> byte list" where
  "uint32_be n = [of_nat (n div 2 ^ 24), of_nat (n div 2 ^ 16), of_nat (n div 2 ^ 8), of_nat n]"

definition lengthPrefixed :: "part list \<Rightarrow> byte list" where
  "lengthPrefixed parts =
     concat (map (\<lambda>p. uint32_be (length (part_bytes p)) @ part_bytes p) parts)"

definition bytesEqual :: "byte list \<Rightarrow> byte list \<Rightarrow> bool" where
  "bytesEqual a b =
     (if length a \<noteq> length b then False
      else foldl (\<lambda>diff (x, y). diff OR (x XOR y)) 0 (zip a b) = 0)"

section \<open>Round trips and injectivity\<close>

lemma byte_less [simp]: "unat (b :: byte) < 256"
  using unsigned_less[of b] by simp

lemma parse_int16_byte:
  "parse_int16 (pad_start 2 (CHR ''0'') (to_hex (unat (b :: byte)))) = Some (int (unat b))"
  by simp

lemma byte_hex_pair: "\<exists>x y. pad_start 2 (CHR ''0'') (to_hex (unat (b :: byte))) = [x, y]"
proof -
  have "unat b < 16 ^ 2" by simp
  then have "length (pad_start 2 (CHR ''0'') (to_hex (unat b))) = 2"
    by (simp add: pad_start_length to_hex_length)
  then show ?thesis by (auto simp: length_Suc_conv numeral_2_eq_2)
qed

lemma fromHex_pairs_toHex: "fromHex_pairs (toHex bs) = Inr bs"
proof (induction bs)
  case (Cons b bs)
  obtain x y where xy: "pad_start 2 (CHR ''0'') (to_hex (unat b)) = [x, y]"
    using byte_hex_pair by blast
  then have "parse_int16 [x, y] = Some (int (unat b))" by (metis parse_int16_byte)
  moreover have "toHex (b # bs) = x # y # toHex bs" by (simp add: toHex_def xy)
  ultimately show ?case using Cons.IH by simp
qed (simp add: toHex_def)

lemma toHex_length [simp]: "length (toHex bs) = 2 * length bs"
proof (induction bs)
  case (Cons b bs)
  then show ?case using byte_hex_pair[of b] by (auto simp: toHex_def)
qed (simp add: toHex_def)

lemma fromHex_of_toHex: "fromHex (toHex bs) = Inr bs"
  by (simp add: fromHex_def fromHex_pairs_toHex)

lemma toHex_inj: "toHex a = toHex b \<longleftrightarrow> a = b"
  by (metis fromHex_of_toHex sum.inject(2))

lemma b64_value_char [simp]: "n < 64 \<Longrightarrow> b64_value (b64_char n) = Some n"
  by (auto simp: b64_value_def b64_char_def of_char_of_nat Let_def)

lemma b64_value_none: "b64_value (CHR ''='') = None" "ascii_space c \<Longrightarrow> b64_value c = None"
  by (auto simp: b64_value_def ascii_space_def)

lemma sextets:
  assumes "a < 256" "b < 256" "c < (256 :: nat)"
  shows "a div 4 < 64" "a mod 4 * 16 + b div 16 < 64" "b mod 16 * 4 + c div 64 < 64"
    "a mod 4 * 16 < 64" "b mod 16 * 4 < 64"
    "(a mod 4 * 16 + b div 16) div 16 = a mod 4" "(a mod 4 * 16 + b div 16) mod 16 = b div 16"
    "(b mod 16 * 4 + c div 64) div 4 = b mod 16" "(b mod 16 * 4 + c div 64) mod 4 = c div 64"
proof -
  have "b div 16 < 16" "c div 64 < 4" "a mod 4 < 4" "b mod 16 < 16"
    using assms by (auto simp: less_mult_imp_div_less)
  then show "a mod 4 * 16 + b div 16 < 64" "b mod 16 * 4 + c div 64 < 64"
    "a mod 4 * 16 < 64" "b mod 16 * 4 < 64"
    "(a mod 4 * 16 + b div 16) div 16 = a mod 4" "(a mod 4 * 16 + b div 16) mod 16 = b div 16"
    "(b mod 16 * 4 + c div 64) div 4 = b mod 16" "(b mod 16 * 4 + c div 64) mod 4 = c div 64"
    by simp_all
  show "a div 4 < 64" using assms(1) by (simp add: less_mult_imp_div_less)
qed

lemma b64_groups_values:
  "\<forall>n \<in> set ns. n < 256 \<Longrightarrow> set (b64_groups ns) \<subseteq> b64_char ` {..<64}"
proof (induction ns rule: b64_groups.induct)
  case (1 a b d rest)
  then have "a < 256" "b < 256" "d < 256" by auto
  note s = sextets[OF this]
  have "d mod 64 < 64" by simp
  with 1 s show ?case by (simp add: image_eqI)
next
  case (2 a b)
  then have "a < 256" "b < 256" by auto
  then show ?case using sextets[of a b 0] by (simp add: image_eqI)
next
  case (3 a)
  then have "a < 256" by auto
  then show ?case using sextets[of a 0 0] by (simp add: image_eqI)
qed simp

lemma b64_groups_length:
  "length (b64_groups ns) = 4 * (length ns div 3) + (if length ns mod 3 = 0 then 0 else length ns mod 3 + 1)"
proof (induction ns rule: b64_groups.induct)
  case (1 a b c rest)
  have "length (a # b # c # rest) = length rest + 3" by simp
  then have "length (a # b # c # rest) div 3 = Suc (length rest div 3)"
    and "length (a # b # c # rest) mod 3 = length rest mod 3"
    by (simp_all only: div_add_self2 mod_add_self2)
  with 1 show ?case by (simp only: b64_groups.simps list.size) simp
qed auto

lemma b64_decode_groups:
  "\<forall>n \<in> set ns. n < 256 \<Longrightarrow> b64_decode (map (\<lambda>c. the (b64_value c)) (b64_groups ns)) = ns"
proof (induction ns rule: b64_groups.induct)
  case (1 a b c rest)
  then have "a < 256" "b < 256" "c < 256" by auto
  note s = sextets[OF this]
  show ?case using 1 s by simp
next
  case (2 a b)
  then have "a < 256" "b < 256" by auto
  then show ?case using sextets[of a b 0] by simp
next
  case (3 a)
  then have "a < 256" by auto
  then show ?case using sextets[of a 0 0] by simp
qed simp

lemma drop_pad_replicate:
  assumes "k \<le> 2" "\<forall>c \<in> set s. c \<noteq> CHR ''=''"
  shows "drop_pad (s @ replicate k (CHR ''='')) = s"
proof -
  consider "k = 0" | "k = 1" | "k = 2" using assms(1) by linarith
  then show ?thesis
    using assms(2) by cases (auto simp: drop_pad_def butlast_append numeral_2_eq_2 dest: last_in_set)
qed

lemma b64_lengths:
  "length (btoa ns) mod 4 = 0" "length (b64_groups ns) mod 4 \<noteq> 1"
proof -
  consider "length ns mod 3 = 0" | "length ns mod 3 = 1" | "length ns mod 3 = 2"
    using mod_less_divisor[of 3 "length ns"] by linarith
  then have "length (btoa ns) mod 4 = 0 \<and> length (b64_groups ns) mod 4 \<noteq> 1"
    by cases (simp_all add: btoa_def b64_groups_length mod_Suc)
  then show "length (btoa ns) mod 4 = 0" "length (b64_groups ns) mod 4 \<noteq> 1" by simp_all
qed

lemma atob_btoa:
  assumes small: "\<forall>n \<in> set ns. n < 256"
  shows "atob (btoa ns) = Inr ns"
proof -
  let ?k = "(3 - length ns mod 3) mod 3"
  have val: "b64_value c \<noteq> None" if "c \<in> set (b64_groups ns)" for c
    using b64_groups_values[OF small] that by auto
  have ne: "\<forall>c \<in> set (b64_groups ns). c \<noteq> CHR ''=''" using val b64_value_none(1) by metis
  have fl: "filter (\<lambda>c. \<not> ascii_space c) (btoa ns) = btoa ns"
  proof -
    have "\<not> ascii_space (CHR ''='')" by (simp add: ascii_space_def)
    moreover have "\<not> ascii_space c" if "c \<in> set (b64_groups ns)" for c
      using val[OF that] b64_value_none(2) by metis
    ultimately show ?thesis by (auto simp: btoa_def filter_id_conv)
  qed
  have dp: "drop_pad (btoa ns) = b64_groups ns"
    unfolding btoa_def by (rule drop_pad_replicate[OF _ ne]) simp
  show ?thesis
    using val b64_decode_groups[OF small] b64_lengths[of ns] by (auto simp: atob_def fl dp Let_def)
qed

lemma char_codes_unat: "char_codes bs = map unat bs"
proof (induction bs rule: char_codes.induct)
  case (1 bs)
  then show ?case
    by (subst char_codes.simps) (simp flip: map_append)
qed

lemma fromBase64_of_toBase64: "fromBase64 (toBase64 bs) = Inr bs"
proof -
  have "\<forall>n \<in> set (map unat bs). n < 256" by simp
  then have "atob (toBase64 bs) = Inr (map unat bs)"
    unfolding toBase64_def char_codes_unat by (rule atob_btoa)
  then show ?thesis by (simp add: fromBase64_def comp_def)
qed

lemma uint32_be_length [simp]: "length (uint32_be n) = 4"
  by (simp add: uint32_be_def)

lemma div_digit:
  "m div (d * 256) = n div (d * 256) \<Longrightarrow> m div d mod 256 = n div d mod 256 \<Longrightarrow> m div d = (n :: nat) div d"
  by (metis div_mult2_eq div_mult_mod_eq)

lemma uint32_be_inj:
  assumes "m < 2 ^ 32" "n < 2 ^ 32" "uint32_be m = uint32_be n"
  shows "m = n"
proof -
  have dig: "m div 2 ^ 24 mod 256 = n div 2 ^ 24 mod 256" "m div 2 ^ 16 mod 256 = n div 2 ^ 16 mod 256"
    "m div 2 ^ 8 mod 256 = n div 2 ^ 8 mod 256" "m mod 256 = n mod 256"
    using assms(3) by (simp_all add: uint32_be_def word_of_nat_eq_iff take_bit_eq_mod)
  have "m div 2 ^ 24 = n div 2 ^ 24"
    using dig(1) assms(1,2) by (simp add: less_mult_imp_div_less)
  then have "m div 2 ^ 16 = n div 2 ^ 16" using dig(2) div_digit[of m "2 ^ 16" n] by simp
  then have "m div 2 ^ 8 = n div 2 ^ 8" using dig(3) div_digit[of m "2 ^ 8" n] by simp
  then show ?thesis using dig(4) div_digit[of m 1 n] by simp
qed

definition parts_fit :: "part list \<Rightarrow> bool" where
  "parts_fit ps \<longleftrightarrow> (\<forall>p \<in> set ps. length (part_bytes p) < 2 ^ 32)"

lemma lengthPrefixed_inj:
  assumes "parts_fit ps" "parts_fit qs" "lengthPrefixed ps = lengthPrefixed qs"
  shows "map part_bytes ps = map part_bytes qs"
  using assms
proof (induction ps arbitrary: qs)
  case Nil
  then show ?case by (cases qs) (auto simp: lengthPrefixed_def uint32_be_def)
next
  case (Cons p ps)
  obtain q qs' where qs: "qs = q # qs'"
    using Cons.prems(3) by (cases qs) (auto simp: lengthPrefixed_def uint32_be_def)
  have eq: "uint32_be (length (part_bytes p)) @ part_bytes p @ lengthPrefixed ps =
      uint32_be (length (part_bytes q)) @ part_bytes q @ lengthPrefixed qs'"
    using Cons.prems(3) by (simp add: qs lengthPrefixed_def)
  then have "uint32_be (length (part_bytes p)) = uint32_be (length (part_bytes q))"
    by (simp add: append_eq_append_conv)
  then have l: "length (part_bytes p) = length (part_bytes q)"
    using uint32_be_inj Cons.prems(1,2) by (simp add: qs parts_fit_def)
  with eq have "part_bytes p = part_bytes q" "lengthPrefixed ps = lengthPrefixed qs'"
    by simp_all
  with Cons.IH[of qs'] Cons.prems(1,2) show ?case by (simp add: qs parts_fit_def)
qed

lemma utf8_char_cases:
  "(\<exists>n. utf8_char c = [of_nat n] \<and> n < 128 \<and> n = of_char c) \<or>
   (\<exists>n. utf8_char c = [of_nat (192 + n div 64), of_nat (128 + n mod 64)] \<and> 128 \<le> n \<and> n < 256 \<and> n = of_char c)"
  by (auto simp: utf8_char_def Let_def)

lemma of_nat_byte_eq: "m < 256 \<Longrightarrow> n < 256 \<Longrightarrow> (of_nat m :: byte) = of_nat n \<longleftrightarrow> m = n"
  by (simp add: word_of_nat_eq_iff take_bit_eq_mod)

lemma utf8_length: "length (utf8 s) \<le> 2 * length s"
proof (induction s)
  case (Cons c s)
  have "length (utf8_char c) \<le> 2" using utf8_char_cases[of c] by auto
  then show ?case using Cons by (simp add: utf8_def)
qed (simp add: utf8_def)

lemma utf8_char_prefix:
  assumes "utf8_char c @ xs = utf8_char d @ ys"
  shows "c = d \<and> xs = ys"
proof -
  have d4: "n div 64 < 4" if "n < 256" for n :: nat using that by (simp add: less_mult_imp_div_less)
  have m64: "n mod 64 < 64" for n :: nat by simp
  have "of_char c = (of_char d :: nat) \<and> xs = ys"
  proof (cases "(of_char c :: nat) < 128"; cases "(of_char d :: nat) < 128")
    assume "\<not> (of_char c :: nat) < 128" "\<not> (of_char d :: nat) < 128"
    then have "(of_nat (192 + of_char c div 64) :: byte) = of_nat (192 + of_char d div 64)"
      "(of_nat (128 + of_char c mod 64) :: byte) = of_nat (128 + of_char d mod 64)" and xy: "xs = ys"
      using assms by (simp_all add: utf8_char_def Let_def)
    then have "of_char c div 64 = (of_char d div 64 :: nat)" "of_char c mod 64 = (of_char d mod 64 :: nat)"
      using d4[of "of_char c"] d4[of "of_char d"] m64[of "of_char c"] m64[of "of_char d"]
      by (simp_all only: of_nat_byte_eq)
        (subst (asm) of_nat_byte_eq, simp_all)+
    with xy show ?thesis by (metis div_mult_mod_eq)
  next
    assume c: "(of_char c :: nat) < 128" and d: "\<not> (of_char d :: nat) < 128"
    then have "(of_nat (of_char c) :: byte) = of_nat (192 + of_char d div 64)"
      using assms by (simp add: utf8_char_def Let_def)
    then show ?thesis using c d4[of "of_char d"] by (subst (asm) of_nat_byte_eq) auto
  next
    assume d: "(of_char d :: nat) < 128" and c: "\<not> (of_char c :: nat) < 128"
    then have "(of_nat (of_char d) :: byte) = of_nat (192 + of_char c div 64)"
      using assms by (simp add: utf8_char_def Let_def)
    then show ?thesis using d d4[of "of_char c"] by (subst (asm) of_nat_byte_eq) auto
  next
    assume "(of_char c :: nat) < 128" "(of_char d :: nat) < 128"
    then show ?thesis using assms by (simp add: utf8_char_def Let_def of_nat_byte_eq)
  qed
  then show ?thesis by simp
qed

lemma utf8_inj: "utf8 s = utf8 t \<longleftrightarrow> s = t"
proof
  show "utf8 s = utf8 t \<Longrightarrow> s = t"
  proof (induction s arbitrary: t)
    case Nil
    then show ?case by (cases t) (auto simp: utf8_def utf8_char_def Let_def split: if_splits)
  next
    case (Cons c s)
    then obtain d t' where t: "t = d # t'"
      by (cases t) (auto simp: utf8_def utf8_char_def Let_def split: if_splits)
    with Cons.prems have "utf8_char c @ utf8 s = utf8_char d @ utf8 t'" by (simp add: utf8_def)
    then have "c = d" "utf8 s = utf8 t'" using utf8_char_prefix by blast+
    with Cons.IH t show ?case by simp
  qed
qed simp

lemma lengthPrefixed_strings_inj:
  assumes "parts_fit (map PStr ss)" "parts_fit (map PStr ts)"
    and "lengthPrefixed (map PStr ss) = lengthPrefixed (map PStr ts)"
  shows "ss = ts"
proof -
  have "map utf8 ss = map utf8 ts" using lengthPrefixed_inj[OF assms] by (simp add: comp_def)
  moreover have "inj utf8" using utf8_inj by (auto intro: injI)
  ultimately show ?thesis by (simp add: inj_map_eq_map)
qed

lemma or_zero_iff: "(x OR y :: byte) = 0 \<longleftrightarrow> x = 0 \<and> y = 0"
  by (metis or_eq_0_iff)

lemma xor_zero_iff: "(x XOR y :: byte) = 0 \<longleftrightarrow> x = y"
  by (metis bit.xor_left_self bit.xor_self xor.right_neutral xor.assoc)

lemma diff_fold:
  "length a = length b \<Longrightarrow>
   foldl (\<lambda>diff (x, y). diff OR (x XOR y)) d (zip a b) = (0 :: byte) \<longleftrightarrow> d = 0 \<and> a = b"
  by (induction a b arbitrary: d rule: list_induct2) (auto simp: or_zero_iff xor_zero_iff)

lemma bytesEqual_iff: "bytesEqual a b \<longleftrightarrow> a = b"
  by (auto simp: bytesEqual_def diff_fold)

section \<open>Properties\<close>

text \<open>
  Hexadecimal and base64 are read back exactly: what \<open>toHex\<close> and \<open>toBase64\<close> print of any
  byte string, \<open>fromHex\<close> and \<open>fromBase64\<close> parse without error to the same bytes.
\<close>

theorem encodings_round_trip: "fromHex (toHex bs) = Inr bs \<and> fromBase64 (toBase64 bs) = Inr bs"
  by (simp add: fromHex_of_toHex fromBase64_of_toBase64)

text \<open>\<open>parseInt\<close> stops at the first character that is no digit, so some malformed text is read.\<close>

lemma fromHex_lenient: "fromHex ''1g'' = Inr [1]"
  by code_simp

end
