(* ===== verification/Cookie.thy ===== *)
theory Cookie
  imports Encoding Hlc
begin

text \<open>
  The cookie model (packages/protocol/src/cookie.ts), pseudonymous ids (ids.ts), the sealed
  envelope (keys.ts) and the bytes a device signs (device.ts).  WebCrypto's HMAC, AES-GCM and
  Ed25519, and the JSON text of a plaintext, are the fields of a \<open>crypto\<close> record the
  definitions take; the laws they are used under are stated where a theorem needs them.
\<close>

section \<open>Identity, attributes, causes\<close>

datatype SourceScheme = SchemeUnset | SchemeNonsecure | SchemeSecure

datatype SameSite = SameSiteUnspecified | SameSiteNoRestriction | SameSiteLax | SameSiteStrict

datatype CookiePriority = PriorityLow | PriorityMedium | PriorityHigh

datatype Cause = WRITE | EXPLICIT_DELETE | EXPIRED | OVERWRITE | EVICTED | HYDRATION_ECHO

fun scheme_text :: "SourceScheme \<Rightarrow> string" where
  "scheme_text SchemeUnset = ''unset''"
| "scheme_text SchemeNonsecure = ''nonsecure''"
| "scheme_text SchemeSecure = ''secure''"

fun same_site_text :: "SameSite \<Rightarrow> string" where
  "same_site_text SameSiteUnspecified = ''unspecified''"
| "same_site_text SameSiteNoRestriction = ''no_restriction''"
| "same_site_text SameSiteLax = ''lax''"
| "same_site_text SameSiteStrict = ''strict''"

fun cause_text :: "Cause \<Rightarrow> string" where
  "cause_text WRITE = ''WRITE''"
| "cause_text EXPLICIT_DELETE = ''EXPLICIT_DELETE''"
| "cause_text EXPIRED = ''EXPIRED''"
| "cause_text OVERWRITE = ''OVERWRITE''"
| "cause_text EVICTED = ''EVICTED''"
| "cause_text HYDRATION_ECHO = ''HYDRATION_ECHO''"

definition DELETION_CAUSES :: "Cause set" where
  "DELETION_CAUSES = {EXPLICIT_DELETE, EXPIRED, EVICTED}"

record CookieIdentity =
  ci_spaceId :: string
  ci_hostKey :: string
  ci_name :: string
  ci_path :: string
  ci_partitionKey :: string
  ci_sourceScheme :: SourceScheme

record CookieAttributes =
  ca_value :: string
  ca_expiresMs :: "int option"
  ca_persistent :: bool
  ca_secure :: bool
  ca_httpOnly :: bool
  ca_sameSite :: SameSite
  ca_priority :: CookiePriority

record CookiePlain =
  cp_identity :: CookieIdentity
  cp_attributes :: "CookieAttributes option"
  cp_deleted :: bool

definition hostKeyIsHostOnly :: "string \<Rightarrow> bool" where
  "hostKeyIsHostOnly h \<longleftrightarrow> \<not> prefix ''.'' h"

definition normalizedHost :: "string \<Rightarrow> string" where
  "normalizedHost hostKey =
     (let h = js_lower hostKey in if prefix ''.'' h then drop 1 h else h)"

definition canonicalIdentityBytes :: "CookieIdentity \<Rightarrow> byte list" where
  "canonicalIdentityBytes i =
     lengthPrefixed (map PStr
       [''suma.cookie.identity.v1'', ci_spaceId i, ci_hostKey i, ci_name i, ci_path i,
        ci_partitionKey i, scheme_text (ci_sourceScheme i)])"

section \<open>What the platform's cryptography provides\<close>

record crypto =
  cr_hmac :: "byte list \<Rightarrow> byte list"
  cr_encrypt :: "byte list \<Rightarrow> byte list \<Rightarrow> byte list \<Rightarrow> byte list"
  cr_decrypt :: "byte list \<Rightarrow> byte list \<Rightarrow> byte list \<Rightarrow> byte list option"
  cr_sign :: "byte list \<Rightarrow> byte list"
  cr_json :: "CookiePlain \<Rightarrow> byte list"
  cr_parse :: "byte list \<Rightarrow> CookiePlain option"

definition PLAIN_VERSION :: byte where "PLAIN_VERSION = 1"

definition encodeCookiePlain :: "crypto \<Rightarrow> CookiePlain \<Rightarrow> byte list" where
  "encodeCookiePlain cr plain = PLAIN_VERSION # cr_json cr plain"

definition decodeCookiePlain :: "crypto \<Rightarrow> byte list \<Rightarrow> CookiePlain js_result" where
  "decodeCookiePlain cr bytes =
     (case bytes of
        [] \<Rightarrow> Inl (JsError ''unknown CookiePlain version'')
      | v # body \<Rightarrow>
          if v \<noteq> PLAIN_VERSION then Inl (JsError ''unknown CookiePlain version'')
          else (case cr_parse cr body of
                  None \<Rightarrow> Inl (JsError ''malformed CookiePlain'') | Some p \<Rightarrow> Inr p))"

definition computeRecordIdHex :: "crypto \<Rightarrow> CookieIdentity \<Rightarrow> string" where
  "computeRecordIdHex cr i = toHex (cr_hmac cr (canonicalIdentityBytes i))"

definition computeOriginIdHex :: "crypto \<Rightarrow> string \<Rightarrow> string \<Rightarrow> string" where
  "computeOriginIdHex cr spaceId hostKey =
     toHex (cr_hmac cr (lengthPrefixed (map PStr [''suma.origin.v1'', spaceId, normalizedHost hostKey])))"

definition SEALED_VERSION :: byte where "SEALED_VERSION = 1"

definition GCM_IV_BYTES :: nat where "GCM_IV_BYTES = 12"

text \<open>The random initialisation vector is an argument.\<close>

definition seal :: "crypto \<Rightarrow> byte list \<Rightarrow> byte list \<Rightarrow> byte list \<Rightarrow> byte list" where
  "seal cr iv plaintext aad = concatBytes [[SEALED_VERSION], iv, cr_encrypt cr iv aad plaintext]"

definition open_sealed :: "crypto \<Rightarrow> byte list \<Rightarrow> byte list \<Rightarrow> byte list js_result" where
  "open_sealed cr sealed aad =
     (if take 1 sealed \<noteq> [SEALED_VERSION] then Inl (JsError ''unknown sealed version'')
      else (case cr_decrypt cr (take GCM_IV_BYTES (drop 1 sealed)) aad (drop (1 + GCM_IV_BYTES) sealed) of
              None \<Rightarrow> Inl (JsError ''OperationError'') | Some b \<Rightarrow> Inr b))"

section \<open>What a device signs\<close>

record SignableRecordFields =
  sr_spaceId :: string
  sr_recordId :: string
  sr_originId :: string
  sr_sealedRecord :: string
  sr_hlc :: hlc
  sr_causalParent :: "string option"
  sr_cause :: Cause

definition signing_strings :: "SignableRecordFields \<Rightarrow> string list" where
  "signing_strings r =
     [''suma.recordsig.v1'', sr_spaceId r, sr_recordId r, sr_originId r, sr_sealedRecord r,
      encodeHlc (sr_hlc r), (case sr_causalParent r of None \<Rightarrow> '''' | Some t \<Rightarrow> t),
      cause_text (sr_cause r)]"

definition recordSigningBytes :: "SignableRecordFields \<Rightarrow> byte list" where
  "recordSigningBytes r = lengthPrefixed (map PStr (signing_strings r))"

section \<open>Facts\<close>

lemma scheme_text_inj: "scheme_text a = scheme_text b \<longleftrightarrow> a = b"
  by (cases a; cases b) auto

lemma cause_text_inj: "cause_text a = cause_text b \<longleftrightarrow> a = b"
  by (cases a; cases b) auto

lemma same_site_text_inj: "same_site_text a = same_site_text b \<longleftrightarrow> a = b"
  by (cases a; cases b) auto

lemma DELETION_CAUSES_iff [simp]:
  "c \<in> DELETION_CAUSES \<longleftrightarrow> c = EXPLICIT_DELETE \<or> c = EXPIRED \<or> c = EVICTED"
  by (auto simp: DELETION_CAUSES_def)

lemma not_deletion_cases:
  "c \<notin> DELETION_CAUSES \<longleftrightarrow> c = WRITE \<or> c = OVERWRITE \<or> c = HYDRATION_ECHO"
  by (cases c) auto

text \<open>The strings of an identity, each short enough for its four-byte length.\<close>

definition identity_strings :: "CookieIdentity \<Rightarrow> string list" where
  "identity_strings i =
     [''suma.cookie.identity.v1'', ci_spaceId i, ci_hostKey i, ci_name i, ci_path i,
      ci_partitionKey i, scheme_text (ci_sourceScheme i)]"

definition strings_fit :: "string list \<Rightarrow> bool" where
  "strings_fit ss \<longleftrightarrow> parts_fit (map PStr ss)"

lemma strings_fit_short: "list_all (\<lambda>s. length s < 2 ^ 31) ss \<Longrightarrow> strings_fit ss"
proof -
  assume a: "list_all (\<lambda>s. length s < 2 ^ 31) ss"
  have "length (utf8 s) < 2 ^ 32" if "s \<in> set ss" for s
  proof -
    have "length s < 2 ^ 31" using a that by (simp add: list_all_iff)
    then show ?thesis using utf8_length[of s] by simp
  qed
  then show ?thesis by (auto simp: strings_fit_def parts_fit_def)
qed

lemma identity_bytes_inj:
  assumes "strings_fit (identity_strings a)" "strings_fit (identity_strings b)"
    and "canonicalIdentityBytes a = canonicalIdentityBytes b"
  shows "a = b"
proof -
  have "identity_strings a = identity_strings b"
    using assms lengthPrefixed_strings_inj
    by (simp only: canonicalIdentityBytes_def identity_strings_def strings_fit_def)
  then show ?thesis by (simp add: identity_strings_def scheme_text_inj)
qed

lemma signing_bytes_inj:
  assumes "strings_fit (signing_strings a)" "strings_fit (signing_strings b)"
    and "sr_causalParent a \<noteq> Some ''''" "sr_causalParent b \<noteq> Some ''''"
    and "recordSigningBytes a = recordSigningBytes b"
  shows "a = b"
proof -
  have "signing_strings a = signing_strings b"
    using assms lengthPrefixed_strings_inj by (simp only: recordSigningBytes_def strings_fit_def)
  moreover have "sr_causalParent a = sr_causalParent b"
    using calculation assms(3,4) by (auto simp: signing_strings_def split: option.splits)
  ultimately show ?thesis by (simp add: signing_strings_def encodeHlc_inj cause_text_inj)
qed

lemma open_seal:
  assumes "length iv = GCM_IV_BYTES" "cr_decrypt cr iv aad (cr_encrypt cr iv aad pt) = Some pt"
  shows "open_sealed cr (seal cr iv pt aad) aad = Inr pt"
  using assms by (simp add: open_sealed_def seal_def concatBytes_def)

lemma decode_encode_plain:
  "cr_parse cr (cr_json cr p) = Some p \<Longrightarrow> decodeCookiePlain cr (encodeCookiePlain cr p) = Inr p"
  by (simp add: decodeCookiePlain_def encodeCookiePlain_def)

lemma normalizedHost_cases:
  "normalizedHost h = js_lower h \<or> js_lower h = CHR ''.'' # normalizedHost h"
  by (cases "js_lower h") (auto simp: normalizedHost_def Let_def prefix_def)

section \<open>Properties\<close>

text \<open>
  What a device signs determines every signed field: two records whose signing bytes agree have
  the same space, record, origin, sealed text, stamp, parent and cause, so no signature can be moved
  to another record.  (Fields are below the four-byte length; an absent parent is not an empty one.)
\<close>

theorem signature_covers_record:
  assumes "strings_fit (signing_strings a)" "strings_fit (signing_strings b)"
    and "sr_causalParent a \<noteq> Some ''''" "sr_causalParent b \<noteq> Some ''''"
    and "recordSigningBytes a = recordSigningBytes b"
  shows "a = b"
  using assms by (rule signing_bytes_inj)

definition example_fields :: SignableRecordFields where
  "example_fields = \<lparr>sr_spaceId = ''s'', sr_recordId = ''r'', sr_originId = ''o'', sr_sealedRecord = ''AQ=='',
     sr_hlc = \<lparr>physicalMs = 1, logical = 0, deviceId = ''d''\<rparr>, sr_causalParent = None, sr_cause = WRITE\<rparr>"

lemma signature_covers_record_witness:
  "example_fields = example_fields\<lparr>sr_cause := WRITE\<rparr>"
proof (rule signature_covers_record)
  have e: "encodeHlc (sr_hlc example_fields) = ''00000000000001-00000000-d''" by code_simp
  show "strings_fit (signing_strings example_fields)"
    "strings_fit (signing_strings (example_fields\<lparr>sr_cause := WRITE\<rparr>))"
    by (rule strings_fit_short, simp add: signing_strings_def e, simp add: example_fields_def)+
qed (simp_all add: example_fields_def)

text \<open>
  The bytes a record's pseudonymous id is computed from determine the cookie's identity: space,
  host key, name, path, partition key and source scheme are all covered and cannot run together.
\<close>

theorem identity_bytes_determine:
  assumes "strings_fit (identity_strings a)" "strings_fit (identity_strings b)"
    and "canonicalIdentityBytes a = canonicalIdentityBytes b"
  shows "a = b"
  using assms by (rule identity_bytes_inj)

definition example_identity :: CookieIdentity where
  "example_identity = \<lparr>ci_spaceId = ''s'', ci_hostKey = ''.example.com'', ci_name = ''sid'', ci_path = ''/'',
     ci_partitionKey = '''', ci_sourceScheme = SchemeSecure\<rparr>"

lemma identity_bytes_determine_witness:
  "canonicalIdentityBytes example_identity \<noteq> canonicalIdentityBytes (example_identity\<lparr>ci_name := ''sid2''\<rparr>)"
proof
  assume "canonicalIdentityBytes example_identity = canonicalIdentityBytes (example_identity\<lparr>ci_name := ''sid2''\<rparr>)"
  then have "example_identity = example_identity\<lparr>ci_name := ''sid2''\<rparr>"
    by (rule identity_bytes_determine[rotated 2])
      (rule strings_fit_short, simp add: identity_strings_def example_identity_def)+
  then show False by (simp add: example_identity_def)
qed

end
