(* ===== verification/Continuity.thy ===== *)
theory Continuity
  imports Cookie
begin

text \<open>
  The continuity model (packages/protocol/src/continuity.ts): the policy of an origin and the
  longest-suffix match of a host against the corpus.  The sync engine runs the same loop over its
  per-origin overrides, so the loop is one function of the list and of the domain of an entry.
\<close>

datatype ContinuityMode = Portable | Assisted | DeviceBound

record OriginPolicy =
  op_domain :: string
  op_label :: string
  op_mode :: ContinuityMode
  op_syncTier :: nat
  op_rotatingAuth :: bool
  op_sensitive :: bool
  op_localStorageSync :: bool

definition UNTESTED_ORIGIN_POLICY :: OriginPolicy where
  "UNTESTED_ORIGIN_POLICY =
     \<lparr>op_domain = '''', op_label = ''Untested origin'', op_mode = Assisted, op_syncTier = 0,
      op_rotatingAuth = False, op_sensitive = False, op_localStorageSync = False\<rparr>"

definition hostMatchesDomain :: "string \<Rightarrow> string \<Rightarrow> bool" where
  "hostMatchesDomain host domain \<longleftrightarrow> host = domain \<or> suffix (CHR ''.'' # domain) host"

text \<open>The loop: an entry replaces the best so far only when its domain is strictly longer.\<close>

fun best_match :: "('a \<Rightarrow> string) \<Rightarrow> string \<Rightarrow> 'a option \<Rightarrow> 'a list \<Rightarrow> 'a option" where
  "best_match dm h best [] = best"
| "best_match dm h best (p # ps) =
     best_match dm h
       (if hostMatchesDomain h (dm p) \<and>
           (case best of None \<Rightarrow> True | Some b \<Rightarrow> length (dm p) > length (dm b))
        then Some p else best) ps"

definition matchOriginPolicy :: "OriginPolicy list \<Rightarrow> string \<Rightarrow> OriginPolicy" where
  "matchOriginPolicy policies host =
     (let h = (let l = js_lower host in if prefix ''.'' l then drop 1 l else l)
      in case best_match op_domain h None policies of None \<Rightarrow> UNTESTED_ORIGIN_POLICY | Some p \<Rightarrow> p)"

lemma best_match_some:
  assumes "best_match dm h best ps = Some b"
  shows "(best = Some b \<or> (b \<in> set ps \<and> hostMatchesDomain h (dm b))) \<and>
    (\<forall>p \<in> set ps. hostMatchesDomain h (dm p) \<longrightarrow> length (dm p) \<le> length (dm b)) \<and>
    (\<forall>x. best = Some x \<longrightarrow> length (dm x) \<le> length (dm b))"
  using assms
proof (induction ps arbitrary: best)
  case (Cons p ps)
  let ?b = "if hostMatchesDomain h (dm p) \<and>
           (case best of None \<Rightarrow> True | Some b \<Rightarrow> length (dm p) > length (dm b))
        then Some p else best"
  have "best_match dm h ?b ps = Some b" using Cons.prems by simp
  note ih = Cons.IH[OF this]
  show ?case using ih by (cases best) (auto split: if_splits)
qed simp

lemma best_match_none:
  "best_match dm h best ps = None \<longleftrightarrow> best = None \<and> (\<forall>p \<in> set ps. \<not> hostMatchesDomain h (dm p))"
  by (induction ps arbitrary: best) (auto split: option.splits)

text \<open>Two domains of one length that match one host are the same domain.\<close>

lemma match_same_length:
  assumes "hostMatchesDomain h d" "hostMatchesDomain h e" "length d = length e"
  shows "d = e"
proof -
  have "suffix d h" "suffix e h"
    using assms(1,2) by (auto simp: hostMatchesDomain_def dest: suffix_ConsD)
  then show ?thesis using assms(3) by (auto simp: suffix_def)
qed

lemma best_match_longest:
  assumes "best_match dm h None ps = Some b"
  shows "b \<in> set ps" "hostMatchesDomain h (dm b)"
    "\<And>p. p \<in> set ps \<Longrightarrow> hostMatchesDomain h (dm p) \<Longrightarrow> length (dm p) < length (dm b) \<or> dm p = dm b"
proof -
  note b = best_match_some[OF assms]
  show "b \<in> set ps" and m: "hostMatchesDomain h (dm b)" using b by auto
  fix p assume p: "p \<in> set ps" "hostMatchesDomain h (dm p)"
  then have "length (dm p) \<le> length (dm b)" using b by blast
  then show "length (dm p) < length (dm b) \<or> dm p = dm b"
    using match_same_length[OF p(2) m] by linarith
qed

lemma matchOriginPolicy_norm: "matchOriginPolicy ps host =
    (case best_match op_domain (normalizedHost host) None ps of
       None \<Rightarrow> UNTESTED_ORIGIN_POLICY | Some p \<Rightarrow> p)"
  by (simp add: matchOriginPolicy_def normalizedHost_def)

text \<open>
  Policy lookup is longest-suffix matching: when some policy covers the host, the one returned is
  in the list, covers the host, and no covering policy has a longer domain; two of the same length
  are for the same domain, so list order decides nothing but between repeated domains.
\<close>

theorem matchOriginPolicy_longest:
  assumes "q \<in> set ps" "hostMatchesDomain (normalizedHost host) (op_domain q)"
  shows "matchOriginPolicy ps host \<in> set ps \<and>
    hostMatchesDomain (normalizedHost host) (op_domain (matchOriginPolicy ps host)) \<and>
    (length (op_domain q) < length (op_domain (matchOriginPolicy ps host)) \<or>
     op_domain q = op_domain (matchOriginPolicy ps host))"
proof -
  obtain b where b: "best_match op_domain (normalizedHost host) None ps = Some b"
    using assms best_match_none[of op_domain "normalizedHost host" None ps] by fastforce
  then show ?thesis
    using best_match_longest[OF b] assms by (simp add: matchOriginPolicy_norm)
qed

definition policy_for :: "string \<Rightarrow> OriginPolicy" where
  "policy_for d = UNTESTED_ORIGIN_POLICY\<lparr>op_domain := d\<rparr>"

lemma matchOriginPolicy_longest_witness:
  "matchOriginPolicy [policy_for ''google.com'', policy_for ''mail.google.com''] ''.Mail.Google.com'' \<in>
     {policy_for ''google.com'', policy_for ''mail.google.com''}"
proof -
  have "hostMatchesDomain (normalizedHost ''.Mail.Google.com'') (op_domain (policy_for ''google.com''))"
    by code_simp
  from matchOriginPolicy_longest[OF _ this, of "[policy_for ''google.com'', policy_for ''mail.google.com'']"]
  show ?thesis by simp
qed

end
