(* ===== verification/Corpus.thy ===== *)
theory Corpus
  imports Continuity
begin

text \<open>
  The shared tables (packages/config/src): the seed corpus of origin policies, the domains the
  egress policy routes direct, and the product constants the modelled components read.  A rule's
  regular expression on a path is the predicate it tests.
\<close>

section \<open>Constants\<close>

definition TOMBSTONE_RETENTION_MS :: nat where
  "TOMBSTONE_RETENTION_MS = 30 * 24 * 60 * 60 * 1000"

definition ORIGIN_LEASE_TTL_MS :: nat where
  "ORIGIN_LEASE_TTL_MS = 60000"

definition MAX_MUTATIONS_PER_ORIGIN_PER_MINUTE :: nat where
  "MAX_MUTATIONS_PER_ORIGIN_PER_MINUTE = 120"

section \<open>The seed corpus\<close>

definition policy_entry ::
  "string \<Rightarrow> string \<Rightarrow> ContinuityMode \<Rightarrow> nat \<Rightarrow> bool \<Rightarrow> bool \<Rightarrow> bool \<Rightarrow> OriginPolicy" where
  "policy_entry d l m t r s ls =
     \<lparr>op_domain = d, op_label = l, op_mode = m, op_syncTier = t, op_rotatingAuth = r,
      op_sensitive = s, op_localStorageSync = ls\<rparr>"

definition SEED_CORPUS :: "OriginPolicy list" where
  "SEED_CORPUS =
  [policy_entry ''github.com'' ''GitHub'' Portable 1 False False False,
   policy_entry ''gitlab.com'' ''GitLab'' Portable 1 False False False,
   policy_entry ''linear.app'' ''Linear'' Portable 1 False False False,
   policy_entry ''vercel.com'' ''Vercel'' Portable 1 False False False,
   policy_entry ''netlify.com'' ''Netlify'' Portable 1 False False False,
   policy_entry ''fly.io'' ''Fly.io'' Portable 1 False False False,
   policy_entry ''cloudflare.com'' ''Cloudflare'' Assisted 1 True False False,
   policy_entry ''npmjs.com'' ''npm'' Portable 1 False False False,
   policy_entry ''pypi.org'' ''PyPI'' Portable 1 False False False,
   policy_entry ''crates.io'' ''crates.io'' Portable 1 False False False,
   policy_entry ''stackoverflow.com'' ''Stack Overflow'' Portable 1 False False False,
   policy_entry ''huggingface.co'' ''Hugging Face'' Portable 1 False False False,
   policy_entry ''openai.com'' ''OpenAI'' Assisted 1 True False False,
   policy_entry ''anthropic.com'' ''Anthropic'' Assisted 1 True False False,
   policy_entry ''claude.ai'' ''Claude'' Assisted 1 True False False,
   policy_entry ''sentry.io'' ''Sentry'' Portable 1 False False False,
   policy_entry ''datadoghq.com'' ''Datadog'' Assisted 1 False False False,
   policy_entry ''grafana.com'' ''Grafana Cloud'' Portable 1 False False False,
   policy_entry ''supabase.com'' ''Supabase'' Portable 1 False False False,
   policy_entry ''neon.tech'' ''Neon'' Portable 1 False False False,
   policy_entry ''render.com'' ''Render'' Portable 1 False False False,
   policy_entry ''google.com'' ''Google Workspace'' Assisted 1 True False False,
   policy_entry ''gmail.com'' ''Gmail'' Assisted 1 True False False,
   policy_entry ''notion.so'' ''Notion'' Portable 1 False False True,
   policy_entry ''figma.com'' ''Figma'' Portable 1 False False False,
   policy_entry ''slack.com'' ''Slack'' Assisted 1 True False True,
   policy_entry ''discord.com'' ''Discord'' Assisted 1 True False False,
   policy_entry ''x.com'' ''X'' Portable 1 False False False,
   policy_entry ''linkedin.com'' ''LinkedIn'' Assisted 1 False False False,
   policy_entry ''atlassian.net'' ''Jira / Confluence'' Assisted 1 True False False,
   policy_entry ''asana.com'' ''Asana'' Portable 1 False False False,
   policy_entry ''airtable.com'' ''Airtable'' Portable 1 False False False,
   policy_entry ''loom.com'' ''Loom'' Portable 1 False False False,
   policy_entry ''zoom.us'' ''Zoom'' Assisted 0 False False False,
   policy_entry ''netflix.com'' ''Netflix'' DeviceBound 0 False False False,
   policy_entry ''spotify.com'' ''Spotify'' Assisted 1 True False False,
   policy_entry ''youtube.com'' ''YouTube'' Assisted 1 True False False,
   policy_entry ''chase.com'' ''Chase'' DeviceBound 0 True True False,
   policy_entry ''bankofamerica.com'' ''Bank of America'' DeviceBound 0 True True False,
   policy_entry ''fidelity.com'' ''Fidelity'' DeviceBound 0 True True False,
   policy_entry ''stripe.com'' ''Stripe'' Assisted 0 True True False,
   policy_entry ''aws.amazon.com'' ''AWS Console'' Assisted 0 True True False,
   policy_entry ''console.cloud.google.com'' ''GCP Console'' Assisted 0 True True False,
   policy_entry ''okta.com'' ''Okta (corporate SSO)'' DeviceBound 0 True True False]"

section \<open>Egress tables\<close>

definition MEDIA_BYPASS_DOMAINS :: "string list" where
  "MEDIA_BYPASS_DOMAINS =
  [''youtube.com'', ''googlevideo.com'', ''netflix.com'', ''nflxvideo.net'',
    ''spotify.com'', ''scdn.co'', ''twitch.tv'', ''ttvnw.net'', ''vimeo.com'',
    ''cloudfront.net'']"

definition SEEDED_HOSTILE_DOMAINS :: "string list" where
  "SEEDED_HOSTILE_DOMAINS =
  [''ticketmaster.com'', ''nike.com'', ''bestbuy.com'', ''walmart.com'', ''target.com'']"

text \<open>\<open>(?:^|/)\<close> before a pattern: at the start of the path or after any slash.\<close>

fun after_slash :: "(string \<Rightarrow> bool) \<Rightarrow> string \<Rightarrow> bool" where
  "after_slash f [] = False"
| "after_slash f (c # cs) = ((c = CHR ''/'' \<and> f cs) \<or> after_slash f cs)"

definition at_segment :: "(string \<Rightarrow> bool) \<Rightarrow> string \<Rightarrow> bool" where
  "at_segment f s \<longleftrightarrow> f s \<or> after_slash f s"

definition shopify_path :: "string \<Rightarrow> bool" where
  "shopify_path =
     at_segment (\<lambda>s. prefix ''checkouts/cn/'' s \<or> prefix ''checkouts/co/'' s \<or> prefix ''checkouts/c/'' s)"

definition stripe_path :: "string \<Rightarrow> bool" where
  "stripe_path = at_segment (prefix ''c/pay/cs_'')"

text \<open>\<open>(?:$|[/?])\<close> after a pattern.\<close>

definition ends_or_slash :: "string \<Rightarrow> bool" where
  "ends_or_slash s \<longleftrightarrow> (case s of [] \<Rightarrow> True | c # _ \<Rightarrow> c = CHR ''/'' \<or> c = CHR ''?'')"

definition paypal_path :: "string \<Rightarrow> bool" where
  "paypal_path s \<longleftrightarrow>
     (prefix ''/checkoutnow'' s \<and> ends_or_slash (drop 12 s)) \<or>
     (prefix ''/webapps/hermes'' s \<and> ends_or_slash (drop 15 s))"

record HostedCheckoutRule =
  hc_label :: string
  hc_host :: "string option"
  hc_path :: "(string \<Rightarrow> bool) option"

definition host_rule :: "string \<Rightarrow> string \<Rightarrow> HostedCheckoutRule" where
  "host_rule l h = \<lparr>hc_label = l, hc_host = Some h, hc_path = None\<rparr>"

definition path_rule :: "string \<Rightarrow> (string \<Rightarrow> bool) \<Rightarrow> HostedCheckoutRule" where
  "path_rule l p = \<lparr>hc_label = l, hc_host = None, hc_path = Some p\<rparr>"

definition HOSTED_CHECKOUT_RULES :: "HostedCheckoutRule list" where
  "HOSTED_CHECKOUT_RULES =
  [host_rule ''Stripe Checkout'' ''checkout.stripe.com'',
   host_rule ''Stripe payment link'' ''buy.stripe.com'',
   host_rule ''Stripe payment page'' ''pay.stripe.com'',
   host_rule ''Stripe payment element'' ''js.stripe.com'',
   host_rule ''Stripe fraud signals'' ''m.stripe.com'',
   host_rule ''Stripe fraud signals'' ''m.stripe.network'',
   host_rule ''Stripe Link'' ''link.com'',
   host_rule ''Shopify checkout'' ''checkout.shopify.com'',
   host_rule ''Shop Pay'' ''shop.app'',
   host_rule ''PayPal checkout'' ''checkout.paypal.com'',
   host_rule ''Adyen checkout'' ''checkout.adyen.com'',
   host_rule ''Braintree checkout'' ''checkout.braintreegateway.com'',
   host_rule ''Square checkout'' ''checkout.square.site'',
   host_rule ''Paddle checkout'' ''buy.paddle.com'',
   host_rule ''Paddle checkout'' ''checkout.paddle.com'',
   host_rule ''Lemon Squeezy checkout'' ''checkout.lemonsqueezy.com'',
   host_rule ''Chargebee checkout'' ''checkout.chargebee.com'',
   host_rule ''Razorpay checkout'' ''checkout.razorpay.com'',
   host_rule ''Klarna checkout'' ''checkout.klarna.com'',
   host_rule ''Affirm checkout'' ''checkout.affirm.com'',
   host_rule ''Google Pay'' ''pay.google.com'',
   path_rule ''Shopify checkout'' shopify_path,
   path_rule ''Stripe Checkout'' stripe_path,
   path_rule ''PayPal checkout'' paypal_path]"

section \<open>Facts about the tables\<close>

lemma corpus_sensitive_untiered:
  "\<forall>p \<in> set SEED_CORPUS. op_sensitive p \<longrightarrow> op_syncTier p = 0"
  by (simp add: SEED_CORPUS_def policy_entry_def)

lemma corpus_domains_distinct: "distinct (map op_domain SEED_CORPUS)"
  by (simp add: SEED_CORPUS_def policy_entry_def)

end
