(* ===== verification/Egress.thy ===== *)
theory Egress
  imports Corpus
begin

text \<open>
  The identity egress policy (packages/egress-policy/src/index.ts): host classification, hosted
  checkout detection, the routing decision and the proxy configuration handed to Chromium.  The
  URL parser of the platform is a parameter: it gives protocol, host name and path name.
\<close>

section \<open>Types\<close>

datatype EgressRoute = RGateway | RDirect | RBlocked

datatype EgressReason = SpaceDirect | Loopback | PrivateRange | VpnRoute | MediaBypass
  | HostedCheckout | SiteBypass | GatewayDownOverride | GatewayDownFailclosed | Identity

record EgressDecision =
  ed_route :: EgressRoute
  ed_reason :: EgressReason
  ed_explanation :: string

datatype GatewayState = GwUp | GwDown

datatype EgressPolicy = SumaIp | Direct

record SpaceEgressConfig =
  se_spaceId :: string
  se_policy :: EgressPolicy
  se_siteBypass :: "string list"
  se_mediaBypass :: bool
  se_checkoutBypass :: bool
  se_detectedCheckoutHosts :: "string list"
  se_temporaryDirectOverride :: bool

record NetworkContext =
  nc_gateway :: GatewayState
  nc_vpnRoutes :: "string list"
  nc_vpnActive :: bool

definition defaultSpaceEgress :: "string \<Rightarrow> SpaceEgressConfig" where
  "defaultSpaceEgress spaceId =
     \<lparr>se_spaceId = spaceId, se_policy = Direct, se_siteBypass = [], se_mediaBypass = True,
      se_checkoutBypass = True, se_detectedCheckoutHosts = [], se_temporaryDirectOverride = False\<rparr>"

section \<open>Host classification\<close>

definition is_digit :: "char \<Rightarrow> bool" where
  "is_digit c \<longleftrightarrow> CHR ''0'' \<le> c \<and> c \<le> CHR ''9''"

text \<open>\<open>\d{1,3}\<close>\<close>

definition digits13 :: "string \<Rightarrow> bool" where
  "digits13 s \<longleftrightarrow> 1 \<le> length s \<and> length s \<le> 3 \<and> list_all is_digit s"

definition decimal :: "string \<Rightarrow> nat" where
  "decimal s = foldl (\<lambda>n c. 10 * n + (of_char c - 48)) 0 s"

definition dotted_quad :: "string \<Rightarrow> (nat \<times> nat) option" where
  "dotted_quad h =
     (case js_split (CHR ''.'') h of
        [a, b, c, d] \<Rightarrow>
          if digits13 a \<and> digits13 b \<and> digits13 c \<and> digits13 d then Some (decimal a, decimal b) else None
      | _ \<Rightarrow> None)"

definition isLoopbackHost :: "string \<Rightarrow> bool" where
  "isLoopbackHost host =
     (let h = js_lower host
      in if h = ''localhost'' \<or> suffix ''.localhost'' h then True
         else if h = ''::1'' \<or> h = ''[::1]'' then True
         else (case js_split (CHR ''.'') h of
                 [a, b, c, d] \<Rightarrow> a = ''127'' \<and> digits13 b \<and> digits13 c \<and> digits13 d
               | _ \<Rightarrow> False))"

definition strip_brackets :: "string \<Rightarrow> string" where
  "strip_brackets s =
     (let t = (if prefix ''['' s then drop 1 s else s) in if suffix '']'' t then butlast t else t)"

definition lower_hex :: "char \<Rightarrow> bool" where
  "lower_hex c \<longleftrightarrow> is_digit c \<or> (CHR ''a'' \<le> c \<and> c \<le> CHR ''f'')"

definition unique_local6 :: "string \<Rightarrow> bool" where
  "unique_local6 h \<longleftrightarrow> length h \<ge> 5 \<and> h ! 0 = CHR ''f'' \<and> h ! 1 \<in> {CHR ''c'', CHR ''d''} \<and>
     lower_hex (h ! 2) \<and> lower_hex (h ! 3) \<and> h ! 4 = CHR '':''"

definition link_local6 :: "string \<Rightarrow> bool" where
  "link_local6 h \<longleftrightarrow> length h \<ge> 5 \<and> h ! 0 = CHR ''f'' \<and> h ! 1 = CHR ''e'' \<and>
     h ! 2 \<in> {CHR ''8'', CHR ''9'', CHR ''a'', CHR ''b''} \<and> lower_hex (h ! 3) \<and> h ! 4 = CHR '':''"

definition isPrivateHost :: "string \<Rightarrow> bool" where
  "isPrivateHost host =
     (let h = strip_brackets (js_lower host)
      in case dotted_quad h of
           Some (a, b) \<Rightarrow>
             if a = 10 then True
             else if a = 192 \<and> b = 168 then True
             else if a = 172 \<and> b \<ge> 16 \<and> b \<le> 31 then True
             else if a = 169 \<and> b = 254 then True
             else if a = 100 \<and> b \<ge> 64 \<and> b \<le> 127 then True
             else False
         | None \<Rightarrow>
             if unique_local6 h then True
             else if link_local6 h then True
             else if CHR '':'' \<in> set h then False
             else if CHR ''.'' \<notin> set h \<and> \<not> isLoopbackHost h then True
             else False)"

definition hostMatches :: "string \<Rightarrow> string \<Rightarrow> bool" where
  "hostMatches host sfx =
     (let h = normalizedHost host; s = normalizedHost sfx in h = s \<or> suffix (CHR ''.'' # s) h)"

definition isMediaHost :: "string \<Rightarrow> bool" where
  "isMediaHost host \<longleftrightarrow> list_ex (\<lambda>d. hostMatches host d) MEDIA_BYPASS_DOMAINS"

definition isKnownHostileToDatacenterIps :: "string \<Rightarrow> bool" where
  "isKnownHostileToDatacenterIps host \<longleftrightarrow> list_ex (\<lambda>d. hostMatches host d) SEEDED_HOSTILE_DOMAINS"

section \<open>Hosted checkout detection\<close>

definition HOSTED_CHECKOUT_DOMAINS :: "string list" where
  "HOSTED_CHECKOUT_DOMAINS =
     List.map_filter (\<lambda>r. if hc_path r = None then hc_host r else None) HOSTED_CHECKOUT_RULES"

record HostedCheckoutMatch =
  hm_host :: string
  hm_label :: string

record parsed_url =
  url_protocol :: string
  url_hostname :: string
  url_pathname :: string

fun first_rule :: "parsed_url \<Rightarrow> HostedCheckoutRule list \<Rightarrow> HostedCheckoutMatch option" where
  "first_rule u [] = None"
| "first_rule u (r # rs) =
     (if (case hc_host r of None \<Rightarrow> False | Some h \<Rightarrow> \<not> hostMatches (url_hostname u) h) then first_rule u rs
      else if (case hc_path r of None \<Rightarrow> False | Some p \<Rightarrow> \<not> p (url_pathname u)) then first_rule u rs
      else if hc_host r = None \<and> hc_path r = None then first_rule u rs
      else Some \<lparr>hm_host = normalizedHost (url_hostname u), hm_label = hc_label r\<rparr>)"

definition matchHostedCheckout ::
  "(string \<Rightarrow> parsed_url option) \<Rightarrow> string \<Rightarrow> HostedCheckoutMatch option" where
  "matchHostedCheckout parse_url url =
     (case parse_url url of
        None \<Rightarrow> None
      | Some u \<Rightarrow>
          if url_protocol u \<noteq> ''http:'' \<and> url_protocol u \<noteq> ''https:'' then None
          else first_rule u HOSTED_CHECKOUT_RULES)"

definition isHostedCheckoutHost :: "string \<Rightarrow> bool" where
  "isHostedCheckoutHost host \<longleftrightarrow> list_ex (\<lambda>d. hostMatches host d) HOSTED_CHECKOUT_DOMAINS"

definition matchesVpnRoute :: "string \<Rightarrow> string list \<Rightarrow> bool" where
  "matchesVpnRoute host routes \<longleftrightarrow> list_ex (\<lambda>r. hostMatches host r) routes"

definition isCheckoutBypassHost :: "string \<Rightarrow> SpaceEgressConfig \<Rightarrow> bool" where
  "isCheckoutBypassHost host space =
     (if isHostedCheckoutHost host then True
      else list_ex (\<lambda>h. hostMatches host h) (se_detectedCheckoutHosts space))"

section \<open>The decision\<close>

definition decideEgress :: "string \<Rightarrow> SpaceEgressConfig \<Rightarrow> NetworkContext \<Rightarrow> EgressDecision" where
  "decideEgress host space net =
     (if isLoopbackHost host then
        \<lparr>ed_route = RDirect, ed_reason = Loopback,
         ed_explanation = ''Local address - never proxied.''\<rparr>
      else if isPrivateHost host then
        \<lparr>ed_route = RDirect, ed_reason = PrivateRange,
         ed_explanation = ''Private network address - never proxied.''\<rparr>
      else if nc_vpnActive net \<and> matchesVpnRoute host (nc_vpnRoutes net) then
        \<lparr>ed_route = RDirect, ed_reason = VpnRoute,
         ed_explanation = ''Routed by your active VPN - browsing direct on this network.''\<rparr>
      else if se_policy space = Direct then
        \<lparr>ed_route = RDirect, ed_reason = SpaceDirect,
         ed_explanation = ''This space browses direct.''\<rparr>
      else if list_ex (\<lambda>s. hostMatches host s) (se_siteBypass space) then
        \<lparr>ed_route = RDirect, ed_reason = SiteBypass,
         ed_explanation = ''You chose to browse this site direct.''\<rparr>
      else if se_checkoutBypass space \<and> isCheckoutBypassHost host space then
        \<lparr>ed_route = RDirect, ed_reason = HostedCheckout,
         ed_explanation = ''Hosted checkout pages refuse proxied requests, so this payment page browses direct.''\<rparr>
      else if se_mediaBypass space \<and> isMediaHost host then
        \<lparr>ed_route = RDirect, ed_reason = MediaBypass,
         ed_explanation = ''High-bandwidth media bypasses the identity gateway by default.''\<rparr>
      else if nc_gateway net = GwDown then
        (if se_temporaryDirectOverride space then
           \<lparr>ed_route = RDirect, ed_reason = GatewayDownOverride,
            ed_explanation = ''Identity gateway unreachable - browsing direct for now, at your request.''\<rparr>
         else
           \<lparr>ed_route = RBlocked, ed_reason = GatewayDownFailclosed,
            ed_explanation = ''Identity gateway unreachable. Suma blocked this request rather than reveal your real IP.''\<rparr>)
      else
        \<lparr>ed_route = RGateway, ed_reason = Identity,
         ed_explanation = ''Browsing through your Suma identity IP.''\<rparr>)"

section \<open>Client wiring\<close>

record ChromiumProxyConfig =
  px_proxyRules :: string
  px_proxyBypassRules :: string
  px_disableQuic :: bool

definition bypassPatternsFor :: "string list \<Rightarrow> string list" where
  "bypassPatternsFor hosts = concat (map (\<lambda>h. [h, ''*.'' @ h]) hosts)"

definition LOCAL_BYPASS_RULES :: string where
  "LOCAL_BYPASS_RULES =
     ''<local>;localhost;127.0.0.1/8;::1;10.0.0.0/8;172.16.0.0/12;192.168.0.0/16;169.254.0.0/16;fc00::/7;fe80::/10''"

fun js_join :: "string \<Rightarrow> string list \<Rightarrow> string" where
  "js_join sep [] = []"
| "js_join sep [x] = x"
| "js_join sep (x # y # xs) = x @ sep @ js_join sep (y # xs)"

text \<open>The list of patterns that \<open>join(";")\<close> makes one string of.\<close>

definition bypass_list :: "SpaceEgressConfig \<Rightarrow> NetworkContext \<Rightarrow> string list" where
  "bypass_list space net =
     [LOCAL_BYPASS_RULES] @ se_siteBypass space @
     (if se_mediaBypass space then MEDIA_BYPASS_DOMAINS else []) @
     (if se_checkoutBypass space
      then bypassPatternsFor (HOSTED_CHECKOUT_DOMAINS @ se_detectedCheckoutHosts space) else []) @
     (if nc_vpnActive net then nc_vpnRoutes net else [])"

definition proxyConfigFor :: "SpaceEgressConfig \<Rightarrow> nat \<Rightarrow> NetworkContext \<Rightarrow> ChromiumProxyConfig" where
  "proxyConfigFor space localProxyPort net =
     (if se_policy space = Direct then
        \<lparr>px_proxyRules = ''direct://'', px_proxyBypassRules = '''', px_disableQuic = False\<rparr>
      else
        \<lparr>px_proxyRules = ''https=127.0.0.1:'' @ decimal_text localProxyPort @
           '';http=127.0.0.1:'' @ decimal_text localProxyPort,
         px_proxyBypassRules = js_join '';'' (bypass_list space net),
         px_disableQuic = True\<rparr>)"

record BypassSuggestion =
  bs_host :: string
  bs_reason :: string

definition suggestBypassOnChallenge ::
  "string \<Rightarrow> nat \<Rightarrow> SpaceEgressConfig \<Rightarrow> BypassSuggestion option" where
  "suggestBypassOnChallenge host httpStatus space =
     (if se_policy space \<noteq> SumaIp then None
      else if list_ex (\<lambda>s. hostMatches host s) (se_siteBypass space) then None
      else
        (let challenged = (httpStatus = 403 \<or> httpStatus = 429 \<or> httpStatus = 503)
         in if \<not> challenged \<and> \<not> isKnownHostileToDatacenterIps host then None
            else Some
              \<lparr>bs_host = normalizedHost host,
               bs_reason =
                 (if isKnownHostileToDatacenterIps host
                  then ''This site is known to challenge datacenter IP addresses.''
                  else ''This site returned '' @ decimal_text httpStatus @
                       '', which often means it is challenging the IP address.'')\<rparr>))"

section \<open>Facts\<close>

text \<open>The hosts the policy exempts from the gateway whatever the gateway's state.\<close>

definition exempt :: "string \<Rightarrow> SpaceEgressConfig \<Rightarrow> NetworkContext \<Rightarrow> bool" where
  "exempt host space net \<longleftrightarrow>
     isLoopbackHost host \<or> isPrivateHost host \<or>
     (nc_vpnActive net \<and> matchesVpnRoute host (nc_vpnRoutes net)) \<or>
     se_policy space = Direct \<or>
     list_ex (\<lambda>s. hostMatches host s) (se_siteBypass space) \<or>
     (se_checkoutBypass space \<and> isCheckoutBypassHost host space) \<or>
     (se_mediaBypass space \<and> isMediaHost host)"

lemma route_by_exemption:
  "ed_route (decideEgress host space net) =
     (if exempt host space net then RDirect
      else if nc_gateway net = GwUp then RGateway
      else if se_temporaryDirectOverride space then RDirect else RBlocked)"
  by (cases "nc_gateway net") (auto simp: decideEgress_def exempt_def)

lemma reason_route:
  "ed_reason (decideEgress host space net) = GatewayDownOverride \<longleftrightarrow>
     \<not> exempt host space net \<and> nc_gateway net = GwDown \<and> se_temporaryDirectOverride space"
  by (cases "nc_gateway net") (auto simp: decideEgress_def exempt_def)

text \<open>
  How Chromium reads one bypass pattern, as the comment on \<open>bypassPatternsFor\<close> states it: a bare
  host name is compared exactly, \<open>*.h\<close> covers the subdomains of \<open>h\<close>.
\<close>

definition chromium_pattern :: "string \<Rightarrow> string \<Rightarrow> bool" where
  "chromium_pattern p host \<longleftrightarrow>
     (if prefix ''*.'' p then suffix (drop 1 p) host else host = p)"

definition chromium_bypasses :: "string list \<Rightarrow> string \<Rightarrow> bool" where
  "chromium_bypasses ps host \<longleftrightarrow> list_ex (\<lambda>p. chromium_pattern p host) ps"

lemma chromium_bypasses_append:
  "chromium_bypasses (ps @ qs) h \<longleftrightarrow> chromium_bypasses ps h \<or> chromium_bypasses qs h"
  by (simp add: chromium_bypasses_def)

lemma patterns_cover:
  assumes "d \<in> set ds" "normalizedHost d = d" "normalizedHost host = host" "\<not> prefix ''*.'' d"
    and "hostMatches host d"
  shows "chromium_bypasses (bypassPatternsFor ds) host"
proof -
  have "host = d \<or> suffix (CHR ''.'' # d) host"
    using assms(2,3,5) by (simp add: hostMatches_def)
  then have "chromium_pattern d host \<or> chromium_pattern (''*.'' @ d) host"
    using assms(4) by (auto simp: chromium_pattern_def)
  then show ?thesis
    using assms(1) by (auto simp: chromium_bypasses_def bypassPatternsFor_def list_ex_iff)
qed

section \<open>Properties\<close>

text \<open>
  The egress decision fails closed: a host is browsed direct only when the policy exempts it
  (loopback, private range, active VPN route, a direct space, a site, checkout or media bypass) or,
  with the gateway down, when the user has overridden the space; a host that is not exempt goes
  through the gateway while it is up and is blocked otherwise.
\<close>

theorem egress_fails_closed:
  "ed_route (decideEgress host space net) =
     (if exempt host space net then RDirect
      else if nc_gateway net = GwUp then RGateway
      else if se_temporaryDirectOverride space then RDirect else RBlocked)"
  by (rule route_by_exemption)

text \<open>
  For hosted checkout the proxy configuration agrees with the decision: a host the decision
  exempts because it is, or is below, a known checkout domain is also bypassed by the patterns
  handed to Chromium.
\<close>

theorem checkout_bypass_wired:
  assumes "se_policy space \<noteq> Direct" "se_checkoutBypass space" "isHostedCheckoutHost host"
    and "normalizedHost host = host"
  shows "chromium_bypasses (bypass_list space net) host"
proof -
  obtain d where d: "d \<in> set HOSTED_CHECKOUT_DOMAINS" "hostMatches host d"
    using assms(3) by (auto simp: isHostedCheckoutHost_def list_ex_iff)
  have "list_all (\<lambda>d. normalizedHost d = d \<and> \<not> prefix ''*.'' d) HOSTED_CHECKOUT_DOMAINS" by code_simp
  then have n: "normalizedHost d = d" "\<not> prefix ''*.'' d" using d(1) by (auto simp: list_all_iff)
  have "chromium_bypasses (bypassPatternsFor (HOSTED_CHECKOUT_DOMAINS @ se_detectedCheckoutHosts space)) host"
    by (rule patterns_cover[of d]) (use d n assms(4) in auto)
  then show ?thesis using assms(2) by (auto simp: bypass_list_def chromium_bypasses_def)
qed

definition example_space :: SpaceEgressConfig where
  "example_space = (defaultSpaceEgress ''s'')\<lparr>se_policy := SumaIp\<rparr>"

definition example_net :: NetworkContext where
  "example_net = \<lparr>nc_gateway = GwUp, nc_vpnRoutes = [], nc_vpnActive = False\<rparr>"

lemma checkout_bypass_wired_witness:
  "chromium_bypasses (bypass_list example_space example_net) ''pay.checkout.stripe.com''"
  by (rule checkout_bypass_wired) (code_simp+)

text \<open>
  For media it does not: a subdomain of a media domain is direct by the decision and is not covered
  by any pattern of the proxy configuration, because the media domains are pushed without their
  \<open>*.\<close> form.
\<close>

lemma media_subdomain_not_wired:
  "ed_reason (decideEgress ''www.youtube.com'' example_space example_net) = MediaBypass \<and>
   \<not> chromium_bypasses (concat (map (js_split (CHR '';'')) (bypass_list example_space example_net)))
       ''www.youtube.com''"
  by code_simp

end
