(* ===== verification/Chunking.thy ===== *)
theory Chunking
  imports Encoding
begin

text \<open>
  Content-defined chunking (packages/chunking/src/index.ts): the masks, the gear table, the
  boundary search with its 32-bit rolling hash, the chunk list and manifest of a buffer, the
  streaming builder, reassembly and deduplication.  BLAKE3 and its hexadecimal text come from
  @noble/hashes and are parameters: \<open>blake3\<close>, \<open>hex\<close> and, for the incremental use, a
  record of create, update and digest.
\<close>

section \<open>Parameters of the algorithm\<close>

definition MIN_CHUNK_BYTES :: nat where "MIN_CHUNK_BYTES = 256 * 1024"

definition AVG_CHUNK_BYTES :: nat where "AVG_CHUNK_BYTES = 1024 * 1024"

definition MAX_CHUNK_BYTES :: nat where "MAX_CHUNK_BYTES = 4 * 1024 * 1024"

definition maskWithBits :: "nat \<Rightarrow> 32 word" where
  "maskWithBits bits = foldl (\<lambda>msk i. msk OR push_bit (i * 32 div bits) 1) 0 [0..<bits]"

definition MASK_SMALL :: "32 word" where "MASK_SMALL = maskWithBits 22"

definition MASK_LARGE :: "32 word" where "MASK_LARGE = maskWithBits 18"

definition GEAR_DOMAIN :: string where "GEAR_DOMAIN = ''suma.fastcdc.gear.v1''"

text \<open>Entry \<open>i\<close>: the little-endian word of the first four bytes of the digest.\<close>

definition gear_entry :: "(byte list \<Rightarrow> byte list) \<Rightarrow> byte \<Rightarrow> 32 word" where
  "gear_entry blake3 i =
     (let d = blake3 (utf8 GEAR_DOMAIN @ [i])
      in push_bit 24 (ucast (d ! 3)) OR push_bit 16 (ucast (d ! 2)) OR push_bit 8 (ucast (d ! 1))
         OR ucast (d ! 0))"

definition buildGearTable :: "(byte list \<Rightarrow> byte list) \<Rightarrow> 32 word list" where
  "buildGearTable blake3 = map (\<lambda>i. gear_entry blake3 (of_nat i)) [0..<256]"

definition uint32_le :: "32 word \<Rightarrow> byte list" where
  "uint32_le w = [ucast w, ucast (drop_bit 8 w), ucast (drop_bit 16 w), ucast (drop_bit 24 w)]"

definition gearTableFingerprint ::
  "(byte list \<Rightarrow> byte list) \<Rightarrow> (byte list \<Rightarrow> string) \<Rightarrow> string" where
  "gearTableFingerprint blake3 hex =
     hex (blake3 (concat (map uint32_le (buildGearTable blake3))))"

section \<open>Boundaries\<close>

text \<open>
  One of the two loops: \<open>Inl\<close> a boundary, or \<open>Inr\<close> the hash with which the loop reached its
  limit.
\<close>

function scan :: "32 word list \<Rightarrow> 32 word \<Rightarrow> byte list \<Rightarrow> nat \<Rightarrow> nat \<Rightarrow> 32 word \<Rightarrow> nat + 32 word" where
  "scan gear msk data i limit hash =
     (if i < limit then
        (let hash' = push_bit 1 hash + gear ! unat (data ! i)
         in if hash' AND msk = 0 then Inl (i + 1) else scan gear msk data (i + 1) limit hash')
      else Inr hash)"
  by pat_completeness auto
termination by (relation "measure (\<lambda>(g, m, d, i, limit, h). limit - i)") auto

declare scan.simps [simp del]

definition nextBoundary :: "32 word list \<Rightarrow> byte list \<Rightarrow> nat \<Rightarrow> nat" where
  "nextBoundary gear data start =
     (let remaining = length data - start
      in if remaining \<le> MIN_CHUNK_BYTES then length data
         else
           (let hardLimit = start + min remaining MAX_CHUNK_BYTES;
                normalLimit = start + min remaining AVG_CHUNK_BYTES
            in case scan gear MASK_SMALL data (start + MIN_CHUNK_BYTES) normalLimit 0 of
                 Inl b \<Rightarrow> b
               | Inr hash \<Rightarrow>
                   (case scan gear MASK_LARGE data (max (start + MIN_CHUNK_BYTES) normalLimit) hardLimit hash of
                      Inl b \<Rightarrow> b
                    | Inr _ \<Rightarrow> hardLimit)))"

lemma chunk_sizes: "0 < MIN_CHUNK_BYTES" "MIN_CHUNK_BYTES < AVG_CHUNK_BYTES" "AVG_CHUNK_BYTES < MAX_CHUNK_BYTES"
  by (simp_all add: MIN_CHUNK_BYTES_def AVG_CHUNK_BYTES_def MAX_CHUNK_BYTES_def)

lemma scan_bounds: "scan gear msk data i limit h = Inl b \<Longrightarrow> i < b \<and> b \<le> limit"
proof (induction gear msk data i limit h rule: scan.induct)
  case (1 gear msk data i limit h)
  then show ?case
    by (subst (asm) (2) scan.simps) (fastforce simp: Let_def split: if_splits)
qed

lemma nextBoundary_bounds:
  assumes "start < length data"
  shows "start < nextBoundary gear data start" "nextBoundary gear data start \<le> length data"
    "nextBoundary gear data start \<le> start + MAX_CHUNK_BYTES"
    "nextBoundary gear data start < length data \<Longrightarrow> start + MIN_CHUNK_BYTES < nextBoundary gear data start"
proof -
  let ?r = "length data - start"
  have "start < nextBoundary gear data start \<and> nextBoundary gear data start \<le> length data \<and>
    nextBoundary gear data start \<le> start + MAX_CHUNK_BYTES \<and>
    (nextBoundary gear data start < length data \<longrightarrow> start + MIN_CHUNK_BYTES < nextBoundary gear data start)"
  proof (cases "?r \<le> MIN_CHUNK_BYTES")
    case True
    then show ?thesis using assms chunk_sizes by (simp add: nextBoundary_def)
  next
    case False
    define H where "H = start + min ?r MAX_CHUNK_BYTES"
    define N where "N = start + min ?r AVG_CHUNK_BYTES"
    have nb: "nextBoundary gear data start =
        (case scan gear MASK_SMALL data (start + MIN_CHUNK_BYTES) N 0 of
           Inl b \<Rightarrow> b
         | Inr hash \<Rightarrow> (case scan gear MASK_LARGE data (max (start + MIN_CHUNK_BYTES) N) H hash of
             Inl b \<Rightarrow> b | Inr _ \<Rightarrow> H))"
      using False unfolding nextBoundary_def Let_def H_def N_def by simp
    have lim: "N \<le> H" "H \<le> length data" "H \<le> start + MAX_CHUNK_BYTES" "start + MIN_CHUNK_BYTES < H"
      using False chunk_sizes assms by (auto simp: H_def N_def)
    show ?thesis
    proof (cases "scan gear MASK_SMALL data (start + MIN_CHUNK_BYTES) N 0")
      case (Inl b)
      then show ?thesis using lim scan_bounds[OF Inl] nb by simp
    next
      case small: (Inr hash)
      show ?thesis
      proof (cases "scan gear MASK_LARGE data (max (start + MIN_CHUNK_BYTES) N) H hash")
        case (Inl b)
        then show ?thesis using lim small scan_bounds[OF Inl] nb by simp
      next
        case (Inr _)
        then show ?thesis using lim small nb by simp
      qed
    qed
  qed
  then show "start < nextBoundary gear data start" "nextBoundary gear data start \<le> length data"
    "nextBoundary gear data start \<le> start + MAX_CHUNK_BYTES"
    "nextBoundary gear data start < length data \<Longrightarrow> start + MIN_CHUNK_BYTES < nextBoundary gear data start"
    by simp_all
qed

text \<open>The search sees only the bytes from the start of the chunk to the hard limit.\<close>

lemma scan_shift:
  "limit \<le> length ys \<Longrightarrow>
   scan gear msk (xs @ ys) (length xs + i) (length xs + limit) h =
     map_sum (\<lambda>b. length xs + b) (\<lambda>h. h) (scan gear msk ys i limit h)"
proof (induction gear msk ys i limit h rule: scan.induct)
  case (1 gear msk ys i limit h)
  then show ?case
    by (subst scan.simps[of gear msk ys]; subst scan.simps) (auto simp: Let_def)
qed

lemma scan_take:
  "limit \<le> length xs \<Longrightarrow> scan gear msk (xs @ zs) i limit h = scan gear msk xs i limit h"
proof (induction gear msk xs i limit h rule: scan.induct)
  case (1 gear msk xs i limit h)
  then show ?case
    by (subst scan.simps[of gear msk xs]; subst scan.simps) (auto simp: Let_def nth_append)
qed

lemma map_sum_case: "(case map_sum f (\<lambda>h. h) s of Inl b \<Rightarrow> P b | Inr h \<Rightarrow> Q h) =
    (case s of Inl b \<Rightarrow> P (f b) | Inr h \<Rightarrow> Q h)"
  by (cases s) simp_all

lemma nextBoundary_shift:
  "nextBoundary gear (xs @ ys) (length xs) = length xs + nextBoundary gear ys 0"
proof -
  have a: "length xs + min (length ys) AVG_CHUNK_BYTES = length xs + (0 + min (length ys) AVG_CHUNK_BYTES)"
    by simp
  have m: "max (length xs + MIN_CHUNK_BYTES) (length xs + k) = length xs + max MIN_CHUNK_BYTES k" for k
    by simp
  show ?thesis
    by (simp add: nextBoundary_def Let_def m scan_shift map_sum_case split: sum.split)
qed

lemma nextBoundary_prefix:
  assumes "MAX_CHUNK_BYTES \<le> length xs"
  shows "nextBoundary gear (xs @ zs) 0 = nextBoundary gear xs 0"
proof -
  have "\<not> length xs \<le> MIN_CHUNK_BYTES" "\<not> length xs + length zs \<le> MIN_CHUNK_BYTES"
    "min (length xs + length zs) MAX_CHUNK_BYTES = MAX_CHUNK_BYTES" "min (length xs) MAX_CHUNK_BYTES = MAX_CHUNK_BYTES"
    "min (length xs + length zs) AVG_CHUNK_BYTES = AVG_CHUNK_BYTES" "min (length xs) AVG_CHUNK_BYTES = AVG_CHUNK_BYTES"
    using assms chunk_sizes by auto
  moreover have "AVG_CHUNK_BYTES \<le> length xs" using assms chunk_sizes by simp
  ultimately show ?thesis
    using assms by (simp add: nextBoundary_def Let_def scan_take split: sum.split)
qed

section \<open>Chunks and manifests\<close>

record Chunk =
  ch_hash :: string
  ch_offset :: nat
  ch_length :: nat

record ChunkManifest =
  cm_fileHash :: string
  cm_totalBytes :: nat
  cm_chunks :: "Chunk list"

definition hashChunk :: "(byte list \<Rightarrow> byte list) \<Rightarrow> (byte list \<Rightarrow> string) \<Rightarrow> byte list \<Rightarrow> string" where
  "hashChunk blake3 hex data = hex (blake3 data)"

text \<open>The loop of \<open>chunkBuffer\<close> from an offset.\<close>

function chunk_loop :: "(byte list \<Rightarrow> string) \<Rightarrow> 32 word list \<Rightarrow> byte list \<Rightarrow> nat \<Rightarrow> Chunk list" where
  "chunk_loop hash gear data offset =
     (if offset < length data then
        (let end = nextBoundary gear data offset;
             slice = take (end - offset) (drop offset data)
         in \<lparr>ch_hash = hash slice, ch_offset = offset, ch_length = length slice\<rparr> #
            chunk_loop hash gear data end)
      else [])"
  by pat_completeness auto
termination
  by (relation "measure (\<lambda>(h, g, data, offset). length data - offset)")
    (use nextBoundary_bounds(1) in \<open>auto simp: diff_less_mono2\<close>)

declare chunk_loop.simps [simp del]

definition chunkBuffer :: "(byte list \<Rightarrow> string) \<Rightarrow> 32 word list \<Rightarrow> byte list \<Rightarrow> Chunk list" where
  "chunkBuffer hash gear data = chunk_loop hash gear data 0"

definition buildManifest :: "(byte list \<Rightarrow> string) \<Rightarrow> 32 word list \<Rightarrow> byte list \<Rightarrow> ChunkManifest" where
  "buildManifest hash gear data =
     \<lparr>cm_fileHash = hash data, cm_totalBytes = length data, cm_chunks = chunkBuffer hash gear data\<rparr>"

text \<open>The chunks of a byte string cut from its front, placed at an offset.\<close>

function chunks_at :: "(byte list \<Rightarrow> string) \<Rightarrow> 32 word list \<Rightarrow> nat \<Rightarrow> byte list \<Rightarrow> Chunk list" where
  "chunks_at hash gear off bs =
     (if bs = [] then []
      else
        (let end = nextBoundary gear bs 0; slice = take end bs
         in \<lparr>ch_hash = hash slice, ch_offset = off, ch_length = length slice\<rparr> #
            chunks_at hash gear (off + length slice) (drop end bs)))"
  by pat_completeness auto
termination
  by (relation "measure (\<lambda>(h, g, off, bs). length bs)")
    (use nextBoundary_bounds(1)[of 0] in \<open>auto\<close>)

declare chunks_at.simps [simp del]

lemma chunks_at_Nil [simp]: "chunks_at hash gear off [] = []"
  by (subst chunks_at.simps) simp

lemma chunk_loop_at: "chunk_loop hash gear (xs @ ys) (length xs) = chunks_at hash gear (length xs) ys"
proof (induction ys arbitrary: xs rule: length_induct)
  case (1 ys)
  show ?case
  proof (cases "ys = []")
    case True
    then show ?thesis by (subst chunk_loop.simps) simp
  next
    case False
    let ?e = "nextBoundary gear ys 0"
    have e: "0 < ?e" "?e \<le> length ys" using nextBoundary_bounds[of 0 ys gear] False by auto
    have "chunk_loop hash gear ((xs @ take ?e ys) @ drop ?e ys) (length (xs @ take ?e ys)) =
        chunks_at hash gear (length (xs @ take ?e ys)) (drop ?e ys)"
      using 1[rule_format, of "drop ?e ys" "xs @ take ?e ys"] e by simp
    then have "chunk_loop hash gear (xs @ ys) (length xs + ?e) =
        chunks_at hash gear (length xs + ?e) (drop ?e ys)"
      using e by simp
    then show ?thesis
      using False e by (subst chunk_loop.simps; subst chunks_at.simps)
        (simp add: nextBoundary_shift Let_def)
  qed
qed

lemma chunkBuffer_at: "chunkBuffer hash gear data = chunks_at hash gear 0 data"
  using chunk_loop_at[of hash gear "[]" data] by (simp add: chunkBuffer_def)

section \<open>The streaming builder\<close>

record 'h hasher =
  hs_create :: 'h
  hs_update :: "'h \<Rightarrow> byte list \<Rightarrow> 'h"
  hs_digest :: "'h \<Rightarrow> byte list"

record 'h builder =
  sb_fileHasher :: 'h
  sb_pending :: "byte list"
  sb_chunks :: "Chunk list"
  sb_totalBytes :: nat
  sb_chunkedBytes :: nat
  sb_finished :: bool

definition new_builder :: "'h hasher \<Rightarrow> 'h builder" where
  "new_builder hs =
     \<lparr>sb_fileHasher = hs_create hs, sb_pending = [], sb_chunks = [], sb_totalBytes = 0,
      sb_chunkedBytes = 0, sb_finished = False\<rparr>"

function cut :: "(byte list \<Rightarrow> string) \<Rightarrow> 32 word list \<Rightarrow> bool \<Rightarrow> 'h builder \<Rightarrow> 'h builder" where
  "cut hash gear final s =
     (if length (sb_pending s) > 0 \<and> (final \<or> length (sb_pending s) \<ge> MAX_CHUNK_BYTES) then
        (let end = nextBoundary gear (sb_pending s) 0;
             bytes = take end (sb_pending s)
         in cut hash gear final
              (s\<lparr>sb_chunks := sb_chunks s @
                   [\<lparr>ch_hash = hash bytes, ch_offset = sb_chunkedBytes s, ch_length = length bytes\<rparr>],
                 sb_chunkedBytes := sb_chunkedBytes s + length bytes,
                 sb_pending := drop end (sb_pending s)\<rparr>))
      else s)"
  by pat_completeness auto
termination
  by (relation "measure (\<lambda>(h, g, f, s). length (sb_pending s))")
    (use nextBoundary_bounds(1)[of 0] in \<open>auto\<close>)

declare cut.simps [simp del]

definition push :: "'h hasher \<Rightarrow> (byte list \<Rightarrow> string) \<Rightarrow> 32 word list \<Rightarrow> byte list \<Rightarrow> 'h builder \<Rightarrow>
    'h builder js_result" where
  "push hs hash gear data s =
     (if sb_finished s then Inl (JsError ''manifest builder is already finished'')
      else if length data = 0 then Inr s
      else Inr (cut hash gear False
             (s\<lparr>sb_fileHasher := hs_update hs (sb_fileHasher s) data,
                sb_totalBytes := sb_totalBytes s + length data,
                sb_pending := sb_pending s @ data\<rparr>)))"

definition finish :: "'h hasher \<Rightarrow> (byte list \<Rightarrow> string) \<Rightarrow> (byte list \<Rightarrow> string) \<Rightarrow> 32 word list \<Rightarrow>
    'h builder \<Rightarrow> (ChunkManifest \<times> 'h builder) js_result" where
  "finish hs hex hash gear s =
     (if sb_finished s then Inl (JsError ''manifest builder is already finished'')
      else
        (let t = cut hash gear True (s\<lparr>sb_finished := True\<rparr>)
         in Inr (\<lparr>cm_fileHash = hex (hs_digest hs (sb_fileHasher t)), cm_totalBytes = sb_totalBytes t,
                  cm_chunks = sb_chunks t\<rparr>, t)))"

fun push_all :: "'h hasher \<Rightarrow> (byte list \<Rightarrow> string) \<Rightarrow> 32 word list \<Rightarrow> byte list list \<Rightarrow> 'h builder \<Rightarrow>
    'h builder js_result" where
  "push_all hs hash gear [] s = Inr s"
| "push_all hs hash gear (d # ds) s =
     (case push hs hash gear d s of Inl e \<Rightarrow> Inl e | Inr t \<Rightarrow> push_all hs hash gear ds t)"

text \<open>The builder has cut what it must of the bytes it was given, however they continue.\<close>

definition builder_of ::
  "(byte list \<Rightarrow> string) \<Rightarrow> 32 word list \<Rightarrow> byte list \<Rightarrow> 'h builder \<Rightarrow> bool" where
  "builder_of hash gear all s \<longleftrightarrow>
     sb_totalBytes s = length all \<and>
     (\<forall>xs. sb_chunks s @ chunks_at hash gear (sb_chunkedBytes s) (sb_pending s @ xs) =
           chunks_at hash gear 0 (all @ xs))"

lemma cut_frame [frame_simps]:
  "sb_fileHasher (cut hash gear final s) = sb_fileHasher s \<and>
   sb_totalBytes (cut hash gear final s) = sb_totalBytes s \<and>
   sb_finished (cut hash gear final s) = sb_finished s"
proof (induction hash gear final s rule: cut.induct)
  case (1 hash gear final s)
  then show ?case by (subst (1 2 3) cut.simps) (simp add: Let_def)
qed

lemma cut_chunks:
  assumes "final \<longrightarrow> xs = []"
  shows "sb_chunks (cut hash gear final s) @
      chunks_at hash gear (sb_chunkedBytes (cut hash gear final s)) (sb_pending (cut hash gear final s) @ xs) =
    sb_chunks s @ chunks_at hash gear (sb_chunkedBytes s) (sb_pending s @ xs)"
  using assms
proof (induction hash gear final s rule: cut.induct)
  case (1 hash gear final s)
  let ?p = "sb_pending s"
  show ?case
  proof (cases "length ?p > 0 \<and> (final \<or> length ?p \<ge> MAX_CHUNK_BYTES)")
    case True
    define e where "e = nextBoundary gear ?p 0"
    have e: "e \<le> length ?p" using True nextBoundary_bounds(2)[of 0 ?p gear] by (simp add: e_def)
    have "nextBoundary gear (?p @ xs) 0 = e"
      using True "1.prems" nextBoundary_prefix by (auto simp: e_def)
    moreover have "?p @ xs \<noteq> []" using True by auto
    ultimately have "chunks_at hash gear (sb_chunkedBytes s) (?p @ xs) =
        \<lparr>ch_hash = hash (take e ?p), ch_offset = sb_chunkedBytes s, ch_length = e\<rparr> #
        chunks_at hash gear (sb_chunkedBytes s + e) (drop e ?p @ xs)"
      using e by (subst chunks_at.simps) (simp add: Let_def)
    moreover define t where "t = s\<lparr>sb_chunks := sb_chunks s @
        [\<lparr>ch_hash = hash (take e ?p), ch_offset = sb_chunkedBytes s, ch_length = length (take e ?p)\<rparr>],
      sb_chunkedBytes := sb_chunkedBytes s + length (take e ?p), sb_pending := drop e ?p\<rparr>"
    moreover have "cut hash gear final s = cut hash gear final t"
      using True by (subst cut.simps) (simp add: t_def e_def Let_def)
    ultimately show ?thesis
      using "1.IH"[OF True e_def refl] "1.prems" e by (simp add: t_def)
  next
    case False
    then have "cut hash gear final s = s" by (subst cut.simps) auto
    then show ?thesis by simp
  qed
qed

lemma cut_final_pending: "sb_pending (cut hash gear True s) = []"
proof (induction hash gear True s rule: cut.induct)
  case (1 hash gear s)
  then show ?case by (cases "sb_pending s = []") (subst cut.simps, simp add: Let_def)+
qed

lemma push_builder_of:
  assumes "builder_of hash gear all s" "\<not> sb_finished s"
  shows "\<exists>t. push hs hash gear d s = Inr t \<and> builder_of hash gear (all @ d) t \<and> \<not> sb_finished t \<and>
    (d \<noteq> [] \<longrightarrow> sb_fileHasher t = hs_update hs (sb_fileHasher s) d) \<and>
    (d = [] \<longrightarrow> sb_fileHasher t = sb_fileHasher s)"
proof (cases "d = []")
  case True
  then show ?thesis using assms by (simp add: push_def)
next
  case False
  let ?s = "s\<lparr>sb_fileHasher := hs_update hs (sb_fileHasher s) d,
                sb_totalBytes := sb_totalBytes s + length d, sb_pending := sb_pending s @ d\<rparr>"
  have "sb_chunks s @ chunks_at hash gear (sb_chunkedBytes s) (sb_pending s @ d @ xs) =
        chunks_at hash gear 0 (all @ d @ xs)" for xs
    using assms(1) unfolding builder_of_def by blast
  then have "builder_of hash gear (all @ d) (cut hash gear False ?s)"
    using assms(1) cut_chunks[of False _ hash gear ?s] cut_frame[of hash gear False ?s]
    by (simp add: builder_of_def)
  then show ?thesis using False assms(2) cut_frame[of hash gear False ?s] by (simp add: push_def)
qed

text \<open>Empty pushes leave the hash alone.\<close>

definition hash_parts :: "'h hasher \<Rightarrow> byte list list \<Rightarrow> 'h \<Rightarrow> 'h" where
  "hash_parts hs ds h = foldl (hs_update hs) h (filter (\<lambda>d. d \<noteq> []) ds)"

lemma push_all_builder_of:
  assumes "builder_of hash gear all s" "\<not> sb_finished s"
  shows "\<exists>t. push_all hs hash gear ds s = Inr t \<and> builder_of hash gear (all @ concat ds) t \<and>
    \<not> sb_finished t \<and> sb_fileHasher t = hash_parts hs ds (sb_fileHasher s)"
  using assms
proof (induction ds arbitrary: all s)
  case (Cons d ds)
  obtain t where t: "push hs hash gear d s = Inr t" "builder_of hash gear (all @ d) t" "\<not> sb_finished t"
    "sb_fileHasher t = (if d = [] then sb_fileHasher s else hs_update hs (sb_fileHasher s) d)"
    using push_builder_of[OF Cons.prems] by metis
  show ?case using Cons.IH[OF t(2,3)] t by (auto simp: hash_parts_def)
qed (simp add: hash_parts_def)

lemma finish_builder_of:
  assumes "builder_of hash gear all s" "\<not> sb_finished s"
  shows "\<exists>t. finish hs hex hash gear s = Inr
      (\<lparr>cm_fileHash = hex (hs_digest hs (sb_fileHasher s)), cm_totalBytes = length all,
        cm_chunks = chunkBuffer hash gear all\<rparr>, t) \<and> sb_finished t"
proof -
  let ?s = "s\<lparr>sb_finished := True\<rparr>"
  let ?t = "cut hash gear True ?s"
  have "sb_chunks ?t = sb_chunks s @ chunks_at hash gear (sb_chunkedBytes s) (sb_pending s)"
    using cut_chunks[of True "[]" hash gear ?s] cut_final_pending[of hash gear ?s] by simp
  also have "\<dots> = chunks_at hash gear 0 all"
    using assms(1) unfolding builder_of_def by (metis append_Nil2)
  finally show ?thesis
    using assms cut_frame[of hash gear True ?s]
    by (simp add: finish_def builder_of_def chunkBuffer_at Let_def)
qed

section \<open>Reassembly and deduplication\<close>

definition set_bytes :: "byte list \<Rightarrow> nat \<Rightarrow> byte list \<Rightarrow> byte list js_result" where
  "set_bytes out offset bytes =
     (if offset + length bytes > length out then Inl (JsError ''offset is out of bounds'')
      else Inr (take offset out @ bytes @ drop (offset + length bytes) out))"

fun assemble_loop :: "(string \<Rightarrow> byte list option) \<Rightarrow> Chunk list \<Rightarrow> byte list \<Rightarrow> nat \<Rightarrow>
    (byte list \<times> nat) js_result" where
  "assemble_loop lookup [] out offset = Inr (out, offset)"
| "assemble_loop lookup (c # cs) out offset =
     (case lookup (ch_hash c) of
        None \<Rightarrow> Inl (JsError (''missing chunk '' @ ch_hash c))
      | Some bytes \<Rightarrow>
          if length bytes \<noteq> ch_length c then Inl (JsError (''chunk '' @ ch_hash c @ '' has the wrong length''))
          else (case set_bytes out offset bytes of
                  Inl e \<Rightarrow> Inl e
                | Inr out' \<Rightarrow> assemble_loop lookup cs out' (offset + length bytes)))"

definition assembleFromChunks :: "(byte list \<Rightarrow> string) \<Rightarrow> ChunkManifest \<Rightarrow>
    (string \<Rightarrow> byte list option) \<Rightarrow> byte list js_result" where
  "assembleFromChunks hash m lookup =
     (case assemble_loop lookup (cm_chunks m) (replicate (cm_totalBytes m) 0) 0 of
        Inl e \<Rightarrow> Inl e
      | Inr (out, offset) \<Rightarrow>
          if offset \<noteq> cm_totalBytes m then Inl (JsError ''assembled bytes do not match the manifest length'')
          else if hash out \<noteq> cm_fileHash m
            then Inl (JsError ''assembled bytes do not match the manifest file hash'')
          else Inr out)"

fun missing_loop :: "(string \<Rightarrow> bool) \<Rightarrow> string list \<Rightarrow> Chunk list \<Rightarrow> Chunk list" where
  "missing_loop has seen [] = []"
| "missing_loop has seen (c # cs) =
     (if ch_hash c \<in> set seen \<or> has (ch_hash c) then missing_loop has seen cs
      else c # missing_loop has (ch_hash c # seen) cs)"

definition missingChunks :: "ChunkManifest \<Rightarrow> (string \<Rightarrow> bool) \<Rightarrow> Chunk list" where
  "missingChunks m has = missing_loop has [] (cm_chunks m)"

text \<open>A chunk store that holds the bytes of every chunk of a file.\<close>

definition stores :: "(string \<Rightarrow> byte list option) \<Rightarrow> (byte list \<Rightarrow> string) \<Rightarrow> 32 word list \<Rightarrow> byte list \<Rightarrow> bool" where
  "stores lookup hash gear data \<longleftrightarrow>
     (\<forall>c \<in> set (chunkBuffer hash gear data).
        lookup (ch_hash c) = Some (take (ch_length c) (drop (ch_offset c) data)))"

lemma assemble_chunks_at:
  assumes "\<forall>c \<in> set (chunks_at hash gear (length xs) ys).
      lookup (ch_hash c) = Some (take (ch_length c) (drop (ch_offset c) (xs @ ys)))"
  shows "assemble_loop lookup (chunks_at hash gear (length xs) ys) (xs @ replicate (length ys) 0) (length xs) =
    Inr (xs @ ys, length xs + length ys)"
  using assms
proof (induction ys arbitrary: xs rule: length_induct)
  case (1 ys)
  show ?case
  proof (cases "ys = []")
    case False
    define e where "e = nextBoundary gear ys 0"
    have e: "0 < e" "e \<le> length ys" using nextBoundary_bounds[of 0 ys gear] False by (auto simp: e_def)
    let ?xs = "xs @ take e ys"
    have ch: "chunks_at hash gear (length xs) ys =
        \<lparr>ch_hash = hash (take e ys), ch_offset = length xs, ch_length = e\<rparr> #
        chunks_at hash gear (length ?xs) (drop e ys)"
      using False e by (subst chunks_at.simps) (simp add: e_def[symmetric] Let_def)
    have lk: "lookup (hash (take e ys)) = Some (take e ys)"
      using "1.prems" ch e by auto
    have rest: "\<forall>c \<in> set (chunks_at hash gear (length ?xs) (drop e ys)).
        lookup (ch_hash c) = Some (take (ch_length c) (drop (ch_offset c) (?xs @ drop e ys)))"
      using "1.prems" ch by simp
    have ih: "assemble_loop lookup (chunks_at hash gear (length ?xs) (drop e ys))
        (?xs @ replicate (length (drop e ys)) 0) (length ?xs) = Inr (?xs @ drop e ys, length ?xs + length (drop e ys))"
      by (rule "1.IH"[THEN spec, THEN mp, THEN spec, THEN mp, OF _ rest]) (use e in auto)
    have "set_bytes (xs @ replicate (length ys) 0) (length xs) (take e ys) =
        Inr (?xs @ replicate (length (drop e ys)) 0)"
      using e by (simp add: set_bytes_def)
    then show ?thesis using ih e unfolding ch by (simp add: lk)
  qed simp
qed

lemma assemble_manifest:
  assumes "stores lookup hash gear data"
  shows "assembleFromChunks hash (buildManifest hash gear data) lookup = Inr data"
  using assms assemble_chunks_at[of hash gear "[]" data lookup]
  by (simp add: assembleFromChunks_def buildManifest_def stores_def chunkBuffer_at)

lemma assemble_checked:
  "assembleFromChunks hash m lookup = Inr out \<Longrightarrow> hash out = cm_fileHash m"
  by (auto simp: assembleFromChunks_def split: sum.splits if_splits)

lemma missing_loop_hashes:
  "ch_hash ` set (missing_loop has seen cs) = {h \<in> ch_hash ` set cs. h \<notin> set seen \<and> \<not> has h}"
  by (induction cs arbitrary: seen) auto

lemma missing_loop_distinct: "distinct (map ch_hash (missing_loop has seen cs))"
proof (induction cs arbitrary: seen)
  case (Cons c cs)
  have "ch_hash c \<notin> ch_hash ` set (missing_loop has (ch_hash c # seen) cs)"
    by (subst missing_loop_hashes) simp
  with Cons show ?case by simp
qed simp

section \<open>Properties\<close>

lemma chunks_at_spec:
  "concat (map (\<lambda>c. take (ch_length c) (drop (ch_offset c) (xs @ ys))) (chunks_at hash gear (length xs) ys)) = ys \<and>
   list_all (\<lambda>c. 0 < ch_length c \<and> ch_length c \<le> MAX_CHUNK_BYTES \<and>
     ch_hash c = hash (take (ch_length c) (drop (ch_offset c) (xs @ ys)))) (chunks_at hash gear (length xs) ys) \<and>
   list_all (\<lambda>c. MIN_CHUNK_BYTES < ch_length c) (butlast (chunks_at hash gear (length xs) ys))"
proof (induction ys arbitrary: xs rule: length_induct)
  case (1 ys)
  show ?case
  proof (cases "ys = []")
    case False
    define e where "e = nextBoundary gear ys 0"
    have e: "0 < e" "e \<le> length ys" "e \<le> MAX_CHUNK_BYTES" "e < length ys \<Longrightarrow> MIN_CHUNK_BYTES < e"
      using nextBoundary_bounds[of 0 ys gear] False by (auto simp: e_def)
    let ?cs = "chunks_at hash gear (length (xs @ take e ys)) (drop e ys)"
    have ch: "chunks_at hash gear (length xs) ys =
        \<lparr>ch_hash = hash (take e ys), ch_offset = length xs, ch_length = e\<rparr> # ?cs"
      using False e by (subst chunks_at.simps) (simp add: e_def[symmetric] Let_def)
    have ih: "concat (map (\<lambda>c. take (ch_length c) (drop (ch_offset c) ((xs @ take e ys) @ drop e ys))) ?cs) = drop e ys \<and>
       list_all (\<lambda>c. 0 < ch_length c \<and> ch_length c \<le> MAX_CHUNK_BYTES \<and>
         ch_hash c = hash (take (ch_length c) (drop (ch_offset c) ((xs @ take e ys) @ drop e ys)))) ?cs \<and>
       list_all (\<lambda>c. MIN_CHUNK_BYTES < ch_length c) (butlast ?cs)"
      by (rule "1.IH"[rule_format]) (use e False in simp)
    have "?cs \<noteq> [] \<Longrightarrow> e < length ys" using e(2) by (cases "e = length ys") auto
    moreover have "xs @ ys = (xs @ take e ys) @ drop e ys" by simp
    ultimately show ?thesis
      unfolding ch using ih e by (cases ?cs) (simp_all del: append_take_drop_id)
  qed simp
qed

lemma chunks_at_shift:
  "chunks_at hash gear (a + b) ys = map (\<lambda>c. c\<lparr>ch_offset := a + ch_offset c\<rparr>) (chunks_at hash gear b ys)"
proof (induction hash gear b ys rule: chunks_at.induct)
  case (1 hash gear b ys)
  show ?case
  proof (cases "ys = []")
    case False
    let ?e = "nextBoundary gear ys 0"
    have "chunks_at hash gear k ys = \<lparr>ch_hash = hash (take ?e ys), ch_offset = k, ch_length = length (take ?e ys)\<rparr> #
        chunks_at hash gear (k + length (take ?e ys)) (drop ?e ys)" for k
      using False by (subst chunks_at.simps) (simp add: Let_def)
    from this[of "a + b"] this[of b] show ?thesis
      using "1.IH"[OF False refl refl] by (simp only: list.simps add.assoc) simp
  qed simp
qed

text \<open>
  The chunks of a buffer tile it: read back at their offsets they are the buffer, each carries
  the hash of its own bytes, none is empty or above the maximum, and all but the last are above the
  minimum.
\<close>

theorem chunkBuffer_tiles:
  "concat (map (\<lambda>c. take (ch_length c) (drop (ch_offset c) data)) (chunkBuffer hash gear data)) = data \<and>
   list_all (\<lambda>c. 0 < ch_length c \<and> ch_length c \<le> MAX_CHUNK_BYTES \<and>
     ch_hash c = hash (take (ch_length c) (drop (ch_offset c) data))) (chunkBuffer hash gear data) \<and>
   list_all (\<lambda>c. MIN_CHUNK_BYTES < ch_length c) (butlast (chunkBuffer hash gear data))"
  using chunks_at_spec[where xs = "[]"] by (simp add: chunkBuffer_at)

text \<open>
  Boundaries depend on content alone: from a cut point on, a buffer is cut into the chunks its
  remaining bytes have on their own, whatever came before; so two files that share a tail from a
  common cut point share its chunk hashes.
\<close>

theorem chunk_loop_content_defined:
  "chunk_loop hash gear (xs @ ys) (length xs) =
     map (\<lambda>c. c\<lparr>ch_offset := length xs + ch_offset c\<rparr>) (chunkBuffer hash gear ys)"
  using chunks_at_shift[of hash gear "length xs" 0 ys] by (simp add: chunk_loop_at chunkBuffer_at)

text \<open>
  C40. The streaming builder is the whole-buffer one: however the bytes are split over pushes, the
  finished manifest is the one \<open>buildManifest\<close> makes of their concatenation.  (The incremental
  hasher is a library's: what is used of it is that its digest is the hash of what it was fed.)
\<close>

theorem streamed_manifest:
  assumes "hex (hs_digest hs (hash_parts hs ds (hs_create hs))) = hash (concat ds)"
  shows "\<exists>s t. push_all hs hash gear ds (new_builder hs) = Inr s \<and>
    finish hs hex hash gear s = Inr (buildManifest hash gear (concat ds), t)"
proof -
  have "builder_of hash gear [] (new_builder hs)" "\<not> sb_finished (new_builder hs)"
    by (simp_all add: builder_of_def new_builder_def)
  from push_all_builder_of[OF this, of hs ds] obtain s where
    s: "push_all hs hash gear ds (new_builder hs) = Inr s" "builder_of hash gear (concat ds) s"
      "\<not> sb_finished s" "sb_fileHasher s = hash_parts hs ds (hs_create hs)"
    by (auto simp: new_builder_def)
  then show ?thesis
    using finish_builder_of[OF s(2,3), of hs hex] assms by (auto simp: buildManifest_def)
qed

definition example_hasher :: "byte list hasher" where
  "example_hasher = \<lparr>hs_create = [], hs_update = (\<lambda>h b. h @ b), hs_digest = (\<lambda>h. h)\<rparr>"

lemma streamed_manifest_witness:
  "\<exists>s t. push_all example_hasher toHex [] [[1, 2], [], [3]] (new_builder example_hasher) = Inr s \<and>
    finish example_hasher toHex toHex [] s = Inr (buildManifest toHex [] [1, 2, 3], t)"
  using streamed_manifest[of toHex example_hasher "[[1, 2], [], [3]]" toHex "[]"]
  by (simp add: example_hasher_def hash_parts_def)

text \<open>
  A file is rebuilt from its manifest: given a store with the bytes of each of its chunks,
  \<open>assembleFromChunks\<close> returns exactly the file.
\<close>

theorem assembled_file:
  assumes "stores lookup hash gear data"
  shows "assembleFromChunks hash (buildManifest hash gear data) lookup = Inr data"
  using assms by (rule assemble_manifest)

lemma assembled_file_witness:
  "assembleFromChunks toHex (buildManifest toHex [] [7, 8, 9]) (\<lambda>h. Some [7, 8, 9]) = Inr [7, 8, 9]"
proof (rule assembled_file)
  have "nextBoundary [] [7, 8, 9] 0 = 3" by (simp add: nextBoundary_def MIN_CHUNK_BYTES_def)
  then show "stores (\<lambda>h. Some [7, 8, 9]) toHex [] [7, 8, 9]"
    by (simp add: stores_def chunkBuffer_def chunk_loop.simps)
qed

text \<open>
  Only what is missing is fetched, once: the chunks \<open>missingChunks\<close> lists have the hashes of
  the manifest that the store lacks, each hash a single time.
\<close>

theorem missingChunks_exact:
  "ch_hash ` set (missingChunks m has) = {h \<in> ch_hash ` set (cm_chunks m). \<not> has h} \<and>
   distinct (map ch_hash (missingChunks m has))"
  by (simp add: missingChunks_def missing_loop_hashes missing_loop_distinct)

end
