(* ===== verification/Messages.thy ===== *)
theory Messages
  imports Cookie "HOL-Library.Monad_Syntax"
begin

text \<open>
  The sync wire protocol (packages/protocol/src/messages.ts): version tokens, the wire records,
  the frames both ways and their schemas.  A schema is a parser from a JSON value to the typed
  frame, \<open>None\<close> where zod throws; unknown keys are dropped, as zod's objects do.  The text of a
  frame is turned into a JSON value by the platform's \<open>JSON.parse\<close>, a parameter.
\<close>

section \<open>JSON values and schema combinators\<close>

text \<open>A number is an integer, or none, then with its floor: no schema here admits it.\<close>

datatype json = JNull | JBool bool | JInt int | JFrac int | JStr string | JArr "json list"
  | JObj "(string \<times> json) list"

fun z_string :: "json \<Rightarrow> string option" where
  "z_string (JStr s) = Some s"
| "z_string _ = None"

fun z_string_min1 :: "json \<Rightarrow> string option" where
  "z_string_min1 (JStr s) = (if s = [] then None else Some s)"
| "z_string_min1 _ = None"

fun z_bool :: "json \<Rightarrow> bool option" where
  "z_bool (JBool b) = Some b"
| "z_bool _ = None"

fun z_nonneg :: "json \<Rightarrow> nat option" where
  "z_nonneg (JInt n) = (if n \<ge> 0 then Some (nat n) else None)"
| "z_nonneg _ = None"

fun z_positive :: "json \<Rightarrow> nat option" where
  "z_positive (JInt n) = (if n > 0 then Some (nat n) else None)"
| "z_positive _ = None"

fun z_all :: "(json \<Rightarrow> 'a option) \<Rightarrow> json list \<Rightarrow> 'a list option" where
  "z_all p [] = Some []"
| "z_all p (j # js) =
     (case p j of None \<Rightarrow> None
      | Some x \<Rightarrow> (case z_all p js of None \<Rightarrow> None | Some xs \<Rightarrow> Some (x # xs)))"

fun z_array :: "(json \<Rightarrow> 'a option) \<Rightarrow> json \<Rightarrow> 'a list option" where
  "z_array p (JArr js) = z_all p js"
| "z_array p _ = None"

definition z_array_min1 :: "(json \<Rightarrow> 'a option) \<Rightarrow> json \<Rightarrow> 'a list option" where
  "z_array_min1 p j = (case z_array p j of Some [] \<Rightarrow> None | r \<Rightarrow> r)"

fun z_nullable :: "(json \<Rightarrow> 'a option) \<Rightarrow> json \<Rightarrow> 'a option option" where
  "z_nullable p JNull = Some None"
| "z_nullable p j = map_option Some (p j)"

fun z_field :: "string \<Rightarrow> (json \<Rightarrow> 'a option) \<Rightarrow> json \<Rightarrow> 'a option" where
  "z_field k p (JObj kvs) = (case map_of kvs k of None \<Rightarrow> None | Some j \<Rightarrow> p j)"
| "z_field k p _ = None"

fun z_optional :: "string \<Rightarrow> (json \<Rightarrow> 'a option) \<Rightarrow> json \<Rightarrow> 'a option option" where
  "z_optional k p (JObj kvs) = (case map_of kvs k of None \<Rightarrow> Some None | Some j \<Rightarrow> map_option Some (p j))"
| "z_optional k p _ = None"

section \<open>Stamps, causes, version tokens\<close>

definition hlcSchema :: "json \<Rightarrow> hlc option" where
  "hlcSchema j = do {
     p \<leftarrow> z_field ''physicalMs'' z_nonneg j;
     l \<leftarrow> z_field ''logical'' z_nonneg j;
     d \<leftarrow> z_field ''deviceId'' z_string_min1 j;
     Some \<lparr>physicalMs = p, logical = l, deviceId = d\<rparr>
   }"

fun causeSchema :: "json \<Rightarrow> Cause option" where
  "causeSchema (JStr s) =
     find (\<lambda>c. cause_text c = s) [WRITE, EXPLICIT_DELETE, EXPIRED, OVERWRITE, EVICTED, HYDRATION_ECHO]"
| "causeSchema _ = None"

definition makeVersionToken :: "string \<Rightarrow> hlc \<Rightarrow> string" where
  "makeVersionToken recordIdHex h =
     recordIdHex @ ''@'' @ to_hex (physicalMs h) @ ''-'' @ to_hex (logical h) @ ''-'' @ deviceId h"

definition parseVersionToken :: "string \<Rightarrow> (string \<times> hlc) js_result" where
  "parseVersionToken token =
     (let at = js_index_of token (CHR ''@'') 0
      in if at < 0 then Inl (JsError ''malformed version token'')
         else
           (let recordId = js_slice token 0 (nat at);
                rest = drop (nat at + 1) token;
                first = js_index_of rest (CHR ''-'') 0;
                second = js_index_of rest (CHR ''-'') (first + 1)
            in if first < 0 \<or> second < 0 then Inl (JsError ''malformed version token'')
               else
                 (let dev = drop (nat second + 1) rest
                  in case (parse_int16 (js_slice rest 0 (nat first)),
                           parse_int16 (js_slice rest (nat first + 1) (nat second))) of
                       (Some p, Some l) \<Rightarrow>
                         if dev = [] then Inl (JsError ''malformed version token'')
                         else Inr (recordId, \<lparr>physicalMs = nat p, logical = nat l, deviceId = dev\<rparr>)
                     | _ \<Rightarrow> Inl (JsError ''malformed version token''))))"

section \<open>Wire records\<close>

record CookieRecordWire =
  w_spaceId :: string
  w_recordId :: string
  w_originId :: string
  w_sealedRecord :: string
  w_hlc :: hlc
  w_causalParent :: "string option"
  w_deviceSig :: string
  w_cause :: Cause

record WorkspaceRecordWire =
  ws_key :: string
  ws_sealedValue :: "string option"
  ws_hlc :: hlc
  ws_deviceSig :: string

record DevicePresence =
  dp_deviceId :: string
  dp_online :: bool
  dp_lastSeenMs :: nat

definition is_hex64 :: "string \<Rightarrow> bool" where
  "is_hex64 s \<longleftrightarrow> length s = 64 \<and>
     list_all (\<lambda>c. (CHR ''0'' \<le> c \<and> c \<le> CHR ''9'') \<or> (CHR ''a'' \<le> c \<and> c \<le> CHR ''f'')) s"

fun z_hex64 :: "json \<Rightarrow> string option" where
  "z_hex64 (JStr s) = (if is_hex64 s then Some s else None)"
| "z_hex64 _ = None"

definition cookieRecordWireSchema :: "json \<Rightarrow> CookieRecordWire option" where
  "cookieRecordWireSchema j = do {
     sp \<leftarrow> z_field ''spaceId'' z_string_min1 j;
     r \<leftarrow> z_field ''recordId'' z_hex64 j;
     ori \<leftarrow> z_field ''originId'' z_hex64 j;
     sealed \<leftarrow> z_field ''sealedRecord'' z_string_min1 j;
     h \<leftarrow> z_field ''hlc'' hlcSchema j;
     par \<leftarrow> z_field ''causalParent'' (z_nullable z_string_min1) j;
     sig \<leftarrow> z_field ''deviceSig'' z_string_min1 j;
     c \<leftarrow> z_field ''cause'' causeSchema j;
     Some \<lparr>w_spaceId = sp, w_recordId = r, w_originId = ori, w_sealedRecord = sealed, w_hlc = h,
       w_causalParent = par, w_deviceSig = sig, w_cause = c\<rparr>
   }"

definition workspaceRecordWireSchema :: "json \<Rightarrow> WorkspaceRecordWire option" where
  "workspaceRecordWireSchema j = do {
     k \<leftarrow> z_field ''key'' z_string_min1 j;
     v \<leftarrow> z_field ''sealedValue'' (z_nullable z_string) j;
     h \<leftarrow> z_field ''hlc'' hlcSchema j;
     sig \<leftarrow> z_field ''deviceSig'' z_string_min1 j;
     Some \<lparr>ws_key = k, ws_sealedValue = v, ws_hlc = h, ws_deviceSig = sig\<rparr>
   }"

section \<open>Frames\<close>

record LeaseAcquire =
  la_spaceId :: string
  la_originId :: string
  la_force :: "bool option"
  la_recordId :: "string option"
  la_candidateHlc :: "hlc option"
  la_ttlMs :: "nat option"

datatype ClientMessage =
    Hello string "string list"
  | Publish "CookieRecordWire list"
  | Hydrate string "hlc option"
  | LeaseAcquireMsg LeaseAcquire
  | LeaseRelease string string
  | Rollback string string hlc
  | WorkspacePublish "WorkspaceRecordWire list"
  | WorkspaceHydrate "hlc option"
  | Ping

fun clientMessageFields :: "string \<Rightarrow> json \<Rightarrow> ClientMessage option" where
  "clientMessageFields t j =
     (if t = ''hello'' then do {
        d \<leftarrow> z_field ''deviceId'' z_string_min1 j;
        ss \<leftarrow> z_field ''spaceIds'' (z_array z_string_min1) j;
        Some (Hello d ss) }
      else if t = ''publish'' then do {
        rs \<leftarrow> z_field ''records'' (z_array_min1 cookieRecordWireSchema) j;
        Some (Publish rs) }
      else if t = ''hydrate'' then do {
        sp \<leftarrow> z_field ''spaceId'' z_string_min1 j;
        h \<leftarrow> z_field ''sinceHlc'' (z_nullable hlcSchema) j;
        Some (Hydrate sp h) }
      else if t = ''lease.acquire'' then do {
        sp \<leftarrow> z_field ''spaceId'' z_string_min1 j;
        ori \<leftarrow> z_field ''originId'' z_string_min1 j;
        f \<leftarrow> z_optional ''force'' z_bool j;
        r \<leftarrow> z_optional ''recordId'' z_string_min1 j;
        c \<leftarrow> z_optional ''candidateHlc'' hlcSchema j;
        ttl \<leftarrow> z_optional ''ttlMs'' z_positive j;
        Some (LeaseAcquireMsg \<lparr>la_spaceId = sp, la_originId = ori, la_force = f, la_recordId = r,
          la_candidateHlc = c, la_ttlMs = ttl\<rparr>) }
      else if t = ''lease.release'' then do {
        sp \<leftarrow> z_field ''spaceId'' z_string_min1 j;
        ori \<leftarrow> z_field ''originId'' z_string_min1 j;
        Some (LeaseRelease sp ori) }
      else if t = ''rollback'' then do {
        sp \<leftarrow> z_field ''spaceId'' z_string_min1 j;
        ori \<leftarrow> z_field ''originId'' z_string_min1 j;
        h \<leftarrow> z_field ''toHlc'' hlcSchema j;
        Some (Rollback sp ori h) }
      else if t = ''workspace.publish'' then do {
        ds \<leftarrow> z_field ''docs'' (z_array_min1 workspaceRecordWireSchema) j;
        Some (WorkspacePublish ds) }
      else if t = ''workspace.hydrate'' then do {
        h \<leftarrow> z_field ''sinceHlc'' (z_nullable hlcSchema) j;
        Some (WorkspaceHydrate h) }
      else if t = ''ping'' then Some Ping
      else None)"

definition clientMessageSchema :: "json \<Rightarrow> ClientMessage option" where
  "clientMessageSchema j = do { t \<leftarrow> z_field ''t'' z_string j; clientMessageFields t j }"

datatype RejectReason = LeaseRequired | BadSignature | Stale | Malformed

record PublishRejection =
  pr_recordId :: string
  pr_reason :: RejectReason

datatype ServerMessage =
    HelloAck nat "DevicePresence list"
  | PublishAck "string list" "PublishRejection list"
  | Records string "CookieRecordWire list"
  | HydrateDone string nat "hlc option"
  | LeaseGranted string string string nat
  | LeaseDenied string string string nat
  | LeaseRevoked string string string
  | RollbackApplied string string hlc
  | WorkspaceRecords "WorkspaceRecordWire list"
  | WorkspaceHydrateDone nat
  | Presence "DevicePresence list"
  | Pong
  | ErrorMsg string string

definition parseClientMessage :: "(string \<Rightarrow> json option) \<Rightarrow> string \<Rightarrow> ClientMessage option" where
  "parseClientMessage json_parse raw =
     (case json_parse raw of None \<Rightarrow> None | Some j \<Rightarrow> clientMessageSchema j)"

text \<open>\<open>Array.prototype.sort\<close> is stable, as the library's sort is.\<close>

definition sortByHlc :: "('a \<Rightarrow> hlc) \<Rightarrow> 'a list \<Rightarrow> 'a list" where
  "sortByHlc stamp records = sort_key stamp records"

section \<open>Facts\<close>

lemma sortByHlc_sorted: "sorted (map stamp (sortByHlc stamp xs))"
  by (simp add: sortByHlc_def)

lemma sortByHlc_set [simp]: "set (sortByHlc stamp xs) = set xs"
  by (simp add: sortByHlc_def)

lemma sortByHlc_length [simp]: "length (sortByHlc stamp xs) = length xs"
  by (simp add: sortByHlc_def)

lemma sortByHlc_distinct [simp]: "distinct (map f (sortByHlc stamp xs)) = distinct (map f xs)"
  by (simp add: sortByHlc_def distinct_map distinct_sort)

lemma hex_split:
  assumes "to_hex m @ CHR ''-'' # xs = to_hex n @ CHR ''-'' # ys"
  shows "m = n \<and> xs = ys"
  using assms pad_split[of 0 m xs n ys] by (simp add: pad_start_def)

lemma makeVersionToken_inj: "makeVersionToken r h = makeVersionToken r h' \<longleftrightarrow> h = h'"
proof
  assume "makeVersionToken r h = makeVersionToken r h'"
  then have "physicalMs h = physicalMs h' \<and> logical h = logical h' \<and> deviceId h = deviceId h'"
    unfolding makeVersionToken_def by (auto dest!: hex_split)
  then show "h = h'" by simp
qed simp

lemma parse_makeVersionToken:
  assumes "CHR ''@'' \<notin> set r" "deviceId h \<noteq> []"
  shows "parseVersionToken (makeVersionToken r h) = Inr (r, h)"
proof -
  let ?rest = "to_hex (physicalMs h) @ CHR ''-'' # to_hex (logical h) @ CHR ''-'' # deviceId h"
  have tok: "makeVersionToken r h = r @ CHR ''@'' # ?rest" by (simp add: makeVersionToken_def)
  have at: "js_index_of (makeVersionToken r h) (CHR ''@'') 0 = int (length r)"
    using js_index_of_append[of "CHR ''@''" r "[]"] assms(1) by (simp add: tok)
  have rest: "drop (length r + 1) (makeVersionToken r h) = ?rest" "js_slice (makeVersionToken r h) 0 (length r) = r"
    by (simp_all add: tok js_slice_def)
  have first: "js_index_of ?rest (CHR ''-'') 0 = int (length (to_hex (physicalMs h)))"
    using js_index_of_append[of "CHR ''-''" "to_hex (physicalMs h)" "[]"] by simp
  have second: "js_index_of ?rest (CHR ''-'') (int (length (to_hex (physicalMs h))) + 1) =
      int (length (to_hex (physicalMs h)) + 1 + length (to_hex (logical h)))"
    using js_index_of_append[of "CHR ''-''" "to_hex (logical h)" "to_hex (physicalMs h) @ ''-''" "deviceId h"]
    by (simp add: algebra_simps)
  show ?thesis
    unfolding parseVersionToken_def Let_def at nat_int rest first second
    using assms(2) by (simp add: js_slice_def)
qed

lemma is_hex64_no_at: "is_hex64 s \<Longrightarrow> CHR ''@'' \<notin> set s"
  by (auto simp: is_hex64_def list_all_iff dest!: bspec)

section \<open>Properties\<close>

text \<open>
  Version tokens are read back exactly: the token of a version names its record and its stamp,
  so an ancestry chain can be walked from the tokens alone.
\<close>

theorem version_token_round_trip:
  assumes "is_hex64 r" "deviceId h \<noteq> []"
  shows "parseVersionToken (makeVersionToken r h) = Inr (r, h)"
  using assms by (simp add: parse_makeVersionToken is_hex64_no_at)

lemma version_token_round_trip_witness:
  "parseVersionToken (makeVersionToken (replicate 64 (CHR ''a''))
     \<lparr>physicalMs = 1700, logical = 3, deviceId = ''dev-1''\<rparr>) =
   Inr (replicate 64 (CHR ''a''), \<lparr>physicalMs = 1700, logical = 3, deviceId = ''dev-1''\<rparr>)"
  by (rule version_token_round_trip) (simp_all add: is_hex64_def list_all_iff less_eq_char_def)

end
