(* ===== verification/SyncQueue.thy ===== *)
theory SyncQueue
  imports Messages
begin

text \<open>
  The offline mutation queue (packages/sync-engine/src/queue.ts).  \<open>QueueStorage\<close> is an
  interface: the queue's operations take the storage's, a locale states what the queue relies on,
  and the in-memory storage of the source provides it.
\<close>

section \<open>The in-memory storage\<close>

type_synonym memory_queue = "CookieRecordWire list"

definition mem_append :: "memory_queue \<Rightarrow> CookieRecordWire \<Rightarrow> memory_queue" where
  "mem_append items record = items @ [record]"

definition mem_all :: "memory_queue \<Rightarrow> CookieRecordWire list" where
  "mem_all items = items"

definition mem_clear :: "memory_queue \<Rightarrow> memory_queue" where
  "mem_clear items = []"

definition mem_size :: "memory_queue \<Rightarrow> nat" where
  "mem_size items = length items"

section \<open>The queue\<close>

text \<open>One turn of the loop in \<open>compacted\<close>: keep the newest mutation of a cookie.\<close>

definition compact_step ::
  "(string, CookieRecordWire) js_map \<Rightarrow> CookieRecordWire \<Rightarrow> (string, CookieRecordWire) js_map" where
  "compact_step newest record =
     (case js_get newest (w_recordId record) of
        None \<Rightarrow> js_set newest (w_recordId record) record
      | Some current \<Rightarrow>
          if compareHlc (w_hlc record) (w_hlc current) > 0
          then js_set newest (w_recordId record) record else newest)"

definition compacted :: "CookieRecordWire list \<Rightarrow> CookieRecordWire list" where
  "compacted items = map snd (foldl compact_step [] items)"

definition oq_enqueue :: "('s \<Rightarrow> CookieRecordWire \<Rightarrow> 's) \<Rightarrow> 's \<Rightarrow> CookieRecordWire \<Rightarrow> 's" where
  "oq_enqueue append_op s record = append_op s record"

definition oq_depth :: "('s \<Rightarrow> CookieRecordWire list) \<Rightarrow> 's \<Rightarrow> nat" where
  "oq_depth all_op s = length (compacted (all_op s))"

definition oq_peek :: "('s \<Rightarrow> CookieRecordWire list) \<Rightarrow> 's \<Rightarrow> CookieRecordWire list" where
  "oq_peek all_op s = sortByHlc w_hlc (compacted (all_op s))"

definition oq_drain ::
  "('s \<Rightarrow> CookieRecordWire list) \<Rightarrow> ('s \<Rightarrow> 's) \<Rightarrow> 's \<Rightarrow> CookieRecordWire list \<times> 's" where
  "oq_drain all_op clear_op s = (sortByHlc w_hlc (compacted (all_op s)), clear_op s)"

section \<open>Compaction keeps the newest of each record\<close>

definition queue_offer :: "CookieRecordWire option \<Rightarrow> CookieRecordWire \<Rightarrow> CookieRecordWire option" where
  "queue_offer cur record =
     (case cur of None \<Rightarrow> Some record
      | Some current \<Rightarrow> if compareHlc (w_hlc record) (w_hlc current) > 0 then Some record else cur)"

interpretation queue_cell: newest_cell w_hlc queue_offer
  by unfold_locales (auto simp: queue_offer_def)

lemma compact_step_get:
  "js_get (compact_step m r) k = (if k = w_recordId r then queue_offer (js_get m k) r else js_get m k)"
  by (auto simp: compact_step_def queue_offer_def split: option.splits)

lemma compact_fold_get:
  "js_get (foldl compact_step m rs) k =
     foldl queue_offer (js_get m k) (filter (\<lambda>r. w_recordId r = k) rs)"
  by (induction rs arbitrary: m) (auto simp: compact_step_get)

lemma compact_step_wf: "js_wf m \<Longrightarrow> js_wf (compact_step m r)"
  by (auto simp: compact_step_def split: option.splits)

interpretation compaction: kept_invariant compact_step
  "\<lambda>m :: (string, CookieRecordWire) js_map. js_wf m \<and> (\<forall>k r. js_get m k = Some r \<longrightarrow> w_recordId r = k)"
proof
  fix m :: "(string, CookieRecordWire) js_map" and r
  assume inv: "js_wf m \<and> (\<forall>k r. js_get m k = Some r \<longrightarrow> w_recordId r = k)"
  then show "js_wf (compact_step m r) \<and>
      (\<forall>k ra. js_get (compact_step m r) k = Some ra \<longrightarrow> w_recordId ra = k)"
    using queue_cell.offer_cases by (auto simp: compact_step_wf compact_step_get queue_offer_def
        split: if_splits option.splits)
qed

lemma compact_fold_inv:
  "js_wf (foldl compact_step [] rs)"
  "js_get (foldl compact_step [] rs) k = Some r \<Longrightarrow> w_recordId r = k"
  using compaction.along_run[of "[]" rs] by (auto simp: js_wf_def)

lemma compacted_mem:
  "r \<in> set (compacted rs) \<longleftrightarrow>
     foldl queue_offer None (filter (\<lambda>x. w_recordId x = w_recordId r) rs) = Some r"
proof -
  let ?m = "foldl compact_step [] rs"
  have "r \<in> set (compacted rs) \<longleftrightarrow> (\<exists>k. js_get ?m k = Some r)"
    using js_wf_get[OF compact_fold_inv(1)] by (force simp: compacted_def)
  also have "\<dots> \<longleftrightarrow> js_get ?m (w_recordId r) = Some r"
    using compact_fold_inv(2) by blast
  finally show ?thesis by (simp add: compact_fold_get)
qed

lemma compacted_distinct: "distinct (map w_recordId (compacted rs))"
proof -
  let ?m = "foldl compact_step [] rs"
  have "w_recordId r = k" if "(k, r) \<in> set ?m" for k r
    using compact_fold_inv(2) that js_wf_get[OF compact_fold_inv(1)] by blast
  then have "map w_recordId (compacted rs) = js_keys ?m"
    by (auto simp: compacted_def intro!: map_cong)
  then show ?thesis using compact_fold_inv(1) by (simp add: js_wf_def)
qed

lemma compacted_spec:
  "r \<in> set (compacted rs) \<Longrightarrow> r \<in> set rs \<and>
     (\<forall>x \<in> set rs. w_recordId x = w_recordId r \<longrightarrow> w_hlc x \<le> w_hlc r)"
  by (auto simp: compacted_mem dest!: queue_cell.offers_newest)

lemma compacted_covers: "x \<in> set rs \<Longrightarrow> \<exists>r \<in> set (compacted rs). w_recordId r = w_recordId x"
proof -
  assume "x \<in> set rs"
  then have "filter (\<lambda>y. w_recordId y = w_recordId x) rs \<noteq> []" by (auto simp: filter_empty_conv)
  then obtain m where m: "foldl queue_offer None (filter (\<lambda>y. w_recordId y = w_recordId x) rs) = Some m"
    using queue_cell.offers_full by blast
  then have "w_recordId m = w_recordId x" using queue_cell.offers_newest[OF m] by auto
  then show ?thesis using m by (auto simp: compacted_mem intro!: bexI[of _ m])
qed

section \<open>The storage interface\<close>

locale queue_storage =
  fixes append_op :: "'s \<Rightarrow> CookieRecordWire \<Rightarrow> 's"
    and all_op :: "'s \<Rightarrow> CookieRecordWire list"
    and clear_op :: "'s \<Rightarrow> 's"
    and size_op :: "'s \<Rightarrow> nat"
  assumes all_append: "all_op (append_op s r) = all_op s @ [r]"
    and all_clear: "all_op (clear_op s) = []"
    and size_all: "size_op s = length (all_op s)"
begin

lemma all_enqueued: "all_op (foldl (oq_enqueue append_op) s rs) = all_op s @ rs"
  by (induction rs arbitrary: s) (simp_all add: oq_enqueue_def all_append)

lemma drain_empties: "all_op (snd (oq_drain all_op clear_op s)) = [] \<and>
    size_op (snd (oq_drain all_op clear_op s)) = 0"
  by (simp add: oq_drain_def all_clear size_all)

lemma drain_sorted: "sorted (map w_hlc (fst (oq_drain all_op clear_op s)))"
  by (simp add: oq_drain_def sortByHlc_sorted)

lemma drain_mem: "r \<in> set (fst (oq_drain all_op clear_op s)) \<longleftrightarrow> r \<in> set (compacted (all_op s))"
  by (simp add: oq_drain_def)

lemma drain_distinct: "distinct (map w_recordId (fst (oq_drain all_op clear_op s)))"
  by (simp add: oq_drain_def compacted_distinct)

lemma drain_newest:
  "r \<in> set (fst (oq_drain all_op clear_op s)) \<Longrightarrow> r \<in> set (all_op s) \<and>
     (\<forall>x \<in> set (all_op s). w_recordId x = w_recordId r \<longrightarrow> w_hlc x \<le> w_hlc r)"
  using compacted_spec drain_mem by blast

lemma drain_covers:
  "x \<in> set (all_op s) \<Longrightarrow> \<exists>r \<in> set (fst (oq_drain all_op clear_op s)). w_recordId r = w_recordId x"
  using compacted_covers drain_mem by blast

end

interpretation memory: queue_storage mem_append mem_all mem_clear mem_size
  by unfold_locales (simp_all add: mem_append_def mem_all_def mem_clear_def mem_size_def)

text \<open>The queue as the engine holds it.\<close>

definition enqueue :: "memory_queue \<Rightarrow> CookieRecordWire \<Rightarrow> memory_queue" where
  "enqueue = oq_enqueue mem_append"

definition drain :: "memory_queue \<Rightarrow> CookieRecordWire list \<times> memory_queue" where
  "drain = oq_drain mem_all mem_clear"

lemma drain_simps: "fst (drain q) = sortByHlc w_hlc (compacted q)" "snd (drain q) = []"
  by (simp_all add: drain_def oq_drain_def mem_all_def mem_clear_def)

section \<open>Properties\<close>

lemma enqueue_all: "foldl enqueue q rs = q @ rs"
  using memory.all_enqueued[of q rs] by (simp add: enqueue_def mem_all_def)

text \<open>
  The offline queue drains to the newest mutation of each cookie, oldest first: whatever was
  enqueued, in whatever order, the drained list has one record for each record id enqueued, the
  newest of them, in the order of their stamps, and the queue is left empty.
\<close>

theorem drain_newest_once:
  "(let (rs', q') = drain (foldl enqueue [] rs) in
     set (map w_recordId rs') = set (map w_recordId rs) \<and> distinct (map w_recordId rs') \<and>
     sorted (map w_hlc rs') \<and> q' = [] \<and>
     list_all (\<lambda>r. r \<in> set rs \<and> list_all (\<lambda>x. w_hlc x \<le> w_hlc r) (filter (\<lambda>x. w_recordId x = w_recordId r) rs)) rs')"
proof -
  have a: "mem_all (foldl enqueue [] rs) = rs" using enqueue_all[of "[]" rs] by (simp add: mem_all_def)
  obtain rs' q' where d: "drain (foldl enqueue [] rs) = (rs', q')" by fastforce
  note d' = d[unfolded drain_def]
  have "w_recordId ` set rs' = w_recordId ` set rs"
    using memory.drain_newest[of _ "foldl enqueue [] rs"] memory.drain_covers[of _ "foldl enqueue [] rs"] d' a
    by (auto simp: image_iff) metis+
  moreover have "sorted (map w_hlc rs')" "distinct (map w_recordId rs')"
    using memory.drain_sorted[of "foldl enqueue [] rs"] memory.drain_distinct[of "foldl enqueue [] rs"] d' by simp_all
  moreover have "q' = []" using drain_simps(2)[of "foldl enqueue [] rs"] d by simp
  ultimately show ?thesis
    using memory.drain_newest[of _ "foldl enqueue [] rs"] d' a unfolding d
    by (auto simp: list_all_iff)
qed

end
