(* ===== verification/EngineState.thy ===== *)
theory EngineState
  imports SyncQueue Corpus
begin

text \<open>
  The sync engine's state and its decisions (packages/sync-engine/src/engine.ts, types.ts,
  verify.ts): the cause of a browser change, sealing and opening, causal descent, conflict
  resolution, fences, tombstones, ancestry, parked writes, the echo ledger and policy gating.

  What the engine is constructed with is a \<open>config\<close>: its constants, the cryptography, whether
  a signature verifies, whether the cookie store's gate admits a cookie and the initialisation
  vector drawn for a stamp.  What the outside answers during one operation is a \<open>world\<close>: the
  time, whether the cookie store accepts an apply and whether the transport grants a lease (by
  origin and force flag).  The instance's fields are the record \<open>engine\<close>; what it does to the
  transport and the cookie store is appended to the field \<open>effects\<close>.
\<close>

section \<open>Data\<close>

record StoredRecord =
  st_recordId :: string
  st_originId :: string
  st_plain :: CookiePlain
  st_wire :: CookieRecordWire
  st_cause :: Cause
  st_hlc :: hlc
  st_causalParent :: "string option"
  st_tombstonedAtMs :: "nat option"

datatype RemoteDisposition = Applied | DStale | ResurrectionBlocked | Duplicate | Rejected

datatype OriginOverride = OverrideSync | OverrideNever

record OriginPolicyView =
  pv_policy :: OriginPolicy
  pv_override :: "OriginOverride option"
  pv_synced :: bool

record OriginSnapshot =
  os_spaceId :: string
  os_originId :: string
  os_capturedAtMs :: nat
  os_records :: "StoredRecord list"

record DeleteFence =
  df_hlc :: hlc
  df_token :: string

record TombstoneNote =
  tn_wire :: CookieRecordWire
  tn_plain :: CookiePlain

record EchoEntry =
  ee_count :: nat
  ee_expiresAtMs :: nat

datatype effect =
    EPublish CookieRecordWire
  | EApply CookiePlain Cause
  | EAcquireLease string string bool "(string \<times> hlc) option"
  | EReleaseLease string string

type_synonym edge_map = "(string, string option) js_map"

record engine =
  records :: "(string, StoredRecord) js_map"
  fences :: "(string, DeleteFence) js_map"
  latestTombstones :: "(string, TombstoneNote) js_map"
  ancestry :: "(string, edge_map) js_map"
  parked :: "(string, CookieRecordWire) js_map"
  overrides :: "(string, OriginOverride) js_map"
  pendingEchoes :: "(string, EchoEntry) js_map"
  grantedLeases :: "(string, nat) js_map"
  retryingLeaseRejections :: "string list"
  queue :: memory_queue
  clock :: hlc_clock
  hydrating :: bool
  online :: bool
  effects :: "effect list"

record config =
  cf_spaceId :: string
  cf_crypto :: crypto
  cf_signer :: string
  cf_policies :: "OriginPolicy list"
  cf_tombstoneRetentionMs :: nat
  cf_leaseTtlMs :: nat
  cf_echoTtlMs :: nat
  cf_verify :: "CookieRecordWire \<Rightarrow> bool"
  cf_canApply :: "CookiePlain \<Rightarrow> bool"
  cf_iv :: "hlc \<Rightarrow> byte list"

record world =
  wd_now :: nat
  wd_applyOk :: "CookiePlain \<Rightarrow> bool"
  wd_grants :: "string \<Rightarrow> bool \<Rightarrow> bool"

definition DEFAULT_ECHO_TTL_MS :: nat where "DEFAULT_ECHO_TTL_MS = 10000"

definition MAX_ANCESTRY_EDGES :: nat where "MAX_ANCESTRY_EDGES = 64"

definition MAX_ANCESTRY_WALK :: nat where "MAX_ANCESTRY_WALK = 128"

definition ECHO_SWEEP_THRESHOLD :: nat where "ECHO_SWEEP_THRESHOLD = 256"

definition new_engine :: "string \<Rightarrow> engine" where
  "new_engine clockDeviceId =
     \<lparr>records = [], fences = [], latestTombstones = [], ancestry = [], parked = [], overrides = [],
      pendingEchoes = [], grantedLeases = [], retryingLeaseRejections = [], queue = [],
      clock = newHlcClock clockDeviceId, hydrating = False, online = True, effects = []\<rparr>"

section \<open>Causes and sealing\<close>

text \<open>\<open>null\<close>, the removal half of an overwrite pair, is \<open>None\<close>.\<close>

definition causeForChange :: "string \<Rightarrow> bool \<Rightarrow> Cause option" where
  "causeForChange chromiumCause removed =
     (if \<not> removed then Some (if chromiumCause = ''overwrite'' then OVERWRITE else WRITE)
      else if chromiumCause = ''explicit'' then Some EXPLICIT_DELETE
      else if chromiumCause = ''expired'' \<or> chromiumCause = ''expired-overwrite'' then Some EXPIRED
      else if chromiumCause = ''evicted'' then Some EVICTED
      else if chromiumCause = ''overwrite'' then None
      else Some EXPLICIT_DELETE)"

definition recordSealAad :: "string \<Rightarrow> string \<Rightarrow> byte list" where
  "recordSealAad spaceId recordIdHex =
     lengthPrefixed (map PStr [''suma.sync.seal.v1'', spaceId, recordIdHex])"

definition buildCookieRecordWire ::
  "config \<Rightarrow> CookiePlain \<Rightarrow> hlc \<Rightarrow> string option \<Rightarrow> Cause \<Rightarrow> CookieRecordWire" where
  "buildCookieRecordWire cf plain h causalParent cause =
     (let cr = cf_crypto cf;
          spaceId = ci_spaceId (cp_identity plain);
          recordId = computeRecordIdHex cr (cp_identity plain);
          originId = computeOriginIdHex cr spaceId (ci_hostKey (cp_identity plain));
          sealed = seal cr (cf_iv cf h) (encodeCookiePlain cr plain) (recordSealAad spaceId recordId);
          fields = \<lparr>sr_spaceId = spaceId, sr_recordId = recordId, sr_originId = originId,
                    sr_sealedRecord = toBase64 sealed, sr_hlc = h, sr_causalParent = causalParent,
                    sr_cause = cause\<rparr>
      in \<lparr>w_spaceId = spaceId, w_recordId = recordId, w_originId = originId,
          w_sealedRecord = toBase64 sealed, w_hlc = h, w_causalParent = causalParent,
          w_deviceSig = toBase64 (cr_sign cr (recordSigningBytes fields)), w_cause = cause\<rparr>)"

definition openRecord :: "config \<Rightarrow> CookieRecordWire \<Rightarrow> CookiePlain js_result" where
  "openRecord cf record =
     (case fromBase64 (w_sealedRecord record) of
        Inl e \<Rightarrow> Inl e
      | Inr sealed \<Rightarrow>
          (case open_sealed (cf_crypto cf) sealed (recordSealAad (w_spaceId record) (w_recordId record)) of
             Inl e \<Rightarrow> Inl e
           | Inr bytes \<Rightarrow> decodeCookiePlain (cf_crypto cf) bytes))"

definition identityBound :: "config \<Rightarrow> CookieRecordWire \<Rightarrow> CookiePlain \<Rightarrow> bool" where
  "identityBound cf record plain =
     (if ci_spaceId (cp_identity plain) \<noteq> w_spaceId record then False
      else if computeRecordIdHex (cf_crypto cf) (cp_identity plain) \<noteq> w_recordId record then False
      else computeOriginIdHex (cf_crypto cf) (w_spaceId record) (ci_hostKey (cp_identity plain)) =
           w_originId record)"

section \<open>The enrolled-device verifier\<close>

datatype UnknownDevicePolicy = RejectUnknown | AcceptUnknown

definition signable :: "CookieRecordWire \<Rightarrow> SignableRecordFields" where
  "signable r = \<lparr>sr_spaceId = w_spaceId r, sr_recordId = w_recordId r, sr_originId = w_originId r,
     sr_sealedRecord = w_sealedRecord r, sr_hlc = w_hlc r, sr_causalParent = w_causalParent r,
     sr_cause = w_cause r\<rparr>"

text \<open>\<open>verify_ok key sig bytes\<close> is Ed25519's verification, a parameter.\<close>

definition registry_verify ::
  "('k \<Rightarrow> byte list \<Rightarrow> byte list \<Rightarrow> bool) \<Rightarrow> UnknownDevicePolicy \<Rightarrow> (string, 'k) js_map \<Rightarrow>
   CookieRecordWire \<Rightarrow> bool" where
  "registry_verify verify_ok policy keys record =
     (case js_get keys (deviceId (w_hlc record)) of
        None \<Rightarrow> policy = AcceptUnknown
      | Some key \<Rightarrow>
          (case fromBase64 (w_deviceSig record) of
             Inl _ \<Rightarrow> False
           | Inr sig \<Rightarrow> verify_ok key sig (recordSigningBytes (signable record))))"

section \<open>Ancestry and descent\<close>

datatype Descent = Descends | Predates | Unknown

text \<open>The loop of \<open>descent\<close> with the steps it has left.\<close>

fun descent_loop :: "nat \<Rightarrow> edge_map option \<Rightarrow> string option \<Rightarrow> DeleteFence \<Rightarrow> Descent" where
  "descent_loop n edges None fence = Predates"
| "descent_loop 0 edges (Some token) fence = Unknown"
| "descent_loop (Suc n) edges (Some token) fence =
     (if token = df_token fence then Descends
      else (case parseVersionToken token of
              Inl _ \<Rightarrow> Unknown
            | Inr (_, h) \<Rightarrow>
                if compareHlc h (df_hlc fence) < 0 then Predates
                else (case edges of None \<Rightarrow> Unknown
                      | Some es \<Rightarrow> (case js_get es token of None \<Rightarrow> Unknown
                          | Some parent \<Rightarrow> descent_loop n edges parent fence))))"

definition descent :: "engine \<Rightarrow> string \<Rightarrow> string option \<Rightarrow> DeleteFence \<Rightarrow> Descent" where
  "descent s recordId startToken fence =
     (if startToken = None then Predates
      else descent_loop MAX_ANCESTRY_WALK (js_get (ancestry s) recordId) startToken fence)"

text \<open>The key of the edge to evict: the first unreadable token, else the oldest stamp.\<close>

fun oldest_edge :: "string list \<Rightarrow> (string \<times> hlc) option \<Rightarrow> string option" where
  "oldest_edge [] best = map_option fst best"
| "oldest_edge (t # ts) best =
     (case parseVersionToken t of
        Inl _ \<Rightarrow> Some t
      | Inr (_, h) \<Rightarrow>
          oldest_edge ts
            (case best of None \<Rightarrow> Some (t, h)
             | Some (_, bh) \<Rightarrow> if compareHlc h bh < 0 then Some (t, h) else best))"

definition add_edge :: "edge_map \<Rightarrow> string \<Rightarrow> string option \<Rightarrow> edge_map" where
  "add_edge edges token parent =
     (if js_get edges token \<noteq> None then edges
      else
        (let es = js_set edges token parent
         in if length es \<le> MAX_ANCESTRY_EDGES then es
            else (case oldest_edge (js_keys es) None of None \<Rightarrow> es | Some o' \<Rightarrow> js_del es o')))"

definition noteAncestry :: "CookieRecordWire \<Rightarrow> engine \<Rightarrow> engine" where
  "noteAncestry record s =
     (let edges = (case js_get (ancestry s) (w_recordId record) of None \<Rightarrow> [] | Some es \<Rightarrow> es)
      in s\<lparr>ancestry := js_set (ancestry s) (w_recordId record)
             (add_edge edges (makeVersionToken (w_recordId record) (w_hlc record)) (w_causalParent record))\<rparr>)"

section \<open>Fences, tombstones, parked writes, the record map\<close>

definition noteFence :: "CookieRecordWire \<Rightarrow> engine \<Rightarrow> engine" where
  "noteFence record s =
     (if w_cause record \<noteq> EXPLICIT_DELETE then s
      else
        (let update = s\<lparr>fences := js_set (fences s) (w_recordId record)
               \<lparr>df_hlc = w_hlc record, df_token = makeVersionToken (w_recordId record) (w_hlc record)\<rparr>\<rparr>
         in case js_get (fences s) (w_recordId record) of
              None \<Rightarrow> update
            | Some fence \<Rightarrow> if compareHlc (w_hlc record) (df_hlc fence) > 0 then update else s))"

definition noteTombstone :: "CookieRecordWire \<Rightarrow> CookiePlain \<Rightarrow> engine \<Rightarrow> engine" where
  "noteTombstone wire plain s =
     (let update = s\<lparr>latestTombstones := js_set (latestTombstones s) (w_recordId wire)
            \<lparr>tn_wire = wire, tn_plain = plain\<rparr>\<rparr>
      in case js_get (latestTombstones s) (w_recordId wire) of
           None \<Rightarrow> update
         | Some existing \<Rightarrow> if compareHlc (w_hlc wire) (w_hlc (tn_wire existing)) > 0 then update else s)"

definition park :: "CookieRecordWire \<Rightarrow> engine \<Rightarrow> engine" where
  "park record s =
     (let update = s\<lparr>parked := js_set (parked s) (w_recordId record) record\<rparr>
      in case js_get (parked s) (w_recordId record) of
           None \<Rightarrow> update
         | Some existing \<Rightarrow> if compareHlc (w_hlc record) (w_hlc existing) > 0 then update else s)"

definition stored_form :: "nat \<Rightarrow> CookieRecordWire \<Rightarrow> CookiePlain \<Rightarrow> StoredRecord" where
  "stored_form now wire plain =
     \<lparr>st_recordId = w_recordId wire, st_originId = w_originId wire, st_plain = plain, st_wire = wire,
      st_cause = w_cause wire, st_hlc = w_hlc wire, st_causalParent = w_causalParent wire,
      st_tombstonedAtMs = (if w_cause wire \<in> DELETION_CAUSES then Some now else None)\<rparr>"

definition engine_store :: "nat \<Rightarrow> CookieRecordWire \<Rightarrow> CookiePlain \<Rightarrow> engine \<Rightarrow> engine" where
  "engine_store now wire plain s =
     s\<lparr>records := js_set (records s) (w_recordId wire) (stored_form now wire plain)\<rparr>"

section \<open>Conflict resolution\<close>

definition lww :: "hlc \<Rightarrow> StoredRecord option \<Rightarrow> RemoteDisposition" where
  "lww h current =
     (case current of
        None \<Rightarrow> Applied
      | Some cur \<Rightarrow>
          (let cmp = compareHlc h (st_hlc cur)
           in if cmp = 0 then Duplicate else if cmp > 0 then Applied else DStale))"

definition resolve :: "engine \<Rightarrow> StoredRecord option \<Rightarrow> CookieRecordWire \<Rightarrow> RemoteDisposition" where
  "resolve s current record =
     (let thisToken = makeVersionToken (w_recordId record) (w_hlc record);
          fence = js_get (fences s) (w_recordId record)
      in if w_cause record = WRITE \<or> w_cause record = OVERWRITE then
           (if (case fence of None \<Rightarrow> False
                | Some f \<Rightarrow> compareHlc (w_hlc record) (df_hlc f) > 0 \<and>
                    descent s (w_recordId record) (w_causalParent record) f \<noteq> Descends)
            then ResurrectionBlocked
            else lww (w_hlc record) current)
         else if w_cause record = EXPLICIT_DELETE then
           (case current of
              None \<Rightarrow> Applied
            | Some cur \<Rightarrow>
                (let cmp = compareHlc (w_hlc record) (st_hlc cur)
                 in if cmp = 0 then Duplicate
                    else if cmp > 0 then Applied
                    else if st_cause cur \<in> DELETION_CAUSES then DStale
                    else if (case fence of None \<Rightarrow> False | Some f \<Rightarrow> df_token f \<noteq> thisToken) then DStale
                    else if descent s (w_recordId record)
                              (Some (makeVersionToken (st_recordId cur) (st_hlc cur)))
                              \<lparr>df_hlc = w_hlc record, df_token = thisToken\<rparr> = Descends
                    then DStale else Applied))
         else lww (w_hlc record) current)"

section \<open>The echo ledger\<close>

text \<open>The fingerprint of what an apply leaves in the cookie store; fields joined by NUL.\<close>

definition int_text :: "int \<Rightarrow> string" where
  "int_text n = (if n < 0 then ''-'' @ decimal_text (nat (- n)) else decimal_text (nat n))"

definition bool_text :: "bool \<Rightarrow> string" where
  "bool_text b = (if b then ''1'' else ''0'')"

fun join_nul :: "string list \<Rightarrow> string" where
  "join_nul [] = []"
| "join_nul [x] = x"
| "join_nul (x # y # xs) = x @ CHR 0x00 # join_nul (y # xs)"

definition expiry_text :: "int option \<Rightarrow> string" where
  "expiry_text e = (case e of None \<Rightarrow> ''session'' | Some ms \<Rightarrow> int_text (ms div 1000))"

definition echoKey :: "string \<Rightarrow> CookiePlain \<Rightarrow> string" where
  "echoKey recordId plain =
     (case (cp_deleted plain, cp_attributes plain) of
        (False, Some a) \<Rightarrow>
          join_nul [recordId, ''W'', ca_value a, expiry_text (ca_expiresMs a), bool_text (ca_persistent a),
            bool_text (ca_secure a), bool_text (ca_httpOnly a), same_site_text (ca_sameSite a)]
      | _ \<Rightarrow> recordId @ ''|D'')"

definition expectEcho :: "config \<Rightarrow> nat \<Rightarrow> string \<Rightarrow> CookiePlain \<Rightarrow> engine \<Rightarrow> engine" where
  "expectEcho cf now recordId plain s =
     (let key = echoKey recordId plain;
          swept = (if length (pendingEchoes s) > ECHO_SWEEP_THRESHOLD
                   then filter (\<lambda>(k, e). \<not> ee_expiresAtMs e \<le> now) (pendingEchoes s)
                   else pendingEchoes s);
          fresh = \<lparr>ee_count = 1, ee_expiresAtMs = now + cf_echoTtlMs cf\<rparr>
      in s\<lparr>pendingEchoes := js_set swept key
             (case js_get swept key of
                None \<Rightarrow> fresh
              | Some e \<Rightarrow>
                  if ee_expiresAtMs e > now
                  then \<lparr>ee_count = ee_count e + 1, ee_expiresAtMs = now + cf_echoTtlMs cf\<rparr> else fresh)\<rparr>)"

definition use_echo :: "string \<Rightarrow> EchoEntry \<Rightarrow> engine \<Rightarrow> engine" where
  "use_echo key entry s =
     (if ee_count entry \<le> 1 then s\<lparr>pendingEchoes := js_del (pendingEchoes s) key\<rparr>
      else s\<lparr>pendingEchoes := js_set (pendingEchoes s) key (entry\<lparr>ee_count := ee_count entry - 1\<rparr>)\<rparr>)"

definition cancelExpectedEcho :: "string \<Rightarrow> CookiePlain \<Rightarrow> engine \<Rightarrow> engine" where
  "cancelExpectedEcho recordId plain s =
     (let key = echoKey recordId plain
      in case js_get (pendingEchoes s) key of None \<Rightarrow> s | Some entry \<Rightarrow> use_echo key entry s)"

definition consumeEcho :: "nat \<Rightarrow> string \<Rightarrow> CookiePlain \<Rightarrow> engine \<Rightarrow> bool \<times> engine" where
  "consumeEcho now recordId plain s =
     (let key = echoKey recordId plain
      in case js_get (pendingEchoes s) key of
           None \<Rightarrow> (hydrating s, s)
         | Some entry \<Rightarrow>
             if ee_expiresAtMs entry \<le> now
             then (hydrating s, s\<lparr>pendingEchoes := js_del (pendingEchoes s) key\<rparr>)
             else (True, use_echo key entry s))"

section \<open>Policy gating\<close>

definition lookupOverride :: "engine \<Rightarrow> string \<Rightarrow> OriginOverride option" where
  "lookupOverride s host = map_option snd (best_match fst host None (overrides s))"

definition isSynced :: "config \<Rightarrow> engine \<Rightarrow> string \<Rightarrow> bool" where
  "isSynced cf s hostKey =
     (let host = normalizedHost hostKey
      in case lookupOverride s host of
           Some OverrideNever \<Rightarrow> False
         | Some OverrideSync \<Rightarrow> True
         | None \<Rightarrow>
             (let policy = matchOriginPolicy (cf_policies cf) host
              in op_syncTier policy \<noteq> 0 \<and> \<not> op_sensitive policy))"

definition setOriginOverride :: "string \<Rightarrow> OriginOverride option \<Rightarrow> engine \<Rightarrow> engine" where
  "setOriginOverride host override s =
     (let key = normalizedHost host
      in case override of
           None \<Rightarrow> s\<lparr>overrides := js_del (overrides s) key\<rparr>
         | Some o' \<Rightarrow> s\<lparr>overrides := js_set (overrides s) key o'\<rparr>)"

definition getOriginPolicyFor :: "config \<Rightarrow> engine \<Rightarrow> string \<Rightarrow> OriginPolicyView" where
  "getOriginPolicyFor cf s host =
     (let normalized = normalizedHost host
      in \<lparr>pv_policy = matchOriginPolicy (cf_policies cf) normalized,
          pv_override = lookupOverride s normalized, pv_synced = isSynced cf s normalized\<rparr>)"

end
