(* ===== verification/Engine.thy ===== *)
theory Engine
  imports EngineState
begin

text \<open>
  The operations of \<open>SpaceSyncEngine\<close> (packages/sync-engine/src/engine.ts), whole: local changes,
  remote records, rollback, leases, the offline queue, tombstone collection and the queries.  An
  operation runs to its end before the next one starts: its awaits are of cryptography, of the
  cookie store and of the transport, whose answers are in the \<open>world\<close>.  A rejected promise is
  \<open>Inl\<close>, with the state the operation had reached.
\<close>

type_synonym 'a run = "'a js_result \<times> engine"

definition emit :: "effect \<Rightarrow> engine \<Rightarrow> engine" where
  "emit e s = s\<lparr>effects := effects s @ [e]\<rparr>"

section \<open>Leases and publishing\<close>

definition acquireLease ::
  "config \<Rightarrow> world \<Rightarrow> string \<Rightarrow> bool \<Rightarrow> (string \<times> hlc) option \<Rightarrow> engine \<Rightarrow> bool \<times> engine" where
  "acquireLease cf wd originId force candidate s =
     (let s1 = emit (EAcquireLease (cf_spaceId cf) originId force candidate) s;
          granted = wd_grants wd originId force
      in (granted,
          if granted
          then s1\<lparr>grantedLeases := js_set (grantedLeases s1) originId (wd_now wd + cf_leaseTtlMs cf div 2)\<rparr>
          else s1\<lparr>grantedLeases := js_del (grantedLeases s1) originId\<rparr>))"

definition ensureLease :: "config \<Rightarrow> world \<Rightarrow> string \<Rightarrow> engine \<Rightarrow> bool \<times> engine" where
  "ensureLease cf wd originId s =
     (case js_get (grantedLeases s) originId of
        Some expiry \<Rightarrow> if expiry > wd_now wd then (True, s) else acquireLease cf wd originId False None s
      | None \<Rightarrow> acquireLease cf wd originId False None s)"

definition publishOrQueue :: "config \<Rightarrow> world \<Rightarrow> CookieRecordWire \<Rightarrow> bool \<Rightarrow> engine \<Rightarrow> engine" where
  "publishOrQueue cf wd wire needsLease s =
     (if \<not> online s then s\<lparr>queue := enqueue (queue s) wire\<rparr>
      else
        (let (granted, s1) = (if needsLease then ensureLease cf wd (w_originId wire) s else (True, s))
         in if needsLease \<and> \<not> granted then emit (EPublish wire) s1 else emit (EPublish wire) s1))"

definition leaseRevoked :: "string \<Rightarrow> engine \<Rightarrow> engine" where
  "leaseRevoked originId s = s\<lparr>grantedLeases := js_del (grantedLeases s) originId\<rparr>"

section \<open>Remote records\<close>

text \<open>Handing a winner to the cookie store; the record map changes only once it is accepted.\<close>

definition apply_winner ::
  "config \<Rightarrow> world \<Rightarrow> CookieRecordWire \<Rightarrow> CookiePlain \<Rightarrow> engine \<Rightarrow> RemoteDisposition run" where
  "apply_winner cf wd wire plain s =
     (if cf_canApply cf plain then
        (let s1 = expectEcho cf (wd_now wd) (w_recordId wire) plain s
         in if wd_applyOk wd plain
            then (Inr Applied, engine_store (wd_now wd) wire plain (emit (EApply plain (w_cause wire)) s1))
            else (Inl (JsError ''apply failed''), cancelExpectedEcho (w_recordId wire) plain s1))
      else (Inr Applied, engine_store (wd_now wd) wire plain s))"

text \<open>What every accepted record teaches the engine before it is judged.\<close>

definition learn :: "world \<Rightarrow> CookieRecordWire \<Rightarrow> CookiePlain \<Rightarrow> engine \<Rightarrow> engine" where
  "learn wd record plain s =
     (let s1 = s\<lparr>clock := snd (clock_receive (wd_now wd) (w_hlc record) (clock s))\<rparr>;
          s2 = noteFence record (noteAncestry record s1)
      in if w_cause record \<in> DELETION_CAUSES then noteTombstone record plain s2 else s2)"

definition winner_of :: "CookieRecordWire \<Rightarrow> CookiePlain \<Rightarrow> engine \<Rightarrow> CookieRecordWire \<times> CookiePlain" where
  "winner_of record plain s =
     (if w_cause record \<in> DELETION_CAUSES then
        (case js_get (latestTombstones s) (w_recordId record) of
           None \<Rightarrow> (record, plain) | Some t \<Rightarrow> (tn_wire t, tn_plain t))
      else (record, plain))"

definition ingest :: "config \<Rightarrow> world \<Rightarrow> CookieRecordWire \<Rightarrow> bool \<Rightarrow> engine \<Rightarrow> RemoteDisposition run" where
  "ingest cf wd record allowPark s =
     (if w_cause record = HYDRATION_ECHO then (Inr Duplicate, s)
      else if w_spaceId record \<noteq> cf_spaceId cf then (Inr Rejected, s)
      else if \<not> cf_verify cf record then (Inr Rejected, s)
      else
        (case openRecord cf record of
           Inl _ \<Rightarrow> (Inr Rejected, s)
         | Inr plain \<Rightarrow>
             if \<not> identityBound cf record plain then (Inr Rejected, s)
             else
               (let s1 = learn wd record plain s;
                    disposition = resolve s1 (js_get (records s1) (w_recordId record)) record;
                    s2 = (if disposition = ResurrectionBlocked \<and> allowPark then park record s1 else s1)
                in if disposition \<noteq> Applied then (Inr disposition, s2)
                   else (let (wire, p) = winner_of record plain s2 in apply_winner cf wd wire p s2))))"

definition retryParked :: "config \<Rightarrow> world \<Rightarrow> string \<Rightarrow> engine \<Rightarrow> unit run" where
  "retryParked cf wd recordId s =
     (case js_get (parked s) recordId of
        None \<Rightarrow> (Inr (), s)
      | Some parkedRecord \<Rightarrow>
          (let verdict = resolve s (js_get (records s) recordId) parkedRecord
           in if verdict = ResurrectionBlocked then (Inr (), s)
              else
                (let s1 = s\<lparr>parked := js_del (parked s) recordId\<rparr>
                 in if verdict \<noteq> Applied then (Inr (), s1)
                    else (case ingest cf wd parkedRecord False s1 of
                            (Inl e, s2) \<Rightarrow> (Inl e, s2) | (Inr _, s2) \<Rightarrow> (Inr (), s2)))))"

definition applyOne :: "config \<Rightarrow> world \<Rightarrow> CookieRecordWire \<Rightarrow> engine \<Rightarrow> RemoteDisposition run" where
  "applyOne cf wd record s =
     (case ingest cf wd record True s of
        (Inl e, s1) \<Rightarrow> (Inl e, s1)
      | (Inr disposition, s1) \<Rightarrow>
          (case retryParked cf wd (w_recordId record) s1 of
             (Inl e, s2) \<Rightarrow> (Inl e, s2) | (Inr _, s2) \<Rightarrow> (Inr disposition, s2)))"

fun applyRemote :: "config \<Rightarrow> world \<Rightarrow> CookieRecordWire list \<Rightarrow> engine \<Rightarrow> RemoteDisposition list run" where
  "applyRemote cf wd [] s = (Inr [], s)"
| "applyRemote cf wd (r # rs) s =
     (case applyOne cf wd r s of
        (Inl e, s1) \<Rightarrow> (Inl e, s1)
      | (Inr d, s1) \<Rightarrow>
          (case applyRemote cf wd rs s1 of (Inl e, s2) \<Rightarrow> (Inl e, s2) | (Inr ds, s2) \<Rightarrow> (Inr (d # ds), s2)))"

definition inspectRemoteIdentity :: "config \<Rightarrow> CookieRecordWire \<Rightarrow> CookieIdentity option" where
  "inspectRemoteIdentity cf record =
     (if w_spaceId record \<noteq> cf_spaceId cf then None
      else if \<not> cf_verify cf record then None
      else (case openRecord cf record of
              Inl _ \<Rightarrow> None
            | Inr plain \<Rightarrow> if identityBound cf record plain then Some (cp_identity plain) else None))"

section \<open>Local changes\<close>

definition hasRecord :: "config \<Rightarrow> engine \<Rightarrow> CookieIdentity \<Rightarrow> bool" where
  "hasRecord cf s i =
     (if ci_spaceId i \<noteq> cf_spaceId cf then False
      else js_get (records s) (computeRecordIdHex (cf_crypto cf) i) \<noteq> None)"

definition parent_token :: "string \<Rightarrow> engine \<Rightarrow> string option" where
  "parent_token recordId s =
     map_option (\<lambda>cur. makeVersionToken recordId (st_hlc cur)) (js_get (records s) recordId)"

text \<open>Stamp, seal, sign and store a mutation of this device: the wire record and the new state.\<close>

definition issue :: "config \<Rightarrow> world \<Rightarrow> string \<Rightarrow> CookiePlain \<Rightarrow> Cause \<Rightarrow> engine \<Rightarrow> CookieRecordWire \<times> engine" where
  "issue cf wd recordId plain cause s =
     (let (h, c) = clock_send (wd_now wd) (clock s);
          wire = buildCookieRecordWire cf plain h (parent_token recordId s) cause;
          s1 = noteFence wire (noteAncestry wire (s\<lparr>clock := c\<rparr>));
          s2 = (if cause \<in> DELETION_CAUSES then noteTombstone wire plain s1 else s1)
      in (wire, engine_store (wd_now wd) wire plain s2))"

definition local_plain :: "CookieIdentity \<Rightarrow> CookieAttributes option \<Rightarrow> bool \<Rightarrow> CookiePlain" where
  "local_plain i attrs removed =
     \<lparr>cp_identity = i, cp_attributes = (if removed then None else attrs), cp_deleted = removed\<rparr>"

text \<open>
  Writer-scoped deletions: whether a local deletion stays on this device, and the cause it is then
  recorded with.
\<close>

definition local_only :: "config \<Rightarrow> world \<Rightarrow> CookieIdentity \<Rightarrow> Cause \<Rightarrow> bool \<Rightarrow> engine \<Rightarrow> bool" where
  "local_only cf wd i cause explicitIntent s =
     (op_rotatingAuth (matchOriginPolicy (cf_policies cf) (normalizedHost (ci_hostKey i))) \<and>
      cause \<in> DELETION_CAUSES \<and> \<not> explicitIntent \<and>
      (case js_get (grantedLeases s) (computeOriginIdHex (cf_crypto cf) (cf_spaceId cf) (ci_hostKey i)) of
         None \<Rightarrow> True | Some grant \<Rightarrow> grant \<le> wd_now wd))"

definition local_cause :: "config \<Rightarrow> world \<Rightarrow> CookieIdentity \<Rightarrow> Cause \<Rightarrow> bool \<Rightarrow> engine \<Rightarrow> Cause" where
  "local_cause cf wd i cause explicitIntent s =
     (if local_only cf wd i cause explicitIntent s \<and> cause = EXPLICIT_DELETE then EXPIRED else cause)"

text \<open>From the policy lookup to the publish.\<close>

definition commit_local ::
  "config \<Rightarrow> world \<Rightarrow> CookieIdentity \<Rightarrow> CookieAttributes option \<Rightarrow> bool \<Rightarrow> Cause \<Rightarrow> bool \<Rightarrow> engine \<Rightarrow>
   CookieRecordWire \<times> engine" where
  "commit_local cf wd i attrs removed cause0 explicitIntent s =
     (let policy = matchOriginPolicy (cf_policies cf) (normalizedHost (ci_hostKey i));
          cause = local_cause cf wd i cause0 explicitIntent s;
          (wire, s2) = issue cf wd (computeRecordIdHex (cf_crypto cf) i) (local_plain i attrs removed) cause s
      in (wire,
          if local_only cf wd i cause0 explicitIntent s then s2
          else publishOrQueue cf wd wire (op_rotatingAuth policy \<and> cause \<notin> DELETION_CAUSES) s2))"

definition localChange ::
  "config \<Rightarrow> world \<Rightarrow> CookieIdentity \<Rightarrow> CookieAttributes option \<Rightarrow> bool \<Rightarrow> string \<Rightarrow> bool \<Rightarrow> engine \<Rightarrow>
   CookieRecordWire option run" where
  "localChange cf wd i attrs removed chromiumCause explicitIntent s =
     (if ci_spaceId i \<noteq> cf_spaceId cf then (Inl (JsError ''cookie identity belongs to another space''), s)
      else (case causeForChange chromiumCause removed of
        None \<Rightarrow> (Inr None, s)
      | Some cause \<Rightarrow>
          if \<not> removed \<and> attrs = None
          then (Inl (JsError ''cookie attributes are required for a non-removal change''), s)
          else
            (let recordId = computeRecordIdHex (cf_crypto cf) i;
                 (echo, s1) = consumeEcho (wd_now wd) recordId (local_plain i attrs removed) s
             in if echo then (Inr None, s1)
                else if \<not> isSynced cf s1 (ci_hostKey i) then (Inr None, s1)
                else
                  (let (wire, s2) = commit_local cf wd i attrs removed cause explicitIntent s1
                   in case retryParked cf wd recordId s2 of
                        (Inl e, s3) \<Rightarrow> (Inl e, s3) | (Inr _, s3) \<Rightarrow> (Inr (Some wire), s3)))))"

definition beginHydration :: "engine \<Rightarrow> engine" where
  "beginHydration s = s\<lparr>hydrating := True\<rparr>"

definition endHydration :: "engine \<Rightarrow> engine" where
  "endHydration s = s\<lparr>hydrating := False\<rparr>"

section \<open>Snapshot and rollback\<close>

definition snapshotOrigin :: "config \<Rightarrow> world \<Rightarrow> string \<Rightarrow> engine \<Rightarrow> OriginSnapshot" where
  "snapshotOrigin cf wd originId s =
     \<lparr>os_spaceId = cf_spaceId cf, os_originId = originId, os_capturedAtMs = wd_now wd,
      os_records = filter (\<lambda>r. st_originId r = originId) (map snd (records s))\<rparr>"

definition reissue :: "config \<Rightarrow> world \<Rightarrow> CookiePlain \<Rightarrow> Cause \<Rightarrow> engine \<Rightarrow> CookieRecordWire run" where
  "reissue cf wd plain cause s =
     (let recordId = computeRecordIdHex (cf_crypto cf) (cp_identity plain);
          (wire, s1) = issue cf wd recordId plain cause s
      in if cf_canApply cf plain then
           (let s2 = expectEcho cf (wd_now wd) recordId plain s1
            in if wd_applyOk wd plain
               then (Inr wire, publishOrQueue cf wd wire False (emit (EApply plain cause) s2))
               else (Inl (JsError ''apply failed''), s2))
         else (Inr wire, publishOrQueue cf wd wire False s1))"

fun reissue_all :: "config \<Rightarrow> world \<Rightarrow> (CookiePlain \<times> Cause) list \<Rightarrow> engine \<Rightarrow> CookieRecordWire list run" where
  "reissue_all cf wd [] s = (Inr [], s)"
| "reissue_all cf wd ((p, c) # ps) s =
     (case reissue cf wd p c s of
        (Inl e, s1) \<Rightarrow> (Inl e, s1)
      | (Inr w, s1) \<Rightarrow>
          (case reissue_all cf wd ps s1 of (Inl e, s2) \<Rightarrow> (Inl e, s2) | (Inr ws, s2) \<Rightarrow> (Inr (w # ws), s2)))"

text \<open>What a rollback reissues: deletions of what the snapshot lacks, then the snapshot.\<close>

definition rollback_plan :: "string \<Rightarrow> OriginSnapshot \<Rightarrow> engine \<Rightarrow> (CookiePlain \<times> Cause) list" where
  "rollback_plan originId snapshot s =
     (let ids = map st_recordId (os_records snapshot);
          dropped = filter (\<lambda>r. \<not> (st_originId r \<noteq> originId \<or> st_recordId r \<in> set ids \<or> cp_deleted (st_plain r)))
            (map snd (records s))
      in map (\<lambda>r. (\<lparr>cp_identity = cp_identity (st_plain r), cp_attributes = None, cp_deleted = True\<rparr>,
            EXPLICIT_DELETE)) dropped @
         map (\<lambda>r. (st_plain r, if cp_deleted (st_plain r) then EXPLICIT_DELETE else WRITE)) (os_records snapshot))"

definition rollbackOrigin ::
  "config \<Rightarrow> world \<Rightarrow> string \<Rightarrow> OriginSnapshot \<Rightarrow> engine \<Rightarrow> CookieRecordWire list run" where
  "rollbackOrigin cf wd originId snapshot s = reissue_all cf wd (rollback_plan originId snapshot s) s"

section \<open>Going offline and back\<close>

definition wireNeedsLease :: "config \<Rightarrow> CookieRecordWire \<Rightarrow> bool js_result" where
  "wireNeedsLease cf wire =
     (if w_cause wire \<in> DELETION_CAUSES then Inr False
      else (case openRecord cf wire of
              Inl e \<Rightarrow> Inl e
            | Inr plain \<Rightarrow>
                Inr (op_rotatingAuth (matchOriginPolicy (cf_policies cf)
                  (normalizedHost (ci_hostKey (cp_identity plain)))))))"

fun drain_loop :: "config \<Rightarrow> world \<Rightarrow> CookieRecordWire list \<Rightarrow> engine \<Rightarrow> unit run" where
  "drain_loop cf wd [] s = (Inr (), s)"
| "drain_loop cf wd (w # ws) s =
     (if \<not> online s then drain_loop cf wd ws (s\<lparr>queue := enqueue (queue s) w\<rparr>)
      else (case wireNeedsLease cf w of
              Inl e \<Rightarrow> (Inl e, s)
            | Inr needs \<Rightarrow>
                (let s1 = (if needs then snd (ensureLease cf wd (w_originId w) s) else s)
                 in drain_loop cf wd ws (emit (EPublish w) s1))))"

definition runDrainQueue :: "config \<Rightarrow> world \<Rightarrow> engine \<Rightarrow> unit run" where
  "runDrainQueue cf wd s =
     (let (ws, q) = drain (queue s) in drain_loop cf wd ws (s\<lparr>queue := q\<rparr>))"

definition flushPending :: "config \<Rightarrow> world \<Rightarrow> engine \<Rightarrow> unit run" where
  "flushPending cf wd s = (if \<not> online s then (Inr (), s) else runDrainQueue cf wd s)"

definition setOnline :: "config \<Rightarrow> world \<Rightarrow> bool \<Rightarrow> engine \<Rightarrow> engine" where
  "setOnline cf wd v s =
     (let s1 = s\<lparr>online := v\<rparr>
      in if v then snd (flushPending cf wd s1)
         else s1\<lparr>effects := effects s1 @ map (EReleaseLease (cf_spaceId cf)) (js_keys (grantedLeases s1)),
                grantedLeases := []\<rparr>)"

definition publishRejected :: "config \<Rightarrow> world \<Rightarrow> string \<Rightarrow> RejectReason \<Rightarrow> engine \<Rightarrow> engine" where
  "publishRejected cf wd recordId reason s =
     (if reason \<noteq> LeaseRequired \<or> recordId \<in> set (retryingLeaseRejections s) then s
      else
        (case js_get (records s) recordId of
           None \<Rightarrow> s
         | Some current \<Rightarrow>
             if deviceId (st_hlc current) \<noteq> cf_signer cf \<or> st_cause current \<in> DELETION_CAUSES then s
             else
               (let s1 = s\<lparr>retryingLeaseRejections := recordId # retryingLeaseRejections s,
                           grantedLeases := js_del (grantedLeases s) (st_originId current)\<rparr>;
                    s2 = (if \<not> online s1 then s1\<lparr>queue := enqueue (queue s1) (st_wire current)\<rparr>
                          else
                            (let (granted, t) = acquireLease cf wd (st_originId current) True
                                   (Some (st_recordId current, st_hlc current)) s1
                             in if \<not> granted then t\<lparr>queue := enqueue (queue t) (st_wire current)\<rparr>
                                else emit (EPublish (st_wire current)) t))
                in s2\<lparr>retryingLeaseRejections := removeAll recordId (retryingLeaseRejections s2)\<rparr>)))"

section \<open>Collection and queries\<close>

definition collectable :: "config \<Rightarrow> nat \<Rightarrow> StoredRecord \<Rightarrow> bool" where
  "collectable cf now r =
     (case st_tombstonedAtMs r of None \<Rightarrow> False
      | Some t \<Rightarrow> int t < int now - int (cf_tombstoneRetentionMs cf))"

definition forget :: "string \<Rightarrow> engine \<Rightarrow> engine" where
  "forget recordId s =
     s\<lparr>records := js_del (records s) recordId, fences := js_del (fences s) recordId,
       latestTombstones := js_del (latestTombstones s) recordId,
       ancestry := js_del (ancestry s) recordId, parked := js_del (parked s) recordId\<rparr>"

definition gcTombstones :: "config \<Rightarrow> nat \<Rightarrow> engine \<Rightarrow> nat \<times> engine" where
  "gcTombstones cf now s =
     (let ids = map fst (filter (\<lambda>(k, r). collectable cf now r) (records s))
      in (length ids, fold forget ids s))"

definition getRecord :: "engine \<Rightarrow> string \<Rightarrow> StoredRecord option" where
  "getRecord s recordIdHex = js_get (records s) recordIdHex"

definition listLiveCookies :: "engine \<Rightarrow> CookiePlain list" where
  "listLiveCookies s = filter (\<lambda>p. \<not> cp_deleted p) (map (\<lambda>(k, r). st_plain r) (records s))"

fun reapply_loop :: "config \<Rightarrow> world \<Rightarrow> string \<Rightarrow> StoredRecord list \<Rightarrow> nat \<Rightarrow> engine \<Rightarrow> nat run" where
  "reapply_loop cf wd target [] n s = (Inr n, s)"
| "reapply_loop cf wd target (r # rs) n s =
     (let cookieHost = normalizedHost (ci_hostKey (cp_identity (st_plain r)))
      in if cookieHost \<noteq> target \<and> \<not> suffix (CHR ''.'' # target) cookieHost then reapply_loop cf wd target rs n s
         else if \<not> isSynced cf s cookieHost \<or> \<not> cf_canApply cf (st_plain r) then reapply_loop cf wd target rs n s
         else
           (let s1 = expectEcho cf (wd_now wd) (st_recordId r) (st_plain r) s
            in if wd_applyOk wd (st_plain r)
               then reapply_loop cf wd target rs (n + 1) (emit (EApply (st_plain r) (st_cause r)) s1)
               else (Inl (JsError ''apply failed''), s1)))"

definition reapplyOrigin :: "config \<Rightarrow> world \<Rightarrow> string \<Rightarrow> engine \<Rightarrow> nat run" where
  "reapplyOrigin cf wd host s = reapply_loop cf wd (normalizedHost host) (map snd (records s)) 0 s"

section \<open>The engine as a machine\<close>

datatype engine_op =
    OpLocal CookieIdentity "CookieAttributes option" bool string bool
  | OpRemote "CookieRecordWire list"
  | OpHydrating bool
  | OpRollback string OriginSnapshot
  | OpOnline bool
  | OpFlush
  | OpLeaseRevoked string
  | OpPublishRejected string RejectReason
  | OpGc
  | OpReapply string
  | OpOverride string "OriginOverride option"

fun engine_step :: "config \<Rightarrow> engine \<Rightarrow> world \<times> engine_op \<Rightarrow> engine" where
  "engine_step cf s (wd, OpLocal i a r c e) = snd (localChange cf wd i a r c e s)"
| "engine_step cf s (wd, OpRemote rs) = snd (applyRemote cf wd rs s)"
| "engine_step cf s (wd, OpHydrating b) = (if b then beginHydration s else endHydration s)"
| "engine_step cf s (wd, OpRollback o' snap) = snd (rollbackOrigin cf wd o' snap s)"
| "engine_step cf s (wd, OpOnline b) = setOnline cf wd b s"
| "engine_step cf s (wd, OpFlush) = snd (flushPending cf wd s)"
| "engine_step cf s (wd, OpLeaseRevoked o') = leaseRevoked o' s"
| "engine_step cf s (wd, OpPublishRejected r reason) = publishRejected cf wd r reason s"
| "engine_step cf s (wd, OpGc) = snd (gcTombstones cf (wd_now wd) s)"
| "engine_step cf s (wd, OpReapply h) = snd (reapplyOrigin cf wd h s)"
| "engine_step cf s (wd, OpOverride h v) = setOriginOverride h v s"

definition engine_run :: "config \<Rightarrow> engine \<Rightarrow> (world \<times> engine_op) list \<Rightarrow> engine" where
  "engine_run cf s ops = foldl (engine_step cf) s ops"

end
