(* ===== verification/EngineFacts.thy ===== *)
theory EngineFacts
  imports Engine
begin

text \<open>
  What holds of the sync engine.  First its three newest-wins cells (fence, tombstone, parked
  write) meet the contract of the prelude; then the book-keeping invariant and that every operation
  keeps it; then what each operation leaves alone, and what the decisions mean: descent against
  reachability in the ancestry, deletions and plain writes against a last-writer-wins register,
  the echo ledger, writer scoping, collection and the offline queue.
\<close>

section \<open>The newest-wins cells\<close>

definition fence_of :: "CookieRecordWire \<Rightarrow> DeleteFence" where
  "fence_of r = \<lparr>df_hlc = w_hlc r, df_token = makeVersionToken (w_recordId r) (w_hlc r)\<rparr>"

definition fence_offer :: "DeleteFence option \<Rightarrow> DeleteFence \<Rightarrow> DeleteFence option" where
  "fence_offer cur f =
     (case cur of None \<Rightarrow> Some f | Some g \<Rightarrow> if compareHlc (df_hlc f) (df_hlc g) > 0 then Some f else cur)"

definition tomb_offer :: "TombstoneNote option \<Rightarrow> TombstoneNote \<Rightarrow> TombstoneNote option" where
  "tomb_offer cur t =
     (case cur of None \<Rightarrow> Some t
      | Some u \<Rightarrow> if compareHlc (w_hlc (tn_wire t)) (w_hlc (tn_wire u)) > 0 then Some t else cur)"

interpretation fence_cell: newest_cell df_hlc fence_offer
  by unfold_locales (auto simp: fence_offer_def)

interpretation tomb_cell: newest_cell "\<lambda>t :: TombstoneNote. w_hlc (tn_wire t)" tomb_offer
  by unfold_locales (auto simp: tomb_offer_def)

lemma noteFence_get:
  "js_get (fences (noteFence r s)) k =
     (if w_cause r = EXPLICIT_DELETE \<and> k = w_recordId r then fence_offer (js_get (fences s) k) (fence_of r)
      else js_get (fences s) k)"
  by (auto simp: noteFence_def fence_offer_def fence_of_def Let_def split: option.splits)

lemma noteTombstone_get:
  "js_get (latestTombstones (noteTombstone w p s)) k =
     (if k = w_recordId w then tomb_offer (js_get (latestTombstones s) k) \<lparr>tn_wire = w, tn_plain = p\<rparr>
      else js_get (latestTombstones s) k)"
  by (auto simp: noteTombstone_def tomb_offer_def Let_def split: option.splits)

lemma park_get:
  "js_get (parked (park r s)) k =
     (if k = w_recordId r then queue_offer (js_get (parked s) k) r else js_get (parked s) k)"
  by (auto simp: park_def queue_offer_def Let_def split: option.splits)

section \<open>What an operation leaves alone\<close>

text \<open>The book-keeping of an engine: everything but echoes, leases, queue, clock and effects.\<close>

definition book :: "engine \<Rightarrow> (string, StoredRecord) js_map \<times> (string, DeleteFence) js_map \<times>
    (string, TombstoneNote) js_map \<times> (string, edge_map) js_map \<times> (string, CookieRecordWire) js_map" where
  "book s = (records s, fences s, latestTombstones s, ancestry s, parked s)"

lemma book_fields:
  "book s = book t \<longleftrightarrow> records s = records t \<and> fences s = fences t \<and>
     latestTombstones s = latestTombstones t \<and> ancestry s = ancestry t \<and> parked s = parked t"
  by (simp add: book_def)

lemma book_updates [frame_simps]:
  "book (s\<lparr>clock := c\<rparr>) = book s" "book (s\<lparr>effects := e\<rparr>) = book s" "book (s\<lparr>queue := q\<rparr>) = book s"
  "book (s\<lparr>pendingEchoes := m\<rparr>) = book s" "book (s\<lparr>grantedLeases := g\<rparr>) = book s"
  "book (s\<lparr>retryingLeaseRejections := l\<rparr>) = book s" "book (s\<lparr>online := b\<rparr>) = book s"
  "book (s\<lparr>hydrating := b\<rparr>) = book s" "book (s\<lparr>overrides := ov\<rparr>) = book s"
  "book (emit x s) = book s"
  by (simp_all add: book_def emit_def)

lemma use_echo_book [frame_simps]: "book (use_echo k e s) = book s"
  by (simp add: use_echo_def book_def)

lemma expectEcho_book [frame_simps]: "book (expectEcho cf n r p s) = book s"
  by (simp add: expectEcho_def book_def Let_def)

lemma cancelExpectedEcho_book [frame_simps]: "book (cancelExpectedEcho r p s) = book s"
  by (simp add: cancelExpectedEcho_def use_echo_book Let_def split: option.split)

lemma consumeEcho_book [frame_simps]: "book (snd (consumeEcho n r p s)) = book s"
  by (simp add: consumeEcho_def frame_simps Let_def split: option.split)

lemma acquireLease_book [frame_simps]: "book (snd (acquireLease cf wd a f c s)) = book s"
  by (simp add: acquireLease_def frame_simps Let_def)

lemma ensureLease_book [frame_simps]: "book (snd (ensureLease cf wd a s)) = book s"
  by (simp add: ensureLease_def frame_simps split: option.split)

lemma publishOrQueue_book [frame_simps]: "book (publishOrQueue cf wd w n s) = book s"
  by (simp add: publishOrQueue_def frame_simps Let_def split_beta)

lemma leaseRevoked_book [frame_simps]: "book (leaseRevoked a s) = book s"
  by (simp add: leaseRevoked_def frame_simps)

lemma drain_loop_book [frame_simps]: "book (snd (drain_loop cf wd ws s)) = book s"
proof (induction ws arbitrary: s)
  case (Cons w ws)
  then show ?case
    by (auto simp: frame_simps Let_def split: sum.split)
qed simp

lemma runDrainQueue_book [frame_simps]: "book (snd (runDrainQueue cf wd s)) = book s"
  by (simp add: runDrainQueue_def frame_simps split_beta)

lemma flushPending_book [frame_simps]: "book (snd (flushPending cf wd s)) = book s"
  by (simp add: flushPending_def frame_simps)

lemma setOnline_book [frame_simps]: "book (setOnline cf wd b s) = book s"
  by (simp add: setOnline_def frame_simps Let_def)

lemma publishRejected_book [frame_simps]: "book (publishRejected cf wd r w s) = book s"
  by (simp add: publishRejected_def frame_simps Let_def split_beta split: option.split)

lemma reapply_loop_book [frame_simps]: "book (snd (reapply_loop cf wd h rs n s)) = book s"
  by (induction rs arbitrary: n s) (simp_all add: frame_simps Let_def)

lemma setOriginOverride_book [frame_simps]: "book (setOriginOverride h v s) = book s"
  by (simp add: setOriginOverride_def frame_simps Let_def split: option.split)

section \<open>The book-keeping invariant\<close>

definition record_ok :: "config \<Rightarrow> string \<Rightarrow> StoredRecord \<Rightarrow> bool" where
  "record_ok cf k r \<longleftrightarrow>
     st_recordId r = k \<and> w_recordId (st_wire r) = k \<and> st_originId r = w_originId (st_wire r) \<and>
     st_cause r = w_cause (st_wire r) \<and> st_hlc r = w_hlc (st_wire r) \<and>
     st_causalParent r = w_causalParent (st_wire r) \<and>
     (st_tombstonedAtMs r \<noteq> None \<longleftrightarrow> st_cause r \<in> DELETION_CAUSES) \<and>
     identityBound cf (st_wire r) (st_plain r)"

definition fence_ok :: "string \<Rightarrow> DeleteFence \<Rightarrow> bool" where
  "fence_ok k f \<longleftrightarrow> df_token f = makeVersionToken k (df_hlc f)"

definition tombstone_ok :: "config \<Rightarrow> string \<Rightarrow> TombstoneNote \<Rightarrow> bool" where
  "tombstone_ok cf k t \<longleftrightarrow> w_recordId (tn_wire t) = k \<and> w_cause (tn_wire t) \<in> DELETION_CAUSES \<and>
     identityBound cf (tn_wire t) (tn_plain t)"

definition edges_ok :: "string \<Rightarrow> edge_map \<Rightarrow> bool" where
  "edges_ok k es \<longleftrightarrow> js_wf es \<and> length es \<le> MAX_ANCESTRY_EDGES"

definition parked_ok :: "string \<Rightarrow> CookieRecordWire \<Rightarrow> bool" where
  "parked_ok k w \<longleftrightarrow> w_recordId w = k \<and> (w_cause w = WRITE \<or> w_cause w = OVERWRITE)"

text \<open>A deletion of a record is known: at least as new a fence, at least as new a tombstone.\<close>

definition fenced :: "engine \<Rightarrow> string \<Rightarrow> hlc \<Rightarrow> bool" where
  "fenced s k h \<longleftrightarrow> (\<exists>f. js_get (fences s) k = Some f \<and> h \<le> df_hlc f)"

definition tombed :: "engine \<Rightarrow> string \<Rightarrow> hlc \<Rightarrow> bool" where
  "tombed s k h \<longleftrightarrow> (\<exists>t. js_get (latestTombstones s) k = Some t \<and> h \<le> w_hlc (tn_wire t))"

definition maps_ok :: "config \<Rightarrow> engine \<Rightarrow> bool" where
  "maps_ok cf s \<longleftrightarrow>
     js_all (record_ok cf) (records s) \<and> js_all fence_ok (fences s) \<and>
     js_all (tombstone_ok cf) (latestTombstones s) \<and> js_all edges_ok (ancestry s) \<and>
     js_all parked_ok (parked s)"

definition deletions_noted :: "engine \<Rightarrow> bool" where
  "deletions_noted s \<longleftrightarrow>
     (\<forall>k r. js_get (records s) k = Some r \<longrightarrow>
        (st_cause r \<in> DELETION_CAUSES \<longrightarrow> tombed s k (st_hlc r)) \<and>
        (st_cause r = EXPLICIT_DELETE \<longrightarrow> fenced s k (st_hlc r))) \<and>
     (\<forall>k t. js_get (latestTombstones s) k = Some t \<longrightarrow> w_cause (tn_wire t) = EXPLICIT_DELETE \<longrightarrow>
        fenced s k (w_hlc (tn_wire t)))"

definition engine_inv :: "config \<Rightarrow> engine \<Rightarrow> bool" where
  "engine_inv cf s \<longleftrightarrow> maps_ok cf s \<and> deletions_noted s"

lemma engine_inv_book: "book s = book t \<Longrightarrow> engine_inv cf s \<longleftrightarrow> engine_inv cf t"
  by (simp add: book_def engine_inv_def maps_ok_def deletions_noted_def fenced_def tombed_def)

lemma fenced_noteFence: "fenced s k h \<Longrightarrow> fenced (noteFence r s) k h"
  using fence_cell.offer_mono by (fastforce simp: fenced_def noteFence_get)

lemma fenced_self: "w_cause r = EXPLICIT_DELETE \<Longrightarrow> fenced (noteFence r s) (w_recordId r) (w_hlc r)"
  by (cases "js_get (fences s) (w_recordId r)")
    (auto simp: fenced_def noteFence_get fence_of_def fence_offer_def not_less)

lemma tombed_noteTombstone: "tombed s k h \<Longrightarrow> tombed (noteTombstone w p s) k h"
proof -
  assume "tombed s k h"
  then obtain t where t: "js_get (latestTombstones s) k = Some t" "h \<le> w_hlc (tn_wire t)"
    by (auto simp: tombed_def)
  show ?thesis
    using t tomb_cell.offer_mono[OF t(1), of "\<lparr>tn_wire = w, tn_plain = p\<rparr>"]
    by (auto simp: tombed_def noteTombstone_get intro: order_trans)
qed

lemma tombed_self: "tombed (noteTombstone w p s) (w_recordId w) (w_hlc w)"
  by (cases "js_get (latestTombstones s) (w_recordId w)")
    (auto simp: tombed_def noteTombstone_get tomb_offer_def not_less)

lemma frame_noteFence [frame_simps]:
  "records (noteFence r s) = records s" "latestTombstones (noteFence r s) = latestTombstones s"
  "ancestry (noteFence r s) = ancestry s" "parked (noteFence r s) = parked s"
  "queue (noteFence r s) = queue s" "effects (noteFence r s) = effects s"
  "overrides (noteFence r s) = overrides s" "pendingEchoes (noteFence r s) = pendingEchoes s"
  "grantedLeases (noteFence r s) = grantedLeases s" "online (noteFence r s) = online s"
  "hydrating (noteFence r s) = hydrating s" "clock (noteFence r s) = clock s"
  by (simp_all add: noteFence_def Let_def split: option.split)

lemma frame_noteTombstone [frame_simps]:
  "records (noteTombstone w p s) = records s" "fences (noteTombstone w p s) = fences s"
  "ancestry (noteTombstone w p s) = ancestry s" "parked (noteTombstone w p s) = parked s"
  "queue (noteTombstone w p s) = queue s" "effects (noteTombstone w p s) = effects s"
  "overrides (noteTombstone w p s) = overrides s" "pendingEchoes (noteTombstone w p s) = pendingEchoes s"
  "grantedLeases (noteTombstone w p s) = grantedLeases s" "online (noteTombstone w p s) = online s"
  "hydrating (noteTombstone w p s) = hydrating s" "clock (noteTombstone w p s) = clock s"
  by (simp_all add: noteTombstone_def Let_def split: option.split)

lemma frame_noteAncestry [frame_simps]:
  "records (noteAncestry r s) = records s" "fences (noteAncestry r s) = fences s"
  "latestTombstones (noteAncestry r s) = latestTombstones s" "parked (noteAncestry r s) = parked s"
  "queue (noteAncestry r s) = queue s" "effects (noteAncestry r s) = effects s"
  "overrides (noteAncestry r s) = overrides s" "pendingEchoes (noteAncestry r s) = pendingEchoes s"
  "grantedLeases (noteAncestry r s) = grantedLeases s" "online (noteAncestry r s) = online s"
  "hydrating (noteAncestry r s) = hydrating s" "clock (noteAncestry r s) = clock s"
  by (simp_all add: noteAncestry_def)

lemma frame_park [frame_simps]:
  "records (park r s) = records s" "fences (park r s) = fences s"
  "latestTombstones (park r s) = latestTombstones s" "ancestry (park r s) = ancestry s"
  "queue (park r s) = queue s" "effects (park r s) = effects s" "overrides (park r s) = overrides s"
  "pendingEchoes (park r s) = pendingEchoes s" "grantedLeases (park r s) = grantedLeases s"
  "online (park r s) = online s" "hydrating (park r s) = hydrating s"
  by (simp_all add: park_def Let_def split: option.split)

lemma frame_store [frame_simps]:
  "fences (engine_store n w p s) = fences s" "latestTombstones (engine_store n w p s) = latestTombstones s"
  "ancestry (engine_store n w p s) = ancestry s" "parked (engine_store n w p s) = parked s"
  "queue (engine_store n w p s) = queue s" "effects (engine_store n w p s) = effects s"
  "overrides (engine_store n w p s) = overrides s" "pendingEchoes (engine_store n w p s) = pendingEchoes s"
  "grantedLeases (engine_store n w p s) = grantedLeases s" "online (engine_store n w p s) = online s"
  "hydrating (engine_store n w p s) = hydrating s"
  by (simp_all add: engine_store_def)

subsection \<open>Each step of the book-keeping keeps it\<close>

lemma oldest_edge_mem:
  "ts \<noteq> [] \<or> best \<noteq> None \<Longrightarrow> \<exists>t. oldest_edge ts best = Some t \<and> (t \<in> set ts \<or> (\<exists>h. best = Some (t, h)))"
proof (induction ts arbitrary: best)
  case (Cons t ts)
  show ?case
  proof (cases "parseVersionToken t")
    case (Inr q)
    obtain r h where q: "q = (r, h)" by fastforce
    define b where "b = (case best of None \<Rightarrow> Some (t, h)
        | Some (_, bh) \<Rightarrow> if compareHlc h bh < 0 then Some (t, h) else best)"
    have "b \<noteq> None" by (auto simp: b_def split: option.split)
    then obtain u where u: "oldest_edge ts b = Some u" "u \<in> set ts \<or> (\<exists>h. b = Some (u, h))"
      using Cons.IH by blast
    have "u \<in> set (t # ts) \<or> (\<exists>h. best = Some (u, h))"
      using u(2) by (auto simp: b_def split: option.splits if_splits)
    moreover have "oldest_edge (t # ts) best = Some u"
      using u(1) by (simp add: Inr q b_def)
    ultimately show ?thesis by blast
  qed simp
qed auto

lemma add_edge_ok: "edges_ok k es \<Longrightarrow> edges_ok k (add_edge es t p)"
proof (cases "js_get es t = None \<and> \<not> length (js_set es t p) \<le> MAX_ANCESTRY_EDGES")
  case True
  assume ok: "edges_ok k es"
  let ?es = "js_set es t p"
  have wf: "js_wf ?es" using ok by (auto simp: edges_ok_def)
  have "js_keys ?es \<noteq> []" by (cases es) auto
  then obtain o' where o': "oldest_edge (js_keys ?es) None = Some o'" "o' \<in> set (js_keys ?es)"
    using oldest_edge_mem[of "js_keys ?es" None] by blast
  have "length (js_del ?es o') = length ?es - 1"
    using js_del_len[OF wf] o'(2) by simp
  moreover have "length ?es \<le> Suc (length es)" by (simp add: js_set_len)
  ultimately show ?thesis
    using ok True wf o'(1) by (auto simp: edges_ok_def add_edge_def Let_def)
next
  case False
  assume "edges_ok k es"
  then show ?thesis using False by (auto simp: edges_ok_def add_edge_def Let_def)
qed

lemma noteAncestry_inv [inv_intros]: "engine_inv cf s \<Longrightarrow> engine_inv cf (noteAncestry r s)"
proof -
  assume inv: "engine_inv cf s"
  let ?es = "case js_get (ancestry s) (w_recordId r) of None \<Rightarrow> [] | Some es \<Rightarrow> es"
  have "edges_ok (w_recordId r) ?es"
    using inv by (auto simp: engine_inv_def maps_ok_def edges_ok_def dest: js_allD split: option.split)
  then have "js_all edges_ok (ancestry (noteAncestry r s))"
    using inv by (auto simp: noteAncestry_def engine_inv_def maps_ok_def intro!: js_all_set add_edge_ok)
  then show ?thesis
    using inv by (simp add: engine_inv_def maps_ok_def deletions_noted_def fenced_def tombed_def frame_simps)
qed

lemma noteFence_inv [inv_intros]: "engine_inv cf s \<Longrightarrow> engine_inv cf (noteFence r s)"
proof -
  assume inv: "engine_inv cf s"
  then have "js_all fence_ok (fences (noteFence r s))"
    by (auto simp: noteFence_def engine_inv_def maps_ok_def fence_ok_def Let_def intro!: js_all_set split: option.split)
  moreover have "tombed (noteFence r s) k h = tombed s k h" for k h
    by (simp add: tombed_def frame_simps)
  ultimately show ?thesis
    using inv fenced_noteFence[of s _ _ r]
    by (simp add: engine_inv_def maps_ok_def deletions_noted_def frame_simps)
qed

lemma noteTombstone_inv [inv_intros]:
  assumes "engine_inv cf s" "w_cause w \<in> DELETION_CAUSES" "identityBound cf w p"
    and "w_cause w = EXPLICIT_DELETE \<Longrightarrow> fenced s (w_recordId w) (w_hlc w)"
  shows "engine_inv cf (noteTombstone w p s)"
proof -
  have "js_all (tombstone_ok cf) (latestTombstones (noteTombstone w p s))"
    using assms by (auto simp: noteTombstone_def engine_inv_def maps_ok_def tombstone_ok_def Let_def
        intro!: js_all_set split: option.split)
  moreover have f: "fenced (noteTombstone w p s) k h = fenced s k h" for k h
    by (simp add: fenced_def frame_simps)
  moreover have "fenced s k (w_hlc (tn_wire t))"
    if t: "js_get (latestTombstones (noteTombstone w p s)) k = Some t" "w_cause (tn_wire t) = EXPLICIT_DELETE" for k t
  proof (cases "js_get (latestTombstones s) k = Some t")
    case True
    then show ?thesis using assms(1) t(2) by (simp add: engine_inv_def deletions_noted_def)
  next
    case False
    then have "k = w_recordId w \<and> t = \<lparr>tn_wire = w, tn_plain = p\<rparr>"
      using t(1) tomb_cell.offer_cases[of "js_get (latestTombstones s) k" "\<lparr>tn_wire = w, tn_plain = p\<rparr>"]
      by (auto simp: noteTombstone_get split: if_splits)
    then show ?thesis using assms(4) t(2) by simp
  qed
  ultimately show ?thesis
    using assms(1) tombed_noteTombstone[of s _ _ w p]
    by (simp add: engine_inv_def maps_ok_def deletions_noted_def frame_simps)
qed

lemma park_inv [inv_intros]:
  assumes "engine_inv cf s" "w_cause r = WRITE \<or> w_cause r = OVERWRITE"
  shows "engine_inv cf (park r s)"
proof -
  have "js_all parked_ok (parked (park r s))"
    using assms by (auto simp: park_def engine_inv_def maps_ok_def parked_ok_def Let_def
        intro!: js_all_set split: option.split)
  then show ?thesis
    using assms(1) by (simp add: engine_inv_def maps_ok_def deletions_noted_def fenced_def tombed_def frame_simps)
qed

lemma unpark_inv [inv_intros]: "engine_inv cf s \<Longrightarrow> engine_inv cf (s\<lparr>parked := js_del (parked s) k\<rparr>)"
  by (auto simp: engine_inv_def maps_ok_def deletions_noted_def fenced_def tombed_def intro!: js_all_del)

lemma store_inv [inv_intros]:
  assumes "engine_inv cf s" "identityBound cf w p"
    and "w_cause w \<in> DELETION_CAUSES \<Longrightarrow> tombed s (w_recordId w) (w_hlc w)"
    and "w_cause w = EXPLICIT_DELETE \<Longrightarrow> fenced s (w_recordId w) (w_hlc w)"
  shows "engine_inv cf (engine_store n w p s)"
proof -
  have "js_all (record_ok cf) (records (engine_store n w p s))"
    using assms by (auto simp: engine_store_def engine_inv_def maps_ok_def record_ok_def stored_form_def intro!: js_all_set)
  moreover have "fenced (engine_store n w p s) k h = fenced s k h" "tombed (engine_store n w p s) k h = tombed s k h" for k h
    by (simp_all add: fenced_def tombed_def frame_simps)
  ultimately show ?thesis
    using assms by (auto simp: engine_inv_def maps_ok_def deletions_noted_def frame_simps engine_store_def stored_form_def)
qed

lemma forget_inv [inv_intros]: "engine_inv cf s \<Longrightarrow> engine_inv cf (forget k s)"
  by (auto simp: engine_inv_def maps_ok_def deletions_noted_def fenced_def tombed_def forget_def
      intro!: js_all_del)

subsection \<open>Each operation keeps it\<close>

lemma fenced_frame: "fences s = fences t \<Longrightarrow> fenced s k h = fenced t k h"
  by (simp add: fenced_def)

lemma learn_inv [inv_intros]:
  assumes "engine_inv cf s" "identityBound cf r p"
  shows "engine_inv cf (learn wd r p s)"
proof -
  let ?s = "noteFence r (noteAncestry r (s\<lparr>clock := snd (clock_receive (wd_now wd) (w_hlc r) (clock s))\<rparr>))"
  have "engine_inv cf ?s"
    using assms(1) engine_inv_book[of "s\<lparr>clock := snd (clock_receive (wd_now wd) (w_hlc r) (clock s))\<rparr>" s cf]
    by (intro noteFence_inv noteAncestry_inv) (simp add: frame_simps)
  then show ?thesis
    using noteTombstone_inv[of cf ?s r p] assms(2) fenced_self
    by (auto simp: learn_def Let_def)
qed

lemma learn_tombed: "w_cause r \<in> DELETION_CAUSES \<Longrightarrow> tombed (learn wd r p s) (w_recordId r) (w_hlc r)"
  using tombed_self by (simp add: learn_def Let_def)

text \<open>What the gates of \<open>ingest\<close> let through, and what it then does.\<close>

definition accepts :: "config \<Rightarrow> CookieRecordWire \<Rightarrow> CookiePlain \<Rightarrow> bool" where
  "accepts cf r p \<longleftrightarrow> w_cause r \<noteq> HYDRATION_ECHO \<and> w_spaceId r = cf_spaceId cf \<and> cf_verify cf r \<and>
     openRecord cf r = Inr p \<and> identityBound cf r p"

definition verdict :: "world \<Rightarrow> CookieRecordWire \<Rightarrow> CookiePlain \<Rightarrow> engine \<Rightarrow> RemoteDisposition" where
  "verdict wd r p s = resolve (learn wd r p s) (js_get (records (learn wd r p s)) (w_recordId r)) r"

definition learned :: "world \<Rightarrow> CookieRecordWire \<Rightarrow> CookiePlain \<Rightarrow> bool \<Rightarrow> engine \<Rightarrow> engine" where
  "learned wd r p allow s =
     (if verdict wd r p s = ResurrectionBlocked \<and> allow then park r (learn wd r p s) else learn wd r p s)"

lemma ingest_accepted:
  assumes "accepts cf r p"
  shows "ingest cf wd r allow s =
    (if verdict wd r p s \<noteq> Applied then (Inr (verdict wd r p s), learned wd r p allow s)
     else apply_winner cf wd (fst (winner_of r p (learned wd r p allow s)))
       (snd (winner_of r p (learned wd r p allow s))) (learned wd r p allow s))"
  using assms unfolding ingest_def accepts_def verdict_def learned_def Let_def
  by (auto simp: split_beta)

lemma ingest_refused:
  assumes "\<And>p. \<not> accepts cf r p"
  shows "ingest cf wd r allow s = (Inr (if w_cause r = HYDRATION_ECHO then Duplicate else Rejected), s)"
  using assms unfolding accepts_def by (auto simp: ingest_def split: sum.split)

lemma winner_cases:
  assumes "w_cause r \<in> DELETION_CAUSES \<Longrightarrow> tombed s (w_recordId r) (w_hlc r)"
  obtains t where "w_cause r \<in> DELETION_CAUSES" "js_get (latestTombstones s) (w_recordId r) = Some t"
      "w_hlc r \<le> w_hlc (tn_wire t)" "winner_of r p s = (tn_wire t, tn_plain t)"
  | "w_cause r \<notin> DELETION_CAUSES" "winner_of r p s = (r, p)"
proof (cases "w_cause r \<in> DELETION_CAUSES")
  case True
  then obtain t where "js_get (latestTombstones s) (w_recordId r) = Some t" "w_hlc r \<le> w_hlc (tn_wire t)"
    using assms by (auto simp only: tombed_def)
  then show thesis using that(1) True by (simp only: winner_of_def if_True option.case)
next
  case False
  then have "winner_of r p s = (r, p)" by (simp only: winner_of_def if_False)
  with False show thesis by (rule that(2))
qed

lemma winner_ok:
  assumes "engine_inv cf s" "identityBound cf r p" "winner_of r p s = (w, q)"
    and "w_cause r \<in> DELETION_CAUSES \<Longrightarrow> tombed s (w_recordId r) (w_hlc r)"
  shows "identityBound cf w q" "w_recordId w = w_recordId r"
    "w_cause w \<in> DELETION_CAUSES \<Longrightarrow> tombed s (w_recordId w) (w_hlc w)"
    "w_cause w = EXPLICIT_DELETE \<Longrightarrow> fenced s (w_recordId w) (w_hlc w)"
proof -
  have "identityBound cf w q \<and> w_recordId w = w_recordId r \<and>
    (w_cause w \<in> DELETION_CAUSES \<longrightarrow> tombed s (w_recordId w) (w_hlc w)) \<and>
    (w_cause w = EXPLICIT_DELETE \<longrightarrow> fenced s (w_recordId w) (w_hlc w))"
  proof (rule winner_cases[of r s p, OF assms(4)])
    fix t
    assume t: "js_get (latestTombstones s) (w_recordId r) = Some t" "winner_of r p s = (tn_wire t, tn_plain t)"
    then have "tombstone_ok cf (w_recordId r) t" "w_cause (tn_wire t) = EXPLICIT_DELETE \<Longrightarrow>
        fenced s (w_recordId r) (w_hlc (tn_wire t))"
      using assms(1) by (auto simp: engine_inv_def maps_ok_def deletions_noted_def dest: js_allD)
    then show ?thesis using t assms(3) by (auto simp: tombstone_ok_def tombed_def)
  next
    assume "w_cause r \<notin> DELETION_CAUSES" "winner_of r p s = (r, p)"
    then show ?thesis using assms(2,3) by auto
  qed
  then show "identityBound cf w q" "w_recordId w = w_recordId r"
    "w_cause w \<in> DELETION_CAUSES \<Longrightarrow> tombed s (w_recordId w) (w_hlc w)"
    "w_cause w = EXPLICIT_DELETE \<Longrightarrow> fenced s (w_recordId w) (w_hlc w)"
    by blast+
qed

lemma fenced_book: "book s = book t \<Longrightarrow> fenced s = fenced t"
  and tombed_book: "book s = book t \<Longrightarrow> tombed s = tombed t"
  by (auto simp: book_def fenced_def tombed_def fun_eq_iff)

lemma apply_winner_inv [inv_intros]:
  assumes "engine_inv cf s" "identityBound cf w p"
    and "w_cause w \<in> DELETION_CAUSES \<Longrightarrow> tombed s (w_recordId w) (w_hlc w)"
    and "w_cause w = EXPLICIT_DELETE \<Longrightarrow> fenced s (w_recordId w) (w_hlc w)"
  shows "engine_inv cf (snd (apply_winner cf wd w p s))"
proof -
  have *: "engine_inv cf (engine_store (wd_now wd) w p t) \<and> engine_inv cf t" if "book t = book s" for t
    using store_inv[of cf t w p "wd_now wd"] assms engine_inv_book[OF that] fenced_book[OF that] tombed_book[OF that]
    by simp
  have "book (emit (EApply p (w_cause w)) (expectEcho cf (wd_now wd) (w_recordId w) p s)) = book s"
    "book (cancelExpectedEcho (w_recordId w) p (expectEcho cf (wd_now wd) (w_recordId w) p s)) = book s"
    by (simp_all add: frame_simps)
  from *[OF this(1)] *[OF this(2)] *[OF refl] show ?thesis
    by (simp add: apply_winner_def Let_def)
qed

lemma resolve_blocked: "resolve s c r = ResurrectionBlocked \<Longrightarrow> w_cause r = WRITE \<or> w_cause r = OVERWRITE"
  by (auto simp: resolve_def lww_def Let_def split: if_splits option.splits)

lemma parked_frame_inv: "engine_inv cf s \<Longrightarrow> fenced (park r s) = fenced s \<and> tombed (park r s) = tombed s"
  by (simp add: fenced_def tombed_def frame_simps fun_eq_iff)

lemma learned_inv:
  assumes "engine_inv cf s" "identityBound cf r p"
  shows "engine_inv cf (learned wd r p allow s)"
    "w_cause r \<in> DELETION_CAUSES \<Longrightarrow> tombed (learned wd r p allow s) (w_recordId r) (w_hlc r)"
proof -
  have "engine_inv cf (learn wd r p s)" using assms by (rule learn_inv)
  then show "engine_inv cf (learned wd r p allow s)"
    "w_cause r \<in> DELETION_CAUSES \<Longrightarrow> tombed (learned wd r p allow s) (w_recordId r) (w_hlc r)"
    using park_inv[of cf "learn wd r p s" r] resolve_blocked parked_frame_inv learn_tombed
    by (auto simp: learned_def verdict_def)
qed

lemma ingest_inv [inv_intros]:
  assumes "engine_inv cf s"
  shows "engine_inv cf (snd (ingest cf wd r allow s))"
proof (cases "\<exists>p. accepts cf r p")
  case True
  then obtain p where a: "accepts cf r p" by blast
  then have b: "identityBound cf r p" by (simp add: accepts_def)
  obtain w q where w: "winner_of r p (learned wd r p allow s) = (w, q)" by fastforce
  note ok = winner_ok[OF learned_inv(1)[OF assms b] b w learned_inv(2)[OF assms b]]
  show ?thesis
    using learned_inv(1)[OF assms b] apply_winner_inv[OF learned_inv(1)[OF assms b] ok(1,3,4)]
    by (simp add: ingest_accepted[OF a] w)
qed (use assms ingest_refused in auto)

lemma retryParked_inv [inv_intros]: "engine_inv cf s \<Longrightarrow> engine_inv cf (snd (retryParked cf wd k s))"
  using ingest_inv[OF unpark_inv] unpark_inv
  by (auto simp: retryParked_def Let_def split: option.split prod.split sum.split) (metis snd_conv)+

lemma applyOne_inv [inv_intros]: "engine_inv cf s \<Longrightarrow> engine_inv cf (snd (applyOne cf wd r s))"
  using ingest_inv[of cf s wd r True] retryParked_inv[of cf "snd (ingest cf wd r True s)" wd "w_recordId r"]
  by (auto simp: applyOne_def split: prod.splits sum.splits)

lemma applyRemote_inv [inv_intros]: "engine_inv cf s \<Longrightarrow> engine_inv cf (snd (applyRemote cf wd rs s))"
proof (induction rs arbitrary: s)
  case (Cons r rs)
  have "engine_inv cf (snd (applyOne cf wd r s))" using Cons.prems by (rule applyOne_inv)
  then show ?case
    using Cons.IH[of "snd (applyOne cf wd r s)"] by (auto split: prod.splits sum.splits)
qed simp

lemma build_fields [simp]:
  "w_recordId (buildCookieRecordWire cf p h par c) = computeRecordIdHex (cf_crypto cf) (cp_identity p)"
  "w_hlc (buildCookieRecordWire cf p h par c) = h" "w_cause (buildCookieRecordWire cf p h par c) = c"
  "w_causalParent (buildCookieRecordWire cf p h par c) = par"
  "w_spaceId (buildCookieRecordWire cf p h par c) = ci_spaceId (cp_identity p)"
  "w_originId (buildCookieRecordWire cf p h par c) =
     computeOriginIdHex (cf_crypto cf) (ci_spaceId (cp_identity p)) (ci_hostKey (cp_identity p))"
  by (simp_all add: buildCookieRecordWire_def Let_def)

lemma build_bound [simp]: "identityBound cf (buildCookieRecordWire cf p h par c) p"
  by (simp add: identityBound_def)

text \<open>The wire record an issue makes, and the engine that has noted but not yet stored it.\<close>

definition issued_wire :: "config \<Rightarrow> world \<Rightarrow> string \<Rightarrow> CookiePlain \<Rightarrow> Cause \<Rightarrow> engine \<Rightarrow> CookieRecordWire" where
  "issued_wire cf wd k p c s =
     buildCookieRecordWire cf p (fst (clock_send (wd_now wd) (clock s))) (parent_token k s) c"

definition noted :: "CookieRecordWire \<Rightarrow> CookiePlain \<Rightarrow> hlc_clock \<Rightarrow> engine \<Rightarrow> engine" where
  "noted w p c s =
     (let t = noteFence w (noteAncestry w (s\<lparr>clock := c\<rparr>))
      in if w_cause w \<in> DELETION_CAUSES then noteTombstone w p t else t)"

lemma issue_eq:
  "issue cf wd k p c s =
     (issued_wire cf wd k p c s,
      engine_store (wd_now wd) (issued_wire cf wd k p c s) p
        (noted (issued_wire cf wd k p c s) p (snd (clock_send (wd_now wd) (clock s))) s))"
  by (simp only: issue_def issued_wire_def noted_def Let_def split_beta build_fields fst_conv snd_conv)

lemma noted_inv:
  assumes "engine_inv cf s" "identityBound cf w p"
  shows "engine_inv cf (noted w p c s)"
    "w_cause w \<in> DELETION_CAUSES \<Longrightarrow> tombed (noted w p c s) (w_recordId w) (w_hlc w)"
    "w_cause w = EXPLICIT_DELETE \<Longrightarrow> fenced (noted w p c s) (w_recordId w) (w_hlc w)"
proof -
  let ?t = "noteFence w (noteAncestry w (s\<lparr>clock := c\<rparr>))"
  have t: "engine_inv cf ?t"
    using assms(1) engine_inv_book[of "s\<lparr>clock := c\<rparr>" s cf]
    by (intro noteFence_inv noteAncestry_inv) (simp add: frame_simps)
  show "engine_inv cf (noted w p c s)"
    using t noteTombstone_inv[OF t _ assms(2)] fenced_self[of w "noteAncestry w (s\<lparr>clock := c\<rparr>)"]
    by (simp add: noted_def Let_def)
  show "w_cause w \<in> DELETION_CAUSES \<Longrightarrow> tombed (noted w p c s) (w_recordId w) (w_hlc w)"
    using tombed_self by (simp only: noted_def Let_def if_True)
  show "w_cause w = EXPLICIT_DELETE \<Longrightarrow> fenced (noted w p c s) (w_recordId w) (w_hlc w)"
    using fenced_self[of w "noteAncestry w (s\<lparr>clock := c\<rparr>)"]
      fenced_frame[of "noteTombstone w p ?t" ?t] by (simp add: noted_def frame_simps)
qed

lemma issue_inv [inv_intros]:
  assumes "engine_inv cf s"
  shows "engine_inv cf (snd (issue cf wd k p c s))"
proof -
  have "identityBound cf (issued_wire cf wd k p c s) p" by (simp add: issued_wire_def)
  note n = noted_inv[OF assms this]
  show ?thesis unfolding issue_eq snd_conv
    by (rule store_inv) (use n \<open>identityBound _ _ _\<close> in \<open>blast+\<close>)
qed

lemma localChange_cases:
  fixes cf wd i attrs removed cc e s
  defines "k \<equiv> computeRecordIdHex (cf_crypto cf) i"
  defines "s1 \<equiv> snd (consumeEcho (wd_now wd) k (local_plain i attrs removed) s)"
  obtains (refused) x where "localChange cf wd i attrs removed cc e s = (x, s)" "x = Inr None \<or> (\<exists>er. x = Inl er)"
  | (ignored) "localChange cf wd i attrs removed cc e s = (Inr None, s1)"
      "fst (consumeEcho (wd_now wd) k (local_plain i attrs removed) s) \<or> \<not> isSynced cf s1 (ci_hostKey i)"
  | (taken) c where "causeForChange cc removed = Some c" "ci_spaceId i = cf_spaceId cf"
      "isSynced cf s1 (ci_hostKey i)" "\<not> fst (consumeEcho (wd_now wd) k (local_plain i attrs removed) s)"
      "localChange cf wd i attrs removed cc e s =
       (case retryParked cf wd k (snd (commit_local cf wd i attrs removed c e s1)) of
          (Inl er, t) \<Rightarrow> (Inl er, t)
        | (Inr _, t) \<Rightarrow> (Inr (Some (fst (commit_local cf wd i attrs removed c e s1))), t))"
proof (cases "ci_spaceId i \<noteq> cf_spaceId cf \<or> causeForChange cc removed = None \<or> (\<not> removed \<and> attrs = None)")
  case True
  then have "(\<exists>x. localChange cf wd i attrs removed cc e s = (x, s) \<and> (x = Inr None \<or> (\<exists>er. x = Inl er)))"
    unfolding localChange_def
    by (cases "causeForChange cc removed"; cases "ci_spaceId i \<noteq> cf_spaceId cf") auto
  then show thesis using refused by blast
next
  case False
  then obtain c where c: "causeForChange cc removed = Some c" by auto
  obtain b where b: "consumeEcho (wd_now wd) k (local_plain i attrs removed) s = (b, s1)"
    unfolding s1_def by (metis prod.collapse)
  note b' = b[unfolded k_def]
  show thesis
  proof (cases "b \<or> \<not> isSynced cf s1 (ci_hostKey i)")
    case True
    have "localChange cf wd i attrs removed cc e s = (Inr None, s1)"
      using False c True unfolding localChange_def by (auto simp: b' Let_def)
    then show thesis using True b by (intro ignored) auto
  next
    case nb: False
    have "localChange cf wd i attrs removed cc e s =
       (case retryParked cf wd k (snd (commit_local cf wd i attrs removed c e s1)) of
          (Inl er, t) \<Rightarrow> (Inl er, t)
        | (Inr _, t) \<Rightarrow> (Inr (Some (fst (commit_local cf wd i attrs removed c e s1))), t))"
      using False c nb unfolding localChange_def
      by (auto simp: b' Let_def split_beta k_def)
    then show thesis using taken[OF c _ _ _] False b nb by auto
  qed
qed

lemma commit_local_inv [inv_intros]:
  "engine_inv cf s \<Longrightarrow> engine_inv cf (snd (commit_local cf wd i attrs removed c e s))"
  using issue_inv[of cf s wd] engine_inv_book[OF publishOrQueue_book]
  by (simp add: commit_local_def Let_def split_beta)

lemma run_result_snd:
  "snd (case x of (Inl er, t) \<Rightarrow> (Inl er, t) | (Inr u, t) \<Rightarrow> (Inr (f u), t)) = snd x"
  by (auto split: prod.split sum.split)

lemma localChange_inv [inv_intros]:
  assumes "engine_inv cf s"
  shows "engine_inv cf (snd (localChange cf wd i attrs removed cc e s))"
proof -
  let ?s1 = "snd (consumeEcho (wd_now wd) (computeRecordIdHex (cf_crypto cf) i) (local_plain i attrs removed) s)"
  have s1: "engine_inv cf ?s1" using assms engine_inv_book[OF consumeEcho_book] by simp
  show ?thesis
  proof (cases rule: localChange_cases[of cf wd i attrs removed cc e s])
    case (taken c)
    then show ?thesis
      using retryParked_inv[OF commit_local_inv[OF s1]] by (simp add: run_result_snd)
  qed (use assms s1 in auto)
qed

lemma reissue_inv [inv_intros]:
  assumes "engine_inv cf s"
  shows "engine_inv cf (snd (reissue cf wd p c s))"
proof -
  let ?t = "snd (issue cf wd (computeRecordIdHex (cf_crypto cf) (cp_identity p)) p c s)"
  have "book (snd (reissue cf wd p c s)) = book ?t"
    by (simp add: reissue_def split_beta Let_def frame_simps)
  then show ?thesis using issue_inv[OF assms] engine_inv_book by blast
qed

lemma reissue_all_inv [inv_intros]: "engine_inv cf s \<Longrightarrow> engine_inv cf (snd (reissue_all cf wd ps s))"
proof (induction ps arbitrary: s)
  case (Cons pc ps)
  have "engine_inv cf (snd (reissue cf wd (fst pc) (snd pc) s))" using Cons.prems by (rule reissue_inv)
  then show ?case
    using Cons.IH[of "snd (reissue cf wd (fst pc) (snd pc) s)"]
    by (cases pc) (auto split: prod.splits sum.splits)
qed simp

lemma gcTombstones_inv [inv_intros]: "engine_inv cf s \<Longrightarrow> engine_inv cf (snd (gcTombstones cf n s))"
proof -
  have "engine_inv cf t \<Longrightarrow> engine_inv cf (fold forget ks t)" for ks t
    by (induction ks arbitrary: t) (auto intro: forget_inv)
  then show "engine_inv cf s \<Longrightarrow> engine_inv cf (snd (gcTombstones cf n s))"
    by (simp add: gcTombstones_def Let_def)
qed

lemma engine_step_inv: "engine_inv cf s \<Longrightarrow> engine_inv cf (engine_step cf s x)"
proof -
  assume inv: "engine_inv cf s"
  have same: "book t = book s \<Longrightarrow> engine_inv cf t" for t using inv engine_inv_book by blast
  obtain wd op where x: "x = (wd, op)" by fastforce
  show ?thesis
    unfolding x using inv
    by (cases op) (auto simp: rollbackOrigin_def reapplyOrigin_def beginHydration_def endHydration_def frame_simps
        intro!: localChange_inv applyRemote_inv reissue_all_inv gcTombstones_inv intro: same)
qed

interpretation engine_run: kept_invariant "engine_step cf" "engine_inv cf" for cf
  by unfold_locales (rule engine_step_inv)

lemma engine_inv_new: "engine_inv cf (new_engine d)"
  by (simp add: engine_inv_def maps_ok_def deletions_noted_def new_engine_def)

text \<open>
  C1. The engine's book-keeping is consistent after any run of operations from a new engine: each
  record is stored under the id its plaintext's identity hashes to, with the fields of its own wire
  form, tombstoned exactly when its cause is a deletion; every stored deletion has a tombstone at
  least as new and every stored explicit deletion a fence at least as new; fences carry the token of
  their stamp; at most sixty-four ancestry edges are kept per record; only writes are parked.
\<close>

theorem engine_run_consistent: "engine_inv cf (engine_run cf (new_engine d) ops)"
  unfolding engine_run_def by (rule engine_run.along_run) (rule engine_inv_new)

section \<open>Records are accepted by a peer with the same keys\<close>

lemma open_built:
  assumes "length (cf_iv cf h) = GCM_IV_BYTES"
    and "\<And>iv aad b. cr_decrypt (cf_crypto cf) iv aad (cr_encrypt (cf_crypto cf) iv aad b) = Some b"
    and "cr_parse (cf_crypto cf) (cr_json (cf_crypto cf) p) = Some p"
  shows "openRecord cf (buildCookieRecordWire cf p h par c) = Inr p"
  using assms open_seal[of "cf_iv cf h" "cf_crypto cf"]
  by (simp add: openRecord_def buildCookieRecordWire_def Let_def fromBase64_of_toBase64 decode_encode_plain)

text \<open>
  What one device issues another accepts: with AES-GCM and the JSON text of a plaintext inverted
  by their counterparts, a peer of the space that verifies the signature opens a wire record to the
  very plaintext it was built from and finds it bound to its record and origin ids.
\<close>

theorem issued_record_accepted:
  assumes "length (cf_iv cf h) = GCM_IV_BYTES"
    and "\<And>iv aad b. cr_decrypt (cf_crypto cf) iv aad (cr_encrypt (cf_crypto cf) iv aad b) = Some b"
    and "cr_parse (cf_crypto cf) (cr_json (cf_crypto cf) p) = Some p"
    and "ci_spaceId (cp_identity p) = cf_spaceId cf" "cf_verify cf (buildCookieRecordWire cf p h par c)"
  shows "openRecord cf (buildCookieRecordWire cf p h par c) = Inr p \<and>
    inspectRemoteIdentity cf (buildCookieRecordWire cf p h par c) = Some (cp_identity p)"
  using open_built[OF assms(1-3)] assms(4,5) by (simp add: inspectRemoteIdentity_def)

text \<open>A configuration with concrete cryptography, for the examples below.\<close>

definition demo_plain :: CookiePlain where
  "demo_plain = \<lparr>cp_identity = example_identity,
     cp_attributes = Some \<lparr>ca_value = ''v'', ca_expiresMs = None, ca_persistent = False, ca_secure = True,
       ca_httpOnly = True, ca_sameSite = SameSiteLax, ca_priority = PriorityMedium\<rparr>,
     cp_deleted = False\<rparr>"

definition demo_crypto :: crypto where
  "demo_crypto = \<lparr>cr_hmac = (\<lambda>b. [7]), cr_encrypt = (\<lambda>iv aad b. b), cr_decrypt = (\<lambda>iv aad b. Some b),
     cr_sign = (\<lambda>b. [1]), cr_json = (\<lambda>p. []), cr_parse = (\<lambda>b. Some demo_plain)\<rparr>"

definition demo_config :: config where
  "demo_config = \<lparr>cf_spaceId = ''s'', cf_crypto = demo_crypto, cf_signer = ''a'',
     cf_policies = [\<lparr>op_domain = ''example.com'', op_label = ''Example'', op_mode = Portable, op_syncTier = 1,
       op_rotatingAuth = True, op_sensitive = False, op_localStorageSync = False\<rparr>],
     cf_tombstoneRetentionMs = 1000, cf_leaseTtlMs = 60, cf_echoTtlMs = 10,
     cf_verify = (\<lambda>r. True), cf_canApply = (\<lambda>p. True), cf_iv = (\<lambda>h. replicate 12 0)\<rparr>"

definition demo_world :: "nat \<Rightarrow> world" where
  "demo_world n = \<lparr>wd_now = n, wd_applyOk = (\<lambda>p. True), wd_grants = (\<lambda>o' f. True)\<rparr>"

definition demo_hlc :: "nat \<Rightarrow> hlc" where
  "demo_hlc n = \<lparr>physicalMs = n, logical = 0, deviceId = ''b''\<rparr>"

definition demo_wire :: "nat \<Rightarrow> string option \<Rightarrow> Cause \<Rightarrow> CookieRecordWire" where
  "demo_wire n par c = buildCookieRecordWire demo_config demo_plain (demo_hlc n) par c"

lemma demo_laws:
  "length (cf_iv demo_config h) = GCM_IV_BYTES"
  "cr_decrypt (cf_crypto demo_config) iv aad (cr_encrypt (cf_crypto demo_config) iv aad b) = Some b"
  "cr_parse (cf_crypto demo_config) (cr_json (cf_crypto demo_config) p) = Some demo_plain"
  "ci_spaceId (cp_identity demo_plain) = cf_spaceId demo_config" "cf_verify demo_config r"
  "cf_canApply demo_config q"
  by (simp_all add: demo_config_def demo_crypto_def demo_plain_def example_identity_def GCM_IV_BYTES_def)

lemma issued_record_accepted_witness:
  "inspectRemoteIdentity demo_config (demo_wire 5 None WRITE) = Some example_identity"
  using issued_record_accepted[of demo_config "demo_hlc 5" demo_plain None WRITE]
  by (simp add: demo_wire_def demo_laws) (simp add: demo_plain_def)

lemma demo_accepts: "c \<noteq> HYDRATION_ECHO \<Longrightarrow> accepts demo_config (demo_wire n par c) demo_plain"
  using open_built[of demo_config "demo_hlc n" demo_plain par c]
  by (simp add: accepts_def demo_wire_def demo_laws)

lemma demo_wire_fields [simp]:
  "w_hlc (demo_wire n par c) = demo_hlc n" "w_cause (demo_wire n par c) = c"
  "w_causalParent (demo_wire n par c) = par" "w_spaceId (demo_wire n par c) = ''s''"
  by (simp_all add: demo_wire_def demo_plain_def example_identity_def)

lemma demo_record_id [simp]: "w_recordId (demo_wire n par c) = ''07''"
proof -
  have "toHex [7] = ''07''" by code_simp
  then show ?thesis by (simp add: demo_wire_def computeRecordIdHex_def demo_config_def demo_crypto_def)
qed

lemma demo_hlc_less [simp]: "demo_hlc m < demo_hlc n \<longleftrightarrow> m < n" "demo_hlc m = demo_hlc n \<longleftrightarrow> m = n"
  by (auto simp: demo_hlc_def hlc_less_iff)

section \<open>Descent and the resurrection guard\<close>

text \<open>One step of ancestry: a version and the parent it names.\<close>

definition edge_rel :: "edge_map option \<Rightarrow> (string \<times> string) set" where
  "edge_rel edges = {(t, p). \<exists>es. edges = Some es \<and> js_get es t = Some (Some p)}"

lemma descends_reach:
  "descent_loop n edges start fence = Descends \<Longrightarrow>
   \<exists>t. start = Some t \<and> (t, df_token fence) \<in> (edge_rel edges)\<^sup>*"
proof (induction n edges start fence rule: descent_loop.induct)
  case (3 n edges token fence)
  show ?case
  proof (cases "token = df_token fence")
    case False
    obtain q h es parent where q: "parseVersionToken token = Inr (q, h)" "\<not> compareHlc h (df_hlc fence) < 0"
      "edges = Some es" "js_get es token = Some parent" "descent_loop n edges parent fence = Descends"
      using "3.prems" False by (auto split: sum.splits option.splits if_splits)
    then obtain p where p: "parent = Some p" "(p, df_token fence) \<in> (edge_rel edges)\<^sup>*"
      using "3.IH"[OF False q(1) refl q(2,3,4)] by auto
    have "(token, p) \<in> edge_rel edges" using q p by (simp add: edge_rel_def)
    then show ?thesis using p(2) by (blast intro: converse_rtrancl_into_rtrancl)
  qed simp
qed auto

lemma descent_reach:
  "descent s k start fence = Descends \<Longrightarrow>
   \<exists>t. start = Some t \<and> (t, df_token fence) \<in> (edge_rel (js_get (ancestry s) k))\<^sup>*"
  using descends_reach by (auto simp: descent_def split: if_splits)

text \<open>A walk within the step limit, over readable tokens not older than the fence, is followed.\<close>

fun walkable :: "nat \<Rightarrow> edge_map \<Rightarrow> hlc \<Rightarrow> string \<Rightarrow> string \<Rightarrow> bool" where
  "walkable 0 es h t u = False"
| "walkable (Suc n) es h t u =
     (t = u \<or> (case parseVersionToken t of Inl _ \<Rightarrow> False
       | Inr (_, g) \<Rightarrow> h \<le> g \<and> (case js_get es t of Some (Some p) \<Rightarrow> walkable n es h p u | _ \<Rightarrow> False)))"

lemma walkable_descends:
  "walkable n es (df_hlc f) t (df_token f) \<Longrightarrow> descent_loop n (Some es) (Some t) f = Descends"
proof (induction n arbitrary: t)
  case (Suc n)
  then show ?case by (auto simp: not_less[symmetric] split: sum.splits option.splits)
qed simp

lemma learn_write [simp]:
  assumes "w_cause r \<notin> DELETION_CAUSES"
  shows "fences (learn wd r p s) = fences s" "records (learn wd r p s) = records s"
    "latestTombstones (learn wd r p s) = latestTombstones s" "parked (learn wd r p s) = parked s"
    "ancestry (learn wd r p s) = ancestry (noteAncestry r s)"
  using assms by (auto simp: learn_def noteFence_def noteAncestry_def Let_def)

lemma apply_winner_result: "fst (apply_winner cf wd w p s) = Inr d \<Longrightarrow> d = Applied"
  by (auto simp: apply_winner_def Let_def split: if_splits)

text \<open>
  C2. No session is resurrected: a write that a peer sends and the engine applies, though it is
  newer than the newest explicit deletion known for its cookie, names a causal parent from which the
  recorded ancestry leads to that very deletion.
\<close>

theorem applied_write_descends:
  assumes "fst (ingest cf wd r allow s) = Inr Applied" "w_cause r = WRITE \<or> w_cause r = OVERWRITE"
    and "js_get (fences s) (w_recordId r) = Some f" "df_hlc f < w_hlc r"
  shows "\<exists>parent. w_causalParent r = Some parent \<and>
    (parent, df_token f) \<in> (edge_rel (js_get (ancestry (noteAncestry r s)) (w_recordId r)))\<^sup>*"
proof -
  have nd: "w_cause r \<notin> DELETION_CAUSES" using assms(2) by auto
  have "\<exists>p. accepts cf r p"
  proof (rule ccontr)
    assume "\<not> (\<exists>p. accepts cf r p)"
    then show False using assms(1) ingest_refused[of cf r wd allow s] by (auto split: if_splits)
  qed
  then obtain p where a: "accepts cf r p" by blast
  have "verdict wd r p s = Applied"
    using assms(1) ingest_accepted[OF a, of wd allow s] by (auto split: if_splits)
  then have "descent (learn wd r p s) (w_recordId r) (w_causalParent r) f = Descends"
    using assms(2,3,4) nd by (auto simp: verdict_def resolve_def Let_def split: if_splits)
  from descent_reach[OF this] show ?thesis using nd by simp
qed

section \<open>Fences only advance\<close>

lemma fence_learn: "js_get (fences (learn wd r p s)) k =
    (if w_cause r = EXPLICIT_DELETE \<and> k = w_recordId r then fence_offer (js_get (fences s) k) (fence_of r)
     else js_get (fences s) k)"
  by (auto simp: learn_def frame_simps noteFence_get Let_def)

definition fences_advance :: "engine \<Rightarrow> engine \<Rightarrow> bool" where
  "fences_advance s t \<longleftrightarrow> (\<forall>k h. fenced s k h \<longrightarrow> fenced t k h)"

lemma fences_advance_refl [simp]: "fences_advance s s"
  by (simp add: fences_advance_def)

lemma fences_advance_trans: "fences_advance s t \<Longrightarrow> fences_advance t u \<Longrightarrow> fences_advance s u"
  by (simp add: fences_advance_def)

lemma fences_advance_eq: "fences t = fences s \<Longrightarrow> fences_advance s t"
  by (simp add: fences_advance_def fenced_def)

lemma fences_advance_book: "book t = book s \<Longrightarrow> fences_advance s t"
  by (rule fences_advance_eq) (simp add: book_def)

lemma fences_learn: "fences_advance s (learn wd r p s)"
  unfolding fences_advance_def fenced_def fence_learn
  using fence_cell.offer_mono by (fastforce intro: order_trans)

lemma apply_winner_fences [simp]: "fences (snd (apply_winner cf wd w p s)) = fences s"
proof -
  have "fences (expectEcho cf n k p s) = fences s" "fences (cancelExpectedEcho k p s) = fences s" for n k s
    using expectEcho_book[of cf n k p s] cancelExpectedEcho_book[of k p s] by (simp_all add: book_def)
  then show ?thesis by (simp add: apply_winner_def frame_simps emit_def Let_def)
qed

lemma ingest_fences: "fences_advance s (snd (ingest cf wd r allow s))"
proof (cases "\<exists>p. accepts cf r p")
  case True
  then obtain p where a: "accepts cf r p" by blast
  have "fences (learned wd r p allow s) = fences (learn wd r p s)"
    by (simp add: learned_def frame_simps)
  then have "fences_advance s (learned wd r p allow s)"
    using fences_learn[of s wd r p] by (simp add: fences_advance_def fenced_def)
  then show ?thesis
    by (simp add: ingest_accepted[OF a] fences_advance_def fenced_def)
qed (simp add: ingest_refused)

lemma retryParked_fences: "fences_advance s (snd (retryParked cf wd k s))"
proof -
  have "fences_advance s (s\<lparr>parked := m\<rparr>)" for m by (rule fences_advance_eq) simp
  then show ?thesis
    using fences_advance_trans[OF _ ingest_fences]
    by (auto simp: retryParked_def Let_def split: option.split prod.split sum.split) (metis snd_conv)+
qed

lemma applyOne_fences: "fences_advance s (snd (applyOne cf wd r s))"
  using ingest_fences[of s cf wd r True] fences_advance_trans[OF ingest_fences retryParked_fences]
  by (auto simp: applyOne_def split: prod.splits sum.splits) (metis snd_conv)+

lemma applyRemote_fences: "fences_advance s (snd (applyRemote cf wd rs s))"
proof (induction rs arbitrary: s)
  case (Cons r rs)
  show ?case
    using applyOne_fences[of s cf wd r] fences_advance_trans[OF applyOne_fences[of s cf wd r] Cons]
    by (auto split: prod.splits sum.splits)
qed simp

lemma issue_fences: "fences_advance s (snd (issue cf wd k p c s))"
proof -
  have "fences (noted w p c' s) = fences (noteFence w (noteAncestry w (s\<lparr>clock := c'\<rparr>)))" for w c'
    by (simp add: noted_def frame_simps Let_def)
  moreover have "fences_advance s (noteFence w (noteAncestry w (s\<lparr>clock := c'\<rparr>)))" for w c'
    using fenced_noteFence[of "noteAncestry w (s\<lparr>clock := c'\<rparr>)" _ _ w]
    by (simp add: fences_advance_def fenced_def frame_simps)
  ultimately show ?thesis
    by (simp add: issue_eq fences_advance_def fenced_def frame_simps)
qed

lemma commit_local_fences: "fences_advance s (snd (commit_local cf wd i attrs removed c e s))"
  using issue_fences[of s cf wd] fences_advance_trans[OF issue_fences fences_advance_book[OF publishOrQueue_book]]
  by (simp add: commit_local_def Let_def split_beta)

lemma localChange_fences: "fences_advance s (snd (localChange cf wd i attrs removed cc e s))"
proof -
  have s1: "fences_advance s (snd (consumeEcho n k p s))" for n k p
    by (rule fences_advance_book) (rule consumeEcho_book)
  show ?thesis
  proof (cases rule: localChange_cases[of cf wd i attrs removed cc e s])
    case (taken c)
    then show ?thesis
      using fences_advance_trans[OF s1 fences_advance_trans[OF commit_local_fences retryParked_fences]]
      by (simp add: run_result_snd)
  qed (use s1 in auto)
qed

lemma reissue_fences: "fences_advance s (snd (reissue cf wd p c s))"
proof -
  let ?t = "snd (issue cf wd (computeRecordIdHex (cf_crypto cf) (cp_identity p)) p c s)"
  have "book (snd (reissue cf wd p c s)) = book ?t"
    by (simp add: reissue_def split_beta Let_def frame_simps)
  then show ?thesis using issue_fences fences_advance_trans fences_advance_book by blast
qed

lemma reissue_all_fences: "fences_advance s (snd (reissue_all cf wd ps s))"
proof (induction ps arbitrary: s)
  case (Cons pc ps)
  show ?case
    using reissue_fences[of s cf wd "fst pc" "snd pc"]
      fences_advance_trans[OF reissue_fences[of s cf wd "fst pc" "snd pc"] Cons]
    by (cases pc) (auto split: prod.splits sum.splits)
qed simp

lemma engine_step_fences: "op \<noteq> OpGc \<Longrightarrow> fences_advance s (engine_step cf s (wd, op))"
  by (cases op) (auto simp: rollbackOrigin_def reapplyOrigin_def beginHydration_def endHydration_def frame_simps
      intro!: localChange_fences applyRemote_fences reissue_all_fences intro: fences_advance_book)

text \<open>
  A deletion fence is never lost or moved back by anything but collection: through every run of
  other operations a cookie once fenced at a stamp stays fenced at that stamp or a later one.
\<close>

theorem fences_persist:
  assumes "list_all (\<lambda>(wd, op). op \<noteq> OpGc) ops" "fenced s k h"
  shows "fenced (engine_run cf s ops) k h"
proof -
  have "fences_advance s (foldl (engine_step cf) s ops)"
    using assms(1)
  proof (induction ops arbitrary: s)
    case (Cons x ops)
    then have "fences_advance s (engine_step cf s x)" "fences_advance (engine_step cf s x) (foldl (engine_step cf) (engine_step cf s x) ops)"
      using engine_step_fences by (cases x; simp)+
    then show ?case using fences_advance_trans by simp
  qed simp
  then show ?thesis using assms(2) by (simp add: fences_advance_def engine_run_def)
qed

section \<open>The engine refines a last-writer-wins register\<close>

text \<open>What the engine stores for a cookie, seen as the register it refines.\<close>

definition stored_wire :: "engine \<Rightarrow> string \<Rightarrow> CookieRecordWire option" where
  "stored_wire s k = map_option st_wire (js_get (records s) k)"

text \<open>The cookie store takes whatever it is handed.\<close>

definition applies_ok :: "config \<Rightarrow> world \<Rightarrow> bool" where
  "applies_ok cf wd \<longleftrightarrow> (\<forall>p. cf_canApply cf p \<longrightarrow> wd_applyOk wd p)"

text \<open>The causal rules are silent: no fence is involved, or only deletions are.\<close>

definition unfenced :: "engine \<Rightarrow> CookieRecordWire \<Rightarrow> bool" where
  "unfenced s r \<longleftrightarrow>
     (w_cause r \<noteq> EXPLICIT_DELETE \<and> fences s = []) \<or>
     (w_cause r \<in> DELETION_CAUSES \<and>
      (\<forall>c. js_get (records s) (w_recordId r) = Some c \<longrightarrow> st_cause c \<in> DELETION_CAUSES))"

definition tombs_below :: "engine \<Rightarrow> bool" where
  "tombs_below s \<longleftrightarrow> (\<forall>k t. js_get (latestTombstones s) k = Some t \<longrightarrow>
     (\<exists>c. js_get (records s) k = Some c \<and> w_hlc (tn_wire t) \<le> st_hlc c))"

lemma fences_learn_plain: "w_cause r \<noteq> EXPLICIT_DELETE \<Longrightarrow> fences (learn wd r p s) = fences s"
  by (auto simp: learn_def noteFence_def noteAncestry_def noteTombstone_def Let_def split: option.split)

lemma records_learn [simp]: "records (learn wd r p s) = records s" "parked (learn wd r p s) = parked s"
  by (simp_all add: learn_def frame_simps Let_def)

lemma tombs_learn: "js_get (latestTombstones (learn wd r p s)) k =
    (if w_cause r \<in> DELETION_CAUSES \<and> k = w_recordId r
     then tomb_offer (js_get (latestTombstones s) k) \<lparr>tn_wire = r, tn_plain = p\<rparr>
     else js_get (latestTombstones s) k)"
  by (auto simp: learn_def frame_simps noteTombstone_get Let_def)

lemma verdict_lww:
  assumes "unfenced s r" "w_cause r \<noteq> HYDRATION_ECHO"
  shows "verdict wd r p s = lww (w_hlc r) (js_get (records s) (w_recordId r))"
proof (cases "w_cause r = EXPLICIT_DELETE")
  case True
  then show ?thesis
    using assms by (auto simp: verdict_def resolve_def lww_def unfenced_def Let_def split: option.split)
next
  case False
  then show ?thesis
    using assms by (auto simp: verdict_def resolve_def unfenced_def fences_learn_plain Let_def)
qed

lemma apply_winner_store:
  assumes "applies_ok cf wd"
  shows "\<exists>t. apply_winner cf wd w p s = (Inr Applied, engine_store (wd_now wd) w p t) \<and> book t = book s"
proof -
  have b: "book (emit x (expectEcho cf n k p s)) = book s" for x n k by (simp add: frame_simps)
  show ?thesis
    using assms b by (auto simp: apply_winner_def applies_ok_def Let_def)
qed

lemma ingest_lww:
  assumes a: "accepts cf r p" and u: "unfenced s r" and tb: "tombs_below s" and ok: "applies_ok cf wd"
    and inv: "engine_inv cf s"
  defines "s' \<equiv> snd (ingest cf wd r True s)"
  shows "stored_wire s' k = (if k = w_recordId r then queue_offer (stored_wire s k) r else stored_wire s k)"
    "\<exists>d. fst (ingest cf wd r True s) = Inr d" "parked s' = parked s" "tombs_below s'"
    "w_cause r \<noteq> EXPLICIT_DELETE \<Longrightarrow> fences s' = fences s"
proof -
  let ?k = "w_recordId r"
  have he: "w_cause r \<noteq> HYDRATION_ECHO" using a by (simp add: accepts_def)
  note v = verdict_lww[OF u he, of wd p]
  have nb: "learned wd r p True s = learn wd r p s"
    unfolding learned_def v by (auto simp: lww_def Let_def split: option.split)
  have hl: "st_hlc c = w_hlc (st_wire c)" if "js_get (records s) k' = Some c" for c k'
    using inv that by (auto simp: engine_inv_def maps_ok_def record_ok_def dest: js_allD)
  have main: "(\<forall>k. stored_wire s' k = (if k = ?k then queue_offer (stored_wire s k) r else stored_wire s k)) \<and>
    (\<exists>d. fst (ingest cf wd r True s) = Inr d) \<and> parked s' = parked s \<and> tombs_below s' \<and>
    fences s' = fences (learn wd r p s)"
  proof (cases "lww (w_hlc r) (js_get (records s) ?k) = Applied")
    case False
    then obtain c where c: "js_get (records s) ?k = Some c" "w_hlc r \<le> st_hlc c"
      by (cases "js_get (records s) ?k") (auto simp: lww_def Let_def not_less split: if_splits)
    have i: "ingest cf wd r True s = (Inr (lww (w_hlc r) (js_get (records s) ?k)), learn wd r p s)"
      using False by (simp add: ingest_accepted[OF a] v nb)
    have "tombs_below (learn wd r p s)"
      using tb c by (fastforce simp: tombs_below_def tombs_learn tomb_offer_def split: if_splits option.splits)
    then show ?thesis
      using c hl[OF c(1)] by (auto simp: s'_def i stored_wire_def queue_offer_def not_less)
  next
    case True
    have new: "js_get (records s) ?k = None \<or> (\<exists>c. js_get (records s) ?k = Some c \<and> st_hlc c < w_hlc r)"
      using True by (cases "js_get (records s) ?k") (auto simp: lww_def Let_def split: if_splits)
    have t: "js_get (latestTombstones (learn wd r p s)) ?k = Some \<lparr>tn_wire = r, tn_plain = p\<rparr>"
      if "w_cause r \<in> DELETION_CAUSES"
    proof (cases "js_get (latestTombstones s) ?k")
      case (Some u)
      then obtain c where "js_get (records s) ?k = Some c" "w_hlc (tn_wire u) \<le> st_hlc c"
        using tb by (auto simp: tombs_below_def)
      then have "w_hlc (tn_wire u) < w_hlc r" using new by auto
      then show ?thesis using that Some by (simp add: tombs_learn tomb_offer_def)
    qed (use that in \<open>simp add: tombs_learn tomb_offer_def\<close>)
    have w: "winner_of r p (learn wd r p s) = (r, p)"
      using t by (auto simp: winner_of_def)
    obtain u where i: "ingest cf wd r True s = (Inr Applied, engine_store (wd_now wd) r p u)" "book u = book (learn wd r p s)"
      using apply_winner_store[OF ok, of r p "learn wd r p s"] True by (auto simp: ingest_accepted[OF a] v nb w)
    then have u: "records u = records s" "parked u = parked s" "fences u = fences (learn wd r p s)"
      "latestTombstones u = latestTombstones (learn wd r p s)"
      by (auto simp: book_def)
    have "tombs_below s'"
      using tb new by (fastforce simp: s'_def i(1) tombs_below_def frame_simps u(4) tombs_learn tomb_offer_def
          engine_store_def stored_form_def u(1) split: if_splits option.splits)
    moreover have "stored_wire s' k = (if k = ?k then queue_offer (stored_wire s k) r else stored_wire s k)" for k
      using new hl by (auto simp: s'_def i(1) stored_wire_def engine_store_def stored_form_def u(1) queue_offer_def)
    ultimately show ?thesis by (simp add: s'_def i(1) frame_simps u)
  qed
  then show "stored_wire s' k = (if k = ?k then queue_offer (stored_wire s k) r else stored_wire s k)"
    "\<exists>d. fst (ingest cf wd r True s) = Inr d" "parked s' = parked s" "tombs_below s'"
    "w_cause r \<noteq> EXPLICIT_DELETE \<Longrightarrow> fences s' = fences s"
    by (auto simp: fences_learn_plain)
qed

lemma applyOne_lww:
  assumes "accepts cf r p" "unfenced s r" "tombs_below s" "applies_ok cf wd" "engine_inv cf s" "parked s = []"
  shows "\<exists>d s'. applyOne cf wd r s = (Inr d, s') \<and> engine_inv cf s' \<and> tombs_below s' \<and> parked s' = [] \<and>
    (\<forall>k. stored_wire s' k = (if k = w_recordId r then queue_offer (stored_wire s k) r else stored_wire s k)) \<and>
    (w_cause r \<noteq> EXPLICIT_DELETE \<longrightarrow> fences s' = fences s)"
proof -
  note i = ingest_lww[OF assms(1-5)]
  obtain d s' where d: "ingest cf wd r True s = (Inr d, s')" using i(2) by (metis prod.collapse)
  then have "applyOne cf wd r s = (Inr d, s')"
    using i(3) assms(6) by (simp add: applyOne_def retryParked_def)
  then show ?thesis using i d assms(5,6) ingest_inv[of cf s wd r True] by auto
qed

text \<open>Either no explicit deletion is delivered, or nothing but deletions.\<close>

definition causes_plain :: "CookieRecordWire list \<Rightarrow> bool" where
  "causes_plain rs \<longleftrightarrow> list_all (\<lambda>r. w_cause r \<noteq> EXPLICIT_DELETE) rs \<or>
     list_all (\<lambda>r. w_cause r \<in> DELETION_CAUSES) rs"

definition ready :: "CookieRecordWire list \<Rightarrow> engine \<Rightarrow> bool" where
  "ready rs s \<longleftrightarrow> tombs_below s \<and> parked s = [] \<and>
     ((fences s = [] \<and> list_all (\<lambda>r. w_cause r \<noteq> EXPLICIT_DELETE) rs) \<or>
      (list_all (\<lambda>r. w_cause r \<in> DELETION_CAUSES) rs \<and>
       (\<forall>k w. stored_wire s k = Some w \<longrightarrow> w_cause w \<in> DELETION_CAUSES)))"

lemma ready_unfenced:
  assumes "ready (r # rs) s" "engine_inv cf s"
  shows "unfenced s r"
proof -
  have "st_cause c = w_cause (st_wire c)" if "js_get (records s) k = Some c" for k c
    using assms(2) that by (auto simp: engine_inv_def maps_ok_def record_ok_def dest: js_allD)
  then show ?thesis using assms(1) by (fastforce simp: ready_def unfenced_def stored_wire_def)
qed

lemma applyRemote_lww:
  assumes "list_all (\<lambda>r. \<exists>p. accepts cf r p) rs" "ready rs s" "applies_ok cf wd" "engine_inv cf s"
  shows "\<exists>ds s'. applyRemote cf wd rs s = (Inr ds, s') \<and>
    (\<forall>k. stored_wire s' k = foldl queue_offer (stored_wire s k) (filter (\<lambda>r. w_recordId r = k) rs))"
  using assms
proof (induction rs arbitrary: s)
  case (Cons r rs)
  obtain p where p: "accepts cf r p" using Cons.prems(1) by auto
  have rd: "tombs_below s" "parked s = []" using Cons.prems(2) by (auto simp: ready_def)
  obtain d s1 where s1: "applyOne cf wd r s = (Inr d, s1)" "engine_inv cf s1" "tombs_below s1" "parked s1 = []"
    "\<And>k. stored_wire s1 k = (if k = w_recordId r then queue_offer (stored_wire s k) r else stored_wire s k)"
    "w_cause r \<noteq> EXPLICIT_DELETE \<longrightarrow> fences s1 = fences s"
    using applyOne_lww[OF p ready_unfenced[OF Cons.prems(2,4)] rd(1) Cons.prems(3,4) rd(2)] by blast
  have "w_cause w \<in> DELETION_CAUSES" if "queue_offer c r = Some w" "w_cause r \<in> DELETION_CAUSES"
      "\<And>x. c = Some x \<Longrightarrow> w_cause x \<in> DELETION_CAUSES" for c w
    using that queue_cell.offer_cases[of c r] by auto
  then have "ready rs s1"
    using Cons.prems(2) s1(3,4,6) by (auto simp: ready_def s1(5) simp del: DELETION_CAUSES_iff split: if_splits)
  then show ?case
    using Cons.IH[of s1] Cons.prems(1,3) s1 by auto
qed simp

lemma ready_new: "causes_plain rs \<Longrightarrow> ready rs (new_engine d)"
  by (auto simp: ready_def causes_plain_def tombs_below_def new_engine_def stored_wire_def)

text \<open>
  C4. Without explicit deletions, or with nothing but deletions, a replica is a last-writer-wins
  register per cookie: after any delivery of accepted records the stored wire form of each cookie is
  the newest of those delivered for it (tombstone normalization included), whatever their order.
\<close>

theorem replica_is_lww_register:
  assumes "list_all (\<lambda>r. \<exists>p. accepts cf r p) rs" "causes_plain rs" "applies_ok cf wd"
  shows "stored_wire (snd (applyRemote cf wd rs (new_engine d))) k =
    foldl queue_offer None (filter (\<lambda>r. w_recordId r = k) rs)"
proof -
  have "stored_wire (new_engine d) k = None" by (simp add: stored_wire_def new_engine_def)
  then show ?thesis
    using applyRemote_lww[OF assms(1) ready_new[OF assms(2)] assms(3) engine_inv_new, of d] by fastforce
qed

text \<open>
  C3. Replicas converge: two devices that are delivered the same such records, in any two orders
  and with any repetitions, store the same version of every cookie.
\<close>

theorem replicas_converge:
  assumes "list_all (\<lambda>r. (\<exists>p. accepts cf r p) \<and> (\<exists>p. accepts cf' r p)) rs" "causes_plain rs"
    and "applies_ok cf wd" "applies_ok cf' wd'" "set ts = set rs"
    and "inj_on w_hlc (set rs)"
  shows "stored_wire (snd (applyRemote cf wd rs (new_engine d))) k =
    stored_wire (snd (applyRemote cf' wd' ts (new_engine d'))) k"
proof -
  have rs: "list_all (\<lambda>r. \<exists>p. accepts cf r p) rs" and ts: "list_all (\<lambda>r. \<exists>p. accepts cf' r p) ts"
    and pt: "causes_plain ts"
    using assms(1,2,5) by (auto simp: list_all_iff causes_plain_def)
  have eq: "foldl queue_offer None (filter (\<lambda>r. w_recordId r = k) rs) =
      foldl queue_offer None (filter (\<lambda>r. w_recordId r = k) ts)"
    by (rule queue_cell.offers_order_free) (use assms(5,6) in \<open>auto intro: inj_on_subset\<close>)
  have new: "stored_wire (new_engine x) k = None" for x by (simp add: stored_wire_def new_engine_def)
  show ?thesis
    using applyRemote_lww[OF rs ready_new[OF assms(2)] assms(3) engine_inv_new, of d]
      applyRemote_lww[OF ts ready_new[OF pt] assms(4) engine_inv_new, of d'] eq new
    by fastforce
qed


lemma demo_applies: "applies_ok demo_config (demo_world n)"
  by (simp add: applies_ok_def demo_world_def)

lemma replica_is_lww_register_witness:
  "stored_wire (snd (applyRemote demo_config (demo_world 9)
      [demo_wire 2 None WRITE, demo_wire 3 None EXPIRED, demo_wire 1 None WRITE] (new_engine ''c''))) ''07'' =
   Some (demo_wire 3 None EXPIRED)"
proof -
  have "list_all (\<lambda>r. \<exists>p. accepts demo_config r p)
      [demo_wire 2 None WRITE, demo_wire 3 None EXPIRED, demo_wire 1 None WRITE]"
    using demo_accepts by fastforce
  note l = replica_is_lww_register[OF this _ demo_applies]
  show ?thesis
    by (subst l) (simp_all add: causes_plain_def queue_offer_def)
qed

lemma replicas_converge_witness:
  "stored_wire (snd (applyRemote demo_config (demo_world 9)
      [demo_wire 2 None EVICTED, demo_wire 3 None EXPLICIT_DELETE] (new_engine ''c''))) ''07'' =
   stored_wire (snd (applyRemote demo_config (demo_world 7)
      [demo_wire 3 None EXPLICIT_DELETE, demo_wire 2 None EVICTED, demo_wire 3 None EXPLICIT_DELETE]
      (new_engine ''d''))) ''07''"
proof (rule replicas_converge)
  show "list_all (\<lambda>r. (\<exists>p. accepts demo_config r p) \<and> (\<exists>p. accepts demo_config r p))
      [demo_wire 2 None EVICTED, demo_wire 3 None EXPLICIT_DELETE]"
    using demo_accepts by fastforce
  show "inj_on w_hlc (set [demo_wire 2 None EVICTED, demo_wire 3 None EXPLICIT_DELETE])"
    by (simp add: inj_on_def)
qed (auto simp: causes_plain_def demo_applies)

end
