(* ===== verification/EngineSafety.thy ===== *)
theory EngineSafety
  imports EngineFacts
begin

text \<open>
  What the sync engine keeps from happening: republished echoes, published changes of origins that
  are not synced, deletions propagated by a device that does not hold the writer lease, live records
  or recent tombstones collected, queued changes lost; and one thing it does not keep from
  happening, a verdict that depends on the order of delivery.
\<close>

section \<open>What is published\<close>

fun published_by :: "effect \<Rightarrow> CookieRecordWire list" where
  "published_by (EPublish w) = [w]"
| "published_by _ = []"

definition published :: "engine \<Rightarrow> CookieRecordWire list" where
  "published s = concat (map published_by (effects s))"

lemma published_emit [simp]: "published (emit e s) = published s @ published_by e"
  by (simp add: published_def emit_def)

lemma published_cong: "effects s = effects t \<Longrightarrow> published s = published t"
  by (simp add: published_def)

text \<open>What an operation that only learns and applies leaves alone.\<close>

definition quiet :: "engine \<Rightarrow> engine \<Rightarrow> bool" where
  "quiet s t \<longleftrightarrow> published t = published s \<and> queue t = queue s \<and> overrides t = overrides s \<and>
     grantedLeases t = grantedLeases s \<and> online t = online s \<and> hydrating t = hydrating s"

lemma quiet_refl [simp]: "quiet s s"
  by (simp add: quiet_def)

lemma quiet_trans: "quiet s t \<Longrightarrow> quiet t u \<Longrightarrow> quiet s u"
  by (simp add: quiet_def)

lemma quiet_learn: "quiet s (learn wd r p s)"
  by (simp add: quiet_def learn_def frame_simps published_def Let_def)

lemma quiet_park: "quiet s (park r s)"
  by (simp add: quiet_def frame_simps published_def)

lemma quiet_echoes [simp]: "quiet s (s\<lparr>pendingEchoes := m\<rparr>)" "quiet s (s\<lparr>parked := q\<rparr>)"
  by (simp_all add: quiet_def published_def)

lemma quiet_use_echo: "quiet s (use_echo k e s)"
  by (simp add: use_echo_def)

lemma quiet_cancel: "quiet s (cancelExpectedEcho k p s)"
  by (simp add: cancelExpectedEcho_def quiet_use_echo Let_def split: option.split)

lemma quiet_expect: "quiet s (expectEcho cf n k p s)"
  by (simp add: expectEcho_def Let_def)

lemma quiet_consume: "quiet s (snd (consumeEcho n k p s))"
  by (simp add: consumeEcho_def quiet_use_echo Let_def split: option.split)

lemma quiet_store: "quiet s (engine_store n w p s)"
  by (simp add: quiet_def frame_simps published_def)

lemma quiet_apply: "quiet s (emit (EApply p c) s)"
  by (simp add: quiet_def) (simp add: emit_def)

lemma quiet_apply_winner: "quiet s (snd (apply_winner cf wd w p s))"
proof -
  have "quiet s (engine_store n w p (emit (EApply p c) (expectEcho cf m k p s)))" for n c m k
    by (rule quiet_trans[OF quiet_trans[OF quiet_expect quiet_apply] quiet_store])
  moreover have "quiet s (cancelExpectedEcho k p (expectEcho cf m k p s))" for m k
    by (rule quiet_trans[OF quiet_expect quiet_cancel])
  ultimately show ?thesis by (simp add: apply_winner_def quiet_store Let_def)
qed

lemma quiet_ingest: "quiet s (snd (ingest cf wd r allow s))"
proof (cases "\<exists>p. accepts cf r p")
  case True
  then obtain p where a: "accepts cf r p" by blast
  have "quiet s (learned wd r p allow s)"
    using quiet_learn quiet_trans[OF quiet_learn quiet_park] by (simp add: learned_def)
  then show ?thesis
    using quiet_trans[OF _ quiet_apply_winner] by (simp add: ingest_accepted[OF a])
qed (simp add: ingest_refused)

lemma quiet_retryParked: "quiet s (snd (retryParked cf wd k s))"
  using quiet_trans[OF quiet_echoes(2) quiet_ingest]
  by (auto simp: retryParked_def Let_def split: option.split prod.split sum.split) (metis snd_conv)+

section \<open>Echo suppression\<close>

lemma expectEcho_entry:
  "\<exists>e. js_get (pendingEchoes (expectEcho cf n k p s)) (echoKey k p) = Some e \<and>
     ee_expiresAtMs e = n + cf_echoTtlMs cf"
  by (auto simp: expectEcho_def Let_def split: option.split)

lemma consumeEcho_live:
  assumes "js_get (pendingEchoes s) (echoKey k p) = Some e" "n < ee_expiresAtMs e"
  shows "\<exists>t. consumeEcho n k p s = (True, t) \<and> book t = book s \<and> effects t = effects s \<and> quiet s t"
proof -
  have "effects (use_echo a e s) = effects s" for a by (simp add: use_echo_def)
  then show ?thesis
    using assms by (simp add: consumeEcho_def Let_def use_echo_book quiet_use_echo)
qed

lemma echo_at_store:
  assumes "apply_winner cf wd w p s = (Inr Applied, t)" "cf_canApply cf p"
  shows "\<exists>e. js_get (pendingEchoes t) (echoKey (w_recordId w) p) = Some e \<and>
    ee_expiresAtMs e = wd_now wd + cf_echoTtlMs cf"
  using assms expectEcho_entry[of cf "wd_now wd" "w_recordId w" p s]
  by (auto simp: apply_winner_def frame_simps emit_def Let_def split: if_splits)

text \<open>
  An applied record does not come back: while its echo entry lives, a change event of the cookie
  store whose state has the fingerprint of what \<open>applyRemote\<close> just handed over publishes and queues
  nothing and leaves all book-keeping as it was, whatever cause Chromium reports for it.
\<close>

theorem echo_suppressed:
  assumes "engine_inv cf s" "ingest cf wd r allow s = (Inr Applied, t)" "effects t = effects s @ [EApply p c]"
    and "computeRecordIdHex (cf_crypto cf) i = w_recordId r"
    and "echoKey (w_recordId r) (local_plain i attrs removed) = echoKey (w_recordId r) p"
    and "wd_now wd' < wd_now wd + cf_echoTtlMs cf"
  shows "let u = snd (localChange cf wd' i attrs removed cc e t) in
    book u = book t \<and> effects u = effects t \<and> queue u = queue t"
proof -
  have "\<exists>q. accepts cf r q"
  proof (rule ccontr)
    assume "\<not> (\<exists>q. accepts cf r q)"
    then have "t = s" using assms(2) ingest_refused[of cf r wd allow s] by simp
    then show False using assms(3) by simp
  qed
  then obtain q where a: "accepts cf r q" by blast
  then have bound: "identityBound cf r q" by (simp add: accepts_def)
  let ?l = "learned wd r q allow s"
  obtain w x where w: "winner_of r q ?l = (w, x)" by fastforce
  have l: "effects ?l = effects s"
    by (simp add: learned_def learn_def frame_simps Let_def)
  have aw: "apply_winner cf wd w x ?l = (Inr Applied, t)"
  proof (cases "verdict wd r q s = Applied")
    case True
    then show ?thesis using assms(2) by (simp add: ingest_accepted[OF a] w)
  next
    case False
    then have "t = ?l" using assms(2) by (simp add: ingest_accepted[OF a])
    then show ?thesis using assms(3) l by simp
  qed
  have id: "w_recordId w = w_recordId r"
    by (rule winner_ok(2)[OF learned_inv(1)[OF assms(1) bound] bound w learned_inv(2)[OF assms(1) bound]])
  have "cf_canApply cf x"
    using aw assms(3) l by (auto simp: apply_winner_def frame_simps split: if_splits)
  moreover have "x = p"
    using aw assms(3) l calculation
    by (auto simp: apply_winner_def frame_simps emit_def expectEcho_def Let_def split: if_splits)
  ultimately obtain en where "js_get (pendingEchoes t) (echoKey (w_recordId r) (local_plain i attrs removed)) = Some en"
    "ee_expiresAtMs en = wd_now wd + cf_echoTtlMs cf"
    using echo_at_store[OF aw] id assms(5) by auto
  then obtain u where u: "consumeEcho (wd_now wd') (w_recordId r) (local_plain i attrs removed) t = (True, u)"
    "book u = book t" "effects u = effects t" "quiet t u"
    using consumeEcho_live assms(6) by metis
  show ?thesis
    by (cases rule: localChange_cases[of cf wd' i attrs removed cc e t])
      (use u assms(4) in \<open>auto simp: quiet_def Let_def\<close>)
qed

lemma demo_ingest:
  "\<exists>t. ingest demo_config (demo_world 9) (demo_wire 2 None WRITE) True (new_engine ''c'') = (Inr Applied, t) \<and>
     effects t = [EApply demo_plain WRITE]"
proof -
  let ?r = "demo_wire 2 None WRITE" and ?s = "new_engine ''c''"
  have u: "unfenced ?s ?r" by (simp add: unfenced_def new_engine_def)
  have v: "verdict (demo_world 9) ?r demo_plain ?s = Applied"
    by (simp add: verdict_lww[OF u]) (simp add: lww_def new_engine_def)
  have w: "winner_of ?r demo_plain t = (?r, demo_plain)" for t by (simp add: winner_of_def)
  have i: "ingest demo_config (demo_world 9) ?r True ?s =
      apply_winner demo_config (demo_world 9) ?r demo_plain (learn (demo_world 9) ?r demo_plain ?s)"
    by (simp add: ingest_accepted[OF demo_accepts] v w learned_def)
  have e: "effects (learn (demo_world 9) ?r demo_plain ?s) = []"
    by (simp add: learn_def frame_simps Let_def) (simp add: new_engine_def)
  have o': "wd_applyOk (demo_world 9) q" for q by (simp add: demo_world_def)
  show ?thesis
    by (simp add: i e o' apply_winner_def demo_laws emit_def frame_simps expectEcho_def Let_def)
qed

definition demo_attributes :: CookieAttributes where
  "demo_attributes = \<lparr>ca_value = ''v'', ca_expiresMs = None, ca_persistent = False, ca_secure = True,
     ca_httpOnly = True, ca_sameSite = SameSiteLax, ca_priority = PriorityHigh\<rparr>"

lemma echo_suppressed_witness:
  "let t = snd (ingest demo_config (demo_world 9) (demo_wire 2 None WRITE) True (new_engine ''c''));
       u = snd (localChange demo_config (demo_world 12) example_identity (Some demo_attributes) False
         ''explicit'' False t)
   in book u = book t \<and> effects u = effects t \<and> queue u = queue t"
proof -
  obtain t where t: "ingest demo_config (demo_world 9) (demo_wire 2 None WRITE) True (new_engine ''c'') = (Inr Applied, t)"
    "effects t = [EApply demo_plain WRITE]" using demo_ingest by blast
  have e: "effects t = effects (new_engine ''c'') @ [EApply demo_plain WRITE]"
    using t(2) by (simp add: new_engine_def)
  have k: "computeRecordIdHex (cf_crypto demo_config) example_identity = w_recordId (demo_wire 2 None WRITE)"
    by (simp add: demo_wire_def demo_plain_def del: demo_record_id)
  have f: "echoKey x (local_plain example_identity (Some demo_attributes) False) = echoKey x demo_plain" for x
    by (simp add: echoKey_def local_plain_def demo_attributes_def demo_plain_def)
  show ?thesis
    using echo_suppressed[OF engine_inv_new t(1) e k f, of "demo_world 12"] t(1)
    by (simp add: demo_world_def demo_config_def)
qed

section \<open>Policy gating\<close>

text \<open>
  Nothing of an origin that is not synced leaves the device or enters the engine: a change of a
  cookie whose host is overridden to "never", or whose policy is tier 0 or sensitive with no
  override, is neither stored, nor queued, nor handed to the transport.
\<close>

theorem unsynced_change_ignored:
  assumes "\<not> isSynced cf s (ci_hostKey i)"
  shows "let u = snd (localChange cf wd i attrs removed cc e s) in
    book u = book s \<and> published u = published s \<and> queue u = queue s"
proof -
  let ?s1 = "snd (consumeEcho (wd_now wd) (computeRecordIdHex (cf_crypto cf) i) (local_plain i attrs removed) s)"
  have q: "quiet s ?s1" "book ?s1 = book s" by (rule quiet_consume, rule consumeEcho_book)
  then have "isSynced cf ?s1 h = isSynced cf s h" for h
    by (simp add: isSynced_def lookupOverride_def quiet_def)
  then show ?thesis
    by (cases rule: localChange_cases[of cf wd i attrs removed cc e s]) (use q assms in \<open>auto simp: quiet_def Let_def\<close>)
qed

lemma unsynced_change_ignored_witness:
  "let s = new_engine ''c''; cf = demo_config\<lparr>cf_policies := SEED_CORPUS\<rparr>;
       u = snd (localChange cf (demo_world 9) (example_identity\<lparr>ci_hostKey := ''www.chase.com''\<rparr>)
         (Some demo_attributes) False ''explicit'' False s)
   in book u = book s \<and> published u = published s \<and> queue u = queue s"
proof -
  have "\<not> isSynced (demo_config\<lparr>cf_policies := SEED_CORPUS\<rparr>) (new_engine ''c'')
      (ci_hostKey (example_identity\<lparr>ci_hostKey := ''www.chase.com''\<rparr>))"
    by code_simp
  from unsynced_change_ignored[OF this] show ?thesis by (simp add: Let_def)
qed

section \<open>Writer-scoped deletions\<close>

lemma retryParked_fences_eq:
  assumes "engine_inv cf s"
  shows "fences (snd (retryParked cf wd k s)) = fences s"
proof (cases "js_get (parked s) k")
  case (Some r)
  then have "parked_ok k r" using assms by (auto simp: engine_inv_def maps_ok_def dest: js_allD)
  then have nd: "w_cause r \<notin> DELETION_CAUSES" by (auto simp: parked_ok_def)
  have "fences (snd (ingest cf wd r False t)) = fences t" for t
  proof (cases "\<exists>p. accepts cf r p")
    case True
    then obtain p where a: "accepts cf r p" by blast
    then show ?thesis using nd by (simp add: ingest_accepted[OF a] learned_def)
  qed (simp add: ingest_refused)
  then have f: "fences (snd (ingest cf wd r False (s\<lparr>parked := m\<rparr>))) = fences s" for m by simp
  obtain x u where u: "ingest cf wd r False (s\<lparr>parked := js_del (parked s) k\<rparr>) = (x, u)" by fastforce
  then have "fences u = fences s" using f[of "js_del (parked s) k"] by simp
  then show ?thesis
    using Some u by (simp add: retryParked_def Let_def split: sum.split)
qed (simp add: retryParked_def)

lemma quiet_noted: "quiet s (noted w p c s)"
  by (simp add: noted_def quiet_def frame_simps published_def Let_def)

lemma quiet_issue: "quiet s (snd (issue cf wd k p c s))"
  unfolding issue_eq snd_conv by (rule quiet_trans[OF quiet_noted quiet_store])

lemma issue_fences_eq: "c \<noteq> EXPLICIT_DELETE \<Longrightarrow> fences (snd (issue cf wd k p c s)) = fences s"
  by (simp add: issue_eq frame_simps noted_def issued_wire_def Let_def) (simp add: noteFence_def frame_simps)

text \<open>
  Deletions on a rotating-authentication origin are writer-scoped: when this device holds no
  live lease of the origin and the user did not ask for it, a cookie removal is not published, not
  queued and raises no fence, and what is recorded for it is not an explicit deletion.
\<close>

theorem passive_deletion_stays_local:
  assumes "engine_inv cf s" "causeForChange cc removed = Some c" "local_only cf wd i c False s"
    and "localChange cf wd i attrs removed cc False s = (x, u)"
  shows "published u = published s \<and> queue u = queue s \<and> fences u = fences s \<and>
    (\<forall>w. x \<noteq> Inr (Some w) \<or> w_cause w = EXPIRED \<or> w_cause w = EVICTED)"
proof -
  let ?k = "computeRecordIdHex (cf_crypto cf) i"
  let ?s1 = "snd (consumeEcho (wd_now wd) ?k (local_plain i attrs removed) s)"
  have b: "book ?s1 = book s" by (rule consumeEcho_book)
  have q: "quiet s ?s1" "fences ?s1 = fences s" "engine_inv cf ?s1"
    using b engine_inv_book[OF b] assms(1) by (simp_all add: quiet_consume) (simp add: book_def)
  have lo: "local_only cf wd i c False ?s1" using assms(3) q(1) by (simp add: local_only_def quiet_def)
  have lc: "local_cause cf wd i c False ?s1 = (if c = EXPLICIT_DELETE then EXPIRED else c)"
    using lo by (simp add: local_cause_def)
  have cd: "c \<in> DELETION_CAUSES" using lo by (simp only: local_only_def)
  let ?t = "commit_local cf wd i attrs removed c False ?s1"
  have t: "?t = issue cf wd ?k (local_plain i attrs removed) (local_cause cf wd i c False ?s1) ?s1"
    using lo by (simp add: commit_local_def split_beta)
  have "fences (snd ?t) = fences s" "quiet s (snd ?t)"
    using issue_fences_eq[of _ cf wd ?k _ ?s1] quiet_trans[OF q(1) quiet_issue] q(2) lc by (simp_all add: t)
  moreover have "w_cause (fst ?t) = EXPIRED \<or> w_cause (fst ?t) = EVICTED"
    using cd by (auto simp: t lc issue_eq issued_wire_def)
  moreover have "quiet (snd ?t) (snd (retryParked cf wd ?k (snd ?t)))"
    "fences (snd (retryParked cf wd ?k (snd ?t))) = fences (snd ?t)"
    by (rule quiet_retryParked) (rule retryParked_fences_eq[OF commit_local_inv[OF q(3)]])
  ultimately have r: "quiet s (snd (retryParked cf wd ?k (snd ?t)))"
    "fences (snd (retryParked cf wd ?k (snd ?t))) = fences s" "w_cause (fst ?t) = EXPIRED \<or> w_cause (fst ?t) = EVICTED"
    using quiet_trans[of s "snd ?t"] by (blast, simp, blast)
  show ?thesis
  proof (cases rule: localChange_cases[of cf wd i attrs removed cc False s])
    case (taken c')
    then have "c' = c" using assms(2) by simp
    then show ?thesis
      using taken(5) r assms(4) by (auto simp: quiet_def split: prod.splits sum.splits)
  qed (use q assms(4) in \<open>auto simp: quiet_def\<close>)
qed

section \<open>Delivery order\<close>

text \<open>
  The state of one cookie's causal book-keeping: what is stored, the fence, the edges, the parked
  write.
\<close>

definition cookie_state :: "engine \<Rightarrow> CookieRecordWire option \<Rightarrow> DeleteFence \<Rightarrow> edge_map \<Rightarrow>
    CookieRecordWire option \<Rightarrow> bool" where
  "cookie_state s c f es q \<longleftrightarrow> engine_inv demo_config s \<and> stored_wire s ''07'' = c \<and>
     js_get (fences s) ''07'' = Some f \<and> js_get (ancestry s) ''07'' = Some es \<and> js_get (parked s) ''07'' = q"

definition tok :: "nat \<Rightarrow> string" where
  "tok n = makeVersionToken ''07'' (demo_hlc n)"

lemma tok_eq [simp]: "tok m = tok n \<longleftrightarrow> m = n"
  by (simp add: tok_def makeVersionToken_inj)

lemma tok_parse [simp]: "parseVersionToken (tok n) = Inr (''07'', demo_hlc n)"
  by (simp add: tok_def parse_makeVersionToken demo_hlc_def)

lemma tok_made [simp]: "makeVersionToken ''07'' (demo_hlc n) = tok n"
  by (simp add: tok_def)

definition blocked :: "edge_map \<Rightarrow> string option \<Rightarrow> DeleteFence \<Rightarrow> bool" where
  "blocked es par f \<longleftrightarrow> (par = None \<or> descent_loop 128 (Some es) par f \<noteq> Descends)"

lemma resolve_write:
  assumes "cookie_state s c f es q" "df_hlc f < demo_hlc n"
  shows "resolve s (js_get (records s) ''07'') (demo_wire n par WRITE) =
    (if blocked es par f then ResurrectionBlocked else lww (demo_hlc n) (js_get (records s) ''07''))"
  using assms by (simp add: resolve_def cookie_state_def blocked_def descent_def MAX_ANCESTRY_WALK_def Let_def)

lemma lww_not_blocked [simp]: "lww h c \<noteq> ResurrectionBlocked"
  by (simp add: lww_def Let_def split: option.split)

lemma write_ingested:
  fixes par :: "string option"
  assumes c: "cookie_state s c f es q" and f: "df_hlc f < demo_hlc n"
  defines "es' \<equiv> add_edge es (tok n) par"
  shows "cookie_state (snd (ingest demo_config (demo_world 9) (demo_wire n par WRITE) allow s))
      (if blocked es' par f then c else queue_offer c (demo_wire n par WRITE)) f es'
      (if blocked es' par f \<and> allow then queue_offer q (demo_wire n par WRITE) else q)"
    "\<exists>d. fst (ingest demo_config (demo_world 9) (demo_wire n par WRITE) allow s) = Inr d"
    "\<not> blocked es' par f \<Longrightarrow> lww (demo_hlc n) (js_get (records s) ''07'') = Applied \<Longrightarrow>
     fst (ingest demo_config (demo_world 9) (demo_wire n par WRITE) allow s) = Inr Applied"
proof -
  let ?r = "demo_wire n par WRITE"
  let ?l = "learn (demo_world 9) ?r demo_plain s"
  have acc: "accepts demo_config ?r demo_plain" by (rule demo_accepts) simp
  have inv: "engine_inv demo_config s" using c by (simp add: cookie_state_def)
  have lc: "cookie_state ?l c f es' q"
    using c learn_inv[OF inv] acc
    by (auto simp: cookie_state_def stored_wire_def noteAncestry_def es'_def accepts_def)
  have v: "verdict (demo_world 9) ?r demo_plain s =
      (if blocked es' par f then ResurrectionBlocked else lww (demo_hlc n) (js_get (records s) ''07''))"
    using resolve_write[OF lc f] by (simp add: verdict_def)
  have w: "winner_of ?r demo_plain t = (?r, demo_plain)" for t by (simp add: winner_of_def)
  have hl: "st_hlc x = w_hlc (st_wire x)" if "js_get (records s) ''07'' = Some x" for x
    using inv that by (auto simp: engine_inv_def maps_ok_def record_ok_def dest: js_allD)
  obtain u where u: "apply_winner demo_config (demo_world 9) ?r demo_plain ?l = (Inr Applied, engine_store 9 ?r demo_plain u)"
    "book u = book ?l"
    using apply_winner_store[OF demo_applies, of 9 ?r demo_plain ?l] by (auto simp: demo_world_def)
  have i: "ingest demo_config (demo_world 9) ?r allow s =
      (if blocked es' par f then (Inr ResurrectionBlocked, if allow then park ?r ?l else ?l)
       else if lww (demo_hlc n) (js_get (records s) ''07'') = Applied then (Inr Applied, engine_store 9 ?r demo_plain u)
       else (Inr (lww (demo_hlc n) (js_get (records s) ''07'')), ?l))"
    by (simp add: ingest_accepted[OF acc] v w learned_def u(1))
  show "\<exists>d. fst (ingest demo_config (demo_world 9) ?r allow s) = Inr d" by (simp add: i)
  show "\<not> blocked es' par f \<Longrightarrow> lww (demo_hlc n) (js_get (records s) ''07'') = Applied \<Longrightarrow>
     fst (ingest demo_config (demo_world 9) ?r allow s) = Inr Applied" by (simp add: i)
  have inv': "engine_inv demo_config (snd (ingest demo_config (demo_world 9) ?r allow s))"
    by (rule ingest_inv[OF inv])
  have q: "lww (demo_hlc n) (js_get (records s) ''07'') \<noteq> Applied \<Longrightarrow> queue_offer c ?r = c"
    "lww (demo_hlc n) (js_get (records s) ''07'') = Applied \<Longrightarrow> queue_offer c ?r = Some ?r"
    using c hl by (auto simp: cookie_state_def stored_wire_def lww_def queue_offer_def Let_def split: option.splits if_splits)
  show "cookie_state (snd (ingest demo_config (demo_world 9) ?r allow s))
      (if blocked es' par f then c else queue_offer c ?r) f es'
      (if blocked es' par f \<and> allow then queue_offer q ?r else q)"
    using lc inv' u(2) q unfolding cookie_state_def i
    by (auto simp: stored_wire_def park_get frame_simps book_def engine_store_def stored_form_def)
qed

lemma write_applied:
  fixes par :: "string option"
  assumes c: "cookie_state s c f es q" and f: "df_hlc f < demo_hlc n"
  defines "es' \<equiv> add_edge es (tok n) par"
  defines "q' \<equiv> (if blocked es' par f then queue_offer q (demo_wire n par WRITE) else q)"
  assumes still: "\<And>w. q' = Some w \<Longrightarrow> \<exists>m p. w = demo_wire m p WRITE \<and> df_hlc f < demo_hlc m \<and> blocked es' p f"
  shows "\<exists>d t. applyOne demo_config (demo_world 9) (demo_wire n par WRITE) s = (Inr d, t) \<and>
    cookie_state t (if blocked es' par f then c else queue_offer c (demo_wire n par WRITE)) f es' q'"
proof -
  let ?r = "demo_wire n par WRITE"
  obtain d t where t: "ingest demo_config (demo_world 9) ?r True s = (Inr d, t)"
    using write_ingested(2)[OF c f, of par True] by (metis prod.collapse)
  have ct: "cookie_state t (if blocked es' par f then c else queue_offer c ?r) f es' q'"
    using write_ingested(1)[OF c f, of par True] t by (simp add: es'_def q'_def)
  have "retryParked demo_config (demo_world 9) ''07'' t = (Inr (), t)"
  proof (cases q')
    case None
    then show ?thesis using ct by (simp add: retryParked_def cookie_state_def)
  next
    case (Some w)
    then obtain m p where m: "w = demo_wire m p WRITE" "df_hlc f < demo_hlc m" "blocked es' p f"
      using still by blast
    then have "js_get (parked t) ''07'' = Some (demo_wire m p WRITE)" using ct Some by (simp add: cookie_state_def)
    then show ?thesis using resolve_write[OF ct m(2), of p] m(3) by (simp add: retryParked_def)
  qed
  then show ?thesis using t ct by (simp add: applyOne_def)
qed

lemma applyRemote_step:
  assumes "applyOne cf wd r s = (Inr d, t)"
  shows "snd (applyRemote cf wd (r # rs) s) = snd (applyRemote cf wd rs t)"
  using assms by (simp split: prod.split sum.split)

lemma deletion_applied:
  "\<exists>d t. applyOne demo_config (demo_world 9) (demo_wire 2 None EXPLICIT_DELETE) (new_engine ''c'') = (Inr d, t) \<and>
    cookie_state t (Some (demo_wire 2 None EXPLICIT_DELETE)) \<lparr>df_hlc = demo_hlc 2, df_token = tok 2\<rparr> [(tok 2, None)] None"
proof -
  let ?r = "demo_wire 2 None EXPLICIT_DELETE" and ?s = "new_engine ''c''"
  let ?l = "learn (demo_world 9) ?r demo_plain ?s"
  have acc: "accepts demo_config ?r demo_plain" by (rule demo_accepts) simp
  have u: "unfenced ?s ?r" by (simp add: unfenced_def new_engine_def)
  have "ready [?r] ?s" by (rule ready_new) (simp add: causes_plain_def)
  then have rd: "tombs_below ?s" "parked ?s = []" by (simp_all add: ready_def)
  obtain d t where t: "applyOne demo_config (demo_world 9) ?r ?s = (Inr d, t)" "engine_inv demo_config t"
    "parked t = []" "stored_wire t ''07'' = queue_offer (stored_wire ?s ''07'') ?r"
    using applyOne_lww[OF acc u rd(1) demo_applies engine_inv_new rd(2), of 9] by auto
  have v: "verdict (demo_world 9) ?r demo_plain ?s = Applied"
    by (simp add: verdict_lww[OF u]) (simp add: lww_def new_engine_def)
  have l: "fences ?l = [(''07'', \<lparr>df_hlc = demo_hlc 2, df_token = tok 2\<rparr>)]"
    "ancestry ?l = [(''07'', [(tok 2, None)])]"
    by (simp_all add: learn_def frame_simps noteFence_def noteAncestry_def add_edge_def new_engine_def
        MAX_ANCESTRY_EDGES_def Let_def)
  obtain w x where w: "winner_of ?r demo_plain ?l = (w, x)" by fastforce
  obtain y where y: "apply_winner demo_config (demo_world 9) w x ?l = (Inr Applied, engine_store (wd_now (demo_world 9)) w x y)"
    "book y = book ?l" using apply_winner_store[OF demo_applies] by blast
  have i: "ingest demo_config (demo_world 9) ?r True ?s = (Inr Applied, engine_store (wd_now (demo_world 9)) w x y)"
    by (simp add: ingest_accepted[OF acc] v learned_def w y(1))
  have "parked (engine_store (wd_now (demo_world 9)) w x y) = []"
    using y(2) by (simp add: frame_simps book_def new_engine_def)
  then have "t = engine_store (wd_now (demo_world 9)) w x y"
    using t(1) i by (simp add: applyOne_def retryParked_def)
  then have "fences t = fences ?l" "ancestry t = ancestry ?l" using y(2) by (simp_all add: frame_simps book_def)
  moreover have "stored_wire ?s ''07'' = None" by (simp add: stored_wire_def new_engine_def)
  ultimately show ?thesis
    using t l by (auto simp: cookie_state_def queue_offer_def)
qed

lemma walk_none [simp]: "blocked es None f"
  by (simp add: blocked_def)

lemma descent_loop_step:
  "descent_loop (numeral n) edges (Some token) fence =
     (if token = df_token fence then Descends
      else (case parseVersionToken token of
              Inl _ \<Rightarrow> Unknown
            | Inr (_, h) \<Rightarrow>
                if compareHlc h (df_hlc fence) < 0 then Predates
                else (case edges of None \<Rightarrow> Unknown
                      | Some es \<Rightarrow> (case js_get es token of None \<Rightarrow> Unknown
                          | Some parent \<Rightarrow> descent_loop (pred_numeral n) edges parent fence))))"
  by (simp add: numeral_eq_Suc)

abbreviation fence2 :: DeleteFence where
  "fence2 \<equiv> \<lparr>df_hlc = demo_hlc 2, df_token = tok 2\<rparr>"

lemma edges_2345:
  "add_edge [(tok 2, None)] (tok 3) (Some (tok 2)) = [(tok 2, None), (tok 3, Some (tok 2))]"
  "add_edge [(tok 2, None), (tok 3, Some (tok 2))] (tok 4) (Some (tok 3)) =
     [(tok 2, None), (tok 3, Some (tok 2)), (tok 4, Some (tok 3))]"
  "add_edge [(tok 2, None), (tok 3, Some (tok 2)), (tok 4, Some (tok 3))] (tok 5) None =
     [(tok 2, None), (tok 3, Some (tok 2)), (tok 4, Some (tok 3)), (tok 5, None)]"
  "add_edge [(tok 2, None)] (tok 4) (Some (tok 3)) = [(tok 2, None), (tok 4, Some (tok 3))]"
  "add_edge [(tok 2, None), (tok 4, Some (tok 3))] (tok 5) None =
     [(tok 2, None), (tok 4, Some (tok 3)), (tok 5, None)]"
  "add_edge [(tok 2, None), (tok 4, Some (tok 3)), (tok 5, None)] (tok 3) (Some (tok 2)) =
     [(tok 2, None), (tok 4, Some (tok 3)), (tok 5, None), (tok 3, Some (tok 2))]"
  by (simp_all add: add_edge_def MAX_ANCESTRY_EDGES_def Let_def)

lemma walks:
  "\<not> blocked es (Some (tok 2)) fence2"
  "\<not> blocked [(tok 2, None), (tok 3, Some (tok 2)), (tok 4, Some (tok 3))] (Some (tok 3)) fence2"
  "blocked [(tok 2, None), (tok 4, Some (tok 3))] (Some (tok 3)) fence2"
  by (simp_all add: blocked_def descent_loop_step)

text \<open>
  C35. The verdict is not a function of the record set: the same four accepted records of one cookie
  (an explicit deletion, two writes that descend from it, a write that does not) leave the second
  descendant stored in one order of delivery and the first in another, because only the newest
  blocked write is parked and the one it displaces is never judged again.
\<close>

theorem delivery_order_matters:
  "stored_wire (snd (applyRemote demo_config (demo_world 9)
      [demo_wire 2 None EXPLICIT_DELETE, demo_wire 3 (Some (tok 2)) WRITE, demo_wire 4 (Some (tok 3)) WRITE,
       demo_wire 5 None WRITE] (new_engine ''c''))) ''07'' = Some (demo_wire 4 (Some (tok 3)) WRITE) \<and>
   stored_wire (snd (applyRemote demo_config (demo_world 9)
      [demo_wire 2 None EXPLICIT_DELETE, demo_wire 4 (Some (tok 3)) WRITE, demo_wire 5 None WRITE,
       demo_wire 3 (Some (tok 2)) WRITE] (new_engine ''c''))) ''07'' = Some (demo_wire 3 (Some (tok 2)) WRITE)"
proof -
  obtain d s where s: "applyOne demo_config (demo_world 9) (demo_wire 2 None EXPLICIT_DELETE) (new_engine ''c'') = (Inr d, s)"
    "cookie_state s (Some (demo_wire 2 None EXPLICIT_DELETE)) fence2 [(tok 2, None)] None"
    using deletion_applied by blast
  have late: "df_hlc fence2 < demo_hlc 3" "df_hlc fence2 < demo_hlc 4" "df_hlc fence2 < demo_hlc 5" by simp_all
  obtain d3 s3 where s3: "applyOne demo_config (demo_world 9) (demo_wire 3 (Some (tok 2)) WRITE) s = (Inr d3, s3)"
    "cookie_state s3 (Some (demo_wire 3 (Some (tok 2)) WRITE)) fence2 [(tok 2, None), (tok 3, Some (tok 2))] None"
    using write_applied[OF s(2) late(1), of "Some (tok 2)"] by (auto simp: edges_2345 walks queue_offer_def)
  obtain d4 s4 where s4: "applyOne demo_config (demo_world 9) (demo_wire 4 (Some (tok 3)) WRITE) s3 = (Inr d4, s4)"
    "cookie_state s4 (Some (demo_wire 4 (Some (tok 3)) WRITE)) fence2
       [(tok 2, None), (tok 3, Some (tok 2)), (tok 4, Some (tok 3))] None"
    using write_applied[OF s3(2) late(2), of "Some (tok 3)"] by (auto simp: edges_2345 walks queue_offer_def)
  obtain d5 s5 where s5: "applyOne demo_config (demo_world 9) (demo_wire 5 None WRITE) s4 = (Inr d5, s5)"
    "stored_wire s5 ''07'' = Some (demo_wire 4 (Some (tok 3)) WRITE)"
    using write_applied[OF s4(2) late(3), of None] by (fastforce simp: edges_2345 queue_offer_def cookie_state_def)
  obtain e4 t4 where t4: "applyOne demo_config (demo_world 9) (demo_wire 4 (Some (tok 3)) WRITE) s = (Inr e4, t4)"
    "cookie_state t4 (Some (demo_wire 2 None EXPLICIT_DELETE)) fence2 [(tok 2, None), (tok 4, Some (tok 3))]
       (Some (demo_wire 4 (Some (tok 3)) WRITE))"
    using write_applied[OF s(2) late(2), of "Some (tok 3)"] by (fastforce simp: edges_2345 walks queue_offer_def)
  obtain e5 t5 where t5: "applyOne demo_config (demo_world 9) (demo_wire 5 None WRITE) t4 = (Inr e5, t5)"
    "cookie_state t5 (Some (demo_wire 2 None EXPLICIT_DELETE)) fence2
       [(tok 2, None), (tok 4, Some (tok 3)), (tok 5, None)] (Some (demo_wire 5 None WRITE))"
    using write_applied[OF t4(2) late(3), of None] by (fastforce simp: edges_2345 queue_offer_def)
  obtain e3 t3 where t3: "applyOne demo_config (demo_world 9) (demo_wire 3 (Some (tok 2)) WRITE) t5 = (Inr e3, t3)"
    "stored_wire t3 ''07'' = Some (demo_wire 3 (Some (tok 2)) WRITE)"
    using write_applied[OF t5(2) late(1), of "Some (tok 2)"]
    by (fastforce simp: edges_2345 walks queue_offer_def cookie_state_def)
  show ?thesis
    by (simp only: applyRemote_step[OF s(1)] applyRemote_step[OF s3(1)] applyRemote_step[OF s4(1)]
        applyRemote_step[OF s5(1)] applyRemote_step[OF t4(1)] applyRemote_step[OF t5(1)]
        applyRemote_step[OF t3(1)]) (simp add: s5(2) t3(2))
qed

lemma applied_write_descends_witness:
  "\<exists>s. fst (ingest demo_config (demo_world 9) (demo_wire 3 (Some (tok 2)) WRITE) True s) = Inr Applied \<and>
    (tok 2, tok 2) \<in> (edge_rel (js_get (ancestry (noteAncestry (demo_wire 3 (Some (tok 2)) WRITE) s)) ''07''))\<^sup>*"
proof -
  obtain d s where s: "cookie_state s (Some (demo_wire 2 None EXPLICIT_DELETE)) fence2 [(tok 2, None)] None"
    using deletion_applied by blast
  have late: "df_hlc fence2 < demo_hlc 3" by simp
  obtain x where x: "js_get (records s) ''07'' = Some x" "st_wire x = demo_wire 2 None EXPLICIT_DELETE"
    using s by (auto simp: cookie_state_def stored_wire_def)
  then have "st_hlc x = demo_hlc 2"
    using s by (auto simp: cookie_state_def engine_inv_def maps_ok_def record_ok_def dest: js_allD)
  then have "lww (demo_hlc 3) (js_get (records s) ''07'') = Applied" using x(1) by (simp add: lww_def)
  then have a: "fst (ingest demo_config (demo_world 9) (demo_wire 3 (Some (tok 2)) WRITE) True s) = Inr Applied"
    using write_ingested(3)[OF s late, of "Some (tok 2)" True] by (simp add: walks)
  have f: "js_get (fences s) (w_recordId (demo_wire 3 (Some (tok 2)) WRITE)) = Some fence2"
    using s by (simp add: cookie_state_def)
  show ?thesis
    using applied_write_descends[OF a _ f] a by auto
qed

lemma fences_persist_witness:
  "\<exists>s. fenced (engine_run demo_config s [(demo_world 9, OpOnline False), (demo_world 9, OpRemote [demo_wire 3 None WRITE])])
     ''07'' (demo_hlc 2)"
proof -
  obtain d s where s: "cookie_state s (Some (demo_wire 2 None EXPLICIT_DELETE)) fence2 [(tok 2, None)] None"
    using deletion_applied by blast
  then have "fenced s ''07'' (demo_hlc 2)" by (simp add: fenced_def cookie_state_def)
  from fences_persist[OF _ this, of "[(demo_world 9, OpOnline False), (demo_world 9, OpRemote [demo_wire 3 None WRITE])]"]
  show ?thesis by auto
qed

lemma passive_deletion_stays_local_witness:
  "published (snd (localChange demo_config (demo_world 9) example_identity None True ''explicit'' False (new_engine ''c''))) = []"
proof -
  have l: "local_only demo_config (demo_world 9) example_identity EXPLICIT_DELETE False (new_engine ''c'')"
  proof -
    have "op_rotatingAuth (matchOriginPolicy (cf_policies demo_config) (normalizedHost (ci_hostKey example_identity)))"
      by code_simp
    then show ?thesis by (simp add: local_only_def new_engine_def)
  qed
  have c: "causeForChange ''explicit'' True = Some EXPLICIT_DELETE" by (simp add: causeForChange_def)
  obtain x u where u: "localChange demo_config (demo_world 9) example_identity None True ''explicit'' False (new_engine ''c'') = (x, u)"
    by fastforce
  show ?thesis
    using passive_deletion_stays_local[OF engine_inv_new c l u] u by (simp add: published_def new_engine_def)
qed

section \<open>Collection\<close>

text \<open>A deletion older than the retention window.\<close>

definition outlived :: "config \<Rightarrow> nat \<Rightarrow> engine \<Rightarrow> string \<Rightarrow> bool" where
  "outlived cf now s k \<longleftrightarrow> (\<exists>r t. js_get (records s) k = Some r \<and> st_cause r \<in> DELETION_CAUSES \<and>
     st_tombstonedAtMs r = Some t \<and> t + cf_tombstoneRetentionMs cf < now)"

definition unless_gone :: "bool \<Rightarrow> 'a option \<Rightarrow> 'a option" where
  "unless_gone gone v = (if gone then None else v)"

lemma fold_forget:
  "js_get (records (fold forget ks s)) k = (if k \<in> set ks then None else js_get (records s) k)"
  "js_get (fences (fold forget ks s)) k = (if k \<in> set ks then None else js_get (fences s) k)"
  "js_get (latestTombstones (fold forget ks s)) k = (if k \<in> set ks then None else js_get (latestTombstones s) k)"
  "js_get (ancestry (fold forget ks s)) k = (if k \<in> set ks then None else js_get (ancestry s) k)"
  "js_get (parked (fold forget ks s)) k = (if k \<in> set ks then None else js_get (parked s) k)"
  by (induction ks arbitrary: s) (auto simp: forget_def)

lemma collected_ids:
  assumes "engine_inv cf s"
  shows "k \<in> set (map fst (filter (\<lambda>(k, r). collectable cf now r) (records s))) \<longleftrightarrow> outlived cf now s k"
proof -
  have rec: "js_all (record_ok cf) (records s)" using assms by (simp add: engine_inv_def maps_ok_def)
  have "k \<in> set (map fst (filter (\<lambda>(k, r). collectable cf now r) (records s))) \<longleftrightarrow>
      (\<exists>r. js_get (records s) k = Some r \<and> collectable cf now r)"
    using js_wf_get[OF js_all_wf[OF rec]] by force
  also have "\<dots> \<longleftrightarrow> outlived cf now s k"
    using js_allD[OF rec] by (fastforce simp: outlived_def collectable_def record_ok_def split: option.splits)
  finally show ?thesis .
qed

text \<open>
  Collection forgets exactly the deletions that outlived the retention window: of each such
  cookie the record, the fence, the newest tombstone, the ancestry and the parked write are gone, and
  every other cookie, live or recently deleted, keeps all five.
\<close>

theorem collection_exact:
  assumes "engine_inv cf s"
  shows "let t = snd (gcTombstones cf now s); gone = outlived cf now s k in
    js_get (records t) k = unless_gone gone (js_get (records s) k) \<and>
    js_get (fences t) k = unless_gone gone (js_get (fences s) k) \<and>
    js_get (latestTombstones t) k = unless_gone gone (js_get (latestTombstones s) k) \<and>
    js_get (ancestry t) k = unless_gone gone (js_get (ancestry s) k) \<and>
    js_get (parked t) k = unless_gone gone (js_get (parked s) k)"
  using collected_ids[OF assms, of k now] by (simp add: gcTombstones_def fold_forget unless_gone_def Let_def)

lemma collection_exact_witness:
  "\<exists>s. js_get (records (snd (gcTombstones demo_config 1009 s))) ''07'' \<noteq> None \<and>
     js_get (records (snd (gcTombstones demo_config 1010 s))) ''07'' = None"
proof -
  let ?w = "demo_wire 2 None EXPLICIT_DELETE"
  let ?n = "noted ?w demo_plain (newHlcClock ''c'') (new_engine ''c'')"
  let ?s = "engine_store 9 ?w demo_plain ?n"
  have b: "identityBound demo_config ?w demo_plain" by (simp add: demo_wire_def)
  have inv: "engine_inv demo_config ?s"
    by (rule store_inv) (use b noted_inv[OF engine_inv_new b] in auto)
  have r: "js_get (records ?s) ''07'' = Some (stored_form 9 ?w demo_plain)" by (simp add: engine_store_def)
  have "outlived demo_config n ?s ''07'' \<longleftrightarrow> 1009 < n" for n
    unfolding outlived_def r by (auto simp: stored_form_def demo_config_def)
  then show ?thesis
    using collection_exact[OF inv, of 1009 "''07''"] collection_exact[OF inv, of 1010 "''07''"] r
    by (auto simp: Let_def unless_gone_def intro!: exI[of _ ?s])
qed

section \<open>The offline queue and lease recovery\<close>

lemma drain_loop_online:
  assumes "online s" "list_all (\<lambda>w. \<exists>b. wireNeedsLease cf w = Inr b) ws"
  shows "fst (drain_loop cf wd ws s) = Inr () \<and> published (snd (drain_loop cf wd ws s)) = published s @ ws \<and>
    queue (snd (drain_loop cf wd ws s)) = queue s"
  using assms
proof (induction ws arbitrary: s)
  case (Cons w ws)
  have "online (snd (ensureLease cf wd a s)) = online s \<and> published (snd (ensureLease cf wd a s)) = published s \<and>
      queue (snd (ensureLease cf wd a s)) = queue s" for a
    by (auto simp: ensureLease_def acquireLease_def emit_def published_def Let_def split: option.split)
  moreover have "online (emit e t) = online t" "queue (emit e t) = queue t" for e t by (simp_all add: emit_def)
  ultimately show ?case
    using Cons.prems Cons.IH by (auto simp: Let_def split: sum.split)
qed simp


text \<open>
  A rejected publish is retried only for this device's own newest version of a live cookie, only
  when the hub asked for a lease, and only once the forced lease is granted; otherwise nothing is
  published, and a retry that cannot be granted now is queued.
\<close>

theorem rejection_retry_scoped:
  "let t = publishRejected cf wd k reason s in
    published t = published s \<or>
    (\<exists>c. published t = published s @ [st_wire c] \<and> js_get (records s) k = Some c \<and> reason = LeaseRequired \<and>
       deviceId (st_hlc c) = cf_signer cf \<and> (st_cause c = WRITE \<or> st_cause c = OVERWRITE \<or> st_cause c = HYDRATION_ECHO) \<and>
       wd_grants wd (st_originId c) True \<and> online s)"
proof -
  have d: "c \<notin> DELETION_CAUSES \<Longrightarrow> c = WRITE \<or> c = OVERWRITE \<or> c = HYDRATION_ECHO" for c
    using not_deletion_cases by blast
  have e: "published (s\<lparr>retryingLeaseRejections := l\<rparr>) = published s" "published (s\<lparr>queue := q\<rparr>) = published s"
    "published (s\<lparr>grantedLeases := g\<rparr>) = published s" for l q g s by (simp_all add: published_def)
  show ?thesis
    by (cases "js_get (records s) k")
      (use d in \<open>auto simp: publishRejected_def acquireLease_def e Let_def split_beta\<close>)
qed


end
