(* ===== verification/Hub.thy ===== *)
theory Hub
  imports Messages Corpus "HOL-Library.Multiset"
begin

text \<open>
  The session hub (services/sessionhub/src/hub-core.ts): one per user, it routes and orders sealed
  records.  Its storage is the \<open>HubStorage\<close> interface; what stands for it here is the
  repository's own in-memory provider (services/sessionhub/test/helpers.ts), and the locale
  \<open>hub_storage\<close> states what the hub relies on: a map whose prefix listing is complete and in
  the order of keys.  A value is tagged with the type its key is used at; keys of different types
  have different first letters, so no get meets a value of another type.  A handler runs whole; what
  it sends and closes is appended to the hub's output.
\<close>

section \<open>Storage\<close>

record LeaseEntry =
  le_spaceId :: string
  le_originId :: string
  le_holderDeviceId :: string
  le_expiresAtMs :: nat

record PresenceEntry =
  pe_deviceId :: string
  pe_lastSeenMs :: nat

datatype hub_value =
    VRecord CookieRecordWire
  | VStamp hlc
  | VLease LeaseEntry
  | VDoc WorkspaceRecordWire
  | VPresence PresenceEntry
  | VWindow "nat list"
  | VSpaces "string list"
  | VTrue

type_synonym 'v kv_store = "(string, 'v) js_map"

type_synonym hub_store = "hub_value kv_store"

definition st_get :: "'v kv_store \<Rightarrow> string \<Rightarrow> 'v option" where
  "st_get st key = js_get st key"

definition st_put :: "'v kv_store \<Rightarrow> string \<Rightarrow> 'v \<Rightarrow> 'v kv_store" where
  "st_put st key v = js_set st key v"

definition st_delete :: "'v kv_store \<Rightarrow> string \<Rightarrow> 'v kv_store" where
  "st_delete st key = js_del st key"

definition st_list :: "'v kv_store \<Rightarrow> string \<Rightarrow> (string \<times> 'v) list" where
  "st_list st p = filter (\<lambda>(k, v). prefix p k) (sort_key fst st)"

fun as_record :: "hub_value \<Rightarrow> CookieRecordWire option" where
  "as_record (VRecord r) = Some r"
| "as_record _ = None"

fun as_stamp :: "hub_value \<Rightarrow> hlc option" where
  "as_stamp (VStamp h) = Some h"
| "as_stamp _ = None"

fun as_lease :: "hub_value \<Rightarrow> LeaseEntry option" where
  "as_lease (VLease l) = Some l"
| "as_lease _ = None"

fun as_doc :: "hub_value \<Rightarrow> WorkspaceRecordWire option" where
  "as_doc (VDoc d) = Some d"
| "as_doc _ = None"

fun as_presence :: "hub_value \<Rightarrow> PresenceEntry option" where
  "as_presence (VPresence p) = Some p"
| "as_presence _ = None"

fun as_window :: "hub_value \<Rightarrow> nat list option" where
  "as_window (VWindow w) = Some w"
| "as_window _ = None"

fun as_spaces :: "hub_value \<Rightarrow> string list option" where
  "as_spaces (VSpaces ss) = Some ss"
| "as_spaces _ = None"

definition get_as :: "(hub_value \<Rightarrow> 'a option) \<Rightarrow> hub_store \<Rightarrow> string \<Rightarrow> 'a option" where
  "get_as as st key = Option.bind (st_get st key) as"

definition list_as :: "(hub_value \<Rightarrow> 'a option) \<Rightarrow> hub_store \<Rightarrow> string \<Rightarrow> (string \<times> 'a) list" where
  "list_as as st p = List.map_filter (\<lambda>(k, v). map_option (Pair k) (as v)) (st_list st p)"

section \<open>Constants and keys\<close>

definition HYDRATE_CHUNK_SIZE :: nat where "HYDRATE_CHUNK_SIZE = 256"

definition RATE_WINDOW_MS :: int where "RATE_WINDOW_MS = 60000"

definition MAX_LEASE_TTL_MS :: nat where "MAX_LEASE_TTL_MS = ORIGIN_LEASE_TTL_MS * 5"

definition MAX_RECORD_HISTORY :: nat where "MAX_RECORD_HISTORY = 8"

definition MAX_DECLARED_SPACES :: nat where "MAX_DECLARED_SPACES = 64"

definition CLOSE_REVOKED :: nat where "CLOSE_REVOKED = 4003"

definition recKey :: "string \<Rightarrow> string \<Rightarrow> string" where
  "recKey spaceId recordId = ''rec:'' @ spaceId @ '':'' @ recordId"

definition histPrefix :: "string \<Rightarrow> string \<Rightarrow> string" where
  "histPrefix spaceId recordId = ''hist:'' @ spaceId @ '':'' @ recordId @ '':''"

definition histKey :: "string \<Rightarrow> string \<Rightarrow> hlc \<Rightarrow> string" where
  "histKey spaceId recordId h = ''hist:'' @ spaceId @ '':'' @ recordId @ '':'' @ encodeHlc h"

definition wmKey :: "string \<Rightarrow> string" where "wmKey spaceId = ''wm:'' @ spaceId"

definition leaseKey :: "string \<Rightarrow> string \<Rightarrow> string" where
  "leaseKey spaceId originId = ''lease:'' @ spaceId @ '':'' @ originId"

definition workspaceKey :: "string \<Rightarrow> string" where "workspaceKey key = ''ws:'' @ key"

definition presenceKey :: "string \<Rightarrow> string" where "presenceKey dev = ''presence:'' @ dev"

definition rateKey :: "string \<Rightarrow> string \<Rightarrow> string" where
  "rateKey dev originId = ''rl:'' @ dev @ '':'' @ originId"

definition legacyConnKey :: "string \<Rightarrow> string" where "legacyConnKey dev = ''conn:'' @ dev"

definition connPrefix :: "string \<Rightarrow> string" where "connPrefix dev = ''conn:'' @ dev @ '':''"

definition connectionStorageKey :: "string \<Rightarrow> string \<Rightarrow> string" where
  "connectionStorageKey dev connectionId = connPrefix dev @ connectionId"

definition revokedKey :: "string \<Rightarrow> string" where "revokedKey dev = ''revoked:'' @ dev"

section \<open>Connections and output\<close>

record HubConnection =
  cn_deviceId :: "string option"
  cn_connectionId :: string
  cn_spaceIds :: "string list"

text \<open>What goes to the socket of a connection, named by its id.\<close>

datatype hub_out = HSend string ServerMessage | HClose string nat string

record hub =
  hb_store :: hub_store
  hb_out :: "hub_out list"

definition hub_emit :: "hub_out list \<Rightarrow> hub \<Rightarrow> hub" where
  "hub_emit os h = h\<lparr>hb_out := hb_out h @ os\<rparr>"

definition to_conn :: "HubConnection \<Rightarrow> ServerMessage \<Rightarrow> hub_out" where
  "to_conn c m = HSend (cn_connectionId c) m"

definition to_all :: "HubConnection list \<Rightarrow> ServerMessage \<Rightarrow> hub_out list" where
  "to_all cs m = map (\<lambda>c. to_conn c m) cs"

definition connectionBindings :: "string \<Rightarrow> hub_store \<Rightarrow> (string \<times> string list) list" where
  "connectionBindings dev st = list_as as_spaces st (connPrefix dev)"

definition declaredSpaces :: "string \<Rightarrow> string \<Rightarrow> hub_store \<Rightarrow> string list" where
  "declaredSpaces dev connectionId st =
     (case get_as as_spaces st (connectionStorageKey dev connectionId) of
        Some current \<Rightarrow> current
      | None \<Rightarrow> (case get_as as_spaces st (legacyConnKey dev) of None \<Rightarrow> [] | Some ss \<Rightarrow> ss))"

definition isRevoked :: "string \<Rightarrow> hub_store \<Rightarrow> bool" where
  "isRevoked dev st \<longleftrightarrow> st_get st (revokedKey dev) \<noteq> None"

section \<open>Hello, presence, close, revocation\<close>

definition presence_of :: "PresenceEntry \<Rightarrow> bool \<Rightarrow> DevicePresence" where
  "presence_of e on = \<lparr>dp_deviceId = pe_deviceId e, dp_online = on, dp_lastSeenMs = pe_lastSeenMs e\<rparr>"

definition presenceSnapshot :: "HubConnection list \<Rightarrow> hub_store \<Rightarrow> DevicePresence list" where
  "presenceSnapshot connected st =
     (let onl = List.map_filter cn_deviceId connected
      in map (\<lambda>(k, e). presence_of e (pe_deviceId e \<in> set onl)) (list_as as_presence st ''presence:''))"

definition handleHello ::
  "nat \<Rightarrow> HubConnection \<Rightarrow> string \<Rightarrow> string list \<Rightarrow> HubConnection list \<Rightarrow> hub \<Rightarrow> HubConnection \<times> hub" where
  "handleHello now sender claimed spaceIds others h =
     (let dev = (case cn_deviceId sender of Some d \<Rightarrow> d | None \<Rightarrow> claimed)
      in if isRevoked dev (hb_store h) then
           (sender, hub_emit [HClose (cn_connectionId sender) CLOSE_REVOKED ''revoked''] h)
         else if length spaceIds > MAX_DECLARED_SPACES then
           (sender, hub_emit [to_conn sender (ErrorMsg ''too_many_spaces'' ''declare at most 64 spaces'')] h)
         else
           (let sender' = sender\<lparr>cn_deviceId := Some dev, cn_spaceIds := spaceIds\<rparr>;
                st1 = st_put (hb_store h) (connectionStorageKey dev (cn_connectionId sender)) (VSpaces spaceIds);
                entry = \<lparr>pe_deviceId = dev, pe_lastSeenMs = now\<rparr>;
                st2 = st_put st1 (presenceKey dev) (VPresence entry);
                presence = presenceSnapshot (sender' # others) st2
            in (sender',
                hub_emit (to_conn sender' (HelloAck now presence) # to_all others (Presence [presence_of entry True]))
                  (h\<lparr>hb_store := st2\<rparr>))))"

definition release_all :: "string \<Rightarrow> hub_store \<Rightarrow> hub_store" where
  "release_all dev st =
     foldl st_delete st (map fst (filter (\<lambda>(k, l). le_holderDeviceId l = dev) (list_as as_lease st ''lease:'')))"

definition handleClose :: "nat \<Rightarrow> HubConnection \<Rightarrow> HubConnection list \<Rightarrow> hub \<Rightarrow> hub" where
  "handleClose now conn others h =
     (case cn_deviceId conn of
        None \<Rightarrow> h
      | Some dev \<Rightarrow>
          (let st1 = st_delete (hb_store h) (connectionStorageKey dev (cn_connectionId conn));
               h1 = h\<lparr>hb_store := st1\<rparr>
           in if list_ex (\<lambda>peer. cn_deviceId peer = Some dev) others then h1
              else if isRevoked dev st1 then h1
              else if connectionBindings dev st1 \<noteq> [] then h1
              else
                (let st2 = release_all dev st1
                 in if connectionBindings dev st2 \<noteq> [] then h1\<lparr>hb_store := st2\<rparr>
                    else
                      (let st3 = st_delete st2 (legacyConnKey dev);
                           entry = \<lparr>pe_deviceId = dev, pe_lastSeenMs = now\<rparr>
                       in hub_emit (to_all others (Presence [presence_of entry False]))
                            (h1\<lparr>hb_store := st_put st3 (presenceKey dev) (VPresence entry)\<rparr>)))))"

definition revokeDevice ::
  "nat \<Rightarrow> string \<Rightarrow> HubConnection list \<Rightarrow> hub \<Rightarrow> HubConnection list \<times> hub" where
  "revokeDevice now dev connections h =
     (let st1 = st_delete (st_put (hb_store h) (revokedKey dev) VTrue) (legacyConnKey dev);
          st2 = foldl st_delete st1 (map fst (connectionBindings dev st1));
          st3 = st_delete st2 (presenceKey dev);
          update = \<lparr>dp_deviceId = dev, dp_online = False, dp_lastSeenMs = now\<rparr>
      in (filter (\<lambda>c. cn_deviceId c = Some dev) connections,
          hub_emit (to_all (filter (\<lambda>c. cn_deviceId c \<noteq> Some dev) connections) (Presence [update]))
            (h\<lparr>hb_store := st3\<rparr>)))"

section \<open>Publish\<close>

definition appendHistory :: "CookieRecordWire \<Rightarrow> hub_store \<Rightarrow> hub_store" where
  "appendHistory r st =
     (let st1 = st_put st (histKey (w_spaceId r) (w_recordId r) (w_hlc r)) (VRecord r);
          versions = st_list st1 (histPrefix (w_spaceId r) (w_recordId r));
          excess = length versions - MAX_RECORD_HISTORY
      in foldl st_delete st1 (take excess (map fst versions)))"

record publish_run =
  pl_store :: hub_store
  pl_accepted :: "string list"
  pl_rejected :: "PublishRejection list"
  pl_bySpace :: "(string, CookieRecordWire list) js_map"
  pl_windows :: "(string, nat list) js_map"
  pl_limited :: bool

definition refuse :: "CookieRecordWire \<Rightarrow> RejectReason \<Rightarrow> publish_run \<Rightarrow> publish_run" where
  "refuse r reason p = p\<lparr>pl_rejected := pl_rejected p @ [\<lparr>pr_recordId = w_recordId r, pr_reason = reason\<rparr>]\<rparr>"

definition trimmed :: "nat \<Rightarrow> nat list \<Rightarrow> nat list" where
  "trimmed now window = dropWhile (\<lambda>t. int t \<le> int now - RATE_WINDOW_MS) window"

text \<open>The rate window of a record's origin, read once per batch and trimmed.\<close>

definition window_of :: "nat \<Rightarrow> string \<Rightarrow> CookieRecordWire \<Rightarrow> publish_run \<Rightarrow> nat list" where
  "window_of now dev r p =
     (let rk = rateKey dev (w_originId r)
      in trimmed now (case js_get (pl_windows p) rk of
           Some w \<Rightarrow> w
         | None \<Rightarrow> (case get_as as_window (pl_store p) rk of None \<Rightarrow> [] | Some w \<Rightarrow> w)))"

definition accept_record :: "nat \<Rightarrow> string \<Rightarrow> CookieRecordWire \<Rightarrow> publish_run \<Rightarrow> publish_run" where
  "accept_record now dev r p =
     (let sp = w_spaceId r
      in p\<lparr>pl_windows := js_set (pl_windows p) (rateKey dev (w_originId r)) (window_of now dev r p @ [now]),
           pl_store := appendHistory r (st_put (pl_store p) (recKey sp (w_recordId r)) (VRecord r)),
           pl_accepted := pl_accepted p @ [w_recordId r],
           pl_bySpace := js_set (pl_bySpace p) sp
             ((case js_get (pl_bySpace p) sp of None \<Rightarrow> [] | Some g \<Rightarrow> g) @ [r])\<rparr>)"

definition foreign_lease :: "nat \<Rightarrow> string \<Rightarrow> LeaseEntry option \<Rightarrow> bool" where
  "foreign_lease now dev lease =
     (case lease of None \<Rightarrow> False | Some l \<Rightarrow> le_holderDeviceId l \<noteq> dev \<and> le_expiresAtMs l > now)"

definition publish_one ::
  "nat \<Rightarrow> string \<Rightarrow> string list \<Rightarrow> publish_run \<Rightarrow> CookieRecordWire \<Rightarrow> publish_run" where
  "publish_one now dev declared p r =
     (if w_spaceId r \<notin> set declared then refuse r Malformed p
      else if foreign_lease now dev (get_as as_lease (pl_store p) (leaseKey (w_spaceId r) (w_originId r)))
      then refuse r LeaseRequired p
      else if (case get_as as_record (pl_store p) (recKey (w_spaceId r) (w_recordId r)) of
                 None \<Rightarrow> False | Some stored \<Rightarrow> compareHlc (w_hlc stored) (w_hlc r) \<ge> 0)
      then refuse r Stale p
      else if length (window_of now dev r p) \<ge> MAX_MUTATIONS_PER_ORIGIN_PER_MINUTE then
        refuse r Stale (p\<lparr>pl_limited := True,
          pl_windows := js_set (pl_windows p) (rateKey dev (w_originId r)) (window_of now dev r p)\<rparr>)
      else accept_record now dev r p)"

definition publish_start :: "hub_store \<Rightarrow> publish_run" where
  "publish_start st = \<lparr>pl_store = st, pl_accepted = [], pl_rejected = [], pl_bySpace = [], pl_windows = [],
     pl_limited = False\<rparr>"

definition max_stamp :: "hlc option \<Rightarrow> CookieRecordWire \<Rightarrow> hlc option" where
  "max_stamp m r =
     (case m of None \<Rightarrow> Some (w_hlc r) | Some h \<Rightarrow> if compareHlc (w_hlc r) h > 0 then Some (w_hlc r) else m)"

definition raise_watermark :: "hub_store \<Rightarrow> string \<times> CookieRecordWire list \<Rightarrow> hub_store" where
  "raise_watermark st g =
     (let current = get_as as_stamp st (wmKey (fst g)); m = foldl max_stamp current (snd g)
      in case m of None \<Rightarrow> st
         | Some h \<Rightarrow> if (case current of None \<Rightarrow> True | Some c \<Rightarrow> compareHlc h c > 0)
                    then st_put st (wmKey (fst g)) (VStamp h) else st)"

definition peer_spaces :: "hub_store \<Rightarrow> HubConnection \<Rightarrow> string list" where
  "peer_spaces st peer =
     (case cn_deviceId peer of None \<Rightarrow> cn_spaceIds peer
      | Some d \<Rightarrow> declaredSpaces d (cn_connectionId peer) st)"

definition fan_out :: "hub_store \<Rightarrow> HubConnection list \<Rightarrow> string \<times> CookieRecordWire list \<Rightarrow> hub_out list" where
  "fan_out st others g =
     to_all (filter (\<lambda>peer. fst g \<in> set (peer_spaces st peer)) others) (Records (fst g) (snd g))"

definition handlePublish ::
  "nat \<Rightarrow> HubConnection \<Rightarrow> string \<Rightarrow> CookieRecordWire list \<Rightarrow> HubConnection list \<Rightarrow> hub \<Rightarrow> hub" where
  "handlePublish now sender dev rs others h =
     (let p = foldl (publish_one now dev (cn_spaceIds sender)) (publish_start (hb_store h)) rs;
          st1 = foldl (\<lambda>st (k, w). st_put st k (VWindow w)) (pl_store p) (pl_windows p);
          st2 = foldl raise_watermark st1 (pl_bySpace p)
      in hub_emit
           ([to_conn sender (PublishAck (pl_accepted p) (pl_rejected p))] @
            (if pl_limited p then [to_conn sender (ErrorMsg ''rate_limited'' ''over 120 mutations/origin/minute'')] else []) @
            concat (map (fan_out st2 others) (pl_bySpace p)))
           (h\<lparr>hb_store := st2\<rparr>))"

section \<open>Hydration\<close>

definition wanted :: "string \<Rightarrow> hlc option \<Rightarrow> CookieRecordWire \<Rightarrow> bool" where
  "wanted spaceId since r \<longleftrightarrow>
     \<not> (w_spaceId r \<noteq> spaceId) \<and> \<not> (case since of None \<Rightarrow> False | Some s \<Rightarrow> compareHlc (w_hlc r) s \<le> 0)"

definition add_version ::
  "string \<Rightarrow> hlc option \<Rightarrow> (string, CookieRecordWire) js_map \<Rightarrow> CookieRecordWire \<Rightarrow> (string, CookieRecordWire) js_map" where
  "add_version spaceId since m r =
     (if wanted spaceId since r then js_set m (w_recordId r @ ''@'' @ encodeHlc (w_hlc r)) r else m)"

definition hydrateSpace :: "string \<Rightarrow> hlc option \<Rightarrow> hub_store \<Rightarrow> CookieRecordWire list \<times> hlc option" where
  "hydrateSpace spaceId since st =
     (let hist = map snd (list_as as_record st (''hist:'' @ spaceId @ '':''));
          latest = map snd (list_as as_record st (''rec:'' @ spaceId @ '':''));
          versions = foldl (add_version spaceId since) [] (hist @ latest)
      in (sortByHlc w_hlc (map snd versions), get_as as_stamp st (wmKey spaceId)))"

text \<open>\<open>slice(i, i + 256)\<close> for \<open>i\<close> from 0 by 256.\<close>

function slices :: "nat \<Rightarrow> 'a list \<Rightarrow> 'a list list" where
  "slices n xs = (if xs = [] \<or> n = 0 then [] else take n xs # slices n (drop n xs))"
  by pat_completeness auto
termination by (relation "measure (\<lambda>(n, xs). length xs)") auto

declare slices.simps [simp del]

definition handleHydrate :: "HubConnection \<Rightarrow> string \<Rightarrow> hlc option \<Rightarrow> hub \<Rightarrow> hub" where
  "handleHydrate sender spaceId since h =
     (let (rs, watermark) = hydrateSpace spaceId since (hb_store h)
      in hub_emit (map (\<lambda>c. to_conn sender (Records spaceId c)) (slices HYDRATE_CHUNK_SIZE rs) @
           [to_conn sender (HydrateDone spaceId (length rs) watermark)]) h)"

section \<open>Leases\<close>

definition deny :: "HubConnection \<Rightarrow> LeaseAcquire \<Rightarrow> LeaseEntry \<Rightarrow> hub \<Rightarrow> hub" where
  "deny sender msg live h =
     hub_emit [to_conn sender (LeaseDenied (la_spaceId msg) (la_originId msg) (le_holderDeviceId live)
       (le_expiresAtMs live))] h"

text \<open>A forced request is refused unless it names a candidate newer than the stored record.\<close>

definition force_refused :: "LeaseAcquire \<Rightarrow> hub_store \<Rightarrow> bool" where
  "force_refused msg st =
     (case (la_recordId msg, la_candidateHlc msg) of
        (Some rid, Some cand) \<Rightarrow>
          (case get_as as_record st (recKey (la_spaceId msg) rid) of
             None \<Rightarrow> False
           | Some stored \<Rightarrow> w_originId stored \<noteq> la_originId msg \<or> compareHlc cand (w_hlc stored) \<le> 0)
      | _ \<Rightarrow> True)"

definition grant_lease ::
  "nat \<Rightarrow> HubConnection \<Rightarrow> string \<Rightarrow> LeaseAcquire \<Rightarrow> hub \<Rightarrow> hub" where
  "grant_lease now sender dev msg h =
     (let ttl = min (case la_ttlMs msg of None \<Rightarrow> ORIGIN_LEASE_TTL_MS | Some t \<Rightarrow> t) MAX_LEASE_TTL_MS;
          lease = \<lparr>le_spaceId = la_spaceId msg, le_originId = la_originId msg, le_holderDeviceId = dev,
                   le_expiresAtMs = now + ttl\<rparr>
      in hub_emit [to_conn sender (LeaseGranted (la_spaceId msg) (la_originId msg) dev (now + ttl))]
           (h\<lparr>hb_store := st_put (hb_store h) (leaseKey (la_spaceId msg) (la_originId msg)) (VLease lease)\<rparr>))"

definition handleLeaseAcquire ::
  "nat \<Rightarrow> HubConnection \<Rightarrow> string \<Rightarrow> LeaseAcquire \<Rightarrow> HubConnection list \<Rightarrow> hub \<Rightarrow> hub" where
  "handleLeaseAcquire now sender dev msg others h =
     (let existing = get_as as_lease (hb_store h) (leaseKey (la_spaceId msg) (la_originId msg))
      in case existing of
           Some live \<Rightarrow>
             if le_expiresAtMs live > now \<and> le_holderDeviceId live \<noteq> dev then
               (if la_force msg \<noteq> Some True then deny sender msg live h
                else if force_refused msg (hb_store h) then deny sender msg live h
                else hub_emit
                  (to_all (filter (\<lambda>peer. cn_deviceId peer = Some (le_holderDeviceId live)) others)
                     (LeaseRevoked (la_spaceId msg) (la_originId msg) dev))
                  (grant_lease now sender dev msg h))
             else grant_lease now sender dev msg h
         | None \<Rightarrow> grant_lease now sender dev msg h)"

definition handleLeaseRelease :: "string \<Rightarrow> string \<Rightarrow> string \<Rightarrow> hub \<Rightarrow> hub" where
  "handleLeaseRelease dev spaceId originId h =
     (let key = leaseKey spaceId originId
      in case get_as as_lease (hb_store h) key of
           None \<Rightarrow> h
         | Some l \<Rightarrow> if le_holderDeviceId l = dev then h\<lparr>hb_store := st_delete (hb_store h) key\<rparr> else h)"

section \<open>Rollback\<close>

text \<open>One retained version: deleted above the target stamp, else the newest kept so far.\<close>

definition roll_version ::
  "hlc \<Rightarrow> CookieRecordWire option \<times> hub_store \<Rightarrow> string \<times> CookieRecordWire \<Rightarrow>
   CookieRecordWire option \<times> hub_store" where
  "roll_version toHlc acc v =
     (if compareHlc (w_hlc (snd v)) toHlc > 0 then (fst acc, st_delete (snd acc) (fst v))
      else (Some (snd v), snd acc))"

definition roll_record ::
  "string \<Rightarrow> string \<Rightarrow> hlc \<Rightarrow> hub_store \<Rightarrow> string \<times> CookieRecordWire \<Rightarrow> hub_store" where
  "roll_record spaceId originId toHlc st e =
     (let r = snd e
      in if w_spaceId r \<noteq> spaceId \<or> w_originId r \<noteq> originId then st
         else if compareHlc (w_hlc r) toHlc \<le> 0 then st
         else
           (let versions = list_as as_record st (histPrefix spaceId (w_recordId r));
                (survivor, st1) = foldl (roll_version toHlc) (None, st) versions
            in case survivor of None \<Rightarrow> st_delete st1 (fst e) | Some v \<Rightarrow> st_put st1 (fst e) (VRecord v)))"

definition handleRollback ::
  "HubConnection \<Rightarrow> string \<Rightarrow> string \<Rightarrow> hlc \<Rightarrow> HubConnection list \<Rightarrow> hub \<Rightarrow> hub" where
  "handleRollback sender spaceId originId toHlc others h =
     (if spaceId \<notin> set (cn_spaceIds sender) then
        hub_emit [to_conn sender (ErrorMsg ''malformed'' ''space not declared in hello'')] h
      else
        (let stored = list_as as_record (hb_store h) (''rec:'' @ spaceId @ '':'');
             st = foldl (roll_record spaceId originId toHlc) (hb_store h) stored
         in hub_emit (to_all (sender # others) (RollbackApplied spaceId originId toHlc)) (h\<lparr>hb_store := st\<rparr>)))"

section \<open>Workspace documents\<close>

definition publish_doc ::
  "hub_store \<times> WorkspaceRecordWire list \<Rightarrow> WorkspaceRecordWire \<Rightarrow> hub_store \<times> WorkspaceRecordWire list" where
  "publish_doc acc d =
     (let put = (st_put (fst acc) (workspaceKey (ws_key d)) (VDoc d), snd acc @ [d])
      in case get_as as_doc (fst acc) (workspaceKey (ws_key d)) of
           None \<Rightarrow> put
         | Some existing \<Rightarrow> if compareHlc (ws_hlc existing) (ws_hlc d) \<ge> 0 then acc else put)"

definition handleWorkspacePublish :: "WorkspaceRecordWire list \<Rightarrow> HubConnection list \<Rightarrow> hub \<Rightarrow> hub" where
  "handleWorkspacePublish docs others h =
     (let (st, winners) = foldl publish_doc (hb_store h, []) docs
      in hub_emit (if winners = [] then [] else to_all others (WorkspaceRecords winners)) (h\<lparr>hb_store := st\<rparr>))"

definition handleWorkspaceHydrate :: "HubConnection \<Rightarrow> hlc option \<Rightarrow> hub \<Rightarrow> hub" where
  "handleWorkspaceHydrate sender since h =
     (let stored = map snd (list_as as_doc (hb_store h) ''ws:'');
          docs = sortByHlc ws_hlc
            (filter (\<lambda>d. case since of None \<Rightarrow> True | Some s \<Rightarrow> compareHlc (ws_hlc d) s > 0) stored)
      in hub_emit (map (\<lambda>c. to_conn sender (WorkspaceRecords c)) (slices HYDRATE_CHUNK_SIZE docs) @
           [to_conn sender (WorkspaceHydrateDone (length docs))]) h)"

section \<open>A frame\<close>

definition dispatch ::
  "nat \<Rightarrow> HubConnection \<Rightarrow> string \<Rightarrow> ClientMessage \<Rightarrow> HubConnection list \<Rightarrow> hub \<Rightarrow> hub" where
  "dispatch now sender dev msg others h =
     (case msg of
        Hello d ss \<Rightarrow> h
      | Publish rs \<Rightarrow> handlePublish now sender dev rs others h
      | Hydrate sp since \<Rightarrow> handleHydrate sender sp since h
      | LeaseAcquireMsg m \<Rightarrow> handleLeaseAcquire now sender dev m others h
      | LeaseRelease sp ori \<Rightarrow> handleLeaseRelease dev sp ori h
      | Rollback sp ori t \<Rightarrow> handleRollback sender sp ori t others h
      | WorkspacePublish ds \<Rightarrow> handleWorkspacePublish ds others h
      | WorkspaceHydrate since \<Rightarrow> handleWorkspaceHydrate sender since h
      | Ping \<Rightarrow> hub_emit [to_conn sender Pong] h)"

text \<open>
  \<open>handleMessage\<close> on a parsed frame, \<open>None\<close> a frame that fails validation.  The \<open>Hello\<close> case
  of \<open>dispatch\<close> is not reached.
\<close>

definition handleMessage ::
  "nat \<Rightarrow> HubConnection \<Rightarrow> ClientMessage option \<Rightarrow> HubConnection list \<Rightarrow> hub \<Rightarrow> HubConnection \<times> hub" where
  "handleMessage now sender frame others h =
     (case frame of
        None \<Rightarrow> (sender, hub_emit [to_conn sender (ErrorMsg ''malformed'' ''frame failed validation'')] h)
      | Some (Hello d ss) \<Rightarrow> handleHello now sender d ss others h
      | Some msg \<Rightarrow>
          (case cn_deviceId sender of
             None \<Rightarrow> (sender, hub_emit [to_conn sender (ErrorMsg ''hello_required'' ''send hello before other frames'')] h)
           | Some dev \<Rightarrow>
               if isRevoked dev (hb_store h)
               then (sender, hub_emit [HClose (cn_connectionId sender) CLOSE_REVOKED ''revoked''] h)
               else
                 (let sender' = sender\<lparr>cn_spaceIds := declaredSpaces dev (cn_connectionId sender) (hb_store h)\<rparr>
                  in (sender', dispatch now sender' dev msg others h))))"

section \<open>The storage contract\<close>

locale hub_storage =
  fixes get :: "'s \<Rightarrow> string \<Rightarrow> 'v option"
    and put :: "'s \<Rightarrow> string \<Rightarrow> 'v \<Rightarrow> 's"
    and del :: "'s \<Rightarrow> string \<Rightarrow> 's"
    and lst :: "'s \<Rightarrow> string \<Rightarrow> (string \<times> 'v) list"
    and ok :: "'s \<Rightarrow> bool"
  assumes get_put: "get (put s k v) k' = (if k' = k then Some v else get s k')"
    and get_del: "get (del s k) k' = (if k' = k then None else get s k')"
    and lst_mem: "ok s \<Longrightarrow> (k, v) \<in> set (lst s p) \<longleftrightarrow> get s k = Some v \<and> prefix p k"
    and lst_sorted: "ok s \<Longrightarrow> sorted_wrt (<) (map fst (lst s p))"
    and ok_put: "ok s \<Longrightarrow> ok (put s k v)"
    and ok_del: "ok s \<Longrightarrow> ok (del s k)"
begin

lemma lst_distinct: "ok s \<Longrightarrow> distinct (map fst (lst s p))"
  using lst_sorted strict_sorted_iff by blast

lemma get_dels: "get (foldl del s ks) k = (if k \<in> set ks then None else get s k)"
  by (induction ks arbitrary: s) (auto simp: get_del)

lemma ok_dels: "ok s \<Longrightarrow> ok (foldl del s ks)"
  by (induction ks arbitrary: s) (auto simp: ok_del)

lemma lst_keys: "ok s \<Longrightarrow> k \<in> set (map fst (lst s p)) \<longleftrightarrow> get s k \<noteq> None \<and> prefix p k"
  using lst_mem by (force simp: image_iff)

text \<open>Two listings with the same entries are equal: the order is the order of keys.\<close>

lemma lst_eqI:
  assumes "ok s" "sorted_wrt (<) (map fst xs)" "\<And>k v. (k, v) \<in> set xs \<longleftrightarrow> get s k = Some v \<and> prefix p k"
  shows "lst s p = xs"
proof -
  have e: "set (lst s p) = set xs" using lst_mem[OF assms(1)] assms(3) by auto
  then have k: "map fst (lst s p) = map fst xs"
    using lst_sorted[OF assms(1), of p] assms(2)
    by (metis sorted_distinct_set_unique strict_sorted_iff set_map)
  have d: "distinct (map fst xs)" using assms(2) strict_sorted_iff by blast
  show ?thesis
  proof (rule nth_equalityI)
    show len: "length (lst s p) = length xs" using k by (metis length_map)
    fix i assume i: "i < length (lst s p)"
    have "map fst (lst s p) ! i = map fst xs ! i" by (simp only: k)
    then have f: "fst (lst s p ! i) = fst (xs ! i)" using i len by simp
    have m: "lst s p ! i \<in> set xs" "xs ! i \<in> set xs" using nth_mem[OF i] i e len by simp_all
    have "(fst (lst s p ! i), snd (lst s p ! i)) \<in> set xs" using m(1) by simp
    moreover have "(fst (lst s p ! i), snd (xs ! i)) \<in> set xs" using m(2) by (simp only: f prod.collapse)
    ultimately have "snd (lst s p ! i) = snd (xs ! i)" by (rule eq_key_imp_eq_value[OF d])
    then show "lst s p ! i = xs ! i" by (rule prod_eqI[OF f])
  qed
qed

lemma lst_dels:
  assumes "ok s" "ks = take n (map fst (lst s p))"
  shows "lst (foldl del s ks) p = drop n (lst s p)"
proof (rule lst_eqI)
  note d = lst_distinct[OF assms(1), of p]
  show "sorted_wrt (<) (map fst (drop n (lst s p)))"
    using lst_sorted[OF assms(1), of p] by (simp add: drop_map[symmetric] sorted_wrt_drop)
  fix k v
  have "set (take n (map fst (lst s p))) \<inter> set (drop n (map fst (lst s p))) = {}"
    using d by (metis append_take_drop_id distinct_append)
  moreover have "(k, v) \<in> set (lst s p) \<longleftrightarrow> (k, v) \<in> set (take n (lst s p)) \<or> (k, v) \<in> set (drop n (lst s p))"
    by (metis Un_iff append_take_drop_id set_append)
  ultimately have "(k, v) \<in> set (drop n (lst s p)) \<longleftrightarrow> (k, v) \<in> set (lst s p) \<and> k \<notin> set ks"
    using assms(2) by (force simp: take_map drop_map image_iff)
  then show "(k, v) \<in> set (drop n (lst s p)) \<longleftrightarrow> get (foldl del s ks) k = Some v \<and> prefix p k"
    using lst_mem[OF assms(1)] by (auto simp: get_dels)
qed (rule ok_dels[OF assms(1)])

end

interpretation store: hub_storage st_get st_put st_delete st_list js_wf
proof
  fix s :: "'v kv_store" and k k' p v
  show "st_get (st_put s k v) k' = (if k' = k then Some v else st_get s k')"
    and "st_get (st_delete s k) k' = (if k' = k then None else st_get s k')"
    by (simp_all add: st_get_def st_put_def st_delete_def)
  assume wf: "js_wf s"
  show "(k, v) \<in> set (st_list s p) \<longleftrightarrow> st_get s k = Some v \<and> prefix p k"
    using js_wf_get[OF wf] by (auto simp: st_list_def st_get_def)
  have "distinct (map fst (sort_key fst s))" using wf by (simp add: js_wf_def distinct_map distinct_sort)
  then have "sorted_wrt (<) (map fst (sort_key fst s))" by (simp add: strict_sorted_iff)
  then show "sorted_wrt (<) (map fst (st_list s p))"
    by (simp add: st_list_def sorted_wrt_map sorted_wrt_filter)
  show "js_wf (st_put s k v)" "js_wf (st_delete s k)"
    using wf by (auto simp: st_put_def st_delete_def)
qed

lemma set_map_filter: "y \<in> set (List.map_filter f xs) \<longleftrightarrow> (\<exists>x \<in> set xs. f x = Some y)"
  by (induction xs) (auto simp: map_filter_simps split: option.split)

lemma list_as_mem:
  "js_wf st \<Longrightarrow> (k, x) \<in> set (list_as as st p) \<longleftrightarrow> get_as as st k = Some x \<and> prefix p k"
  using store.lst_mem[of st k _ p]
  by (force simp: list_as_def get_as_def set_map_filter bind_eq_Some_conv)

lemma list_as_keys: "js_wf st \<Longrightarrow> set (map fst (list_as as st p)) \<subseteq> {k. prefix p k}"
  using list_as_mem by fastforce

lemma map_filter_keys_sorted:
  "sorted_wrt (<) (map fst xs) \<Longrightarrow>
   sorted_wrt (<) (map fst (List.map_filter (\<lambda>(k, v). map_option (Pair k) (f v)) xs))"
proof (induction xs)
  case (Cons x xs)
  obtain k v where x: "x = (k, v)" by fastforce
  have "\<exists>b. (a, b) \<in> set xs" if "(a, y) \<in> set (List.map_filter (\<lambda>(k, v). map_option (Pair k) (f v)) xs)" for a y
    using that by (force simp: set_map_filter)
  then show ?case using Cons by (fastforce simp: x map_filter_simps split: option.splits)
qed (simp add: map_filter_simps)

lemma list_as_sorted: "js_wf st \<Longrightarrow> sorted_wrt (<) (map fst (list_as as st p))"
  unfolding list_as_def by (rule map_filter_keys_sorted) (rule store.lst_sorted)

lemmas get_as_simps = store.get_put store.get_del store.get_dels

lemma get_as_put [simp]: "get_as as (st_put st k v) k' = (if k' = k then as v else get_as as st k')"
  by (simp add: get_as_def store.get_put)

lemma get_as_delete [simp]: "get_as as (st_delete st k) k' = (if k' = k then None else get_as as st k')"
  by (simp add: get_as_def store.get_del)

lemma get_as_dels [simp]: "get_as as (foldl st_delete st ks) k = (if k \<in> set ks then None else get_as as st k)"
  by (simp add: get_as_def store.get_dels)

text \<open>The first part of a key, up to its colon, is its kind.\<close>

lemma key_kinds [simp]:
  "prefix ''rec:'' (recKey a b)" "prefix ''hist:'' (histKey a b h)" "prefix ''wm:'' (wmKey a)"
  "prefix ''lease:'' (leaseKey a b)" "prefix ''ws:'' (workspaceKey a)" "prefix ''presence:'' (presenceKey a)"
  "prefix ''rl:'' (rateKey a b)" "prefix ''conn:'' (legacyConnKey a)" "prefix ''conn:'' (connectionStorageKey a b)"
  "prefix ''revoked:'' (revokedKey a)"
  by (simp_all add: recKey_def histKey_def wmKey_def leaseKey_def workspaceKey_def presenceKey_def rateKey_def
      legacyConnKey_def connectionStorageKey_def connPrefix_def revokedKey_def)

definition kind :: "string \<Rightarrow> string" where
  "kind k = takeWhile (\<lambda>c. c \<noteq> CHR '':'') k"

lemma kind_of [simp]:
  "kind (recKey a b) = ''rec''" "kind (histKey a b h) = ''hist''" "kind (wmKey a) = ''wm''"
  "kind (leaseKey a b) = ''lease''" "kind (workspaceKey a) = ''ws''" "kind (presenceKey a) = ''presence''"
  "kind (rateKey a b) = ''rl''" "kind (legacyConnKey a) = ''conn''" "kind (connectionStorageKey a b) = ''conn''"
  "kind (revokedKey a) = ''revoked''"
  by (simp_all add: kind_def recKey_def histKey_def wmKey_def leaseKey_def workspaceKey_def presenceKey_def rateKey_def
      legacyConnKey_def connectionStorageKey_def connPrefix_def revokedKey_def)

lemma kind_under [dest]:
  "prefix (histPrefix a b) k \<Longrightarrow> kind k = ''hist''" "prefix (connPrefix d) k \<Longrightarrow> kind k = ''conn''"
  "prefix (''lease:'' @ x) k \<Longrightarrow> kind k = ''lease''"
  by (auto simp: prefix_def kind_def histPrefix_def connPrefix_def)

lemma kind_neq: "kind a \<noteq> kind b \<Longrightarrow> a \<noteq> b"
  by auto

end
