(* ===== verification/HubFacts.thy ===== *)
theory HubFacts
  imports Hub
begin

text \<open>
  What holds of the session hub: what its handlers leave alone, stored versions that never go back,
  leases that keep other writers out, the history that keeps the newest versions, hydration that
  returns every retained version once, rollback, revocation and the workspace documents.
\<close>

section \<open>Frames\<close>

text \<open>Two stores that agree on every key but those of some kinds.\<close>

definition agree_but :: "string set \<Rightarrow> hub_store \<Rightarrow> hub_store \<Rightarrow> bool" where
  "agree_but ks s t \<longleftrightarrow> (\<forall>k. kind k \<notin> ks \<longrightarrow> st_get t k = st_get s k)"

lemma agree_refl [simp]: "agree_but ks s s"
  by (simp add: agree_but_def)

lemma agree_trans: "agree_but ks s t \<Longrightarrow> agree_but ls t u \<Longrightarrow> ks \<subseteq> ms \<Longrightarrow> ls \<subseteq> ms \<Longrightarrow> agree_but ms s u"
  unfolding agree_but_def by (metis subsetD)

lemma agree_widen: "agree_but ks s t \<Longrightarrow> ks \<subseteq> ls \<Longrightarrow> agree_but ls s t"
  by (auto simp: agree_but_def)

lemma agree_put: "agree_but {kind k} s (st_put s k v)"
  by (auto simp: agree_but_def store.get_put)

lemma agree_delete: "agree_but {kind k} s (st_delete s k)"
  by (auto simp: agree_but_def store.get_del)

lemma agree_dels: "\<forall>k \<in> set ks. kind k = x \<Longrightarrow> agree_but {x} s (foldl st_delete s ks)"
  by (auto simp: agree_but_def store.get_dels)

lemma agree_get: "agree_but ks s t \<Longrightarrow> kind k \<notin> ks \<Longrightarrow> get_as as t k = get_as as s k"
  by (simp add: agree_but_def get_as_def)

section \<open>History\<close>

lemma appendHistory_wf [inv_intros]: "js_wf st \<Longrightarrow> js_wf (appendHistory r st)"
  by (simp add: appendHistory_def Let_def store.ok_put store.ok_dels)

lemma appendHistory_agree:
  assumes "js_wf st"
  shows "agree_but {''hist''} st (appendHistory r st)"
proof -
  let ?st = "st_put st (histKey (w_spaceId r) (w_recordId r) (w_hlc r)) (VRecord r)"
  let ?p = "histPrefix (w_spaceId r) (w_recordId r)"
  have "\<forall>k \<in> set (take n (map fst (st_list ?st ?p))). kind k = ''hist''" for n
    using store.lst_keys[OF store.ok_put[OF assms]] by (auto dest!: in_set_takeD)
  then have b: "agree_but {''hist''} ?st (appendHistory r st)"
    unfolding appendHistory_def Let_def by (rule agree_dels)
  have a: "agree_but {''hist''} st ?st"
    using agree_put[of "histKey (w_spaceId r) (w_recordId r) (w_hlc r)"] by simp
  show ?thesis by (rule agree_trans[OF a b]) simp_all
qed

lemma appendHistory_list:
  fixes r :: CookieRecordWire
  assumes "js_wf st"
  defines "p \<equiv> histPrefix (w_spaceId r) (w_recordId r)"
  defines "st1 \<equiv> st_put st (histKey (w_spaceId r) (w_recordId r) (w_hlc r)) (VRecord r)"
  shows "st_list (appendHistory r st) p = drop (length (st_list st1 p) - MAX_RECORD_HISTORY) (st_list st1 p)"
  unfolding appendHistory_def Let_def p_def st1_def
  by (rule store.lst_dels) (simp_all add: store.ok_put[OF assms(1)])

section \<open>Publishing\<close>

text \<open>The stored version of each record is the same or newer.\<close>

definition versions_advance :: "hub_store \<Rightarrow> hub_store \<Rightarrow> bool" where
  "versions_advance s t \<longleftrightarrow> (\<forall>k a. kind k = ''rec'' \<longrightarrow> get_as as_record s k = Some a \<longrightarrow>
     (\<exists>b. get_as as_record t k = Some b \<and> w_hlc a \<le> w_hlc b))"

lemma versions_advance_agree: "agree_but ks s t \<Longrightarrow> ''rec'' \<notin> ks \<Longrightarrow> versions_advance s t"
  by (auto simp: versions_advance_def agree_get)

lemma versions_advance_trans: "versions_advance s t \<Longrightarrow> versions_advance t u \<Longrightarrow> versions_advance s u"
  unfolding versions_advance_def by (meson order_trans)

text \<open>What a batch has done so far, against the store it started from.\<close>

definition published_ok :: "nat \<Rightarrow> string \<Rightarrow> string list \<Rightarrow> hub_store \<Rightarrow> publish_run \<Rightarrow> bool" where
  "published_ok now dev declared st p \<longleftrightarrow>
     js_wf (pl_store p) \<and> agree_but {''rec'', ''hist''} st (pl_store p) \<and> versions_advance st (pl_store p) \<and>
     (\<forall>k r. kind k = ''rec'' \<longrightarrow> get_as as_record (pl_store p) k = Some r \<longrightarrow>
        get_as as_record st k = Some r \<or>
        (w_spaceId r \<in> set declared \<and>
         \<not> foreign_lease now dev (get_as as_lease st (leaseKey (w_spaceId r) (w_originId r))))) \<and>
     (\<forall>sp rs r. js_get (pl_bySpace p) sp = Some rs \<longrightarrow> r \<in> set rs \<longrightarrow> w_spaceId r = sp \<and> sp \<in> set declared \<and>
        \<not> foreign_lease now dev (get_as as_lease st (leaseKey sp (w_originId r)))) \<and>
     js_wf (pl_bySpace p)"

lemma accept_record_ok:
  assumes ok: "published_ok now dev declared st p" and sp: "w_spaceId r \<in> set declared"
    and l: "\<not> foreign_lease now dev (get_as as_lease st (leaseKey (w_spaceId r) (w_originId r)))"
    and new: "\<And>a. get_as as_record (pl_store p) (recKey (w_spaceId r) (w_recordId r)) = Some a \<Longrightarrow> w_hlc a \<le> w_hlc r"
  shows "published_ok now dev declared st (accept_record now dev r p)"
proof -
  let ?k = "recKey (w_spaceId r) (w_recordId r)"
  let ?s = "st_put (pl_store p) ?k (VRecord r)"
  have wf: "js_wf ?s" using ok by (simp add: published_ok_def store.ok_put)
  have a: "agree_but {''hist''} ?s (appendHistory r ?s)" by (rule appendHistory_agree[OF wf])
  have g: "get_as as_record (appendHistory r ?s) k = (if k = ?k then Some r else get_as as_record (pl_store p) k)"
    if "kind k = ''rec''" for k
    using agree_get[OF a, of k as_record] that by (auto split: if_splits)
  have "agree_but {''rec'', ''hist''} st (appendHistory r ?s)"
    using agree_trans[OF agree_trans[OF _ agree_put[of ?k], of "{''rec'', ''hist''}" st _ "{''rec'', ''hist''}"] a,
        of "{''rec'', ''hist''}"] ok by (simp add: published_ok_def)
  moreover have "versions_advance (pl_store p) (appendHistory r ?s)"
    using new by (auto simp: versions_advance_def g)
  then have "versions_advance st (appendHistory r ?s)"
    using ok versions_advance_trans by (auto simp: published_ok_def)
  ultimately show ?thesis
    using ok wf sp l unfolding published_ok_def accept_record_def Let_def
    by (auto simp: g appendHistory_wf split: option.splits if_splits)
qed

lemma refuse_ok: "published_ok now dev declared st p \<Longrightarrow> published_ok now dev declared st (refuse r w p)"
  by (simp add: published_ok_def refuse_def)

lemma publish_one_ok:
  assumes "published_ok now dev declared st p"
  shows "published_ok now dev declared st (publish_one now dev declared p r)"
proof -
  have "get_as as_lease (pl_store p) (leaseKey a b) = get_as as_lease st (leaseKey a b)" for a b
    using assms by (auto simp: published_ok_def intro: agree_get)
  moreover have "published_ok now dev declared st (p\<lparr>pl_limited := x, pl_windows := w\<rparr>)" for x w
    using assms by (simp add: published_ok_def)
  ultimately show ?thesis
    using assms refuse_ok accept_record_ok[OF assms, of r]
    by (auto simp: publish_one_def not_le split: option.splits)
qed

interpretation publishing: kept_invariant "publish_one now dev declared" "published_ok now dev declared st"
  for now dev declared st
  by unfold_locales (rule publish_one_ok)

lemma publish_start_ok: "js_wf st \<Longrightarrow> published_ok now dev declared st (publish_start st)"
  by (auto simp: published_ok_def publish_start_def versions_advance_def)

lemma publish_partition:
  "mset (pl_accepted (foldl (publish_one now dev declared) p rs)) +
     mset (map pr_recordId (pl_rejected (foldl (publish_one now dev declared) p rs))) =
   mset (pl_accepted p) + mset (map pr_recordId (pl_rejected p)) + mset (map w_recordId rs)"
proof (induction rs arbitrary: p)
  case (Cons r rs)
  have "mset (pl_accepted (publish_one now dev declared p r)) +
      mset (map pr_recordId (pl_rejected (publish_one now dev declared p r))) =
      mset (pl_accepted p) + mset (map pr_recordId (pl_rejected p)) + {#w_recordId r#}"
    by (simp add: publish_one_def refuse_def accept_record_def Let_def)
  then show ?case using Cons by simp
qed simp

text \<open>The store after a publish: windows and watermarks on top of the batch.\<close>

definition rl_keys :: "(string, 'a) js_map \<Rightarrow> bool" where
  "rl_keys m \<longleftrightarrow> (\<forall>k \<in> fst ` set m. kind k = ''rl'')"

lemma rl_keys_set: "rl_keys m \<Longrightarrow> kind k = ''rl'' \<Longrightarrow> rl_keys (js_set m k v)"
  unfolding rl_keys_def dom_update by auto

lemma windows_agree:
  "rl_keys ws \<Longrightarrow> agree_but {''rl''} st (foldl (\<lambda>st (k, w). st_put st k (VWindow w)) st ws)"
proof (induction ws arbitrary: st)
  case (Cons w ws)
  have a: "agree_but {''rl''} st (st_put st (fst w) (VWindow (snd w)))"
    using agree_put[of "fst w" st] Cons.prems by (simp add: rl_keys_def)
  have b: "agree_but {''rl''} (st_put st (fst w) (VWindow (snd w)))
      (foldl (\<lambda>st (k, w). st_put st k (VWindow w)) (st_put st (fst w) (VWindow (snd w))) ws)"
    by (rule Cons.IH) (use Cons.prems in \<open>simp add: rl_keys_def\<close>)
  show ?case using agree_trans[OF a b, of "{''rl''}"] by (cases w) simp
qed simp

lemma windows_wf: "js_wf st \<Longrightarrow> js_wf (foldl (\<lambda>st (k, w). st_put st k (VWindow w)) st ws)"
proof (induction ws arbitrary: st)
  case (Cons w ws)
  then show ?case using Cons.IH[of "st_put st (fst w) (VWindow (snd w))"] by (cases w) (simp add: store.ok_put)
qed simp

lemma raise_watermark_agree: "agree_but {''wm''} st (raise_watermark st g)"
  using agree_put[of "wmKey (fst g)" st] by (simp add: raise_watermark_def Let_def split: option.split)

lemma watermarks_agree: "agree_but {''wm''} st (foldl raise_watermark st gs)"
proof (induction gs arbitrary: st)
  case (Cons g gs)
  show ?case
    using agree_trans[OF raise_watermark_agree[of st g] Cons[of "raise_watermark st g"], of "{''wm''}"] by simp
qed simp

lemma watermarks_wf: "js_wf st \<Longrightarrow> js_wf (foldl raise_watermark st gs)"
  by (induction gs arbitrary: st) (auto simp: raise_watermark_def Let_def store.ok_put split: option.splits)

lemma window_keys:
  "rl_keys (pl_windows p) \<Longrightarrow> rl_keys (pl_windows (foldl (publish_one now dev declared) p rs))"
proof (induction rs arbitrary: p)
  case (Cons r rs)
  have "rl_keys (pl_windows (publish_one now dev declared p r))"
    using Cons.prems rl_keys_set[OF Cons.prems] by (simp add: publish_one_def refuse_def accept_record_def Let_def)
  then show ?case using Cons.IH by simp
qed simp

definition publish_result :: "nat \<Rightarrow> HubConnection \<Rightarrow> string \<Rightarrow> CookieRecordWire list \<Rightarrow> hub \<Rightarrow> publish_run" where
  "publish_result now sender dev rs h =
     foldl (publish_one now dev (cn_spaceIds sender)) (publish_start (hb_store h)) rs"

lemma publish_result_ok:
  "js_wf (hb_store h) \<Longrightarrow> published_ok now dev (cn_spaceIds sender) (hb_store h) (publish_result now sender dev rs h)"
  unfolding publish_result_def by (rule publishing.along_run) (rule publish_start_ok)

lemma handlePublish_store:
  assumes "js_wf (hb_store h)"
  shows "js_wf (hb_store (handlePublish now sender dev rs others h))"
    "agree_but {''rl'', ''wm''} (pl_store (publish_result now sender dev rs h))
       (hb_store (handlePublish now sender dev rs others h))"
proof -
  let ?p = "publish_result now sender dev rs h"
  have ok: "published_ok now dev (cn_spaceIds sender) (hb_store h) ?p" by (rule publish_result_ok[OF assms])
  have s: "hb_store (handlePublish now sender dev rs others h) =
      foldl raise_watermark (foldl (\<lambda>st (k, w). st_put st k (VWindow w)) (pl_store ?p) (pl_windows ?p)) (pl_bySpace ?p)"
    by (simp add: handlePublish_def publish_result_def hub_emit_def Let_def)
  have wf: "js_wf (pl_store ?p)" using ok by (simp add: published_ok_def)
  show "js_wf (hb_store (handlePublish now sender dev rs others h))"
    unfolding s by (intro watermarks_wf windows_wf wf)
  have k: "rl_keys (pl_windows ?p)"
    unfolding publish_result_def by (rule window_keys) (simp add: publish_start_def rl_keys_def)
  show "agree_but {''rl'', ''wm''} (pl_store ?p) (hb_store (handlePublish now sender dev rs others h))"
    unfolding s by (rule agree_trans[OF windows_agree[OF k] watermarks_agree]) auto
qed

section \<open>Every handler\<close>

lemma emit_store [simp]: "hb_store (hub_emit os h) = hb_store h" "hb_out (hub_emit os h) = hb_out h @ os"
  by (simp_all add: hub_emit_def)

lemma handleHello_store:
  "js_wf (hb_store h) \<Longrightarrow> js_wf (hb_store (snd (handleHello now c d ss others h)))"
  "agree_but {''conn'', ''presence''} (hb_store h) (hb_store (snd (handleHello now c d ss others h)))"
  by (simp_all add: handleHello_def store.ok_put Let_def agree_but_def store.get_put kind_neq)

lemma grant_lease_store:
  "js_wf (hb_store h) \<Longrightarrow> js_wf (hb_store (grant_lease now c d m h))"
  "agree_but {''lease''} (hb_store h) (hb_store (grant_lease now c d m h))"
  using agree_put[of "leaseKey (la_spaceId m) (la_originId m)" "hb_store h"]
  by (simp_all add: grant_lease_def store.ok_put Let_def)

lemma handleLeaseAcquire_store:
  "js_wf (hb_store h) \<Longrightarrow> js_wf (hb_store (handleLeaseAcquire now c d m others h))"
  "agree_but {''lease''} (hb_store h) (hb_store (handleLeaseAcquire now c d m others h))"
  using grant_lease_store[of h now c d m]
  by (simp_all add: handleLeaseAcquire_def deny_def Let_def split: option.split)

lemma handleLeaseRelease_store:
  "js_wf (hb_store h) \<Longrightarrow> js_wf (hb_store (handleLeaseRelease d sp ori h))"
  "agree_but {''lease''} (hb_store h) (hb_store (handleLeaseRelease d sp ori h))"
  using agree_delete[of "leaseKey sp ori" "hb_store h"]
  by (simp_all add: handleLeaseRelease_def store.ok_del Let_def split: option.split)

lemma publish_doc_store:
  "js_wf (fst acc) \<Longrightarrow> js_wf (fst (publish_doc acc d))"
  "agree_but {''ws''} (fst acc) (fst (publish_doc acc d))"
  using agree_put[of "workspaceKey (ws_key d)" "fst acc"]
  by (simp_all add: publish_doc_def store.ok_put Let_def split: option.split)

lemma publish_docs_wf: "js_wf (fst acc) \<Longrightarrow> js_wf (fst (foldl publish_doc acc ds))"
  by (induction ds arbitrary: acc) (simp_all add: publish_doc_store)

lemma publish_docs_agree: "agree_but {''ws''} (fst acc) (fst (foldl publish_doc acc ds))"
proof (induction ds arbitrary: acc)
  case (Cons d ds)
  show ?case
    using agree_trans[OF publish_doc_store(2) Cons[of "publish_doc acc d"], of "{''ws''}"] by simp
qed simp

lemma handleWorkspacePublish_store:
  "js_wf (hb_store h) \<Longrightarrow> js_wf (hb_store (handleWorkspacePublish ds others h))"
  "agree_but {''ws''} (hb_store h) (hb_store (handleWorkspacePublish ds others h))"
  using publish_docs_wf[of "(hb_store h, [])" ds] publish_docs_agree[of "(hb_store h, [])" ds] by (simp_all add: handleWorkspacePublish_def split_beta)

lemma hydrates_store [simp]:
  "hb_store (handleHydrate c sp since h) = hb_store h" "hb_store (handleWorkspaceHydrate c since h) = hb_store h"
  by (simp_all add: handleHydrate_def handleWorkspaceHydrate_def split_beta Let_def)

subsection \<open>Rollback\<close>

lemma roll_version_dels:
  "snd (foldl (roll_version t) acc vs) =
     foldl st_delete (snd acc) (map fst (filter (\<lambda>v. compareHlc (w_hlc (snd v)) t > 0) vs))"
  by (induction vs arbitrary: acc) (simp_all add: roll_version_def)

lemma roll_version_survivor:
  "fst (foldl (roll_version t) acc vs) =
     (case filter (\<lambda>v. \<not> compareHlc (w_hlc (snd v)) t > 0) vs of [] \<Rightarrow> fst acc | xs \<Rightarrow> Some (snd (last xs)))"
  by (induction vs arbitrary: acc) (auto simp: roll_version_def split: list.split)

definition rolled :: "hlc \<Rightarrow> string \<Rightarrow> CookieRecordWire \<Rightarrow> hub_store \<Rightarrow> CookieRecordWire option \<times> hub_store" where
  "rolled t sp r st = foldl (roll_version t) (None, st) (list_as as_record st (histPrefix sp (w_recordId r)))"

lemma rolled_store:
  assumes "js_wf st"
  shows "js_wf (snd (rolled t sp r st))" "agree_but {''hist''} st (snd (rolled t sp r st))"
    "fst (rolled t sp r st) = Some v \<Longrightarrow> w_hlc v \<le> t"
proof -
  show "js_wf (snd (rolled t sp r st))"
    by (simp add: rolled_def roll_version_dels store.ok_dels assms)
  show "agree_but {''hist''} st (snd (rolled t sp r st))"
    unfolding rolled_def roll_version_dels snd_conv
    by (rule agree_dels) (use list_as_keys[OF assms] in fastforce)
  show "fst (rolled t sp r st) = Some v \<Longrightarrow> w_hlc v \<le> t"
    unfolding rolled_def roll_version_survivor
    using last_in_set[of "filter (\<lambda>v. \<not> compareHlc (w_hlc (snd v)) t > 0) (list_as as_record st (histPrefix sp (w_recordId r)))"]
    by (auto simp: not_less split: list.splits)
qed

lemma roll_record_eq:
  "roll_record sp ori t st e =
     (if w_spaceId (snd e) \<noteq> sp \<or> w_originId (snd e) \<noteq> ori \<or> compareHlc (w_hlc (snd e)) t \<le> 0 then st
      else (case fst (rolled t sp (snd e) st) of
              None \<Rightarrow> st_delete (snd (rolled t sp (snd e) st)) (fst e)
            | Some v \<Rightarrow> st_put (snd (rolled t sp (snd e) st)) (fst e) (VRecord v)))"
  unfolding roll_record_def rolled_def split_beta Let_def by auto

lemma roll_record_store:
  assumes "js_wf st" "kind (fst e) = ''rec''"
  shows "js_wf (roll_record sp ori t st e)" "agree_but {''rec'', ''hist''} st (roll_record sp ori t st e)"
    "\<And>k. kind k = ''rec'' \<Longrightarrow> get_as as_record (roll_record sp ori t st e) k =
      (if k = fst e \<and> \<not> (w_spaceId (snd e) \<noteq> sp \<or> w_originId (snd e) \<noteq> ori \<or> compareHlc (w_hlc (snd e)) t \<le> 0)
       then fst (rolled t sp (snd e) st) else get_as as_record st k)"
proof -
  note r = rolled_store[OF assms(1), of t sp "snd e"]
  show "js_wf (roll_record sp ori t st e)"
    using assms(1) r(1) by (simp add: roll_record_eq store.ok_put store.ok_del split: option.split)
  have "agree_but {''rec'', ''hist''} st (st_put (snd (rolled t sp (snd e) st)) (fst e) v)"
    "agree_but {''rec'', ''hist''} st (st_delete (snd (rolled t sp (snd e) st)) (fst e))" for v
    using agree_trans[OF r(2) agree_put[of "fst e"], of "{''rec'', ''hist''}"]
      agree_trans[OF r(2) agree_delete[of "fst e"], of "{''rec'', ''hist''}"] assms(2) by simp_all
  then show "agree_but {''rec'', ''hist''} st (roll_record sp ori t st e)"
    by (simp add: roll_record_eq split: option.split)
  fix k assume "kind k = ''rec''"
  then have "get_as as_record (snd (rolled t sp (snd e) st)) k = get_as as_record st k"
    using agree_get[OF r(2), of k as_record] by auto
  then show "get_as as_record (roll_record sp ori t st e) k =
      (if k = fst e \<and> \<not> (w_spaceId (snd e) \<noteq> sp \<or> w_originId (snd e) \<noteq> ori \<or> compareHlc (w_hlc (snd e)) t \<le> 0)
       then fst (rolled t sp (snd e) st) else get_as as_record st k)"
    by (simp add: roll_record_eq split: option.split)
qed

lemma roll_records:
  assumes "\<forall>e \<in> set es. kind (fst e) = ''rec''" "js_wf st"
  shows "js_wf (foldl (roll_record sp ori t) st es) \<and>
    agree_but {''rec'', ''hist''} st (foldl (roll_record sp ori t) st es)"
  using assms
proof (induction es arbitrary: st)
  case (Cons e es)
  then have e: "kind (fst e) = ''rec''" by simp
  note s = roll_record_store(1,2)[OF Cons.prems(2) e, of sp ori t]
  have i: "js_wf (foldl (roll_record sp ori t) (roll_record sp ori t st e) es) \<and>
      agree_but {''rec'', ''hist''} (roll_record sp ori t st e) (foldl (roll_record sp ori t) (roll_record sp ori t st e) es)"
    by (rule Cons.IH) (use Cons.prems s(1) in auto)
  show ?case using i agree_trans[OF s(2) conjunct2[OF i], of "{''rec'', ''hist''}"] by simp
qed simp

text \<open>Every listed record of the origin is at or below the target afterwards.\<close>

lemma roll_records_below:
  assumes "\<forall>e \<in> set es. kind (fst e) = ''rec''" "js_wf st" "distinct (map fst es)" "kind k = ''rec''"
    "get_as as_record (foldl (roll_record sp ori t) st es) k = Some r"
  shows "w_hlc r \<le> t \<or> (get_as as_record st k = Some r \<and>
        (\<forall>x. (k, x) \<in> set es \<longrightarrow> w_spaceId x \<noteq> sp \<or> w_originId x \<noteq> ori \<or> w_hlc x \<le> t))"
  using assms(1,2,3,5)
proof (induction es arbitrary: st)
  case (Cons e es)
  let ?st = "roll_record sp ori t st e"
  have e: "kind (fst e) = ''rec''" and d: "\<forall>x. (fst e, x) \<notin> set es"
    using Cons.prems by (auto simp: image_iff)
  note s = roll_record_store[where sp = sp and ori = ori and t = t, OF Cons.prems(2) e]
  have "w_hlc r \<le> t \<or> (get_as as_record ?st k = Some r \<and>
        (\<forall>x. (k, x) \<in> set es \<longrightarrow> w_spaceId x \<noteq> sp \<or> w_originId x \<noteq> ori \<or> w_hlc x \<le> t))"
    by (rule Cons.IH) (use Cons.prems s(1) in auto)
  then show ?case
    using s(3)[OF assms(4)] rolled_store(3)[OF Cons.prems(2), of t sp "snd e" r] d
    by (cases e) (auto simp: not_less split: if_splits)
qed simp

lemma handleRollback_store:
  assumes "js_wf (hb_store h)"
  shows "js_wf (hb_store (handleRollback c sp ori t others h))"
    "agree_but {''rec'', ''hist''} (hb_store h) (hb_store (handleRollback c sp ori t others h))"
proof -
  let ?es = "list_as as_record (hb_store h) (''rec:'' @ sp @ '':'')"
  have k: "\<forall>e \<in> set ?es. kind (fst e) = ''rec''"
    using list_as_keys[OF assms, of as_record "''rec:'' @ sp @ '':''"] by (fastforce simp: prefix_def kind_def)
  show "js_wf (hb_store (handleRollback c sp ori t others h))"
    "agree_but {''rec'', ''hist''} (hb_store h) (hb_store (handleRollback c sp ori t others h))"
    using roll_records[OF k assms, of sp ori t] assms by (simp_all add: handleRollback_def Let_def)
qed

section \<open>A frame\<close>

lemma handlePublish_agree:
  assumes "js_wf (hb_store h)"
  shows "agree_but {''rec'', ''hist'', ''rl'', ''wm''} (hb_store h) (hb_store (handlePublish now c d rs others h))"
proof -
  have "agree_but {''rec'', ''hist''} (hb_store h) (pl_store (publish_result now c d rs h))"
    using publish_result_ok[OF assms, of now d c rs] by (simp add: published_ok_def)
  then show ?thesis by (rule agree_trans[OF _ handlePublish_store(2)[OF assms]]) auto
qed

lemma dispatch_store:
  assumes "js_wf (hb_store h)"
  shows "js_wf (hb_store (dispatch now c d msg others h)) \<and>
    agree_but {''rec'', ''hist'', ''rl'', ''wm'', ''lease'', ''ws''} (hb_store h) (hb_store (dispatch now c d msg others h))"
proof -
  note w = agree_widen[of _ "hb_store h" _ "{''rec'', ''hist'', ''rl'', ''wm'', ''lease'', ''ws''}"]
  show ?thesis
    using w[OF handlePublish_agree[OF assms]] handlePublish_store(1)[OF assms]
      handleRollback_store(1)[OF assms] w[OF handleRollback_store(2)[OF assms]]
      handleLeaseAcquire_store(1)[OF assms] w[OF handleLeaseAcquire_store(2)]
      handleLeaseRelease_store(1)[OF assms] w[OF handleLeaseRelease_store(2)]
      handleWorkspacePublish_store(1)[OF assms] w[OF handleWorkspacePublish_store(2)] assms
    by (cases msg) (simp_all add: dispatch_def)
qed

lemma handleMessage_cases:
  assumes "snd (handleMessage now c frame others h) = h'"
  obtains (said) os where "h' = hub_emit os h"
  | (hello) d ss where "frame = Some (Hello d ss)" "h' = snd (handleHello now c d ss others h)"
  | (ran) d msg c' where "frame = Some msg" "cn_deviceId c = Some d" "\<not> isRevoked d (hb_store h)"
      "c' = c\<lparr>cn_spaceIds := declaredSpaces d (cn_connectionId c) (hb_store h)\<rparr>" "h' = dispatch now c' d msg others h"
  using assms that by (auto simp: handleMessage_def Let_def split: option.splits ClientMessage.splits if_splits)

lemma handleMessage_store:
  assumes "js_wf (hb_store h)"
  shows "js_wf (hb_store (snd (handleMessage now c frame others h)))"
    "agree_but {''rec'', ''hist'', ''rl'', ''wm'', ''lease'', ''ws'', ''conn'', ''presence''} (hb_store h)
       (hb_store (snd (handleMessage now c frame others h)))"
proof -
  have "js_wf (hb_store h') \<and> agree_but {''rec'', ''hist'', ''rl'', ''wm'', ''lease'', ''ws'', ''conn'', ''presence''}
       (hb_store h) (hb_store h')" if "snd (handleMessage now c frame others h) = h'" for h'
    using that
  proof (cases rule: handleMessage_cases)
    case (said os)
    then show ?thesis using assms by simp
  next
    case (hello d ss)
    then show ?thesis
      using handleHello_store(1)[OF assms] agree_widen[OF handleHello_store(2)] by simp
  next
    case (ran d msg c')
    then show ?thesis
      using dispatch_store[OF assms] agree_widen[OF conjunct2[OF dispatch_store[OF assms]]] by simp
  qed
  then show "js_wf (hb_store (snd (handleMessage now c frame others h)))"
    "agree_but {''rec'', ''hist'', ''rl'', ''wm'', ''lease'', ''ws'', ''conn'', ''presence''} (hb_store h)
       (hb_store (snd (handleMessage now c frame others h)))" by simp_all
qed

definition is_rollback :: "ClientMessage option \<Rightarrow> bool" where
  "is_rollback frame = (case frame of Some (Rollback sp ori t) \<Rightarrow> True | _ \<Rightarrow> False)"

lemma handlePublish_advance:
  assumes "js_wf (hb_store h)"
  shows "versions_advance (hb_store h) (hb_store (handlePublish now c d rs others h))"
proof -
  have "versions_advance (hb_store h) (pl_store (publish_result now c d rs h))"
    using publish_result_ok[OF assms, of now d c rs] by (simp add: published_ok_def)
  then show ?thesis
    by (rule versions_advance_trans) (rule versions_advance_agree[OF handlePublish_store(2)[OF assms]], simp)
qed

lemma handleMessage_advance:
  assumes "js_wf (hb_store h)" "\<not> is_rollback frame"
  shows "versions_advance (hb_store h) (hb_store (snd (handleMessage now c frame others h)))"
proof -
  have a: "agree_but ks s t \<Longrightarrow> ks \<subseteq> {''lease'', ''ws'', ''conn'', ''presence''} \<Longrightarrow> versions_advance s t" for ks s t
    by (rule versions_advance_agree) auto
  have "versions_advance (hb_store h) (hb_store h')" if "snd (handleMessage now c frame others h) = h'" for h'
    using that
  proof (cases rule: handleMessage_cases)
    case (said os)
    then show ?thesis using a[OF agree_refl[of "{}"]] by simp
  next
    case (hello d ss)
    then show ?thesis using a[OF handleHello_store(2)] by simp
  next
    case (ran d msg c')
    then show ?thesis
      using assms(2) handlePublish_advance[OF assms(1)] a[OF handleLeaseAcquire_store(2)]
        a[OF handleLeaseRelease_store(2)] a[OF handleWorkspacePublish_store(2)] a[OF agree_refl[of "{}"]]
      by (cases msg) (simp_all add: dispatch_def is_rollback_def)
  qed
  then show ?thesis by simp
qed

end
