(* ===== verification/HubKeyed.thy ===== *)
theory HubKeyed
  imports HubFacts
begin

text \<open>
  The hub's store as frames leave it: every record lies at the key made of its own ids and stamp, so
  a prefix selects the versions of one record, in the order of their stamps, and a rollback judges
  each record against its own history.
\<close>

section \<open>Keys that determine their records\<close>

lemma colon_split:
  "CHR '':'' \<notin> set a \<Longrightarrow> CHR '':'' \<notin> set b \<Longrightarrow> a @ CHR '':'' # x = b @ CHR '':'' # y \<longleftrightarrow> a = b \<and> x = y"
proof (induction a arbitrary: b)
  case Nil
  then show ?case by (cases b) auto
next
  case (Cons c a)
  then show ?case by (cases b) auto
qed

text \<open>
  What the frame schema and the width of a stamp give: hexadecimal record ids, and stamps whose text
  has its nominal width; and a space id without a colon, as the desktop's are.
\<close>

definition tidy :: "CookieRecordWire \<Rightarrow> bool" where
  "tidy r \<longleftrightarrow> is_hex64 (w_recordId r) \<and> CHR '':'' \<notin> set (w_spaceId r) \<and> hlc_fits (w_hlc r)"

lemma hex_plain: "is_hex64 s \<Longrightarrow> CHR '':'' \<notin> set s \<and> CHR ''@'' \<notin> set s"
  by (auto simp: is_hex64_def list_all_iff less_char_def less_eq_char_def)

lemma tidy_plain [dest]:
  "tidy r \<Longrightarrow> CHR '':'' \<notin> set (w_recordId r) \<and> CHR '':'' \<notin> set (w_spaceId r) \<and> CHR ''@'' \<notin> set (w_recordId r) \<and>
   hlc_fits (w_hlc r)"
  using hex_plain by (auto simp: tidy_def)

definition keyed :: "hub_store \<Rightarrow> bool" where
  "keyed st \<longleftrightarrow> js_wf st \<and>
     (\<forall>k v. kind k = ''rec'' \<longrightarrow> st_get st k = Some v \<longrightarrow>
        (\<exists>r. v = VRecord r \<and> tidy r \<and> k = recKey (w_spaceId r) (w_recordId r))) \<and>
     (\<forall>k v. kind k = ''hist'' \<longrightarrow> st_get st k = Some v \<longrightarrow>
        (\<exists>r. v = VRecord r \<and> tidy r \<and> k = histKey (w_spaceId r) (w_recordId r) (w_hlc r)))"

lemma keyed_wf [simp]: "keyed st \<Longrightarrow> js_wf st"
  by (simp add: keyed_def)

lemma keyed_agree:
  "keyed s \<Longrightarrow> agree_but ks s t \<Longrightarrow> ''rec'' \<notin> ks \<Longrightarrow> ''hist'' \<notin> ks \<Longrightarrow> js_wf t \<Longrightarrow> keyed t"
  unfolding keyed_def agree_but_def by metis

lemma keyed_rec: "keyed st \<Longrightarrow> kind k = ''rec'' \<Longrightarrow> get_as as_record st k = Some r \<Longrightarrow>
    tidy r \<and> k = recKey (w_spaceId r) (w_recordId r)"
  by (fastforce simp: keyed_def get_as_def bind_eq_Some_conv)

lemma keyed_hist: "keyed st \<Longrightarrow> kind k = ''hist'' \<Longrightarrow> get_as as_record st k = Some r \<Longrightarrow>
    tidy r \<and> k = histKey (w_spaceId r) (w_recordId r) (w_hlc r)"
  by (fastforce simp: keyed_def get_as_def bind_eq_Some_conv)

lemma keyed_dels: "keyed st \<Longrightarrow> keyed (foldl st_delete st ks)"
  unfolding keyed_def by (simp add: store.get_dels store.ok_dels)

lemma keyed_put_rec: "keyed st \<Longrightarrow> tidy r \<Longrightarrow> keyed (st_put st (recKey (w_spaceId r) (w_recordId r)) (VRecord r))"
  unfolding keyed_def by (auto simp: store.get_put store.ok_put)

lemma keyed_put_hist:
  "keyed st \<Longrightarrow> tidy r \<Longrightarrow> keyed (st_put st (histKey (w_spaceId r) (w_recordId r) (w_hlc r)) (VRecord r))"
  unfolding keyed_def by (auto simp: store.get_put store.ok_put)

lemma keyed_appendHistory: "keyed st \<Longrightarrow> tidy r \<Longrightarrow> keyed (appendHistory r st)"
  by (simp add: appendHistory_def Let_def keyed_dels keyed_put_hist)

lemma keyed_publish_one: "keyed (pl_store p) \<Longrightarrow> tidy r \<Longrightarrow> keyed (pl_store (publish_one now d ss p r))"
  by (simp add: publish_one_def refuse_def accept_record_def Let_def keyed_appendHistory keyed_put_rec)

lemma keyed_publish:
  "keyed (pl_store p) \<Longrightarrow> list_all tidy rs \<Longrightarrow> keyed (pl_store (foldl (publish_one now d ss) p rs))"
  by (induction rs arbitrary: p) (simp_all add: keyed_publish_one)

text \<open>Which keys a prefix selects.\<close>

lemma hist_prefix:
  assumes "tidy r" "CHR '':'' \<notin> set sp"
  shows "prefix (''hist:'' @ sp @ '':'') (histKey (w_spaceId r) (w_recordId r) h) \<longleftrightarrow> w_spaceId r = sp"
proof -
  have "prefix (''hist:'' @ sp @ '':'') (histKey (w_spaceId r) (w_recordId r) h) \<longleftrightarrow>
      (\<exists>z. w_spaceId r @ CHR '':'' # w_recordId r @ '':'' @ encodeHlc h = sp @ CHR '':'' # z)"
    by (auto simp: prefix_def histKey_def)
  then show ?thesis using assms by (auto simp: colon_split)
qed

lemma rec_prefix:
  assumes "tidy r" "CHR '':'' \<notin> set sp"
  shows "prefix (''rec:'' @ sp @ '':'') (recKey (w_spaceId r) (w_recordId r)) \<longleftrightarrow> w_spaceId r = sp"
proof -
  have "prefix (''rec:'' @ sp @ '':'') (recKey (w_spaceId r) (w_recordId r)) \<longleftrightarrow>
      (\<exists>z. w_spaceId r @ CHR '':'' # w_recordId r = sp @ CHR '':'' # z)"
    by (auto simp: prefix_def recKey_def)
  then show ?thesis using assms by (auto simp: colon_split)
qed

lemma version_prefix:
  assumes "tidy r" "CHR '':'' \<notin> set sp" "CHR '':'' \<notin> set rid"
  shows "prefix (histPrefix sp rid) (histKey (w_spaceId r) (w_recordId r) h) \<longleftrightarrow> w_spaceId r = sp \<and> w_recordId r = rid"
proof -
  have "prefix (histPrefix sp rid) (histKey (w_spaceId r) (w_recordId r) h) \<longleftrightarrow>
      (\<exists>z. w_spaceId r @ CHR '':'' # w_recordId r @ CHR '':'' # encodeHlc h = sp @ CHR '':'' # rid @ CHR '':'' # z)"
    by (auto simp: prefix_def histKey_def histPrefix_def)
  then show ?thesis using assms by (auto simp: colon_split)
qed

section \<open>Rollback, record by record\<close>

lemmas record_mem = list_as_mem[where as = as_record]

definition versions :: "hub_store \<Rightarrow> string \<Rightarrow> string \<Rightarrow> CookieRecordWire list" where
  "versions st sp rid = map snd (list_as as_record st (histPrefix sp rid))"

lemma list_as_cong:
  assumes "js_wf s" "js_wf t" "\<And>k. prefix p k \<Longrightarrow> st_get s k = st_get t k"
  shows "list_as as s p = list_as as t p"
proof -
  have "st_list s p = st_list t p"
    by (rule store.lst_eqI[OF assms(1) store.lst_sorted[OF assms(2)]])
      (use store.lst_mem[OF assms(2)] assms(3) in auto)
  then show ?thesis by (simp add: list_as_def)
qed

lemma versions_mem:
  assumes "keyed st" "CHR '':'' \<notin> set sp" "CHR '':'' \<notin> set rid"
  shows "x \<in> set (versions st sp rid) \<longleftrightarrow>
    get_as as_record st (histKey sp rid (w_hlc x)) = Some x \<and> w_spaceId x = sp \<and> w_recordId x = rid"
proof
  assume "x \<in> set (versions st sp rid)"
  then obtain k where k: "get_as as_record st k = Some x" "prefix (histPrefix sp rid) k"
    using record_mem[OF keyed_wf[OF assms(1)]] by (auto simp: versions_def)
  then have x: "tidy x" "k = histKey (w_spaceId x) (w_recordId x) (w_hlc x)"
    using keyed_hist[OF assms(1) _ k(1)] by auto
  then show "get_as as_record st (histKey sp rid (w_hlc x)) = Some x \<and> w_spaceId x = sp \<and> w_recordId x = rid"
    using version_prefix[OF x(1) assms(2,3)] k by auto
next
  assume "get_as as_record st (histKey sp rid (w_hlc x)) = Some x \<and> w_spaceId x = sp \<and> w_recordId x = rid"
  moreover have "prefix (histPrefix sp rid) (histKey sp rid (w_hlc x))"
    by (simp add: histPrefix_def histKey_def)
  ultimately have "(histKey sp rid (w_hlc x), x) \<in> set (list_as as_record st (histPrefix sp rid))"
    using record_mem[OF keyed_wf[OF assms(1)]] by auto
  then show "x \<in> set (versions st sp rid)" unfolding versions_def by force
qed

text \<open>The listing's order is the order of stamps.\<close>

lemma versions_sorted:
  assumes "keyed st" "CHR '':'' \<notin> set sp" "CHR '':'' \<notin> set rid"
  shows "sorted_wrt (<) (map w_hlc (versions st sp rid))"
proof -
  have e: "k = histKey sp rid (w_hlc x) \<and> hlc_fits (w_hlc x)"
    if "(k, x) \<in> set (list_as as_record st (histPrefix sp rid))" for k x
  proof -
    have k: "get_as as_record st k = Some x" "prefix (histPrefix sp rid) k"
      using that record_mem[OF keyed_wf[OF assms(1)]] by auto
    then have x: "tidy x" "k = histKey (w_spaceId x) (w_recordId x) (w_hlc x)"
      using keyed_hist[OF assms(1) _ k(1)] by auto
    then show ?thesis using version_prefix[OF x(1) assms(2,3)] k by auto
  qed
  have "sorted_wrt (\<lambda>a b. fst a < fst b) (list_as as_record st (histPrefix sp rid))"
    using list_as_sorted[OF keyed_wf[OF assms(1)]] by (simp add: sorted_wrt_map)
  then have "sorted_wrt (\<lambda>a b. w_hlc (snd a) < w_hlc (snd b)) (list_as as_record st (histPrefix sp rid))"
  proof (rule sorted_wrt_mono_rel[rotated])
    fix a b
    assume m: "a \<in> set (list_as as_record st (histPrefix sp rid))" "b \<in> set (list_as as_record st (histPrefix sp rid))"
      and less: "fst a < fst b"
    have "fst a = histKey sp rid (w_hlc (snd a))" "fst b = histKey sp rid (w_hlc (snd b))"
      "hlc_fits (w_hlc (snd a))" "hlc_fits (w_hlc (snd b))"
      using e[of "fst a" "snd a"] e[of "fst b" "snd b"] m by auto
    moreover have "p @ x < p @ y \<longleftrightarrow> x < y" for p x y :: string by (induction p) auto
    ultimately show "w_hlc (snd a) < w_hlc (snd b)" using encodeHlc_less less by (auto simp: histKey_def)
  qed
  then show ?thesis by (simp add: versions_def sorted_wrt_map)
qed

definition survivor :: "hlc \<Rightarrow> CookieRecordWire list \<Rightarrow> CookieRecordWire option" where
  "survivor t vs = (case filter (\<lambda>v. w_hlc v \<le> t) vs of [] \<Rightarrow> None | xs \<Rightarrow> Some (last xs))"

lemma rolled_survivor: "fst (rolled t sp r st) = survivor t (versions st sp (w_recordId r))"
  unfolding rolled_def roll_version_survivor survivor_def versions_def
  by (auto simp: filter_map o_def not_less last_map split: list.split)

lemma survivor_mem: "survivor t vs = Some v \<Longrightarrow> v \<in> set vs \<and> w_hlc v \<le> t"
  using last_in_set[of "filter (\<lambda>v. w_hlc v \<le> t) vs"] by (auto simp: survivor_def split: list.splits)

definition rolls :: "string \<Rightarrow> string \<Rightarrow> hlc \<Rightarrow> CookieRecordWire \<Rightarrow> bool" where
  "rolls sp ori t r \<longleftrightarrow> w_spaceId r = sp \<and> w_originId r = ori \<and> t < w_hlc r"

lemma roll_record_keyed:
  assumes "keyed st" "get_as as_record st k = Some r" "kind k = ''rec''"
  shows "keyed (roll_record sp ori t st (k, r))"
    "kind k' = ''rec'' \<Longrightarrow> get_as as_record (roll_record sp ori t st (k, r)) k' =
      (if k' = k \<and> rolls sp ori t r then survivor t (versions st sp (w_recordId r)) else get_as as_record st k')"
    "CHR '':'' \<notin> set sp' \<Longrightarrow> CHR '':'' \<notin> set rid \<Longrightarrow> sp' \<noteq> w_spaceId r \<or> rid \<noteq> w_recordId r \<Longrightarrow>
      versions (roll_record sp ori t st (k, r)) sp' rid = versions st sp' rid"
proof -
  note wf = keyed_wf[OF assms(1)]
  have r: "tidy r" "k = recKey (w_spaceId r) (w_recordId r)" using keyed_rec[OF assms(1,3,2)] by auto
  have c: "w_spaceId r \<noteq> sp \<or> w_originId r \<noteq> ori \<or> compareHlc (w_hlc r) t \<le> 0 \<longleftrightarrow> \<not> rolls sp ori t r"
    by (auto simp: rolls_def)
  define st1 where "st1 = snd (rolled t sp r st)"
  have dels: "\<exists>ks. st1 = foldl st_delete st ks \<and> (\<forall>k \<in> set ks. prefix (histPrefix sp (w_recordId r)) k)"
    using list_as_keys[OF wf, of as_record "histPrefix sp (w_recordId r)"]
    by (intro exI conjI) (fastforce simp: st1_def rolled_def roll_version_dels)+
  then have k1: "keyed st1" using keyed_dels[OF assms(1)] by auto
  have eq: "roll_record sp ori t st (k, r) = (if rolls sp ori t r then
      (case survivor t (versions st sp (w_recordId r)) of None \<Rightarrow> st_delete st1 k | Some v \<Rightarrow> st_put st1 k (VRecord v))
      else st)"
    unfolding roll_record_eq c st1_def rolled_survivor[symmetric] snd_conv fst_conv c by simp
  have sv: "tidy v \<and> k = recKey (w_spaceId v) (w_recordId v)"
    if "survivor t (versions st sp (w_recordId r)) = Some v" "rolls sp ori t r" for v
  proof -
    have "v \<in> set (versions st (w_spaceId r) (w_recordId r))" using that survivor_mem by (auto simp: rolls_def)
    then show ?thesis using versions_mem[OF assms(1)] keyed_hist[OF assms(1)] r by (metis kind_of(2) tidy_plain)
  qed
  show "keyed (roll_record sp ori t st (k, r))"
  proof (cases "rolls sp ori t r \<and> survivor t (versions st sp (w_recordId r)) \<noteq> None")
    case True
    then obtain v where v: "survivor t (versions st sp (w_recordId r)) = Some v" "rolls sp ori t r" by auto
    then show ?thesis using keyed_put_rec[OF k1, of v] sv[OF v] unfolding eq by simp
  next
    case False
    then show ?thesis using assms(1) keyed_dels[OF k1, of "[k]"] by (auto simp: eq)
  qed
  show "kind k' = ''rec'' \<Longrightarrow> get_as as_record (roll_record sp ori t st (k, r)) k' =
      (if k' = k \<and> rolls sp ori t r then survivor t (versions st sp (w_recordId r)) else get_as as_record st k')"
    using roll_record_store(3)[where e = "(k, r)" and sp = sp and ori = ori and t = t, OF wf] assms(3)
    by (simp add: rolls_def rolled_survivor not_le)
  assume plain: "CHR '':'' \<notin> set sp'" "CHR '':'' \<notin> set rid" "sp' \<noteq> w_spaceId r \<or> rid \<noteq> w_recordId r"
  have other: "\<not> prefix (histPrefix (w_spaceId r) (w_recordId r)) k'" if "st_get st k' \<noteq> None" "prefix (histPrefix sp' rid) k'" for k'
  proof -
    note g = that
    obtain x where x: "tidy x" "k' = histKey (w_spaceId x) (w_recordId x) (w_hlc x)"
      using assms(1) g(1) kind_under(1)[OF g(2)] unfolding keyed_def by blast
    then show ?thesis using version_prefix[OF x(1)] that(2) plain r(1) by auto
  qed
  have "st_get (roll_record sp ori t st (k, r)) k' = st_get st k'" if "prefix (histPrefix sp' rid) k'" for k'
    using other[OF _ that] dels assms(3) kind_under(1)[OF that]
    by (cases "st_get st k'") (auto simp: eq rolls_def store.get_put store.get_del store.get_dels split: option.split)
  then have "list_as as_record (roll_record sp ori t st (k, r)) (histPrefix sp' rid) =
      list_as as_record st (histPrefix sp' rid)"
    using list_as_cong[OF keyed_wf[OF \<open>keyed (roll_record sp ori t st (k, r))\<close>] wf] by blast
  then show "versions (roll_record sp ori t st (k, r)) sp' rid = versions st sp' rid"
    by (simp add: versions_def)
qed

text \<open>A rollback over a list of stored records: each is judged against its own history.\<close>

lemma roll_records_exact:
  assumes "keyed st" "distinct (map fst es)"
    "\<forall>(k, r) \<in> set es. kind k = ''rec'' \<and> get_as as_record st k = Some r"
  shows "keyed (foldl (roll_record sp ori t) st es) \<and>
    (\<forall>k. kind k = ''rec'' \<longrightarrow> get_as as_record (foldl (roll_record sp ori t) st es) k =
       (case map_of es k of
          Some r \<Rightarrow> if rolls sp ori t r then survivor t (versions st sp (w_recordId r)) else Some r
        | None \<Rightarrow> get_as as_record st k))"
  using assms
proof (induction es arbitrary: st)
  case (Cons e es)
  obtain k r where e: "e = (k, r)" by fastforce
  let ?st = "roll_record sp ori t st (k, r)"
  have kr: "kind k = ''rec''" "get_as as_record st k = Some r" using Cons.prems(3) e by auto
  note s = roll_record_keyed[where sp = sp and ori = ori and t = t, OF Cons.prems(1) kr(2,1)]
  have d: "\<forall>(k', r') \<in> set es. k' \<noteq> k" using Cons.prems(2) e by (auto simp: image_iff)
  have i: "keyed (foldl (roll_record sp ori t) ?st es) \<and>
    (\<forall>k. kind k = ''rec'' \<longrightarrow> get_as as_record (foldl (roll_record sp ori t) ?st es) k =
       (case map_of es k of
          Some r \<Rightarrow> if rolls sp ori t r then survivor t (versions ?st sp (w_recordId r)) else Some r
        | None \<Rightarrow> get_as as_record ?st k))"
  proof (rule Cons.IH[OF s(1)])
    show "distinct (map fst es)" using Cons.prems(2) by simp
    show "\<forall>(k, r) \<in> set es. kind k = ''rec'' \<and> get_as as_record ?st k = Some r"
      using Cons.prems(3) d s(2) by (fastforce simp: e)
  qed
  have v: "versions ?st sp (w_recordId r') = versions st sp (w_recordId r')"
    if "(k', r') \<in> set es" "rolls sp ori t r'" for k' r'
  proof (rule s(3))
    have r': "kind k' = ''rec''" "get_as as_record st k' = Some r'" "k' \<noteq> k"
      using Cons.prems(3) that(1) d by auto
    show "CHR '':'' \<notin> set sp" "CHR '':'' \<notin> set (w_recordId r')"
      using keyed_rec[OF Cons.prems(1) r'(1,2)] that(2) by (auto simp: rolls_def)
    show "sp \<noteq> w_spaceId r \<or> w_recordId r' \<noteq> w_recordId r"
      using keyed_rec[OF Cons.prems(1) r'(1,2)] keyed_rec[OF Cons.prems(1) kr] r'(3) that(2)
      by (auto simp: rolls_def)
  qed
  have k: "map_of es k = None" using d by (auto simp: map_of_eq_None_iff)
  have "get_as as_record (foldl (roll_record sp ori t) ?st es) k' =
       (case map_of (e # es) k' of
          Some r \<Rightarrow> if rolls sp ori t r then survivor t (versions st sp (w_recordId r)) else Some r
        | None \<Rightarrow> get_as as_record st k')" if k': "kind k' = ''rec''" for k'
  proof (cases "map_of es k'")
    case None
    then show ?thesis using i k' s(2)[OF k'] kr by (auto simp: e)
  next
    case (Some r')
    then show ?thesis using i k' k v[OF map_of_SomeD[OF Some]] by (auto simp: e)
  qed
  then show ?case using i by (simp add: e)
qed auto

lemma handleRollback_exact:
  fixes c :: HubConnection and sp ori :: string and t :: hlc and others :: "HubConnection list" and h :: hub
  assumes "keyed (hb_store h)" "sp \<in> set (cn_spaceIds c)"
  defines "h' \<equiv> handleRollback c sp ori t others h"
  shows "keyed (hb_store h')"
    "kind k = ''rec'' \<Longrightarrow> get_as as_record (hb_store h') k =
      (case get_as as_record (hb_store h) k of
         Some r \<Rightarrow> if rolls sp ori t r then survivor t (versions (hb_store h) sp (w_recordId r)) else Some r
       | None \<Rightarrow> None)"
proof -
  let ?es = "list_as as_record (hb_store h) (''rec:'' @ sp @ '':'')"
  note mem = record_mem[OF keyed_wf[OF assms(1)], where p = "''rec:'' @ sp @ '':''"]
  have d: "distinct (map fst ?es)" using list_as_sorted[OF keyed_wf[OF assms(1)]] strict_sorted_iff by blast
  have "kind k = ''rec''" if "prefix (''rec:'' @ sp @ '':'') k" for k
    using that by (auto simp: prefix_def kind_def)
  then have "\<forall>(k, r) \<in> set ?es. kind k = ''rec'' \<and> get_as as_record (hb_store h) k = Some r"
    using mem by auto
  note e = roll_records_exact[OF assms(1) d this, of sp ori t]
  have s: "hb_store h' = foldl (roll_record sp ori t) (hb_store h) ?es"
    using assms(2) by (simp add: h'_def handleRollback_def Let_def)
  show "keyed (hb_store h')" using e by (simp add: s)
  assume k: "kind k = ''rec''"
  show "get_as as_record (hb_store h') k =
      (case get_as as_record (hb_store h) k of
         Some r \<Rightarrow> if rolls sp ori t r then survivor t (versions (hb_store h) sp (w_recordId r)) else Some r
       | None \<Rightarrow> None)"
  proof (cases "map_of ?es k")
    case (Some r)
    then show ?thesis using mem map_of_SomeD[OF Some] e k by (simp add: s)
  next
    case None
    then have "\<not> rolls sp ori t r" if r: "get_as as_record (hb_store h) k = Some r" for r
    proof -
      have "\<not> prefix (''rec:'' @ sp @ '':'') k"
        using None mem[of k r] r by (auto simp: map_of_eq_None_iff image_iff)
      then show ?thesis using keyed_rec[OF assms(1) k r] by (auto simp: rolls_def recKey_def)
    qed
    then show ?thesis using e k None by (auto simp: s split: option.split)
  qed
qed

lemma handleRollback_keyed: "keyed (hb_store h) \<Longrightarrow> keyed (hb_store (handleRollback c sp ori t others h))"
  using handleRollback_exact(1)[of h sp c ori t others]
  by (cases "sp \<in> set (cn_spaceIds c)") (simp_all add: handleRollback_def)

end
