(* ===== verification/HubSafety.thy ===== *)
theory HubSafety
  imports HubKeyed
begin

text \<open>
  The properties of the session hub, over runs of frames, closed sockets and revocations from an
  empty hub.
\<close>

section \<open>Runs\<close>

text \<open>What happens to a hub: a frame on a connection, a socket that closes, a device revoked.\<close>

datatype hub_event =
    HFrame nat HubConnection "ClientMessage option" "HubConnection list"
  | HClosed nat HubConnection "HubConnection list"
  | HRevoke nat string "HubConnection list"

fun hub_step :: "hub \<Rightarrow> hub_event \<Rightarrow> hub" where
  "hub_step h (HFrame now c frame others) = snd (handleMessage now c frame others h)"
| "hub_step h (HClosed now c others) = handleClose now c others h"
| "hub_step h (HRevoke now d cs) = snd (revokeDevice now d cs h)"

definition new_hub :: hub where
  "new_hub = \<lparr>hb_store = [], hb_out = []\<rparr>"

fun tidy_event :: "hub_event \<Rightarrow> bool" where
  "tidy_event (HFrame now c (Some (Publish rs)) others) \<longleftrightarrow> list_all tidy rs"
| "tidy_event _ \<longleftrightarrow> True"

fun rollback_event :: "hub_event \<Rightarrow> bool" where
  "rollback_event (HFrame now c frame others) \<longleftrightarrow> is_rollback frame"
| "rollback_event _ \<longleftrightarrow> False"

lemma bindings_kind:
  "js_wf st \<Longrightarrow> k \<in> set (map fst (connectionBindings d st)) \<Longrightarrow> kind k = ''conn''"
  using list_as_keys[of st as_spaces "connPrefix d"] kind_under(2) by (fastforce simp: connectionBindings_def)

lemma release_all_store:
  assumes "js_wf st"
  shows "js_wf (release_all d st)" "agree_but {''lease''} st (release_all d st)"
proof -
  have "kind k = ''lease''" if "prefix ''lease:'' k" for k
    using that by (auto simp: prefix_def kind_def)
  then have "\<forall>k \<in> set (map fst (filter (\<lambda>(k, l). le_holderDeviceId l = d) (list_as as_lease st ''lease:''))).
      kind k = ''lease''"
    using list_as_keys[OF assms, of as_lease "''lease:''"] by (auto simp: subset_iff image_iff Bex_def)
  then show "agree_but {''lease''} st (release_all d st)" unfolding release_all_def by (rule agree_dels)
  show "js_wf (release_all d st)" by (simp add: release_all_def store.ok_dels assms)
qed

lemma key_inj [simp]: "presenceKey a = presenceKey b \<longleftrightarrow> a = b" "revokedKey a = revokedKey b \<longleftrightarrow> a = b"
  by (simp_all add: presenceKey_def revokedKey_def)

text \<open>A closed socket: nothing but bindings, the device's leases and its presence.\<close>

lemma handleClose_cases:
  assumes "handleClose now c others h = h'"
  obtains (unbound) "h' = h"
  | (closed) d where "cn_deviceId c = Some d" "hb_store h' = st_delete (hb_store h) (connectionStorageKey d (cn_connectionId c))"
  | (kept) d where "cn_deviceId c = Some d"
      "hb_store h' = release_all d (st_delete (hb_store h) (connectionStorageKey d (cn_connectionId c)))"
  | (left) d e where "cn_deviceId c = Some d" "\<not> isRevoked d (hb_store h)"
      "hb_store h' = st_put (st_delete (release_all d (st_delete (hb_store h)
         (connectionStorageKey d (cn_connectionId c)))) (legacyConnKey d)) (presenceKey d) (VPresence e)"
proof (cases "cn_deviceId c")
  case None
  then show ?thesis using assms unbound by (simp add: handleClose_def)
next
  case (Some d)
  have r: "isRevoked d (st_delete (hb_store h) (connectionStorageKey d x)) = isRevoked d (hb_store h)" for x
    by (simp add: isRevoked_def store.get_del kind_neq)
  show ?thesis
    using assms closed[OF Some] kept[OF Some] left[OF Some]
    by (auto simp: handleClose_def Some r Let_def hub_emit_def split: if_splits)
qed

lemma handleClose_store:
  assumes "js_wf (hb_store h)"
    and "handleClose now c others h = h'"
  shows "js_wf (hb_store h') \<and> agree_but {''conn'', ''lease'', ''presence''} (hb_store h) (hb_store h') \<and>
    (isRevoked d (hb_store h) \<longrightarrow> st_get (hb_store h') (presenceKey d) = st_get (hb_store h) (presenceKey d))"
proof -
  have r: "js_wf (release_all d' (st_delete (hb_store h) x))"
    "kind y \<noteq> ''lease'' \<Longrightarrow> st_get (release_all d' (st_delete (hb_store h) x)) y = st_get (st_delete (hb_store h) x) y"
    for d' x y
    using release_all_store[OF store.ok_del[OF assms(1)]] by (simp_all add: agree_but_def)
  note s = store.get_put store.get_del store.ok_put store.ok_del r assms(1) agree_but_def kind_neq
  show ?thesis using assms(2)
  proof (cases rule: handleClose_cases)
    case (left d' e)
    then show ?thesis by (auto simp: s)
  qed (auto simp: s)
qed

lemma revokeDevice_store:
  assumes "js_wf (hb_store h)"
  shows "js_wf (hb_store (snd (revokeDevice now d cs h)))"
    "agree_but {''conn'', ''revoked'', ''presence''} (hb_store h) (hb_store (snd (revokeDevice now d cs h)))"
    "isRevoked d' (hb_store (snd (revokeDevice now d cs h))) \<longleftrightarrow> d' = d \<or> isRevoked d' (hb_store h)"
    "st_get (hb_store (snd (revokeDevice now d cs h))) (presenceKey d') =
       (if d' = d then None else st_get (hb_store h) (presenceKey d'))"
proof -
  let ?s = "st_delete (st_put (hb_store h) (revokedKey d) VTrue) (legacyConnKey d)"
  let ?ks = "map fst (connectionBindings d ?s)"
  have wf: "js_wf ?s" by (simp add: store.ok_put store.ok_del assms)
  have k: "kind y \<noteq> ''conn'' \<Longrightarrow> y \<notin> set ?ks" for y using bindings_kind[OF wf] by blast
  note s = revokeDevice_def store.get_put store.get_del store.get_dels store.ok_put store.ok_del store.ok_dels
    assms agree_but_def kind_neq Let_def
  show "js_wf (hb_store (snd (revokeDevice now d cs h)))" by (simp add: s)
  show "agree_but {''conn'', ''revoked'', ''presence''} (hb_store h) (hb_store (snd (revokeDevice now d cs h)))"
    using k by (auto simp: s)
  show "isRevoked d' (hb_store (snd (revokeDevice now d cs h))) \<longleftrightarrow> d' = d \<or> isRevoked d' (hb_store h)"
    using k[of "revokedKey d'"] by (auto simp: s isRevoked_def)
  show "st_get (hb_store (snd (revokeDevice now d cs h))) (presenceKey d') =
       (if d' = d then None else st_get (hb_store h) (presenceKey d'))"
    using k[of "presenceKey d'"] by (auto simp: s)
qed

section \<open>Invariants of a run\<close>

lemma hub_step_wf: "js_wf (hb_store h) \<Longrightarrow> js_wf (hb_store (hub_step h e))"
  using handleMessage_store(1) handleClose_store[OF _ refl] revokeDevice_store(1) by (cases e) simp_all

interpretation stores: kept_invariant hub_step "\<lambda>h. js_wf (hb_store h)"
  by unfold_locales (rule hub_step_wf)

lemma new_hub_wf [simp]: "js_wf (hb_store new_hub)"
  by (simp add: new_hub_def)

lemma hub_step_advance:
  "js_wf (hb_store h) \<Longrightarrow> \<not> rollback_event e \<Longrightarrow> versions_advance (hb_store h) (hb_store (hub_step h e))"
  using handleMessage_advance[of h] versions_advance_agree[OF conjunct1[OF conjunct2[OF handleClose_store[OF _ refl]]]]
    versions_advance_agree[OF revokeDevice_store(2)]
  by (cases e) simp_all

lemma hub_run_advance:
  "js_wf (hb_store h) \<Longrightarrow> list_all (\<lambda>e. \<not> rollback_event e) es \<Longrightarrow>
   versions_advance (hb_store h) (hb_store (foldl hub_step h es))"
proof (induction es arbitrary: h)
  case (Cons e es)
  have "versions_advance (hb_store (hub_step h e)) (hb_store (foldl hub_step (hub_step h e) es))"
    by (rule Cons.IH) (use Cons.prems hub_step_wf in simp_all)
  then show ?case using versions_advance_trans hub_step_advance[of h e] Cons.prems by auto
qed (simp add: versions_advance_def)

text \<open>A revoked device, and no presence of it left.\<close>

definition shut_out :: "string \<Rightarrow> hub \<Rightarrow> bool" where
  "shut_out d h \<longleftrightarrow> js_wf (hb_store h) \<and> isRevoked d (hb_store h) \<and> st_get (hb_store h) (presenceKey d) = None"

lemma handleMessage_shut_out:
  assumes "shut_out d h"
  shows "shut_out d (snd (handleMessage now c frame others h))"
proof -
  have "shut_out d h'" if "snd (handleMessage now c frame others h) = h'" for h'
    using that
  proof (cases rule: handleMessage_cases)
    case (said os)
    then show ?thesis using assms by (simp add: shut_out_def)
  next
    case (hello d' ss)
    then show ?thesis using assms handleHello_store(1)[of h now c d' ss others]
      by (auto simp: shut_out_def handleHello_def isRevoked_def Let_def store.get_put kind_neq split: option.split)
  next
    case (ran d' msg c')
    then have a: "agree_but {''rec'', ''hist'', ''rl'', ''wm'', ''lease'', ''ws''} (hb_store h) (hb_store h')"
      "js_wf (hb_store h')"
      using dispatch_store[of h now c' d' msg others] assms by (simp_all add: shut_out_def)
    then show ?thesis using assms by (simp add: shut_out_def isRevoked_def agree_but_def)
  qed
  then show ?thesis by simp
qed

lemma hub_step_shut_out: "shut_out d h \<Longrightarrow> shut_out d (hub_step h e)"
proof (cases e)
  case (HFrame now c frame others)
  then show "shut_out d h \<Longrightarrow> ?thesis" using handleMessage_shut_out by simp
next
  case (HClosed now c others)
  assume s: "shut_out d h"
  then show ?thesis using handleClose_store[OF _ refl, of h now c others d] HClosed
    by (auto simp: shut_out_def isRevoked_def agree_but_def)
next
  case (HRevoke now d' cs)
  assume s: "shut_out d h"
  then show ?thesis using revokeDevice_store[where h = h and now = now and d = d' and cs = cs] HRevoke by (auto simp: shut_out_def)
qed

interpretation revocation: kept_invariant hub_step "shut_out d" for d
  by unfold_locales (rule hub_step_shut_out)

lemma shut_out_frames:
  assumes "isRevoked d (hb_store h)"
  shows "handleMessage now (c\<lparr>cn_deviceId := Some d\<rparr>) (Some msg) others h =
      (c\<lparr>cn_deviceId := Some d\<rparr>, hub_emit [HClose (cn_connectionId c) CLOSE_REVOKED ''revoked''] h)"
    "handleMessage now (c\<lparr>cn_deviceId := None\<rparr>) (Some (Hello d ss)) others h =
      (c\<lparr>cn_deviceId := None\<rparr>, hub_emit [HClose (cn_connectionId c) CLOSE_REVOKED ''revoked''] h)"
  using assms by (cases msg; simp add: handleMessage_def handleHello_def)+

text \<open>Every record lies at its key, along a run of frames whose records are tidy.\<close>

lemma handlePublish_keyed:
  assumes "keyed (hb_store h)" "list_all tidy rs"
  shows "keyed (hb_store (handlePublish now c d rs others h))"
proof -
  have "keyed (pl_store (publish_result now c d rs h))"
    unfolding publish_result_def by (rule keyed_publish) (use assms in \<open>simp_all add: publish_start_def\<close>)
  then show ?thesis
    by (rule keyed_agree[OF _ handlePublish_store(2)])
      (use handlePublish_store(1) keyed_wf[OF assms(1)] in auto)
qed

lemma handleMessage_keyed:
  assumes "keyed (hb_store h)" "tidy_event (HFrame now c frame others)"
  shows "keyed (hb_store (snd (handleMessage now c frame others h)))"
proof -
  note wf = keyed_wf[OF assms(1)]
  have "keyed (hb_store h')" if "snd (handleMessage now c frame others h) = h'" for h'
    using that
  proof (cases rule: handleMessage_cases)
    case (said os)
    then show ?thesis using assms by simp
  next
    case (hello d ss)
    then show ?thesis
      using keyed_agree[OF assms(1) handleHello_store(2) _ _ handleHello_store(1)[OF wf]] by simp
  next
    case (ran d msg c')
    then show ?thesis
      using assms handlePublish_keyed[OF assms(1)] handleRollback_keyed[OF assms(1)]
        keyed_agree[OF assms(1) handleLeaseAcquire_store(2) _ _ handleLeaseAcquire_store(1)[OF wf]]
        keyed_agree[OF assms(1) handleLeaseRelease_store(2) _ _ handleLeaseRelease_store(1)[OF wf]]
        keyed_agree[OF assms(1) handleWorkspacePublish_store(2) _ _ handleWorkspacePublish_store(1)[OF wf]]
      by (cases msg) (simp_all add: dispatch_def)
  qed
  then show ?thesis by simp
qed

lemma hub_step_keyed:
  assumes "keyed (hb_store h)" "tidy_event e"
  shows "keyed (hb_store (hub_step h e))"
proof (cases e)
  case (HFrame now c frame others)
  then show ?thesis using handleMessage_keyed assms by simp
next
  case (HClosed now c others)
  then show ?thesis
    using keyed_agree[OF assms(1), of "{''conn'', ''lease'', ''presence''}"]
      handleClose_store[OF keyed_wf[OF assms(1)] refl, of now c others] by simp
next
  case (HRevoke now d cs)
  then show ?thesis
    using keyed_agree[OF assms(1) revokeDevice_store(2) _ _ revokeDevice_store(1)] keyed_wf[OF assms(1)] by simp
qed

lemma hub_run_keyed:
  "keyed (hb_store h) \<Longrightarrow> list_all tidy_event es \<Longrightarrow> keyed (hb_store (foldl hub_step h es))"
  by (induction es arbitrary: h) (simp_all add: hub_step_keyed)

lemma new_hub_keyed [simp]: "keyed (hb_store new_hub)"
  by (simp add: keyed_def new_hub_def st_get_def js_wf_def)

text \<open>Appending to a record's history: what stays and what goes.\<close>

lemma list_as_all:
  "\<forall>(k, v) \<in> set xs. as v \<noteq> None \<Longrightarrow>
   length (List.map_filter (\<lambda>(k, v). map_option (Pair k) (as v)) xs) = length xs \<and>
   List.map_filter (\<lambda>(k, v). map_option (Pair k) (as v)) (drop n xs) =
     drop n (List.map_filter (\<lambda>(k, v). map_option (Pair k) (as v)) xs)"
proof (induction xs arbitrary: n)
  case (Cons x xs)
  obtain y where "as (snd x) = Some y" using Cons.prems by auto
  then show ?case using Cons by (cases n) (auto simp: map_filter_simps split_beta)
qed (simp add: map_filter_simps)

lemma appendHistory_versions:
  fixes st :: hub_store and r :: CookieRecordWire
  assumes "keyed st" "tidy r"
  defines "st1 \<equiv> st_put st (histKey (w_spaceId r) (w_recordId r) (w_hlc r)) (VRecord r)"
  shows "versions (appendHistory r st) (w_spaceId r) (w_recordId r) =
    drop (length (versions st1 (w_spaceId r) (w_recordId r)) - MAX_RECORD_HISTORY)
      (versions st1 (w_spaceId r) (w_recordId r))"
proof -
  let ?p = "histPrefix (w_spaceId r) (w_recordId r)"
  have k1: "keyed st1" unfolding st1_def by (rule keyed_put_hist[OF assms(1,2)])
  have "as_record v \<noteq> None" if "(k, v) \<in> set (st_list st1 ?p)" for k v
    using that store.lst_mem[OF keyed_wf[OF k1]] k1 kind_under(1) unfolding keyed_def by fastforce
  then have "\<forall>(k, v) \<in> set (st_list st1 ?p). as_record v \<noteq> None" by blast
  note f = list_as_all[OF this]
  show ?thesis
    using f unfolding versions_def list_as_def appendHistory_list[OF keyed_wf[OF assms(1)]] st1_def[symmetric]
    by (simp add: drop_map)
qed

lemma versions_put:
  assumes "keyed st" "tidy r"
  shows "set (versions (st_put st (histKey (w_spaceId r) (w_recordId r) (w_hlc r)) (VRecord r)) (w_spaceId r) (w_recordId r)) =
    insert r {x \<in> set (versions st (w_spaceId r) (w_recordId r)). w_hlc x \<noteq> w_hlc r}"
  using versions_mem[OF keyed_put_hist[OF assms]] versions_mem[OF assms(1)] assms(2)
  by (auto simp: histKey_def encodeHlc_inj dest!: tidy_plain split: if_splits)

text \<open>Hydration: the map of versions holds one record for each record id and stamp.\<close>

definition version_of :: "CookieRecordWire \<Rightarrow> string \<times> hlc" where
  "version_of r = (w_recordId r, w_hlc r)"

definition version_key :: "string \<times> hlc \<Rightarrow> string" where
  "version_key v = fst v @ ''@'' @ encodeHlc (snd v)"

lemma at_split:
  "CHR ''@'' \<notin> set a \<Longrightarrow> CHR ''@'' \<notin> set b \<Longrightarrow> a @ CHR ''@'' # x = b @ CHR ''@'' # y \<longleftrightarrow> a = b \<and> x = y"
proof (induction a arbitrary: b)
  case Nil
  then show ?case by (cases b) auto
next
  case (Cons c a)
  then show ?case by (cases b) auto
qed

lemma version_key_inj: "tidy a \<Longrightarrow> tidy b \<Longrightarrow> version_key (version_of a) = version_key (version_of b) \<Longrightarrow>
   version_of a = version_of b"
  by (auto simp: version_key_def version_of_def at_split encodeHlc_inj dest!: tidy_plain)

lemma add_versions:
  "js_wf m \<Longrightarrow> (\<And>k x. (k, x) \<in> set m \<Longrightarrow> k = version_key (version_of x)) \<Longrightarrow>
   js_wf (foldl (add_version sp since) m rs) \<and>
   (\<forall>(k, x) \<in> set (foldl (add_version sp since) m rs). k = version_key (version_of x) \<and>
      (x \<in> snd ` set m \<or> (x \<in> set rs \<and> wanted sp since x))) \<and>
   fst ` set (foldl (add_version sp since) m rs) =
     fst ` set m \<union> (version_key \<circ> version_of) ` {x \<in> set rs. wanted sp since x}"
proof (induction rs arbitrary: m)
  case (Cons r rs)
  let ?m = "add_version sp since m r"
  have wf: "js_wf ?m" using Cons.prems(1) by (auto simp: add_version_def)
  have mem: "(k, x) \<in> set ?m \<longleftrightarrow> (if wanted sp since r \<and> k = version_key (version_of r) then x = r else (k, x) \<in> set m)"
    for k x
    using js_wf_get[OF wf, of k x] js_wf_get[OF Cons.prems(1), of k x]
    by (auto simp: add_version_def version_key_def version_of_def)
  have keys: "fst ` set ?m = fst ` set m \<union> (if wanted sp since r then {version_key (version_of r)} else {})"
    by (auto simp: add_version_def version_key_def version_of_def dom_update)
  have i: "js_wf (foldl (add_version sp since) ?m rs) \<and>
   (\<forall>(k, x) \<in> set (foldl (add_version sp since) ?m rs). k = version_key (version_of x) \<and>
      (x \<in> snd ` set ?m \<or> (x \<in> set rs \<and> wanted sp since x))) \<and>
   fst ` set (foldl (add_version sp since) ?m rs) =
     fst ` set ?m \<union> (version_key \<circ> version_of) ` {x \<in> set rs. wanted sp since x}"
  proof (rule Cons.IH[OF wf])
    show "k = version_key (version_of x)" if "(k, x) \<in> set ?m" for k x
      using that mem Cons.prems(2) by (auto split: if_splits)
  qed
  have sub: "x \<in> snd ` set m \<or> (x = r \<and> wanted sp since r)" if x: "x \<in> snd ` set ?m" for x
  proof -
    obtain k where "(k, x) \<in> set ?m" using x by auto
    then have "(k, x) \<in> set m \<or> (x = r \<and> wanted sp since r)" using mem[of k x] by (auto split: if_splits)
    then show ?thesis by (auto intro: rev_image_eqI)
  qed
  have "k = version_key (version_of x) \<and> (x \<in> snd ` set m \<or> (x \<in> set (r # rs) \<and> wanted sp since x))"
    if "(k, x) \<in> set (foldl (add_version sp since) ?m rs)" for k x
  proof -
    have "k = version_key (version_of x) \<and> (x \<in> snd ` set ?m \<or> (x \<in> set rs \<and> wanted sp since x))"
      using i that by blast
    then show ?thesis using sub[of x] by auto
  qed
  moreover have "fst ` set (foldl (add_version sp since) ?m rs) =
      fst ` set m \<union> (version_key \<circ> version_of) ` {x \<in> set (r # rs). wanted sp since x}"
    using i unfolding keys by auto
  ultimately show ?case using i by auto
qed (auto intro: rev_image_eqI)

definition stored :: "hub_store \<Rightarrow> CookieRecordWire \<Rightarrow> bool" where
  "stored st r \<longleftrightarrow> get_as as_record st (recKey (w_spaceId r) (w_recordId r)) = Some r \<or>
     get_as as_record st (histKey (w_spaceId r) (w_recordId r) (w_hlc r)) = Some r"

lemma hydrateSpace_exact:
  fixes since :: "hlc option" and st :: hub_store and sp :: string
  assumes "keyed st" "CHR '':'' \<notin> set sp"
  defines "rs \<equiv> fst (hydrateSpace sp since st)"
  shows "sorted (map w_hlc rs)" "distinct (map version_of rs)"
    "version_of ` set rs = version_of ` {r. stored st r \<and> wanted sp since r}"
proof -
  let ?l = "map snd (list_as as_record st (''hist:'' @ sp @ '':'')) @ map snd (list_as as_record st (''rec:'' @ sp @ '':''))"
  define M where "M = foldl (add_version sp since) [] ?l"
  have m: "js_wf M \<and>
   (\<forall>(k, x) \<in> set M. k = version_key (version_of x) \<and> x \<in> set ?l \<and> wanted sp since x) \<and>
   fst ` set M = (version_key \<circ> version_of) ` {x \<in> set ?l. wanted sp since x}"
    using add_versions[of "[]" sp since ?l] unfolding M_def by (simp add: js_wf_def)
  have kinds: "prefix (''hist:'' @ sp @ '':'') k \<Longrightarrow> kind k = ''hist''"
    "prefix (''rec:'' @ sp @ '':'') k \<Longrightarrow> kind k = ''rec''" for k
    by (auto simp: prefix_def kind_def)
  have l: "x \<in> set ?l \<longleftrightarrow> stored st x" and t: "x \<in> set ?l \<Longrightarrow> tidy x" if w: "wanted sp since x" for x
  proof -
    note mem = record_mem[OF keyed_wf[OF assms(1)]]
    note kr = keyed_rec[OF assms(1)] and kh = keyed_hist[OF assms(1)]
    have sp: "w_spaceId x = sp" using w by (simp add: wanted_def)
    have px: "prefix (''hist:'' @ sp @ '':'') (histKey (w_spaceId x) (w_recordId x) (w_hlc x))"
      "prefix (''rec:'' @ sp @ '':'') (recKey (w_spaceId x) (w_recordId x))"
      by (simp_all add: sp histKey_def recKey_def)
    show "x \<in> set ?l \<longleftrightarrow> stored st x"
    proof
      assume "x \<in> set ?l"
      then obtain k where "get_as as_record st k = Some x" "kind k = ''hist'' \<or> kind k = ''rec''"
        using mem kinds by fastforce
      then show "stored st x" using kr kh by (auto simp: stored_def)
    next
      assume "stored st x"
      then show "x \<in> set ?l" using mem px unfolding stored_def by force
    qed
    then show "x \<in> set ?l \<Longrightarrow> tidy x"
      using kr[OF kind_of(1), of _ _ x] kh[OF kind_of(2), of _ _ _ x] unfolding stored_def by blast
  qed
  have rs: "rs = sortByHlc w_hlc (map snd M)" by (simp add: rs_def hydrateSpace_def Let_def M_def)
  show "sorted (map w_hlc rs)" by (simp add: rs sortByHlc_sorted)
  have "map fst M = map (version_key \<circ> version_of \<circ> snd) M" using m by (auto intro!: map_cong)
  then have "distinct (map (version_of \<circ> snd) M)"
    using m unfolding js_wf_def by (metis (no_types, lifting) comp_assoc distinct_map map_map)
  then show "distinct (map version_of rs)" by (simp add: rs)
  show "version_of ` set rs = version_of ` {r. stored st r \<and> wanted sp since r}"
  proof
    show "version_of ` set rs \<subseteq> version_of ` {r. stored st r \<and> wanted sp since r}"
    proof (rule image_mono, rule subsetI)
      fix x assume "x \<in> set rs"
      then obtain k where "(k, x) \<in> set M" by (auto simp: rs)
      then have "x \<in> set ?l" "wanted sp since x" using m by auto
      then show "x \<in> {r. stored st r \<and> wanted sp since r}" using l by auto
    qed
    show "version_of ` {r. stored st r \<and> wanted sp since r} \<subseteq> version_of ` set rs"
    proof (rule image_subsetI)
      fix r assume "r \<in> {r. stored st r \<and> wanted sp since r}"
      then have r: "stored st r" "wanted sp since r" by simp_all
      then have "version_key (version_of r) \<in> fst ` set M" using m l[OF r(2)] r by auto
      then obtain x where x: "(version_key (version_of r), x) \<in> set M" by auto
      have "version_key (version_of r) = version_key (version_of x)" "x \<in> set ?l" "wanted sp since x"
        using m x by auto
      then have "version_of r = version_of x"
        using version_key_inj t l r by blast
      moreover have "x \<in> set rs" using x by (force simp: rs)
      ultimately show "version_of r \<in> version_of ` set rs" by (rule image_eqI)
    qed
  qed
qed

lemma slices_exact:
  "n \<noteq> 0 \<Longrightarrow> concat (slices n xs) = xs \<and> list_all (\<lambda>c. c \<noteq> [] \<and> length c \<le> n) (slices n xs)"
proof (induction n xs rule: slices.induct)
  case (1 n xs)
  then show ?case by (cases "xs = []") (auto simp: slices.simps[of n xs] slices.simps[of n "[]"])
qed

lemma histKey_ids:
  "tidy r \<Longrightarrow> tidy v \<Longrightarrow>
   histKey (w_spaceId r) (w_recordId r) h = histKey (w_spaceId v) (w_recordId v) h \<Longrightarrow>
   w_spaceId v = w_spaceId r \<and> w_recordId v = w_recordId r"
  by (auto simp: histKey_def colon_split dest!: tidy_plain)

text \<open>The newest of some versions at or below a stamp, if there is one.\<close>

definition newest_below :: "hlc \<Rightarrow> CookieRecordWire set \<Rightarrow> CookieRecordWire option \<Rightarrow> bool" where
  "newest_below t V res \<longleftrightarrow>
     (case res of
        None \<Rightarrow> \<forall>v \<in> V. t < w_hlc v
      | Some v \<Rightarrow> v \<in> V \<and> w_hlc v \<le> t \<and> (\<forall>u \<in> V. w_hlc u \<le> t \<longrightarrow> w_hlc u \<le> w_hlc v))"

lemma survivor_newest:
  assumes "sorted_wrt (<) (map w_hlc vs)"
  shows "newest_below t (set vs) (survivor t vs)"
proof (cases "filter (\<lambda>v. w_hlc v \<le> t) vs" rule: rev_cases)
  case Nil
  then show ?thesis by (auto simp: survivor_def newest_below_def filter_empty_conv not_le)
next
  case (snoc ys y)
  have s: "sorted_wrt (\<lambda>a b. w_hlc a < w_hlc b) (ys @ [y])"
    using assms sorted_wrt_filter[of "\<lambda>a b. w_hlc a < w_hlc b" vs] by (simp add: sorted_wrt_map snoc[symmetric])
  have "set (filter (\<lambda>v. w_hlc v \<le> t) vs) = insert y (set ys)" by (simp only: snoc) simp
  then have m: "\<forall>u. u \<in> set vs \<and> w_hlc u \<le> t \<longleftrightarrow> u = y \<or> u \<in> set ys" by auto
  have "survivor t vs = Some y" by (cases ys) (simp_all add: survivor_def snoc)
  moreover have "\<forall>u \<in> set ys. w_hlc u \<le> w_hlc y" using s by (auto simp: sorted_wrt_append less_imp_le)
  ultimately show ?thesis using m by (auto simp: newest_below_def)
qed

section \<open>Properties\<close>

text \<open>
  C5. The hub never moves a record back: whatever frames (of any device, valid or not), closed
  sockets and revocations follow, every record it stores is later replaced only by a record with the
  same or a newer stamp, and never lost.  Rollback frames, which say otherwise, are the exception.
\<close>

theorem hub_versions_never_go_back:
  assumes "list_all (\<lambda>e. \<not> rollback_event e) later"
    and "get_as as_record (hb_store (foldl hub_step new_hub before)) (recKey sp rid) = Some r"
  shows "\<exists>r'. get_as as_record (hb_store (foldl hub_step new_hub (before @ later))) (recKey sp rid) = Some r' \<and>
    compareHlc (w_hlc r) (w_hlc r') \<le> 0"
  using hub_run_advance[OF stores.along_run[OF new_hub_wf] assms(1), of before] assms(2)
  by (auto simp: versions_advance_def)


lemma handleMessage_ran:
  assumes "cn_deviceId c = Some d" "\<not> isRevoked d (hb_store h)" "\<forall>x ss. msg \<noteq> Hello x ss"
  shows "snd (handleMessage now c (Some msg) others h) =
    dispatch now (c\<lparr>cn_spaceIds := declaredSpaces d (cn_connectionId c) (hb_store h)\<rparr>) d msg others h"
  using assms by (cases msg) (simp_all add: handleMessage_def Let_def)

lemma handleMessage_bound:
  assumes "cn_deviceId c = Some d" "\<forall>x ss. msg \<noteq> Hello x ss"
  shows "(\<exists>os. snd (handleMessage now c (Some msg) others h) = hub_emit os h \<and> (\<forall>p m. HSend p m \<notin> set os)) \<or>
    (\<exists>c'. snd (handleMessage now c (Some msg) others h) = dispatch now c' d msg others h)"
  using assms by (cases msg) (auto simp: handleMessage_def Let_def)

text \<open>
  C7. While another device holds a live lease on an origin of a space, a device that publishes
  changes no stored record of that origin there, and none of its records of that origin is sent on
  to another device.
\<close>

theorem foreign_lease_keeps_writers_out:
  assumes "js_wf (hb_store h)" "cn_deviceId c = Some d"
    and "foreign_lease now d (get_as as_lease (hb_store h) (leaseKey (w_spaceId r) (w_originId r)))"
  shows "(get_as as_record (hb_store (snd (handleMessage now c (Some (Publish rs)) others h))) (recKey sp rid) = Some r \<longrightarrow>
      get_as as_record (hb_store h) (recKey sp rid) = Some r) \<and>
    (HSend p (Records sp ws) \<in> set (drop (length (hb_out h)) (hb_out (snd (handleMessage now c (Some (Publish rs)) others h)))) \<longrightarrow>
      r \<notin> set ws)"
proof -
  have main: "(get_as as_record (hb_store (handlePublish now c' d rs others h)) (recKey sp rid) = Some r \<longrightarrow>
      get_as as_record (hb_store h) (recKey sp rid) = Some r) \<and>
    (HSend p (Records sp ws) \<in> set (drop (length (hb_out h)) (hb_out (handlePublish now c' d rs others h))) \<longrightarrow> r \<notin> set ws)"
    for c'
  proof -
    let ?p = "publish_result now c' d rs h"
    have ok: "published_ok now d (cn_spaceIds c') (hb_store h) ?p" by (rule publish_result_ok[OF assms(1)])
    have "get_as as_record (hb_store (handlePublish now c' d rs others h)) (recKey sp rid) =
        get_as as_record (pl_store ?p) (recKey sp rid)"
      by (rule agree_get[OF handlePublish_store(2)[OF assms(1)]]) simp
    moreover have "r \<notin> set ws" if "(s, ws) \<in> set (pl_bySpace ?p)" for s
      using ok js_wf_get[of "pl_bySpace ?p" s ws] that assms(3) by (auto simp: published_ok_def)
    moreover have "get_as as_record (pl_store ?p) (recKey sp rid) = Some r \<longrightarrow>
        get_as as_record (hb_store h) (recKey sp rid) = Some r"
      using ok assms(3) unfolding published_ok_def by (metis kind_of(1))
    ultimately show ?thesis
      by (auto simp: published_ok_def handlePublish_def Let_def publish_result_def[symmetric] hub_emit_def to_conn_def
          to_all_def fan_out_def)
  qed
  then show ?thesis
    using handleMessage_bound[OF assms(2), of "Publish rs" now others h] by (auto simp: dispatch_def hub_emit_def)
qed

text \<open>
  A publish is acknowledged first, and the acknowledgement splits the batch: each record
  published is named exactly once, as accepted or with the reason it was rejected for.
\<close>

theorem publish_ack_splits_batch:
  assumes "cn_deviceId c = Some d" "\<not> isRevoked d (hb_store h)"
  shows "\<exists>accepted rejected rest. hb_out (snd (handleMessage now c (Some (Publish rs)) others h)) =
      hb_out h @ to_conn c (PublishAck accepted rejected) # rest \<and>
    mset accepted + mset (map pr_recordId rejected) = mset (map w_recordId rs)"
  using publish_partition[of now d "declaredSpaces d (cn_connectionId c) (hb_store h)" "publish_start (hb_store h)" rs]
  by (simp add: handleMessage_ran[OF assms] dispatch_def handlePublish_def Let_def hub_emit_def to_conn_def publish_start_def)

text \<open>
  A live lease of another device passes to a device that asks for it only by force, and only
  when the request names a record and a stamp newer than that record's stored version, of that
  origin; the new lease is the asking device's, runs no longer than the longest term allowed, and
  every connection of the old holder is told.  Otherwise the lease stays as it is.
\<close>

theorem lease_taken_only_by_newer_candidate:
  assumes "get_as as_lease (hb_store h) (leaseKey (la_spaceId m) (la_originId m)) = Some l"
    and "le_holderDeviceId l \<noteq> d" "now < le_expiresAtMs l" "cn_deviceId c = Some d"
  shows "let h' = snd (handleMessage now c (Some (LeaseAcquireMsg m)) others h);
      l' = get_as as_lease (hb_store h') (leaseKey (la_spaceId m) (la_originId m))
    in l' = Some l \<or>
      (la_force m = Some True \<and>
       (\<exists>rid cand. la_recordId m = Some rid \<and> la_candidateHlc m = Some cand \<and>
          (\<forall>r. get_as as_record (hb_store h) (recKey (la_spaceId m) rid) = Some r \<longrightarrow>
             w_originId r = la_originId m \<and> compareHlc (w_hlc r) cand < 0)) \<and>
       (\<exists>x. l' = Some x \<and> le_holderDeviceId x = d \<and> le_expiresAtMs x \<le> now + MAX_LEASE_TTL_MS) \<and>
       (\<forall>p \<in> set others. cn_deviceId p = Some (le_holderDeviceId l) \<longrightarrow>
          to_conn p (LeaseRevoked (la_spaceId m) (la_originId m) d) \<in> set (hb_out h')))"
  (is "?ok (snd (handleMessage now c (Some (LeaseAcquireMsg m)) others h))")
proof -
  have "?ok (handleLeaseAcquire now c' d m others h)" for c'
    using assms(1-3)
    by (auto simp: handleLeaseAcquire_def force_refused_def grant_lease_def deny_def hub_emit_def to_all_def Let_def
        not_le split: option.splits)
  moreover have "?ok (hub_emit os h)" for os using assms(1) by (simp add: Let_def)
  moreover have "(\<exists>os. snd (handleMessage now c (Some (LeaseAcquireMsg m)) others h) = hub_emit os h) \<or>
      (\<exists>c'. snd (handleMessage now c (Some (LeaseAcquireMsg m)) others h) = handleLeaseAcquire now c' d m others h)"
    using handleMessage_bound[OF assms(4), of "LeaseAcquireMsg m" now others h] by (auto simp: dispatch_def)
  ultimately show ?thesis by (elim disjE exE) (simp_all only:)
qed


text \<open>
  Hydrating a space returns, oldest first and in chunks of at most 256, one record for each
  version the hub retains of the space (newer than the stamp asked for), each once, and then the
  number sent and the space's watermark.
\<close>

theorem hydrate_returns_each_version_once:
  assumes "list_all tidy_event es" "CHR '':'' \<notin> set sp" "cn_deviceId c = Some d"
    and "\<not> isRevoked d (hb_store (foldl hub_step new_hub es))"
  shows "let h = foldl hub_step new_hub es
    in \<exists>chunks. hb_out (snd (handleMessage now c (Some (Hydrate sp since)) others h)) =
        hb_out h @ map (\<lambda>x. to_conn c (Records sp x)) chunks @
          [to_conn c (HydrateDone sp (length (concat chunks)) (get_as as_stamp (hb_store h) (wmKey sp)))] \<and>
      list_all (\<lambda>x. x \<noteq> [] \<and> length x \<le> HYDRATE_CHUNK_SIZE) chunks \<and>
      sorted (map w_hlc (concat chunks)) \<and> distinct (map version_of (concat chunks)) \<and>
      version_of ` set (concat chunks) = version_of ` {r. stored (hb_store h) r \<and> wanted sp since r}"
proof -
  define h where "h = foldl hub_step new_hub es"
  define rs where "rs = fst (hydrateSpace sp since (hb_store h))"
  have k: "keyed (hb_store h)" unfolding h_def by (rule hub_run_keyed[OF new_hub_keyed assms(1)])
  note e = hydrateSpace_exact[OF k assms(2), of since, folded rs_def]
  note s = slices_exact[of HYDRATE_CHUNK_SIZE rs]
  have w: "hydrateSpace sp since (hb_store h) = (rs, get_as as_stamp (hb_store h) (wmKey sp))"
    by (simp add: rs_def hydrateSpace_def Let_def)
  have "hb_out (snd (handleMessage now c (Some (Hydrate sp since)) others h)) =
      hb_out h @ map (\<lambda>x. to_conn c (Records sp x)) (slices HYDRATE_CHUNK_SIZE rs) @
        [to_conn c (HydrateDone sp (length rs) (get_as as_stamp (hb_store h) (wmKey sp)))]"
    using handleMessage_ran[OF assms(3), of h "Hydrate sp since"] assms(4)
    by (simp add: h_def[symmetric] dispatch_def handleHydrate_def w to_conn_def)
  then show ?thesis
    unfolding Let_def h_def[symmetric]
    using s e by (intro exI[of _ "slices HYDRATE_CHUNK_SIZE rs"]) (simp add: HYDRATE_CHUNK_SIZE_def)
qed


section \<open>Workspace documents\<close>

text \<open>The cell of one document: a newer document takes its place.\<close>

definition doc_offer :: "WorkspaceRecordWire option \<Rightarrow> WorkspaceRecordWire \<Rightarrow> WorkspaceRecordWire option" where
  "doc_offer cell d =
     (case cell of None \<Rightarrow> Some d | Some e \<Rightarrow> if ws_hlc e < ws_hlc d then Some d else cell)"

interpretation doc: newest_cell ws_hlc doc_offer
  by unfold_locales (auto simp: doc_offer_def)

lemma publish_doc_cell:
  "get_as as_doc (fst (publish_doc acc d)) (workspaceKey k) =
     (if ws_key d = k then doc_offer (get_as as_doc (fst acc) (workspaceKey k)) d
      else get_as as_doc (fst acc) (workspaceKey k))"
  by (auto simp: publish_doc_def doc_offer_def workspaceKey_def Let_def not_le split: option.split)

lemma publish_docs_cell:
  "get_as as_doc (fst (foldl publish_doc acc ds)) (workspaceKey k) =
     foldl doc_offer (get_as as_doc (fst acc) (workspaceKey k)) (filter (\<lambda>d. ws_key d = k) ds)"
  by (induction ds arbitrary: acc) (simp_all add: publish_doc_cell)

definition publish_docs :: "hub \<Rightarrow> WorkspaceRecordWire list \<times> HubConnection list \<Rightarrow> hub" where
  "publish_docs h b = handleWorkspacePublish (fst b) (snd b) h"

lemma publish_docs_batch:
  "get_as as_doc (hb_store (publish_docs h b)) (workspaceKey k) =
     foldl doc_offer (get_as as_doc (hb_store h) (workspaceKey k)) (filter (\<lambda>d. ws_key d = k) (fst b))"
  using publish_docs_cell[of "(hb_store h, [])" "fst b" k]
  by (simp add: publish_docs_def handleWorkspacePublish_def split_beta)

lemma publish_docs_batches:
  "get_as as_doc (hb_store (foldl publish_docs h bs)) (workspaceKey k) =
     foldl doc_offer (get_as as_doc (hb_store h) (workspaceKey k)) (filter (\<lambda>d. ws_key d = k) (concat (map fst bs)))"
  by (induction bs arbitrary: h) (simp_all add: publish_docs_batch)

text \<open>
  A workspace document is a last-writer-wins register: after any batches, starting from no
  document, the hub holds for a key the newest document published under it, whatever batches and
  order they came in.
\<close>

theorem workspace_document_newest:
  assumes "get_as as_doc (hb_store h) (workspaceKey k) = None" "d \<in> set (concat (map fst bs))" "ws_key d = k"
  shows "\<exists>m. get_as as_doc (hb_store (foldl publish_docs h bs)) (workspaceKey k) = Some m \<and>
    m \<in> set (concat (map fst bs)) \<and> ws_key m = k \<and> compareHlc (ws_hlc d) (ws_hlc m) \<le> 0"
proof -
  have "filter (\<lambda>d. ws_key d = k) (concat (map fst bs)) \<noteq> []" using assms(2,3) by (auto simp: filter_empty_conv)
  then obtain m where m: "foldl doc_offer None (filter (\<lambda>d. ws_key d = k) (concat (map fst bs))) = Some m"
    using doc.offers_full[of None] by blast
  then show ?thesis
    using doc.offers_newest[OF m] assms by (auto simp: publish_docs_batches)
qed

section \<open>Instances\<close>

definition demo_record :: "nat \<Rightarrow> CookieRecordWire" where
  "demo_record n = \<lparr>w_spaceId = ''s'', w_recordId = replicate 64 (CHR ''a''), w_originId = replicate 64 (CHR ''b''),
     w_sealedRecord = ''x'', w_hlc = \<lparr>physicalMs = n, logical = 0, deviceId = ''d''\<rparr>, w_causalParent = None,
     w_deviceSig = ''y'', w_cause = WRITE\<rparr>"

definition demo_conn :: HubConnection where
  "demo_conn = \<lparr>cn_deviceId = Some ''d'', cn_connectionId = ''k'', cn_spaceIds = [''s'']\<rparr>"

definition demo_events :: "hub_event list" where
  "demo_events = [HFrame 1 demo_conn (Some (Hello ''d'' [''s''])) [],
     HFrame 2 demo_conn (Some (Publish [demo_record 5, demo_record 7])) []]"

lemma demo_tidy: "tidy (demo_record n)" if "n < 100"
proof -
  have "is_hex64 (replicate 64 (CHR ''a''))" by code_simp
  moreover have "(100 :: nat) < 16 ^ 14" by simp
  ultimately show ?thesis using that by (simp add: tidy_def demo_record_def hlc_fits_def)
qed

lemma demo_hub:
  "get_as as_record (hb_store (foldl hub_step new_hub demo_events)) (recKey ''s'' (replicate 64 (CHR ''a''))) =
     Some (demo_record 7)"
  by code_simp

lemma demo_tidy_events: "list_all tidy_event demo_events"
  by (simp add: demo_events_def demo_tidy)

lemma hub_versions_never_go_back_witness:
  "\<exists>r'. get_as as_record (hb_store (foldl hub_step new_hub (demo_events @ [HFrame 3 demo_conn (Some Ping) []])))
      (recKey ''s'' (replicate 64 (CHR ''a''))) = Some r' \<and> compareHlc (w_hlc (demo_record 7)) (w_hlc r') \<le> 0"
  by (rule hub_versions_never_go_back[OF _ demo_hub]) (simp add: is_rollback_def)

definition demo_leased :: hub where
  "demo_leased = \<lparr>hb_store = [(leaseKey ''s'' (w_originId (demo_record 5)),
     VLease \<lparr>le_spaceId = ''s'', le_originId = w_originId (demo_record 5), le_holderDeviceId = ''e'', le_expiresAtMs = 100\<rparr>)],
     hb_out = []\<rparr>"

lemma demo_lease: "get_as as_lease (hb_store demo_leased) (leaseKey ''s'' (w_originId (demo_record 5))) =
    Some \<lparr>le_spaceId = ''s'', le_originId = w_originId (demo_record 5), le_holderDeviceId = ''e'', le_expiresAtMs = 100\<rparr>"
  by (simp add: demo_leased_def get_as_def st_get_def)

lemma foreign_lease_keeps_writers_out_witness:
  "get_as as_record (hb_store (snd (handleMessage 2 demo_conn (Some (Publish [demo_record 5])) [] demo_leased)))
     (recKey ''s'' (w_recordId (demo_record 5))) \<noteq> Some (demo_record 5)"
proof -
  have "get_as as_record (hb_store demo_leased) (recKey ''s'' (w_recordId (demo_record 5))) = None"
    by (simp add: demo_leased_def get_as_def st_get_def recKey_def leaseKey_def)
  then show ?thesis
    using foreign_lease_keeps_writers_out[of demo_leased demo_conn "''d''" 2 "demo_record 5" "[demo_record 5]" "[]"
        "''s''" "w_recordId (demo_record 5)"] demo_lease
    by (simp add: foreign_lease_def demo_conn_def) (auto simp: demo_leased_def js_wf_def demo_record_def)
qed

lemma demo_not_revoked: "\<not> isRevoked ''d'' (hb_store new_hub)" "cn_deviceId demo_conn = Some ''d''"
  by (simp_all add: isRevoked_def new_hub_def st_get_def demo_conn_def)

lemma publish_ack_splits_batch_witness:
  "\<exists>accepted rejected rest. hb_out (snd (handleMessage 2 demo_conn (Some (Publish [demo_record 5])) [] new_hub)) =
      hb_out new_hub @ to_conn demo_conn (PublishAck accepted rejected) # rest \<and>
    mset accepted + mset (map pr_recordId rejected) = mset (map w_recordId [demo_record 5])"
  by (rule publish_ack_splits_batch[OF demo_not_revoked(2,1)])

lemma lease_taken_only_by_newer_candidate_witness:
  "get_as as_lease (hb_store (snd (handleMessage 2 demo_conn (Some (LeaseAcquireMsg
      \<lparr>la_spaceId = ''s'', la_originId = w_originId (demo_record 5), la_force = None, la_recordId = None,
       la_candidateHlc = None, la_ttlMs = None\<rparr>)) [] demo_leased))) (leaseKey ''s'' (w_originId (demo_record 5))) =
    get_as as_lease (hb_store demo_leased) (leaseKey ''s'' (w_originId (demo_record 5)))"
  using lease_taken_only_by_newer_candidate[OF _ _ _ demo_not_revoked(2), of demo_leased
      "\<lparr>la_spaceId = ''s'', la_originId = w_originId (demo_record 5), la_force = None, la_recordId = None,
       la_candidateHlc = None, la_ttlMs = None\<rparr>" _ 2 "[]"] demo_lease
  by (simp add: Let_def)


lemma hydrate_returns_each_version_once_witness:
  "\<exists>chunks. hb_out (snd (handleMessage 3 demo_conn (Some (Hydrate ''s'' None)) [] (foldl hub_step new_hub demo_events))) =
      hb_out (foldl hub_step new_hub demo_events) @ map (\<lambda>x. to_conn demo_conn (Records ''s'' x)) chunks @
        [to_conn demo_conn (HydrateDone ''s'' (length (concat chunks))
          (get_as as_stamp (hb_store (foldl hub_step new_hub demo_events)) (wmKey ''s'')))] \<and>
      distinct (map version_of (concat chunks))"
proof -
  have "\<not> isRevoked ''d'' (hb_store (foldl hub_step new_hub demo_events))" by code_simp
  then show ?thesis
    using hydrate_returns_each_version_once[OF demo_tidy_events _ demo_not_revoked(2), of "''s''" 3 None "[]"]
    by (auto simp: Let_def)
qed


lemma workspace_document_newest_witness:
  "\<exists>m. get_as as_doc (hb_store (foldl publish_docs new_hub
      [([\<lparr>ws_key = ''k'', ws_sealedValue = None, ws_hlc = w_hlc (demo_record 5), ws_deviceSig = ''x''\<rparr>], [])]))
      (workspaceKey ''k'') = Some m \<and> ws_key m = ''k''"
  using workspace_document_newest[of new_hub "''k''"
      "\<lparr>ws_key = ''k'', ws_sealedValue = None, ws_hlc = w_hlc (demo_record 5), ws_deviceSig = ''x''\<rparr>"
      "[([\<lparr>ws_key = ''k'', ws_sealedValue = None, ws_hlc = w_hlc (demo_record 5), ws_deviceSig = ''x''\<rparr>], [])]"]
  by (auto simp: new_hub_def get_as_def st_get_def)

end
