(* ===== verification/DeviceToken.thy ===== *)
theory DeviceToken
  imports Messages
begin

text \<open>
  Device tokens (packages/protocol/src/token.ts) and the authentication of requests at the edge of
  the session plane (services/sessionhub/src/auth.ts).  Ed25519 and the JSON text of bytes are
  parameters: a verification may throw, and JSON text gives a value or throws.  The module's cache
  of the imported key holds the result of a pure call and is left out.
\<close>

section \<open>Parameters\<close>

record 'k token_crypto =
  tc_import :: "byte list \<Rightarrow> 'k js_result"
  tc_verify :: "'k \<Rightarrow> byte list \<Rightarrow> byte list \<Rightarrow> bool js_result"
  tc_parse :: "byte list \<Rightarrow> json js_result"

text \<open>
  Times are epoch seconds, by their floor: compared with an integer, a number that is none lies as
  its floor does.
\<close>

record DeviceTokenClaims =
  dc_sub :: string
  dc_did :: string
  dc_iat :: int
  dc_exp :: int

section \<open>The token text\<close>

definition deviceLoginSigningBytes :: "string \<Rightarrow> string \<Rightarrow> byte list" where
  "deviceLoginSigningBytes dev challenge =
     lengthPrefixed [PStr ''suma.devicelogin.v1'', PStr dev, PStr challenge]"

definition DEVICE_TOKEN_TTL_SECONDS :: nat where "DEVICE_TOKEN_TTL_SECONDS = 600"

definition swap_chars :: "(char \<times> char) list \<Rightarrow> string \<Rightarrow> string" where
  "swap_chars m s = map (\<lambda>c. case map_of m c of None \<Rightarrow> c | Some d \<Rightarrow> d) s"

definition drop_trailing :: "char \<Rightarrow> string \<Rightarrow> string" where
  "drop_trailing c s = rev (dropWhile (\<lambda>x. x = c) (rev s))"

definition base64url :: "byte list \<Rightarrow> string" where
  "base64url bytes =
     drop_trailing (CHR ''='') (swap_chars [(CHR ''+'', CHR ''-''), (CHR ''/'', CHR ''_'')] (toBase64 bytes))"

definition base64urlDecode :: "string \<Rightarrow> byte list js_result" where
  "base64urlDecode s =
     (let pad = (if length s mod 4 = 0 then '''' else replicate (4 - length s mod 4) (CHR ''=''))
      in fromBase64 (swap_chars [(CHR ''-'', CHR ''+''), (CHR ''_'', CHR ''/'')] s @ pad))"

definition HEADER :: string where
  \<open>HEADER = base64url (utf8 ''{"alg":"EdDSA","typ":"JWT"}'')\<close>

text \<open>The signature is what \<open>crypto.subtle.sign\<close> returns; \<open>json\<close> the text of the claims.\<close>

definition signDeviceToken :: "(byte list \<Rightarrow> byte list) \<Rightarrow> string \<Rightarrow> string" where
  "signDeviceToken sign json =
     (let payload = base64url (utf8 json); signingInput = HEADER @ ''.'' @ payload
      in signingInput @ ''.'' @ base64url (sign (utf8 signingInput)))"

section \<open>Verification\<close>

datatype TokenFailure = TokMalformed | TokBadSignature | TokExpired

type_synonym TokenVerifyResult = "TokenFailure + DeviceTokenClaims"

fun js_number :: "json option \<Rightarrow> int option" where
  "js_number (Some (JInt n)) = Some n"
| "js_number (Some (JFrac q)) = Some q"
| "js_number _ = None"

fun js_text :: "json option \<Rightarrow> string option" where
  "js_text (Some (JStr s)) = Some s"
| "js_text _ = None"

text \<open>A member read: it throws on \<open>null\<close>, and is undefined on a value that is no object.\<close>

fun js_member :: "json \<Rightarrow> string \<Rightarrow> json option js_result" where
  "js_member JNull k = Inl (JsError ''cannot read properties of null'')"
| "js_member (JObj kvs) k = Inr (map_of kvs k)"
| "js_member _ k = Inr None"

definition claims_of :: "json \<Rightarrow> DeviceTokenClaims option js_result" where
  "claims_of j =
     (case js_member j ''sub'' of
        Inl e \<Rightarrow> Inl e
      | Inr _ \<Rightarrow>
          (let m = (\<lambda>k. case js_member j k of Inl _ \<Rightarrow> None | Inr v \<Rightarrow> v)
           in Inr (case (js_text (m ''sub''), js_text (m ''did''), js_number (m ''exp''), js_number (m ''iat'')) of
                (Some sub, Some did, Some exp, Some iat) \<Rightarrow>
                  Some \<lparr>dc_sub = sub, dc_did = did, dc_iat = iat, dc_exp = exp\<rparr>
              | _ \<Rightarrow> None)))"

text \<open>\<open>Inl\<close> an exception that escapes: a payload that is the JSON text \<open>null\<close>.\<close>

definition verifyDeviceToken ::
  "'k token_crypto \<Rightarrow> 'k \<Rightarrow> string \<Rightarrow> nat \<Rightarrow> nat \<Rightarrow> TokenVerifyResult js_result" where
  "verifyDeviceToken tc key token nowSeconds clockSkewSeconds =
     (case js_split (CHR ''.'') token of
        [header, payload, sig] \<Rightarrow>
          if header \<noteq> HEADER then Inr (Inl TokMalformed)
          else
            (case (case base64urlDecode sig of
                     Inl e \<Rightarrow> Inl e
                   | Inr s \<Rightarrow> tc_verify tc key s (utf8 (header @ ''.'' @ payload))) of
               Inl _ \<Rightarrow> Inr (Inl TokBadSignature)
             | Inr False \<Rightarrow> Inr (Inl TokBadSignature)
             | Inr True \<Rightarrow>
                 (case (case base64urlDecode payload of Inl e \<Rightarrow> Inl e | Inr b \<Rightarrow> tc_parse tc b) of
                    Inl _ \<Rightarrow> Inr (Inl TokMalformed)
                  | Inr j \<Rightarrow>
                      (case claims_of j of
                         Inl e \<Rightarrow> Inl e
                       | Inr None \<Rightarrow> Inr (Inl TokMalformed)
                       | Inr (Some c) \<Rightarrow>
                           if dc_exp c + int clockSkewSeconds < int nowSeconds then Inr (Inl TokExpired)
                           else Inr (Inr c))))
      | _ \<Rightarrow> Inr (Inl TokMalformed))"

section \<open>Authentication at the edge\<close>

definition url_char :: "char \<Rightarrow> bool" where
  "url_char c \<longleftrightarrow>
     (CHR ''A'' \<le> c \<and> c \<le> CHR ''Z'') \<or> (CHR ''a'' \<le> c \<and> c \<le> CHR ''z'') \<or> (CHR ''0'' \<le> c \<and> c \<le> CHR ''9'') \<or>
     c = CHR ''_'' \<or> c = CHR ''-''"

definition url_word :: "string \<Rightarrow> bool" where
  "url_word s \<longleftrightarrow> s \<noteq> [] \<and> list_all url_char s"

text \<open>The user id of \<open>hbr_dev_<userId>[.<deviceId>]\<close>.\<close>

definition dev_token_user :: "string \<Rightarrow> string option" where
  "dev_token_user token =
     (if prefix ''hbr_dev_'' token then
        (case js_split (CHR ''.'') (drop 8 token) of
           [u] \<Rightarrow> if url_word u then Some u else None
         | [u, d] \<Rightarrow> if url_word u \<and> url_word d then Some u else None
         | _ \<Rightarrow> None)
      else None)"

definition jws_shaped :: "string \<Rightarrow> bool" where
  "jws_shaped token \<longleftrightarrow>
     (case js_split (CHR ''.'') token of [a, b, c] \<Rightarrow> url_word a \<and> url_word b \<and> url_word c | _ \<Rightarrow> False)"

definition bearerToken :: "string option \<Rightarrow> string option" where
  "bearerToken authorization =
     (case authorization of
        None \<Rightarrow> None
      | Some a \<Rightarrow>
          (case js_split (CHR '' '') a of
             [scheme, token] \<Rightarrow> if js_lower scheme \<noteq> ''bearer'' then None else Some token
           | _ \<Rightarrow> None))"

definition parseDeviceToken :: "string option \<Rightarrow> string option" where
  "parseDeviceToken authorization = Option.bind (bearerToken authorization) dev_token_user"

definition isDeviceJws :: "'k token_crypto \<Rightarrow> string \<Rightarrow> bool" where
  "isDeviceJws tc token \<longleftrightarrow>
     jws_shaped token \<and>
     (case js_split (CHR ''.'') token of
        header # _ \<Rightarrow>
          (case base64urlDecode header of
             Inl _ \<Rightarrow> False
           | Inr b \<Rightarrow>
               (case tc_parse tc b of
                  Inl _ \<Rightarrow> False
                | Inr j \<Rightarrow> js_member j ''alg'' = Inr (Some (JStr ''EdDSA'')) \<and> js_member j ''typ'' = Inr (Some (JStr ''JWT''))))
      | [] \<Rightarrow> False)"

datatype AuthResult = AuthOk string "string option" | AuthError string

fun failure_text :: "TokenFailure \<Rightarrow> string" where
  "failure_text TokMalformed = ''malformed''"
| "failure_text TokBadSignature = ''bad_signature''"
| "failure_text TokExpired = ''expired''"

definition controlVerifyKey :: "'k token_crypto \<Rightarrow> string \<Rightarrow> 'k js_result" where
  "controlVerifyKey tc publicKey = (case fromBase64 publicKey of Inl e \<Rightarrow> Inl e | Inr b \<Rightarrow> tc_import tc b)"

definition authenticate ::
  "'k token_crypto \<Rightarrow> string option \<Rightarrow> string option \<Rightarrow> nat \<Rightarrow> AuthResult" where
  "authenticate tc authorization controlKey nowSeconds =
     (case bearerToken authorization of
        None \<Rightarrow> AuthError ''unauthorized''
      | Some token \<Rightarrow>
          (let publicKey = (if controlKey = Some '''' then None else controlKey)
           in if isDeviceJws tc token then
                (case publicKey of
                   None \<Rightarrow> AuthError ''unauthorized''
                 | Some pk \<Rightarrow>
                     (case controlVerifyKey tc pk of
                        Inl _ \<Rightarrow> AuthError ''unauthorized''
                      | Inr key \<Rightarrow>
                          (case verifyDeviceToken tc key token nowSeconds 30 of
                             Inl _ \<Rightarrow> AuthError ''unauthorized''
                           | Inr (Inl f) \<Rightarrow> AuthError (failure_text f)
                           | Inr (Inr c) \<Rightarrow> AuthOk (dc_sub c) (Some (dc_did c)))))
              else if publicKey \<noteq> None then AuthError ''unauthorized''
              else (case dev_token_user token of None \<Rightarrow> AuthError ''unauthorized'' | Some u \<Rightarrow> AuthOk u None)))"

section \<open>The unpadded alphabet\<close>

abbreviation to_url :: "string \<Rightarrow> string" where
  "to_url \<equiv> swap_chars [(CHR ''+'', CHR ''-''), (CHR ''/'', CHR ''_'')]"

abbreviation from_url :: "string \<Rightarrow> string" where
  "from_url \<equiv> swap_chars [(CHR ''-'', CHR ''+''), (CHR ''_'', CHR ''/'')]"

definition b64_text :: "string \<Rightarrow> bool" where
  "b64_text s \<longleftrightarrow> (\<forall>c \<in> set s. b64_value c \<noteq> None)"

lemma b64_plain: "b64_value c \<noteq> None \<Longrightarrow> c \<notin> {CHR ''-'', CHR ''_'', CHR ''.'', CHR ''=''}"
  by (auto simp: b64_value_def)

lemma from_to_url:
  assumes "b64_text g"
  shows "from_url (to_url g) = g"
proof -
  have "\<forall>c \<in> set g. c \<noteq> CHR ''-'' \<and> c \<noteq> CHR ''_''"
    using assms b64_plain unfolding b64_text_def by blast
  then show ?thesis by (induction g) (simp_all add: swap_chars_def)
qed

lemma to_url_plain: "b64_text g \<Longrightarrow> CHR ''.'' \<notin> set (to_url g) \<and> CHR ''='' \<notin> set (to_url g)"
proof -
  assume g: "b64_text g"
  have "\<forall>c \<in> set g. c \<noteq> CHR ''.'' \<and> c \<noteq> CHR ''=''"
    using g b64_plain unfolding b64_text_def by blast
  then show ?thesis by (induction g) (auto simp: swap_chars_def)
qed

lemma drop_trailing_replicate: "c \<notin> set s \<Longrightarrow> drop_trailing c (s @ replicate k c) = s"
proof -
  assume "c \<notin> set s"
  then have "\<forall>x \<in> set (rev s). x \<noteq> c" by auto
  then have "dropWhile (\<lambda>x. x = c) (rev s) = rev s" by (cases "rev s") simp_all
  moreover have "dropWhile (\<lambda>x. x = c) (replicate k c @ t) = dropWhile (\<lambda>x. x = c) t" for t
    by (induction k) simp_all
  ultimately show ?thesis by (simp add: drop_trailing_def)
qed

lemma toBase64_parts:
  obtains g k where "toBase64 bs = g @ replicate k (CHR ''='')" "b64_text g" "k \<le> 2"
    "(length g + k) mod 4 = 0"
proof
  let ?ns = "map unat bs" and ?k = "(3 - length bs mod 3) mod 3"
  have "\<forall>n \<in> set ?ns. n < 256" by simp
  then show "b64_text (b64_groups ?ns)" using b64_groups_values[of ?ns] unfolding b64_text_def by auto
  show t: "toBase64 bs = b64_groups ?ns @ replicate ?k (CHR ''='')"
    by (simp add: toBase64_def btoa_def char_codes_unat)
  have "?k < 3" by (rule mod_less_divisor) simp
  then show "?k \<le> 2" by simp
  show "(length (b64_groups ?ns) + ?k) mod 4 = 0"
    using b64_lengths(1)[of ?ns] t by (simp add: toBase64_def char_codes_unat)
qed

lemma base64url_round: "base64urlDecode (base64url bs) = Inr bs" "CHR ''.'' \<notin> set (base64url bs)"
proof -
  obtain g k where g: "toBase64 bs = g @ replicate k (CHR ''='')" "b64_text g" "k \<le> 2" "(length g + k) mod 4 = 0"
    by (rule toBase64_parts)
  have "to_url (toBase64 bs) = to_url g @ replicate k (CHR ''='')" by (simp add: g(1) swap_chars_def)
  then have u: "base64url bs = to_url g"
    using drop_trailing_replicate to_url_plain[OF g(2)] by (simp add: base64url_def)
  then show "CHR ''.'' \<notin> set (base64url bs)" using to_url_plain[OF g(2)] by simp
  have "(if length g mod 4 = 0 then '''' else replicate (4 - length g mod 4) (CHR ''='')) = replicate k (CHR ''='')"
  proof (cases "length g mod 4 = 0")
    case True
    then have "k mod 4 = 0" using g(4) by (metis add_0 mod_add_left_eq)
    then show ?thesis using True g(3) by simp
  next
    case False
    have "(length g mod 4 + k) mod 4 = 0" using g(4) by (simp add: mod_add_left_eq)
    moreover have "length g mod 4 < 4" by simp
    ultimately have "length g mod 4 + k = 4" using False g(3) by presburger
    then show ?thesis using False by simp
  qed
  moreover have "length (to_url g) = length g" by (simp add: swap_chars_def)
  ultimately have "base64urlDecode (to_url g) = fromBase64 (from_url (to_url g) @ replicate k (CHR ''=''))"
    by (simp only: base64urlDecode_def Let_def)
  then show "base64urlDecode (base64url bs) = Inr bs"
    using fromBase64_of_toBase64[of bs] by (simp add: u from_to_url[OF g(2)] g(1))
qed

lemma js_split_none: "c \<notin> set s \<Longrightarrow> js_split c s = [s]"
  by (induction s) auto

lemma js_split_append: "c \<notin> set s \<Longrightarrow> js_split c (s @ c # t) = s # js_split c t"
  by (induction s) auto

lemma js_split_inverse: "js_split c s = ws \<Longrightarrow> ws \<noteq> [] \<and> s = concat (map (\<lambda>w. w @ [c]) (butlast ws)) @ last ws"
proof (induction s arbitrary: ws)
  case (Cons x s)
  show ?case
  proof (cases "js_split c s")
    case Nil
    then show ?thesis using Cons.IH[of "[]"] by simp
  next
    case (Cons w vs)
    then show ?thesis using Cons.IH[OF Cons] Cons.prems by (auto split: if_splits)
  qed
qed auto

lemma url_char_b64: "b64_value c \<noteq> None \<Longrightarrow> list_all url_char (to_url [c])"
proof -
  assume "b64_value c \<noteq> None"
  moreover have "of_char c = (43 :: nat) \<longleftrightarrow> c = CHR ''+''" "of_char c = (47 :: nat) \<longleftrightarrow> c = CHR ''/''"
    using of_char_eq_iff[of c "CHR ''+''", where ?'a = nat] of_char_eq_iff[of c "CHR ''/''", where ?'a = nat] by simp_all
  ultimately show ?thesis
    by (auto simp: b64_value_def url_char_def swap_chars_def less_eq_char_def Let_def split: if_splits)
qed

lemma base64url_word: "bs \<noteq> [] \<Longrightarrow> url_word (base64url bs)"
proof -
  assume bs: "bs \<noteq> []"
  obtain g k where g: "toBase64 bs = g @ replicate k (CHR ''='')" "b64_text g"
    by (rule toBase64_parts)
  have "to_url (toBase64 bs) = to_url g @ replicate k (CHR ''='')" by (simp add: g(1) swap_chars_def)
  then have u: "base64url bs = to_url g"
    using drop_trailing_replicate to_url_plain[OF g(2)] by (simp add: base64url_def)
  have "list_all url_char (to_url g)"
    using g(2) url_char_b64 by (induction g) (auto simp: b64_text_def swap_chars_def)
  moreover have "base64url bs \<noteq> []"
  proof
    assume "base64url bs = []"
    then have "base64urlDecode [] = Inr bs" using base64url_round(1)[of bs] by simp
    moreover have "base64urlDecode [] = Inr []" by code_simp
    ultimately show False using bs by simp
  qed
  ultimately show ?thesis by (simp add: url_word_def u)
qed

lemma url_word_space: "url_word s \<Longrightarrow> CHR '' '' \<notin> set s"
  by (auto simp: url_word_def url_char_def list_all_iff less_eq_char_def)

lemma HEADER_no_dot: "CHR ''.'' \<notin> set HEADER"
  unfolding HEADER_def by (rule base64url_round)

text \<open>What a verification that succeeds has checked.\<close>

definition token_checked ::
  "'k token_crypto \<Rightarrow> 'k \<Rightarrow> string \<Rightarrow> nat \<Rightarrow> nat \<Rightarrow> DeviceTokenClaims \<Rightarrow> bool" where
  "token_checked tc key token now skew c \<longleftrightarrow>
     (\<exists>payload sig s b j. token = HEADER @ ''.'' @ payload @ ''.'' @ sig \<and>
        base64urlDecode sig = Inr s \<and> tc_verify tc key s (utf8 (HEADER @ ''.'' @ payload)) = Inr True \<and>
        base64urlDecode payload = Inr b \<and> tc_parse tc b = Inr j \<and> claims_of j = Inr (Some c) \<and>
        int now \<le> dc_exp c + int skew)"

lemma verify_accepts:
  assumes "verifyDeviceToken tc key token now skew = Inr (Inr c)"
  shows "token_checked tc key token now skew c"
proof -
  obtain payload sig where t: "js_split (CHR ''.'') token = [HEADER, payload, sig]"
    using assms by (auto simp: verifyDeviceToken_def split: list.splits if_splits)
  obtain s b j where "base64urlDecode sig = Inr s" "tc_verify tc key s (utf8 (HEADER @ ''.'' @ payload)) = Inr True"
    "base64urlDecode payload = Inr b" "tc_parse tc b = Inr j" "claims_of j = Inr (Some c)"
    "int now \<le> dc_exp c + int skew"
    using assms t by (auto simp: verifyDeviceToken_def split: sum.splits bool.splits option.splits if_splits)
  moreover have "token = HEADER @ ''.'' @ payload @ ''.'' @ sig" using js_split_inverse[OF t] by simp
  ultimately show ?thesis unfolding token_checked_def by blast
qed

lemma authenticate_signed:
  assumes "authenticate tc authorization (Some pk) now = AuthOk user dev" "pk \<noteq> ''''"
  shows "\<exists>token key c. bearerToken authorization = Some token \<and> controlVerifyKey tc pk = Inr key \<and>
    token_checked tc key token now 30 c \<and> user = dc_sub c \<and> dev = Some (dc_did c)"
proof -
  obtain token key c where t: "bearerToken authorization = Some token" "controlVerifyKey tc pk = Inr key"
    "verifyDeviceToken tc key token now 30 = Inr (Inr c)" "user = dc_sub c" "dev = Some (dc_did c)"
    using assms by (auto simp: authenticate_def Let_def split: option.splits sum.splits if_splits)
  then show ?thesis using verify_accepts[OF t(3)] by blast
qed

lemma sign_verify:
  assumes "\<And>msg. tc_verify tc key (sign msg) msg = Inr True"
    and "tc_parse tc (utf8 json) = Inr j" "claims_of j = Inr (Some c)"
  shows "verifyDeviceToken tc key (signDeviceToken sign json) now skew =
    Inr (if dc_exp c + int skew < int now then Inl TokExpired else Inr c)"
proof -
  have "js_split (CHR ''.'') (signDeviceToken sign json) =
      [HEADER, base64url (utf8 json), base64url (sign (utf8 (HEADER @ ''.'' @ base64url (utf8 json))))]"
    using HEADER_no_dot base64url_round(2)
    by (simp add: signDeviceToken_def Let_def js_split_append js_split_none)
  then show ?thesis using assms by (simp add: verifyDeviceToken_def base64url_round(1))
qed

section \<open>Properties\<close>

text \<open>
  A token is what it was signed as: signed over claims whose text parses to them, with a key
  that verifies its own signatures, it verifies to those claims until its expiry and the skew allowed
  have passed, and is expired from then on.
\<close>

theorem device_token_round_trip:
  assumes "\<And>msg. tc_verify tc key (sign msg) msg = Inr True"
    and "tc_parse tc (utf8 json) = Inr j" "claims_of j = Inr (Some c)"
  shows "verifyDeviceToken tc key (signDeviceToken sign json) now skew =
    Inr (if dc_exp c + int skew < int now then Inl TokExpired else Inr c)"
  using assms by (rule sign_verify)

definition example_claims :: json where
  "example_claims = JObj [(''alg'', JStr ''EdDSA''), (''typ'', JStr ''JWT''), (''sub'', JStr ''u''), (''did'', JStr ''d''),
     (''iat'', JInt 1), (''exp'', JInt 600)]"

definition example_tokens :: "unit token_crypto" where
  "example_tokens = \<lparr>tc_import = (\<lambda>b. Inr ()), tc_verify = (\<lambda>k s m. Inr (s = rev m)),
     tc_parse = (\<lambda>b. Inr example_claims)\<rparr>"

lemma example_laws:
  "tc_verify example_tokens () (rev m) m = Inr True" "tc_parse example_tokens b = Inr example_claims"
  "claims_of example_claims = Inr (Some \<lparr>dc_sub = ''u'', dc_did = ''d'', dc_iat = 1, dc_exp = 600\<rparr>)"
  by (simp_all add: example_tokens_def example_claims_def claims_of_def)

lemma device_token_round_trip_witness:
  "verifyDeviceToken example_tokens () (signDeviceToken rev ''x'') 601 30 =
     Inr (Inr \<lparr>dc_sub = ''u'', dc_did = ''d'', dc_iat = 1, dc_exp = 600\<rparr>)"
  using device_token_round_trip[of example_tokens "()" rev, OF example_laws, of "''x''" 601 30] by simp

text \<open>
  With a control-plane key configured, a request is authenticated only by a token whose
  signature that key verifies and that has not expired (half a minute of skew aside), as the user and
  device the token names; the stub tokens of development are refused.
\<close>

theorem configured_key_requires_signature:
  assumes "authenticate tc authorization (Some pk) now = AuthOk user dev" "pk \<noteq> ''''"
  shows "\<exists>token key c. bearerToken authorization = Some token \<and> controlVerifyKey tc pk = Inr key \<and>
    token_checked tc key token now 30 c \<and> user = dc_sub c \<and> dev = Some (dc_did c)"
  using assms by (rule authenticate_signed)

text \<open>
  The three things a device's identity key signs are kept apart: the bytes of a login proof are
  never the bytes of a sync record, whatever either holds.
\<close>

theorem signing_domains_disjoint:
  assumes "strings_fit [''suma.devicelogin.v1'', dev, challenge]" "strings_fit (signing_strings r)"
  shows "deviceLoginSigningBytes dev challenge \<noteq> recordSigningBytes r"
proof
  assume "deviceLoginSigningBytes dev challenge = recordSigningBytes r"
  then have "[''suma.devicelogin.v1'', dev, challenge] = signing_strings r"
    using assms lengthPrefixed_strings_inj[of "[''suma.devicelogin.v1'', dev, challenge]" "signing_strings r"]
    by (simp add: deviceLoginSigningBytes_def recordSigningBytes_def strings_fit_def)
  then show False by (simp add: signing_strings_def)
qed

lemma example_authenticated:
  "authenticate example_tokens (Some (''Bearer '' @ signDeviceToken rev ''x'')) (Some ''AA=='') 601 = AuthOk ''u'' (Some ''d'')"
proof -
  let ?t = "signDeviceToken rev ''x''"
  have ne: "utf8 ''x'' \<noteq> []" "utf8 (HEADER @ ''.'' @ base64url (utf8 ''x'')) \<noteq> []"
    "utf8 ''{\"alg\":\"EdDSA\",\"typ\":\"JWT\"}'' \<noteq> []"
    by (simp_all add: utf8_def utf8_char_def)
  have space_free: "CHR '' '' \<notin> set ?t"
    using base64url_word[THEN url_word_space] ne by (simp add: signDeviceToken_def Let_def) (simp add: HEADER_def)
  have s: "js_split (CHR ''.'') ?t =
      [HEADER, base64url (utf8 ''x''), base64url (rev (utf8 (HEADER @ ''.'' @ base64url (utf8 ''x''))))]"
    using HEADER_no_dot base64url_round(2)
    by (simp add: signDeviceToken_def Let_def js_split_append js_split_none)
  have w: "url_word HEADER" unfolding HEADER_def by (rule base64url_word[OF ne(3)])
  have w': "url_word (base64url (utf8 ''x''))"
    "url_word (base64url (rev (utf8 (HEADER @ ''.'' @ base64url (utf8 ''x'')))))"
    by (rule base64url_word, use ne in simp)+
  have "isDeviceJws example_tokens ?t"
    using w w' unfolding isDeviceJws_def jws_shaped_def s
    by (simp add: HEADER_def base64url_round(1)) (simp add: example_tokens_def example_claims_def)
  moreover have "js_split (CHR '' '') (''Bearer '' @ ?t) = [''Bearer'', ?t]"
    using space_free by (simp add: js_split_none)
  moreover have "controlVerifyKey example_tokens ''AA=='' = Inr ()" by code_simp
  ultimately show ?thesis
    using sign_verify[of example_tokens "()" rev, OF example_laws, of "''x''" 601 30]
    by (simp add: authenticate_def bearerToken_def js_lower_def char_lower_def char_of_def bit_iff_odd)
qed

lemma configured_key_requires_signature_witness:
  "\<exists>token key c. bearerToken (Some (''Bearer '' @ signDeviceToken rev ''x'')) = Some token \<and>
    controlVerifyKey example_tokens ''AA=='' = Inr key \<and> token_checked example_tokens key token 601 30 c \<and>
    dc_sub c = ''u''"
  using configured_key_requires_signature[OF example_authenticated] by auto

lemma signing_domains_disjoint_witness:
  "deviceLoginSigningBytes ''d'' ''c'' \<noteq> recordSigningBytes example_fields"
proof (rule signing_domains_disjoint)
  have e: "encodeHlc (sr_hlc example_fields) = ''00000000000001-00000000-d''" by code_simp
  show "strings_fit [''suma.devicelogin.v1'', ''d'', ''c'']" by (rule strings_fit_short) simp
  show "strings_fit (signing_strings example_fields)"
    by (rule strings_fit_short, simp add: signing_strings_def e, simp add: example_fields_def)
qed

end
