(* ===== verification/Gateway.thy ===== *)
theory Gateway
  imports Hub Egress DeviceToken
begin

text \<open>
  The gateway (services/sessionhub/src/gateway-core.ts and the header encoding of
  packages/protocol/src/gateway.ts): requests made to origins on the account's behalf, and the cookie
  jar of each space.  The URL parser, the public suffix list, the Set-Cookie parser, SHA-256, the text
  of a date and the origins themselves are parameters.  A time is in whole milliseconds: an expiry
  that is none counts as the next one, as every comparison with the clock agrees.
\<close>

section \<open>Constants\<close>

definition GATEWAY_SPACE_HEADER :: string where "GATEWAY_SPACE_HEADER = ''x-suma-space''"

definition GATEWAY_TARGET_HEADER :: string where "GATEWAY_TARGET_HEADER = ''x-suma-target''"

definition GATEWAY_TOP_LEVEL_SITE_HEADER :: string where
  "GATEWAY_TOP_LEVEL_SITE_HEADER = ''x-suma-top-level-site''"

definition GATEWAY_CREDENTIALS_HEADER :: string where "GATEWAY_CREDENTIALS_HEADER = ''x-suma-credentials''"

definition GATEWAY_UPSTREAM_AUTH_HEADER :: string where
  "GATEWAY_UPSTREAM_AUTH_HEADER = ''x-suma-upstream-authorization''"

definition GATEWAY_RESPONSE_HEADER :: string where "GATEWAY_RESPONSE_HEADER = ''x-suma-gateway''"

definition COOKIE_PREFIX :: string where "COOKIE_PREFIX = ''gateway-cookie:''"

definition INITIALIZED_PREFIX :: string where "INITIALIZED_PREFIX = ''gateway-initialized:''"

definition MAX_COOKIE_BYTES :: int where "MAX_COOKIE_BYTES = 4096"

definition MAX_COOKIES_PER_SPACE :: int where "MAX_COOKIES_PER_SPACE = 3000"

definition MAX_COOKIE_LIFETIME_MS :: int where "MAX_COOKIE_LIFETIME_MS = 400 * 24 * 60 * 60 * 1000"

definition CONTROL_REQUEST_HEADERS :: "string list" where
  "CONTROL_REQUEST_HEADERS =
     [''authorization'', GATEWAY_CREDENTIALS_HEADER, GATEWAY_SPACE_HEADER, GATEWAY_TARGET_HEADER,
      GATEWAY_TOP_LEVEL_SITE_HEADER, GATEWAY_UPSTREAM_AUTH_HEADER, ''x-suma-device'']"

definition HOP_BY_HOP_HEADERS :: "string list" where
  "HOP_BY_HOP_HEADERS =
     [''connection'', ''content-length'', ''host'', ''keep-alive'', ''proxy-authenticate'',
      ''proxy-authorization'', ''te'', ''trailer'', ''transfer-encoding'', ''upgrade'']"

section \<open>Data\<close>

record GatewayCookieSnapshot =
  gs_name :: string
  gs_value :: string
  gs_domain :: string
  gs_hostOnly :: bool
  gs_path :: string
  gs_secure :: bool
  gs_httpOnly :: bool
  gs_session :: bool
  gs_sameSite :: SameSite
  gs_partitionKey :: "string option"
  gs_expirationMs :: "int option"

record GatewayCookieMutation =
  gm_cookie :: GatewayCookieSnapshot
  gm_removed :: bool

record StoredGatewayCookie =
  sg_name :: string
  sg_value :: string
  sg_domain :: string
  sg_hostOnly :: bool
  sg_path :: string
  sg_secure :: bool
  sg_httpOnly :: bool
  sg_session :: bool
  sg_sameSite :: SameSite
  sg_partitionKey :: "string option"
  sg_createdAtMs :: int
  sg_expiresAtMs :: "int option"

text \<open>What \<open>parseSetCookie\<close> gives; \<open>SiteTrue\<close> is the value \<open>true\<close> of \<open>sameSite\<close>.\<close>

datatype SetSameSite = SiteNone | SiteLax | SiteStrict | SiteTrue

record SetCookie =
  sc_name :: string
  sc_value :: "string option"
  sc_domain :: "string option"
  sc_path :: "string option"
  sc_secure :: bool
  sc_httpOnly :: bool
  sc_sameSite :: "SetSameSite option"
  sc_partitioned :: bool
  sc_expires :: "int option"
  sc_maxAge :: "int option"

record gateway_url =
  gu_protocol :: string
  gu_hostname :: string
  gu_pathname :: string
  gu_username :: string
  gu_password :: string
  gu_origin :: string

text \<open>A header name occurs once in a request, in lower case, as \<open>Headers\<close> gives it.\<close>

type_synonym headers = "(string \<times> string) list"

record gateway_request =
  rq_method :: string
  rq_headers :: headers
  rq_body :: string

datatype gateway_body = Passed string | JError string | JErrorDetail string string | JOk
  | JCookies "GatewayCookieSnapshot list" bool | JNotFound

record gateway_response =
  rs_status :: nat
  rs_headers :: headers
  rs_body :: gateway_body

record upstream_request =
  up_target :: gateway_url
  up_method :: string
  up_headers :: headers
  up_body :: "string option"

record gateway_env =
  ge_now :: int
  ge_allowPrivate :: bool
  ge_url :: "string \<Rightarrow> gateway_url option"
  ge_text :: "byte list \<Rightarrow> string"
  ge_domain :: "string \<Rightarrow> string option"
  ge_setCookie :: "string \<Rightarrow> SetCookie option"
  ge_hash :: "string \<times> string \<times> string \<times> string option \<Rightarrow> string"
  ge_utc :: "int \<Rightarrow> string"
  ge_json :: "string \<Rightarrow> json js_result"
  ge_millis :: "json \<Rightarrow> int option"
  ge_fetch :: "upstream_request \<Rightarrow> gateway_response js_result"

datatype gateway_value = GCookie StoredGatewayCookie | GTrue

type_synonym jar_store = "gateway_value kv_store"

fun as_cookie :: "gateway_value \<Rightarrow> StoredGatewayCookie option" where
  "as_cookie (GCookie c) = Some c"
| "as_cookie GTrue = None"

definition header_of :: "headers \<Rightarrow> string \<Rightarrow> string option" where
  "header_of hs name = map_of hs name"

section \<open>Hosts\<close>

definition canonicalHostname :: "string \<Rightarrow> string" where
  "canonicalHostname hostname = drop_trailing (CHR ''.'') (dropWhile (\<lambda>c. c = CHR ''.'') (js_lower hostname))"

definition isIpv4 :: "string \<Rightarrow> bool" where
  "isIpv4 host =
     (let parts = js_split (CHR ''.'') host
      in length parts = 4 \<and> list_all (\<lambda>p. digits13 p \<and> decimal p \<le> 255) parts)"

definition isPrivateIpv4 :: "string \<Rightarrow> bool" where
  "isPrivateIpv4 host =
     (if \<not> isIpv4 host then False
      else (case map decimal (js_split (CHR ''.'') host) of
              a # b # _ \<Rightarrow>
                a = 0 \<or> a = 10 \<or> a = 127 \<or> (a = 169 \<and> b = 254) \<or> (a = 172 \<and> b \<ge> 16 \<and> b \<le> 31) \<or>
                (a = 192 \<and> b = 168) \<or> (a = 100 \<and> b \<ge> 64 \<and> b \<le> 127) \<or> (a = 198 \<and> (b = 18 \<or> b = 19)) \<or> a \<ge> 224
            | _ \<Rightarrow> False))"

definition hex_word :: "string \<Rightarrow> bool" where
  "hex_word w \<longleftrightarrow> 1 \<le> length w \<and> length w \<le> 4 \<and> list_all (\<lambda>c. hex_value c \<noteq> None) w"

definition mappedIpv4 :: "string \<Rightarrow> string option" where
  "mappedIpv4 v6 =
     (if \<not> prefix ''::ffff:'' v6 then None
      else
        (let tail = drop (length ''::ffff:'') v6
         in if isIpv4 tail then Some tail
            else (case js_split (CHR '':'') tail of
                    [x, y] \<Rightarrow>
                      if \<not> hex_word x \<or> \<not> hex_word y then None
                      else (let high = hex_prefix 0 x; low = hex_prefix 0 y
                            in Some (decimal_text (high div 256) @ ''.'' @ decimal_text (high mod 256) @ ''.'' @
                                 decimal_text (low div 256) @ ''.'' @ decimal_text (low mod 256)))
                  | _ \<Rightarrow> None)))"

definition isPrivateTarget :: "gateway_url \<Rightarrow> bool" where
  "isPrivateTarget url =
     (let host = canonicalHostname (gu_hostname url)
      in if host = ''localhost'' \<or> suffix ''.localhost'' host \<or> isPrivateIpv4 host then True
         else
           (let v6 = strip_brackets host; mapped = mappedIpv4 v6
            in (case mapped of None \<Rightarrow> False | Some m \<Rightarrow> isPrivateIpv4 m) \<or> v6 = ''::'' \<or> v6 = ''::1'' \<or>
               prefix ''fc'' v6 \<or> prefix ''fd'' v6 \<or>
               (prefix ''fe'' v6 \<and> length v6 \<ge> 3 \<and> v6 ! 2 \<in> {CHR ''8'', CHR ''9'', CHR ''a'', CHR ''b''})))"

definition domainMatches :: "string \<Rightarrow> string \<Rightarrow> bool" where
  "domainMatches host domain \<longleftrightarrow> host = domain \<or> suffix (''.'' @ domain) host"

definition isPublicSuffix :: "gateway_env \<Rightarrow> string \<Rightarrow> bool" where
  "isPublicSuffix ge domain =
     (if domain = ''localhost'' \<or> isIpv4 domain \<or> CHR '':'' \<in> set domain then False
      else ge_domain ge domain = None)"

definition last_slash :: "string \<Rightarrow> nat" where
  "last_slash s = length s - 1 - length (takeWhile (\<lambda>c. c \<noteq> CHR ''/'') (rev s))"

definition defaultCookiePath :: "string \<Rightarrow> string" where
  "defaultCookiePath pathname =
     (if \<not> prefix ''/'' pathname \<or> pathname = ''/'' then ''/''
      else if last_slash pathname \<le> 0 then ''/'' else take (last_slash pathname) pathname)"

definition pathMatches :: "string \<Rightarrow> string \<Rightarrow> bool" where
  "pathMatches requestPath cookiePath =
     (if requestPath = cookiePath then True
      else if \<not> prefix cookiePath requestPath then False
      else suffix ''/'' cookiePath \<or> requestPath ! length cookiePath = CHR ''/'')"

definition schemefulSite :: "gateway_env \<Rightarrow> gateway_url \<Rightarrow> string" where
  "schemefulSite ge url =
     (let host = canonicalHostname (gu_hostname url)
      in gu_protocol url @ ''//'' @ (case ge_domain ge host of None \<Rightarrow> host | Some d \<Rightarrow> d))"

fun sameSiteFor :: "SetSameSite option \<Rightarrow> SameSite" where
  "sameSiteFor (Some SiteNone) = SameSiteNoRestriction"
| "sameSiteFor (Some SiteLax) = SameSiteLax"
| "sameSiteFor (Some SiteStrict) = SameSiteStrict"
| "sameSiteFor (Some SiteTrue) = SameSiteStrict"
| "sameSiteFor None = SameSiteUnspecified"

definition allowsSameSiteCookie :: "StoredGatewayCookie \<Rightarrow> gateway_request \<Rightarrow> gateway_url \<Rightarrow> bool" where
  "allowsSameSiteCookie cookie request target =
     (let fetchSite = header_of (rq_headers request) ''sec-fetch-site'';
          sameSite = (fetchSite = None \<or> fetchSite = Some ''none'' \<or> fetchSite = Some ''same-origin'' \<or>
                      fetchSite = Some ''same-site'')
      in if sg_sameSite cookie = SameSiteStrict then sameSite
         else if sg_sameSite cookie = SameSiteLax \<or> sg_sameSite cookie = SameSiteUnspecified then
           (if sameSite then True
            else rq_method request = ''GET'' \<and> header_of (rq_headers request) ''sec-fetch-mode'' = Some ''navigate'')
         else gu_protocol target = ''https:'' \<and> sg_secure cookie)"

section \<open>Cookies\<close>

definition cookiePrefix :: "string \<Rightarrow> string" where
  "cookiePrefix spaceId = COOKIE_PREFIX @ spaceId @ '':''"

definition initializedKey :: "string \<Rightarrow> string" where
  "initializedKey spaceId = INITIALIZED_PREFIX @ spaceId"

definition cookieIdentityHash :: "gateway_env \<Rightarrow> StoredGatewayCookie \<Rightarrow> string" where
  "cookieIdentityHash ge c = ge_hash ge (sg_name c, sg_domain c, sg_path c, sg_partitionKey c)"

definition cookieKey :: "gateway_env \<Rightarrow> string \<Rightarrow> StoredGatewayCookie \<Rightarrow> string" where
  "cookieKey ge spaceId c = cookiePrefix spaceId @ cookieIdentityHash ge c"

definition snapshot :: "StoredGatewayCookie \<Rightarrow> GatewayCookieSnapshot" where
  "snapshot c = \<lparr>gs_name = sg_name c, gs_value = sg_value c, gs_domain = sg_domain c, gs_hostOnly = sg_hostOnly c,
     gs_path = sg_path c, gs_secure = sg_secure c, gs_httpOnly = sg_httpOnly c, gs_session = sg_session c,
     gs_sameSite = sg_sameSite c, gs_partitionKey = sg_partitionKey c, gs_expirationMs = sg_expiresAtMs c\<rparr>"

definition validCookiePrefix :: "StoredGatewayCookie \<Rightarrow> bool" where
  "validCookiePrefix c =
     (if prefix ''__Secure-'' (sg_name c) \<and> \<not> sg_secure c then False
      else if prefix ''__Host-'' (sg_name c) \<and> (\<not> sg_secure c \<or> \<not> sg_hostOnly c \<or> sg_path c \<noteq> ''/'') then False
      else True)"

definition encodedCookieBytes :: "string \<Rightarrow> string \<Rightarrow> int" where
  "encodedCookieBytes name value = int (length (utf8 (name @ ''='' @ value)))"

fun join_with :: "string \<Rightarrow> string list \<Rightarrow> string" where
  "join_with sep [] = []"
| "join_with sep [x] = x"
| "join_with sep (x # y # xs) = x @ sep @ join_with sep (y # xs)"

definition serializeCookie :: "gateway_env \<Rightarrow> StoredGatewayCookie \<Rightarrow> string" where
  "serializeCookie ge c = join_with ''; ''
     ([sg_name c @ ''='' @ sg_value c, ''Path='' @ sg_path c] @
      (if \<not> sg_hostOnly c then [''Domain='' @ sg_domain c] else []) @
      (case sg_expiresAtMs c of None \<Rightarrow> [] | Some t \<Rightarrow> [''Expires='' @ ge_utc ge t]) @
      (if sg_secure c then [''Secure''] else []) @
      (if sg_httpOnly c then [''HttpOnly''] else []) @
      (if sg_sameSite c = SameSiteNoRestriction then [''SameSite=None'']
       else if sg_sameSite c = SameSiteLax then [''SameSite=Lax'']
       else if sg_sameSite c = SameSiteStrict then [''SameSite=Strict''] else []) @
      (if sg_partitionKey c \<noteq> None then [''Partitioned''] else []))"

section \<open>The jar\<close>

definition list_cookies :: "jar_store \<Rightarrow> string \<Rightarrow> (string \<times> StoredGatewayCookie) list" where
  "list_cookies st p = List.map_filter (\<lambda>(k, v). map_option (Pair k) (as_cookie v)) (st_list st p)"

definition expired :: "gateway_env \<Rightarrow> StoredGatewayCookie \<Rightarrow> bool" where
  "expired ge c = (case sg_expiresAtMs c of None \<Rightarrow> False | Some t \<Rightarrow> t \<le> ge_now ge)"

text \<open>The cookies of a space that live; those past their expiry are deleted.\<close>

definition liveCookies :: "gateway_env \<Rightarrow> string \<Rightarrow> jar_store \<Rightarrow> StoredGatewayCookie list \<times> jar_store" where
  "liveCookies ge spaceId st =
     (let stored = list_cookies st (cookiePrefix spaceId)
      in (map snd (filter (\<lambda>e. \<not> expired ge (snd e)) stored),
          foldl st_delete st (map fst (filter (\<lambda>e. expired ge (snd e)) stored))))"

definition cookie_sent ::
  "gateway_url \<Rightarrow> string option \<Rightarrow> gateway_request \<Rightarrow> StoredGatewayCookie \<Rightarrow> bool" where
  "cookie_sent target topLevelSite request c =
     (let host = canonicalHostname (gu_hostname target);
          path = (if gu_pathname target = '''' then ''/'' else gu_pathname target)
      in if sg_secure c \<and> gu_protocol target \<noteq> ''https:'' then False
         else if (if sg_hostOnly c then sg_domain c \<noteq> host else \<not> domainMatches host (sg_domain c)) then False
         else if \<not> pathMatches path (sg_path c) then False
         else if sg_partitionKey c \<noteq> None \<and> sg_partitionKey c \<noteq> topLevelSite then False
         else allowsSameSiteCookie c request target)"

text \<open>By descending path length, then creation: a stable sort by the second key, then by the first.\<close>

definition matchingCookies ::
  "gateway_env \<Rightarrow> string \<Rightarrow> gateway_url \<Rightarrow> string option \<Rightarrow> gateway_request \<Rightarrow> jar_store \<Rightarrow>
   StoredGatewayCookie list \<times> jar_store" where
  "matchingCookies ge spaceId target topLevelSite request st =
     (let (live, st1) = liveCookies ge spaceId st
      in (sort_key (\<lambda>c. - int (length (sg_path c)))
            (sort_key sg_createdAtMs (filter (cookie_sent target topLevelSite request) live)), st1))"

definition storeOrDelete ::
  "gateway_env \<Rightarrow> string \<Rightarrow> StoredGatewayCookie \<Rightarrow> bool \<Rightarrow> jar_store \<Rightarrow> jar_store" where
  "storeOrDelete ge spaceId cookie remove st =
     (let st1 = st_put st (initializedKey spaceId) GTrue;
          key = cookieKey ge spaceId cookie
      in if remove then st_delete st1 key
         else
           (case Option.bind (st_get st1 key) as_cookie of
              Some current \<Rightarrow> st_put st1 key (GCookie (cookie\<lparr>sg_createdAtMs := sg_createdAtMs current\<rparr>))
            | None \<Rightarrow>
                if int (length (st_list st1 (cookiePrefix spaceId))) \<ge> MAX_COOKIES_PER_SPACE then st1
                else st_put st1 key (GCookie cookie)))"

text \<open>The cookie a Set-Cookie header asks for, or \<open>None\<close> when it is ignored.\<close>

definition offered_cookie ::
  "gateway_env \<Rightarrow> gateway_url \<Rightarrow> string option \<Rightarrow> SetCookie \<Rightarrow> StoredGatewayCookie option" where
  "offered_cookie ge target topLevelSite parsed =
     (case sc_value parsed of
        None \<Rightarrow> None
      | Some value \<Rightarrow>
          if encodedCookieBytes (sc_name parsed) value > MAX_COOKIE_BYTES then None
          else
            (let requestHost = canonicalHostname (gu_hostname target);
                 hostOnly = (sc_domain parsed = None);
                 domain = (case sc_domain parsed of None \<Rightarrow> requestHost | Some d \<Rightarrow> canonicalHostname d)
             in if \<not> hostOnly \<and> (\<not> domainMatches requestHost domain \<or> isPublicSuffix ge domain) then None
                else
                  (let path = (case sc_path parsed of
                         Some p \<Rightarrow> if prefix ''/'' p then p else defaultCookiePath (gu_pathname target)
                       | None \<Rightarrow> defaultCookiePath (gu_pathname target));
                       secure = sc_secure parsed;
                       sameSite = sameSiteFor (sc_sameSite parsed);
                       now = ge_now ge;
                       expires1 = (case sc_maxAge parsed of None \<Rightarrow> sc_expires parsed | Some a \<Rightarrow> Some (now + a * 1000));
                       expires = map_option (\<lambda>t. min t (now + MAX_COOKIE_LIFETIME_MS)) expires1;
                       cookie = \<lparr>sg_name = sc_name parsed, sg_value = value, sg_domain = domain, sg_hostOnly = hostOnly,
                         sg_path = path, sg_secure = secure, sg_httpOnly = sc_httpOnly parsed, sg_session = (expires = None),
                         sg_sameSite = sameSite,
                         sg_partitionKey = (if sc_partitioned parsed then topLevelSite else None),
                         sg_createdAtMs = now, sg_expiresAtMs = expires\<rparr>
                   in if (sameSite = SameSiteNoRestriction \<or> sc_partitioned parsed) \<and> \<not> secure then None
                      else if secure \<and> gu_protocol target \<noteq> ''https:'' \<and> \<not> ge_allowPrivate ge then None
                      else if sc_partitioned parsed \<and> topLevelSite = None then None
                      else if \<not> validCookiePrefix cookie then None
                      else Some cookie)))"

definition acceptSetCookie ::
  "gateway_env \<Rightarrow> string \<Rightarrow> gateway_url \<Rightarrow> string option \<Rightarrow> jar_store \<Rightarrow> string \<Rightarrow> jar_store" where
  "acceptSetCookie ge spaceId target topLevelSite st header =
     (case ge_setCookie ge header of
        None \<Rightarrow> st
      | Some parsed \<Rightarrow>
          (case offered_cookie ge target topLevelSite parsed of
             None \<Rightarrow> st
           | Some cookie \<Rightarrow>
               storeOrDelete ge spaceId cookie (case sc_maxAge parsed of None \<Rightarrow> False | Some a \<Rightarrow> a \<le> 0) st))"

definition applyMutation :: "gateway_env \<Rightarrow> string \<Rightarrow> jar_store \<Rightarrow> GatewayCookieMutation \<Rightarrow> jar_store" where
  "applyMutation ge spaceId st mutation =
     (let input = gm_cookie mutation;
          domain = canonicalHostname (gs_domain input)
      in if domain = '''' \<or> (\<not> gs_hostOnly input \<and> isPublicSuffix ge domain) then st
         else
           (let now = ge_now ge;
                cookie = \<lparr>sg_name = gs_name input, sg_value = gs_value input, sg_domain = domain,
                  sg_hostOnly = gs_hostOnly input,
                  sg_path = (if prefix ''/'' (gs_path input) then gs_path input else ''/''),
                  sg_secure = gs_secure input, sg_httpOnly = gs_httpOnly input, sg_session = gs_session input,
                  sg_sameSite = gs_sameSite input, sg_partitionKey = gs_partitionKey input,
                  sg_createdAtMs = now, sg_expiresAtMs = gs_expirationMs input\<rparr>
            in if \<not> validCookiePrefix cookie \<or> encodedCookieBytes (sg_name cookie) (sg_value cookie) > MAX_COOKIE_BYTES
               then st
               else storeOrDelete ge spaceId cookie
                 (gm_removed mutation \<or> (case gs_expirationMs input of None \<Rightarrow> False | Some t \<Rightarrow> t \<le> now)) st))"

section \<open>Requests to origins\<close>

datatype decoded = Refused string nat | Decoded string gateway_url "string option"

definition decodeGatewayHeaderValue :: "gateway_env \<Rightarrow> string \<Rightarrow> string js_result" where
  "decodeGatewayHeaderValue ge value =
     (let base64 = swap_chars [(CHR ''-'', CHR ''+''), (CHR ''_'', CHR ''/'')] value;
          padded = base64 @ replicate ((4 - length base64 mod 4) mod 4) (CHR ''='')
      in case atob padded of Inl e \<Rightarrow> Inl e | Inr codes \<Rightarrow> Inr (ge_text ge (map of_nat codes)))"

definition header_url :: "gateway_env \<Rightarrow> string \<Rightarrow> gateway_url option" where
  "header_url ge value = (case decodeGatewayHeaderValue ge value of Inl _ \<Rightarrow> None | Inr u \<Rightarrow> ge_url ge u)"

definition decodeTarget :: "gateway_env \<Rightarrow> gateway_request \<Rightarrow> decoded" where
  "decodeTarget ge request =
     (case (header_of (rq_headers request) GATEWAY_SPACE_HEADER, header_of (rq_headers request) GATEWAY_TARGET_HEADER) of
        (Some spaceId, Some encodedTarget) \<Rightarrow>
          if spaceId = '''' then Refused ''missing_gateway_metadata'' 400
          else
            (case header_url ge encodedTarget of
               None \<Rightarrow> Refused ''invalid_target'' 400
             | Some target \<Rightarrow>
                 if gu_protocol target \<noteq> ''http:'' \<and> gu_protocol target \<noteq> ''https:'' then Refused ''invalid_target'' 400
                 else if gu_username target \<noteq> '''' \<or> gu_password target \<noteq> ''''
                 then Refused ''url_credentials_forbidden'' 400
                 else if \<not> ge_allowPrivate ge \<and> isPrivateTarget target then Refused ''private_target_forbidden'' 403
                 else if rq_method request = ''CONNECT'' \<or> rq_method request = ''TRACE''
                 then Refused ''method_forbidden'' 405
                 else
                   (case header_of (rq_headers request) GATEWAY_TOP_LEVEL_SITE_HEADER of
                      None \<Rightarrow> Decoded spaceId target None
                    | Some encodedTopLevel \<Rightarrow>
                        (case header_url ge encodedTopLevel of
                           None \<Rightarrow> Refused ''invalid_top_level_site'' 400
                         | Some u \<Rightarrow> Decoded spaceId target (Some (schemefulSite ge u)))))
      | _ \<Rightarrow> Refused ''missing_gateway_metadata'' 400)"

definition requestIsSameOrigin :: "gateway_env \<Rightarrow> gateway_request \<Rightarrow> gateway_url \<Rightarrow> bool" where
  "requestIsSameOrigin ge request target =
     (case header_of (rq_headers request) ''origin'' of
        Some origin \<Rightarrow> origin = gu_origin target
      | None \<Rightarrow>
          (case header_of (rq_headers request) ''referer'' of
             None \<Rightarrow> True
           | Some referrer \<Rightarrow>
               (case ge_url ge referrer of None \<Rightarrow> False | Some u \<Rightarrow> gu_origin u = gu_origin target)))"

definition json_response :: "gateway_body \<Rightarrow> nat \<Rightarrow> gateway_response" where
  "json_response b status =
     \<lparr>rs_status = status, rs_headers = [(''content-type'', ''application/json'')], rs_body = b\<rparr>"

definition upstream_headers :: "gateway_request \<Rightarrow> headers" where
  "upstream_headers request =
     (let kept = filter (\<lambda>(name, value). \<not> (js_lower name \<in> set CONTROL_REQUEST_HEADERS \<or>
            js_lower name \<in> set HOP_BY_HOP_HEADERS \<or> js_lower name = ''cookie'')) (rq_headers request)
      in case header_of (rq_headers request) GATEWAY_UPSTREAM_AUTH_HEADER of
           None \<Rightarrow> kept
         | Some auth \<Rightarrow> js_set kept ''authorization'' auth)"

definition attaches_cookies :: "gateway_env \<Rightarrow> gateway_request \<Rightarrow> gateway_url \<Rightarrow> bool" where
  "attaches_cookies ge request target =
     (let credentials = (case header_of (rq_headers request) GATEWAY_CREDENTIALS_HEADER of
            None \<Rightarrow> ''include'' | Some c \<Rightarrow> c)
      in header_of (rq_headers request) ''sec-fetch-mode'' = Some ''navigate'' \<or> credentials = ''include'' \<or>
         (credentials = ''same-origin'' \<and> requestIsSameOrigin ge request target))"

definition cookie_pairs :: "StoredGatewayCookie list \<Rightarrow> string" where
  "cookie_pairs cs = join_with ''; '' (map (\<lambda>c. sg_name c @ ''='' @ sg_value c) cs)"

definition set_cookies :: "gateway_response \<Rightarrow> string list" where
  "set_cookies r = map snd (filter (\<lambda>h. fst h = ''set-cookie'') (rs_headers r))"

text \<open>The response, the jar after it, and the request made to the origin, if one was.\<close>

definition handleFetch ::
  "gateway_env \<Rightarrow> gateway_request \<Rightarrow> jar_store \<Rightarrow> gateway_response \<times> jar_store \<times> upstream_request option" where
  "handleFetch ge request st =
     (case decodeTarget ge request of
        Refused e status \<Rightarrow> (json_response (JError e) status, st, None)
      | Decoded spaceId target topLevelSite \<Rightarrow>
          (let attach = attaches_cookies ge request target;
               (matching, st1) =
                 (if attach then matchingCookies ge spaceId target topLevelSite request st else ([], st));
               cookieHeader = cookie_pairs matching;
               headers = (if attach \<and> cookieHeader \<noteq> '''' then js_set (upstream_headers request) ''cookie'' cookieHeader
                          else upstream_headers request);
               up = \<lparr>up_target = target, up_method = rq_method request, up_headers = headers,
                 up_body = (if rq_method request = ''GET'' \<or> rq_method request = ''HEAD'' then None
                            else Some (rq_body request))\<rparr>
           in case ge_fetch ge up of
                Inl (JsError detail) \<Rightarrow>
                  (json_response (JErrorDetail ''upstream_unreachable'' detail) 502, st1, Some up)
              | Inr upstream \<Rightarrow>
                  (let st2 = (if attach then foldl (acceptSetCookie ge spaceId target topLevelSite) st1 (set_cookies upstream)
                              else st1);
                       (shown, st3) =
                         (if attach \<and> set_cookies upstream \<noteq> [] then matchingCookies ge spaceId target topLevelSite request st2
                          else (matching, st2));
                       base = (if attach then rs_headers upstream
                               else filter (\<lambda>h. fst h \<noteq> ''set-cookie'') (rs_headers upstream));
                       replayed = base @ map (\<lambda>c. (''set-cookie'', serializeCookie ge c)) shown;
                       marked = filter (\<lambda>h. fst h \<noteq> GATEWAY_RESPONSE_HEADER) replayed @
                         [(GATEWAY_RESPONSE_HEADER, ''authoritative'')]
                   in (\<lparr>rs_status = rs_status upstream, rs_headers = marked, rs_body = rs_body upstream\<rparr>, st3, Some up))))"

section \<open>Cookie snapshots and mutations\<close>

fun same_site_of :: "json option \<Rightarrow> SameSite option" where
  "same_site_of (Some (JStr s)) =
     (if s = ''unspecified'' then Some SameSiteUnspecified
      else if s = ''no_restriction'' then Some SameSiteNoRestriction
      else if s = ''lax'' then Some SameSiteLax
      else if s = ''strict'' then Some SameSiteStrict else None)"
| "same_site_of _ = None"

fun js_bool :: "json option \<Rightarrow> bool option" where
  "js_bool (Some (JBool b)) = Some b"
| "js_bool _ = None"

fun partition_of :: "json option \<Rightarrow> string option option" where
  "partition_of (Some JNull) = Some None"
| "partition_of (Some (JStr s)) = Some (Some s)"
| "partition_of _ = None"

definition expiration_of :: "gateway_env \<Rightarrow> json option \<Rightarrow> int option option" where
  "expiration_of ge j = (case j of None \<Rightarrow> Some None | Some n \<Rightarrow> map_option Some (ge_millis ge n))"

definition member_of :: "json \<Rightarrow> string \<Rightarrow> json option" where
  "member_of j k = (case js_member j k of Inl _ \<Rightarrow> None | Inr v \<Rightarrow> v)"

text \<open>The mutation a JSON value is, or \<open>None\<close> when \<open>validMutation\<close> rejects it.\<close>

definition validMutation :: "gateway_env \<Rightarrow> json \<Rightarrow> GatewayCookieMutation option" where
  "validMutation ge value = do {
     removed \<leftarrow> js_bool (member_of value ''removed'');
     cookie \<leftarrow> member_of value ''cookie'';
     name \<leftarrow> js_text (member_of cookie ''name'');
     val \<leftarrow> js_text (member_of cookie ''value'');
     domain \<leftarrow> js_text (member_of cookie ''domain'');
     hostOnly \<leftarrow> js_bool (member_of cookie ''hostOnly'');
     path \<leftarrow> js_text (member_of cookie ''path'');
     secure \<leftarrow> js_bool (member_of cookie ''secure'');
     httpOnly \<leftarrow> js_bool (member_of cookie ''httpOnly'');
     session \<leftarrow> js_bool (member_of cookie ''session'');
     sameSite \<leftarrow> same_site_of (member_of cookie ''sameSite'');
     part \<leftarrow> partition_of (member_of cookie ''partitionKey'');
     expiration \<leftarrow> expiration_of ge (member_of cookie ''expirationDate'');
     Some \<lparr>gm_cookie = \<lparr>gs_name = name, gs_value = val, gs_domain = domain, gs_hostOnly = hostOnly, gs_path = path,
         gs_secure = secure, gs_httpOnly = httpOnly, gs_session = session, gs_sameSite = sameSite,
         gs_partitionKey = part, gs_expirationMs = expiration\<rparr>, gm_removed = removed\<rparr>
   }"

definition mutations_of :: "json \<Rightarrow> json list option" where
  "mutations_of body =
     (case member_of body ''mutations'' of
        None \<Rightarrow> Some [body]
      | Some (JArr ms) \<Rightarrow> Some ms
      | Some _ \<Rightarrow> None)"

definition handleCookies ::
  "gateway_env \<Rightarrow> gateway_request \<Rightarrow> jar_store \<Rightarrow> gateway_response \<times> jar_store" where
  "handleCookies ge request st =
     (case header_of (rq_headers request) GATEWAY_SPACE_HEADER of
        None \<Rightarrow> (json_response (JError ''missing_space'') 400, st)
      | Some spaceId \<Rightarrow>
          if spaceId = '''' then (json_response (JError ''missing_space'') 400, st)
          else if rq_method request = ''GET'' then
            (let (cookies, st1) = liveCookies ge spaceId st;
                 initialized = (length cookies > 0 \<or> st_get st1 (initializedKey spaceId) = Some GTrue)
             in (json_response (JCookies (map snapshot cookies) initialized) 200, st1))
          else if rq_method request \<noteq> ''PUT'' then (json_response (JError ''method_not_allowed'') 405, st)
          else
            (case ge_json ge (rq_body request) of
               Inl _ \<Rightarrow> (json_response (JError ''malformed'') 400, st)
             | Inr body \<Rightarrow>
                 (case mutations_of body of
                    None \<Rightarrow> (json_response (JError ''malformed'') 400, st)
                  | Some ms \<Rightarrow>
                      if int (length ms) > MAX_COOKIES_PER_SPACE then (json_response (JError ''malformed'') 400, st)
                      else
                        (case those (map (validMutation ge) ms) of
                           None \<Rightarrow> (json_response (JError ''malformed'') 400, st)
                         | Some mutations \<Rightarrow>
                             (json_response JOk 200, foldl (applyMutation ge spaceId) st mutations)))))"

end
