(* ===== verification/GatewayFacts.thy ===== *)
theory GatewayFacts
  imports Gateway HubKeyed
begin

text \<open>
  Lemmas about the gateway: which hosts are private, what a fetch forwards, and how a property of the
  cookies of a jar survives a fetch or a mutation.
\<close>

section \<open>Targets\<close>

definition dotted :: "nat \<Rightarrow> nat \<Rightarrow> nat \<Rightarrow> nat \<Rightarrow> string" where
  "dotted a b c d = decimal_text a @ ''.'' @ decimal_text b @ ''.'' @ decimal_text c @ ''.'' @ decimal_text d"

text \<open>The address ranges that are no public destination.\<close>

definition reserved4 :: "nat \<Rightarrow> nat \<Rightarrow> bool" where
  "reserved4 a b \<longleftrightarrow> a \<in> {0, 10, 127} \<or> (a = 169 \<and> b = 254) \<or> (a = 172 \<and> b \<in> {16..31}) \<or> (a = 192 \<and> b = 168) \<or>
     (a = 100 \<and> b \<in> {64..127}) \<or> (a = 198 \<and> b \<in> {18, 19}) \<or> 224 \<le> a"

lemma decimal_text_small:
  "n < 10 \<Longrightarrow> decimal_text n = [char_of (48 + n)]"
  "10 \<le> n \<Longrightarrow> decimal_text n = decimal_text (n div 10) @ [char_of (48 + n mod 10)]"
  by (simp_all add: decimal_text.simps[of n])

lemma decimal_text_digits: "list_all is_digit (decimal_text n)"
  using decimal_text_range by (fastforce simp: list_all_iff is_digit_def less_eq_char_def)

lemma decimal_text_length: "n < 1000 \<Longrightarrow> 1 \<le> length (decimal_text n) \<and> length (decimal_text n) \<le> 3"
proof -
  assume n: "n < 1000"
  consider "n < 10" | "10 \<le> n" "n < 100" | "100 \<le> n" by linarith
  then show ?thesis
  proof cases
    case 1
    then show ?thesis by (simp add: decimal_text_small)
  next
    case 2
    then have "n div 10 < 10" by simp
    then show ?thesis using 2 by (simp add: decimal_text_small)
  next
    case 3
    then have "10 \<le> n div 10" "n div 10 div 10 < 10" using n by simp_all
    then show ?thesis using 3 by (simp add: decimal_text_small del: div_mult2_eq)
  qed
qed

lemma decimal_of_text [simp]: "decimal (decimal_text n) = n"
  using decimal_read_text[of n] by (simp add: decimal_def decimal_read_def)

lemma decimal_text_octet: "n < 256 \<Longrightarrow> digits13 (decimal_text n) \<and> decimal (decimal_text n) \<le> 255"
  using decimal_text_length[of n] decimal_text_digits[of n] by (simp add: digits13_def)

lemma decimal_text_no_dot: "CHR ''.'' \<notin> set (decimal_text n)"
  using decimal_text_range[of "CHR ''.''" n] by auto

lemma split_dotted: "js_split (CHR ''.'') (dotted a b c d) = map decimal_text [a, b, c, d]"
  using decimal_text_no_dot by (simp add: dotted_def js_split_append js_split_none)

lemma dotted_private:
  assumes "a < 256" "b < 256" "c < 256" "d < 256"
  shows "isIpv4 (dotted a b c d)" "isPrivateIpv4 (dotted a b c d) \<longleftrightarrow> reserved4 a b"
proof -
  show i: "isIpv4 (dotted a b c d)"
    using assms decimal_text_octet unfolding isIpv4_def split_dotted by (simp del: decimal_of_text)
  show "isPrivateIpv4 (dotted a b c d) \<longleftrightarrow> reserved4 a b"
    using i unfolding isPrivateIpv4_def split_dotted by (auto simp: reserved4_def)
qed

lemma decodeTarget_decoded:
  assumes "decodeTarget ge request = Decoded sp target tls"
  shows "header_of (rq_headers request) GATEWAY_SPACE_HEADER = Some sp \<and> sp \<noteq> [] \<and>
    (gu_protocol target = ''http:'' \<or> gu_protocol target = ''https:'') \<and>
    gu_username target = [] \<and> gu_password target = [] \<and>
    (ge_allowPrivate ge \<or> \<not> isPrivateTarget target) \<and> rq_method request \<notin> {''CONNECT'', ''TRACE''}"
  using assms by (auto simp: decodeTarget_def split: option.splits if_splits)

lemma handleFetch_request:
  assumes "handleFetch ge request st = (r, st', Some up)"
  shows "\<exists>sp tls. decodeTarget ge request = Decoded sp (up_target up) tls \<and> up_method up = rq_method request \<and>
    (up_headers up = upstream_headers request \<or>
     (\<exists>v. up_headers up = js_set (upstream_headers request) ''cookie'' v))"
  using assms
  by (cases "decodeTarget ge request")
    (auto simp: handleFetch_def Let_def split: prod.splits sum.splits js_error.splits if_splits)

lemma js_set_mem: "(k, v) \<in> set (js_set m k' v') \<Longrightarrow> (k = k' \<and> v = v') \<or> (k, v) \<in> set m"
  by (induction m) (auto split: if_splits)

lemma headers_forwarded:
  assumes "(n, v) \<in> set (upstream_headers request)"
  shows "js_lower n \<notin> {''x-suma-device'', GATEWAY_SPACE_HEADER, GATEWAY_TARGET_HEADER, GATEWAY_CREDENTIALS_HEADER,
      GATEWAY_TOP_LEVEL_SITE_HEADER, GATEWAY_UPSTREAM_AUTH_HEADER} \<and>
    (n = ''authorization'' \<longrightarrow> header_of (rq_headers request) GATEWAY_UPSTREAM_AUTH_HEADER = Some v)"
proof -
  have l: "js_lower ''authorization'' = ''authorization''" by code_simp
  have d: "js_lower ''x-suma-device'' = ''x-suma-device''" by code_simp
  note c = GATEWAY_SPACE_HEADER_def GATEWAY_TARGET_HEADER_def GATEWAY_CREDENTIALS_HEADER_def
    GATEWAY_TOP_LEVEL_SITE_HEADER_def GATEWAY_UPSTREAM_AUTH_HEADER_def
  let ?kept = "filter (\<lambda>(name, value). \<not> (js_lower name \<in> set CONTROL_REQUEST_HEADERS \<or>
            js_lower name \<in> set HOP_BY_HOP_HEADERS \<or> js_lower name = ''cookie'')) (rq_headers request)"
  consider (kept) "(n, v) \<in> set ?kept"
    | (auth) "n = ''authorization''" "header_of (rq_headers request) GATEWAY_UPSTREAM_AUTH_HEADER = Some v"
    using assms by (auto simp: upstream_headers_def Let_def dest!: js_set_mem split: option.splits)
  then show ?thesis
  proof cases
    case kept
    then show ?thesis using l by (auto simp: CONTROL_REQUEST_HEADERS_def)
  next
    case auth
    then show ?thesis using l by (auto simp: c)
  qed
qed

section \<open>What a jar holds\<close>

text \<open>A property of every stored cookie and its key, on a well-formed store.\<close>

definition jar_all :: "(string \<Rightarrow> StoredGatewayCookie \<Rightarrow> bool) \<Rightarrow> jar_store \<Rightarrow> bool" where
  "jar_all P st \<longleftrightarrow> js_wf st \<and> (\<forall>k c. st_get st k = Some (GCookie c) \<longrightarrow> P k c)"

lemma as_cookie_Some [simp]: "as_cookie v = Some c \<longleftrightarrow> v = GCookie c"
  by (cases v) auto

lemma jar_all_dels: "jar_all P st \<Longrightarrow> jar_all P (foldl st_delete st ks)"
  by (simp add: jar_all_def store.ok_dels store.get_dels)

lemma jar_all_live: "jar_all P st \<Longrightarrow> jar_all P (snd (liveCookies ge sp st))"
  by (simp add: liveCookies_def Let_def jar_all_dels)

lemma list_cookies_mem:
  "js_wf st \<Longrightarrow> (k, c) \<in> set (list_cookies st p) \<longleftrightarrow> st_get st k = Some (GCookie c) \<and> prefix p k"
  using store.lst_mem[of st k _ p] by (force simp: list_cookies_def set_map_filter)

lemma liveCookies_mem:
  assumes "js_wf st" "c \<in> set (fst (liveCookies ge sp st))"
  shows "\<exists>k. st_get st k = Some (GCookie c) \<and> prefix (cookiePrefix sp) k \<and> \<not> expired ge c"
proof -
  obtain k where "(k, c) \<in> set (list_cookies st (cookiePrefix sp))" "\<not> expired ge c"
    using assms(2) by (auto simp: liveCookies_def Let_def)
  then show ?thesis using list_cookies_mem[OF assms(1)] by blast
qed

lemma matchingCookies_mem:
  "c \<in> set (fst (matchingCookies ge sp target tls request st)) \<longleftrightarrow>
     c \<in> set (fst (liveCookies ge sp st)) \<and> cookie_sent target tls request c"
  by (auto simp: matchingCookies_def split_beta)

lemma matchingCookies_store [simp]:
  "snd (matchingCookies ge sp target tls request st) = snd (liveCookies ge sp st)"
  by (simp add: matchingCookies_def split_beta)

lemma created_at_id: "\<exists>t. c = c\<lparr>sg_createdAtMs := t\<rparr>"
  by (rule exI[of _ "sg_createdAtMs c"]) simp

lemma storeOrDelete_get:
  assumes "st_get (storeOrDelete ge sp c rm st) k = Some (GCookie x)"
  shows "st_get st k = Some (GCookie x) \<or> (k = cookieKey ge sp c \<and> (\<exists>t. x = c\<lparr>sg_createdAtMs := t\<rparr>))"
  using assms created_at_id
  by (auto simp: storeOrDelete_def Let_def store.get_put store.get_del split: option.splits if_splits)

lemma storeOrDelete_wf: "js_wf st \<Longrightarrow> js_wf (storeOrDelete ge sp c rm st)"
  by (simp add: storeOrDelete_def Let_def store.ok_put store.ok_del split: option.split)

lemma jar_all_store:
  "jar_all P st \<Longrightarrow> (\<And>t. P (cookieKey ge sp c) (c\<lparr>sg_createdAtMs := t\<rparr>)) \<Longrightarrow> jar_all P (storeOrDelete ge sp c rm st)"
  unfolding jar_all_def using storeOrDelete_get storeOrDelete_wf by blast

definition offers :: "gateway_env \<Rightarrow> string \<Rightarrow> gateway_url \<Rightarrow> string option \<Rightarrow> (string \<Rightarrow> StoredGatewayCookie \<Rightarrow> bool) \<Rightarrow> bool" where
  "offers ge sp target tls P \<longleftrightarrow>
     (\<forall>parsed c t. offered_cookie ge target tls parsed = Some c \<longrightarrow> P (cookieKey ge sp c) (c\<lparr>sg_createdAtMs := t\<rparr>))"

lemma acceptSetCookies_jar:
  "jar_all P st \<Longrightarrow> offers ge sp target tls P \<Longrightarrow> jar_all P (foldl (acceptSetCookie ge sp target tls) st hs)"
proof (induction hs arbitrary: st)
  case (Cons h hs)
  have "jar_all P (acceptSetCookie ge sp target tls st h)"
    using Cons.prems jar_all_store by (auto simp: acceptSetCookie_def offers_def split: option.split)
  then show ?case using Cons by simp
qed simp

text \<open>The store a fetch leaves: the cookies past their expiry are deleted, those offered stored.\<close>

lemma handleFetch_store:
  assumes "decodeTarget ge request = Decoded sp target tls"
  shows "fst (snd (handleFetch ge request st)) = st \<or>
    (\<exists>hs. fst (snd (handleFetch ge request st)) = foldl (acceptSetCookie ge sp target tls) (snd (liveCookies ge sp st)) hs \<or>
       fst (snd (handleFetch ge request st)) =
         snd (liveCookies ge sp (foldl (acceptSetCookie ge sp target tls) (snd (liveCookies ge sp st)) hs)))"
proof (cases "attaches_cookies ge request target")
  case False
  then show ?thesis
    by (simp add: handleFetch_def assms Let_def split: sum.split js_error.split)
next
  case True
  have a: "attaches_cookies ge request target = True" using True by simp
  obtain ms where m: "matchingCookies ge sp target tls request st = (ms, snd (liveCookies ge sp st))"
    using matchingCookies_store by (metis prod.collapse)
  define up where "up = \<lparr>up_target = target, up_method = rq_method request,
    up_headers = (if cookie_pairs ms \<noteq> '''' then js_set (upstream_headers request) ''cookie'' (cookie_pairs ms)
       else upstream_headers request),
    up_body = (if rq_method request = ''GET'' \<or> rq_method request = ''HEAD'' then None else Some (rq_body request))\<rparr>"
  let ?st1 = "snd (liveCookies ge sp st)"
  let ?st2 = "\<lambda>hs. foldl (acceptSetCookie ge sp target tls) ?st1 hs"
  show ?thesis
  proof (cases "ge_fetch ge up")
    case (Inl e)
    then have "fst (snd (handleFetch ge request st)) = ?st2 []"
      unfolding handleFetch_def assms decoded.case(2) Let_def a if_True m prod.case simp_thms up_def[symmetric]
      by (cases e) simp
    then show ?thesis by metis
  next
    case (Inr r)
    then have "fst (snd (handleFetch ge request st)) =
      (if set_cookies r \<noteq> [] then snd (liveCookies ge sp (?st2 (set_cookies r))) else ?st2 (set_cookies r))"
      unfolding handleFetch_def assms decoded.case(2) Let_def a if_True m prod.case simp_thms up_def[symmetric]
      by (simp add: split_beta split: prod.split)
    then show ?thesis by (metis (full_types))
  qed
qed

lemma handleFetch_jar:
  assumes "jar_all P st" "\<And>sp target tls. decodeTarget ge request = Decoded sp target tls \<Longrightarrow> offers ge sp target tls P"
  shows "jar_all P (fst (snd (handleFetch ge request st)))"
proof (cases "decodeTarget ge request")
  case (Refused e s)
  then show ?thesis using assms(1) by (simp add: handleFetch_def)
next
  case (Decoded sp target tls)
  note o = assms(2)[OF Decoded]
  have a: "jar_all P (snd (liveCookies ge sp st))" using assms(1) jar_all_live by blast
  show ?thesis
    using handleFetch_store[OF Decoded, of st] assms(1) acceptSetCookies_jar[OF a o]
      jar_all_live[OF acceptSetCookies_jar[OF a o]] by metis
qed

text \<open>The cookie a mutation writes.\<close>

definition written_cookie :: "gateway_env \<Rightarrow> GatewayCookieMutation \<Rightarrow> StoredGatewayCookie" where
  "written_cookie ge m =
     (let i = gm_cookie m
      in \<lparr>sg_name = gs_name i, sg_value = gs_value i, sg_domain = canonicalHostname (gs_domain i),
          sg_hostOnly = gs_hostOnly i, sg_path = (if prefix ''/'' (gs_path i) then gs_path i else ''/''),
          sg_secure = gs_secure i, sg_httpOnly = gs_httpOnly i, sg_session = gs_session i, sg_sameSite = gs_sameSite i,
          sg_partitionKey = gs_partitionKey i, sg_createdAtMs = ge_now ge, sg_expiresAtMs = gs_expirationMs i\<rparr>)"

lemma applyMutation_eq:
  "applyMutation ge sp st m = st \<or>
   (validCookiePrefix (written_cookie ge m) \<and>
    encodedCookieBytes (sg_name (written_cookie ge m)) (sg_value (written_cookie ge m)) \<le> MAX_COOKIE_BYTES \<and>
    (\<exists>rm. applyMutation ge sp st m = storeOrDelete ge sp (written_cookie ge m) rm st))"
  unfolding applyMutation_def written_cookie_def[symmetric] Let_def
  by (auto simp: written_cookie_def Let_def not_less)

lemma handleCookies_store:
  "\<exists>ms. snd (handleCookies ge request st) = snd (liveCookies ge (the (header_of (rq_headers request) GATEWAY_SPACE_HEADER)) st) \<or>
     snd (handleCookies ge request st) = foldl (applyMutation ge (the (header_of (rq_headers request) GATEWAY_SPACE_HEADER))) st ms"
proof -
  have n: "foldl f st [] = st" for f :: "jar_store \<Rightarrow> GatewayCookieMutation \<Rightarrow> jar_store" by simp
  show ?thesis
    by (cases "header_of (rq_headers request) GATEWAY_SPACE_HEADER")
      (auto simp: handleCookies_def split_beta Let_def split: option.split sum.split intro: exI[of _ "[]"])
qed

end
