(* ===== verification/GatewaySafety.thy ===== *)
theory GatewaySafety
  imports GatewayFacts
begin

text \<open>
  The properties of the gateway over runs of its calls: which targets it contacts and what it
  forwards, where the cookies of a jar come from and go to, and how many a space holds.
\<close>

section \<open>Runs\<close>

text \<open>A call of the gateway, with what it reads of the world at that moment.\<close>

datatype gateway_call = FetchCall gateway_env gateway_request | CookieCall gateway_env gateway_request

fun gateway_step :: "jar_store \<Rightarrow> gateway_call \<Rightarrow> jar_store" where
  "gateway_step st (FetchCall ge request) = fst (snd (handleFetch ge request st))"
| "gateway_step st (CookieCall ge request) = snd (handleCookies ge request st)"

fun call_request :: "gateway_call \<Rightarrow> gateway_request" where
  "call_request (FetchCall ge request) = request"
| "call_request (CookieCall ge request) = request"

definition call_space :: "gateway_call \<Rightarrow> string option" where
  "call_space call = header_of (rq_headers (call_request call)) GATEWAY_SPACE_HEADER"

text \<open>A call whose space id has no colon, as the ids of the desktop have none.\<close>

definition plain_space :: "gateway_call \<Rightarrow> bool" where
  "plain_space call \<longleftrightarrow> (case call_space call of None \<Rightarrow> True | Some sp \<Rightarrow> CHR '':'' \<notin> set sp)"

lemma cookiePrefix_key:
  "CHR '':'' \<notin> set sp \<Longrightarrow> CHR '':'' \<notin> set sp' \<Longrightarrow> prefix (cookiePrefix sp) (cookieKey ge sp' c) \<longleftrightarrow> sp = sp'"
  using colon_split[of sp' sp] by (auto simp: cookieKey_def cookiePrefix_def COOKIE_PREFIX_def prefix_def)

lemma cookiePrefix_initialized [simp]: "\<not> prefix (cookiePrefix sp) (initializedKey sp')"
  by (auto simp: cookiePrefix_def initializedKey_def COOKIE_PREFIX_def INITIALIZED_PREFIX_def)

section \<open>Invariants of a jar\<close>

text \<open>What every write of a cookie and every sweep keeps, a fetch and a mutation keep.\<close>

lemma handleFetch_keeps:
  assumes "I st" "\<And>st sp. I st \<Longrightarrow> I (snd (liveCookies ge sp st))"
    "\<And>st sp target tls parsed c rm. decodeTarget ge request = Decoded sp target tls \<Longrightarrow>
       offered_cookie ge target tls parsed = Some c \<Longrightarrow> I st \<Longrightarrow> I (storeOrDelete ge sp c rm st)"
  shows "I (gateway_step st (FetchCall ge request))"
proof (cases "decodeTarget ge request")
  case (Refused e s)
  then show ?thesis using assms(1) by (simp add: handleFetch_def)
next
  case (Decoded sp target tls)
  have "I (acceptSetCookie ge sp target tls st h)" if "I st" for st h
    using that assms(3)[OF Decoded] by (simp add: acceptSetCookie_def split: option.split)
  then have f: "I st \<Longrightarrow> I (foldl (acceptSetCookie ge sp target tls) st hs)" for st hs
    by (induction hs arbitrary: st) simp_all
  show ?thesis
    using handleFetch_store[OF Decoded, of st] assms(1) f assms(2) unfolding gateway_step.simps by metis
qed

lemma handleCookies_keeps:
  assumes "I st" "\<And>st sp. I st \<Longrightarrow> I (snd (liveCookies ge sp st))"
    "\<And>st sp m rm. header_of (rq_headers request) GATEWAY_SPACE_HEADER = Some sp \<Longrightarrow> rq_method request = ''PUT'' \<Longrightarrow>
       validCookiePrefix (written_cookie ge m) \<Longrightarrow>
       encodedCookieBytes (sg_name (written_cookie ge m)) (sg_value (written_cookie ge m)) \<le> MAX_COOKIE_BYTES \<Longrightarrow>
       I st \<Longrightarrow> I (storeOrDelete ge sp (written_cookie ge m) rm st)"
  shows "I (gateway_step st (CookieCall ge request))"
proof (cases "header_of (rq_headers request) GATEWAY_SPACE_HEADER")
  case None
  then show ?thesis using assms(1) by (simp add: handleCookies_def)
next
  case (Some sp)
  show ?thesis
  proof (cases "rq_method request = ''PUT''")
    case False
    then show ?thesis using assms(1) assms(2)[of st sp] Some by (simp add: handleCookies_def split_beta Let_def)
  next
    case True
    have "I (applyMutation ge sp st m)" if "I st" for st m
      using applyMutation_eq[of ge sp st m] that assms(3)[OF Some True] by metis
    then have f: "I st \<Longrightarrow> I (foldl (applyMutation ge sp) st ms)" for st ms
      by (induction ms arbitrary: st) simp_all
    show ?thesis
      using f[OF assms(1)] assms(1) True Some
      by (simp add: handleCookies_def split: option.split sum.split)
  qed
qed

text \<open>The length of a listing is the number of keys under its prefix.\<close>

context hub_storage begin

lemma lst_keyset: "ok s \<Longrightarrow> {k. get s k \<noteq> None \<and> prefix p k} = set (map fst (lst s p))"
  using lst_keys by (intro set_eqI) (simp only: mem_Collect_eq)

lemma lst_length: "ok s \<Longrightarrow> length (lst s p) = card {k. get s k \<noteq> None \<and> prefix p k}"
  using distinct_card[OF lst_distinct[of s p]] by (simp only: lst_keyset length_map)

lemma lst_finite: "ok s \<Longrightarrow> finite {k. get s k \<noteq> None \<and> prefix p k}"
  by (simp only: lst_keyset finite_set)

lemma lst_length_mono:
  assumes "ok s" "ok t" "\<And>k. prefix p k \<Longrightarrow> get t k \<noteq> None \<Longrightarrow> get s k \<noteq> None"
  shows "length (lst t p) \<le> length (lst s p)"
  unfolding lst_length[OF assms(1)] lst_length[OF assms(2)]
  by (rule card_mono) (use assms lst_finite[OF assms(1), of p] in auto)

lemma lst_length_put:
  assumes "ok s"
  shows "length (lst (put s k v) p) \<le> length (lst s p) + (if prefix p k \<and> get s k = None then 1 else 0)"
proof (cases "prefix p k \<and> get s k = None")
  case True
  have "set (map fst (lst (put s k v) p)) \<subseteq> insert k (set (map fst (lst s p)))"
    unfolding lst_keyset[OF assms, symmetric] lst_keyset[OF ok_put[OF assms], symmetric]
    by (auto simp: get_put split: if_splits)
  then have "card (set (map fst (lst (put s k v) p))) \<le> card (insert k (set (map fst (lst s p))))"
    by (intro card_mono) simp_all
  moreover have "card (insert k (set (map fst (lst s p)))) \<le> Suc (card (set (map fst (lst s p))))"
    by (simp add: card_insert_if)
  ultimately have "card (set (map fst (lst (put s k v) p))) \<le> Suc (card (set (map fst (lst s p))))" by linarith
  then have "length (lst (put s k v) p) \<le> Suc (length (lst s p))"
    unfolding distinct_card[OF lst_distinct[OF assms]] distinct_card[OF lst_distinct[OF ok_put[OF assms]]]
    by (simp only: length_map)
  then show ?thesis using True by simp
next
  case False
  then have "length (lst (put s k v) p) \<le> length (lst s p)"
    by (intro lst_length_mono[OF assms ok_put[OF assms]]) (auto simp: get_put split: if_splits)
  then show ?thesis by simp
qed

lemma lst_length_del: "ok s \<Longrightarrow> length (lst (del s k) p) \<le> length (lst s p)"
  by (rule lst_length_mono) (auto simp: ok_del get_del split: if_splits)

lemma lst_length_dels: "ok s \<Longrightarrow> length (lst (foldl del s ks) p) \<le> length (lst s p)"
  by (rule lst_length_mono) (auto simp: ok_dels get_dels split: if_splits)

end

text \<open>What a jar keeps: the bound of every space, and the two rules every stored cookie satisfies.\<close>

definition lawful_cookie :: "StoredGatewayCookie \<Rightarrow> bool" where
  "lawful_cookie c \<longleftrightarrow> validCookiePrefix c \<and> encodedCookieBytes (sg_name c) (sg_value c) \<le> MAX_COOKIE_BYTES"

definition jar_bounded :: "jar_store \<Rightarrow> bool" where
  "jar_bounded st \<longleftrightarrow> jar_all (\<lambda>k c. lawful_cookie c) st \<and>
     (\<forall>sp. CHR '':'' \<notin> set sp \<longrightarrow> int (length (st_list st (cookiePrefix sp))) \<le> MAX_COOKIES_PER_SPACE)"

lemma jar_bounded_live: "jar_bounded st \<Longrightarrow> jar_bounded (snd (liveCookies ge sp st))"
proof -
  assume b: "jar_bounded st"
  then have "js_wf st" by (simp add: jar_bounded_def jar_all_def)
  then have "length (st_list (snd (liveCookies ge sp st)) p) \<le> length (st_list st p)" for p
    by (simp only: liveCookies_def Let_def snd_conv store.lst_length_dels)
  then show ?thesis using b jar_all_live unfolding jar_bounded_def by (meson of_nat_mono order_trans)
qed

lemma lawful_created [simp]: "lawful_cookie (c\<lparr>sg_createdAtMs := t\<rparr>) = lawful_cookie c"
  by (auto simp: lawful_cookie_def validCookiePrefix_def)

lemma store_list_bounded:
  assumes "js_wf st" "CHR '':'' \<notin> set sp" "CHR '':'' \<notin> set sp'"
    "int (length (st_list st (cookiePrefix sp'))) \<le> MAX_COOKIES_PER_SPACE"
  shows "int (length (st_list (storeOrDelete ge sp c rm st) (cookiePrefix sp'))) \<le> MAX_COOKIES_PER_SPACE"
proof -
  let ?st1 = "st_put st (initializedKey sp) GTrue" and ?k = "cookieKey ge sp c"
  have wf: "js_wf ?st1" using assms(1) by (rule store.ok_put)
  have le: "int (length (st_list ?st1 (cookiePrefix sp'))) \<le> MAX_COOKIES_PER_SPACE"
    using store.lst_length_put[OF assms(1), of "initializedKey sp" GTrue "cookiePrefix sp'"] assms(4) by simp
  have del: "int (length (st_list (st_delete ?st1 ?k) (cookiePrefix sp'))) \<le> MAX_COOKIES_PER_SPACE"
    using store.lst_length_del[OF wf, of ?k "cookiePrefix sp'"] le by simp
  have put: "int (length (st_list (st_put ?st1 ?k v) (cookiePrefix sp'))) \<le> MAX_COOKIES_PER_SPACE"
    if "st_get ?st1 ?k \<noteq> None \<or> int (length (st_list ?st1 (cookiePrefix sp))) < MAX_COOKIES_PER_SPACE" for v
    using store.lst_length_put[OF wf, of ?k v "cookiePrefix sp'"] le that cookiePrefix_key[OF assms(3,2), of ge]
    by (auto split: if_splits)
  show ?thesis
    using le del put
    by (auto simp: storeOrDelete_def Let_def not_le bind_eq_Some_conv split: option.split)
qed

lemma jar_bounded_store:
  assumes "jar_bounded st" "CHR '':'' \<notin> set sp" "lawful_cookie c"
  shows "jar_bounded (storeOrDelete ge sp c rm st)"
proof -
  have "jar_all (\<lambda>k c. lawful_cookie c) st" "js_wf st" using assms(1) by (auto simp: jar_bounded_def jar_all_def)
  then show ?thesis
    using assms store_list_bounded jar_all_store[of "\<lambda>k c. lawful_cookie c" st ge sp c rm]
    by (auto simp: jar_bounded_def)
qed

lemma offered_lawful: "offered_cookie ge target tls parsed = Some c \<Longrightarrow> lawful_cookie c"
  by (auto simp: offered_cookie_def lawful_cookie_def Let_def not_less split: option.splits if_splits)

lemma jar_bounded_step: "jar_bounded st \<Longrightarrow> plain_space call \<Longrightarrow> jar_bounded (gateway_step st call)"
proof (cases call)
  case (FetchCall ge request)
  assume a: "jar_bounded st" "plain_space call"
  show ?thesis unfolding FetchCall
  proof (rule handleFetch_keeps[OF a(1) jar_bounded_live])
    fix st sp target tls parsed c rm
    assume d: "decodeTarget ge request = Decoded sp target tls" "offered_cookie ge target tls parsed = Some c" "jar_bounded st"
    have "CHR '':'' \<notin> set sp" using decodeTarget_decoded[OF d(1)] a(2) by (simp add: plain_space_def call_space_def FetchCall)
    then show "jar_bounded (storeOrDelete ge sp c rm st)" using jar_bounded_store offered_lawful d by blast
  qed
next
  case (CookieCall ge request)
  assume a: "jar_bounded st" "plain_space call"
  show ?thesis unfolding CookieCall
  proof (rule handleCookies_keeps[OF a(1) jar_bounded_live])
    fix st sp m rm
    assume "header_of (rq_headers request) GATEWAY_SPACE_HEADER = Some sp" "jar_bounded st"
      "validCookiePrefix (written_cookie ge m)"
      "encodedCookieBytes (sg_name (written_cookie ge m)) (sg_value (written_cookie ge m)) \<le> MAX_COOKIE_BYTES"
    then show "jar_bounded (storeOrDelete ge sp (written_cookie ge m) rm st)"
      using jar_bounded_store a(2) by (simp add: plain_space_def call_space_def CookieCall lawful_cookie_def)
  qed
qed

section \<open>Where a cookie was set\<close>

text \<open>The host or the device that set a cookie: a response of a host it may belong to, or a snapshot put by a device.\<close>

definition belongs :: "string \<Rightarrow> StoredGatewayCookie \<Rightarrow> bool" where
  "belongs host c \<longleftrightarrow> (if sg_hostOnly c then sg_domain c = host else domainMatches host (sg_domain c))"

definition sets_cookie :: "string \<Rightarrow> StoredGatewayCookie \<Rightarrow> gateway_call \<Rightarrow> bool" where
  "sets_cookie sp c call \<longleftrightarrow> call_space call = Some sp \<and>
     (case call of
        CookieCall ge request \<Rightarrow> rq_method request = ''PUT''
      | FetchCall ge request \<Rightarrow>
          (\<exists>target tls. decodeTarget ge request = Decoded sp target tls \<and> belongs (canonicalHostname (gu_hostname target)) c \<and>
             (\<not> sg_hostOnly c \<longrightarrow> \<not> isPublicSuffix ge (sg_domain c))))"

definition jar_set_by :: "gateway_call set \<Rightarrow> jar_store \<Rightarrow> bool" where
  "jar_set_by calls = jar_all (\<lambda>k c. \<forall>sp. CHR '':'' \<notin> set sp \<longrightarrow> prefix (cookiePrefix sp) k \<longrightarrow> Bex calls (sets_cookie sp c))"

lemma belongs_created [simp]: "belongs h (c\<lparr>sg_createdAtMs := t\<rparr>) = belongs h c"
  by (simp add: belongs_def)

lemma sets_created [simp]: "sets_cookie sp (c\<lparr>sg_createdAtMs := t\<rparr>) = sets_cookie sp c"
  by (intro ext) (auto simp: sets_cookie_def split: gateway_call.split)

lemma offered_belongs:
  "offered_cookie ge target tls parsed = Some c \<Longrightarrow>
   belongs (canonicalHostname (gu_hostname target)) c \<and> (\<not> sg_hostOnly c \<longrightarrow> \<not> isPublicSuffix ge (sg_domain c))"
  by (auto simp: offered_cookie_def belongs_def Let_def split: option.splits if_splits)

lemma jar_set_by_store:
  assumes "jar_set_by calls st" "sets_cookie sp c call" "call \<in> calls" "CHR '':'' \<notin> set sp"
  shows "jar_set_by calls (storeOrDelete ge sp c rm st)"
  unfolding jar_set_by_def
proof (rule jar_all_store[OF assms(1)[unfolded jar_set_by_def]])
  fix t
  show "\<forall>sp'. CHR '':'' \<notin> set sp' \<longrightarrow> prefix (cookiePrefix sp') (cookieKey ge sp c) \<longrightarrow>
      Bex calls (sets_cookie sp' (c\<lparr>sg_createdAtMs := t\<rparr>))"
    using assms(2-4) cookiePrefix_key by (metis sets_created)
qed

lemma jar_set_by_step:
  assumes "jar_set_by calls st" "plain_space call"
  shows "jar_set_by (insert call calls) (gateway_step st call)"
proof -
  have st: "jar_set_by (insert call calls) st" using assms(1) unfolding jar_set_by_def jar_all_def by blast
  have live: "jar_set_by (insert call calls) s \<Longrightarrow> jar_set_by (insert call calls) (snd (liveCookies ge sp s))" for s ge sp
    unfolding jar_set_by_def by (rule jar_all_live)
  show ?thesis
  proof (cases call)
    case (FetchCall ge request)
    show ?thesis unfolding FetchCall
    proof (rule handleFetch_keeps[OF st[unfolded FetchCall] live[unfolded FetchCall]])
      fix s sp target tls parsed c rm
      assume d: "decodeTarget ge request = Decoded sp target tls" "offered_cookie ge target tls parsed = Some c"
        "jar_set_by (insert (FetchCall ge request) calls) s"
      have h: "header_of (rq_headers request) GATEWAY_SPACE_HEADER = Some sp" using decodeTarget_decoded[OF d(1)] by simp
      then have "CHR '':'' \<notin> set sp" using assms(2) by (simp add: plain_space_def call_space_def FetchCall)
      moreover have "sets_cookie sp c (FetchCall ge request)"
        using d(1) offered_belongs[OF d(2)] h by (simp add: sets_cookie_def call_space_def)
      ultimately show "jar_set_by (insert (FetchCall ge request) calls) (storeOrDelete ge sp c rm s)"
        using jar_set_by_store[OF d(3)] by blast
    qed
  next
    case (CookieCall ge request)
    show ?thesis unfolding CookieCall
    proof (rule handleCookies_keeps[OF st[unfolded CookieCall] live[unfolded CookieCall]])
      fix s sp m rm
      assume d: "header_of (rq_headers request) GATEWAY_SPACE_HEADER = Some sp" "rq_method request = ''PUT''"
        "jar_set_by (insert (CookieCall ge request) calls) s"
      then show "jar_set_by (insert (CookieCall ge request) calls) (storeOrDelete ge sp (written_cookie ge m) rm s)"
        using jar_set_by_store[OF d(3), of sp "written_cookie ge m" "CookieCall ge request"] assms(2)
        by (simp add: plain_space_def call_space_def CookieCall sets_cookie_def)
    qed
  qed
qed

lemma jar_set_by_run:
  "list_all plain_space calls \<Longrightarrow> jar_set_by done st \<Longrightarrow> jar_set_by (done \<union> set calls) (foldl gateway_step st calls)"
proof (induction calls arbitrary: "done" st)
  case (Cons call calls)
  then have "jar_set_by (insert call done) (gateway_step st call)" using jar_set_by_step by simp
  then show ?case using Cons by fastforce
qed simp

lemma jar_empty [simp]: "jar_all P []"
  by (simp add: jar_all_def st_get_def)

text \<open>The cookie header of a fetch lists cookies of the jar that may be sent.\<close>

lemma handleFetch_cookie:
  assumes "handleFetch ge request st = (r, st', Some up)" "decodeTarget ge request = Decoded sp target tls"
    "(''cookie'', v) \<in> set (up_headers up)"
  shows "v = cookie_pairs (fst (matchingCookies ge sp target tls request st)) \<and> up_target up = target"
proof -
  have l: "js_lower ''cookie'' = ''cookie''" by code_simp
  have n: "(''cookie'', v) \<notin> set (upstream_headers request)"
    using l by (auto simp: upstream_headers_def Let_def dest!: js_set_mem split: option.splits)
  show ?thesis
    using assms n
    by (auto simp: handleFetch_def Let_def split_beta dest!: js_set_mem split: sum.splits js_error.splits if_splits)
qed

section \<open>Properties\<close>



text \<open>
  However many responses set cookies and however many a device puts, a space holds at most 3000,
  each within 4096 bytes and true to the rules of the __Secure- and __Host- prefixes.
\<close>

theorem jar_stays_bounded:
  assumes "list_all plain_space calls" "CHR '':'' \<notin> set sp"
  shows "int (length (st_list (foldl gateway_step [] calls) (cookiePrefix sp))) \<le> MAX_COOKIES_PER_SPACE \<and>
    (\<nexists>k c. st_get (foldl gateway_step [] calls) k = Some (GCookie c) \<and>
       \<not> (validCookiePrefix c \<and> encodedCookieBytes (sg_name c) (sg_value c) \<le> MAX_COOKIE_BYTES))"
proof -
  have "jar_bounded st \<Longrightarrow> jar_bounded (foldl gateway_step st calls)" for st
    using assms(1) by (induction calls arbitrary: st) (simp_all add: jar_bounded_step)
  moreover have "jar_bounded []" by (simp add: jar_bounded_def st_list_def MAX_COOKIES_PER_SPACE_def)
  ultimately have "jar_bounded (foldl gateway_step [] calls)" by simp
  then show ?thesis using assms(2) by (auto simp: jar_bounded_def jar_all_def lawful_cookie_def)
qed

text \<open>
  The check for private IPv6 addresses reads host names: every public name that begins like a
  unique local address, fcc.gov or fda.gov among them, is refused as a private target.
\<close>

theorem fc_hosts_refused:
  assumes "decodeTarget (ge\<lparr>ge_allowPrivate := True\<rparr>) request = Decoded sp target tls" "\<not> ge_allowPrivate ge"
    "canonicalHostname (gu_hostname target) = p @ rest" "p = ''fc'' \<or> p = ''fd''" "\<not> suffix '']'' (p @ rest)"
  shows "handleFetch ge request st = (json_response (JError ''private_target_forbidden'') 403, st, None)"
proof -
  have e: "header_url (ge\<lparr>ge_allowPrivate := True\<rparr>) = header_url ge"
    by (simp add: header_url_def decodeGatewayHeaderValue_def fun_eq_iff Let_def split: sum.split)
  have "isPrivateTarget target"
    using assms(3-5) by (auto simp: isPrivateTarget_def Let_def strip_brackets_def)
  moreover have f: "\<exists>t. header_of (rq_headers request) GATEWAY_SPACE_HEADER = Some sp \<and> sp \<noteq> [] \<and>
      header_of (rq_headers request) GATEWAY_TARGET_HEADER = Some t \<and> header_url ge t = Some target \<and>
      (gu_protocol target = ''http:'' \<or> gu_protocol target = ''https:'') \<and> gu_username target = [] \<and> gu_password target = []"
    using assms(1) by (auto simp: decodeTarget_def e split: option.splits if_splits)
  ultimately have "decodeTarget ge request = Refused ''private_target_forbidden'' 403"
    using f assms(2) by (elim exE conjE disjE) (simp_all add: decodeTarget_def)
  then show ?thesis by (simp add: handleFetch_def)
qed

section \<open>Witnesses\<close>

definition example_url :: "string \<Rightarrow> gateway_url" where
  "example_url host = \<lparr>gu_protocol = ''https:'', gu_hostname = host, gu_pathname = ''/'', gu_username = [],
     gu_password = [], gu_origin = ''https://'' @ host\<rparr>"

definition example_gateway :: "string \<Rightarrow> gateway_env" where
  "example_gateway host =
     \<lparr>ge_now = 7, ge_allowPrivate = False, ge_url = (\<lambda>_. Some (example_url host)), ge_text = (\<lambda>_. []),
      ge_domain = Some,
      ge_setCookie = (\<lambda>_. Some \<lparr>sc_name = ''n'', sc_value = Some ''v'', sc_domain = None, sc_path = None, sc_secure = True,
        sc_httpOnly = True, sc_sameSite = Some SiteLax, sc_partitioned = False, sc_expires = None, sc_maxAge = Some 60\<rparr>),
      ge_hash = (\<lambda>(n, d, p, k). n), ge_utc = (\<lambda>_. []), ge_json = (\<lambda>_. Inr JNull), ge_millis = (\<lambda>_. None),
      ge_fetch = (\<lambda>_. Inr \<lparr>rs_status = 200, rs_headers = [(''set-cookie'', ''n=v'')], rs_body = Passed []\<rparr>)\<rparr>"

definition example_request :: gateway_request where
  "example_request = \<lparr>rq_method = ''GET'', rq_headers = [(GATEWAY_SPACE_HEADER, ''s''), (GATEWAY_TARGET_HEADER, ''AA''),
     (''accept'', ''x'')], rq_body = []\<rparr>"

definition example_cookie :: StoredGatewayCookie where
  "example_cookie = \<lparr>sg_name = ''n'', sg_value = ''v'', sg_domain = ''a.test'', sg_hostOnly = True, sg_path = ''/'',
     sg_secure = True, sg_httpOnly = True, sg_session = False, sg_sameSite = SameSiteLax, sg_partitionKey = None,
     sg_createdAtMs = 7, sg_expiresAtMs = Some 60007\<rparr>"

definition example_jar :: jar_store where
  "example_jar = [(''gateway-initialized:s'', GTrue), (''gateway-cookie:s:n'', GCookie example_cookie)]"

lemma example_parts:
  "decodeTarget (example_gateway ''a.test'') example_request = Decoded ''s'' (example_url ''a.test'') None"
  "attaches_cookies (example_gateway ''a.test'') example_request (example_url ''a.test'')"
  "matchingCookies (example_gateway ''a.test'') ''s'' (example_url ''a.test'') None example_request [] = ([], [])"
  "matchingCookies (example_gateway ''a.test'') ''s'' (example_url ''a.test'') None example_request example_jar =
     ([example_cookie], example_jar)"
  "acceptSetCookie (example_gateway ''a.test'') ''s'' (example_url ''a.test'') None [] ''n=v'' = example_jar"
  "acceptSetCookie (example_gateway ''a.test'') ''s'' (example_url ''a.test'') None example_jar ''n=v'' = example_jar"
  "upstream_headers example_request = [(''accept'', ''x'')]"
  "cookie_pairs [] = []" "cookie_pairs [example_cookie] = ''n=v''"
  by code_simp+

lemma example_answer [simp]:
  "ge_fetch (example_gateway h) up = Inr \<lparr>rs_status = 200, rs_headers = [(''set-cookie'', ''n=v'')], rs_body = Passed []\<rparr>"
  by (simp add: example_gateway_def)

lemmas example_evaluated = example_parts handleFetch_def Let_def set_cookies_def

lemma example_jar_run: "foldl gateway_step [] [FetchCall (example_gateway ''a.test'') example_request] = example_jar"
  by (simp add: example_evaluated)

lemma example_upstream:
  "map_option up_headers (snd (snd (handleFetch (example_gateway ''a.test'') example_request example_jar))) =
     Some [(''accept'', ''x''), (''cookie'', ''n=v'')]"
  "map_option up_target (snd (snd (handleFetch (example_gateway ''a.test'') example_request example_jar))) =
     Some (example_url ''a.test'')"
  by (simp_all add: example_evaluated)

lemma example_plain: "plain_space (FetchCall (example_gateway ''a.test'') example_request)"
  "call_space (FetchCall (example_gateway ''a.test'') example_request) = Some ''s''"
  by code_simp+

lemma example_fetch:
  "\<exists>r st' up. handleFetch (example_gateway ''a.test'') example_request example_jar = (r, st', Some up) \<and>
     up_headers up = [(''accept'', ''x''), (''cookie'', ''n=v'')] \<and> up_target up = example_url ''a.test''"
  using example_upstream
  by (cases "handleFetch (example_gateway ''a.test'') example_request example_jar") auto



lemma jar_stays_bounded_witness:
  "int (length (st_list example_jar (cookiePrefix ''s''))) \<le> MAX_COOKIES_PER_SPACE"
  using jar_stays_bounded[of "[FetchCall (example_gateway ''a.test'') example_request]" "''s''", unfolded example_jar_run]
    example_plain(1) by simp

lemma fc_hosts_refused_witness:
  "handleFetch (example_gateway ''fcc.gov'') example_request [] =
     (json_response (JError ''private_target_forbidden'') 403, [], None)"
proof (rule fc_hosts_refused[where p = "''fc''" and rest = "''c.gov''"])
  show "decodeTarget ((example_gateway ''fcc.gov'')\<lparr>ge_allowPrivate := True\<rparr>) example_request =
      Decoded ''s'' (example_url ''fcc.gov'') None" by code_simp
  show "canonicalHostname (gu_hostname (example_url ''fcc.gov'')) = ''fc'' @ ''c.gov''" by code_simp
qed (simp_all add: example_gateway_def suffix_def)

end
