(* ===== verification/SessionEdge.thy ===== *)
theory SessionEdge
  imports HubSafety GatewaySafety
begin

text \<open>
  The session plane from the outside (services/sessionhub/src/index.ts, session-hub.ts and http.ts):
  the edge authenticates a request and forwards it to the durable object of its user, which serves it
  from its hub, its gateway and its sockets.  What \<open>request.json()\<close> gives is part of a request, and
  the id of a new connection is an argument.  The hub and the gateway write the object's storage
  under disjoint keys, so each has a map of its own.  A socket the object has closed delivers nothing
  more.
\<close>

section \<open>Requests, responses, state\<close>

definition GATEWAY_FETCH_PATH :: string where "GATEWAY_FETCH_PATH = ''/v1/gateway/fetch''"

definition GATEWAY_COOKIES_PATH :: string where "GATEWAY_COOKIES_PATH = ''/v1/gateway/cookies''"

definition DEVICE_HEADER :: string where "DEVICE_HEADER = ''x-suma-device''"

record edge_request =
  er_path :: string
  er_accessToken :: "string option"
  er_request :: gateway_request
  er_json :: "json js_result"

datatype edge_response =
    Http gateway_response
  | Hydrated "CookieRecordWire list" nat "hlc option"
  | Revoked nat
  | Upgraded string

record 'k edge_env =
  ee_tokens :: "'k token_crypto"
  ee_controlKey :: "string option"
  ee_adminToken :: "string option"
  ee_devAllowPrivate :: "string option"
  ee_nowSeconds :: nat
  ee_nowMs :: nat
  ee_gateway :: gateway_env
  ee_frame :: "string \<Rightarrow> json option"

text \<open>A socket and the attachment that survives hibernation.\<close>

record socket =
  sk_connectionId :: string
  sk_deviceId :: "string option"
  sk_open :: bool

record durable =
  do_hub :: hub
  do_jar :: jar_store
  do_sockets :: "socket list"

definition new_durable :: durable where
  "new_durable = \<lparr>do_hub = new_hub, do_jar = [], do_sockets = []\<rparr>"

definition SocketConnection :: "socket \<Rightarrow> HubConnection" where
  "SocketConnection s = \<lparr>cn_deviceId = sk_deviceId s, cn_connectionId = sk_connectionId s, cn_spaceIds = []\<rparr>"

definition peersOf :: "string \<Rightarrow> socket list \<Rightarrow> HubConnection list" where
  "peersOf i ss = map SocketConnection (filter (\<lambda>s. sk_connectionId s \<noteq> i) ss)"

definition hydrateRequestSchema :: "json \<Rightarrow> (string \<times> hlc option) option" where
  "hydrateRequestSchema j = do {
     s \<leftarrow> z_field ''spaceId'' z_string_min1 j;
     h \<leftarrow> z_field ''sinceHlc'' (z_nullable hlcSchema) j;
     Some (s, h)
   }"

definition revokeRequestSchema :: "json \<Rightarrow> (string \<times> string) option" where
  "revokeRequestSchema j = do {
     u \<leftarrow> z_field ''userId'' z_string_min1 j;
     d \<leftarrow> z_field ''deviceId'' z_string_min1 j;
     Some (u, d)
   }"

definition error_response :: "string \<Rightarrow> nat \<Rightarrow> edge_response" where
  "error_response e status = Http (json_response (JError e) status)"

section \<open>The durable object\<close>

text \<open>The sockets after what the hub has sent since: those it closed deliver no more.\<close>

definition closed_by :: "hub_out list \<Rightarrow> string \<Rightarrow> bool" where
  "closed_by os i \<longleftrightarrow> list_ex (\<lambda>e. case e of HClose j _ _ \<Rightarrow> i = j | HSend _ _ \<Rightarrow> False) os"

definition close_sockets :: "hub_out list \<Rightarrow> socket list \<Rightarrow> socket list" where
  "close_sockets os ss = map (\<lambda>s. if closed_by os (sk_connectionId s) then s\<lparr>sk_open := False\<rparr> else s) ss"

definition edge_device_revoked :: "edge_request \<Rightarrow> durable \<Rightarrow> bool" where
  "edge_device_revoked req d \<longleftrightarrow>
     (case header_of (rq_headers (er_request req)) DEVICE_HEADER of
        None \<Rightarrow> False | Some dev \<Rightarrow> isRevoked dev (hb_store (do_hub d)))"

definition gateway_of :: "'k edge_env \<Rightarrow> gateway_env" where
  "gateway_of env = (ee_gateway env)\<lparr>ge_allowPrivate := (ee_devAllowPrivate env = Some ''1'')\<rparr>"

definition do_gateway ::
  "'k edge_env \<Rightarrow> edge_request \<Rightarrow> durable \<Rightarrow> edge_response \<times> durable \<times> upstream_request option" where
  "do_gateway env req d =
     (if edge_device_revoked req d then (error_response ''revoked'' 403, d, None)
      else if er_path req = GATEWAY_FETCH_PATH then
        (let (r, st, up) = handleFetch (gateway_of env) (er_request req) (do_jar d)
         in (Http r, d\<lparr>do_jar := st\<rparr>, up))
      else
        (let (r, st) = handleCookies (gateway_of env) (er_request req) (do_jar d)
         in (Http r, d\<lparr>do_jar := st\<rparr>, None)))"

definition do_upgrade :: "string \<Rightarrow> edge_request \<Rightarrow> durable \<Rightarrow> edge_response \<times> durable" where
  "do_upgrade newId req d =
     (if map_option js_lower (header_of (rq_headers (er_request req)) ''upgrade'') \<noteq> Some ''websocket''
      then (error_response ''upgrade_required'' 426, d)
      else if edge_device_revoked req d then
        (Upgraded newId,
         d\<lparr>do_sockets := do_sockets d @ [\<lparr>sk_connectionId = newId, sk_deviceId = None, sk_open = False\<rparr>],
           do_hub := hub_emit [HClose newId CLOSE_REVOKED ''revoked''] (do_hub d)\<rparr>)
      else
        (Upgraded newId,
         d\<lparr>do_sockets := do_sockets d @
             [\<lparr>sk_connectionId = newId, sk_deviceId = header_of (rq_headers (er_request req)) DEVICE_HEADER,
               sk_open = True\<rparr>]\<rparr>))"

definition do_hydrate :: "edge_request \<Rightarrow> durable \<Rightarrow> edge_response" where
  "do_hydrate req d =
     (if edge_device_revoked req d then error_response ''revoked'' 403
      else
        (case er_json req of
           Inl _ \<Rightarrow> error_response ''malformed'' 400
         | Inr body \<Rightarrow>
             (case hydrateRequestSchema body of
                None \<Rightarrow> error_response ''malformed'' 400
              | Some (spaceId, since) \<Rightarrow>
                  (let (rs, wm) = hydrateSpace spaceId since (hb_store (do_hub d))
                   in Hydrated rs (length rs) wm))))"

definition do_revoke :: "nat \<Rightarrow> edge_request \<Rightarrow> durable \<Rightarrow> edge_response \<times> durable" where
  "do_revoke now req d =
     (case er_json req of
        Inl _ \<Rightarrow> (error_response ''malformed'' 400, d)
      | Inr body \<Rightarrow>
          (case revokeRequestSchema body of
             None \<Rightarrow> (error_response ''malformed'' 400, d)
           | Some (_, dev) \<Rightarrow>
               (let (toClose, h) = revokeDevice now dev (map SocketConnection (do_sockets d)) (do_hub d);
                    closes = map (\<lambda>c. HClose (cn_connectionId c) CLOSE_REVOKED ''revoked'') toClose
                in (Revoked (length toClose),
                    d\<lparr>do_hub := hub_emit closes h, do_sockets := close_sockets closes (do_sockets d)\<rparr>))))"

definition do_fetch ::
  "'k edge_env \<Rightarrow> string \<Rightarrow> edge_request \<Rightarrow> durable \<Rightarrow> edge_response \<times> durable \<times> upstream_request option" where
  "do_fetch env newId req d =
     (if er_path req = GATEWAY_FETCH_PATH \<or> er_path req = GATEWAY_COOKIES_PATH then do_gateway env req d
      else if er_path req = ''/v1/hub/ws'' then (let (r, d') = do_upgrade newId req d in (r, d', None))
      else if er_path req = ''/v1/hub/hydrate'' \<and> rq_method (er_request req) = ''POST'' then (do_hydrate req d, d, None)
      else if er_path req = ''/v1/admin/revoke'' \<and> rq_method (er_request req) = ''POST''
      then (let (r, d') = do_revoke (ee_nowMs env) req d in (r, d', None))
      else (error_response ''not_found'' 404, d, None))"

text \<open>A frame on a socket: \<open>None\<close> is a binary one.\<close>

definition webSocketMessage :: "'k edge_env \<Rightarrow> string \<Rightarrow> string option \<Rightarrow> durable \<Rightarrow> durable" where
  "webSocketMessage env i message d =
     (case find (\<lambda>s. sk_connectionId s = i \<and> sk_open s) (do_sockets d) of
        None \<Rightarrow> d
      | Some s \<Rightarrow>
          (case message of
             None \<Rightarrow>
               d\<lparr>do_hub := hub_emit [HSend i (ErrorMsg ''malformed'' ''binary frames unsupported'')] (do_hub d)\<rparr>
           | Some raw \<Rightarrow>
               (let (sender, h) = handleMessage (ee_nowMs env) (SocketConnection s)
                      (parseClientMessage (ee_frame env) raw) (peersOf i (do_sockets d)) (do_hub d);
                    persisted = map (\<lambda>s. if sk_connectionId s = i then s\<lparr>sk_deviceId := cn_deviceId sender\<rparr> else s)
                      (do_sockets d)
                in d\<lparr>do_hub := h,
                     do_sockets := close_sockets (drop (length (hb_out (do_hub d))) (hb_out h)) persisted\<rparr>)))"

definition webSocketClose :: "'k edge_env \<Rightarrow> string \<Rightarrow> durable \<Rightarrow> durable" where
  "webSocketClose env i d =
     (case find (\<lambda>s. sk_connectionId s = i) (do_sockets d) of
        None \<Rightarrow> d
      | Some s \<Rightarrow>
          d\<lparr>do_hub := handleClose (ee_nowMs env) (SocketConnection s) (peersOf i (do_sockets d)) (do_hub d),
            do_sockets := filter (\<lambda>s. sk_connectionId s \<noteq> i) (do_sockets d)\<rparr>)"

section \<open>The edge\<close>

text \<open>The durable objects, one per user; one never called is new.\<close>

type_synonym plane = "(string, durable) js_map"

definition durable_of :: "plane \<Rightarrow> string \<Rightarrow> durable" where
  "durable_of p user = (case js_get p user of None \<Rightarrow> new_durable | Some d \<Rightarrow> d)"

definition authenticated_route :: "string \<Rightarrow> bool" where
  "authenticated_route path \<longleftrightarrow>
     path = ''/v1/hub/ws'' \<or> path = ''/v1/hub/hydrate'' \<or> path = GATEWAY_FETCH_PATH \<or> path = GATEWAY_COOKIES_PATH"

definition presented :: "edge_request \<Rightarrow> string option" where
  "presented req =
     (case header_of (rq_headers (er_request req)) ''authorization'' of
        Some a \<Rightarrow> Some a
      | None \<Rightarrow> map_option (\<lambda>t. ''Bearer '' @ t) (er_accessToken req))"

definition method_refused :: "edge_request \<Rightarrow> bool" where
  "method_refused req \<longleftrightarrow>
     (let m = rq_method (er_request req)
      in (er_path req = ''/v1/hub/ws'' \<and> m \<noteq> ''GET'') \<or> (er_path req = ''/v1/hub/hydrate'' \<and> m \<noteq> ''POST'') \<or>
         (er_path req = GATEWAY_COOKIES_PATH \<and> m \<noteq> ''GET'' \<and> m \<noteq> ''PUT''))"

text \<open>The request as the durable object gets it.\<close>

definition forwarded :: "string option \<Rightarrow> edge_request \<Rightarrow> edge_request" where
  "forwarded dev req =
     (let hs = js_del (js_del (rq_headers (er_request req)) ''authorization'') DEVICE_HEADER;
          hs' = (case dev of None \<Rightarrow> hs | Some d \<Rightarrow> js_set hs DEVICE_HEADER d)
      in req\<lparr>er_accessToken := None, er_request := (er_request req)\<lparr>rq_headers := hs'\<rparr>\<rparr>)"

definition to_durable ::
  "'k edge_env \<Rightarrow> string \<Rightarrow> string \<Rightarrow> edge_request \<Rightarrow> plane \<Rightarrow> edge_response \<times> plane \<times> upstream_request option" where
  "to_durable env newId user req p =
     (let (r, d, up) = do_fetch env newId req (durable_of p user) in (r, js_set p user d, up))"

definition revoke_request :: "string \<Rightarrow> string \<Rightarrow> edge_request \<Rightarrow> edge_request" where
  "revoke_request user dev req =
     \<lparr>er_path = er_path req, er_accessToken = er_accessToken req,
      er_request = \<lparr>rq_method = ''POST'', rq_headers = [(''content-type'', ''application/json'')], rq_body = ''''\<rparr>,
      er_json = Inr (JObj [(''userId'', JStr user), (''deviceId'', JStr dev)])\<rparr>"

definition worker_fetch ::
  "'k edge_env \<Rightarrow> string \<Rightarrow> edge_request \<Rightarrow> plane \<Rightarrow> edge_response \<times> plane \<times> upstream_request option" where
  "worker_fetch env newId req p =
     (if er_path req = ''/healthz'' then (Http (json_response JOk 200), p, None)
      else if authenticated_route (er_path req) then
        (case authenticate (ee_tokens env) (presented req) (ee_controlKey env) (ee_nowSeconds env) of
           AuthError _ \<Rightarrow> (error_response ''unauthorized'' 401, p, None)
         | AuthOk user dev \<Rightarrow>
             if method_refused req then (error_response ''method_not_allowed'' 405, p, None)
             else to_durable env newId user (forwarded dev req) p)
      else if er_path req = ''/v1/admin/revoke'' then
        (if rq_method (er_request req) \<noteq> ''POST'' then (error_response ''method_not_allowed'' 405, p, None)
         else
           (case (ee_adminToken env, bearerToken (header_of (rq_headers (er_request req)) ''authorization'')) of
              (Some admin, Some token) \<Rightarrow>
                if admin = '''' \<or> \<not> bytesEqual (utf8 token) (utf8 admin)
                then (error_response ''unauthorized'' 401, p, None)
                else
                  (case er_json req of
                     Inl _ \<Rightarrow> (error_response ''malformed'' 400, p, None)
                   | Inr body \<Rightarrow>
                       (case revokeRequestSchema body of
                          None \<Rightarrow> (error_response ''malformed'' 400, p, None)
                        | Some (user, dev) \<Rightarrow> to_durable env newId user (revoke_request user dev req) p))
            | _ \<Rightarrow> (error_response ''unauthorized'' 401, p, None)))
      else (error_response ''not_found'' 404, p, None))"

end
