(* ===== verification/EdgeSafety.thy ===== *)
theory EdgeSafety
  imports SessionEdge
begin

text \<open>
  The session plane as a whole: nothing reaches a durable object without a credential of its user,
  and a device revoked once is served nothing more, on any route and on any socket.
\<close>

section \<open>Runs of the plane\<close>

text \<open>A request at the edge, or a frame or a close on a socket of a user's durable object.\<close>

datatype 'k plane_event =
    Fetched "'k edge_env" string edge_request
  | Framed "'k edge_env" string string "string option"
  | Hung "'k edge_env" string string

fun plane_step :: "plane \<Rightarrow> 'k plane_event \<Rightarrow> plane" where
  "plane_step p (Fetched env newId req) = fst (snd (worker_fetch env newId req p))"
| "plane_step p (Framed env user i message) = js_set p user (webSocketMessage env i message (durable_of p user))"
| "plane_step p (Hung env user i) = js_set p user (webSocketClose env i (durable_of p user))"

lemma durable_of_set [simp]: "durable_of (js_set p u d) v = (if v = u then d else durable_of p v)"
  by (simp add: durable_of_def)

lemma forwarded_device [simp]:
  "header_of (rq_headers (er_request (forwarded dev req))) DEVICE_HEADER = dev"
  "er_path (forwarded dev req) = er_path req" "rq_method (er_request (forwarded dev req)) = rq_method (er_request req)"
  by (simp_all add: forwarded_def header_of_def Let_def split: option.split)

lemma to_durable_simps:
  "fst (to_durable env i u req p) = fst (do_fetch env i req (durable_of p u))"
  "snd (snd (to_durable env i u req p)) = snd (snd (do_fetch env i req (durable_of p u)))"
  "fst (snd (to_durable env i u req p)) = js_set p u (fst (snd (do_fetch env i req (durable_of p u))))"
  by (simp_all add: to_durable_def split_beta)

text \<open>What the edge does with a request: answer it, forward it as its user, or pass on a revocation.\<close>

lemma worker_fetch_cases:
  obtains (answered) r where "worker_fetch env i req p = (r, p, None)" "\<And>n. r \<noteq> Revoked n"
  | (routed) user dev where "authenticated_route (er_path req)"
      "authenticate (ee_tokens env) (presented req) (ee_controlKey env) (ee_nowSeconds env) = AuthOk user dev"
      "worker_fetch env i req p = to_durable env i user (forwarded dev req) p"
  | (admin) admin token body user dev where "er_path req = ''/v1/admin/revoke''" "ee_adminToken env = Some admin"
      "admin \<noteq> ''''" "bearerToken (header_of (rq_headers (er_request req)) ''authorization'') = Some token"
      "bytesEqual (utf8 token) (utf8 admin)" "er_json req = Inr body" "revokeRequestSchema body = Some (user, dev)"
      "worker_fetch env i req p = to_durable env i user (revoke_request user dev req) p"
proof (cases "authenticated_route (er_path req)")
  case True
  then have h: "er_path req \<noteq> ''/healthz''"
    by (auto simp: authenticated_route_def GATEWAY_FETCH_PATH_def GATEWAY_COOKIES_PATH_def)
  show ?thesis
  proof (cases "authenticate (ee_tokens env) (presented req) (ee_controlKey env) (ee_nowSeconds env)")
    case (AuthOk user dev)
    then show ?thesis
      using True h answered routed[OF True AuthOk]
      by (cases "method_refused req") (simp_all add: worker_fetch_def error_response_def)
  next
    case (AuthError e)
    then show ?thesis using True h answered by (simp add: worker_fetch_def error_response_def)
  qed
next
  case False
  show ?thesis
  proof (cases "\<exists>admin token body user dev. er_path req = ''/v1/admin/revoke'' \<and> rq_method (er_request req) = ''POST'' \<and>
      ee_adminToken env = Some admin \<and> admin \<noteq> '''' \<and>
      bearerToken (header_of (rq_headers (er_request req)) ''authorization'') = Some token \<and>
      bytesEqual (utf8 token) (utf8 admin) \<and> er_json req = Inr body \<and> revokeRequestSchema body = Some (user, dev)")
    case True
    then obtain a t b u d where g: "er_path req = ''/v1/admin/revoke''" "rq_method (er_request req) = ''POST''"
      "ee_adminToken env = Some a" "a \<noteq> ''''"
      "bearerToken (header_of (rq_headers (er_request req)) ''authorization'') = Some t"
      "bytesEqual (utf8 t) (utf8 a)" "er_json req = Inr b" "revokeRequestSchema b = Some (u, d)" by blast
    then have "worker_fetch env i req p = to_durable env i u (revoke_request u d req) p"
      using False by (simp add: worker_fetch_def)
    then show ?thesis using admin g by blast
  next
    case no: False
    then have "\<exists>r. worker_fetch env i req p = (r, p, None) \<and> (\<forall>n. r \<noteq> Revoked n)"
      using False unfolding worker_fetch_def error_response_def
      by (auto split: option.split sum.split prod.split)
    then show ?thesis using answered by blast
  qed
qed

section \<open>A device locked out\<close>

definition locked :: "string \<Rightarrow> durable \<Rightarrow> bool" where
  "locked dev d \<longleftrightarrow> shut_out dev (do_hub d) \<and> list_all (\<lambda>s. sk_open s \<longrightarrow> sk_deviceId s \<noteq> Some dev) (do_sockets d)"

lemma shut_out_emit [simp]: "shut_out dev (hub_emit os h) = shut_out dev h"
  by (simp add: shut_out_def)

lemma close_sockets_closed:
  "s \<in> set (close_sockets os ss) \<Longrightarrow> sk_open s \<Longrightarrow> s \<in> set ss \<and> \<not> closed_by os (sk_connectionId s)"
  by (auto simp: close_sockets_def split: if_splits)

lemma sender_device:
  assumes "handleMessage now c frame others h = (c', h')"
  shows "cn_deviceId c' = cn_deviceId c \<or> (\<exists>d. cn_deviceId c' = Some d \<and> \<not> isRevoked d (hb_store h))"
  using assms
  by (auto simp: handleMessage_def handleHello_def Let_def split: option.splits ClientMessage.splits if_splits)

lemma webSocketMessage_locked:
  assumes "locked dev d"
  shows "locked dev (webSocketMessage env i message d)"
proof (cases "find (\<lambda>s. sk_connectionId s = i \<and> sk_open s) (do_sockets d)")
  case None
  then show ?thesis using assms by (simp add: webSocketMessage_def)
next
  case (Some s)
  then have s: "s \<in> set (do_sockets d)" "sk_open s" by (auto simp: find_Some_iff)
  show ?thesis
  proof (cases message)
    case None
    then show ?thesis using assms Some by (simp add: webSocketMessage_def locked_def)
  next
    case raw: (Some raw)
    obtain c h where m: "handleMessage (ee_nowMs env) (SocketConnection s) (parseClientMessage (ee_frame env) raw)
        (peersOf i (do_sockets d)) (do_hub d) = (c, h)" by fastforce
    have "shut_out dev (do_hub d)" using assms by (simp add: locked_def)
    then have h: "shut_out dev h"
      using handleMessage_shut_out[of dev "do_hub d" "ee_nowMs env" "SocketConnection s"
          "parseClientMessage (ee_frame env) raw" "peersOf i (do_sockets d)"] m by simp
    have "cn_deviceId c \<noteq> Some dev"
      using sender_device[OF m] assms s by (auto simp: locked_def shut_out_def SocketConnection_def list_all_iff)
    then show ?thesis
      using assms h Some raw m
      by (auto simp: webSocketMessage_def locked_def list_all_iff dest!: close_sockets_closed split: if_splits)
  qed
qed

lemma webSocketClose_locked:
  assumes "locked dev d"
  shows "locked dev (webSocketClose env i d)"
proof (cases "find (\<lambda>s. sk_connectionId s = i) (do_sockets d)")
  case (Some s)
  have "shut_out dev (handleClose (ee_nowMs env) c others (do_hub d))" for c others
    using assms revocation.keep[of dev "do_hub d" "HClosed (ee_nowMs env) c others"] by (simp add: locked_def)
  then show ?thesis using assms Some by (simp add: webSocketClose_def locked_def list_all_iff)
qed (use assms in \<open>simp add: webSocketClose_def\<close>)

lemma do_revoke_locks:
  assumes "js_wf (hb_store (do_hub d))" "er_json req = Inr body" "revokeRequestSchema body = Some (u, dev)"
  shows "locked dev (snd (do_revoke now req d))"
proof -
  note r = revokeDevice_store[OF assms(1), where now = now and d = dev and cs = "map SocketConnection (do_sockets d)"]
  have "shut_out dev (snd (revokeDevice now dev (map SocketConnection (do_sockets d)) (do_hub d)))"
    using r(1,3,4) by (simp add: shut_out_def)
  moreover have "sk_deviceId s \<noteq> Some dev"
    if "s \<in> set (do_sockets d)"
      "\<not> closed_by (map (\<lambda>c. HClose (cn_connectionId c) CLOSE_REVOKED ''revoked'')
          (fst (revokeDevice now dev (map SocketConnection (do_sockets d)) (do_hub d)))) (sk_connectionId s)" for s
    using that by (auto simp: closed_by_def revokeDevice_def Let_def list_ex_iff SocketConnection_def)
  ultimately show ?thesis
    using assms by (auto simp: do_revoke_def split_beta Let_def locked_def list_all_iff dest!: close_sockets_closed)
qed

lemma do_revoke_locked:
  assumes "locked dev d"
  shows "locked dev (snd (do_revoke now req d))"
proof -
  have "shut_out dev (snd (revokeDevice now x cs (do_hub d)))" for x cs
    using assms revocation.keep[of dev "do_hub d" "HRevoke now x cs"] by (simp add: locked_def)
  then show ?thesis
    using assms
    by (auto simp: do_revoke_def split_beta Let_def locked_def list_all_iff dest!: close_sockets_closed
        split: sum.split option.split)
qed

lemma do_upgrade_locked: "locked dev d \<Longrightarrow> locked dev (snd (do_upgrade i req d))"
  by (auto simp: do_upgrade_def locked_def edge_device_revoked_def shut_out_def split: option.splits)

lemma do_gateway_frame:
  "do_hub (fst (snd (do_gateway env req d))) = do_hub d" "do_sockets (fst (snd (do_gateway env req d))) = do_sockets d"
  by (simp_all add: do_gateway_def split_beta)

lemma do_fetch_locked:
  assumes "locked dev d"
  shows "locked dev (fst (snd (do_fetch env i req d)))"
proof -
  have "locked dev (fst (snd (do_gateway env req d)))" using assms by (simp add: locked_def do_gateway_frame)
  then show ?thesis
    using assms do_upgrade_locked[OF assms, of i req] do_revoke_locked[OF assms, of "ee_nowMs env" req]
    by (simp add: do_fetch_def split_beta)
qed

lemma plane_step_locked:
  assumes "locked dev (durable_of p user)"
  shows "locked dev (durable_of (plane_step p e) user)"
proof (cases e)
  case (Fetched env i req)
  show ?thesis
  proof (cases rule: worker_fetch_cases[of env i req p])
    case (answered r)
    then show ?thesis using assms Fetched by simp
  next
    case (routed u dev')
    then show ?thesis using assms Fetched do_fetch_locked[of dev "durable_of p u" env i] by (auto simp: to_durable_simps)
  next
    case (admin a t b u dev')
    then show ?thesis using assms Fetched do_fetch_locked[of dev "durable_of p u" env i] by (auto simp: to_durable_simps)
  qed
next
  case (Framed env u i message)
  then show ?thesis using assms webSocketMessage_locked[where env = env] by auto
next
  case (Hung env u i)
  then show ?thesis using assms webSocketClose_locked[where env = env] by auto
qed

interpretation lockout: kept_invariant plane_step "\<lambda>p. locked dev (durable_of p user)" for dev user
  by unfold_locales (rule plane_step_locked)

text \<open>Every storage along a run is well-formed.\<close>

definition plane_ok :: "plane \<Rightarrow> bool" where
  "plane_ok p \<longleftrightarrow> (\<forall>u. js_wf (hb_store (do_hub (durable_of p u))))"

lemma do_fetch_ok:
  assumes "js_wf (hb_store (do_hub d))"
  shows "js_wf (hb_store (do_hub (fst (snd (do_fetch env i req d)))))"
  using assms revokeDevice_store(1)[OF assms] hub_step_wf
  by (auto simp: do_fetch_def do_upgrade_def do_revoke_def do_gateway_frame split_beta Let_def split: sum.split option.split)

lemma webSocket_ok:
  assumes "js_wf (hb_store (do_hub d))"
  shows "js_wf (hb_store (do_hub (webSocketMessage env i message d)))"
    "js_wf (hb_store (do_hub (webSocketClose env i d)))"
  using assms handleMessage_store(1)[OF assms] handleClose_store[OF assms refl]
  by (auto simp: webSocketMessage_def webSocketClose_def split_beta Let_def split: option.split)

lemma plane_step_ok:
  assumes "plane_ok p"
  shows "plane_ok (plane_step p e)"
proof (cases e)
  case (Fetched env i req)
  have "js_wf (hb_store (do_hub (durable_of (plane_step p e) v)))" for v
  proof (cases rule: worker_fetch_cases[of env i req p])
    case (answered r)
    then show ?thesis using assms Fetched by (simp add: plane_ok_def)
  next
    case (routed u dev')
    then show ?thesis using assms Fetched do_fetch_ok[of "durable_of p u"] by (auto simp: to_durable_simps plane_ok_def)
  next
    case (admin a t b u dev')
    then show ?thesis using assms Fetched do_fetch_ok[of "durable_of p u"] by (auto simp: to_durable_simps plane_ok_def)
  qed
  then show ?thesis by (simp add: plane_ok_def)
next
  case (Framed env u i message)
  then show ?thesis using assms webSocket_ok[where env = env] by (auto simp: plane_ok_def)
next
  case (Hung env u i)
  then show ?thesis using assms webSocket_ok[where env = env] by (auto simp: plane_ok_def)
qed

interpretation planes: kept_invariant plane_step plane_ok
  by unfold_locales (rule plane_step_ok)

lemma plane_ok_empty [simp]: "plane_ok []"
  by (simp add: plane_ok_def durable_of_def new_durable_def)

lemma revoke_request_schema:
  "er_json (revoke_request u dev req) = Inr (JObj [(''userId'', JStr u), (''deviceId'', JStr dev)])"
  "u \<noteq> [] \<Longrightarrow> dev \<noteq> [] \<Longrightarrow>
     revokeRequestSchema (JObj [(''userId'', JStr u), (''deviceId'', JStr dev)]) = Some (u, dev)"
  by (simp_all add: revoke_request_def revokeRequestSchema_def)

lemma schema_nonempty: "revokeRequestSchema body = Some (u, dev) \<Longrightarrow> u \<noteq> [] \<and> dev \<noteq> []"
proof -
  have z: "z_field k z_string_min1 b = Some s \<Longrightarrow> s \<noteq> []" for k b s
    by (cases b) (auto elim!: z_string_min1.elims split: option.splits if_splits)
  show "revokeRequestSchema body = Some (u, dev) \<Longrightarrow> ?thesis"
    using z by (fastforce simp: revokeRequestSchema_def bind_eq_Some_conv)
qed

text \<open>An acknowledged revocation locks the device out of the durable object of its user.\<close>

lemma revocation_locks:
  assumes "plane_ok p" "worker_fetch env i req p = (Revoked n, p', up)" "er_json req = Inr body"
    "revokeRequestSchema body = Some (user, dev)"
  shows "locked dev (durable_of p' user)"
proof (cases rule: worker_fetch_cases[of env i req p])
  case (answered r)
  then show ?thesis using assms(2) by fastforce
next
  case (routed u dev')
  have "er_path req \<noteq> ''/v1/admin/revoke''"
    using routed(1) by (auto simp: authenticated_route_def GATEWAY_FETCH_PATH_def GATEWAY_COOKIES_PATH_def)
  then have "fst (do_fetch env i (forwarded dev' req) d) \<noteq> Revoked n" for d
    by (auto simp: do_fetch_def do_gateway_def do_upgrade_def do_hydrate_def error_response_def split_beta Let_def
        split: sum.splits option.splits if_splits)
  then have "fst (do_fetch env i (forwarded dev' req) (durable_of p u)) \<noteq> Revoked n" by blast
  then show ?thesis using assms(2) routed(3) to_durable_simps(1)[of env i u "forwarded dev' req" p] by simp
next
  case (admin a t b u dev')
  have e: "b = body" "u = user" "dev' = dev" using admin(6,7) assms(3,4) by auto
  let ?req = "revoke_request user dev req"
  have ne: "user \<noteq> []" "dev \<noteq> []" using schema_nonempty[OF assms(4)] by simp_all
  have "locked dev (snd (do_revoke (ee_nowMs env) ?req (durable_of p user)))"
    by (rule do_revoke_locks[OF _ revoke_request_schema(1) revoke_request_schema(2)[OF ne]])
      (use assms(1) in \<open>simp add: plane_ok_def\<close>)
  moreover have "er_path ?req = ''/v1/admin/revoke''" "rq_method (er_request ?req) = ''POST''"
    using admin(1) by (simp_all add: revoke_request_def)
  then have "do_fetch env i ?req d = (fst (do_revoke (ee_nowMs env) ?req d), snd (do_revoke (ee_nowMs env) ?req d), None)" for d
    by (simp add: do_fetch_def GATEWAY_FETCH_PATH_def GATEWAY_COOKIES_PATH_def split_beta)
  ultimately have "locked dev (durable_of (fst (snd (worker_fetch env i req p))) user)"
    unfolding admin(8) e to_durable_simps by simp
  then show ?thesis using assms(2) by simp
qed

lemma locked_fetch:
  assumes "locked dev d" "header_of (rq_headers (er_request req)) DEVICE_HEADER = Some dev" "er_path req \<noteq> ''/v1/admin/revoke''"
  shows "snd (snd (do_fetch env i req d)) = None" "do_jar (fst (snd (do_fetch env i req d))) = do_jar d"
    "hb_store (do_hub (fst (snd (do_fetch env i req d)))) = hb_store (do_hub d)"
    "fst (do_fetch env i req d) \<in> {error_response ''revoked'' 403, error_response ''upgrade_required'' 426,
       error_response ''not_found'' 404, Upgraded i}"
proof -
  have r: "edge_device_revoked req d" using assms by (simp add: edge_device_revoked_def locked_def shut_out_def)
  show "snd (snd (do_fetch env i req d)) = None" "do_jar (fst (snd (do_fetch env i req d))) = do_jar d"
    "hb_store (do_hub (fst (snd (do_fetch env i req d)))) = hb_store (do_hub d)"
    "fst (do_fetch env i req d) \<in> {error_response ''revoked'' 403, error_response ''upgrade_required'' 426,
       error_response ''not_found'' 404, Upgraded i}"
    using r assms(3) by (simp_all add: do_fetch_def do_gateway_def do_upgrade_def do_hydrate_def split_beta)
qed

section \<open>Properties\<close>

text \<open>
  C8. With a control-plane key configured, a request changes a durable object or reaches an origin
  only on the credential of that object's user: a signed token of the user that has not expired, or,
  for a revocation that names the user, the admin token; and a request forwarded on a token carries
  the device of the token, whatever device header it came with.
\<close>

theorem plane_requires_credentials:
  assumes "worker_fetch env newId req p = (r, p', up)" "ee_controlKey env = Some pk" "pk \<noteq> ''''"
    "durable_of p' user \<noteq> durable_of p user \<or> up \<noteq> None"
  shows "(\<exists>token key c. bearerToken (presented req) = Some token \<and> controlVerifyKey (ee_tokens env) pk = Inr key \<and>
      token_checked (ee_tokens env) key token (ee_nowSeconds env) 30 c \<and>
      (durable_of p' user = durable_of p user \<or> user = dc_sub c) \<and>
      (r, up) = (fst (do_fetch env newId (forwarded (Some (dc_did c)) req) (durable_of p (dc_sub c))),
                 snd (snd (do_fetch env newId (forwarded (Some (dc_did c)) req) (durable_of p (dc_sub c)))))) \<or>
    (\<exists>admin token body dev. ee_adminToken env = Some admin \<and> admin \<noteq> '''' \<and>
      bearerToken (header_of (rq_headers (er_request req)) ''authorization'') = Some token \<and>
      bytesEqual (utf8 token) (utf8 admin) \<and> er_json req = Inr body \<and> revokeRequestSchema body = Some (user, dev) \<and>
      up = None)"
proof (cases rule: worker_fetch_cases[of env newId req p])
  case (answered r')
  then show ?thesis using assms by simp
next
  case (routed u dev)
  obtain token key c where t: "bearerToken (presented req) = Some token" "controlVerifyKey (ee_tokens env) pk = Inr key"
    "token_checked (ee_tokens env) key token (ee_nowSeconds env) 30 c" "u = dc_sub c" "dev = Some (dc_did c)"
    using authenticate_signed[of "ee_tokens env" "presented req" pk] routed(2) assms(2,3) by metis
  have e: "to_durable env newId (dc_sub c) (forwarded (Some (dc_did c)) req) p = (r, p', up)"
    using routed(3) assms(1) t(4,5) by simp
  then have "durable_of p' user = durable_of p user \<or> user = dc_sub c"
    using to_durable_simps(3)[of env newId "dc_sub c" "forwarded (Some (dc_did c)) req" p] by auto
  moreover have "(r, up) = (fst (do_fetch env newId (forwarded (Some (dc_did c)) req) (durable_of p (dc_sub c))),
                 snd (snd (do_fetch env newId (forwarded (Some (dc_did c)) req) (durable_of p (dc_sub c)))))"
    using e to_durable_simps(1,2)[of env newId "dc_sub c" "forwarded (Some (dc_did c)) req" p] by simp
  ultimately show ?thesis using t by blast
next
  case (admin a token body u dev)
  have n: "er_path (revoke_request u dev req) \<noteq> GATEWAY_FETCH_PATH" "er_path (revoke_request u dev req) \<noteq> GATEWAY_COOKIES_PATH"
    using admin(1) by (simp_all add: revoke_request_def GATEWAY_FETCH_PATH_def GATEWAY_COOKIES_PATH_def)
  have e: "to_durable env newId u (revoke_request u dev req) p = (r, p', up)" using admin(8) assms(1) by simp
  have up: "up = None"
    using e to_durable_simps(2)[of env newId u "revoke_request u dev req" p] n by (simp add: do_fetch_def split_beta)
  have "user = u" using e up assms(4) to_durable_simps(3)[of env newId u "revoke_request u dev req" p] by (auto split: if_splits)
  then show ?thesis using admin up by blast
qed

text \<open>
  C9. Once the revocation of a device is acknowledged, and whatever happens on the plane afterwards,
  no open socket of its user's durable object belongs to the device, and every request authenticated
  as the device is turned away: no origin is contacted, nothing stored changes, and the answer is an
  error or a socket that is already closed.
\<close>

theorem revoked_device_locked_out:
  assumes "worker_fetch env0 id0 req0 (foldl plane_step [] before) = (Revoked n, p0, up0)" "er_json req0 = Inr body"
    "revokeRequestSchema body = Some (user, dev)" "p = foldl plane_step p0 after"
    "authenticate (ee_tokens env) (presented req) (ee_controlKey env) (ee_nowSeconds env) = AuthOk user (Some dev)"
    "authenticated_route (er_path req)" "worker_fetch env newId req p = (r, p', up)"
  shows "up = None \<and> do_jar (durable_of p' user) = do_jar (durable_of p user) \<and>
    hb_store (do_hub (durable_of p' user)) = hb_store (do_hub (durable_of p user)) \<and>
    r \<in> {error_response ''revoked'' 403, error_response ''upgrade_required'' 426, error_response ''not_found'' 404,
      error_response ''method_not_allowed'' 405, Upgraded newId} \<and>
    (\<nexists>s. s \<in> set (do_sockets (durable_of p' user)) \<and> sk_open s \<and> sk_deviceId s = Some dev)"
proof -
  have "locked dev (durable_of p0 user)"
    by (rule revocation_locks[OF planes.along_run[OF plane_ok_empty] assms(1-3)])
  then have l: "locked dev (durable_of p user)" unfolding assms(4) by (rule lockout.along_run)
  then have "locked dev (durable_of (plane_step p (Fetched env newId req)) user)" by (rule lockout.keep)
  then have s: "\<nexists>s. s \<in> set (do_sockets (durable_of p' user)) \<and> sk_open s \<and> sk_deviceId s = Some dev"
    using assms(7) by (auto simp: locked_def list_all_iff)
  have h: "er_path req \<noteq> ''/healthz''" "er_path req \<noteq> ''/v1/admin/revoke''"
    using assms(6) by (auto simp: authenticated_route_def GATEWAY_FETCH_PATH_def GATEWAY_COOKIES_PATH_def)
  show ?thesis
  proof (cases "method_refused req")
    case True
    then show ?thesis using assms(5-7) h s by (auto simp: worker_fetch_def error_response_def)
  next
    case False
    then have w: "worker_fetch env newId req p = to_durable env newId user (forwarded (Some dev) req) p"
      using assms(5,6) h by (simp add: worker_fetch_def)
    note f = locked_fetch[OF l forwarded_device(1), of req env newId]
    show ?thesis
      using f h(2) s assms(7) unfolding w
      by (auto simp: to_durable_def split_beta)
  qed
qed

section \<open>Witnesses\<close>

definition example_env :: "string option \<Rightarrow> unit edge_env" where
  "example_env admin = \<lparr>ee_tokens = example_tokens, ee_controlKey = Some ''AA=='', ee_adminToken = admin,
     ee_devAllowPrivate = None, ee_nowSeconds = 601, ee_nowMs = 601000, ee_gateway = example_gateway ''a.test'',
     ee_frame = (\<lambda>_. None)\<rparr>"

definition example_bearer :: string where
  "example_bearer = ''Bearer '' @ signDeviceToken rev ''x''"

definition socket_request :: edge_request where
  "socket_request = \<lparr>er_path = ''/v1/hub/ws'', er_accessToken = None,
     er_request = \<lparr>rq_method = ''GET'', rq_headers = [(''authorization'', example_bearer), (''upgrade'', ''websocket''),
       (DEVICE_HEADER, ''spoofed'')], rq_body = []\<rparr>, er_json = Inl (JsError '''')\<rparr>"

definition fetch_request :: edge_request where
  "fetch_request = socket_request\<lparr>er_path := GATEWAY_FETCH_PATH\<rparr>"

definition admin_request :: edge_request where
  "admin_request = \<lparr>er_path = ''/v1/admin/revoke'', er_accessToken = None,
     er_request = \<lparr>rq_method = ''POST'', rq_headers = [(''authorization'', ''Bearer k'')], rq_body = []\<rparr>,
     er_json = Inr (JObj [(''userId'', JStr ''u''), (''deviceId'', JStr ''d'')])\<rparr>"

lemma example_routes:
  "authenticate (ee_tokens (example_env a)) (presented socket_request) (ee_controlKey (example_env a))
     (ee_nowSeconds (example_env a)) = AuthOk ''u'' (Some ''d'')"
  "authenticate (ee_tokens (example_env a)) (presented fetch_request) (ee_controlKey (example_env a))
     (ee_nowSeconds (example_env a)) = AuthOk ''u'' (Some ''d'')"
  using example_authenticated
  by (simp_all add: example_env_def presented_def socket_request_def fetch_request_def header_of_def example_bearer_def)

lemma plane_requires_credentials_witness:
  "\<exists>token key c. token_checked example_tokens key token 601 30 c \<and> dc_sub c = ''u''"
proof -
  let ?w = "worker_fetch (example_env None) ''i'' socket_request []"
  have "js_lower ''websocket'' = ''websocket''" by code_simp
  then have d: "durable_of (fst (snd ?w)) ''u'' \<noteq> durable_of [] ''u''"
    using example_routes(1)[of None]
    by (simp add: worker_fetch_def authenticated_route_def method_refused_def to_durable_simps do_fetch_def do_upgrade_def
        edge_device_revoked_def forwarded_def header_of_def durable_of_def new_durable_def new_hub_def isRevoked_def st_get_def
        GATEWAY_FETCH_PATH_def GATEWAY_COOKIES_PATH_def DEVICE_HEADER_def socket_request_def Let_def split_beta)
  obtain r p' up where w: "?w = (r, p', up)" by (cases ?w) auto
  have k: "ee_controlKey (example_env None) = Some ''AA==''" "ee_adminToken (example_env None) = None"
    "ee_tokens (example_env None) = example_tokens" "ee_nowSeconds (example_env None) = 601"
    by (simp_all add: example_env_def)
  show ?thesis
    using plane_requires_credentials[OF w k(1), of "''u''"] d w k by auto blast
qed

lemma example_revocation:
  "\<exists>p. worker_fetch (example_env (Some ''k'')) ''i'' admin_request [] = (Revoked 0, p, None)"
proof -
  have b: "bearerToken (Some ''Bearer k'') = Some ''k''" "bytesEqual (utf8 ''k'') (utf8 ''k'')" by code_simp+
  have "revokeRequestSchema (JObj [(''userId'', JStr ''u''), (''deviceId'', JStr ''d'')]) = Some (''u'', ''d'')"
    by (rule revoke_request_schema) simp_all
  then show ?thesis
    using b
    by (simp add: worker_fetch_def authenticated_route_def admin_request_def example_env_def header_of_def to_durable_def
        do_fetch_def do_revoke_def revoke_request_def durable_of_def new_durable_def revokeDevice_def
        GATEWAY_FETCH_PATH_def GATEWAY_COOKIES_PATH_def Let_def split_beta)
qed

lemma revoked_device_locked_out_witness:
  "\<exists>p. worker_fetch (example_env (Some ''k'')) ''i'' admin_request [] = (Revoked 0, p, None) \<and>
     snd (snd (worker_fetch (example_env None) ''j'' fetch_request p)) = None"
proof -
  obtain p where p: "worker_fetch (example_env (Some ''k'')) ''i'' admin_request [] = (Revoked 0, p, None)"
    using example_revocation by blast
  obtain r p' up where w: "worker_fetch (example_env None) ''j'' fetch_request p = (r, p', up)"
    by (cases "worker_fetch (example_env None) ''j'' fetch_request p") auto
  have "revokeRequestSchema (JObj [(''userId'', JStr ''u''), (''deviceId'', JStr ''d'')]) = Some (''u'', ''d'')"
    by (rule revoke_request_schema) simp_all
  then have "up = None"
    using revoked_device_locked_out[where before = "[]" and after = "[]" and p = p and env = "example_env None",
        OF _ _ _ _ example_routes(2) _ w, of "example_env (Some ''k'')" "''i''" admin_request 0 p None] p
    by (simp add: admin_request_def fetch_request_def authenticated_route_def GATEWAY_FETCH_PATH_def)
  then show ?thesis using p w by simp
qed

end
