(* ===== verification/Capability.thy ===== *)
theory Capability
  imports DeviceToken Messages Egress
begin

text \<open>
  Capability tokens of the agent in a user's machine (packages/protocol/src/agent.ts and
  services/control/src/capabilities.ts): the claims and their check, the channel names of the mux,
  the tokens the control plane mints and verifies, and the authorization of the routes the agent
  calls.  The table of machines is a map from ids to owners; key material, Ed25519 and
  \<open>JSON.parse\<close> are the parameters of device tokens.
\<close>

section \<open>Capabilities\<close>

datatype Capability = PtySpawn | PtyIo | PtyResize | PtyKill | PortsList | PortsForward | FetchPublic
  | FsRead | FsWrite | LogRead

definition CAPABILITIES :: "Capability list" where
  "CAPABILITIES = [PtySpawn, PtyIo, PtyResize, PtyKill, PortsList, PortsForward, FetchPublic, FsRead, FsWrite, LogRead]"

fun cap_text :: "Capability \<Rightarrow> string" where
  "cap_text PtySpawn = ''pty.spawn''"
| "cap_text PtyIo = ''pty.io''"
| "cap_text PtyResize = ''pty.resize''"
| "cap_text PtyKill = ''pty.kill''"
| "cap_text PortsList = ''ports.list''"
| "cap_text PortsForward = ''ports.forward''"
| "cap_text FetchPublic = ''fetch.public''"
| "cap_text FsRead = ''fs.read''"
| "cap_text FsWrite = ''fs.write''"
| "cap_text LogRead = ''log.read''"

definition TERMINAL_CAPABILITIES :: "Capability list" where
  "TERMINAL_CAPABILITIES = [PtySpawn, PtyIo, PtyResize, PtyKill, PortsList, PortsForward, LogRead]"

record CapabilityClaims =
  cc_mid :: string
  cc_sub :: string
  cc_caps :: "Capability list"
  cc_iat :: int
  cc_exp :: int
  cc_jti :: string

definition CAPABILITY_TOKEN_TTL_SECONDS :: nat where "CAPABILITY_TOKEN_TTL_SECONDS = 300"

definition hasCapability :: "CapabilityClaims \<Rightarrow> Capability \<Rightarrow> bool" where
  "hasCapability claims cap \<longleftrightarrow> cap \<in> set (cc_caps claims)"

text \<open>The reason for a refusal, or \<open>None\<close> when the operation is allowed.\<close>

definition checkCapability :: "CapabilityClaims \<Rightarrow> string \<Rightarrow> Capability \<Rightarrow> nat \<Rightarrow> string option" where
  "checkCapability claims machineId cap nowSeconds =
     (if cc_mid claims \<noteq> machineId then Some ''token is bound to a different machine''
      else if cc_exp claims < int nowSeconds then Some ''capability token expired''
      else if \<not> hasCapability claims cap then Some (''capability '' @ cap_text cap @ '' not granted'')
      else None)"

datatype ctl_op = CtlPtySpawn | CtlPtyResize | CtlPtyKill | CtlPtyAttach | CtlPtyList | CtlJobSet | CtlPortsList
  | CtlFetchPublic | CtlFetchCancel

fun CTL_CAPABILITY :: "ctl_op \<Rightarrow> Capability" where
  "CTL_CAPABILITY CtlPtySpawn = PtySpawn"
| "CTL_CAPABILITY CtlPtyResize = PtyResize"
| "CTL_CAPABILITY CtlPtyKill = PtyKill"
| "CTL_CAPABILITY CtlPtyAttach = PtyIo"
| "CTL_CAPABILITY CtlPtyList = PtyIo"
| "CTL_CAPABILITY CtlJobSet = PtySpawn"
| "CTL_CAPABILITY CtlPortsList = PortsList"
| "CTL_CAPABILITY CtlFetchPublic = FetchPublic"
| "CTL_CAPABILITY CtlFetchCancel = FetchPublic"

section \<open>Channel names\<close>

datatype AgentChannel = ChCtl | ChVfs | ChLog | ChPty string | ChFwd nat "string option"

text \<open>The part before the first occurrence of a character, and what follows it if there is one.\<close>

definition cut_at :: "char \<Rightarrow> string \<Rightarrow> string \<times> string option" where
  "cut_at c s =
     (case dropWhile (\<lambda>x. x \<noteq> c) s of [] \<Rightarrow> (s, None) | _ # rest \<Rightarrow> (takeWhile (\<lambda>x. x \<noteq> c) s, Some rest))"

definition parseChannel :: "string \<Rightarrow> AgentChannel option" where
  "parseChannel name =
     (if name = ''ctl'' then Some ChCtl
      else if name = ''vfs'' then Some ChVfs
      else if name = ''log'' then Some ChLog
      else
        (case cut_at (CHR ''/'') name of
           (_, None) \<Rightarrow> None
         | (head, Some rest) \<Rightarrow>
             if head = ''pty'' then (if rest \<noteq> [] then Some (ChPty rest) else None)
             else if head = ''fwd'' then
               (let (portPart, streamId) = cut_at (CHR ''/'') rest; port = decimal_read portPart
                in if portPart = [] \<or> \<not> list_all is_digit portPart then None
                   else if port < 1 \<or> int port > 65535 then None
                   else if streamId = Some [] then None
                   else Some (ChFwd port streamId))
             else None))"

section \<open>Minting and verifying\<close>

definition CAPABILITY_JWS_HEADER :: string where
  "CAPABILITY_JWS_HEADER = base64url (utf8 ''{\"alg\":\"EdDSA\",\"typ\":\"suma-cap+jws\"}'')"

text \<open>The text of the claims is a parameter, as for device tokens.\<close>

definition signCapabilityToken :: "(byte list \<Rightarrow> byte list) \<Rightarrow> string \<Rightarrow> string" where
  "signCapabilityToken sign json =
     (let payload = base64url (utf8 json); signingInput = CAPABILITY_JWS_HEADER @ ''.'' @ payload
      in signingInput @ ''.'' @ base64url (sign (utf8 signingInput)))"

definition mintCapabilityToken ::
  "(byte list \<Rightarrow> byte list) \<Rightarrow> (CapabilityClaims \<Rightarrow> string) \<Rightarrow> string \<Rightarrow> string \<Rightarrow> string \<Rightarrow> Capability list \<Rightarrow> nat \<Rightarrow>
   string \<times> CapabilityClaims" where
  "mintCapabilityToken sign stringify uuid machineId userId caps nowSeconds =
     (let claims = \<lparr>cc_mid = machineId, cc_sub = userId, cc_caps = caps, cc_iat = int nowSeconds,
            cc_exp = int (nowSeconds + CAPABILITY_TOKEN_TTL_SECONDS), cc_jti = uuid\<rparr>
      in (signCapabilityToken sign (stringify claims), claims))"

datatype CapabilityFailure = CapMalformed | NotCapabilityToken | CapBadSignature | CapExpired

definition isCapability :: "json \<Rightarrow> Capability option" where
  "isCapability value =
     (case value of JStr s \<Rightarrow> find (\<lambda>c. cap_text c = s) CAPABILITIES | _ \<Rightarrow> None)"

definition parseClaims :: "'k token_crypto \<Rightarrow> string \<Rightarrow> CapabilityClaims option" where
  "parseClaims tc payload =
     (case (case base64urlDecode payload of Inl e \<Rightarrow> Inl e | Inr b \<Rightarrow> tc_parse tc b) of
        Inr (JObj kvs) \<Rightarrow>
          (case (js_text (map_of kvs ''mid''), js_text (map_of kvs ''sub''), js_text (map_of kvs ''jti''),
                 js_number (map_of kvs ''iat''), js_number (map_of kvs ''exp''), map_of kvs ''caps'') of
             (Some mid, Some sub, Some jti, Some iat, Some exp, Some (JArr cs)) \<Rightarrow>
               map_option (\<lambda>caps. \<lparr>cc_mid = mid, cc_sub = sub, cc_caps = caps, cc_iat = iat, cc_exp = exp, cc_jti = jti\<rparr>)
                 (those (map isCapability cs))
           | _ \<Rightarrow> None)
      | _ \<Rightarrow> None)"

definition verifyCapabilityToken ::
  "'k token_crypto \<Rightarrow> 'k \<Rightarrow> string \<Rightarrow> nat \<Rightarrow> nat \<Rightarrow> CapabilityFailure + CapabilityClaims" where
  "verifyCapabilityToken tc key token nowSeconds clockSkewSeconds =
     (case js_split (CHR ''.'') token of
        [header, payload, sig] \<Rightarrow>
          if header \<noteq> CAPABILITY_JWS_HEADER then Inl NotCapabilityToken
          else
            (case (case base64urlDecode sig of
                     Inl e \<Rightarrow> Inl e
                   | Inr s \<Rightarrow> tc_verify tc key s (utf8 (header @ ''.'' @ payload))) of
               Inl _ \<Rightarrow> Inl CapBadSignature
             | Inr False \<Rightarrow> Inl CapBadSignature
             | Inr True \<Rightarrow>
                 (case parseClaims tc payload of
                    None \<Rightarrow> Inl CapMalformed
                  | Some claims \<Rightarrow>
                      if cc_exp claims + int clockSkewSeconds < int nowSeconds then Inl CapExpired else Inr claims))
      | _ \<Rightarrow> Inl CapMalformed)"

section \<open>What a token may do\<close>

fun CAPABILITY_FEATURE :: "Capability \<Rightarrow> string option" where
  "CAPABILITY_FEATURE FetchPublic = Some ''cloud-fetch''"
| "CAPABILITY_FEATURE FsRead = Some ''files''"
| "CAPABILITY_FEATURE FsWrite = Some ''files''"
| "CAPABILITY_FEATURE _ = None"

definition DEFAULT_ACCOUNT_FEATURES :: "string list" where
  "DEFAULT_ACCOUNT_FEATURES = [''cloud-fetch'', ''files'', ''inference'']"

definition refusedCaps :: "Capability list \<Rightarrow> string list \<Rightarrow> Capability list" where
  "refusedCaps caps features =
     filter (\<lambda>cap. if cap \<in> set TERMINAL_CAPABILITIES then False
       else (case CAPABILITY_FEATURE cap of None \<Rightarrow> True | Some f \<Rightarrow> f \<notin> set features)) caps"

fun join_comma :: "string list \<Rightarrow> string" where
  "join_comma [] = []"
| "join_comma [x] = x"
| "join_comma (x # y # xs) = x @ '', '' @ join_comma (y # xs)"

definition agentReportRefusal :: "Capability list \<Rightarrow> string option" where
  "agentReportRefusal caps =
     (if caps = [] then Some ''capability token grants nothing''
      else
        (let extra = filter (\<lambda>cap. cap \<notin> set TERMINAL_CAPABILITIES) caps
         in if extra \<noteq> [] then Some (''not a terminal-scoped token: '' @ join_comma (map cap_text extra)) else None))"

definition transferReportRefusal :: "Capability list \<Rightarrow> string option" where
  "transferReportRefusal caps =
     (if FetchPublic \<in> set caps then None else Some ''capability token does not grant fetch.public'')"

text \<open>The agent a request is made by, or the reason it is refused with 401.\<close>

record agent =
  ag_machineId :: string
  ag_userId :: string
  ag_caps :: "Capability list"

fun cap_failure_text :: "CapabilityFailure \<Rightarrow> string" where
  "cap_failure_text CapMalformed = ''malformed''"
| "cap_failure_text NotCapabilityToken = ''not_capability_token''"
| "cap_failure_text CapBadSignature = ''bad_signature''"
| "cap_failure_text CapExpired = ''expired''"

definition bearerAgent ::
  "'k token_crypto \<Rightarrow> 'k \<Rightarrow> (string \<Rightarrow> string option) \<Rightarrow> nat \<Rightarrow> string option \<Rightarrow> string option + agent" where
  "bearerAgent tc key owner nowSeconds authorization =
     (case (case authorization of
              None \<Rightarrow> None
            | Some h \<Rightarrow> if prefix ''Bearer '' h then Some (drop (length ''Bearer '') h) else None) of
        None \<Rightarrow> Inl None
      | Some token \<Rightarrow>
          if token = [] then Inl None
          else
            (case verifyCapabilityToken tc key token nowSeconds 30 of
               Inl f \<Rightarrow> Inl (Some (cap_failure_text f))
             | Inr claims \<Rightarrow>
                 (case owner (cc_mid claims) of
                    None \<Rightarrow> Inl (Some ''machine_binding'')
                  | Some user \<Rightarrow>
                      if user \<noteq> cc_sub claims then Inl (Some ''machine_binding'')
                      else Inr \<lparr>ag_machineId = cc_mid claims, ag_userId = user, ag_caps = cc_caps claims\<rparr>)))"

section \<open>The two families of tokens\<close>

lemma headers_differ: "HEADER \<noteq> CAPABILITY_JWS_HEADER"
proof
  assume "HEADER = CAPABILITY_JWS_HEADER"
  then have "utf8 ''{\"alg\":\"EdDSA\",\"typ\":\"JWT\"}'' = utf8 ''{\"alg\":\"EdDSA\",\"typ\":\"suma-cap+jws\"}''"
    unfolding HEADER_def CAPABILITY_JWS_HEADER_def by (metis base64url_round(1) sum.inject(2))
  then show False by (simp add: utf8_def utf8_char_def)
qed

lemma js_split_length: "c \<notin> set a \<Longrightarrow> length (js_split c (a @ s)) = length (js_split c s)"
proof (induction a)
  case (Cons x a)
  then have "length (js_split c (a @ s)) = length (js_split c s)" "x \<noteq> c" by auto
  moreover have "js_split c t \<noteq> []" for t using js_split_inverse by blast
  ultimately show ?case by (cases "js_split c (a @ s)") simp_all
qed simp

lemma capability_parts:
  assumes "verifyCapabilityToken tc key token now skew = Inr claims"
  obtains payload sig where "js_split (CHR ''.'') token = [CAPABILITY_JWS_HEADER, payload, sig]"
    "token = CAPABILITY_JWS_HEADER @ ''.'' @ payload @ ''.'' @ sig"
proof -
  obtain payload sig where s: "js_split (CHR ''.'') token = [CAPABILITY_JWS_HEADER, payload, sig]"
    using assms by (auto simp: verifyCapabilityToken_def split: list.splits if_splits)
  then show ?thesis using that js_split_inverse[OF s] by simp
qed

lemma device_parts:
  assumes "verifyDeviceToken tc key token now skew = Inr (Inr c)"
  obtains payload sig where "js_split (CHR ''.'') token = [HEADER, payload, sig]"
  using assms by (auto simp: verifyDeviceToken_def split: list.splits if_splits)

lemma capability_no_device:
  assumes "verifyCapabilityToken tc key token now skew = Inr claims"
  shows "verifyDeviceToken tc' key' token now' skew' = Inr (Inl TokMalformed)" "dev_token_user token = None"
proof -
  obtain payload sig where s: "js_split (CHR ''.'') token = [CAPABILITY_JWS_HEADER, payload, sig]"
    "token = CAPABILITY_JWS_HEADER @ ''.'' @ payload @ ''.'' @ sig"
    using assms by (rule capability_parts)
  show "verifyDeviceToken tc' key' token now' skew' = Inr (Inl TokMalformed)"
    using headers_differ by (simp add: verifyDeviceToken_def s(1))
  show "dev_token_user token = None"
  proof (cases "prefix ''hbr_dev_'' token")
    case True
    then have "token = ''hbr_dev_'' @ drop 8 token" by (auto simp: prefix_def)
    then have "length (js_split (CHR ''.'') (drop 8 token)) = 3"
      using js_split_length[of "CHR ''.''" "''hbr_dev_''" "drop 8 token"] s(1) by simp
    then show ?thesis by (auto simp: dev_token_user_def split: list.split)
  qed (simp add: dev_token_user_def)
qed

lemma device_no_capability:
  assumes "verifyDeviceToken tc key token now skew = Inr (Inr c)"
  shows "verifyCapabilityToken tc' key' token now' skew' = Inl NotCapabilityToken"
proof -
  obtain payload sig where "js_split (CHR ''.'') token = [HEADER, payload, sig]"
    using assms by (rule device_parts)
  then show ?thesis using headers_differ by (simp add: verifyCapabilityToken_def)
qed

lemma sign_verify_capability:
  assumes "\<And>msg. tc_verify tc key (sign msg) msg = Inr True" "parseClaims tc (base64url (utf8 json)) = Some c"
  shows "verifyCapabilityToken tc key (signCapabilityToken sign json) now skew =
    (if cc_exp c + int skew < int now then Inl CapExpired else Inr c)"
proof -
  have "CHR ''.'' \<notin> set CAPABILITY_JWS_HEADER" unfolding CAPABILITY_JWS_HEADER_def by (rule base64url_round)
  then have "js_split (CHR ''.'') (signCapabilityToken sign json) =
      [CAPABILITY_JWS_HEADER, base64url (utf8 json),
       base64url (sign (utf8 (CAPABILITY_JWS_HEADER @ ''.'' @ base64url (utf8 json))))]"
    using base64url_round(2) by (simp add: signCapabilityToken_def Let_def js_split_append js_split_none)
  then show ?thesis using assms by (simp add: verifyCapabilityToken_def base64url_round(1))
qed

lemma cut_at_none: "c \<notin> set s \<Longrightarrow> cut_at c s = (s, None)"
proof -
  assume "c \<notin> set s"
  then have "dropWhile (\<lambda>x. x \<noteq> c) s = []" by (induction s) auto
  then show ?thesis by (simp add: cut_at_def del: dropWhile_eq_Nil_conv)
qed

lemma cut_at_some: "c \<notin> set s \<Longrightarrow> cut_at c (s @ c # t) = (s, Some t)"
proof -
  assume "c \<notin> set s"
  then have "dropWhile (\<lambda>x. x \<noteq> c) (s @ c # t) = c # t" "takeWhile (\<lambda>x. x \<noteq> c) (s @ c # t) = s" by (induction s) auto
  then show ?thesis by (simp add: cut_at_def)
qed

lemma parseChannel_fwd:
  assumes "1 \<le> p" "int p \<le> 65535" "s \<noteq> []"
  shows "parseChannel (''fwd/'' @ decimal_text p @ ''/'' @ s) = Some (ChFwd p (Some s))"
    "parseChannel (''fwd/'' @ decimal_text p) = Some (ChFwd p None)" "parseChannel (''pty/'' @ s) = Some (ChPty s)"
proof -
  have d: "CHR ''/'' \<notin> set (decimal_text p)" "list_all is_digit (decimal_text p)" "decimal_text p \<noteq> []"
    using decimal_text_range[of "CHR ''/''" p] decimal_text_range[of _ p]
    by (auto simp: list_all_iff is_digit_def less_eq_char_def decimal_text.simps[of p])
  have h: "cut_at (CHR ''/'') (''fwd/'' @ x) = (''fwd'', Some x)" "cut_at (CHR ''/'') (''pty/'' @ x) = (''pty'', Some x)" for x
    by (simp_all add: cut_at_def)
  show "parseChannel (''fwd/'' @ decimal_text p @ ''/'' @ s) = Some (ChFwd p (Some s))"
    using assms d h(1)[of "decimal_text p @ ''/'' @ s"] cut_at_some[OF d(1), of s] by (simp add: parseChannel_def)
  show "parseChannel (''fwd/'' @ decimal_text p) = Some (ChFwd p None)"
    using assms d h(1)[of "decimal_text p"] cut_at_none[OF d(1)] by (simp add: parseChannel_def)
  show "parseChannel (''pty/'' @ s) = Some (ChPty s)" using assms h(2)[of s] by (simp add: parseChannel_def)
qed

lemma report_grants_exclusive:
  "agentReportRefusal caps = None \<Longrightarrow> transferReportRefusal caps \<noteq> None \<and> refusedCaps caps features = []"
  by (auto simp: agentReportRefusal_def transferReportRefusal_def refusedCaps_def TERMINAL_CAPABILITIES_def Let_def
      filter_empty_conv split: if_splits)

section \<open>Properties\<close>

text \<open>
  C36. No string is both kinds of token: what verifies as a capability token, under any key, is neither
  a device token nor a development stub, so it authenticates no request at the session plane,
  whatever its configuration; and a device token is refused wherever an agent is asked for.
\<close>

theorem token_families_disjoint:
  shows "(verifyCapabilityToken tc key token now skew = Inr claims \<longrightarrow> bearerToken authorization = Some token \<longrightarrow>
      authenticate tc' authorization controlKey now' \<noteq> AuthOk user dev) \<and>
    (verifyDeviceToken tc key token now skew = Inr (Inr c) \<longrightarrow>
      bearerAgent tc' key' owner now' (Some (''Bearer '' @ token)) = Inl (Some ''not_capability_token''))"
proof (intro conjI impI)
  assume t: "verifyCapabilityToken tc key token now skew = Inr claims" "bearerToken authorization = Some token"
  have m: "verifyDeviceToken tc' k token n s = Inr (Inl TokMalformed)" for k n s
    by (rule capability_no_device(1)[OF t(1)])
  show "authenticate tc' authorization controlKey now' \<noteq> AuthOk user dev"
    using t(2) m capability_no_device(2)[OF t(1)]
    by (auto simp: authenticate_def Let_def split: option.splits sum.splits if_splits)
next
  assume t: "verifyDeviceToken tc key token now skew = Inr (Inr c)"
  have n: "verifyCapabilityToken tc' key' token now' 30 = Inl NotCapabilityToken" by (rule device_no_capability[OF t])
  have "token \<noteq> []" using t by (auto simp: verifyDeviceToken_def)
  then show "bearerAgent tc' key' owner now' (Some (''Bearer '' @ token)) = Inl (Some ''not_capability_token'')"
    using n by (simp add: bearerAgent_def)
qed

text \<open>
  A minted capability token speaks for its machine and no other: while its five minutes and the
  skew allowed last, the control plane takes its bearer for that machine of that user, with the
  capabilities granted, provided the machine is still the user's; and the agent lets an operation
  through exactly on that machine, within the five minutes, with the capability granted.
\<close>

theorem minted_capability_bound:
  assumes "\<And>msg. tc_verify tc key (sign msg) msg = Inr True"
    and "mintCapabilityToken sign stringify uuid mid user caps now = (token, claims)"
    and "parseClaims tc (base64url (utf8 (stringify claims))) = Some claims"
  shows "bearerAgent tc key owner t (Some (''Bearer '' @ token)) =
      (if now + 330 < t then Inl (Some ''expired'')
       else if owner mid = Some user then Inr \<lparr>ag_machineId = mid, ag_userId = user, ag_caps = caps\<rparr>
       else Inl (Some ''machine_binding'')) \<and>
    (checkCapability claims m cap t = None \<longleftrightarrow> m = mid \<and> t \<le> now + 300 \<and> cap \<in> set caps)"
proof -
  have c: "claims = \<lparr>cc_mid = mid, cc_sub = user, cc_caps = caps, cc_iat = int now, cc_exp = int (now + 300), cc_jti = uuid\<rparr>"
    and t: "token = signCapabilityToken sign (stringify claims)"
    using assms(2) by (auto simp: mintCapabilityToken_def CAPABILITY_TOKEN_TTL_SECONDS_def Let_def)
  have "token \<noteq> []" by (simp add: t signCapabilityToken_def Let_def)
  then have "bearerAgent tc key owner t (Some (''Bearer '' @ token)) =
      (if now + 330 < t then Inl (Some ''expired'')
       else if owner mid = Some user then Inr \<lparr>ag_machineId = mid, ag_userId = user, ag_caps = caps\<rparr>
       else Inl (Some ''machine_binding''))"
    using sign_verify_capability[of tc key sign, OF assms(1,3), of t 30]
    by (auto simp: bearerAgent_def t c split: option.split)
  moreover have "checkCapability claims m cap t = None \<longleftrightarrow> m = mid \<and> t \<le> now + 300 \<and> cap \<in> set caps"
    by (auto simp: checkCapability_def hasCapability_def c)
  ultimately show ?thesis by blast
qed

section \<open>Witnesses\<close>

definition example_capability :: CapabilityClaims where
  "example_capability = \<lparr>cc_mid = ''m'', cc_sub = ''u'', cc_caps = [PtyIo], cc_iat = 1, cc_exp = 301, cc_jti = ''j''\<rparr>"

definition example_agent_tokens :: "unit token_crypto" where
  "example_agent_tokens = example_tokens\<lparr>tc_parse := (\<lambda>b. Inr (JObj [(''mid'', JStr ''m''), (''sub'', JStr ''u''),
     (''caps'', JArr [JStr ''pty.io'']), (''iat'', JInt 1), (''exp'', JInt 301), (''jti'', JStr ''j'')]))\<rparr>"

lemma example_agent_laws:
  "tc_verify example_agent_tokens () (rev m) m = Inr True"
  "parseClaims example_agent_tokens (base64url (utf8 x)) = Some example_capability"
proof -
  have "those (map isCapability [JStr ''pty.io'']) = Some [PtyIo]" by code_simp
  then show "parseClaims example_agent_tokens (base64url (utf8 x)) = Some example_capability"
    by (simp add: parseClaims_def base64url_round(1) example_agent_tokens_def example_capability_def)
qed (simp add: example_agent_tokens_def example_tokens_def)

lemma token_families_disjoint_witness:
  "authenticate example_tokens (Some (''Bearer '' @ signCapabilityToken rev ''x'')) None 9 \<noteq> AuthOk ''u'' None \<and>
   bearerAgent example_agent_tokens () (\<lambda>m. Some ''u'') 9 (Some (''Bearer '' @ signDeviceToken rev ''x'')) =
     Inl (Some ''not_capability_token'')"
proof
  have c: "verifyCapabilityToken example_agent_tokens () (signCapabilityToken rev ''x'') 9 30 = Inr example_capability"
    using sign_verify_capability[of example_agent_tokens "()" rev, OF example_agent_laws, of "''x''" 9 30]
    by (simp add: example_capability_def)
  have "utf8 ''x'' \<noteq> []" "utf8 ''{\"alg\":\"EdDSA\",\"typ\":\"suma-cap+jws\"}'' \<noteq> []" "rev (utf8 (CAPABILITY_JWS_HEADER @ ''.'' @ s)) \<noteq> []" for s
    by (simp_all add: utf8_def utf8_char_def)
  then have "CHR '' '' \<notin> set (signCapabilityToken rev ''x'')"
    using base64url_word[THEN url_word_space] by (simp add: signCapabilityToken_def Let_def) (simp add: CAPABILITY_JWS_HEADER_def)
  then have "bearerToken (Some (''Bearer '' @ signCapabilityToken rev ''x'')) = Some (signCapabilityToken rev ''x'')"
    by (simp add: bearerToken_def js_split_none js_lower_def char_lower_def char_of_def bit_iff_odd)
  then show "authenticate example_tokens (Some (''Bearer '' @ signCapabilityToken rev ''x'')) None 9 \<noteq> AuthOk ''u'' None"
    using token_families_disjoint[of example_agent_tokens "()" "signCapabilityToken rev ''x''" 9 30 example_capability
        "Some (''Bearer '' @ signCapabilityToken rev ''x'')" example_tokens None 9 "''u''" None] c by blast
  show "bearerAgent example_agent_tokens () (\<lambda>m. Some ''u'') 9 (Some (''Bearer '' @ signDeviceToken rev ''x'')) =
     Inl (Some ''not_capability_token'')"
    using token_families_disjoint[where tc = example_tokens and key = "()" and token = "signDeviceToken rev ''x''"
        and now = 9 and skew = 30 and tc' = example_agent_tokens and key' = "()" and owner = "\<lambda>m. Some ''u''" and now' = 9]
      sign_verify[of example_tokens "()" rev, OF example_laws, of "''x''" 9 30] by auto
qed

lemma minted_capability_bound_witness:
  "bearerAgent example_agent_tokens () (\<lambda>m. Some ''u'') 300
     (Some (''Bearer '' @ fst (mintCapabilityToken rev (\<lambda>c. ''x'') ''j'' ''m'' ''u'' [PtyIo] 1))) =
     Inr \<lparr>ag_machineId = ''m'', ag_userId = ''u'', ag_caps = [PtyIo]\<rparr>"
proof -
  have m: "mintCapabilityToken rev (\<lambda>c. ''x'') ''j'' ''m'' ''u'' [PtyIo] 1 = (signCapabilityToken rev ''x'', example_capability)"
    by (simp add: mintCapabilityToken_def example_capability_def CAPABILITY_TOKEN_TTL_SECONDS_def Let_def)
  show ?thesis
    using minted_capability_bound[of example_agent_tokens "()" rev, OF example_agent_laws(1) m example_agent_laws(2),
        of "\<lambda>m. Some ''u''" 300] m by simp
qed

end
