(* ===== verification/Relay.thy ===== *)
theory Relay
  imports DeviceToken
begin

text \<open>
  The relay of the control plane between a home computer and the devices away from it
  (services/control/src/relay.ts).  Sockets have names; what the registry sends and closes is appended
  to a log.  A control text is what \<open>JSON.parse\<close> makes of it, the id of a new connection is an
  argument.
\<close>

section \<open>State\<close>

definition CLOSE_REPLACED :: nat where "CLOSE_REPLACED = 4000"

definition CLOSE_HOME_OFFLINE :: nat where "CLOSE_HOME_OFFLINE = 4404"

definition CONN_ID_BYTES :: nat where "CONN_ID_BYTES = 8"

datatype home_control = OpenConn string | CloseConn string

text \<open>What goes to a socket.\<close>

datatype relay_out = SendControl string home_control | SendBytes string "byte list" | CloseSocket string nat string

record HomeEntry =
  he_socket :: string
  he_clients :: "(string, string) js_map"

record relay =
  rl_homes :: "(string, HomeEntry) js_map"
  rl_out :: "relay_out list"

definition new_relay :: relay where
  "new_relay = \<lparr>rl_homes = [], rl_out = []\<rparr>"

definition relay_emit :: "relay_out list \<Rightarrow> relay \<Rightarrow> relay" where
  "relay_emit os r = r\<lparr>rl_out := rl_out r @ os\<rparr>"

section \<open>Operations\<close>

definition homeOnline :: "string \<Rightarrow> relay \<Rightarrow> bool" where
  "homeOnline userId r \<longleftrightarrow> js_get (rl_homes r) userId \<noteq> None"

definition close_clients :: "HomeEntry \<Rightarrow> relay_out list" where
  "close_clients home = map (\<lambda>(conn, s). CloseSocket s CLOSE_HOME_OFFLINE ''home-offline'') (he_clients home)"

definition attachHome :: "string \<Rightarrow> string \<Rightarrow> relay \<Rightarrow> relay" where
  "attachHome userId socket r =
     (let r1 = (case js_get (rl_homes r) userId of
            None \<Rightarrow> r
          | Some previous \<Rightarrow>
              relay_emit (close_clients previous @ [CloseSocket (he_socket previous) CLOSE_REPLACED ''replaced''])
                (r\<lparr>rl_homes := js_del (rl_homes r) userId\<rparr>))
      in r1\<lparr>rl_homes := js_set (rl_homes r1) userId \<lparr>he_socket = socket, he_clients = []\<rparr>\<rparr>)"

definition detachHome :: "string \<Rightarrow> string \<Rightarrow> relay \<Rightarrow> relay" where
  "detachHome userId socket r =
     (case js_get (rl_homes r) userId of
        None \<Rightarrow> r
      | Some home \<Rightarrow>
          if he_socket home \<noteq> socket then r
          else relay_emit (close_clients home) (r\<lparr>rl_homes := js_del (rl_homes r) userId\<rparr>))"

definition set_clients :: "string \<Rightarrow> HomeEntry \<Rightarrow> (string, string) js_map \<Rightarrow> relay \<Rightarrow> relay" where
  "set_clients userId home cs r = r\<lparr>rl_homes := js_set (rl_homes r) userId (home\<lparr>he_clients := cs\<rparr>)\<rparr>"

text \<open>A control text: \<open>None\<close> when it does not parse; reading a member of \<open>null\<close> throws.\<close>

definition homeText :: "string \<Rightarrow> json option \<Rightarrow> relay \<Rightarrow> relay js_result" where
  "homeText userId parsed r =
     (case js_get (rl_homes r) userId of
        None \<Rightarrow> Inr r
      | Some home \<Rightarrow>
          (case parsed of
             None \<Rightarrow> Inr r
           | Some message \<Rightarrow>
               (case (js_member message ''t'', js_member message ''conn'') of
                  (Inl e, _) \<Rightarrow> Inl e
                | (Inr (Some (JStr t)), Inr (Some (JStr conn))) \<Rightarrow>
                    if t \<noteq> ''close'' then Inr r
                    else
                      (case js_get (he_clients home) conn of
                         None \<Rightarrow> Inr r
                       | Some client \<Rightarrow>
                           Inr (relay_emit [CloseSocket client 1000 ''closed by home'']
                             (set_clients userId home (js_del (he_clients home) conn) r)))
                | _ \<Rightarrow> Inr r)))"

text \<open>\<open>toString("ascii")\<close> clears the high bit.\<close>

definition ascii_text :: "byte list \<Rightarrow> string" where
  "ascii_text bs = map (\<lambda>b. char_of (unat b mod 128)) bs"

definition ascii_bytes :: "string \<Rightarrow> byte list" where
  "ascii_bytes s = map (\<lambda>c. of_nat (of_char c)) s"

definition homeFrame :: "string \<Rightarrow> byte list \<Rightarrow> relay \<Rightarrow> relay" where
  "homeFrame userId bytes r =
     (case js_get (rl_homes r) userId of
        None \<Rightarrow> r
      | Some home \<Rightarrow>
          if length bytes < CONN_ID_BYTES then r
          else
            (case js_get (he_clients home) (ascii_text (take CONN_ID_BYTES bytes)) of
               None \<Rightarrow> r
             | Some client \<Rightarrow> relay_emit [SendBytes client (drop CONN_ID_BYTES bytes)] r))"

definition attachClient :: "string \<Rightarrow> string \<Rightarrow> string \<Rightarrow> relay \<Rightarrow> string option \<times> relay" where
  "attachClient newId userId socket r =
     (case js_get (rl_homes r) userId of
        None \<Rightarrow> (None, relay_emit [CloseSocket socket CLOSE_HOME_OFFLINE ''home-offline''] r)
      | Some home \<Rightarrow>
          (Some newId,
           relay_emit [SendControl (he_socket home) (OpenConn newId)]
             (set_clients userId home (js_set (he_clients home) newId socket) r)))"

definition clientMessage :: "string \<Rightarrow> string \<Rightarrow> byte list \<Rightarrow> relay \<Rightarrow> relay" where
  "clientMessage userId conn bytes r =
     (case js_get (rl_homes r) userId of
        None \<Rightarrow> r
      | Some home \<Rightarrow>
          if js_get (he_clients home) conn = None then r
          else relay_emit [SendBytes (he_socket home) (ascii_bytes conn @ bytes)] r)"

definition detachClient :: "string \<Rightarrow> string \<Rightarrow> relay \<Rightarrow> relay" where
  "detachClient userId conn r =
     (case js_get (rl_homes r) userId of
        None \<Rightarrow> r
      | Some home \<Rightarrow>
          if js_get (he_clients home) conn = None then r
          else relay_emit [SendControl (he_socket home) (CloseConn conn)]
            (set_clients userId home (js_del (he_clients home) conn) r))"

section \<open>Runs\<close>

datatype relay_event =
    HomeUp string string
  | HomeDown string string
  | HomeSays string "json option"
  | HomeSends string "byte list"
  | AwayUp string string string
  | AwaySends string string "byte list"
  | AwayDown string string

fun relay_step :: "relay \<Rightarrow> relay_event \<Rightarrow> relay js_result" where
  "relay_step r (HomeUp u s) = Inr (attachHome u s r)"
| "relay_step r (HomeDown u s) = Inr (detachHome u s r)"
| "relay_step r (HomeSays u j) = homeText u j r"
| "relay_step r (HomeSends u bs) = Inr (homeFrame u bs r)"
| "relay_step r (AwayUp u s c) = Inr (snd (attachClient c u s r))"
| "relay_step r (AwaySends u c bs) = Inr (clientMessage u c bs r)"
| "relay_step r (AwayDown u c) = Inr (detachClient u c r)"

fun event_user :: "relay_event \<Rightarrow> string" where
  "event_user (HomeUp u s) = u"
| "event_user (HomeDown u s) = u"
| "event_user (HomeSays u j) = u"
| "event_user (HomeSends u bs) = u"
| "event_user (AwayUp u s c) = u"
| "event_user (AwaySends u c bs) = u"
| "event_user (AwayDown u c) = u"

text \<open>
  The states a relay reaches, with the account every socket was attached for, whether as its home,
  and the connection ids given out: a socket attaches once, and a random id, eight ASCII digits, does
  not repeat.
\<close>

type_synonym owners = "string \<Rightarrow> (string \<times> bool) option"

fun names :: "relay_event \<Rightarrow> owners \<Rightarrow> owners" where
  "names (HomeUp u s) owner = owner(s \<mapsto> (u, True))"
| "names (AwayUp u s c) owner = owner(s \<mapsto> (u, False))"
| "names e owner = owner"

fun gives :: "relay_event \<Rightarrow> string set \<Rightarrow> string set" where
  "gives (AwayUp u s c) ids = insert c ids"
| "gives e ids = ids"

fun fresh :: "relay_event \<Rightarrow> owners \<Rightarrow> string set \<Rightarrow> bool" where
  "fresh (HomeUp u s) owner ids \<longleftrightarrow> owner s = None"
| "fresh (AwayUp u s c) owner ids \<longleftrightarrow>
     owner s = None \<and> c \<notin> ids \<and> length c = CONN_ID_BYTES \<and> list_all (\<lambda>x. of_char x < (128 :: nat)) c"
| "fresh e owner ids \<longleftrightarrow> True"

inductive relay_reach :: "relay \<Rightarrow> owners \<Rightarrow> string set \<Rightarrow> bool" where
  relay_start: "relay_reach new_relay (\<lambda>s. None) {}"
| relay_next: "relay_reach r owner ids \<Longrightarrow> fresh e owner ids \<Longrightarrow> relay_step r e = Inr r' \<Longrightarrow>
    relay_reach r' (names e owner) (gives e ids)"

section \<open>The view of a home\<close>

text \<open>What a home reads off its socket: connections opened and closed, and frames of connections.\<close>

datatype mux_event = MuxOpen string | MuxClose string | MuxFrame string "byte list"

fun out_socket :: "relay_out \<Rightarrow> string" where
  "out_socket (SendControl s c) = s"
| "out_socket (SendBytes s bs) = s"
| "out_socket (CloseSocket s c m) = s"

fun mux_view :: "string \<Rightarrow> relay_out \<Rightarrow> mux_event list" where
  "mux_view s (SendControl s' (OpenConn c)) = (if s' = s then [MuxOpen c] else [])"
| "mux_view s (SendControl s' (CloseConn c)) = (if s' = s then [MuxClose c] else [])"
| "mux_view s (SendBytes s' bs) =
     (if s' = s then [MuxFrame (ascii_text (take CONN_ID_BYTES bs)) (drop CONN_ID_BYTES bs)] else [])"
| "mux_view s (CloseSocket s' c m) = []"

definition home_view :: "string \<Rightarrow> relay_out list \<Rightarrow> mux_event list" where
  "home_view s os = concat (map (mux_view s) os)"

text \<open>The contract: an id is opened once, has frames while open, and is closed once; \<open>None\<close> a breach.\<close>

fun mux_step :: "(string set \<times> string set) option \<Rightarrow> mux_event \<Rightarrow> (string set \<times> string set) option" where
  "mux_step None e = None"
| "mux_step (Some (seen, live)) (MuxOpen c) = (if c \<in> seen then None else Some (insert c seen, insert c live))"
| "mux_step (Some (seen, live)) (MuxClose c) = (if c \<in> live then Some (seen, live - {c}) else None)"
| "mux_step (Some (seen, live)) (MuxFrame c bs) = (if c \<in> live then Some (seen, live) else None)"

definition mux_state :: "mux_event list \<Rightarrow> (string set \<times> string set) option" where
  "mux_state es = foldl mux_step (Some ({}, {})) es"

lemma home_view_Nil [simp]: "home_view s [] = []"
  by (simp add: home_view_def)

lemma home_view_append [simp]: "home_view s (os @ ps) = home_view s os @ home_view s ps"
  by (simp add: home_view_def)

lemma home_view_elsewhere: "s \<notin> out_socket ` set os \<Longrightarrow> home_view s os = []"
proof (induction os)
  case (Cons x os)
  then have "mux_view s x = []" by (cases "(s, x)" rule: mux_view.cases) auto
  then show ?case using Cons by (simp add: home_view_def)
qed (simp add: home_view_def)

lemma home_view_closes: "home_view s (map (\<lambda>(c, x). CloseSocket x n m) cs) = []"
  by (induction cs) (auto simp: home_view_def)

lemma ascii_char: "of_char x < (128 :: nat) \<Longrightarrow> char_of (unat (of_nat (of_char x) :: byte) mod 128) = x"
proof -
  assume l: "of_char x < (128 :: nat)"
  then have "unat (of_nat (of_char x) :: byte) = of_char x" by (simp add: unat_of_nat)
  then have "unat (of_nat (of_char x) :: byte) mod 128 = of_char x" using l by (simp only: mod_less)
  then show ?thesis by (simp only: char_of_char)
qed

lemma ascii_round: "list_all (\<lambda>x. of_char x < (128 :: nat)) c \<Longrightarrow> ascii_text (ascii_bytes c) = c"
  unfolding ascii_text_def ascii_bytes_def map_map comp_def
  by (induction c) (simp_all only: list.map list.pred_inject ascii_char simp_thms)

definition home_ok :: "relay_out list \<Rightarrow> owners \<Rightarrow> string set \<Rightarrow> string \<Rightarrow> HomeEntry \<Rightarrow> bool" where
  "home_ok os owner ids u h \<longleftrightarrow>
     owner (he_socket h) = Some (u, True) \<and>
     (\<forall>c s. js_get (he_clients h) c = Some s \<longrightarrow> owner s = Some (u, False) \<and> length c = CONN_ID_BYTES \<and>
        list_all (\<lambda>x. of_char x < (128 :: nat)) c) \<and> js_wf (he_clients h) \<and>
     (\<exists>seen live. mux_state (home_view (he_socket h) os) = Some (seen, live) \<and> seen \<subseteq> ids \<and>
        (\<forall>c. js_get (he_clients h) c \<noteq> None \<longrightarrow> c \<in> live))"

definition relay_inv :: "relay \<Rightarrow> owners \<Rightarrow> string set \<Rightarrow> bool" where
  "relay_inv r owner ids \<longleftrightarrow>
     (\<forall>u h. js_get (rl_homes r) u = Some h \<longrightarrow> home_ok (rl_out r) owner ids u h) \<and>
     (\<forall>s. owner s = None \<longrightarrow> home_view s (rl_out r) = [])"

text \<open>A step adds outputs and changes one account's home; the others' views stay as they are.\<close>

lemma home_ok_frame:
  assumes "home_ok os owner ids u h" "home_view (he_socket h) ps = []"
    "\<And>s x. owner s = Some x \<Longrightarrow> owner' s = Some x" "ids \<subseteq> ids'"
  shows "home_ok (os @ ps) owner' ids' u h"
proof -
  obtain seen live where m: "mux_state (home_view (he_socket h) os) = Some (seen, live)" "seen \<subseteq> ids"
    "\<forall>c. js_get (he_clients h) c \<noteq> None \<longrightarrow> c \<in> live"
    using assms(1) unfolding home_ok_def by blast
  have v: "home_view (he_socket h) (os @ ps) = home_view (he_socket h) os" by (simp only: home_view_append assms(2) append_Nil2)
  have "\<exists>seen live. mux_state (home_view (he_socket h) (os @ ps)) = Some (seen, live) \<and> seen \<subseteq> ids' \<and>
      (\<forall>c. js_get (he_clients h) c \<noteq> None \<longrightarrow> c \<in> live)"
    unfolding v using m assms(4) by blast
  then show ?thesis using assms(1,3) unfolding home_ok_def by blast
qed

lemma client_socket: "js_get cs c = Some s \<Longrightarrow> s \<in> snd ` set cs"
  by (metis image_eqI map_of_SomeD snd_conv)

lemma close_clients_view: "home_view s (close_clients h) = []"
  unfolding close_clients_def by (rule home_view_closes)

lemma closes_view [simp]: "home_view s [CloseSocket x n m] = []"
  by (simp add: home_view_def)

lemma relay_inv_step:
  assumes "relay_inv r owner ids" "rl_out r' = rl_out r @ ps"
    "\<And>v. v \<noteq> u \<Longrightarrow> js_get (rl_homes r') v = js_get (rl_homes r) v"
    "\<And>s x. owner s = Some x \<Longrightarrow> owner' s = Some x" "ids \<subseteq> ids'"
    "\<And>s. home_view s ps \<noteq> [] \<Longrightarrow> \<exists>b. owner' s = Some (u, b)"
    "\<And>h. js_get (rl_homes r') u = Some h \<Longrightarrow> home_ok (rl_out r @ ps) owner' ids' u h"
  shows "relay_inv r' owner' ids'"
proof -
  have "home_ok (rl_out r') owner' ids' v h" if h: "js_get (rl_homes r') v = Some h" for v h
  proof (cases "v = u")
    case True
    then show ?thesis using assms(2,7) h by simp
  next
    case False
    then have o: "home_ok (rl_out r) owner ids v h" using assms(1,3) h by (simp add: relay_inv_def)
    then have "owner' (he_socket h) = Some (v, True)" using assms(4) by (simp add: home_ok_def)
    then have "home_view (he_socket h) ps = []" using assms(6) False by fastforce
    then show ?thesis unfolding assms(2) by (rule home_ok_frame[OF o]) (use assms(4,5) in simp_all)
  qed
  moreover have "home_view s (rl_out r') = []" if "owner' s = None" for s
  proof -
    have "owner s = None" using assms(4) that by (cases "owner s") auto
    then show ?thesis using assms(1,2,6) that by (fastforce simp: relay_inv_def)
  qed
  ultimately show ?thesis unfolding relay_inv_def by blast
qed

lemma relay_inv_idle:
  assumes "relay_inv r owner ids"
  shows "relay_inv (relay_emit [CloseSocket s n m] r) owner ids"
proof (rule relay_inv_step[OF assms, where u = "[]" and ps = "[CloseSocket s n m]"])
  fix h assume "js_get (rl_homes (relay_emit [CloseSocket s n m] r)) [] = Some h"
  then have "home_ok (rl_out r) owner ids [] h" using assms by (simp add: relay_emit_def relay_inv_def)
  then show "home_ok (rl_out r @ [CloseSocket s n m]) owner ids [] h"
    by (rule home_ok_frame) simp_all
qed (simp_all add: relay_emit_def)

lemma inv_home: "relay_inv r owner ids \<Longrightarrow> js_get (rl_homes r) u = Some h \<Longrightarrow> home_ok (rl_out r) owner ids u h"
  by (simp add: relay_inv_def)

lemma attachHome_inv:
  assumes "relay_inv r owner ids" "owner s = None"
  shows "relay_inv (attachHome u s r) (owner(s \<mapsto> (u, True))) ids"
proof (rule relay_inv_step[OF assms(1), where u = u])
  let ?ps = "case js_get (rl_homes r) u of None \<Rightarrow> []
    | Some h \<Rightarrow> close_clients h @ [CloseSocket (he_socket h) CLOSE_REPLACED ''replaced'']"
  show "rl_out (attachHome u s r) = rl_out r @ ?ps"
    by (simp add: attachHome_def relay_emit_def Let_def split: option.split)
  have v: "home_view x ?ps = []" for x by (simp add: close_clients_view split: option.split)
  then show "home_view x ?ps \<noteq> [] \<Longrightarrow> \<exists>b. (owner(s \<mapsto> (u, True))) x = Some (u, b)" for x by simp
  fix h assume h: "js_get (rl_homes (attachHome u s r)) u = Some h"
  then have "h = \<lparr>he_socket = s, he_clients = []\<rparr>"
    by (simp add: attachHome_def relay_emit_def Let_def split: option.splits)
  moreover have "home_view s (rl_out r) = []" using assms by (simp add: relay_inv_def)
  ultimately show "home_ok (rl_out r @ ?ps) (owner(s \<mapsto> (u, True))) ids u h"
    using v by (simp add: home_ok_def mux_state_def)
qed (use assms(2) in \<open>auto simp: attachHome_def relay_emit_def Let_def split: option.split\<close>)

lemma detachHome_inv:
  assumes "relay_inv r owner ids"
  shows "relay_inv (detachHome u s r) owner ids"
proof (cases "js_get (rl_homes r) u")
  case None
  then show ?thesis using assms by (simp add: detachHome_def)
next
  case (Some h)
  show ?thesis
  proof (cases "he_socket h = s")
    case True
    show ?thesis
      by (rule relay_inv_step[OF assms, where u = u and ps = "close_clients h"])
        (use Some True in \<open>simp_all add: detachHome_def relay_emit_def close_clients_view\<close>)
  next
    case False
    then show ?thesis using assms Some by (simp add: detachHome_def)
  qed
qed

text \<open>A home whose clients shrink, with nothing or a close sent to it.\<close>

lemma home_ok_drop:
  assumes "home_ok os owner ids u h" "js_get (he_clients h) c \<noteq> None"
    "ps = [] \<or> ps = [SendControl (he_socket h) (CloseConn c)] \<or> ps = [CloseSocket x n m]"
  shows "home_ok (os @ ps) owner ids u (h\<lparr>he_clients := js_del (he_clients h) c\<rparr>)"
proof -
  obtain seen live where m: "mux_state (home_view (he_socket h) os) = Some (seen, live)" "seen \<subseteq> ids"
    "\<forall>c. js_get (he_clients h) c \<noteq> None \<longrightarrow> c \<in> live"
    using assms(1) unfolding home_ok_def by blast
  have "home_view (he_socket h) ps = [] \<or> home_view (he_socket h) ps = [MuxClose c]"
    using assms(3) by (auto simp: home_view_def)
  then have "mux_state (home_view (he_socket h) (os @ ps)) \<in> {Some (seen, live), Some (seen, live - {c})}"
    using m assms(2) by (auto simp: mux_state_def)
  then have "\<exists>seen live. mux_state (home_view (he_socket h) (os @ ps)) = Some (seen, live) \<and> seen \<subseteq> ids \<and>
      (\<forall>d. js_get (js_del (he_clients h) c) d \<noteq> None \<longrightarrow> d \<in> live)"
    using m by auto
  then show ?thesis using assms(1) by (auto simp: home_ok_def)
qed

lemma drop_client_inv:
  assumes "relay_inv r owner ids" "js_get (rl_homes r) u = Some h" "js_get (he_clients h) c = Some s"
    "ps = [SendControl (he_socket h) (CloseConn c)] \<or> ps = [CloseSocket x n m]"
  shows "relay_inv (relay_emit ps (set_clients u h (js_del (he_clients h) c) r)) owner ids"
proof (rule relay_inv_step[OF assms(1), where u = u])
  note o = inv_home[OF assms(1,2)]
  show "rl_out (relay_emit ps (set_clients u h (js_del (he_clients h) c) r)) = rl_out r @ ps"
    by (simp add: relay_emit_def set_clients_def)
  show "home_view y ps \<noteq> [] \<Longrightarrow> \<exists>b. owner y = Some (u, b)" for y
    using o assms(4) by (auto simp: home_ok_def home_view_def split: if_splits)
  fix h' assume "js_get (rl_homes (relay_emit ps (set_clients u h (js_del (he_clients h) c) r))) u = Some h'"
  then have "h' = h\<lparr>he_clients := js_del (he_clients h) c\<rparr>" by (simp add: relay_emit_def set_clients_def)
  then show "home_ok (rl_out r @ ps) owner ids u h'" using home_ok_drop[OF o, of c ps x n m] assms(3,4) by auto
qed (simp_all add: relay_emit_def set_clients_def)

lemma attachClient_inv:
  assumes "relay_inv r owner ids" "fresh (AwayUp u s c) owner ids" "js_get (rl_homes r) u = Some h"
  shows "relay_inv (snd (attachClient c u s r)) (owner(s \<mapsto> (u, False))) (insert c ids)"
proof (rule relay_inv_step[OF assms(1), where u = u])
  note o = inv_home[OF assms(1,3)]
  let ?ps = "[SendControl (he_socket h) (OpenConn c)]"
  have v: "home_view y ?ps = (if y = he_socket h then [MuxOpen c] else [])" for y by (simp add: home_view_def)
  show "rl_out (snd (attachClient c u s r)) = rl_out r @ ?ps"
    using assms(3) by (simp add: attachClient_def relay_emit_def set_clients_def)
  have hs: "owner (he_socket h) = Some (u, True)" "he_socket h \<noteq> s" using o assms(2) by (auto simp: home_ok_def)
  then show "home_view y ?ps \<noteq> [] \<Longrightarrow> \<exists>b. (owner(s \<mapsto> (u, False))) y = Some (u, b)" for y
    by (auto simp: v split: if_splits)
  fix h' assume "js_get (rl_homes (snd (attachClient c u s r))) u = Some h'"
  then have h': "h' = h\<lparr>he_clients := js_set (he_clients h) c s\<rparr>"
    using assms(3) by (simp add: attachClient_def relay_emit_def set_clients_def)
  obtain seen live where m: "mux_state (home_view (he_socket h) (rl_out r)) = Some (seen, live)" "seen \<subseteq> ids"
    "\<forall>c. js_get (he_clients h) c \<noteq> None \<longrightarrow> c \<in> live"
    using o unfolding home_ok_def by blast
  have "c \<notin> seen" using m(2) assms(2) by auto
  then have "mux_state (home_view (he_socket h) (rl_out r @ ?ps)) = Some (insert c seen, insert c live)"
    using m(1) by (simp add: v mux_state_def)
  moreover have "\<forall>d. js_get (js_set (he_clients h) c s) d \<noteq> None \<longrightarrow> d \<in> insert c live" using m(3) by auto
  ultimately have "\<exists>seen live. mux_state (home_view (he_socket h) (rl_out r @ ?ps)) = Some (seen, live) \<and>
      seen \<subseteq> insert c ids \<and> (\<forall>d. js_get (js_set (he_clients h) c s) d \<noteq> None \<longrightarrow> d \<in> live)"
    using m(2) by blast
  moreover have "js_wf (js_set (he_clients h) c s)" using o by (auto simp: home_ok_def)
  moreover have "owner y \<noteq> Some z \<or> y \<noteq> s" for y z using assms(2) by auto
  ultimately show "home_ok (rl_out r @ ?ps) (owner(s \<mapsto> (u, False))) (insert c ids) u h'"
    using o hs assms(2) unfolding h' by (auto simp: home_ok_def)
qed (use assms(2,3) in \<open>auto simp: attachClient_def relay_emit_def set_clients_def\<close>)

lemma send_inv:
  assumes "relay_inv r owner ids" "js_get (rl_homes r) u = Some h"
    "(\<exists>c. x = he_socket h \<and> js_get (he_clients h) c \<noteq> None \<and> bs = ascii_bytes c @ bytes) \<or> owner x = Some (u, False)"
  shows "relay_inv (relay_emit [SendBytes x bs] r) owner ids"
proof (rule relay_inv_step[OF assms(1), where u = u])
  note o = inv_home[OF assms(1,2)]
  show "home_view y [SendBytes x bs] \<noteq> [] \<Longrightarrow> \<exists>b. owner y = Some (u, b)" for y
    using o assms(3) by (auto simp: home_view_def home_ok_def split: if_splits)
  fix h' assume "js_get (rl_homes (relay_emit [SendBytes x bs] r)) u = Some h'"
  then have h': "h' = h" using assms(2) by (simp add: relay_emit_def)
  obtain seen live where m: "mux_state (home_view (he_socket h) (rl_out r)) = Some (seen, live)" "seen \<subseteq> ids"
    "\<forall>c. js_get (he_clients h) c \<noteq> None \<longrightarrow> c \<in> live"
    using o unfolding home_ok_def by blast
  have "mux_state (home_view (he_socket h) (rl_out r @ [SendBytes x bs])) = Some (seen, live)"
    using assms(3)
  proof
    assume "\<exists>c. x = he_socket h \<and> js_get (he_clients h) c \<noteq> None \<and> bs = ascii_bytes c @ bytes"
    then obtain c s where c: "x = he_socket h" "js_get (he_clients h) c = Some s" "bs = ascii_bytes c @ bytes" by auto
    then have "length c = CONN_ID_BYTES" "ascii_text (ascii_bytes c) = c"
      using o ascii_round unfolding home_ok_def by blast+
    moreover have "length (ascii_bytes c) = length c" by (simp add: ascii_bytes_def)
    ultimately have "home_view (he_socket h) [SendBytes x bs] = [MuxFrame c bytes]"
      using c(1,3) by (simp add: home_view_def)
    then show ?thesis using m c(2) by (simp add: mux_state_def)
  next
    assume "owner x = Some (u, False)"
    then have "x \<noteq> he_socket h" using o by (auto simp: home_ok_def)
    then show ?thesis using m(1) by (simp add: home_view_def)
  qed
  then show "home_ok (rl_out r @ [SendBytes x bs]) owner ids u h'"
    using o m(2,3) unfolding h' home_ok_def by blast
qed (simp_all add: relay_emit_def)

lemma homeText_inv: "relay_inv r owner ids \<Longrightarrow> homeText u j r = Inr r' \<Longrightarrow> relay_inv r' owner ids"
  using drop_client_inv[of r owner ids u]
  by (auto simp: homeText_def split: option.splits sum.splits prod.splits json.splits if_splits)

lemma relay_step_inv:
  assumes "relay_inv r owner ids" "fresh e owner ids" "relay_step r e = Inr r'"
  shows "relay_inv r' (names e owner) (gives e ids)"
proof (cases e)
  case (HomeUp u s)
  then show ?thesis using assms attachHome_inv by auto
next
  case (HomeDown u s)
  then show ?thesis using assms detachHome_inv by auto
next
  case (HomeSays u j)
  then show ?thesis using assms homeText_inv by auto
next
  case (HomeSends u bs)
  have "owner s = Some (u, False)" if "js_get (rl_homes r) u = Some h" "js_get (he_clients h) c = Some s" for h c s
    using inv_home[OF assms(1) that(1)] that(2) unfolding home_ok_def by blast
  then show ?thesis
    using assms send_inv[OF assms(1)] HomeSends by (auto simp: homeFrame_def split: option.splits if_splits)
next
  case (AwayUp u s c)
  show ?thesis
  proof (cases "js_get (rl_homes r) u")
    case None
    have "relay_inv r (owner(s \<mapsto> (u, False))) (insert c ids)"
      by (rule relay_inv_step[OF assms(1), where u = u and ps = "[]"]) (use assms(2) AwayUp None in auto)
    then show ?thesis using assms(3) AwayUp None relay_inv_idle by (auto simp: attachClient_def)
  next
    case (Some h)
    then show ?thesis using assms AwayUp attachClient_inv by auto
  qed
next
  case (AwaySends u c bs)
  have "relay_inv (relay_emit [SendBytes (he_socket h) (ascii_bytes c @ bs)] r) owner ids"
    if "js_get (rl_homes r) u = Some h" "js_get (he_clients h) c \<noteq> None" for h
    by (rule send_inv[OF assms(1) that(1)]) (use that(2) in blast)
  then show ?thesis
    using assms AwaySends by (auto simp: clientMessage_def split: option.splits if_splits)
next
  case (AwayDown u c)
  then show ?thesis
    using assms drop_client_inv[OF assms(1)] by (auto simp: detachClient_def split: option.splits if_splits)
qed

lemma relay_reach_inv: "relay_reach r owner ids \<Longrightarrow> relay_inv r owner ids"
proof (induction rule: relay_reach.induct)
  case relay_start
  then show ?case by (simp add: relay_inv_def new_relay_def)
next
  case (relay_next r owner ids e r')
  then show ?case by (blast intro: relay_step_inv)
qed

section \<open>Properties\<close>

lemma homeText_outputs:
  "homeText u j r = Inr r' \<Longrightarrow> rl_out r' = rl_out r \<or>
   (\<exists>h c s. js_get (rl_homes r) u = Some h \<and> js_get (he_clients h) c = Some s \<and>
      rl_out r' = rl_out r @ [CloseSocket s 1000 ''closed by home''])"
  by (auto simp: homeText_def relay_emit_def set_clients_def split: option.splits sum.splits prod.splits json.splits if_splits)

lemma close_clients_owned:
  "home_ok os owner ids u h \<Longrightarrow> x \<in> set (close_clients h) \<Longrightarrow> owner (out_socket x) = Some (u, False)"
  using js_wf_get[of "he_clients h"] by (force simp: close_clients_def home_ok_def)

text \<open>
  C37. The relay keeps accounts apart: whatever happened before, everything an event makes the relay
  send or close goes to sockets attached for the account of the event.
\<close>

theorem relay_keeps_accounts_apart:
  assumes "relay_reach r owner ids" "fresh e owner ids" "relay_step r e = Inr r'"
  shows "\<exists>os. rl_out r' = rl_out r @ os \<and>
    list_all (\<lambda>x. map_option fst (names e owner (out_socket x)) = Some (event_user e)) os"
proof -
  have ok: "js_get (rl_homes r) u = Some h \<Longrightarrow> home_ok (rl_out r) owner ids u h" for u h
    using inv_home relay_reach_inv[OF assms(1)] by blast
  then have cl: "js_get (rl_homes r) u = Some h \<Longrightarrow> js_get (he_clients h) c = Some s \<Longrightarrow> owner s = Some (u, False)" for u h c s
    unfolding home_ok_def by blast
  have hs: "js_get (rl_homes r) u = Some h \<Longrightarrow> owner (he_socket h) = Some (u, True)" for u h
    using ok unfolding home_ok_def by blast
  have cc: "js_get (rl_homes r) u = Some h \<Longrightarrow> x \<in> set (close_clients h) \<Longrightarrow> owner (out_socket x) = Some (u, False)" for u h x
    using ok close_clients_owned by blast
  show ?thesis
  proof (cases e)
    case (HomeUp u s)
    have n: "names e owner y = Some z" if "owner y = Some z" for y z using that assms(2) HomeUp by auto
    show ?thesis
    proof (cases "js_get (rl_homes r) u")
      case None
      then show ?thesis using assms(3) HomeUp by (auto simp: attachHome_def Let_def)
    next
      case (Some h)
      let ?os = "close_clients h @ [CloseSocket (he_socket h) CLOSE_REPLACED ''replaced'']"
      have "rl_out r' = rl_out r @ ?os" using assms(3) HomeUp Some by (auto simp: attachHome_def relay_emit_def Let_def)
      moreover have "list_all (\<lambda>x. map_option fst (names e owner (out_socket x)) = Some u) ?os"
        using n[OF cc[OF Some]] n[OF hs[OF Some]] by (simp add: list_all_iff) blast
      ultimately show ?thesis using HomeUp unfolding event_user.simps HomeUp by blast
    qed
  next
    case (HomeDown u s)
    show ?thesis
    proof (cases "\<exists>h. js_get (rl_homes r) u = Some h \<and> he_socket h = s")
      case True
      then obtain h where h: "js_get (rl_homes r) u = Some h" "he_socket h = s" by blast
      then have "rl_out r' = rl_out r @ close_clients h" using assms(3) HomeDown by (auto simp: detachHome_def relay_emit_def)
      moreover have "list_all (\<lambda>x. map_option fst (names e owner (out_socket x)) = Some u) (close_clients h)"
        using cc[OF h(1)] HomeDown by (simp add: list_all_iff) blast
      ultimately show ?thesis unfolding HomeDown event_user.simps by blast
    next
      case False
      then have "r' = r" using assms(3) HomeDown by (auto simp: detachHome_def split: option.splits if_splits)
      then show ?thesis by simp
    qed
  next
    case (HomeSays u j)
    then show ?thesis using assms(3) homeText_outputs[of u j r r'] cl by fastforce
  next
    case (HomeSends u bs)
    then show ?thesis
      using assms(3) cl by (fastforce simp: homeFrame_def relay_emit_def split: option.splits if_splits)
  next
    case (AwayUp u s c)
    have "y \<noteq> s" if "owner y = Some z" for y z using that assms(2) AwayUp by auto
    then show ?thesis
      using assms(3) AwayUp hs by (fastforce simp: attachClient_def relay_emit_def set_clients_def split: option.splits)
  next
    case (AwaySends u c bs)
    then show ?thesis
      using assms(3) hs by (fastforce simp: clientMessage_def relay_emit_def split: option.splits if_splits)
  next
    case (AwayDown u c)
    then show ?thesis
      using assms(3) hs by (fastforce simp: detachClient_def relay_emit_def set_clients_def split: option.splits if_splits)
  qed
qed


text \<open>
  A home whose control text is \<open>null\<close> raises an exception in the relay: the text parses, and the
  read of its member throws outside the handler for malformed text.
\<close>

theorem null_control_throws:
  assumes "homeOnline u r"
  shows "\<exists>e. homeText u (Some JNull) r = Inl e"
  using assms by (auto simp: homeText_def homeOnline_def)

section \<open>Witnesses\<close>

definition example_relay :: relay where
  "example_relay = snd (attachClient ''0123abcd'' ''u'' ''a'' (attachHome ''u'' ''h'' new_relay))"

lemma example_relay_reach:
  "relay_reach example_relay ((\<lambda>s. None)(''h'' \<mapsto> (''u'', True), ''a'' \<mapsto> (''u'', False))) {''0123abcd''}"
proof -
  have "relay_reach (attachHome ''u'' ''h'' new_relay) ((\<lambda>s. None)(''h'' \<mapsto> (''u'', True))) {}"
    using relay_next[OF relay_start, of "HomeUp ''u'' ''h''"] by simp
  from relay_next[OF this, of "AwayUp ''u'' ''a'' ''0123abcd''"]
  show ?thesis by (simp add: example_relay_def CONN_ID_BYTES_def)
qed

lemma relay_keeps_accounts_apart_witness:
  "\<exists>os. rl_out (clientMessage ''u'' ''0123abcd'' [7] example_relay) = rl_out example_relay @ os \<and>
     list_all (\<lambda>x. map_option fst (((\<lambda>s. None)(''h'' \<mapsto> (''u'', True), ''a'' \<mapsto> (''u'', False))) (out_socket x)) = Some ''u'') os"
  using relay_keeps_accounts_apart[OF example_relay_reach, of "AwaySends ''u'' ''0123abcd'' [7]"] by simp


lemma null_control_throws_witness: "\<exists>e. homeText ''u'' (Some JNull) example_relay = Inl e"
  by (rule null_control_throws) (simp add: homeOnline_def example_relay_def attachHome_def attachClient_def new_relay_def
      relay_emit_def set_clients_def)

end
