(* ===== verification/Workspace.thy ===== *)
theory Workspace
  imports Cookie Egress
begin

text \<open>
  The documents a workspace is synchronized by (packages/protocol/src/workspace.ts) and the merge
  decision of the desktop (apps/desktop/src/main/sync/workspace-map.ts).  A number of the
  documents is an integer.  A register map is a plain object: an association list in insertion
  order, none of whose keys is a member every object inherits.
\<close>

section \<open>Documents\<close>

datatype WorkspaceScope = ScopeGlobal | ScopeDeviceLocal

record SpaceMeta =
  sp_id :: string
  sp_name :: string
  sp_color :: string
  sp_icon :: "string option"
  sp_position :: int
  sp_egressPolicy :: EgressPolicy
  sp_createdAtMs :: int

record PinnedTab =
  pin_id :: string
  pin_spaceId :: string
  pin_url :: string
  pin_title :: string
  pin_faviconUrl :: "string option"
  pin_position :: int

record SyncedTabPresence =
  tp_id :: string
  tp_spaceId :: string
  tp_createdAtMs :: int

record SyncedTabUrl =
  tu_tabId :: string
  tu_url :: string

record SyncedTabOrder =
  to_tabId :: string
  to_spaceId :: string
  to_rank :: string

record SyncedDeviceActivity =
  da_deviceId :: string
  da_identityDeviceId :: string
  da_controlDeviceId :: "string option"
  da_name :: string
  da_platform :: string
  da_updatedAtMs :: int

record SyncedWorkspaceFocus =
  wf_activeSpaceId :: "string option"
  wf_activeTabId :: "string option"
  wf_splitTabId :: "string option"

record ArchivedTab =
  ar_id :: string
  ar_spaceId :: string
  ar_url :: string
  ar_title :: string
  ar_archivedAtMs :: int

datatype KeyMode = E2ee | SumaManaged

record WorkspaceSettings =
  se_historySyncEnabled :: bool
  se_autoArchiveAfterHours :: int
  se_keyMode :: KeyMode
  se_newTabUrl :: string

definition DEFAULT_WORKSPACE_SETTINGS :: WorkspaceSettings where
  "DEFAULT_WORKSPACE_SETTINGS =
     \<lparr>se_historySyncEnabled = False, se_autoArchiveAfterHours = 12, se_keyMode = E2ee,
      se_newTabUrl = ''https://www.google.com''\<rparr>"

record HistoryVisit =
  hv_id :: string
  hv_url :: string
  hv_title :: string
  hv_atMs :: int

definition HISTORY_RETENTION_MS :: int where
  "HISTORY_RETENTION_MS = 90 * 24 * 60 * 60 * 1000"

definition HISTORY_MAX_VISITS :: nat where
  "HISTORY_MAX_VISITS = 2000"

datatype WorkspaceSettingsField = FieldHistorySync | FieldAutoArchive | FieldKeyMode | FieldNewTabUrl

datatype WorkspaceSettingsDoc = HistorySync bool | AutoArchive int | KeyModeDoc KeyMode | NewTabUrl string

datatype WorkspaceDoc =
    SpaceDoc SpaceMeta
  | SpaceFolderDoc string string
  | PinDoc PinnedTab
  | TabPresenceDoc SyncedTabPresence
  | TabUrlDoc SyncedTabUrl
  | TabOrderDoc SyncedTabOrder
  | WorkspaceFocusDoc SyncedWorkspaceFocus
  | DeviceActivityDoc SyncedDeviceActivity
  | ArchiveDoc ArchivedTab
  | HistoryDoc HistoryVisit
  | SettingsDoc WorkspaceSettingsDoc

fun settings_field :: "WorkspaceSettingsDoc \<Rightarrow> WorkspaceSettingsField" where
  "settings_field (HistorySync _) = FieldHistorySync"
| "settings_field (AutoArchive _) = FieldAutoArchive"
| "settings_field (KeyModeDoc _) = FieldKeyMode"
| "settings_field (NewTabUrl _) = FieldNewTabUrl"

fun field_text :: "WorkspaceSettingsField \<Rightarrow> string" where
  "field_text FieldHistorySync = ''historySync''"
| "field_text FieldAutoArchive = ''autoArchive''"
| "field_text FieldKeyMode = ''keyMode''"
| "field_text FieldNewTabUrl = ''newTabUrl''"

text \<open>The keys, by the entity they name.\<close>

abbreviation space_key :: "string \<Rightarrow> string" where "space_key i \<equiv> ''space:'' @ i"
abbreviation folder_key :: "string \<Rightarrow> string" where "folder_key i \<equiv> ''spaceFolder:'' @ i"
abbreviation pin_key :: "string \<Rightarrow> string" where "pin_key i \<equiv> ''pin:'' @ i"
abbreviation presence_key :: "string \<Rightarrow> string" where "presence_key i \<equiv> ''tab:'' @ i @ '':presence''"
abbreviation url_key :: "string \<Rightarrow> string" where "url_key i \<equiv> ''tab:'' @ i @ '':url''"
abbreviation order_key :: "string \<Rightarrow> string" where "order_key i \<equiv> ''tab:'' @ i @ '':order''"
abbreviation focus_key :: string where "focus_key \<equiv> ''workspace:focus''"
abbreviation activity_key :: "string \<Rightarrow> string" where "activity_key i \<equiv> ''device:'' @ i @ '':activity''"
abbreviation archive_key :: "string \<Rightarrow> string" where "archive_key i \<equiv> ''archive:'' @ i"
abbreviation history_key :: "string \<Rightarrow> string" where "history_key i \<equiv> ''history:'' @ i"
abbreviation setting_key :: "WorkspaceSettingsField \<Rightarrow> string" where
  "setting_key f \<equiv> ''settings:'' @ field_text f"

fun workspaceKeyFor :: "WorkspaceDoc \<Rightarrow> string" where
  "workspaceKeyFor (SpaceDoc s) = space_key (sp_id s)"
| "workspaceKeyFor (SpaceFolderDoc spaceId folder) = folder_key spaceId"
| "workspaceKeyFor (PinDoc p) = pin_key (pin_id p)"
| "workspaceKeyFor (TabPresenceDoc t) = presence_key (tp_id t)"
| "workspaceKeyFor (TabUrlDoc t) = url_key (tu_tabId t)"
| "workspaceKeyFor (TabOrderDoc t) = order_key (to_tabId t)"
| "workspaceKeyFor (WorkspaceFocusDoc f) = focus_key"
| "workspaceKeyFor (DeviceActivityDoc a) = activity_key (da_deviceId a)"
| "workspaceKeyFor (ArchiveDoc a) = archive_key (ar_id a)"
| "workspaceKeyFor (HistoryDoc v) = history_key (hv_id v)"
| "workspaceKeyFor (SettingsDoc d) = setting_key (settings_field d)"

definition settingsDocs :: "WorkspaceSettings \<Rightarrow> WorkspaceSettingsDoc list" where
  "settingsDocs settings =
     [HistorySync (se_historySyncEnabled settings),
      AutoArchive (se_autoArchiveAfterHours settings),
      KeyModeDoc (se_keyMode settings),
      NewTabUrl (se_newTabUrl settings)]"

fun applySettingsDoc :: "WorkspaceSettings \<Rightarrow> WorkspaceSettingsDoc \<Rightarrow> WorkspaceSettings" where
  "applySettingsDoc settings (HistorySync b) = settings\<lparr>se_historySyncEnabled := b\<rparr>"
| "applySettingsDoc settings (AutoArchive n) = settings\<lparr>se_autoArchiveAfterHours := n\<rparr>"
| "applySettingsDoc settings (KeyModeDoc m) = settings\<lparr>se_keyMode := m\<rparr>"
| "applySettingsDoc settings (NewTabUrl u) = settings\<lparr>se_newTabUrl := u\<rparr>"

section \<open>Registers and their merge\<close>

record 'v LwwRegister =
  lw_value :: "'v option"
  lw_hlc :: hlc

definition mergeLww :: "'v LwwRegister option \<Rightarrow> 'v LwwRegister \<Rightarrow> 'v LwwRegister" where
  "mergeLww current incoming =
     (case current of
        None \<Rightarrow> incoming
      | Some c \<Rightarrow> if compareHlc (lw_hlc incoming) (lw_hlc c) > 0 then incoming else c)"

type_synonym WorkspaceRegister = "WorkspaceDoc LwwRegister"

type_synonym registers = "(string, WorkspaceRegister) js_map"

definition WORKSPACE_PSEUDO_SPACE_ID :: string where
  "WORKSPACE_PSEUDO_SPACE_ID = ''__workspace__''"

definition SEAL_AAD_DOMAIN :: string where "SEAL_AAD_DOMAIN = ''suma.workspace.seal.v1''"

definition SIG_DOMAIN :: string where "SIG_DOMAIN = ''suma.workspacesig.v1''"

definition workspaceSealAad :: "string \<Rightarrow> byte list" where
  "workspaceSealAad key = lengthPrefixed (map PStr [SEAL_AAD_DOMAIN, key])"

definition workspaceSigningBytes :: "string \<Rightarrow> string option \<Rightarrow> hlc \<Rightarrow> byte list" where
  "workspaceSigningBytes key sealedValue h =
     lengthPrefixed (map PStr
       [SIG_DOMAIN, key, (case sealedValue of None \<Rightarrow> '''' | Some v \<Rightarrow> v), encodeHlc h])"

record GlobalWorkspaceState =
  gw_spaces :: "SpaceMeta list"
  gw_pins :: "PinnedTab list"
  gw_archives :: "ArchivedTab list"
  gw_settings :: WorkspaceSettings

definition docsForState :: "GlobalWorkspaceState \<Rightarrow> WorkspaceDoc list" where
  "docsForState state =
     map SpaceDoc (gw_spaces state) @ map PinDoc (gw_pins state) @
     map ArchiveDoc (gw_archives state) @ map SettingsDoc (settingsDocs (gw_settings state))"

record IncomingWorkspaceDoc =
  in_key :: string
  in_value :: "WorkspaceDoc option"
  in_hlc :: hlc

record MergeDecision =
  md_apply :: "IncomingWorkspaceDoc list"
  md_adoptHlc :: "IncomingWorkspaceDoc list"

text \<open>
  \<open>JSON.stringify\<close> of documents built by the same code, with the members in the same order, is
  equal for equal documents only.
\<close>

definition docValueEquals :: "WorkspaceDoc option \<Rightarrow> WorkspaceDoc option \<Rightarrow> bool" where
  "docValueEquals a b \<longleftrightarrow> a = b"

text \<open>
  What one document is decided to be, against the registers as they are before the batch.  The
  code asks whether \<open>mergeLww\<close> returned the incoming object itself.
\<close>

definition incoming_wins :: "'v LwwRegister option \<Rightarrow> 'v LwwRegister \<Rightarrow> bool" where
  "incoming_wins current incoming \<longleftrightarrow>
     (case current of None \<Rightarrow> True | Some c \<Rightarrow> compareHlc (lw_hlc incoming) (lw_hlc c) > 0)"

definition incoming_register :: "IncomingWorkspaceDoc \<Rightarrow> WorkspaceRegister" where
  "incoming_register d = \<lparr>lw_value = in_value d, lw_hlc = in_hlc d\<rparr>"

datatype merge_verdict = MergeApply | MergeAdopt | MergeSkip

definition merge_verdict_of :: "registers \<Rightarrow> IncomingWorkspaceDoc \<Rightarrow> merge_verdict" where
  "merge_verdict_of local_regs d =
     (case js_get local_regs (in_key d) of
        None \<Rightarrow> MergeApply
      | Some current \<Rightarrow>
          if \<not> incoming_wins (Some current) (incoming_register d) then MergeSkip
          else if docValueEquals (lw_value current) (in_value d) then MergeAdopt
          else MergeApply)"

definition decideMerge :: "registers \<Rightarrow> IncomingWorkspaceDoc list \<Rightarrow> MergeDecision" where
  "decideMerge local_regs incoming =
     \<lparr>md_apply = filter (\<lambda>d. merge_verdict_of local_regs d = MergeApply) incoming,
      md_adoptHlc = filter (\<lambda>d. merge_verdict_of local_regs d = MergeAdopt) incoming\<rparr>"

section \<open>Facts\<close>

subsection \<open>A key names one entity\<close>

datatype entity =
    SpaceEntity string | FolderEntity string | PinEntity string | PresenceEntity string
  | UrlEntity string | OrderEntity string | FocusEntity | ActivityEntity string
  | ArchiveEntity string | HistoryEntity string | SettingEntity WorkspaceSettingsField

fun entity_of :: "WorkspaceDoc \<Rightarrow> entity" where
  "entity_of (SpaceDoc s) = SpaceEntity (sp_id s)"
| "entity_of (SpaceFolderDoc i f) = FolderEntity i"
| "entity_of (PinDoc p) = PinEntity (pin_id p)"
| "entity_of (TabPresenceDoc t) = PresenceEntity (tp_id t)"
| "entity_of (TabUrlDoc t) = UrlEntity (tu_tabId t)"
| "entity_of (TabOrderDoc t) = OrderEntity (to_tabId t)"
| "entity_of (WorkspaceFocusDoc f) = FocusEntity"
| "entity_of (DeviceActivityDoc a) = ActivityEntity (da_deviceId a)"
| "entity_of (ArchiveDoc a) = ArchiveEntity (ar_id a)"
| "entity_of (HistoryDoc v) = HistoryEntity (hv_id v)"
| "entity_of (SettingsDoc d) = SettingEntity (settings_field d)"

fun entity_key :: "entity \<Rightarrow> string" where
  "entity_key (SpaceEntity i) = space_key i"
| "entity_key (FolderEntity i) = folder_key i"
| "entity_key (PinEntity i) = pin_key i"
| "entity_key (PresenceEntity i) = presence_key i"
| "entity_key (UrlEntity i) = url_key i"
| "entity_key (OrderEntity i) = order_key i"
| "entity_key FocusEntity = focus_key"
| "entity_key (ActivityEntity i) = activity_key i"
| "entity_key (ArchiveEntity i) = archive_key i"
| "entity_key (HistoryEntity i) = history_key i"
| "entity_key (SettingEntity f) = setting_key f"

lemma key_of_entity: "workspaceKeyFor d = entity_key (entity_of d)"
  by (cases d) simp_all

lemma append_last_neq: "c \<noteq> d \<Longrightarrow> xs @ [c] \<noteq> ys @ [d]"
  by simp

lemma tab_keys_apart [simp]:
  "i @ '':presence'' \<noteq> j @ '':url''" "i @ '':presence'' \<noteq> j @ '':order''" "i @ '':url'' \<noteq> j @ '':order''"
  "j @ '':url'' \<noteq> i @ '':presence''" "j @ '':order'' \<noteq> i @ '':presence''" "j @ '':order'' \<noteq> i @ '':url''"
  by (auto dest!: arg_cong[where f = last])

lemma field_text_inj: "field_text f = field_text g \<longleftrightarrow> f = g"
  by (cases f; cases g) simp_all

lemma entity_key_inj: "entity_key a = entity_key b \<longleftrightarrow> a = b"
  by (cases a; cases b) (simp_all add: field_text_inj)

subsection \<open>Merging\<close>

definition offer_register :: "'v LwwRegister option \<Rightarrow> 'v LwwRegister \<Rightarrow> 'v LwwRegister option" where
  "offer_register current incoming = Some (mergeLww current incoming)"

interpretation lww_cell: newest_cell lw_hlc offer_register
  by unfold_locales (auto simp: offer_register_def mergeLww_def)

lemma mergeLww_wins: "mergeLww c r = (if incoming_wins c r then r else the c)"
  by (auto simp: mergeLww_def incoming_wins_def split: option.splits)

lemma settings_fold: "foldl applySettingsDoc s (settingsDocs t) = t"
  by (simp add: settingsDocs_def)

lemma settings_docs_commute:
  "settings_field d \<noteq> settings_field e \<Longrightarrow>
   applySettingsDoc (applySettingsDoc s d) e = applySettingsDoc (applySettingsDoc s e) d"
  by (cases d; cases e) simp_all

end
