(* ===== verification/WorkspaceStore.thy ===== *)
theory WorkspaceStore
  imports Workspace
begin

text \<open>
  The persisted workspace of a desktop (apps/desktop/src/main/workspace-store.ts): the file, its
  registers stamped by the clock of the module, every operation on them, and the reading and
  writing of the file.  An operation reads the wall clock once; the debounced write is a flag and a
  step.  The listeners' calls are appended to a log.  \<open>localeCompare\<close> compares the collation
  keys of its arguments, a parameter.  Copies keep the values apart except in one place:
  \<open>updateHistoryVisitTitle\<close> records the visit object of the history itself, so a visit is paired
  with whether the register of its key holds that very object.
\<close>

section \<open>State\<close>

datatype OriginOverrideValue = OverrideSync | OverrideNever

record PermissionGrant =
  pg_origin :: string
  pg_permission :: string
  pg_granted :: bool
  pg_decidedAtMs :: nat

record SignInQueueItem =
  si_domain :: string
  si_label :: string
  si_mode :: string
  si_sensitive :: bool
  si_rank :: int
  si_done :: bool

record DownloadItemInfo =
  dl_id :: string
  dl_spaceId :: string
  dl_url :: string
  dl_filename :: string
  dl_savePath :: string
  dl_state :: string
  dl_receivedBytes :: int
  dl_totalBytes :: int
  dl_startedAtMs :: int
  dl_cloudPath :: "string option"

record StoredSpaceEgress =
  eg_siteBypass :: "string list"
  eg_mediaBypass :: bool
  eg_checkoutBypass :: "bool option"

record DeviceLocalState =
  dv_activeSpaceId :: "string option"
  dv_workspaceAttached :: "bool option"
  dv_manualSyncInitialized :: "bool option"
  dv_manualSyncAccountId :: "string option"
  dv_activeTabBySpace :: "(string, string) js_map"
  dv_todayTabsBySpace :: "(string, string list) js_map"
  dv_realtimeTabsMigratedBySpace :: "(string, bool) js_map"
  dv_splitTabBySpace :: "(string, string) js_map"
  dv_nativeTransportDomains :: "string list"

text \<open>A visit, and whether the register of its key holds the object.\<close>

type_synonym history_cell = "HistoryVisit \<times> bool"

record WorkspaceFile =
  wk_spaces :: "SpaceMeta list"
  wk_pins :: "PinnedTab list"
  wk_archives :: "ArchivedTab list"
  wk_settings :: WorkspaceSettings
  wk_originOverrides :: "(string, OriginOverrideValue) js_map"
  wk_signInQueue :: "SignInQueueItem list"
  wk_permissionGrants :: "PermissionGrant list"
  wk_deviceLocal :: DeviceLocalState
  wk_history :: "history_cell list"
  wk_lww :: registers
  wk_downloads :: "DownloadItemInfo list"
  wk_egress :: "(string, StoredSpaceEgress) js_map"

record SyncedTabState = SyncedTabPresence +
  ts_url :: string
  ts_rank :: string

definition WRITE_DEBOUNCE_MS :: nat where "WRITE_DEBOUNCE_MS = 150"

definition emptyDeviceLocal :: DeviceLocalState where
  "emptyDeviceLocal =
     \<lparr>dv_activeSpaceId = None, dv_workspaceAttached = Some True, dv_manualSyncInitialized = Some False,
      dv_manualSyncAccountId = None, dv_activeTabBySpace = [], dv_todayTabsBySpace = [],
      dv_realtimeTabsMigratedBySpace = [], dv_splitTabBySpace = [], dv_nativeTransportDomains = []\<rparr>"

definition emptyFile :: WorkspaceFile where
  "emptyFile =
     \<lparr>wk_spaces = [], wk_pins = [], wk_archives = [], wk_settings = DEFAULT_WORKSPACE_SETTINGS,
      wk_originOverrides = [], wk_signInQueue = [], wk_permissionGrants = [],
      wk_deviceLocal = emptyDeviceLocal, wk_history = [], wk_lww = [], wk_downloads = [],
      wk_egress = []\<rparr>"

text \<open>What a file holds: its members, each present or not; the text breaks every sharing.\<close>

record PartialSettings =
  ps_historySyncEnabled :: "bool option"
  ps_autoArchiveAfterHours :: "int option"
  ps_keyMode :: "KeyMode option"
  ps_newTabUrl :: "string option"

record PartialDeviceLocal =
  pd_activeSpaceId :: "string option option"
  pd_workspaceAttached :: "bool option"
  pd_manualSyncInitialized :: "bool option"
  pd_manualSyncAccountId :: "string option"
  pd_activeTabBySpace :: "(string, string) js_map option"
  pd_todayTabsBySpace :: "(string, string list) js_map option"
  pd_realtimeTabsMigratedBySpace :: "(string, bool) js_map option"
  pd_splitTabBySpace :: "(string, string) js_map option"
  pd_nativeTransportDomains :: "string list option"

record PartialFile =
  pf_version :: "int option"
  pf_spaces :: "SpaceMeta list option"
  pf_pins :: "PinnedTab list option"
  pf_archives :: "ArchivedTab list option"
  pf_settings :: "PartialSettings option"
  pf_originOverrides :: "(string, OriginOverrideValue) js_map option"
  pf_signInQueue :: "SignInQueueItem list option"
  pf_permissionGrants :: "PermissionGrant list option"
  pf_deviceLocal :: "PartialDeviceLocal option"
  pf_history :: "HistoryVisit list option"
  pf_lww :: "registers option"
  pf_downloads :: "DownloadItemInfo list option"
  pf_egress :: "(string, StoredSpaceEgress) js_map option"

record store =
  st_file :: WorkspaceFile
  st_deviceId :: string
  st_clock :: "hlc_clock option"
  st_timer :: bool
  st_disk :: "PartialFile option"
  st_notified :: "string list list"

definition on_file :: "(WorkspaceFile \<Rightarrow> WorkspaceFile) \<Rightarrow> store \<Rightarrow> store" where
  "on_file f s = s\<lparr>st_file := f (st_file s)\<rparr>"

abbreviation lww_of :: "store \<Rightarrow> registers" where "lww_of s \<equiv> wk_lww (st_file s)"

abbreviation register_at :: "store \<Rightarrow> string \<Rightarrow> WorkspaceRegister option" where
  "register_at s k \<equiv> js_get (lww_of s) k"

text \<open>\<open>lww[key]?.doc\<close>, when it is a document.\<close>

definition doc_at :: "registers \<Rightarrow> string \<Rightarrow> WorkspaceDoc option" where
  "doc_at regs k = Option.bind (js_get regs k) lw_value"

section \<open>Recording\<close>

definition module_clock :: "string \<Rightarrow> store \<Rightarrow> hlc_clock" where
  "module_clock d s = (case st_clock s of None \<Rightarrow> newHlcClock d | Some c \<Rightarrow> c)"

definition stamp :: "nat \<Rightarrow> store \<Rightarrow> hlc \<times> store" where
  "stamp now s =
     (let (h, c) = clock_send now (module_clock (st_deviceId s) s) in (h, s\<lparr>st_clock := Some c\<rparr>))"

definition receiveWorkspaceHlc :: "nat \<Rightarrow> string \<Rightarrow> hlc \<Rightarrow> store \<Rightarrow> store" where
  "receiveWorkspaceHlc now d h s =
     s\<lparr>st_clock := Some (snd (clock_receive now h (module_clock d s)))\<rparr>"

definition resetWorkspaceHlc :: "store \<Rightarrow> store" where
  "resetWorkspaceHlc s = s\<lparr>st_clock := None\<rparr>"

definition scheduleWrite :: "store \<Rightarrow> store" where
  "scheduleWrite s = (if st_timer s then s else s\<lparr>st_timer := True\<rparr>)"

definition notifyDocs :: "string list \<Rightarrow> store \<Rightarrow> store" where
  "notifyDocs keys s = s\<lparr>st_notified := st_notified s @ [keys]\<rparr>"

text \<open>A register replaced no longer holds the object of a visit.\<close>

definition unshare :: "string \<Rightarrow> history_cell list \<Rightarrow> history_cell list" where
  "unshare key hs = map (\<lambda>(v, sh). (v, sh \<and> history_key (hv_id v) \<noteq> key)) hs"

definition put_register :: "string \<Rightarrow> WorkspaceRegister \<Rightarrow> WorkspaceFile \<Rightarrow> WorkspaceFile" where
  "put_register key r f = f\<lparr>wk_lww := js_set (wk_lww f) key r, wk_history := unshare key (wk_history f)\<rparr>"

definition stamped_put :: "nat \<Rightarrow> string \<Rightarrow> WorkspaceDoc option \<Rightarrow> store \<Rightarrow> store" where
  "stamped_put now key d s =
     (let (h, s1) = stamp now s in on_file (put_register key \<lparr>lw_value = d, lw_hlc = h\<rparr>) s1)"

definition recordDoc :: "nat \<Rightarrow> WorkspaceDoc \<Rightarrow> store \<Rightarrow> store" where
  "recordDoc now d s =
     (let key = workspaceKeyFor d
      in notifyDocs [key] (scheduleWrite (stamped_put now key (Some d) s)))"

definition recordDocs :: "nat \<Rightarrow> WorkspaceDoc list \<Rightarrow> store \<Rightarrow> store" where
  "recordDocs now docs s =
     (if docs = [] then s
      else notifyDocs (map workspaceKeyFor docs)
        (scheduleWrite (fold (\<lambda>d. stamped_put now (workspaceKeyFor d) (Some d)) docs s)))"

definition recordTombstone :: "nat \<Rightarrow> string \<Rightarrow> store \<Rightarrow> store" where
  "recordTombstone now key s = notifyDocs [key] (scheduleWrite (stamped_put now key None s))"

text \<open>\<open>findIndex\<close> with an assignment or a push, and with a \<open>splice\<close>.\<close>

fun replace_first :: "('a \<Rightarrow> bool) \<Rightarrow> 'a \<Rightarrow> 'a list \<Rightarrow> 'a list" where
  "replace_first P y [] = []"
| "replace_first P y (x # xs) = (if P x then y # xs else x # replace_first P y xs)"

definition upsert :: "('a \<Rightarrow> string) \<Rightarrow> 'a \<Rightarrow> 'a list \<Rightarrow> 'a list" where
  "upsert ident y xs =
     (if list_ex (\<lambda>x. ident x = ident y) xs then replace_first (\<lambda>x. ident x = ident y) y xs else xs @ [y])"

fun remove_first :: "('a \<Rightarrow> bool) \<Rightarrow> 'a list \<Rightarrow> 'a list" where
  "remove_first P [] = []"
| "remove_first P (x # xs) = (if P x then xs else x # remove_first P xs)"

section \<open>Ranks and tabs\<close>

definition is_rank :: "string \<Rightarrow> bool" where
  "is_rank s =
     (let digits = (case s of [] \<Rightarrow> [] | c # cs \<Rightarrow> if c = CHR ''-'' then cs else s)
      in digits \<noteq> [] \<and> list_all is_digit digits)"

definition parseRank :: "string \<Rightarrow> int" where
  "parseRank s =
     (if is_rank s
      then (case s of
              [] \<Rightarrow> 0
            | c # cs \<Rightarrow> if c = CHR ''-'' then - int (decimal_read cs) else int (decimal_read s))
      else 0)"

definition rank_text :: "int \<Rightarrow> string" where
  "rank_text n = (if n < 0 then CHR ''-'' # decimal_text (nat (- n)) else decimal_text (nat n))"

text \<open>The three maps a listing is assembled from.\<close>

record tab_parts =
  pt_presence :: "(string, SyncedTabPresence) js_map"
  pt_urls :: "(string, SyncedTabUrl) js_map"
  pt_orders :: "(string, SyncedTabOrder) js_map"

fun add_part :: "string \<Rightarrow> tab_parts \<Rightarrow> WorkspaceDoc \<Rightarrow> tab_parts" where
  "add_part spaceId p (TabPresenceDoc t) =
     (if tp_spaceId t = spaceId then p\<lparr>pt_presence := js_set (pt_presence p) (tp_id t) t\<rparr> else p)"
| "add_part spaceId p (TabUrlDoc t) = p\<lparr>pt_urls := js_set (pt_urls p) (tu_tabId t) t\<rparr>"
| "add_part spaceId p (TabOrderDoc t) =
     (if to_spaceId t = spaceId then p\<lparr>pt_orders := js_set (pt_orders p) (to_tabId t) t\<rparr> else p)"
| "add_part spaceId p _ = p"

definition live_docs :: "registers \<Rightarrow> WorkspaceDoc list" where
  "live_docs regs = List.map_filter (\<lambda>(k, r). lw_value r) regs"

definition assembled_tab :: "tab_parts \<Rightarrow> SyncedTabPresence \<Rightarrow> SyncedTabState" where
  "assembled_tab p t =
     \<lparr>tp_id = tp_id t, tp_spaceId = tp_spaceId t, tp_createdAtMs = tp_createdAtMs t,
      ts_url = (case js_get (pt_urls p) (tp_id t) of None \<Rightarrow> ''about:blank'' | Some u \<Rightarrow> tu_url u),
      ts_rank = (case js_get (pt_orders p) (tp_id t) of None \<Rightarrow> ''0'' | Some r \<Rightarrow> to_rank r)\<rparr>"

definition syncedTabsFor :: "(string \<Rightarrow> string) \<Rightarrow> string \<Rightarrow> store \<Rightarrow> SyncedTabState list" where
  "syncedTabsFor collation spaceId s =
     (let p = foldl (add_part spaceId) \<lparr>pt_presence = [], pt_urls = [], pt_orders = []\<rparr> (live_docs (lww_of s))
      in sort_key (\<lambda>t. (parseRank (ts_rank t), collation (tp_id t)))
           (map (\<lambda>(k, t). assembled_tab p t) (pt_presence p)))"

definition hasSyncedTabPresenceRecord :: "string \<Rightarrow> store \<Rightarrow> bool" where
  "hasSyncedTabPresenceRecord tabId s \<longleftrightarrow> register_at s (presence_key tabId) \<noteq> None"

definition openSyncedTab :: "nat \<Rightarrow> SyncedTabState \<Rightarrow> store \<Rightarrow> store" where
  "openSyncedTab now t s =
     recordDocs now
       [TabPresenceDoc \<lparr>tp_id = tp_id t, tp_spaceId = tp_spaceId t, tp_createdAtMs = tp_createdAtMs t\<rparr>,
        TabUrlDoc \<lparr>tu_tabId = tp_id t, tu_url = ts_url t\<rparr>,
        TabOrderDoc \<lparr>to_tabId = tp_id t, to_spaceId = tp_spaceId t, to_rank = ts_rank t\<rparr>] s"

definition updateSyncedTabUrl :: "nat \<Rightarrow> string \<Rightarrow> string \<Rightarrow> store \<Rightarrow> store" where
  "updateSyncedTabUrl now tabId url s =
     (let same = (case doc_at (lww_of s) (url_key tabId) of Some (TabUrlDoc t) \<Rightarrow> tu_url t = url | _ \<Rightarrow> False)
      in if same then s else recordDoc now (TabUrlDoc \<lparr>tu_tabId = tabId, tu_url = url\<rparr>) s)"

definition same_rank :: "registers \<Rightarrow> string \<Rightarrow> string \<Rightarrow> bool" where
  "same_rank regs tabId normalized =
     (case doc_at regs (order_key tabId) of Some (TabOrderDoc t) \<Rightarrow> to_rank t = normalized | _ \<Rightarrow> False)"

definition updateSyncedTabOrder :: "nat \<Rightarrow> string \<Rightarrow> string \<Rightarrow> string \<Rightarrow> store \<Rightarrow> store" where
  "updateSyncedTabOrder now tabId spaceId rank s =
     (let normalized = rank_text (parseRank rank)
      in if same_rank (lww_of s) tabId normalized then s
         else recordDoc now
           (TabOrderDoc \<lparr>to_tabId = tabId, to_spaceId = spaceId, to_rank = normalized\<rparr>) s)"

definition updateSyncedTabOrders :: "nat \<Rightarrow> SyncedTabOrder list \<Rightarrow> store \<Rightarrow> store" where
  "updateSyncedTabOrders now values s =
     recordDocs now
       (List.map_filter
          (\<lambda>v. let rank = rank_text (parseRank (to_rank v))
               in if same_rank (lww_of s) (to_tabId v) rank then None
                  else Some (TabOrderDoc (v\<lparr>to_rank := rank\<rparr>))) values) s"

definition closeSyncedTab :: "nat \<Rightarrow> string \<Rightarrow> store \<Rightarrow> store" where
  "closeSyncedTab now tabId s =
     (let key = presence_key tabId
      in if (case register_at s key of Some r \<Rightarrow> lw_value r = None | None \<Rightarrow> False) then s
         else recordTombstone now key s)"

section \<open>Spaces, folders, pins, archives\<close>

definition upsertSpace :: "nat \<Rightarrow> SpaceMeta \<Rightarrow> store \<Rightarrow> store" where
  "upsertSpace now space s =
     recordDoc now (SpaceDoc space) (on_file (\<lambda>f. f\<lparr>wk_spaces := upsert sp_id space (wk_spaces f)\<rparr>) s)"

definition drop_pin :: "nat \<Rightarrow> PinnedTab \<Rightarrow> store \<Rightarrow> store" where
  "drop_pin now pin s =
     recordTombstone now (pin_key (pin_id pin))
       (on_file (\<lambda>f. f\<lparr>wk_pins := filter (\<lambda>p. pin_id p \<noteq> pin_id pin) (wk_pins f)\<rparr>) s)"

definition removeSpace :: "(string \<Rightarrow> string) \<Rightarrow> nat \<Rightarrow> string \<Rightarrow> store \<Rightarrow> store" where
  "removeSpace collation now i s =
     (if \<not> list_ex (\<lambda>x. sp_id x = i) (wk_spaces (st_file s)) then s
      else
        (let s1 = on_file (\<lambda>f. f\<lparr>wk_spaces := remove_first (\<lambda>x. sp_id x = i) (wk_spaces f)\<rparr>) s;
             s2 = fold (drop_pin now) (filter (\<lambda>p. pin_spaceId p = i) (wk_pins (st_file s1))) s1;
             s3 = fold (\<lambda>t. closeSyncedTab now (tp_id t)) (syncedTabsFor collation i s2) s2
         in recordTombstone now (space_key i) s3))"

definition spaceFolders :: "store \<Rightarrow> (string, string) js_map" where
  "spaceFolders s =
     foldl (\<lambda>m d. case d of SpaceFolderDoc spaceId folder \<Rightarrow> js_set m spaceId folder | _ \<Rightarrow> m) []
       (live_docs (lww_of s))"

definition setSpaceFolder :: "nat \<Rightarrow> string \<Rightarrow> string \<Rightarrow> store \<Rightarrow> store" where
  "setSpaceFolder now spaceId folder s = recordDoc now (SpaceFolderDoc spaceId folder) s"

definition removeSpaceFolder :: "nat \<Rightarrow> string \<Rightarrow> store \<Rightarrow> store" where
  "removeSpaceFolder now spaceId s = recordTombstone now (folder_key spaceId) s"

definition pinsFor :: "string \<Rightarrow> store \<Rightarrow> PinnedTab list" where
  "pinsFor spaceId s = sort_key pin_position (filter (\<lambda>p. pin_spaceId p = spaceId) (wk_pins (st_file s)))"

definition upsertPin :: "nat \<Rightarrow> PinnedTab \<Rightarrow> store \<Rightarrow> store" where
  "upsertPin now pin s =
     recordDoc now (PinDoc pin) (on_file (\<lambda>f. f\<lparr>wk_pins := upsert pin_id pin (wk_pins f)\<rparr>) s)"

text \<open>A patch: the members it has; the icon may be patched to be absent.\<close>

record pin_patch =
  pp_url :: "string option"
  pp_title :: "string option"
  pp_faviconUrl :: "string option option"

definition patched_pin :: "pin_patch \<Rightarrow> PinnedTab \<Rightarrow> PinnedTab" where
  "patched_pin patch p =
     p\<lparr>pin_url := (case pp_url patch of None \<Rightarrow> pin_url p | Some u \<Rightarrow> u),
       pin_title := (case pp_title patch of None \<Rightarrow> pin_title p | Some t \<Rightarrow> t),
       pin_faviconUrl := (case pp_faviconUrl patch of None \<Rightarrow> pin_faviconUrl p | Some v \<Rightarrow> v)\<rparr>"

definition updatePin :: "nat \<Rightarrow> string \<Rightarrow> pin_patch \<Rightarrow> store \<Rightarrow> store" where
  "updatePin now i patch s =
     (case find (\<lambda>p. pin_id p = i) (wk_pins (st_file s)) of
        None \<Rightarrow> s
      | Some pin \<Rightarrow>
          (let pin' = patched_pin patch pin
           in recordDoc now (PinDoc pin')
                (on_file (\<lambda>f. f\<lparr>wk_pins := replace_first (\<lambda>p. pin_id p = i) pin' (wk_pins f)\<rparr>) s)))"

definition removePin :: "nat \<Rightarrow> string \<Rightarrow> store \<Rightarrow> store" where
  "removePin now i s =
     (if \<not> list_ex (\<lambda>p. pin_id p = i) (wk_pins (st_file s)) then s
      else recordTombstone now (pin_key i)
        (on_file (\<lambda>f. f\<lparr>wk_pins := remove_first (\<lambda>p. pin_id p = i) (wk_pins f)\<rparr>) s))"

definition addArchive :: "nat \<Rightarrow> ArchivedTab \<Rightarrow> store \<Rightarrow> store" where
  "addArchive now a s =
     recordDoc now (ArchiveDoc a) (on_file (\<lambda>f. f\<lparr>wk_archives := wk_archives f @ [a]\<rparr>) s)"

section \<open>Focus and device identity\<close>

definition syncedWorkspaceFocus :: "store \<Rightarrow> SyncedWorkspaceFocus option" where
  "syncedWorkspaceFocus s =
     (case doc_at (lww_of s) focus_key of Some (WorkspaceFocusDoc f) \<Rightarrow> Some f | _ \<Rightarrow> None)"

definition updateSyncedWorkspaceFocus :: "nat \<Rightarrow> SyncedWorkspaceFocus \<Rightarrow> store \<Rightarrow> store" where
  "updateSyncedWorkspaceFocus now focus s =
     (if syncedWorkspaceFocus s = Some focus then s else recordDoc now (WorkspaceFocusDoc focus) s)"

definition activeTabFor :: "string \<Rightarrow> store \<Rightarrow> string option" where
  "activeTabFor spaceId s = js_get (dv_activeTabBySpace (wk_deviceLocal (st_file s))) spaceId"

definition splitTabFor :: "string \<Rightarrow> store \<Rightarrow> string option" where
  "splitTabFor spaceId s = js_get (dv_splitTabBySpace (wk_deviceLocal (st_file s))) spaceId"

definition activeSpaceId :: "store \<Rightarrow> string option" where
  "activeSpaceId s = dv_activeSpaceId (wk_deviceLocal (st_file s))"

definition publishCurrentWorkspaceFocus :: "nat \<Rightarrow> store \<Rightarrow> store" where
  "publishCurrentWorkspaceFocus now s =
     (let active = activeSpaceId s
      in updateSyncedWorkspaceFocus now
           \<lparr>wf_activeSpaceId = active,
            wf_activeTabId = Option.bind active (\<lambda>i. activeTabFor i s),
            wf_splitTabId = Option.bind active (\<lambda>i. splitTabFor i s)\<rparr> s)"

definition syncedDeviceActivities :: "store \<Rightarrow> SyncedDeviceActivity list" where
  "syncedDeviceActivities s =
     List.map_filter (\<lambda>d. case d of DeviceActivityDoc a \<Rightarrow> Some a | _ \<Rightarrow> None) (live_docs (lww_of s))"

definition syncedDeviceActivity :: "string \<Rightarrow> store \<Rightarrow> SyncedDeviceActivity option" where
  "syncedDeviceActivity i s =
     (case doc_at (lww_of s) (activity_key i) of Some (DeviceActivityDoc a) \<Rightarrow> Some a | _ \<Rightarrow> None)"

definition updateSyncedDeviceActivity :: "nat \<Rightarrow> SyncedDeviceActivity \<Rightarrow> store \<Rightarrow> store" where
  "updateSyncedDeviceActivity now a s =
     (case syncedDeviceActivity (da_deviceId a) s of
        Some c \<Rightarrow>
          if da_identityDeviceId c = da_identityDeviceId a \<and> da_controlDeviceId c = da_controlDeviceId a \<and>
             da_name c = da_name a \<and> da_platform c = da_platform a then s
          else recordDoc now (DeviceActivityDoc a) s
      | None \<Rightarrow> recordDoc now (DeviceActivityDoc a) s)"

section \<open>Settings\<close>

record settings_patch =
  sx_historySyncEnabled :: "bool option"
  sx_autoArchiveAfterHours :: "int option"
  sx_keyMode :: "KeyMode option"
  sx_newTabUrl :: "string option"

definition patched_settings :: "settings_patch \<Rightarrow> WorkspaceSettings \<Rightarrow> WorkspaceSettings" where
  "patched_settings p t =
     \<lparr>se_historySyncEnabled = (case sx_historySyncEnabled p of None \<Rightarrow> se_historySyncEnabled t | Some v \<Rightarrow> v),
      se_autoArchiveAfterHours = (case sx_autoArchiveAfterHours p of None \<Rightarrow> se_autoArchiveAfterHours t | Some v \<Rightarrow> v),
      se_keyMode = (case sx_keyMode p of None \<Rightarrow> se_keyMode t | Some v \<Rightarrow> v),
      se_newTabUrl = (case sx_newTabUrl p of None \<Rightarrow> se_newTabUrl t | Some v \<Rightarrow> v)\<rparr>"

definition patched_docs :: "settings_patch \<Rightarrow> WorkspaceSettings \<Rightarrow> WorkspaceDoc list" where
  "patched_docs p t =
     (if sx_historySyncEnabled p \<noteq> None then [SettingsDoc (HistorySync (se_historySyncEnabled t))] else []) @
     (if sx_autoArchiveAfterHours p \<noteq> None then [SettingsDoc (AutoArchive (se_autoArchiveAfterHours t))] else []) @
     (if sx_keyMode p \<noteq> None then [SettingsDoc (KeyModeDoc (se_keyMode t))] else []) @
     (if sx_newTabUrl p \<noteq> None then [SettingsDoc (NewTabUrl (se_newTabUrl t))] else [])"

definition updateSettings :: "nat \<Rightarrow> settings_patch \<Rightarrow> store \<Rightarrow> store" where
  "updateSettings now patch s =
     (let s1 = on_file (\<lambda>f. f\<lparr>wk_settings := patched_settings patch (wk_settings f)\<rparr>) s
      in fold (recordDoc now) (patched_docs patch (wk_settings (st_file s1))) s1)"

section \<open>History\<close>

definition historyVisits :: "store \<Rightarrow> HistoryVisit list" where
  "historyVisits s = sort_key (\<lambda>v. - hv_atMs v) (map fst (wk_history (st_file s)))"

definition history_prefix :: string where "history_prefix = ''history:''"

definition pruned_history :: "int \<Rightarrow> history_cell list \<Rightarrow> history_cell list" where
  "pruned_history nowMs hs =
     (let cutoff = nowMs - HISTORY_RETENTION_MS;
          keep = filter (\<lambda>(v, sh). hv_atMs v \<ge> cutoff) hs
      in if length keep > HISTORY_MAX_VISITS
         then drop (length keep - HISTORY_MAX_VISITS) (sort_key (\<lambda>(v, sh). hv_atMs v) keep)
         else keep)"

definition pruneHistory :: "int \<Rightarrow> WorkspaceFile \<Rightarrow> WorkspaceFile" where
  "pruneHistory nowMs f =
     (let keep = pruned_history nowMs (wk_history f);
          kept = map (hv_id \<circ> fst) keep
      in f\<lparr>wk_history := keep,
           wk_lww := filter (\<lambda>(key, r). \<not> (take 8 key = history_prefix \<and> lw_value r \<noteq> None \<and>
             drop 8 key \<notin> set kept)) (wk_lww f)\<rparr>)"

definition addHistoryVisit :: "nat \<Rightarrow> HistoryVisit \<Rightarrow> store \<Rightarrow> store" where
  "addHistoryVisit now visit s =
     (let s1 = on_file (\<lambda>f. pruneHistory (hv_atMs visit)
                 (f\<lparr>wk_history := wk_history f @ [(visit, False)]\<rparr>)) s
      in if se_historySyncEnabled (wk_settings (st_file s1)) then recordDoc now (HistoryDoc visit) s1
         else scheduleWrite s1)"

text \<open>
  The title is written into the visit object; a register that holds the object sees it.  When the
  visit is published its register comes to hold the object.
\<close>

definition retitled :: "string \<Rightarrow> HistoryVisit \<Rightarrow> bool \<Rightarrow> WorkspaceFile \<Rightarrow> WorkspaceFile" where
  "retitled title v shared f =
     (let v' = v\<lparr>hv_title := title\<rparr>
      in f\<lparr>wk_history := replace_first (\<lambda>(x, sh). hv_id x = hv_id v) (v', shared) (wk_history f),
           wk_lww := (case js_get (wk_lww f) (history_key (hv_id v)) of
                        Some r \<Rightarrow> if shared then js_set (wk_lww f) (history_key (hv_id v)) (r\<lparr>lw_value := Some (HistoryDoc v')\<rparr>)
                                  else wk_lww f
                      | None \<Rightarrow> wk_lww f)\<rparr>)"

definition share_first :: "string \<Rightarrow> history_cell list \<Rightarrow> history_cell list" where
  "share_first i hs =
     (case find (\<lambda>(x, sh). hv_id x = i) hs of
        None \<Rightarrow> hs
      | Some (x, sh) \<Rightarrow> replace_first (\<lambda>(x, sh). hv_id x = i) (x, True) hs)"

definition updateHistoryVisitTitle :: "nat \<Rightarrow> string \<Rightarrow> string \<Rightarrow> store \<Rightarrow> store" where
  "updateHistoryVisitTitle now i title s =
     (case find (\<lambda>(v, sh). hv_id v = i) (wk_history (st_file s)) of
        None \<Rightarrow> s
      | Some (v, shared) \<Rightarrow>
          if hv_title v = title then s
          else
            (let s1 = on_file (retitled title v shared) s
             in if se_historySyncEnabled (wk_settings (st_file s1)) \<and> register_at s1 (history_key i) \<noteq> None
                then on_file (\<lambda>f. f\<lparr>wk_history := share_first i (wk_history f)\<rparr>)
                       (recordDoc now (HistoryDoc (v\<lparr>hv_title := title\<rparr>)) s1)
                else scheduleWrite s1))"

definition clear_one :: "nat \<Rightarrow> string \<Rightarrow> string list \<times> store \<Rightarrow> string list \<times> store" where
  "clear_one now i ks =
     (case ks of (keys, s) \<Rightarrow>
        if register_at s (history_key i) \<noteq> None
        then (keys @ [history_key i], stamped_put now (history_key i) None s) else (keys, s))"

definition clearHistory :: "nat \<Rightarrow> store \<Rightarrow> store" where
  "clearHistory now s =
     (let ids = map (hv_id \<circ> fst) (wk_history (st_file s));
          (keys, s1) = fold (clear_one now) ids ([], on_file (\<lambda>f. f\<lparr>wk_history := []\<rparr>) s);
          s2 = scheduleWrite s1
      in if keys = [] then s2 else notifyDocs keys s2)"

section \<open>Overrides, sign-in queue, permissions\<close>

definition store_setOriginOverride :: "string \<Rightarrow> OriginOverrideValue option \<Rightarrow> store \<Rightarrow> store" where
  "store_setOriginOverride host v s =
     scheduleWrite (on_file (\<lambda>f. f\<lparr>wk_originOverrides :=
       (case v of None \<Rightarrow> js_del (wk_originOverrides f) host
        | Some x \<Rightarrow> js_set (wk_originOverrides f) host x)\<rparr>) s)"

definition setSignInQueue :: "SignInQueueItem list \<Rightarrow> store \<Rightarrow> store" where
  "setSignInQueue queue s = scheduleWrite (on_file (\<lambda>f. f\<lparr>wk_signInQueue := queue\<rparr>) s)"

definition markSignedIn :: "string \<Rightarrow> store \<Rightarrow> store" where
  "markSignedIn domain s =
     scheduleWrite (on_file (\<lambda>f. f\<lparr>wk_signInQueue :=
       map (\<lambda>item. if si_domain item = domain then item\<lparr>si_done := True\<rparr> else item) (wk_signInQueue f)\<rparr>) s)"

definition grant_for :: "string \<Rightarrow> string \<Rightarrow> PermissionGrant \<Rightarrow> bool" where
  "grant_for orig permission g \<longleftrightarrow> pg_origin g = orig \<and> pg_permission g = permission"

definition permissionDecision :: "string \<Rightarrow> string \<Rightarrow> store \<Rightarrow> bool option" where
  "permissionDecision orig permission s =
     map_option pg_granted (find (grant_for orig permission) (wk_permissionGrants (st_file s)))"

definition setPermissionDecision :: "nat \<Rightarrow> string \<Rightarrow> string \<Rightarrow> bool \<Rightarrow> store \<Rightarrow> store" where
  "setPermissionDecision now orig permission granted s =
     (let g = \<lparr>pg_origin = orig, pg_permission = permission, pg_granted = granted, pg_decidedAtMs = now\<rparr>
      in scheduleWrite (on_file (\<lambda>f. f\<lparr>wk_permissionGrants :=
           (if list_ex (grant_for orig permission) (wk_permissionGrants f)
            then replace_first (grant_for orig permission) g (wk_permissionGrants f)
            else wk_permissionGrants f @ [g])\<rparr>) s))"

section \<open>Device-local state, downloads, egress\<close>

definition on_device :: "(DeviceLocalState \<Rightarrow> DeviceLocalState) \<Rightarrow> store \<Rightarrow> store" where
  "on_device g s = on_file (\<lambda>f. f\<lparr>wk_deviceLocal := g (wk_deviceLocal f)\<rparr>) s"

definition set_or_delete :: "('k, 'v) js_map \<Rightarrow> 'k \<Rightarrow> 'v option \<Rightarrow> ('k, 'v) js_map" where
  "set_or_delete m k v = (case v of None \<Rightarrow> js_del m k | Some x \<Rightarrow> js_set m k x)"

definition setActiveSpaceId :: "string option \<Rightarrow> store \<Rightarrow> store" where
  "setActiveSpaceId i s = scheduleWrite (on_device (\<lambda>d. d\<lparr>dv_activeSpaceId := i\<rparr>) s)"

definition setActiveTabFor :: "string \<Rightarrow> string option \<Rightarrow> store \<Rightarrow> store" where
  "setActiveTabFor spaceId tabId s =
     scheduleWrite (on_device (\<lambda>d. d\<lparr>dv_activeTabBySpace := set_or_delete (dv_activeTabBySpace d) spaceId tabId\<rparr>) s)"

definition setSplitTabFor :: "string \<Rightarrow> string option \<Rightarrow> store \<Rightarrow> store" where
  "setSplitTabFor spaceId tabId s =
     scheduleWrite (on_device (\<lambda>d. d\<lparr>dv_splitTabBySpace := set_or_delete (dv_splitTabBySpace d) spaceId tabId\<rparr>) s)"

definition todayTabs :: "string \<Rightarrow> store \<Rightarrow> string list" where
  "todayTabs spaceId s =
     (case js_get (dv_todayTabsBySpace (wk_deviceLocal (st_file s))) spaceId of None \<Rightarrow> [] | Some us \<Rightarrow> us)"

definition setTodayTabs :: "string \<Rightarrow> string list \<Rightarrow> store \<Rightarrow> store" where
  "setTodayTabs spaceId urls s =
     (if todayTabs spaceId s = urls then s
      else scheduleWrite (on_device (\<lambda>d. d\<lparr>dv_todayTabsBySpace := js_set (dv_todayTabsBySpace d) spaceId urls\<rparr>) s))"

definition realtimeTabsMigrated :: "string \<Rightarrow> store \<Rightarrow> bool" where
  "realtimeTabsMigrated spaceId s \<longleftrightarrow>
     js_get (dv_realtimeTabsMigratedBySpace (wk_deviceLocal (st_file s))) spaceId = Some True"

definition markRealtimeTabsMigrated :: "string \<Rightarrow> store \<Rightarrow> store" where
  "markRealtimeTabsMigrated spaceId s =
     (if realtimeTabsMigrated spaceId s then s
      else scheduleWrite (on_device (\<lambda>d. d\<lparr>dv_realtimeTabsMigratedBySpace :=
             js_set (dv_realtimeTabsMigratedBySpace d) spaceId True\<rparr>) s))"

definition addNativeTransportDomain :: "string \<Rightarrow> store \<Rightarrow> store" where
  "addNativeTransportDomain domain s =
     (if domain \<in> set (dv_nativeTransportDomains (wk_deviceLocal (st_file s))) then s
      else scheduleWrite (on_device (\<lambda>d. d\<lparr>dv_nativeTransportDomains :=
             sort (dv_nativeTransportDomains d @ [domain])\<rparr>) s))"

definition setDownloads :: "DownloadItemInfo list \<Rightarrow> store \<Rightarrow> store" where
  "setDownloads items s = scheduleWrite (on_file (\<lambda>f. f\<lparr>wk_downloads := items\<rparr>) s)"

text \<open>Both copies keep the two members they name: a checkout bypass is not carried.\<close>

definition egressConfig :: "string \<Rightarrow> store \<Rightarrow> StoredSpaceEgress option" where
  "egressConfig spaceId s =
     map_option (\<lambda>c. c\<lparr>eg_checkoutBypass := None\<rparr>) (js_get (wk_egress (st_file s)) spaceId)"

definition setEgressConfig :: "string \<Rightarrow> StoredSpaceEgress \<Rightarrow> store \<Rightarrow> store" where
  "setEgressConfig spaceId config s =
     scheduleWrite (on_file (\<lambda>f. f\<lparr>wk_egress := js_set (wk_egress f) spaceId (config\<lparr>eg_checkoutBypass := None\<rparr>)\<rparr>) s)"

section \<open>Synchronization\<close>

definition manualSyncInitialized :: "string option \<Rightarrow> store \<Rightarrow> bool" where
  "manualSyncInitialized accountId s =
     (let d = wk_deviceLocal (st_file s)
      in dv_manualSyncInitialized d = Some True \<and>
         (accountId = None \<or> dv_manualSyncAccountId d = None \<or> dv_manualSyncAccountId d = accountId))"

definition markManualSyncInitialized :: "string option \<Rightarrow> store \<Rightarrow> store" where
  "markManualSyncInitialized accountId s =
     (if manualSyncInitialized accountId s \<and>
         (accountId = None \<or> dv_manualSyncAccountId (wk_deviceLocal (st_file s)) = accountId) then s
      else scheduleWrite (on_device (\<lambda>d. d\<lparr>dv_manualSyncInitialized := Some True,
             dv_manualSyncAccountId := (if accountId = None then dv_manualSyncAccountId d else accountId)\<rparr>) s))"

definition isAttachmentKey :: "string \<Rightarrow> bool" where
  "isAttachmentKey key \<longleftrightarrow> take 4 key = ''tab:'' \<or> key = focus_key"

definition replaceAttachmentRegisters :: "registers \<Rightarrow> store \<Rightarrow> store" where
  "replaceAttachmentRegisters regs s =
     scheduleWrite (on_file (\<lambda>f. fold (\<lambda>(key, r). put_register key r)
         (filter (\<lambda>(key, r). isAttachmentKey key) regs)
         (f\<lparr>wk_lww := filter (\<lambda>(key, r). \<not> isAttachmentKey key) (wk_lww f)\<rparr>)) s)"

definition restamp_one :: "nat \<Rightarrow> string \<Rightarrow> string list \<times> store \<Rightarrow> string list \<times> store" where
  "restamp_one now key cs =
     (case cs of (changed, s) \<Rightarrow>
        (case register_at s key of
           None \<Rightarrow> (changed, s)
         | Some r \<Rightarrow>
             (let (h, s1) = stamp now s
              in (changed @ [key], on_file (\<lambda>f. f\<lparr>wk_lww := js_set (wk_lww f) key (r\<lparr>lw_hlc := h\<rparr>)\<rparr>) s1))))"

definition publishAttachmentRegisters :: "nat \<Rightarrow> string list \<Rightarrow> store \<Rightarrow> store" where
  "publishAttachmentRegisters now keys s =
     (let (changed, s1) = fold (restamp_one now) keys ([], s)
      in if changed = [] then s1 else notifyDocs changed (scheduleWrite s1))"

definition drop_by_key :: "string \<Rightarrow> WorkspaceFile \<Rightarrow> WorkspaceFile" where
  "drop_by_key key f =
     (if take 6 key = ''space:'' then f\<lparr>wk_spaces := filter (\<lambda>x. sp_id x \<noteq> drop 6 key) (wk_spaces f)\<rparr>
      else if take 4 key = ''pin:'' then f\<lparr>wk_pins := filter (\<lambda>p. pin_id p \<noteq> drop 4 key) (wk_pins f)\<rparr>
      else if take 8 key = ''archive:'' then f\<lparr>wk_archives := filter (\<lambda>a. ar_id a \<noteq> drop 8 key) (wk_archives f)\<rparr>
      else if take 8 key = history_prefix then f\<lparr>wk_history := filter (\<lambda>(v, sh). hv_id v \<noteq> drop 8 key) (wk_history f)\<rparr>
      else f)"

definition upsert_visit :: "HistoryVisit \<Rightarrow> history_cell list \<Rightarrow> history_cell list" where
  "upsert_visit v hs = upsert (hv_id \<circ> fst) (v, False) hs"

fun materialize :: "nat \<Rightarrow> WorkspaceDoc \<Rightarrow> WorkspaceFile \<Rightarrow> WorkspaceFile" where
  "materialize now (SpaceDoc x) f = f\<lparr>wk_spaces := upsert sp_id x (wk_spaces f)\<rparr>"
| "materialize now (PinDoc p) f = f\<lparr>wk_pins := upsert pin_id p (wk_pins f)\<rparr>"
| "materialize now (ArchiveDoc a) f = f\<lparr>wk_archives := upsert ar_id a (wk_archives f)\<rparr>"
| "materialize now (HistoryDoc v) f = pruneHistory (int now) (f\<lparr>wk_history := upsert_visit v (wk_history f)\<rparr>)"
| "materialize now (SettingsDoc d) f = f\<lparr>wk_settings := applySettingsDoc (wk_settings f) d\<rparr>"
| "materialize now _ f = f"

definition applyRemoteDoc :: "nat \<Rightarrow> string \<Rightarrow> WorkspaceDoc option \<Rightarrow> hlc \<Rightarrow> store \<Rightarrow> store" where
  "applyRemoteDoc now key v h s =
     scheduleWrite (on_file (\<lambda>f. put_register key \<lparr>lw_value = v, lw_hlc = h\<rparr>
       (case v of None \<Rightarrow> drop_by_key key f | Some d \<Rightarrow> materialize now d f)) s)"

section \<open>Persistence\<close>

abbreviation given :: "'a option \<Rightarrow> 'a \<Rightarrow> 'a" where
  "given x d \<equiv> (case x of None \<Rightarrow> d | Some v \<Rightarrow> v)"

definition read_settings :: "PartialSettings option \<Rightarrow> WorkspaceSettings" where
  "read_settings ps =
     (let b = wk_settings emptyFile
      in case ps of
           None \<Rightarrow> b
         | Some p \<Rightarrow>
             \<lparr>se_historySyncEnabled = given (ps_historySyncEnabled p) (se_historySyncEnabled b),
              se_autoArchiveAfterHours = given (ps_autoArchiveAfterHours p) (se_autoArchiveAfterHours b),
              se_keyMode = given (ps_keyMode p) (se_keyMode b),
              se_newTabUrl = given (ps_newTabUrl p) (se_newTabUrl b)\<rparr>)"

definition read_device :: "PartialDeviceLocal option \<Rightarrow> DeviceLocalState" where
  "read_device pd =
     (let b = emptyDeviceLocal
      in case pd of
           None \<Rightarrow> b
         | Some p \<Rightarrow>
             \<lparr>dv_activeSpaceId = given (pd_activeSpaceId p) (dv_activeSpaceId b),
              dv_workspaceAttached = (if pd_workspaceAttached p = None then dv_workspaceAttached b else pd_workspaceAttached p),
              dv_manualSyncInitialized = (if pd_manualSyncInitialized p = None then dv_manualSyncInitialized b else pd_manualSyncInitialized p),
              dv_manualSyncAccountId = pd_manualSyncAccountId p,
              dv_activeTabBySpace = given (pd_activeTabBySpace p) [],
              dv_todayTabsBySpace = given (pd_todayTabsBySpace p) [],
              dv_realtimeTabsMigratedBySpace = given (pd_realtimeTabsMigratedBySpace p) [],
              dv_splitTabBySpace = given (pd_splitTabBySpace p) [],
              dv_nativeTransportDomains = given (pd_nativeTransportDomains p) []\<rparr>)"

text \<open>\<open>None\<close>: no file, or a text that is not JSON or is \<open>null\<close>.\<close>

definition read_file :: "PartialFile option \<Rightarrow> WorkspaceFile" where
  "read_file parsed =
     (case parsed of
        None \<Rightarrow> emptyFile
      | Some p \<Rightarrow>
          if pf_version p \<noteq> Some 1 then emptyFile
          else
            \<lparr>wk_spaces = given (pf_spaces p) [], wk_pins = given (pf_pins p) [],
             wk_archives = given (pf_archives p) [], wk_settings = read_settings (pf_settings p),
             wk_originOverrides = given (pf_originOverrides p) [],
             wk_signInQueue = given (pf_signInQueue p) [],
             wk_permissionGrants = given (pf_permissionGrants p) [],
             wk_deviceLocal = read_device (pf_deviceLocal p),
             wk_history = map (\<lambda>v. (v, False)) (given (pf_history p) []),
             wk_lww = js_del (given (pf_lww p) []) ''settings'',
             wk_downloads = given (pf_downloads p) [], wk_egress = given (pf_egress p) []\<rparr>)"

definition written_settings :: "WorkspaceSettings \<Rightarrow> PartialSettings" where
  "written_settings t =
     \<lparr>ps_historySyncEnabled = Some (se_historySyncEnabled t),
      ps_autoArchiveAfterHours = Some (se_autoArchiveAfterHours t),
      ps_keyMode = Some (se_keyMode t), ps_newTabUrl = Some (se_newTabUrl t)\<rparr>"

definition written_device :: "DeviceLocalState \<Rightarrow> PartialDeviceLocal" where
  "written_device d =
     \<lparr>pd_activeSpaceId = Some (dv_activeSpaceId d), pd_workspaceAttached = dv_workspaceAttached d,
      pd_manualSyncInitialized = dv_manualSyncInitialized d,
      pd_manualSyncAccountId = dv_manualSyncAccountId d,
      pd_activeTabBySpace = Some (dv_activeTabBySpace d),
      pd_todayTabsBySpace = Some (dv_todayTabsBySpace d),
      pd_realtimeTabsMigratedBySpace = Some (dv_realtimeTabsMigratedBySpace d),
      pd_splitTabBySpace = Some (dv_splitTabBySpace d),
      pd_nativeTransportDomains = Some (dv_nativeTransportDomains d)\<rparr>"

definition written_file :: "WorkspaceFile \<Rightarrow> PartialFile" where
  "written_file f =
     \<lparr>pf_version = Some 1, pf_spaces = Some (wk_spaces f), pf_pins = Some (wk_pins f),
      pf_archives = Some (wk_archives f), pf_settings = Some (written_settings (wk_settings f)),
      pf_originOverrides = Some (wk_originOverrides f), pf_signInQueue = Some (wk_signInQueue f),
      pf_permissionGrants = Some (wk_permissionGrants f),
      pf_deviceLocal = Some (written_device (wk_deviceLocal f)),
      pf_history = Some (map fst (wk_history f)), pf_lww = Some (wk_lww f),
      pf_downloads = Some (wk_downloads f), pf_egress = Some (wk_egress f)\<rparr>"

text \<open>The write goes to a temporary file that is renamed: the disk holds the old or the new file.\<close>

definition write_store :: "store \<Rightarrow> store" where
  "write_store s = s\<lparr>st_disk := Some (written_file (st_file s))\<rparr>"

definition write_timer :: "store \<Rightarrow> store" where
  "write_timer s = (if st_timer s then write_store (s\<lparr>st_timer := False\<rparr>) else s)"

definition flushSync :: "store \<Rightarrow> store" where
  "flushSync s = write_store (s\<lparr>st_timer := False\<rparr>)"

definition new_store :: "PartialFile option \<Rightarrow> string \<Rightarrow> hlc_clock option \<Rightarrow> store" where
  "new_store disk d clock =
     \<lparr>st_file = read_file disk, st_deviceId = d, st_clock = clock, st_timer = False,
      st_disk = disk, st_notified = []\<rparr>"

end
