(* ===== verification/WorkspaceFacts.thy ===== *)
theory WorkspaceFacts
  imports WorkspaceStore
begin

text \<open>
  Runs of the operations of a workspace store, and what stays true along them: every register holds
  a document of its own key, and the spaces, pins and settings shown are those the registers hold.
\<close>

section \<open>Runs\<close>

datatype store_op =
    OpUpsertSpace nat SpaceMeta | OpRemoveSpace nat string
  | OpSetFolder nat string string | OpRemoveFolder nat string
  | OpUpsertPin nat PinnedTab | OpUpdatePin nat string pin_patch | OpRemovePin nat string
  | OpOpenTab nat SyncedTabState | OpTabUrl nat string string | OpTabOrder nat string string string
  | OpTabOrders nat "SyncedTabOrder list" | OpCloseTab nat string
  | OpFocus nat SyncedWorkspaceFocus | OpPublishFocus nat | OpActivity nat SyncedDeviceActivity
  | OpArchive nat ArchivedTab | OpSettings nat settings_patch
  | OpVisit nat HistoryVisit | OpVisitTitle nat string string | OpClearHistory nat
  | OpOverride string "OriginOverrideValue option" | OpQueue "SignInQueueItem list" | OpSignedIn string
  | OpPermission nat string string bool
  | OpActiveSpace "string option" | OpActiveTab string "string option" | OpSplitTab string "string option"
  | OpTodayTabs string "string list" | OpMigrated string | OpNative string
  | OpDownloads "DownloadItemInfo list" | OpEgress string StoredSpaceEgress
  | OpMarkInitialized "string option"
  | OpReplaceAttachments registers | OpPublishAttachments nat "string list"
  | OpRemote nat string "WorkspaceDoc option" hlc
  | OpReceiveHlc nat string hlc | OpNextSyncHlc nat | OpResetHlc
  | OpWriteTimer | OpFlush | OpReload string "hlc_clock option"

fun store_step :: "(string \<Rightarrow> string) \<Rightarrow> store_op \<Rightarrow> store \<Rightarrow> store" where
  "store_step co (OpUpsertSpace n x) s = upsertSpace n x s"
| "store_step co (OpRemoveSpace n i) s = removeSpace co n i s"
| "store_step co (OpSetFolder n i f) s = setSpaceFolder n i f s"
| "store_step co (OpRemoveFolder n i) s = removeSpaceFolder n i s"
| "store_step co (OpUpsertPin n p) s = upsertPin n p s"
| "store_step co (OpUpdatePin n i p) s = updatePin n i p s"
| "store_step co (OpRemovePin n i) s = removePin n i s"
| "store_step co (OpOpenTab n t) s = openSyncedTab n t s"
| "store_step co (OpTabUrl n i u) s = updateSyncedTabUrl n i u s"
| "store_step co (OpTabOrder n i sp r) s = updateSyncedTabOrder n i sp r s"
| "store_step co (OpTabOrders n vs) s = updateSyncedTabOrders n vs s"
| "store_step co (OpCloseTab n i) s = closeSyncedTab n i s"
| "store_step co (OpFocus n f) s = updateSyncedWorkspaceFocus n f s"
| "store_step co (OpPublishFocus n) s = publishCurrentWorkspaceFocus n s"
| "store_step co (OpActivity n a) s = updateSyncedDeviceActivity n a s"
| "store_step co (OpArchive n a) s = addArchive n a s"
| "store_step co (OpSettings n p) s = updateSettings n p s"
| "store_step co (OpVisit n v) s = addHistoryVisit n v s"
| "store_step co (OpVisitTitle n i t) s = updateHistoryVisitTitle n i t s"
| "store_step co (OpClearHistory n) s = clearHistory n s"
| "store_step co (OpOverride h v) s = store_setOriginOverride h v s"
| "store_step co (OpQueue q) s = setSignInQueue q s"
| "store_step co (OpSignedIn d) s = markSignedIn d s"
| "store_step co (OpPermission n ori p g) s = setPermissionDecision n ori p g s"
| "store_step co (OpActiveSpace i) s = setActiveSpaceId i s"
| "store_step co (OpActiveTab i t) s = setActiveTabFor i t s"
| "store_step co (OpSplitTab i t) s = setSplitTabFor i t s"
| "store_step co (OpTodayTabs i us) s = setTodayTabs i us s"
| "store_step co (OpMigrated i) s = markRealtimeTabsMigrated i s"
| "store_step co (OpNative d) s = addNativeTransportDomain d s"
| "store_step co (OpDownloads ds) s = setDownloads ds s"
| "store_step co (OpEgress i c) s = setEgressConfig i c s"
| "store_step co (OpMarkInitialized a) s = markManualSyncInitialized a s"
| "store_step co (OpReplaceAttachments regs) s = replaceAttachmentRegisters regs s"
| "store_step co (OpPublishAttachments n ks) s = publishAttachmentRegisters n ks s"
| "store_step co (OpRemote n k v h) s = applyRemoteDoc n k v h s"
| "store_step co (OpReceiveHlc n d h) s = receiveWorkspaceHlc n d h s"
| "store_step co (OpNextSyncHlc n) s = snd (stamp n s)"
| "store_step co OpResetHlc s = resetWorkspaceHlc s"
| "store_step co OpWriteTimer s = write_timer s"
| "store_step co OpFlush s = flushSync s"
| "store_step co (OpReload d c) s = new_store (st_disk s) d c"

text \<open>What comes from outside is keyed as the code keys it.\<close>

definition keyed_register :: "string \<Rightarrow> WorkspaceRegister \<Rightarrow> bool" where
  "keyed_register k r \<longleftrightarrow> (case lw_value r of None \<Rightarrow> True | Some d \<Rightarrow> workspaceKeyFor d = k)"

definition well_keyed :: "registers \<Rightarrow> bool" where
  "well_keyed regs \<longleftrightarrow> js_all keyed_register regs"

fun op_keyed :: "store_op \<Rightarrow> bool" where
  "op_keyed (OpReplaceAttachments regs) = list_all (\<lambda>(k, r). keyed_register k r) regs"
| "op_keyed (OpRemote n k (Some d) h) = (workspaceKeyFor d = k)"
| "op_keyed _ = True"

section \<open>Lists and registers\<close>

lemma replace_first_absent: "\<not> list_ex P xs \<Longrightarrow> replace_first P y xs = xs"
  by (induction xs) auto

lemma set_replace_first:
  "distinct (map ident xs) \<Longrightarrow> ident x \<in> ident ` set xs \<Longrightarrow>
   set (replace_first (\<lambda>z. ident z = ident x) x xs) = insert x {z \<in> set xs. ident z \<noteq> ident x}"
proof (induction xs)
  case (Cons a xs)
  show ?case
  proof (cases "ident a = ident x")
    case True
    then have "{z \<in> set (a # xs). ident z \<noteq> ident x} = set xs"
      using Cons.prems(1) by (auto simp: image_iff)
    then show ?thesis using True by simp
  next
    case False
    then have "ident x \<in> ident ` set xs" using Cons.prems(2) by auto
    with Cons False show ?thesis by auto
  qed
qed simp

lemma ids_replace_first:
  "map ident (replace_first (\<lambda>z. ident z = ident x) x xs) = map ident xs"
  by (induction xs) auto

lemma set_upsert:
  "distinct (map ident xs) \<Longrightarrow> set (upsert ident x xs) = insert x {z \<in> set xs. ident z \<noteq> ident x}"
proof (cases "list_ex (\<lambda>z. ident z = ident x) xs")
  case True
  then have "ident x \<in> ident ` set xs" by (auto simp: list_ex_iff intro: rev_image_eqI)
  then show "distinct (map ident xs) \<Longrightarrow> ?thesis"
    using True by (simp add: upsert_def set_replace_first)
qed (auto simp: upsert_def list_ex_iff)

lemma distinct_upsert: "distinct (map ident xs) \<Longrightarrow> distinct (map ident (upsert ident x xs))"
  by (auto simp: upsert_def ids_replace_first list_ex_iff)

lemma set_remove_first:
  "distinct (map ident xs) \<Longrightarrow> set (remove_first (\<lambda>z. ident z = i) xs) = {z \<in> set xs. ident z \<noteq> i}"
  by (induction xs) (auto simp: image_iff)

lemma distinct_remove_first:
  "distinct (map ident xs) \<Longrightarrow> distinct (map ident (remove_first P xs))"
proof (induction xs)
  case (Cons x xs)
  have "set (remove_first P xs) \<subseteq> set xs" by (induction xs) auto
  then show ?case using Cons by auto
qed simp

lemma find_SomeD: "find P xs = Some x \<Longrightarrow> P x \<and> x \<in> set xs"
  by (induction xs) (auto split: if_splits)

text \<open>The register of its key holds a document.\<close>

definition holds :: "registers \<Rightarrow> WorkspaceDoc \<Rightarrow> bool" where
  "holds regs d \<longleftrightarrow> doc_at regs (workspaceKeyFor d) = Some d"

lemma holds_put_doc [simp]:
  "holds (js_set regs (workspaceKeyFor d) \<lparr>lw_value = Some d, lw_hlc = h\<rparr>) e \<longleftrightarrow>
     (if entity_of e = entity_of d then e = d else holds regs e)"
  by (auto simp: holds_def doc_at_def key_of_entity entity_key_inj)

lemma holds_put_tombstone [simp]:
  "holds (js_set regs k \<lparr>lw_value = None, lw_hlc = h\<rparr>) e \<longleftrightarrow> workspaceKeyFor e \<noteq> k \<and> holds regs e"
  by (auto simp: holds_def doc_at_def)

lemma well_keyed_put_doc [inv_intros]:
  "well_keyed regs \<Longrightarrow> well_keyed (js_set regs (workspaceKeyFor d) \<lparr>lw_value = Some d, lw_hlc = h\<rparr>)"
  by (simp add: well_keyed_def js_all_set keyed_register_def)

lemma well_keyed_put_tombstone [inv_intros]:
  "well_keyed regs \<Longrightarrow> well_keyed (js_set regs k \<lparr>lw_value = None, lw_hlc = h\<rparr>)"
  by (simp add: well_keyed_def js_all_set keyed_register_def)

lemma js_wf_filter: "js_wf m \<Longrightarrow> js_wf (filter Q m)"
  by (simp add: js_wf_def distinct_map_filter)

lemma js_all_filter: "js_all P m \<Longrightarrow> js_all P (filter Q m)"
  unfolding js_all_def[of P "filter Q m"]
proof (intro conjI allI impI)
  assume all: "js_all P m"
  then show "js_wf (filter Q m)" by (simp add: js_wf_filter js_all_wf)
  fix k v assume "js_get (filter Q m) k = Some v"
  then have "(k, v) \<in> set m" by (auto dest!: js_get_mem)
  then show "P k v" by (rule js_all_mem[OF all])
qed

lemma well_keyed_filter: "well_keyed regs \<Longrightarrow> well_keyed (filter Q regs)"
  by (simp add: well_keyed_def js_all_filter)

lemma js_get_filter:
  "js_wf m \<Longrightarrow> js_get (filter Q m) k = (case js_get m k of None \<Rightarrow> None | Some v \<Rightarrow> if Q (k, v) then Some v else None)"
proof -
  assume wf: "js_wf m"
  then have wf': "js_wf (filter Q m)" by (simp add: js_wf_def distinct_map_filter)
  have eq: "js_get (filter Q m) k = Some v \<longleftrightarrow> js_get m k = Some v \<and> Q (k, v)" for v
    using js_wf_get[OF wf', of k v] js_wf_get[OF wf, of k v] by auto
  show ?thesis
  proof (cases "js_get (filter Q m) k")
    case None
    then show ?thesis using eq by (cases "js_get m k") auto
  next
    case (Some v)
    then show ?thesis using eq[of v] by simp
  qed
qed

lemma well_keyed_wf: "well_keyed regs \<Longrightarrow> js_wf regs"
  by (simp add: well_keyed_def js_all_wf)

section \<open>What is shown is what the registers hold\<close>

definition matches :: "WorkspaceFile \<Rightarrow> bool" where
  "matches f \<longleftrightarrow>
     well_keyed (wk_lww f) \<and>
     distinct (map sp_id (wk_spaces f)) \<and> set (wk_spaces f) = {x. holds (wk_lww f) (SpaceDoc x)} \<and>
     distinct (map pin_id (wk_pins f)) \<and> set (wk_pins f) = {p. holds (wk_lww f) (PinDoc p)} \<and>
     (\<forall>d. holds (wk_lww f) (SettingsDoc d) \<longrightarrow> applySettingsDoc (wk_settings f) d = wk_settings f)"

lemma matches_cong:
  assumes "wk_spaces g = wk_spaces f" "wk_pins g = wk_pins f" "wk_settings g = wk_settings f"
    "wk_lww g = wk_lww f"
  shows "matches g \<longleftrightarrow> matches f"
  using assms by (simp add: matches_def)

text \<open>Registers of other entities may change freely.\<close>

fun shown_entity :: "WorkspaceDoc \<Rightarrow> bool" where
  "shown_entity (SpaceDoc x) = True"
| "shown_entity (PinDoc p) = True"
| "shown_entity (SettingsDoc d) = True"
| "shown_entity _ = False"

lemma matches_other:
  assumes "matches f" "well_keyed (wk_lww g)"
    and "wk_spaces g = wk_spaces f" "wk_pins g = wk_pins f" "wk_settings g = wk_settings f"
    and "\<And>d. shown_entity d \<Longrightarrow> holds (wk_lww g) d = holds (wk_lww f) d"
  shows "matches g"
  using assms by (simp add: matches_def)

lemma stamped_put_file:
  "\<exists>h. st_file (stamped_put n k v s) = put_register k \<lparr>lw_value = v, lw_hlc = h\<rparr> (st_file s)"
  by (auto simp: stamped_put_def stamp_def on_file_def Let_def split: prod.splits)

lemma file_frame [simp]:
  "st_file (notifyDocs ks s) = st_file s" "st_file (scheduleWrite s) = st_file s"
  "st_file (on_file g s) = g (st_file s)" "st_disk (notifyDocs ks s) = st_disk s"
  "st_disk (scheduleWrite s) = st_disk s" "st_disk (on_file g s) = st_disk s"
  by (simp_all add: notifyDocs_def scheduleWrite_def on_file_def)

lemma stamp_frame [simp]: "st_file (snd (stamp n s)) = st_file s" "st_disk (snd (stamp n s)) = st_disk s"
  by (simp_all add: stamp_def case_prod_unfold Let_def)

lemma stamped_put_disk [simp]: "st_disk (stamped_put n k v s) = st_disk s"
  by (simp add: stamped_put_def case_prod_unfold Let_def)

lemma put_register_frame [simp]:
  "wk_spaces (put_register k r f) = wk_spaces f" "wk_pins (put_register k r f) = wk_pins f"
  "wk_settings (put_register k r f) = wk_settings f" "wk_lww (put_register k r f) = js_set (wk_lww f) k r"
  by (simp_all add: put_register_def)

lemma record_file:
  "\<exists>h. st_file (recordDoc n d s) =
     put_register (workspaceKeyFor d) \<lparr>lw_value = Some d, lw_hlc = h\<rparr> (st_file s)"
  using stamped_put_file by (simp add: recordDoc_def Let_def)

lemma tombstone_file:
  "\<exists>h. st_file (recordTombstone n k s) = put_register k \<lparr>lw_value = None, lw_hlc = h\<rparr> (st_file s)"
  using stamped_put_file by (simp add: recordTombstone_def)

lemma record_disk [simp]:
  "st_disk (recordDoc n d s) = st_disk s" "st_disk (recordTombstone n k s) = st_disk s"
  by (simp_all add: recordDoc_def recordTombstone_def Let_def)

lemma shown_entity_of: "entity_of d = entity_of e \<Longrightarrow> shown_entity d = shown_entity e"
  by (cases d; cases e) simp_all

lemma put_doc_other:
  "matches f \<Longrightarrow> \<not> shown_entity d \<Longrightarrow> matches (put_register (workspaceKeyFor d) \<lparr>lw_value = Some d, lw_hlc = h\<rparr> f)"
  by (rule matches_other[of f]) (auto simp: matches_def intro: inv_intros dest: shown_entity_of)

text \<open>The same for a register dropped or replaced by a tombstone under a key of no shown entity.\<close>

definition shown_key :: "string \<Rightarrow> bool" where
  "shown_key k \<longleftrightarrow> take 6 k = ''space:'' \<or> take 4 k = ''pin:'' \<or> take 9 k = ''settings:''"

lemma shown_entity_key: "shown_entity d \<Longrightarrow> shown_key (workspaceKeyFor d)"
  by (cases d) (simp_all add: shown_key_def)

lemma put_tombstone_other:
  "matches f \<Longrightarrow> \<not> shown_key k \<Longrightarrow> matches (put_register k \<lparr>lw_value = None, lw_hlc = h\<rparr> f)"
  by (rule matches_other[of f]) (auto simp: matches_def intro: inv_intros dest: shown_entity_key)

lemma record_other: "matches (st_file s) \<Longrightarrow> \<not> shown_entity d \<Longrightarrow> matches (st_file (recordDoc n d s))"
  using record_file[of n d s] put_doc_other by auto

lemma tombstone_other:
  "matches (st_file s) \<Longrightarrow> \<not> shown_key k \<Longrightarrow> matches (st_file (recordTombstone n k s))"
  using tombstone_file[of n k s] put_tombstone_other by auto

lemma stamped_other:
  "matches (st_file s) \<Longrightarrow> \<not> shown_entity d \<Longrightarrow> matches (st_file (stamped_put n (workspaceKeyFor d) (Some d) s))"
  using stamped_put_file[of n "workspaceKeyFor d" "Some d" s] put_doc_other by auto

lemma records_other:
  assumes "matches (st_file s)" "\<forall>d \<in> set ds. \<not> shown_entity d"
  shows "matches (st_file (recordDocs n ds s))"
proof -
  have "matches (st_file (fold (\<lambda>d. stamped_put n (workspaceKeyFor d) (Some d)) ds s))"
    using assms by (induction ds arbitrary: s) (auto intro: stamped_other)
  then show ?thesis using assms(1) by (simp add: recordDocs_def)
qed

text \<open>Each shown category: a document put, and one removed.\<close>

lemma put_space:
  assumes "matches f"
  shows "matches (put_register (space_key (sp_id x)) \<lparr>lw_value = Some (SpaceDoc x), lw_hlc = h\<rparr>
    (f\<lparr>wk_spaces := upsert sp_id x (wk_spaces f)\<rparr>))"
  using assms holds_put_doc[where d = "SpaceDoc x" and regs = "wk_lww f" and h = h]
    well_keyed_put_doc[where d = "SpaceDoc x" and regs = "wk_lww f" and h = h]
  by (auto simp: matches_def set_upsert distinct_upsert)

lemma put_pin:
  assumes "matches f"
  shows "matches (put_register (pin_key (pin_id x)) \<lparr>lw_value = Some (PinDoc x), lw_hlc = h\<rparr>
    (f\<lparr>wk_pins := upsert pin_id x (wk_pins f)\<rparr>))"
  using assms holds_put_doc[where d = "PinDoc x" and regs = "wk_lww f" and h = h]
    well_keyed_put_doc[where d = "PinDoc x" and regs = "wk_lww f" and h = h]
  by (auto simp: matches_def set_upsert distinct_upsert)

lemma drop_space:
  assumes "matches f" "set xs = {x \<in> set (wk_spaces f). sp_id x \<noteq> i}" "distinct (map sp_id xs)"
  shows "matches (put_register (space_key i) \<lparr>lw_value = None, lw_hlc = h\<rparr> (f\<lparr>wk_spaces := xs\<rparr>))"
  using assms by (auto simp: matches_def intro: inv_intros)

lemma drop_pin_file:
  assumes "matches f" "set xs = {x \<in> set (wk_pins f). pin_id x \<noteq> i}" "distinct (map pin_id xs)"
  shows "matches (put_register (pin_key i) \<lparr>lw_value = None, lw_hlc = h\<rparr> (f\<lparr>wk_pins := xs\<rparr>))"
  using assms by (auto simp: matches_def intro: inv_intros)

lemma apply_settings_idem: "applySettingsDoc (applySettingsDoc t d) d = applySettingsDoc t d"
  by (cases d) simp_all

lemma apply_settings_other:
  assumes "applySettingsDoc t e = t" "settings_field e \<noteq> settings_field d"
  shows "applySettingsDoc (applySettingsDoc t d) e = applySettingsDoc t d"
  using settings_docs_commute[of d e t] assms by simp

lemma put_setting:
  assumes "matches f"
  shows "matches (put_register (setting_key (settings_field d)) \<lparr>lw_value = Some (SettingsDoc d), lw_hlc = h\<rparr>
    (f\<lparr>wk_settings := applySettingsDoc (wk_settings f) d\<rparr>))"
  using assms holds_put_doc[where d = "SettingsDoc d" and regs = "wk_lww f" and h = h]
    well_keyed_put_doc[where d = "SettingsDoc d" and regs = "wk_lww f" and h = h]
  by (auto simp: matches_def apply_settings_idem apply_settings_other split: if_splits)

section \<open>Every operation keeps it\<close>

lemma update_space: "matches (st_file s) \<Longrightarrow> matches (st_file (upsertSpace n x s))"
  using record_file[of n "SpaceDoc x" "on_file (\<lambda>f. f\<lparr>wk_spaces := upsert sp_id x (wk_spaces f)\<rparr>) s"] put_space
  by (auto simp: upsertSpace_def)

lemma update_pin: "matches (st_file s) \<Longrightarrow> matches (st_file (upsertPin n x s))"
  using record_file[of n "PinDoc x" "on_file (\<lambda>f. f\<lparr>wk_pins := upsert pin_id x (wk_pins f)\<rparr>) s"] put_pin
  by (auto simp: upsertPin_def)

lemma patched_pin_id [simp]: "pin_id (patched_pin p x) = pin_id x"
  by (simp add: patched_pin_def)

lemma patch_pin: "matches (st_file s) \<Longrightarrow> matches (st_file (updatePin n i p s))"
proof (cases "find (\<lambda>x. pin_id x = i) (wk_pins (st_file s))")
  case (Some x)
  assume m: "matches (st_file s)"
  let ?y = "patched_pin p x"
  have x: "pin_id x = i" "x \<in> set (wk_pins (st_file s))" using find_SomeD[OF Some] by auto
  then have "replace_first (\<lambda>z. pin_id z = i) ?y (wk_pins (st_file s)) = upsert pin_id ?y (wk_pins (st_file s))"
    by (auto simp: upsert_def list_ex_iff)
  then have "updatePin n i p s = upsertPin n ?y s"
    using Some by (simp add: updatePin_def upsertPin_def on_file_def Let_def)
  then show ?thesis using update_pin[OF m] by simp
qed (simp add: updatePin_def)

lemma remove_pin: "matches (st_file s) \<Longrightarrow> matches (st_file (removePin n i s))"
  using tombstone_file[of n "pin_key i" "on_file (\<lambda>f. f\<lparr>wk_pins := remove_first (\<lambda>p. pin_id p = i) (wk_pins f)\<rparr>) s"]
    drop_pin_file[of "st_file s" "remove_first (\<lambda>p. pin_id p = i) (wk_pins (st_file s))" i]
  by (auto simp: removePin_def matches_def set_remove_first distinct_remove_first)

lemma drop_pin_keeps: "matches (st_file s) \<Longrightarrow> matches (st_file (drop_pin n p s))"
  using tombstone_file[of n "pin_key (pin_id p)" "on_file (\<lambda>f. f\<lparr>wk_pins := filter (\<lambda>q. pin_id q \<noteq> pin_id p) (wk_pins f)\<rparr>) s"]
    drop_pin_file[of "st_file s" "filter (\<lambda>q. pin_id q \<noteq> pin_id p) (wk_pins (st_file s))" "pin_id p"]
  by (auto simp: drop_pin_def matches_def distinct_map_filter)

lemma fold_keeps:
  "P s \<Longrightarrow> (\<And>x s. x \<in> set xs \<Longrightarrow> P s \<Longrightarrow> P (f x s)) \<Longrightarrow> P (fold f xs s)"
  by (induction xs arbitrary: s) auto

lemma close_tab_keeps: "matches (st_file s) \<Longrightarrow> matches (st_file (closeSyncedTab n i s))"
  using tombstone_other[of s "presence_key i" n] by (auto simp: closeSyncedTab_def Let_def shown_key_def)

text \<open>
  A space is removed before its pins and tabs, whose removals read and write nothing of the
  spaces: it might as well be removed after them.
\<close>

abbreviation on_spaces :: "(SpaceMeta list \<Rightarrow> SpaceMeta list) \<Rightarrow> store \<Rightarrow> store" where
  "on_spaces g \<equiv> on_file (wk_spaces_update g)"

lemma stamped_put_spaces: "stamped_put n k v (on_spaces g s) = on_spaces g (stamped_put n k v s)"
  by (simp add: stamped_put_def stamp_def on_file_def put_register_def module_clock_def
      case_prod_unfold Let_def)

lemma tombstone_spaces: "recordTombstone n k (on_spaces g s) = on_spaces g (recordTombstone n k s)"
  by (simp add: recordTombstone_def stamped_put_spaces)
    (simp add: on_file_def notifyDocs_def scheduleWrite_def)

lemma drop_pin_spaces: "drop_pin n p (on_spaces g s) = on_spaces g (drop_pin n p s)"
proof -
  have "on_file (\<lambda>f. f\<lparr>wk_pins := filter q (wk_pins f)\<rparr>) (on_spaces g s) =
      on_spaces g (on_file (\<lambda>f. f\<lparr>wk_pins := filter q (wk_pins f)\<rparr>) s)" for q
    by (simp add: on_file_def)
  then show ?thesis by (simp add: drop_pin_def tombstone_spaces)
qed

lemma close_tab_spaces: "closeSyncedTab n i (on_spaces g s) = on_spaces g (closeSyncedTab n i s)"
  by (simp add: closeSyncedTab_def tombstone_spaces Let_def)

lemma fold_spaces:
  "(\<And>x s. f x (on_spaces g s) = on_spaces g (f x s)) \<Longrightarrow> fold f xs (on_spaces g s) = on_spaces g (fold f xs s)"
  by (induction xs arbitrary: s) simp_all

lemma synced_tabs_spaces [simp]: "syncedTabsFor co i (on_spaces g s) = syncedTabsFor co i s"
  by (simp add: syncedTabsFor_def)

lemma spaces_frame:
  "wk_spaces (st_file (drop_pin n p s)) = wk_spaces (st_file s)"
  "wk_spaces (st_file (closeSyncedTab n i s)) = wk_spaces (st_file s)"
  using tombstone_file[of n "pin_key (pin_id p)" "on_file (\<lambda>f. f\<lparr>wk_pins := filter (\<lambda>q. pin_id q \<noteq> pin_id p) (wk_pins f)\<rparr>) s"]
    tombstone_file[of n "presence_key i" s]
  by (auto simp: drop_pin_def closeSyncedTab_def Let_def)

lemma fold_spaces_frame:
  "(\<And>x s. wk_spaces (st_file (f x s)) = wk_spaces (st_file s)) \<Longrightarrow>
   wk_spaces (st_file (fold f xs s)) = wk_spaces (st_file s)"
  by (induction xs arbitrary: s) simp_all

lemma remove_space: "matches (st_file s) \<Longrightarrow> matches (st_file (removeSpace co n i s))"
proof (cases "list_ex (\<lambda>x. sp_id x = i) (wk_spaces (st_file s))")
  case True
  assume m: "matches (st_file s)"
  define g :: "SpaceMeta list \<Rightarrow> SpaceMeta list" where "g = remove_first (\<lambda>x. sp_id x = i)"
  define pins where "pins = filter (\<lambda>p. pin_spaceId p = i) (wk_pins (st_file s))"
  define s2 where "s2 = fold (drop_pin n) pins s"
  define s3 where "s3 = fold (\<lambda>t. closeSyncedTab n (tp_id t)) (syncedTabsFor co i s2) s2"
  have s1: "on_file (\<lambda>f. f\<lparr>wk_spaces := remove_first (\<lambda>x. sp_id x = i) (wk_spaces f)\<rparr>) s = on_spaces g s"
    by (simp add: on_file_def g_def)
  have f2: "fold (drop_pin n) pins (on_spaces g s) = on_spaces g s2"
    by (simp add: s2_def fold_spaces drop_pin_spaces)
  have f3: "fold (\<lambda>t. closeSyncedTab n (tp_id t)) (syncedTabsFor co i s2) (on_spaces g s2) = on_spaces g s3"
    by (simp add: s3_def fold_spaces close_tab_spaces)
  have eq: "removeSpace co n i s = recordTombstone n (space_key i) (on_spaces g s3)"
    using True by (simp add: removeSpace_def s1 Let_def f2 f3 flip: pins_def)
  have m3: "matches (st_file s3)"
    unfolding s3_def s2_def by (intro fold_keeps[where P = "\<lambda>s. matches (st_file s)"] close_tab_keeps
        drop_pin_keeps m)
  obtain h where h: "st_file (removeSpace co n i s) =
      put_register (space_key i) \<lparr>lw_value = None, lw_hlc = h\<rparr> (wk_spaces_update g (st_file s3))"
    using tombstone_file[of n "space_key i" "on_spaces g s3"] eq by auto
  have u: "wk_spaces_update g (st_file s3) = (st_file s3)\<lparr>wk_spaces := g (wk_spaces (st_file s3))\<rparr>"
    by simp
  have "distinct (map sp_id (wk_spaces (st_file s3)))" using m3 by (simp add: matches_def)
  then show ?thesis
    unfolding h u by (intro drop_space[OF m3]) (simp_all add: g_def set_remove_first distinct_remove_first)
qed (simp add: removeSpace_def)

text \<open>The settings are patched first; each field might as well be patched as its register is written.\<close>

abbreviation on_settings :: "(WorkspaceSettings \<Rightarrow> WorkspaceSettings) \<Rightarrow> store \<Rightarrow> store" where
  "on_settings g \<equiv> on_file (wk_settings_update g)"

lemma stamped_put_settings: "stamped_put n k v (on_settings g s) = on_settings g (stamped_put n k v s)"
  by (simp add: stamped_put_def stamp_def on_file_def put_register_def module_clock_def
      case_prod_unfold Let_def)

lemma record_settings: "recordDoc n d (on_settings g s) = on_settings g (recordDoc n d s)"
  by (simp add: recordDoc_def stamped_put_settings Let_def)
    (simp add: on_file_def notifyDocs_def scheduleWrite_def)

definition record_setting :: "nat \<Rightarrow> WorkspaceSettingsDoc \<Rightarrow> store \<Rightarrow> store" where
  "record_setting n d s = on_settings (\<lambda>t. applySettingsDoc t d) (recordDoc n (SettingsDoc d) s)"

lemma record_setting_keeps: "matches (st_file s) \<Longrightarrow> matches (st_file (record_setting n d s))"
proof -
  assume m: "matches (st_file s)"
  obtain h where h: "st_file (recordDoc n (SettingsDoc d) s) =
      put_register (setting_key (settings_field d)) \<lparr>lw_value = Some (SettingsDoc d), lw_hlc = h\<rparr> (st_file s)"
    using record_file[of n "SettingsDoc d" s] by auto
  have "st_file (record_setting n d s) =
      put_register (setting_key (settings_field d)) \<lparr>lw_value = Some (SettingsDoc d), lw_hlc = h\<rparr>
        ((st_file s)\<lparr>wk_settings := applySettingsDoc (wk_settings (st_file s)) d\<rparr>)"
    by (simp add: record_setting_def h put_register_def)
  then show ?thesis using put_setting[OF m] by simp
qed

lemma fold_record_settings:
  "fold (\<lambda>d. recordDoc n (SettingsDoc d)) ds (on_settings (\<lambda>t. foldl applySettingsDoc t ds) s) =
   fold (record_setting n) ds s"
proof (induction ds arbitrary: s)
  case Nil
  then show ?case by (simp add: on_file_def)
next
  case (Cons d ds)
  have "on_settings (\<lambda>t. foldl applySettingsDoc t (d # ds)) (recordDoc n (SettingsDoc d) s) =
      on_settings (\<lambda>t. foldl applySettingsDoc t ds) (record_setting n d s)"
    by (simp add: record_setting_def on_file_def)
  then show ?case using Cons.IH by (simp add: record_settings)
qed

definition patched_fields :: "settings_patch \<Rightarrow> WorkspaceSettings \<Rightarrow> WorkspaceSettingsDoc list" where
  "patched_fields p t =
     (if sx_historySyncEnabled p \<noteq> None then [HistorySync (se_historySyncEnabled t)] else []) @
     (if sx_autoArchiveAfterHours p \<noteq> None then [AutoArchive (se_autoArchiveAfterHours t)] else []) @
     (if sx_keyMode p \<noteq> None then [KeyModeDoc (se_keyMode t)] else []) @
     (if sx_newTabUrl p \<noteq> None then [NewTabUrl (se_newTabUrl t)] else [])"

lemma patched_fields_apply: "foldl applySettingsDoc t (patched_fields p (patched_settings p t)) = patched_settings p t"
  by (cases t) (auto simp: patched_fields_def patched_settings_def split: option.splits)

lemma update_settings_eq:
  "updateSettings n p s =
     fold (record_setting n) (patched_fields p (patched_settings p (wk_settings (st_file s)))) s"
proof -
  let ?t = "patched_settings p (wk_settings (st_file s))"
  let ?ds = "patched_fields p ?t"
  have docs: "patched_docs p ?t = map SettingsDoc ?ds" by (simp add: patched_docs_def patched_fields_def)
  have "on_file (\<lambda>f. f\<lparr>wk_settings := patched_settings p (wk_settings f)\<rparr>) s =
      on_settings (\<lambda>t. foldl applySettingsDoc t ?ds) s"
    by (simp add: on_file_def patched_fields_apply)
  then have "updateSettings n p s =
      fold (recordDoc n) (patched_docs p ?t) (on_settings (\<lambda>t. foldl applySettingsDoc t ?ds) s)"
    by (simp add: updateSettings_def Let_def patched_fields_apply)
  then show ?thesis
    using fold_record_settings[of n ?ds s] by (simp only: docs fold_map comp_def)
qed

lemma update_settings: "matches (st_file s) \<Longrightarrow> matches (st_file (updateSettings n p s))"
  unfolding update_settings_eq
  by (intro fold_keeps[where P = "\<lambda>s. matches (st_file s)"] record_setting_keeps)

text \<open>History: its registers are none of the shown ones.\<close>

lemma shown_not_history: "shown_entity d \<Longrightarrow> take 8 (workspaceKeyFor d) \<noteq> history_prefix"
  by (cases d) (simp_all add: history_prefix_def)

lemma holds_filter:
  "well_keyed regs \<Longrightarrow> (\<And>r. Q (workspaceKeyFor d, r)) \<Longrightarrow> holds (filter Q regs) d = holds regs d"
  by (auto simp: holds_def doc_at_def js_get_filter well_keyed_wf split: option.splits)

lemma prune_keeps: "matches f \<Longrightarrow> matches (pruneHistory t f)"
  by (rule matches_other[of f])
    (auto simp: pruneHistory_def Let_def matches_def well_keyed_filter holds_filter shown_not_history)

lemma history_irrelevant: "matches (f\<lparr>wk_history := hs\<rparr>) \<longleftrightarrow> matches f"
  by (rule matches_cong) simp_all

lemma add_visit: "matches (st_file s) \<Longrightarrow> matches (st_file (addHistoryVisit n v s))"
proof -
  assume "matches (st_file s)"
  then have "matches (st_file (on_file (\<lambda>f. pruneHistory (hv_atMs v) (f\<lparr>wk_history := wk_history f @ [(v, False)]\<rparr>)) s))"
    by (simp add: prune_keeps history_irrelevant)
  then show ?thesis by (auto simp: addHistoryVisit_def Let_def intro: record_other)
qed

lemma retitled_keeps:
  assumes "matches f"
  shows "matches (retitled title v sh f)"
proof (rule matches_other[of f, OF assms])
  let ?v = "v\<lparr>hv_title := title\<rparr>"
  have k: "workspaceKeyFor (HistoryDoc ?v) = history_key (hv_id v)" by simp
  have wk: "well_keyed (wk_lww f)" using assms by (simp add: matches_def)
  show "well_keyed (wk_lww (retitled title v sh f))"
    using wk k by (auto simp: retitled_def Let_def well_keyed_def keyed_register_def intro: js_all_set split: option.splits)
  show "holds (wk_lww (retitled title v sh f)) d = holds (wk_lww f) d" if "shown_entity d" for d
    using that by (cases d) (auto simp: retitled_def Let_def holds_def doc_at_def split: option.splits)
qed (simp_all add: retitled_def Let_def)

lemma update_title: "matches (st_file s) \<Longrightarrow> matches (st_file (updateHistoryVisitTitle n i t s))"
  by (auto simp: updateHistoryVisitTitle_def Let_def history_irrelevant retitled_keeps
      intro!: record_other split: option.splits)

lemma clear_one_keeps: "matches (st_file (snd ks)) \<Longrightarrow> matches (st_file (snd (clear_one n i ks)))"
proof (cases ks)
  case (Pair k s)
  assume m: "matches (st_file (snd ks))"
  obtain h where "st_file (stamped_put n (history_key i) None s) =
      put_register (history_key i) \<lparr>lw_value = None, lw_hlc = h\<rparr> (st_file s)"
    using stamped_put_file by blast
  then show ?thesis using m Pair put_tombstone_other[of "st_file s" "history_key i"]
    by (simp add: clear_one_def shown_key_def)
qed

lemma clear_history: "matches (st_file s) \<Longrightarrow> matches (st_file (clearHistory n s))"
proof -
  assume "matches (st_file s)"
  then have "matches (st_file (snd (fold (clear_one n) (map (hv_id \<circ> fst) (wk_history (st_file s)))
      ([], on_file (\<lambda>f. f\<lparr>wk_history := []\<rparr>) s))))"
    by (intro fold_keeps[where P = "\<lambda>ks. matches (st_file (snd ks))"] clear_one_keeps)
      (simp add: history_irrelevant)
  then show ?thesis by (auto simp: clearHistory_def Let_def split: prod.splits)
qed

text \<open>Attachment registers are none of the shown ones.\<close>

lemma shown_not_attachment: "shown_entity d \<Longrightarrow> \<not> isAttachmentKey (workspaceKeyFor d)"
  by (cases d) (simp_all add: isAttachmentKey_def)

lemma put_keyed_attachment:
  assumes "matches f" "keyed_register k r" "isAttachmentKey k"
  shows "matches (put_register k r f)"
proof (rule matches_other[of f, OF assms(1)])
  show "well_keyed (wk_lww (put_register k r f))"
    using assms by (simp add: matches_def well_keyed_def js_all_set)
  show "holds (wk_lww (put_register k r f)) d = holds (wk_lww f) d" if "shown_entity d" for d
    using shown_not_attachment[OF that] assms(3) by (auto simp: holds_def doc_at_def)
qed simp_all

lemma replace_attachments:
  assumes "matches (st_file s)" "list_all (\<lambda>(k, r). keyed_register k r) regs"
  shows "matches (st_file (replaceAttachmentRegisters regs s))"
proof -
  let ?f = "(st_file s)\<lparr>wk_lww := filter (\<lambda>(k, r). \<not> isAttachmentKey k) (lww_of s)\<rparr>"
  have "matches ?f"
    by (rule matches_other[of "st_file s"])
      (use assms(1) in \<open>auto simp: matches_def well_keyed_filter holds_filter shown_not_attachment\<close>)
  moreover have "\<forall>x \<in> set (filter (\<lambda>(k, r). isAttachmentKey k) regs). keyed_register (fst x) (snd x) \<and> isAttachmentKey (fst x)"
    using assms(2) by (auto simp: list_all_iff)
  ultimately have "matches (fold (\<lambda>(k, r). put_register k r) (filter (\<lambda>(k, r). isAttachmentKey k) regs) ?f)"
    by (intro fold_keeps[where P = matches]) (auto intro: put_keyed_attachment)
  then show ?thesis by (simp add: replaceAttachmentRegisters_def)
qed

lemma restamp_keeps: "matches (st_file (snd cs)) \<Longrightarrow> matches (st_file (snd (restamp_one n k cs)))"
proof (cases cs)
  case (Pair c s)
  assume m: "matches (st_file (snd cs))"
  show ?thesis
  proof (cases "register_at s k")
    case (Some r)
    have kr: "keyed_register k r"
      using m Pair Some js_allD[of keyed_register "lww_of s" k r] by (simp add: matches_def well_keyed_def)
    have "matches ((st_file s)\<lparr>wk_lww := js_set (lww_of s) k (r\<lparr>lw_hlc := h\<rparr>)\<rparr>)" for h
      by (rule matches_other[of "st_file s"])
        (use m Pair Some kr in \<open>auto simp: matches_def well_keyed_def holds_def doc_at_def keyed_register_def intro: js_all_set\<close>)
    then show ?thesis using Pair Some by (simp add: restamp_one_def case_prod_unfold Let_def)
  qed (use m Pair in \<open>simp add: restamp_one_def\<close>)
qed

lemma publish_attachments: "matches (st_file s) \<Longrightarrow> matches (st_file (publishAttachmentRegisters n ks s))"
proof -
  assume "matches (st_file s)"
  then have "matches (st_file (snd (fold (restamp_one n) ks ([], s))))"
    by (intro fold_keeps[where P = "\<lambda>cs. matches (st_file (snd cs))"] restamp_keeps) simp
  then show ?thesis by (auto simp: publishAttachmentRegisters_def Let_def split: prod.splits)
qed

text \<open>A remote document.\<close>

lemma materialize_keeps:
  assumes "matches f"
  shows "matches (put_register (workspaceKeyFor d) \<lparr>lw_value = Some d, lw_hlc = h\<rparr> (materialize n d f))"
proof (cases d)
  case (SpaceDoc x)
  then show ?thesis using put_space[OF assms] by simp
next
  case (PinDoc p)
  then show ?thesis using put_pin[OF assms] by simp
next
  case (SettingsDoc e)
  then show ?thesis using put_setting[OF assms] by simp
next
  case (HistoryDoc v)
  then show ?thesis
    using put_doc_other[of "materialize n d f" d h] assms by (simp add: prune_keeps history_irrelevant)
next
  case (ArchiveDoc a)
  have "matches (f\<lparr>wk_archives := upsert ar_id a (wk_archives f)\<rparr>)"
    using assms by (simp add: matches_def)
  then show ?thesis using put_doc_other[of "materialize n d f" d h] ArchiveDoc by simp
qed (use put_doc_other[of f d h] assms in simp_all)

lemma drop_by_key_keeps:
  assumes "matches f"
  shows "matches (put_register k \<lparr>lw_value = None, lw_hlc = h\<rparr> (drop_by_key k f))"
proof -
  consider (space) "take 6 k = ''space:''" | (pin) "take 4 k = ''pin:''"
    | (setting) "take 9 k = ''settings:''" | (other) "\<not> shown_key k"
    by (auto simp: shown_key_def)
  then show ?thesis
  proof cases
    case space
    then obtain i where i: "k = space_key i" using space by (metis append_take_drop_id)
    then show ?thesis
      using drop_space[OF assms, of "filter (\<lambda>x. sp_id x \<noteq> i) (wk_spaces f)" i h] assms
      by (simp add: drop_by_key_def matches_def[of f] distinct_map_filter)
  next
    case pin
    then obtain i where i: "k = pin_key i" using pin by (metis append_take_drop_id)
    then show ?thesis
      using drop_pin_file[OF assms, of "filter (\<lambda>x. pin_id x \<noteq> i) (wk_pins f)" i h] assms
      by (simp add: drop_by_key_def matches_def[of f] distinct_map_filter)
  next
    case setting
    then obtain i where i: "k = ''settings:'' @ i" using setting by (metis append_take_drop_id)
    then have "drop_by_key k f = f" by (simp add: drop_by_key_def history_prefix_def)
    then show ?thesis using assms by (auto simp: matches_def i intro: well_keyed_put_tombstone)
  next
    case other
    have "matches (drop_by_key k f)"
      using assms other by (auto simp: drop_by_key_def shown_key_def matches_def)
    then show ?thesis using put_tombstone_other other by blast
  qed
qed

lemma apply_remote:
  assumes "matches (st_file s)" "case v of None \<Rightarrow> True | Some d \<Rightarrow> workspaceKeyFor d = k"
  shows "matches (st_file (applyRemoteDoc n k v h s))"
  using assms materialize_keeps drop_by_key_keeps by (cases v) (auto simp: applyRemoteDoc_def)

section \<open>What is written is what is read back\<close>

lemma read_written_settings [simp]: "read_settings (Some (written_settings t)) = t"
  by (simp add: read_settings_def written_settings_def Let_def)

definition default_flags :: "DeviceLocalState \<Rightarrow> DeviceLocalState" where
  "default_flags d = d\<lparr>dv_workspaceAttached := Some (given (dv_workspaceAttached d) True),
     dv_manualSyncInitialized := Some (given (dv_manualSyncInitialized d) False)\<rparr>"

lemma read_written_device: "read_device (Some (written_device d)) = default_flags d"
  by (cases d) (auto simp: read_device_def written_device_def default_flags_def emptyDeviceLocal_def Let_def
      split: option.splits)

lemma read_written_file:
  "read_file (Some (written_file f)) =
     f\<lparr>wk_deviceLocal := default_flags (wk_deviceLocal f),
       wk_history := map (\<lambda>(v, sh). (v, False)) (wk_history f),
       wk_lww := js_del (wk_lww f) ''settings''\<rparr>"
  by (cases f) (simp add: read_file_def written_file_def read_written_device comp_def case_prod_unfold)

lemma no_key_settings: "workspaceKeyFor d \<noteq> ''settings''"
  by (cases d) simp_all

lemma read_written_matches: "matches f \<Longrightarrow> matches (read_file (Some (written_file f)))"
  unfolding read_written_file
  by (rule matches_other[of f])
    (auto simp: matches_def well_keyed_def holds_def doc_at_def no_key_settings intro: js_all_del)

lemma matches_empty: "matches emptyFile"
  by (simp add: matches_def emptyFile_def well_keyed_def holds_def doc_at_def)

section \<open>Along a run\<close>

definition disk_ok :: "store \<Rightarrow> bool" where
  "disk_ok s \<longleftrightarrow> matches (read_file (st_disk s))"

lemma fold_disk: "(\<And>x s. st_disk (f x s) = st_disk s) \<Longrightarrow> st_disk (fold f xs s) = st_disk s"
  by (induction xs arbitrary: s) simp_all

lemma fold_disk_snd:
  "(\<And>x c. st_disk (snd (f x c)) = st_disk (snd c)) \<Longrightarrow> st_disk (snd (fold f xs c)) = st_disk (snd c)"
  by (induction xs arbitrary: c) simp_all

lemma drop_pin_disk [simp]: "st_disk (drop_pin n p s) = st_disk s"
  by (simp add: drop_pin_def)

lemma close_tab_disk [simp]: "st_disk (closeSyncedTab n i s) = st_disk s"
  by (simp add: closeSyncedTab_def Let_def)

lemma records_disk [simp]: "st_disk (recordDocs n ds s) = st_disk s"
  by (simp add: recordDocs_def fold_disk)

lemma clear_one_disk [simp]: "st_disk (snd (clear_one n i c)) = st_disk (snd c)"
  by (cases c) (simp add: clear_one_def)

lemma restamp_one_disk [simp]: "st_disk (snd (restamp_one n k c)) = st_disk (snd c)"
  by (cases c) (simp add: restamp_one_def case_prod_unfold Let_def split: option.split)

lemma clear_disk [simp]: "st_disk (clearHistory n s) = st_disk s"
  by (simp add: clearHistory_def Let_def case_prod_unfold fold_disk_snd)

lemma publish_disk [simp]: "st_disk (publishAttachmentRegisters n ks s) = st_disk s"
  by (simp add: publishAttachmentRegisters_def Let_def case_prod_unfold fold_disk_snd)

lemma settings_disk [simp]: "st_disk (updateSettings n p s) = st_disk s"
  by (simp add: updateSettings_def Let_def fold_disk)

lemma remove_space_disk [simp]: "st_disk (removeSpace co n i s) = st_disk s"
  by (simp add: removeSpace_def Let_def fold_disk)

lemmas local_defs = store_setOriginOverride_def setSignInQueue_def markSignedIn_def setPermissionDecision_def
  setActiveSpaceId_def setActiveTabFor_def setSplitTabFor_def setTodayTabs_def markRealtimeTabsMigrated_def
  addNativeTransportDomain_def setDownloads_def setEgressConfig_def markManualSyncInitialized_def
  on_device_def receiveWorkspaceHlc_def resetWorkspaceHlc_def

lemmas doc_defs = setSpaceFolder_def removeSpaceFolder_def openSyncedTab_def updateSyncedTabUrl_def
  updateSyncedTabOrder_def updateSyncedTabOrders_def updateSyncedWorkspaceFocus_def
  publishCurrentWorkspaceFocus_def updateSyncedDeviceActivity_def addArchive_def

fun touches_disk :: "store_op \<Rightarrow> bool" where
  "touches_disk OpWriteTimer = True"
| "touches_disk OpFlush = True"
| "touches_disk (OpReload d c) = True"
| "touches_disk _ = False"

lemma step_disk: "\<not> touches_disk x \<Longrightarrow> st_disk (store_step co x s) = st_disk s"
  by (cases x)
    (simp_all add: upsertSpace_def upsertPin_def updatePin_def removePin_def local_defs doc_defs Let_def
      addHistoryVisit_def updateHistoryVisitTitle_def replaceAttachmentRegisters_def applyRemoteDoc_def
      split: option.split)

lemma matches_local:
  "matches (f\<lparr>wk_originOverrides := a\<rparr>) = matches f" "matches (f\<lparr>wk_signInQueue := b\<rparr>) = matches f"
  "matches (f\<lparr>wk_permissionGrants := c\<rparr>) = matches f" "matches (f\<lparr>wk_deviceLocal := d\<rparr>) = matches f"
  "matches (f\<lparr>wk_downloads := e\<rparr>) = matches f" "matches (f\<lparr>wk_egress := g\<rparr>) = matches f"
  "matches (f\<lparr>wk_archives := h\<rparr>) = matches f"
  by (simp_all add: matches_def)

lemma folder_keeps: "matches (st_file s) \<Longrightarrow> matches (st_file (removeSpaceFolder n i s))"
  unfolding removeSpaceFolder_def by (rule tombstone_other) (simp_all add: shown_key_def)

lemma activity_keeps: "matches (st_file s) \<Longrightarrow> matches (st_file (updateSyncedDeviceActivity n a s))"
  using record_other[of s "DeviceActivityDoc a" n]
  by (simp add: updateSyncedDeviceActivity_def split: option.split)

lemma focus_keeps: "matches (st_file s) \<Longrightarrow> matches (st_file (updateSyncedWorkspaceFocus n f s))"
  using record_other[of s "WorkspaceFocusDoc f" n] by (simp add: updateSyncedWorkspaceFocus_def)

lemma orders_keep: "matches (st_file s) \<Longrightarrow> matches (st_file (updateSyncedTabOrders n vs s))"
  unfolding updateSyncedTabOrders_def
  by (rule records_other) (auto simp: List.map_filter_def Let_def split: if_splits)

lemma open_tab_keeps: "matches (st_file s) \<Longrightarrow> matches (st_file (openSyncedTab n t s))"
  unfolding openSyncedTab_def by (rule records_other) auto

lemma archive_keeps: "matches (st_file s) \<Longrightarrow> matches (st_file (addArchive n a s))"
  unfolding addArchive_def by (rule record_other) (simp_all add: matches_local)

lemmas shown_keeps = update_space remove_space update_pin patch_pin remove_pin update_settings
  open_tab_keeps orders_keep close_tab_keeps focus_keeps activity_keeps archive_keeps add_visit
  update_title clear_history replace_attachments publish_attachments

lemma step_matches:
  assumes "matches (st_file s)" "op_keyed x" "\<not> touches_disk x"
  shows "matches (st_file (store_step co x s))"
proof (cases x)
  case (OpRemote n k v h)
  then show ?thesis using apply_remote[OF assms(1), where v = v and k = k and n = n and h = h] assms(2) by (cases v) simp_all
qed (use assms in \<open>simp_all add: shown_keeps local_defs Let_def matches_local setSpaceFolder_def
    folder_keeps record_other updateSyncedTabUrl_def
    updateSyncedTabOrder_def publishCurrentWorkspaceFocus_def\<close>)

lemma step_touching:
  assumes "matches (st_file s) \<and> disk_ok s" "touches_disk x"
  shows "matches (st_file (store_step co x s)) \<and> disk_ok (store_step co x s)"
  using assms read_written_matches
  by (cases x) (auto simp: write_timer_def flushSync_def write_store_def new_store_def disk_ok_def)

text \<open>The invariant of a run in which what comes from outside is keyed as the code keys it.\<close>

interpretation store_run: kept_invariant
  "\<lambda>s x. if op_keyed x then store_step co x s else s" "\<lambda>s. matches (st_file s) \<and> disk_ok s"
  for co
proof
  fix s :: store and x :: store_op
  assume inv: "matches (st_file s) \<and> disk_ok s"
  show "matches (st_file (if op_keyed x then store_step co x s else s)) \<and>
      disk_ok (if op_keyed x then store_step co x s else s)"
  proof (cases "op_keyed x")
    case True
    then show ?thesis
      using inv step_matches[of s x co] step_touching[OF inv, of x co] step_disk[of x co s]
      by (cases "touches_disk x") (auto simp: disk_ok_def)
  qed (use inv in simp)
qed

end
