(* ===== verification/WorkspaceSafety.thy ===== *)
theory WorkspaceSafety
  imports WorkspaceFacts
begin

text \<open>
  Properties of the workspace store over its runs: the view of the registers, the key mode, the
  bound of the history, and the sharing that lets a title reach a register.
\<close>

section \<open>The settings and the visits\<close>

definition view_of :: "WorkspaceFile \<Rightarrow> WorkspaceSettings \<times> HistoryVisit list" where
  "view_of f = (wk_settings f, map fst (wk_history f))"

lemma unshare_visits [simp]: "map fst (unshare k hs) = map fst hs"
  by (simp add: unshare_def case_prod_unfold comp_def)

lemma unshare_length [simp]: "length (unshare k hs) = length hs"
  by (simp add: unshare_def)

lemma view_put [simp]: "view_of (put_register k r f) = view_of f"
  by (simp add: view_of_def put_register_def)

lemma view_updates [simp]:
  "view_of (f\<lparr>wk_spaces := a\<rparr>) = view_of f" "view_of (f\<lparr>wk_pins := b\<rparr>) = view_of f"
  "view_of (f\<lparr>wk_archives := c\<rparr>) = view_of f" "view_of (f\<lparr>wk_lww := d\<rparr>) = view_of f"
  "view_of (f\<lparr>wk_originOverrides := e\<rparr>) = view_of f" "view_of (f\<lparr>wk_signInQueue := g\<rparr>) = view_of f"
  "view_of (f\<lparr>wk_permissionGrants := h\<rparr>) = view_of f" "view_of (f\<lparr>wk_deviceLocal := i\<rparr>) = view_of f"
  "view_of (f\<lparr>wk_downloads := j\<rparr>) = view_of f" "view_of (f\<lparr>wk_egress := k\<rparr>) = view_of f"
  by (simp_all add: view_of_def)

abbreviation view :: "store \<Rightarrow> WorkspaceSettings \<times> HistoryVisit list" where
  "view s \<equiv> view_of (st_file s)"

lemma view_stamped [simp]: "view (stamped_put n k v s) = view s"
  using stamped_put_file[of n k v s] by auto

lemma view_record [simp]: "view (recordDoc n d s) = view s" "view (recordTombstone n k s) = view s"
  using record_file[of n d s] tombstone_file[of n k s] by auto

lemma view_fold: "(\<And>x s. view (f x s) = view s) \<Longrightarrow> view (fold f xs s) = view s"
  by (induction xs arbitrary: s) simp_all

lemma view_records [simp]: "view (recordDocs n ds s) = view s"
  by (simp add: recordDocs_def view_fold)

lemma view_drop_pin [simp]: "view (drop_pin n p s) = view s"
  by (simp add: drop_pin_def)

lemma view_close_tab [simp]: "view (closeSyncedTab n i s) = view s"
  by (simp add: closeSyncedTab_def Let_def)

lemma view_remove_space [simp]: "view (removeSpace co n i s) = view s"
  by (simp add: removeSpace_def Let_def view_fold)

lemma view_restamp: "view (snd (restamp_one n k c)) = view (snd c)"
  by (cases c) (simp add: restamp_one_def case_prod_unfold Let_def split: option.split)

lemma view_publish [simp]: "view (publishAttachmentRegisters n ks s) = view s"
proof -
  have "view (snd (fold (restamp_one n) ks c)) = view (snd c)" for c
    by (induction ks arbitrary: c) (simp_all add: view_restamp)
  then show ?thesis by (simp add: publishAttachmentRegisters_def Let_def case_prod_unfold)
qed

lemma view_put_fold: "view_of (fold (\<lambda>(k, r). put_register k r) regs f) = view_of f"
  by (induction regs arbitrary: f) auto

lemma view_replace [simp]: "view (replaceAttachmentRegisters regs s) = view s"
  by (simp add: replaceAttachmentRegisters_def view_put_fold)

fun plain_op :: "store_op \<Rightarrow> bool" where
  "plain_op (OpSettings n p) = False"
| "plain_op (OpVisit n v) = False"
| "plain_op (OpVisitTitle n i t) = False"
| "plain_op (OpClearHistory n) = False"
| "plain_op (OpRemote n k v h) = False"
| "plain_op (OpReload d c) = False"
| "plain_op _ = True"

lemma view_plain: "plain_op x \<Longrightarrow> view (store_step co x s) = view s"
  by (cases x)
    (simp_all add: upsertSpace_def upsertPin_def updatePin_def removePin_def local_defs doc_defs Let_def
      write_timer_def flushSync_def write_store_def split: option.split)

section \<open>The key mode\<close>

text \<open>The operations that write the key mode.\<close>

fun writes_key_mode :: "store_op \<Rightarrow> bool" where
  "writes_key_mode (OpSettings n p) = (sx_keyMode p \<noteq> None)"
| "writes_key_mode (OpRemote n k (Some (SettingsDoc (KeyModeDoc m))) h) = True"
| "writes_key_mode _ = False"

abbreviation key_mode :: "WorkspaceFile \<Rightarrow> KeyMode" where
  "key_mode f \<equiv> se_keyMode (wk_settings f)"

lemma key_mode_view: "view_of f = view_of g \<Longrightarrow> key_mode f = key_mode g"
  by (simp add: view_of_def)

lemma key_mode_put [simp]: "key_mode (put_register k r f) = key_mode f"
  by (simp add: put_register_def)

lemma settings_prune [simp]: "wk_settings (pruneHistory t f) = wk_settings f"
  by (simp add: pruneHistory_def Let_def)

lemma settings_drop [simp]: "wk_settings (drop_by_key k f) = wk_settings f"
  by (simp add: drop_by_key_def)

lemma key_mode_record: "wk_settings (st_file (recordDoc n d s)) = wk_settings (st_file s)"
  using record_file[of n d s] by auto

lemma key_mode_settings:
  "sx_keyMode p = None \<Longrightarrow> key_mode (st_file (updateSettings n p s)) = key_mode (st_file s)"
proof -
  assume none: "sx_keyMode p = None"
  have "wk_settings (st_file (fold (recordDoc n) ds t)) = wk_settings (st_file t)" for ds t
    by (induction ds arbitrary: t) (simp_all add: key_mode_record)
  then show ?thesis using none by (simp add: updateSettings_def Let_def patched_settings_def)
qed

lemma clear_history_settings: "wk_settings (st_file (clearHistory n s)) = wk_settings (st_file s)"
proof -
  have one: "wk_settings (st_file (snd (clear_one n i c))) = wk_settings (st_file (snd c))" for i c
    using stamped_put_file[of n "history_key i" None "snd c"] by (cases c) (auto simp: clear_one_def)
  have "wk_settings (st_file (snd (fold (clear_one n) is c))) = wk_settings (st_file (snd c))" for "is" c
    by (induction "is" arbitrary: c) (simp_all add: one)
  then show ?thesis by (simp add: clearHistory_def Let_def case_prod_unfold)
qed

lemma title_settings: "wk_settings (st_file (updateHistoryVisitTitle n i t s)) = wk_settings (st_file s)"
  by (auto simp: updateHistoryVisitTitle_def Let_def key_mode_record retitled_def split: option.splits)

lemma materialize_key_mode:
  "\<not> writes_key_mode (OpRemote n k (Some d) h) \<Longrightarrow> key_mode (materialize n d f) = key_mode f"
proof (cases d)
  case (SettingsDoc e)
  then show "\<not> writes_key_mode (OpRemote n k (Some d) h) \<Longrightarrow> ?thesis" by (cases e) simp_all
qed simp_all

lemma key_mode_step:
  assumes "\<not> writes_key_mode x" "key_mode (st_file s) = m" "key_mode (read_file (st_disk s)) = m"
  shows "key_mode (st_file (store_step co x s)) = m \<and> key_mode (read_file (st_disk (store_step co x s))) = m"
proof (cases "touches_disk x")
  case True
  then show ?thesis
    using assms by (cases x) (auto simp: write_timer_def flushSync_def write_store_def new_store_def read_written_file)
next
  case False
  have "key_mode (st_file (store_step co x s)) = key_mode (st_file s)"
  proof (cases "plain_op x")
    case True
    then show ?thesis using view_plain key_mode_view by blast
  next
    case np: False
    show ?thesis
    proof (cases x)
      case (OpRemote n k v h)
      show ?thesis
      proof (cases v)
        case (Some d)
        then show ?thesis using OpRemote assms(1) materialize_key_mode[of n k d h]
          by (simp add: applyRemoteDoc_def)
      qed (simp add: OpRemote applyRemoteDoc_def)
    qed (use np assms False in \<open>simp_all add: key_mode_settings clear_history_settings title_settings
        addHistoryVisit_def Let_def key_mode_record\<close>)
  qed
  then show ?thesis using assms step_disk[OF False, of co s] by simp
qed

text \<open>
  Section 8.2 of the product requirements, no silent downgrade: whatever operations a store runs,
  documents from other devices and reloads of the file included, its key mode is the one it started
  with unless an operation of the run writes the key mode itself.
\<close>

theorem key_mode_never_silently_changed:
  assumes "\<forall>x \<in> set ops. \<not> writes_key_mode x" "key_mode (read_file (st_disk s)) = key_mode (st_file s)"
  shows "key_mode (st_file (foldl (\<lambda>s x. store_step co x s) s ops)) = key_mode (st_file s)"
proof -
  have "key_mode (st_file (foldl (\<lambda>s x. store_step co x s) s ops)) = m \<and>
      key_mode (read_file (st_disk (foldl (\<lambda>s x. store_step co x s) s ops))) = m"
    if "key_mode (st_file s) = m" "key_mode (read_file (st_disk s)) = m" for m
    using assms(1) that
  proof (induction ops arbitrary: s)
    case (Cons x ops)
    then show ?case using key_mode_step[of x s m co] by simp
  qed simp
  then show ?thesis using assms(2) by simp
qed

definition example_patch :: settings_patch where
  "example_patch = \<lparr>sx_historySyncEnabled = Some True, sx_autoArchiveAfterHours = None,
     sx_keyMode = None, sx_newTabUrl = None\<rparr>"

lemma key_mode_never_silently_changed_witness:
  "key_mode (st_file (foldl (\<lambda>s x. store_step id x s) (new_store None ''mac'' None)
     [OpSettings 1000 example_patch,
      OpRemote 2000 ''settings:autoArchive'' (Some (SettingsDoc (AutoArchive 24)))
        \<lparr>physicalMs = 5, logical = 0, deviceId = ''b''\<rparr>,
      OpFlush, OpReload ''mac'' None])) = E2ee"
proof -
  let ?ops = "[OpSettings 1000 example_patch,
      OpRemote 2000 ''settings:autoArchive'' (Some (SettingsDoc (AutoArchive 24)))
        \<lparr>physicalMs = 5, logical = 0, deviceId = ''b''\<rparr>,
      OpFlush, OpReload ''mac'' None]"
  have ops: "\<forall>x \<in> set ?ops. \<not> writes_key_mode x" by (simp add: example_patch_def)
  have disk: "key_mode (read_file (st_disk (new_store None ''mac'' None))) = key_mode (st_file (new_store None ''mac'' None))"
    by (simp add: new_store_def)
  have init: "key_mode (st_file (new_store None ''mac'' None)) = E2ee"
    by (simp add: new_store_def read_file_def emptyFile_def DEFAULT_WORKSPACE_SETTINGS_def)
  show ?thesis using key_mode_never_silently_changed[OF ops disk, of id] init by simp
qed

section \<open>The bound of the history\<close>

lemma pruned_length: "length (pruned_history t hs) \<le> HISTORY_MAX_VISITS"
  by (simp add: pruned_history_def Let_def)

lemma pruned_age: "cell \<in> set (pruned_history t hs) \<Longrightarrow> t - HISTORY_RETENTION_MS \<le> hv_atMs (fst cell)"
  by (auto simp: pruned_history_def Let_def split: if_splits dest!: in_set_dropD)

abbreviation visits :: "WorkspaceFile \<Rightarrow> nat" where
  "visits f \<equiv> length (wk_history f)"

lemma visits_view: "visits f = length (snd (view_of f))"
  by (simp add: view_of_def)

lemma visits_put [simp]: "visits (put_register k r f) = visits f"
  by (simp add: put_register_def)

lemma visits_prune: "visits (pruneHistory t f) \<le> HISTORY_MAX_VISITS"
  by (simp add: pruneHistory_def Let_def pruned_length)

lemma visits_record: "visits (st_file (recordDoc n d s)) = visits (st_file s)"
  by (simp add: visits_view)

lemma length_replace_first [simp]: "length (replace_first P y xs) = length xs"
  by (induction xs) auto

lemma visits_settings: "visits (st_file (updateSettings n p s)) = visits (st_file s)"
proof -
  have "visits (st_file (fold (recordDoc n) ds t)) = visits (st_file t)" for ds t
    by (induction ds arbitrary: t) (simp_all add: visits_record)
  then show ?thesis by (simp add: updateSettings_def Let_def)
qed

lemma visits_add: "visits (st_file (addHistoryVisit n v s)) \<le> HISTORY_MAX_VISITS"
  by (simp add: addHistoryVisit_def Let_def visits_record visits_prune)

lemma visits_title: "visits (st_file (updateHistoryVisitTitle n i t s)) = visits (st_file s)"
  by (auto simp: updateHistoryVisitTitle_def Let_def visits_record retitled_def share_first_def split: option.splits)

lemma visits_clear: "visits (st_file (clearHistory n s)) = 0"
proof -
  have one: "visits (st_file (snd (clear_one n i c))) = visits (st_file (snd c))" for i c
    using stamped_put_file[of n "history_key i" None "snd c"] by (cases c) (auto simp: clear_one_def)
  have "visits (st_file (snd (fold (clear_one n) is c))) = visits (st_file (snd c))" for "is" c
    by (induction "is" arbitrary: c) (simp_all add: one)
  from this[of "map (hv_id \<circ> fst) (wk_history (st_file s))" "([], on_file (\<lambda>f. f\<lparr>wk_history := []\<rparr>) s)"]
  show ?thesis by (simp add: clearHistory_def Let_def case_prod_unfold)
qed

lemma visits_materialize:
  "visits f \<le> HISTORY_MAX_VISITS \<Longrightarrow> visits (materialize n d f) \<le> HISTORY_MAX_VISITS"
  by (cases d) (simp_all add: visits_prune)

lemma visits_drop: "visits f \<le> HISTORY_MAX_VISITS \<Longrightarrow> visits (drop_by_key k f) \<le> HISTORY_MAX_VISITS"
  by (simp add: drop_by_key_def) (meson le_trans length_filter_le)

lemma visits_step:
  assumes "visits (st_file s) \<le> HISTORY_MAX_VISITS" "visits (read_file (st_disk s)) \<le> HISTORY_MAX_VISITS"
  shows "visits (st_file (store_step co x s)) \<le> HISTORY_MAX_VISITS \<and>
    visits (read_file (st_disk (store_step co x s))) \<le> HISTORY_MAX_VISITS"
proof (cases "touches_disk x")
  case True
  then show ?thesis
    using assms by (cases x) (auto simp: write_timer_def flushSync_def write_store_def new_store_def read_written_file)
next
  case False
  have "visits (st_file (store_step co x s)) \<le> HISTORY_MAX_VISITS"
  proof (cases "plain_op x")
    case True
    then show ?thesis using view_plain[OF True, of co s] assms(1) by (simp add: visits_view)
  next
    case np: False
    show ?thesis
    proof (cases x)
      case (OpRemote n k v h)
      then show ?thesis using assms(1) by (cases v) (simp_all add: applyRemoteDoc_def visits_materialize visits_drop)
    qed (use np assms False in \<open>simp_all add: visits_settings visits_add visits_title visits_clear\<close>)
  qed
  then show ?thesis using assms(2) step_disk[OF False, of co s] by simp
qed

text \<open>
  Retention: along every run from a new installation the history holds at most 2000 visits, and
  recording a visit leaves none older than ninety days before it.
\<close>

theorem history_stays_bounded:
  "length (historyVisits (foldl (\<lambda>s x. store_step co x s) (new_store None d c) ops)) \<le> HISTORY_MAX_VISITS \<and>
   (\<forall>n v. list_all (\<lambda>w. hv_atMs v - HISTORY_RETENTION_MS \<le> hv_atMs w)
      (historyVisits (addHistoryVisit n v (foldl (\<lambda>s x. store_step co x s) (new_store None d c) ops))))"
proof -
  let ?run = "foldl (\<lambda>s x. store_step co x s) (new_store None d c) ops"
  have "visits (st_file (foldl (\<lambda>s x. store_step co x s) s ops)) \<le> HISTORY_MAX_VISITS"
    if "visits (st_file s) \<le> HISTORY_MAX_VISITS \<and> visits (read_file (st_disk s)) \<le> HISTORY_MAX_VISITS" for s
    using that
  proof (induction ops arbitrary: s)
    case (Cons x ops)
    then show ?case using visits_step[of s co x] by simp
  qed simp
  from this[of "new_store None d c"] have bound: "visits (st_file ?run) \<le> HISTORY_MAX_VISITS"
    by (simp add: new_store_def read_file_def emptyFile_def)
  have age: "hv_atMs v - HISTORY_RETENTION_MS \<le> hv_atMs w"
    if "w \<in> set (historyVisits (addHistoryVisit n v s))" for n v w s
  proof -
    have vw: "map fst (wk_history (st_file (recordDoc m e t))) = map fst (wk_history (st_file t))" for m e t
      using view_record(1)[of m e t] by (simp add: view_of_def)
    have "w \<in> set (map fst (wk_history (pruneHistory (hv_atMs v)
        ((st_file s)\<lparr>wk_history := wk_history (st_file s) @ [(v, False)]\<rparr>))))"
      using that vw by (auto simp: historyVisits_def addHistoryVisit_def Let_def split: if_splits simp flip: set_map)
    then show ?thesis using pruned_age by (auto simp: pruneHistory_def Let_def)
  qed
  show ?thesis using bound age by (simp add: historyVisits_def[of ?run] list_all_iff)
qed

section \<open>A title that reaches a register\<close>

lemma register_put: "js_get (wk_lww (put_register k r f)) k' = (if k' = k then Some r else js_get (wk_lww f) k')"
  by simp

text \<open>
  The comment of \<open>updateHistoryVisitTitle\<close> promises that an unsynced visit does not leak via its
  title.  Once a title was published the register holds the visit object of the history; with history
  sync then disabled, a later title still changes the register, under its old stamp.
\<close>

theorem unsynced_title_reaches_register:
  assumes "find (\<lambda>(x, sh). hv_id x = i) (wk_history (st_file s)) = Some (v, True)"
    and "register_at s (history_key i) = Some r" and "\<not> se_historySyncEnabled (wk_settings (st_file s))"
    and "hv_title v \<noteq> title"
  shows "register_at (updateHistoryVisitTitle n i title s) (history_key i) =
    Some (r\<lparr>lw_value := Some (HistoryDoc (v\<lparr>hv_title := title\<rparr>))\<rparr>)"
proof -
  have "hv_id v = i" using find_SomeD[OF assms(1)] by simp
  then show ?thesis
    using assms by (simp add: updateHistoryVisitTitle_def Let_def retitled_def)
qed

definition example_visit :: HistoryVisit where
  "example_visit = \<lparr>hv_id = ''v'', hv_url = ''u'', hv_title = [], hv_atMs = 5\<rparr>"

definition sync_patch :: "bool \<Rightarrow> settings_patch" where
  "sync_patch b = \<lparr>sx_historySyncEnabled = Some b, sx_autoArchiveAfterHours = None,
     sx_keyMode = None, sx_newTabUrl = None\<rparr>"

definition titled_store :: store where
  "titled_store = foldl (\<lambda>s x. store_step id x s) (new_store None ''m'' None)
     [OpSettings 1 (sync_patch True), OpVisit 2 example_visit, OpVisitTitle 3 ''v'' ''a'',
      OpSettings 4 (sync_patch False)]"

lemma unsynced_title_reaches_register_witness:
  "map_option lw_value (register_at titled_store (history_key ''v'')) = Some (Some (HistoryDoc (example_visit\<lparr>hv_title := ''a''\<rparr>))) \<and>
   map_option lw_value (register_at (updateHistoryVisitTitle 5 ''v'' ''b'' titled_store) (history_key ''v'')) =
     Some (Some (HistoryDoc (example_visit\<lparr>hv_title := ''b''\<rparr>)))"
proof -
  have f: "find (\<lambda>(x, sh). hv_id x = ''v'') (wk_history (st_file titled_store)) =
      Some (example_visit\<lparr>hv_title := ''a''\<rparr>, True)"
    and d: "\<not> se_historySyncEnabled (wk_settings (st_file titled_store))"
    and r: "map_option lw_value (register_at titled_store (history_key ''v'')) =
      Some (Some (HistoryDoc (example_visit\<lparr>hv_title := ''a''\<rparr>)))"
    by code_simp+
  then obtain g where g: "register_at titled_store (history_key ''v'') = Some g" by auto
  show ?thesis using unsynced_title_reaches_register[OF f g d, of "''b''" 5] r
    by (simp add: example_visit_def)
qed

section \<open>The registers and what is shown\<close>

lemma run_matches:
  assumes "list_all op_keyed ops"
  shows "matches (st_file (foldl (\<lambda>s x. store_step co x s) (new_store None d c) ops))"
proof -
  have "foldl (\<lambda>s x. store_step co x s) s ops = foldl (\<lambda>s x. if op_keyed x then store_step co x s else s) s ops" for s
    using assms by (induction ops arbitrary: s) simp_all
  moreover have "matches (st_file (new_store None d c)) \<and> disk_ok (new_store None d c)"
    by (simp add: new_store_def read_file_def disk_ok_def matches_empty)
  ultimately show ?thesis
    using store_run.along_run[where co = co and xs = ops and s = "new_store None d c"] by simp
qed


definition example_space :: SpaceMeta where
  "example_space = \<lparr>sp_id = ''p'', sp_name = ''Personal'', sp_color = ''blue'', sp_icon = None,
     sp_position = 0, sp_egressPolicy = SumaIp, sp_createdAtMs = 7\<rparr>"

definition example_ops :: "store_op list" where
  "example_ops = [OpUpsertSpace 10 example_space, OpSetFolder 11 ''p'' ''Personal'']"

lemma example_ops_keyed: "list_all op_keyed example_ops"
  by (simp add: example_ops_def)

lemma example_register:
  "register_at (foldl (\<lambda>s x. store_step id x s) (new_store None ''m'' None) example_ops) ''space:p'' =
     Some \<lparr>lw_value = Some (SpaceDoc example_space), lw_hlc = \<lparr>physicalMs = 10, logical = 0, deviceId = ''m''\<rparr>\<rparr>"
  by code_simp




end
