(* ===== verification/WorkspaceSync.thy ===== *)
theory WorkspaceSync
  imports WorkspaceStore DeviceToken
begin

text \<open>
  The synchronization of the workspace store with the session hub
  (apps/desktop/src/main/sync/workspace-sync.ts): publishing of dirty documents and of the device's
  own restore point, merging of remote documents, and the explicit Push, Pull and Merge of tabs and
  focus.  JSON text, the typed reading of a document, URI component coding and the collation of
  \<open>localeCompare\<close> are parameters; a stamp read from JSON has natural numbers.  An operation is one
  step, but for \<open>synchronize\<close>, which has two: the session fence is awaited between them.  An operation
  that rejects returns the error beside the state it leaves.  The text of an attachment fingerprint is
  equal exactly when the sorted documents are.
\<close>

section \<open>Constants and parameters\<close>

definition PUBLISH_DEBOUNCE_MS :: nat where "PUBLISH_DEBOUNCE_MS = 40"

definition PUBLISH_FENCE_RETRY_MS :: nat where "PUBLISH_FENCE_RETRY_MS = 1000"

definition LEGACY_HANDOFF_KEY_PREFIX :: string where "LEGACY_HANDOFF_KEY_PREFIX = ''handoff:''"

definition DEVICE_SNAPSHOT_KEY_PREFIX :: string where "DEVICE_SNAPSHOT_KEY_PREFIX = ''device-workspace:''"

definition TAB_ORDER_STEP :: int where "TAB_ORDER_STEP = 2 ^ 64"

record sync_env =
  we_collate :: "string \<Rightarrow> string"
  we_encodeURI :: "string \<Rightarrow> string"
  we_decodeURI :: "string \<Rightarrow> string option"
  we_stringify :: "json \<Rightarrow> byte list"
  we_parse :: "byte list \<Rightarrow> json option"
  we_doc_json :: "WorkspaceDoc \<Rightarrow> json"
  we_json_doc :: "json \<Rightarrow> WorkspaceDoc"
  we_sign :: "byte list \<Rightarrow> byte list"

record DeviceWorkspaceSnapshot =
  sn_deviceId :: string
  sn_capturedAtMs :: int
  sn_registers :: registers
  sn_hlc :: hlc

section \<open>Keys, registers, fingerprints\<close>

definition js_starts_with :: "string \<Rightarrow> string \<Rightarrow> bool" where
  "js_starts_with s p \<longleftrightarrow> take (length p) s = p"

definition deviceSnapshotKey :: "sync_env \<Rightarrow> string \<Rightarrow> string" where
  "deviceSnapshotKey env i = DEVICE_SNAPSHOT_KEY_PREFIX @ we_encodeURI env i"

definition snapshotDeviceId :: "sync_env \<Rightarrow> string \<Rightarrow> string option" where
  "snapshotDeviceId env key =
     (if \<not> js_starts_with key DEVICE_SNAPSHOT_KEY_PREFIX then None
      else (case we_decodeURI env (drop (length DEVICE_SNAPSHOT_KEY_PREFIX) key) of
              None \<Rightarrow> None | Some i \<Rightarrow> if i = [] then None else Some i))"

definition attachmentRegisters :: "registers \<Rightarrow> registers" where
  "attachmentRegisters source = filter (\<lambda>(key, r). isAttachmentKey key) source"

definition add_new :: "'a \<Rightarrow> 'a list \<Rightarrow> 'a list" where
  "add_new x xs = (if x \<in> set xs then xs else xs @ [x])"

definition liveTabIds :: "registers \<Rightarrow> string list" where
  "liveTabIds regs =
     foldl (\<lambda>ids d. case d of TabPresenceDoc t \<Rightarrow> add_new (tp_id t) ids | _ \<Rightarrow> ids) [] (live_docs regs)"

text \<open>What a fingerprint is the text of.\<close>

definition attachmentFingerprint :: "sync_env \<Rightarrow> registers \<Rightarrow> (string \<times> WorkspaceDoc) list" where
  "attachmentFingerprint env regs =
     sort_key (\<lambda>(k, d). we_collate env k)
       (List.map_filter (\<lambda>(k, r). map_option (Pair k) (lw_value r)) regs)"

definition attachmentContentEqual :: "sync_env \<Rightarrow> registers \<Rightarrow> registers \<Rightarrow> bool" where
  "attachmentContentEqual env a b \<longleftrightarrow> attachmentFingerprint env a = attachmentFingerprint env b"

section \<open>State\<close>

record service =
  sv_deviceId :: string
  sv_keys :: crypto
  sv_dirty :: "string list"
  sv_deviceSnapshotDirty :: bool
  sv_publishTimer :: bool
  sv_applyingRemote :: bool
  sv_remoteReady :: bool
  sv_canonicalRecordsSeen :: bool
  sv_remoteAttachment :: registers
  sv_deviceSnapshots :: "(string, DeviceWorkspaceSnapshot) js_map"
  sv_localChanged :: bool
  sv_remoteChanged :: bool
  sv_shouldInheritFirstSnapshot :: bool
  sv_accountId :: string
  sv_subscribed :: bool
  sv_published :: "WorkspaceRecordWire list list"

text \<open>The service, and the store it is given.\<close>

record sync =
  sy_service :: service
  sy_store :: store

definition on_service :: "(service \<Rightarrow> service) \<Rightarrow> sync \<Rightarrow> sync" where
  "on_service f y = y\<lparr>sy_service := f (sy_service y)\<rparr>"

definition on_store :: "(store \<Rightarrow> store) \<Rightarrow> sync \<Rightarrow> sync" where
  "on_store f y = y\<lparr>sy_store := f (sy_store y)\<rparr>"

definition new_sync :: "string \<Rightarrow> string option \<Rightarrow> crypto \<Rightarrow> store \<Rightarrow> sync" where
  "new_sync deviceId' accountId keys st =
     (let account = given accountId ''legacy''
      in \<lparr>sy_service = \<lparr>sv_deviceId = deviceId', sv_keys = keys, sv_dirty = [],
            sv_deviceSnapshotDirty = False, sv_publishTimer = False, sv_applyingRemote = False,
            sv_remoteReady = False, sv_canonicalRecordsSeen = False, sv_remoteAttachment = [],
            sv_deviceSnapshots = [], sv_localChanged = False, sv_remoteChanged = False,
            sv_shouldInheritFirstSnapshot = \<not> manualSyncInitialized (Some account) st,
            sv_accountId = account, sv_subscribed = False, sv_published = []\<rparr>,
          sy_store = st\<rparr>)"

definition schedulePublish :: "service \<Rightarrow> service" where
  "schedulePublish v = v\<lparr>sv_publishTimer := True\<rparr>"

definition mark_dirty :: "string \<Rightarrow> service \<Rightarrow> service" where
  "mark_dirty key v = v\<lparr>sv_dirty := add_new key (sv_dirty v)\<rparr>"

text \<open>\<open>syncStatus\<close>: whether the canonical lane differs, and the flags it settles.\<close>

definition workspacePending :: "sync_env \<Rightarrow> sync \<Rightarrow> bool" where
  "workspacePending env y \<longleftrightarrow> sv_remoteReady (sy_service y) \<and>
     \<not> attachmentContentEqual env (attachmentRegisters (lww_of (sy_store y))) (sv_remoteAttachment (sy_service y))"

definition settle_status :: "sync_env \<Rightarrow> sync \<Rightarrow> sync" where
  "settle_status env y =
     (if workspacePending env y then y
      else on_service (\<lambda>v. v\<lparr>sv_localChanged := False, sv_remoteChanged := False\<rparr>) y)"

record WorkspaceSyncSource =
  so_deviceId :: string
  so_name :: string
  so_platform :: string
  so_updatedAtMs :: nat

definition source_of :: "store \<Rightarrow> DeviceWorkspaceSnapshot \<Rightarrow> WorkspaceSyncSource" where
  "source_of st sn =
     (let activity = find (\<lambda>a. da_deviceId a = sn_deviceId sn \<or> da_identityDeviceId a = sn_deviceId sn)
            (syncedDeviceActivities st)
      in \<lparr>so_deviceId = sn_deviceId sn,
          so_name = (case activity of None \<Rightarrow> ''Mac '' @ take 8 (sn_deviceId sn) | Some a \<Rightarrow> da_name a),
          so_platform = (case activity of None \<Rightarrow> ''Mac'' | Some a \<Rightarrow> da_platform a),
          so_updatedAtMs = physicalMs (sn_hlc sn)\<rparr>)"

definition distinctDeviceSources :: "sync_env \<Rightarrow> registers \<Rightarrow> sync \<Rightarrow> WorkspaceSyncSource list" where
  "distinctDeviceSources env local_regs y =
     (let v = sy_service y; fp = attachmentFingerprint env
      in sort_key (\<lambda>s. (- int (so_updatedAtMs s), we_collate env (so_deviceId s)))
           (map (source_of (sy_store y))
              (filter (\<lambda>sn. sn_deviceId sn \<noteq> sv_deviceId v \<and>
                  fp (sn_registers sn) \<noteq> fp (sv_remoteAttachment v) \<and> fp (sn_registers sn) \<noteq> fp local_regs)
                (map snd (sv_deviceSnapshots v)))))"

record WorkspaceSyncStatus =
  ss_remoteReady :: bool
  ss_pending :: bool
  ss_canonicalPending :: bool
  ss_localChanged :: bool
  ss_remoteChanged :: bool
  ss_sources :: "WorkspaceSyncSource list"

definition syncStatus :: "sync_env \<Rightarrow> sync \<Rightarrow> WorkspaceSyncStatus \<times> sync" where
  "syncStatus env y =
     (let sources = distinctDeviceSources env (attachmentRegisters (lww_of (sy_store y))) y;
          pending = workspacePending env y; y1 = settle_status env y; v = sy_service y1
      in (\<lparr>ss_remoteReady = sv_remoteReady v, ss_pending = (pending \<or> sources \<noteq> []),
           ss_canonicalPending = pending, ss_localChanged = (pending \<and> sv_localChanged v),
           ss_remoteChanged = (pending \<and> sv_remoteChanged v), ss_sources = sources\<rparr>, y1))"

section \<open>Listening to the store\<close>

definition listen_key :: "string \<Rightarrow> service \<Rightarrow> service" where
  "listen_key key v =
     (if isAttachmentKey key then v\<lparr>sv_localChanged := True, sv_deviceSnapshotDirty := True\<rparr>
      else mark_dirty key v)"

definition docs_changed :: "sync_env \<Rightarrow> string list \<Rightarrow> sync \<Rightarrow> sync" where
  "docs_changed env keys y =
     (if sv_applyingRemote (sy_service y) then y
      else settle_status env (on_service
        (\<lambda>v. let v1 = fold listen_key keys v
             in if sv_dirty v1 \<noteq> [] \<or> sv_deviceSnapshotDirty v1 then schedulePublish v1 else v1) y))"

text \<open>The calls a store operation made are delivered to the listener, if there is one.\<close>

definition deliver :: "sync_env \<Rightarrow> sync \<Rightarrow> sync" where
  "deliver env y =
     (let calls = st_notified (sy_store y); y1 = on_store (\<lambda>s. s\<lparr>st_notified := []\<rparr>) y
      in if sv_subscribed (sy_service y) then fold (docs_changed env) calls y1 else y1)"

definition start_sync :: "sync \<Rightarrow> sync" where
  "start_sync y = on_service (\<lambda>v. v\<lparr>sv_subscribed := True\<rparr>) y"

definition stop_sync :: "sync \<Rightarrow> sync" where
  "stop_sync y = on_service (\<lambda>v. v\<lparr>sv_subscribed := False, sv_publishTimer := False\<rparr>) y"

section \<open>Sealing and publishing\<close>

definition hlc_json :: "hlc \<Rightarrow> json" where
  "hlc_json h = JObj [(''physicalMs'', JInt (int (physicalMs h))), (''logical'', JInt (int (logical h))),
     (''deviceId'', JStr (deviceId h))]"

definition doc_json :: "sync_env \<Rightarrow> WorkspaceDoc option \<Rightarrow> json" where
  "doc_json env d = (case d of None \<Rightarrow> JNull | Some x \<Rightarrow> we_doc_json env x)"

definition register_json :: "sync_env \<Rightarrow> WorkspaceRegister \<Rightarrow> json" where
  "register_json env r = JObj [(''doc'', doc_json env (lw_value r)), (''hlc'', hlc_json (lw_hlc r))]"

definition snapshot_json :: "sync_env \<Rightarrow> string \<Rightarrow> int \<Rightarrow> registers \<Rightarrow> json" where
  "snapshot_json env i t regs =
     JObj [(''version'', JInt 1), (''deviceId'', JStr i), (''capturedAtMs'', JInt t),
       (''registers'', JObj (map (\<lambda>(k, r). (k, register_json env r)) regs))]"

definition sealDoc :: "sync_env \<Rightarrow> (string \<Rightarrow> byte list) \<Rightarrow> crypto \<Rightarrow> string \<Rightarrow> json \<Rightarrow> hlc \<Rightarrow> WorkspaceRecordWire" where
  "sealDoc env iv cr key v h =
     (let sealedValue = (if v = JNull then None
            else Some (toBase64 (seal cr (iv key) (we_stringify env v) (workspaceSealAad key))))
      in \<lparr>ws_key = key, ws_sealedValue = sealedValue, ws_hlc = h,
          ws_deviceSig = toBase64 (we_sign env (workspaceSigningBytes key sealedValue h))\<rparr>)"

definition openValue :: "sync_env \<Rightarrow> crypto \<Rightarrow> WorkspaceRecordWire \<Rightarrow> json option" where
  "openValue env cr w =
     (case ws_sealedValue w of
        None \<Rightarrow> Some JNull
      | Some text \<Rightarrow>
          (case fromBase64 text of
             Inl _ \<Rightarrow> None
           | Inr sealed \<Rightarrow>
               (case open_sealed cr sealed (workspaceSealAad (ws_key w)) of
                  Inl _ \<Rightarrow> None | Inr bytes \<Rightarrow> we_parse env bytes)))"

text \<open>One publish: the time, the fresh vectors, and where a sealing or signing rejects, if it does.\<close>

datatype seal_failure = NoFailure | DocFailure | SnapshotFailure

record flush_input =
  fi_now :: nat
  fi_iv :: "string \<Rightarrow> byte list"
  fi_failure :: seal_failure

definition publishes_snapshot :: "service \<Rightarrow> bool" where
  "publishes_snapshot v \<longleftrightarrow> sv_remoteReady v \<and> sv_deviceSnapshotDirty v"

definition doc_wires :: "sync_env \<Rightarrow> flush_input \<Rightarrow> sync \<Rightarrow> WorkspaceRecordWire list" where
  "doc_wires env fi y =
     List.map_filter
       (\<lambda>key. map_option
          (\<lambda>r. sealDoc env (fi_iv fi) (sv_keys (sy_service y)) key (doc_json env (lw_value r)) (lw_hlc r))
          (register_at (sy_store y) key))
       (sv_dirty (sy_service y))"

definition flush_rejects :: "sync_env \<Rightarrow> flush_input \<Rightarrow> sync \<Rightarrow> bool" where
  "flush_rejects env fi y \<longleftrightarrow>
     (fi_failure fi = DocFailure \<and> doc_wires env fi y \<noteq> []) \<or>
     (fi_failure fi = SnapshotFailure \<and> publishes_snapshot (sy_service y))"

definition flush :: "sync_env \<Rightarrow> flush_input \<Rightarrow> sync \<Rightarrow> sync" where
  "flush env fi y =
     (let v = sy_service y; withSnapshot = publishes_snapshot v
      in if sv_dirty v = [] \<and> \<not> withSnapshot then y
         else
           (let (h, st1) = stamp (fi_now fi) (sy_store y)
            in if flush_rejects env fi y then
                 y\<lparr>sy_store := (if fi_failure fi = SnapshotFailure then st1 else sy_store y),
                   sy_service := schedulePublish v\<rparr>
               else
                 (let snaps = (if withSnapshot
                    then [sealDoc env (fi_iv fi) (sv_keys v) (deviceSnapshotKey env (sv_deviceId v))
                            (snapshot_json env (sv_deviceId v) (int (fi_now fi))
                              (attachmentRegisters (lww_of (sy_store y)))) h]
                    else []);
                      wires = doc_wires env fi y @ snaps
                  in y\<lparr>sy_store := (if withSnapshot then st1 else sy_store y),
                       sy_service := v\<lparr>sv_dirty := [],
                         sv_deviceSnapshotDirty := (if withSnapshot then False else sv_deviceSnapshotDirty v),
                         sv_published := (if wires = [] then sv_published v else sv_published v @ [wires])\<rparr>\<rparr>)))"

text \<open>The timer of \<open>schedulePublish\<close> fires.\<close>

definition publish_timer :: "sync_env \<Rightarrow> flush_input \<Rightarrow> sync \<Rightarrow> sync" where
  "publish_timer env fi y =
     (if sv_publishTimer (sy_service y) then flush env fi (on_service (\<lambda>v. v\<lparr>sv_publishTimer := False\<rparr>) y)
      else y)"

section \<open>Push, Pull, Merge\<close>

datatype WorkspaceSyncMode = Pull | Push | Merge

definition order_rank :: "registers \<Rightarrow> string \<Rightarrow> int" where
  "order_rank regs i =
     (case doc_at regs (order_key i) of Some (TabOrderDoc t) \<Rightarrow> parseRank (to_rank t) | _ \<Rightarrow> parseRank ''0'')"

definition by_space :: "registers \<Rightarrow> string list \<Rightarrow> (string, string list) js_map" where
  "by_space local_regs ids =
     foldl (\<lambda>m i. case doc_at local_regs (presence_key i) of
         Some (TabPresenceDoc t) \<Rightarrow>
           js_set m (tp_spaceId t) (given (js_get m (tp_spaceId t)) [] @ [i])
       | _ \<Rightarrow> m) [] ids"

definition ranks_in :: "string \<Rightarrow> registers \<Rightarrow> int list" where
  "ranks_in spaceId regs =
     List.map_filter (\<lambda>d. case d of
         TabOrderDoc t \<Rightarrow> if to_spaceId t = spaceId then Some (parseRank (to_rank t)) else None
       | _ \<Rightarrow> None) (live_docs regs)"

definition first_rank :: "int list \<Rightarrow> int" where
  "first_rank ranks = (case ranks of [] \<Rightarrow> 0 | r # rs \<Rightarrow> foldl max r rs + TAB_ORDER_STEP)"

record merge_state =
  mg_target :: registers
  mg_keys :: "string list"
  mg_next :: int

definition copy_register :: "registers \<Rightarrow> string \<Rightarrow> registers \<Rightarrow> registers" where
  "copy_register local_regs key t = (case js_get local_regs key of None \<Rightarrow> t | Some r \<Rightarrow> js_set t key r)"

definition merge_tab :: "registers \<Rightarrow> string \<Rightarrow> string \<Rightarrow> merge_state \<Rightarrow> merge_state" where
  "merge_tab local_regs spaceId i g =
     (let t1 = copy_register local_regs (url_key i) (copy_register local_regs (presence_key i) (mg_target g));
          keys = mg_keys g @ [presence_key i, url_key i, order_key i]
      in (case js_get local_regs (order_key i) of
            Some r \<Rightarrow>
              (case lw_value r of
                 Some (TabOrderDoc t) \<Rightarrow>
                   \<lparr>mg_target = js_set t1 (order_key i)
                      (r\<lparr>lw_value := Some (TabOrderDoc (t\<lparr>to_spaceId := spaceId, to_rank := rank_text (mg_next g)\<rparr>))\<rparr>),
                    mg_keys = keys, mg_next = mg_next g + TAB_ORDER_STEP\<rparr>
               | _ \<Rightarrow> g\<lparr>mg_target := t1, mg_keys := keys\<rparr>)
          | None \<Rightarrow> g\<lparr>mg_target := t1, mg_keys := keys\<rparr>))"

definition merge_space :: "sync_env \<Rightarrow> registers \<Rightarrow> string \<times> string list \<Rightarrow> registers \<times> string list \<Rightarrow> registers \<times> string list" where
  "merge_space env local_regs sp tk =
     (let (spaceId, ids) = sp; (target, keys) = tk;
          ordered = sort_key (\<lambda>i. (order_rank local_regs i, we_collate env i)) ids;
          g = fold (merge_tab local_regs spaceId) ordered
                \<lparr>mg_target = target, mg_keys = keys, mg_next = first_rank (ranks_in spaceId target)\<rparr>
      in (mg_target g, mg_keys g))"

definition mergeAttachmentRegisters :: "sync_env \<Rightarrow> registers \<Rightarrow> registers \<Rightarrow> registers \<times> string list" where
  "mergeAttachmentRegisters env local_regs remote =
     (let remoteLive = liveTabIds remote;
          localOnly = filter (\<lambda>i. i \<notin> set remoteLive) (liveTabIds local_regs)
      in fold (merge_space env local_regs) (by_space local_regs localOnly) (attachmentRegisters remote, []))"

definition push_target :: "registers \<Rightarrow> registers \<Rightarrow> registers" where
  "push_target local_regs remote =
     fold (\<lambda>(key, r) t. if js_get t key = None then js_set t key (r\<lparr>lw_value := None\<rparr>) else t) remote local_regs"

record sync_plan =
  pl_mode :: WorkspaceSyncMode
  pl_source :: "string option"
  pl_target :: registers
  pl_keys :: "string list"

text \<open>Up to the await of the fence.\<close>

definition synchronize_plan :: "sync_env \<Rightarrow> WorkspaceSyncMode \<Rightarrow> string option \<Rightarrow> sync \<Rightarrow> sync_plan js_result" where
  "synchronize_plan env mode sourceDeviceId y =
     (let v = sy_service y
      in if \<not> sv_remoteReady v then Inl (JsError ''Remote workspace is still loading'')
         else if mode = Push \<and> sourceDeviceId \<noteq> None then Inl (JsError ''Push always targets the canonical workspace'')
         else
           (let local_regs = attachmentRegisters (lww_of (sy_store y));
                source = (case sourceDeviceId of
                    None \<Rightarrow> Some (sv_remoteAttachment v)
                  | Some i \<Rightarrow> map_option sn_registers (js_get (sv_deviceSnapshots v) i))
            in case source of
                 None \<Rightarrow> Inl (JsError ''That device workspace is no longer available'')
               | Some src \<Rightarrow>
                   (let remote = attachmentRegisters src;
                        (target, keys) = (case mode of
                            Pull \<Rightarrow> (remote, [])
                          | Push \<Rightarrow> (let t = push_target local_regs remote in (t, js_keys t))
                          | Merge \<Rightarrow> mergeAttachmentRegisters env local_regs remote)
                    in Inr \<lparr>pl_mode = mode, pl_source = sourceDeviceId, pl_target = target, pl_keys = keys\<rparr>)))"

text \<open>Whether the fence is awaited, and what follows it.\<close>

definition needs_fence :: "sync_plan \<Rightarrow> bool" where
  "needs_fence pl \<longleftrightarrow> pl_source pl = None \<and> pl_keys pl \<noteq> []"

definition synchronize_commit ::
  "sync_env \<Rightarrow> nat \<Rightarrow> flush_input \<Rightarrow> bool \<Rightarrow> sync_plan \<Rightarrow> sync \<Rightarrow> js_error option \<times> sync" where
  "synchronize_commit env now fi fenceOk pl y =
     (if needs_fence pl \<and> \<not> fenceOk then (Some (JsError ''Session state is still uploading''), y)
      else
        (let y1 = on_store (replaceAttachmentRegisters (pl_target pl)) y;
             y2 = (if pl_source pl = None \<and> pl_mode pl \<noteq> Pull
                   then on_service (\<lambda>v. v\<lparr>sv_remoteAttachment := attachmentRegisters (pl_target pl)\<rparr>) y1 else y1);
             yp = on_service (fold mark_dirty (pl_keys pl))
                    (deliver env (on_store (publishAttachmentRegisters now (pl_keys pl)) y2));
             y3 = (if needs_fence pl then flush env fi yp else y2)
         in if needs_fence pl \<and> flush_rejects env fi yp then (Some (JsError ''OperationError''), y3)
            else (None, settle_status env (on_service (\<lambda>v. (schedulePublish (v\<lparr>sv_deviceSnapshotDirty := True\<rparr>))
                    \<lparr>sv_localChanged := False, sv_remoteChanged := False\<rparr>) y3))))"

section \<open>Hydration, remote documents, new keys\<close>

text \<open>The largest stamp first, ties in insertion order.\<close>

definition initialRemoteSnapshot :: "service \<Rightarrow> registers option" where
  "initialRemoteSnapshot v =
     (if sv_canonicalRecordsSeen v then Some (attachmentRegisters (sv_remoteAttachment v))
      else
        (let others = filter (\<lambda>sn. sn_deviceId sn \<noteq> sv_deviceId v) (map snd (sv_deviceSnapshots v));
             newest = foldl (\<lambda>m sn. case m of None \<Rightarrow> Some sn
                 | Some b \<Rightarrow> if compareHlc (sn_hlc sn) (sn_hlc b) > 0 then Some sn else Some b) None others
         in map_option (\<lambda>sn. attachmentRegisters (sn_registers sn)) newest))"

definition bootstrapCanonical :: "sync_env \<Rightarrow> nat \<Rightarrow> flush_input \<Rightarrow> bool \<Rightarrow> sync \<Rightarrow> bool \<times> sync" where
  "bootstrapCanonical env now fi fenceOk y =
     (let keys = js_keys (attachmentRegisters (lww_of (sy_store y)))
      in if keys = [] \<or> \<not> fenceOk then (False, y)
         else
           (let y1 = deliver env (on_store (publishAttachmentRegisters now keys) y);
                y2 = on_service (\<lambda>v. fold mark_dirty keys
                       (v\<lparr>sv_remoteAttachment := attachmentRegisters (lww_of (sy_store y1)),
                         sv_canonicalRecordsSeen := True\<rparr>)) y1
            in (flush_rejects env fi y2, flush env fi y2)))"

definition dirty_globals :: "registers \<Rightarrow> service \<Rightarrow> service" where
  "dirty_globals regs v = fold mark_dirty (filter (\<lambda>k. \<not> isAttachmentKey k) (js_keys regs)) v"

text \<open>A sealing that rejects in the bootstrap rejects the rest of the hydration.\<close>

definition handleHydrated :: "sync_env \<Rightarrow> nat \<Rightarrow> flush_input \<Rightarrow> bool \<Rightarrow> sync \<Rightarrow> sync" where
  "handleHydrated env now fi fenceOk y =
     (let y1 = on_service (\<lambda>v. v\<lparr>sv_remoteReady := True\<rparr>) y;
          v1 = sy_service y1;
          y2 = (case (sv_shouldInheritFirstSnapshot v1, initialRemoteSnapshot v1) of
                  (True, Some regs) \<Rightarrow>
                    on_service (\<lambda>v. v\<lparr>sv_localChanged := False, sv_remoteChanged := False\<rparr>)
                      (on_store (replaceAttachmentRegisters regs) y1)
                | _ \<Rightarrow> y1);
          (rejected, y3) = (if sv_shouldInheritFirstSnapshot v1 \<and> \<not> sv_canonicalRecordsSeen v1
             then bootstrapCanonical env now fi fenceOk y2 else (False, y2))
      in if rejected then y3
         else
           settle_status env
             (on_service (\<lambda>v. schedulePublish (dirty_globals (lww_of (sy_store y3))
                 (v\<lparr>sv_shouldInheritFirstSnapshot := False, sv_deviceSnapshotDirty := True\<rparr>)))
               (on_store (markManualSyncInitialized (Some (sv_accountId v1))) y3)))"

definition rekey :: "crypto \<Rightarrow> string \<Rightarrow> sync \<Rightarrow> sync" where
  "rekey keys accountId y =
     on_service (\<lambda>v.
       let v1 = (if accountId \<noteq> sv_accountId v
             then v\<lparr>sv_accountId := accountId, sv_remoteReady := False, sv_canonicalRecordsSeen := False,
                 sv_remoteAttachment := [], sv_deviceSnapshots := [],
                 sv_shouldInheritFirstSnapshot := \<not> manualSyncInitialized (Some accountId) (sy_store y)\<rparr>
             else v)
       in schedulePublish (dirty_globals (lww_of (sy_store y))
            (v1\<lparr>sv_keys := keys, sv_deviceSnapshotDirty := True\<rparr>))) y"

text \<open>A number of JSON as the stamp reads it.\<close>

fun json_nat :: "json \<Rightarrow> nat option" where
  "json_nat (JInt n) = Some (nat n)"
| "json_nat (JFrac n) = Some (nat n)"
| "json_nat _ = None"

definition cast_doc :: "sync_env \<Rightarrow> json \<Rightarrow> WorkspaceDoc option" where
  "cast_doc env j = (if j = JNull then None else Some (we_json_doc env j))"

text \<open>\<open>typeof v === "object"\<close>, arrays and \<open>null\<close> included.\<close>

fun is_object :: "json \<Rightarrow> bool" where
  "is_object (JObj _) = True"
| "is_object (JArr _) = True"
| "is_object JNull = True"
| "is_object _ = False"

text \<open>
  One entry of a snapshot: left out, taken, or an exception: the stamp is compared with undefined
  only, and a member of \<open>null\<close> is read.
\<close>

definition snapshot_entry :: "sync_env \<Rightarrow> string \<times> json \<Rightarrow> (string \<times> WorkspaceRegister) option js_result" where
  "snapshot_entry env kr =
     (case kr of (key, raw) \<Rightarrow>
        if \<not> isAttachmentKey key then Inr None
        else
          (case raw of
             JObj ms \<Rightarrow>
               (case (map_of ms ''doc'', map_of ms ''hlc'') of
                  (Some d, Some h) \<Rightarrow>
                    (case (js_member h ''physicalMs'', js_member h ''logical'', js_member h ''deviceId'') of
                       (Inr (Some p), Inr (Some l), Inr (Some (JStr dev))) \<Rightarrow>
                         (case (json_nat p, json_nat l) of
                            (Some pn, Some ln) \<Rightarrow>
                              if \<not> is_object d then Inr None
                              else Inr (Some (key, \<lparr>lw_value = cast_doc env d,
                                lw_hlc = \<lparr>physicalMs = pn, logical = ln, deviceId = dev\<rparr>\<rparr>))
                          | _ \<Rightarrow> Inr None)
                     | (Inl e, _, _) \<Rightarrow> Inl e
                     | _ \<Rightarrow> Inr None)
                | _ \<Rightarrow> Inr None)
           | _ \<Rightarrow> Inr None))"

fun snapshot_entries :: "sync_env \<Rightarrow> (string \<times> json) list \<Rightarrow> registers js_result" where
  "snapshot_entries env [] = Inr []"
| "snapshot_entries env (kr # rest) =
     (case snapshot_entry env kr of
        Inl e \<Rightarrow> Inl e
      | Inr r \<Rightarrow>
          (case snapshot_entries env rest of
             Inl e \<Rightarrow> Inl e
           | Inr rs \<Rightarrow> Inr (case r of None \<Rightarrow> rs | Some x \<Rightarrow> x # rs)))"

definition readDeviceSnapshot ::
  "sync_env \<Rightarrow> string \<Rightarrow> json \<Rightarrow> hlc \<Rightarrow> DeviceWorkspaceSnapshot option js_result" where
  "readDeviceSnapshot env expectedDeviceId v h =
     (case v of
        JObj ms \<Rightarrow>
          if map_of ms ''version'' \<noteq> Some (JInt 1) \<or> map_of ms ''deviceId'' \<noteq> Some (JStr expectedDeviceId) then Inr None
          else
            (let entries = (case map_of ms ''registers'' of
                   Some (JObj rs) \<Rightarrow> Some rs | Some (JArr _) \<Rightarrow> Some [] | _ \<Rightarrow> None);
                 captured = (case map_of ms ''capturedAtMs'' of
                   Some (JInt n) \<Rightarrow> n | Some (JFrac n) \<Rightarrow> n | _ \<Rightarrow> int (physicalMs h))
             in case entries of
                  None \<Rightarrow> Inr None
                | Some rs \<Rightarrow>
                    (case snapshot_entries env rs of
                       Inl e \<Rightarrow> Inl e
                     | Inr regs \<Rightarrow> Inr (Some \<lparr>sn_deviceId = expectedDeviceId, sn_capturedAtMs = captured,
                         sn_registers = regs, sn_hlc = h\<rparr>)))
      | _ \<Rightarrow> Inr None)"

text \<open>The first loop: what is sorted out of the batch, or the exception that ends it.\<close>

record sorting =
  sg_incoming :: "IncomingWorkspaceDoc list"
  sg_attachment :: "IncomingWorkspaceDoc list"
  sg_snapshotChanged :: bool

definition sort_wire :: "sync_env \<Rightarrow> nat \<Rightarrow> WorkspaceRecordWire \<Rightarrow> sorting \<Rightarrow> sync \<Rightarrow> js_error option \<times> sorting \<times> sync" where
  "sort_wire env now w g y0 =
     (let y = on_store (receiveWorkspaceHlc now (sv_deviceId (sy_service y0)) (ws_hlc w)) y0;
          v = sy_service y
      in case openValue env (sv_keys v) w of
           None \<Rightarrow> (None, g, y)
         | Some j \<Rightarrow>
             if js_starts_with (ws_key w) LEGACY_HANDOFF_KEY_PREFIX then (None, g, y)
             else
               (case snapshotDeviceId env (ws_key w) of
                  Some src \<Rightarrow>
                    (case readDeviceSnapshot env src j (ws_hlc w) of
                       Inl e \<Rightarrow> (Some e, g, y)
                     | Inr None \<Rightarrow> (None, g, y)
                     | Inr (Some sn) \<Rightarrow>
                         if (case js_get (sv_deviceSnapshots v) src of None \<Rightarrow> True
                             | Some c \<Rightarrow> compareHlc (sn_hlc sn) (sn_hlc c) > 0)
                         then (None, g\<lparr>sg_snapshotChanged := True\<rparr>,
                           on_service (\<lambda>v. v\<lparr>sv_deviceSnapshots := js_set (sv_deviceSnapshots v) src sn\<rparr>) y)
                         else (None, g, y))
                | None \<Rightarrow>
                    (let opened = \<lparr>in_key = ws_key w, in_value = cast_doc env j, in_hlc = ws_hlc w\<rparr>
                     in if isAttachmentKey (ws_key w)
                        then (None, g\<lparr>sg_attachment := sg_attachment g @ [opened]\<rparr>,
                          on_service (\<lambda>v. v\<lparr>sv_canonicalRecordsSeen := True\<rparr>) y)
                        else if deviceId (ws_hlc w) \<noteq> sv_deviceId v
                        then (None, g\<lparr>sg_incoming := sg_incoming g @ [opened]\<rparr>, y)
                        else (None, g, y))))"

fun sort_wires :: "sync_env \<Rightarrow> nat \<Rightarrow> WorkspaceRecordWire list \<Rightarrow> sorting \<Rightarrow> sync \<Rightarrow> js_error option \<times> sorting \<times> sync" where
  "sort_wires env now [] g y = (None, g, y)"
| "sort_wires env now (w # ws) g y =
     (case sort_wire env now w g y of
        (Some e, g1, y1) \<Rightarrow> (Some e, g1, y1)
      | (None, g1, y1) \<Rightarrow> sort_wires env now ws g1 y1)"

definition merge_remote :: "registers \<Rightarrow> IncomingWorkspaceDoc list \<Rightarrow> registers" where
  "merge_remote regs docs =
     (let decision = decideMerge regs docs
      in fold (\<lambda>d m. js_set m (in_key d) (incoming_register d)) (md_apply decision @ md_adoptHlc decision) regs)"

definition apply_incoming :: "nat \<Rightarrow> IncomingWorkspaceDoc list \<Rightarrow> store \<Rightarrow> store" where
  "apply_incoming now docs st =
     (let decision = decideMerge (lww_of st) docs
      in fold (\<lambda>d. applyRemoteDoc now (in_key d) (in_value d) (in_hlc d))
           (md_apply decision @ md_adoptHlc decision) st)"

definition handleRemoteDocs :: "sync_env \<Rightarrow> nat \<Rightarrow> WorkspaceRecordWire list \<Rightarrow> sync \<Rightarrow> js_error option \<times> sync" where
  "handleRemoteDocs env now docs y0 =
     (case sort_wires env now docs \<lparr>sg_incoming = [], sg_attachment = [], sg_snapshotChanged = False\<rparr> y0 of
        (Some e, g, y) \<Rightarrow> (Some e, y)
      | (None, g, y) \<Rightarrow>
          (let y1 = (if sg_snapshotChanged g then settle_status env y else y);
               before = sv_remoteAttachment (sy_service y1);
               after = merge_remote before (sg_attachment g);
               y2 = (if sg_attachment g = [] then y1
                     else on_service (\<lambda>v. v\<lparr>sv_remoteAttachment := after\<rparr>) y1);
               y3 = (if sg_attachment g \<noteq> [] \<and> \<not> attachmentContentEqual env before after
                     then settle_status env (on_service (\<lambda>v. v\<lparr>sv_remoteChanged :=
                       (\<not> attachmentContentEqual env (attachmentRegisters (lww_of (sy_store y2))) after)\<rparr>) y2)
                     else y2);
               applied = md_apply (decideMerge (lww_of (sy_store y3)) (sg_incoming g));
               y4 = on_store (apply_incoming now (sg_incoming g)) y3
           in (None, if applied \<noteq> [] then settle_status env y4 else y4)))"

end
