(* ===== verification/WorkspaceMerge.thy ===== *)
theory WorkspaceMerge
  imports WorkspaceSync WorkspaceFacts
begin

text \<open>
  The explicit synchronization of tabs and focus, and the merge of remote documents: what Push and
  Merge leave in the store and on the canonical lane, what a change made while the fence is awaited
  comes to, and that the registers of two devices do not depend on the order of what reached them.
\<close>

section \<open>Registers after a replacement\<close>

lemma put_all_lww:
  "wk_lww (fold (\<lambda>(k, r). put_register k r) regs f) = fold (\<lambda>(k, r) m. js_set m k r) regs (wk_lww f)"
  by (induction regs arbitrary: f) auto

lemma fold_set_get:
  "distinct (map fst regs) \<Longrightarrow>
   js_get (fold (\<lambda>(k, r) m. js_set m k r) regs m) k = (case js_get regs k of None \<Rightarrow> js_get m k | Some r \<Rightarrow> Some r)"
proof (induction regs arbitrary: m)
  case (Cons kr regs)
  then show ?case
    by (cases kr) (auto split: option.splits dest: map_of_SomeD simp: image_iff)
qed simp

lemma fold_set_wf: "js_wf m \<Longrightarrow> js_wf (fold (\<lambda>(k, r) m. js_set m k r) regs m)"
  by (induction regs arbitrary: m) (auto intro: js_wf_set)

lemma attachment_get:
  "js_wf regs \<Longrightarrow> js_get (attachmentRegisters regs) k = (if isAttachmentKey k then js_get regs k else None)"
  by (auto simp: attachmentRegisters_def js_get_filter split: option.splits)

lemma attachment_wf: "js_wf regs \<Longrightarrow> js_wf (attachmentRegisters regs)"
  by (simp add: attachmentRegisters_def js_wf_filter)

lemma attachment_keys: "k \<in> set (js_keys (attachmentRegisters regs)) \<Longrightarrow> isAttachmentKey k"
  by (auto simp: attachmentRegisters_def)

lemma replaced_get:
  assumes "js_wf regs" "js_wf (lww_of s)"
  shows "register_at (replaceAttachmentRegisters regs s) k =
    (if isAttachmentKey k then js_get regs k else register_at s k)"
proof -
  have d: "distinct (map fst (filter (\<lambda>(k, r). isAttachmentKey k) regs))"
    using assms(1) by (simp add: js_wf_def distinct_map_filter)
  have "register_at (replaceAttachmentRegisters regs s) k =
      (case js_get (attachmentRegisters regs) k of
         None \<Rightarrow> js_get (filter (\<lambda>(k, r). \<not> isAttachmentKey k) (lww_of s)) k | Some r \<Rightarrow> Some r)"
    using d by (simp add: replaceAttachmentRegisters_def put_all_lww fold_set_get attachmentRegisters_def)
  then show ?thesis
    using assms by (auto simp: attachment_get js_get_filter split: option.splits)
qed

lemma replaced_wf: "js_wf (lww_of s) \<Longrightarrow> js_wf (lww_of (replaceAttachmentRegisters regs s))"
  by (simp add: replaceAttachmentRegisters_def put_all_lww fold_set_wf js_wf_filter)

section \<open>Push\<close>

lemma push_target_get:
  assumes "js_wf remote"
  shows "js_get (push_target local_regs remote) k =
    (case js_get local_regs k of
       Some r \<Rightarrow> Some r
     | None \<Rightarrow> map_option (\<lambda>r. r\<lparr>lw_value := None\<rparr>) (js_get remote k))"
  using assms unfolding push_target_def
proof (induction remote arbitrary: local_regs)
  case (Cons kr remote)
  obtain q r where kr: "kr = (q, r)" by fastforce
  have wf: "js_wf remote" and nin: "js_get remote q = None"
    using Cons.prems kr by (auto simp: js_wf_def map_of_eq_None_iff)
  show ?case
    using Cons.IH[OF wf, of "if js_get local_regs q = None then js_set local_regs q (r\<lparr>lw_value := None\<rparr>) else local_regs"] kr nin
    by (auto split: option.splits)
qed (auto split: option.splits)

lemma push_target_wf: "js_wf local_regs \<Longrightarrow> js_wf (push_target local_regs remote)"
  unfolding push_target_def
proof (induction remote arbitrary: local_regs)
  case (Cons kr remote)
  then show ?case by (cases kr) (simp add: js_wf_set)
qed simp

lemma push_target_keys:
  assumes "js_wf remote"
  shows "k \<in> set (js_keys (push_target local_regs remote)) \<longleftrightarrow> js_get local_regs k \<noteq> None \<or> js_get remote k \<noteq> None"
proof -
  have "k \<in> set (js_keys m) \<longleftrightarrow> js_get m k \<noteq> None" for m :: registers
    by (simp add: map_of_eq_None_iff)
  then show ?thesis using push_target_get[OF assms, of local_regs k] by (auto split: option.splits)
qed

text \<open>The documents of a register map, in their order.\<close>

definition skeleton :: "registers \<Rightarrow> (string \<times> WorkspaceDoc option) list" where
  "skeleton regs = map (\<lambda>(k, r). (k, lw_value r)) regs"

lemma skeleton_get: "map_of (skeleton regs) k = map_option lw_value (js_get regs k)"
  by (induction regs) (auto simp: skeleton_def)

lemma skeleton_doc: "skeleton a = skeleton b \<Longrightarrow> doc_at a k = doc_at b k"
proof -
  have "doc_at m k = Option.bind (map_of (skeleton m) k) id" for m
    by (cases "js_get m k") (simp_all add: doc_at_def skeleton_get)
  then show "skeleton a = skeleton b \<Longrightarrow> ?thesis" by simp
qed

lemma skeleton_none: "skeleton a = skeleton b \<Longrightarrow> js_get a k = None \<longleftrightarrow> js_get b k = None"
  using skeleton_get[of a k] skeleton_get[of b k] by (metis option.map_disc_iff)

lemma skeleton_keys: "skeleton a = skeleton b \<Longrightarrow> js_keys a = js_keys b"
proof -
  have "js_keys m = map fst (skeleton m)" for m by (simp add: skeleton_def comp_def case_prod_unfold)
  then show "skeleton a = skeleton b \<Longrightarrow> ?thesis" by simp
qed

lemma skeleton_filter: "skeleton (filter (\<lambda>(k, r). P k) a) = filter (\<lambda>(k, d). P k) (skeleton a)"
  by (induction a) (auto simp: skeleton_def)

lemma skeleton_attachment: "skeleton a = skeleton b \<Longrightarrow> skeleton (attachmentRegisters a) = skeleton (attachmentRegisters b)"
  by (simp add: attachmentRegisters_def skeleton_filter)

lemma skeleton_update:
  "js_get m k = Some r \<Longrightarrow> lw_value r' = lw_value r \<Longrightarrow> skeleton (js_set m k r') = skeleton m"
  by (induction m) (auto simp: skeleton_def split: if_splits)

lemma fingerprint_skeleton: "skeleton a = skeleton b \<Longrightarrow> attachmentFingerprint env a = attachmentFingerprint env b"
proof -
  have "List.map_filter (\<lambda>(k, r). map_option (Pair k) (lw_value r)) m =
      List.map_filter (\<lambda>(k, d). map_option (Pair k) d) (skeleton m)" for m :: registers
    by (induction m) (auto simp: List.map_filter_def skeleton_def)
  then show "skeleton a = skeleton b \<Longrightarrow> ?thesis" by (simp add: attachmentFingerprint_def)
qed

lemma fold_set_append:
  "distinct (map fst regs) \<Longrightarrow> \<forall>k \<in> set (map fst regs). js_get m k = None \<Longrightarrow>
   fold (\<lambda>(k, r) m. js_set m k r) regs m = m @ regs"
proof (induction regs arbitrary: m)
  case (Cons kr regs)
  obtain k r where kr: "kr = (k, r)" by fastforce
  have "js_set m k r = m @ [(k, r)]"
    using Cons.prems(2) kr by (simp add: map_of_eq_None_iff update_Some_unfold AList.update_conv' )
      (induction m; auto)
  moreover have "\<forall>q \<in> set (map fst regs). js_get (m @ [(k, r)]) q = None"
    using Cons.prems kr by (auto simp: map_add_def)
  ultimately show ?case using Cons.IH[of "m @ [(k, r)]"] Cons.prems kr by simp
qed simp

lemma replaced_attachments:
  assumes "js_wf regs" "js_wf (lww_of s)"
  shows "attachmentRegisters (lww_of (replaceAttachmentRegisters regs s)) = attachmentRegisters regs"
proof -
  let ?keep = "filter (\<lambda>(k, r). \<not> isAttachmentKey k) (lww_of s)"
  have d: "distinct (map fst (attachmentRegisters regs))"
    using attachment_wf[OF assms(1)] by (simp add: js_wf_def)
  have "js_get ?keep k = None" if "isAttachmentKey k" for k
    using that assms(2) by (simp add: js_get_filter split: option.splits)
  then have "\<forall>k \<in> set (js_keys (attachmentRegisters regs)). js_get ?keep k = None"
    using attachment_keys by blast
  then have "fold (\<lambda>(k, r) m. js_set m k r) (attachmentRegisters regs) ?keep = ?keep @ attachmentRegisters regs"
    by (rule fold_set_append[OF d])
  then show ?thesis
    by (simp add: replaceAttachmentRegisters_def put_all_lww attachmentRegisters_def)
      (auto simp: filter_empty_conv intro!: filter_True)
qed

text \<open>Restamping changes no document.\<close>

lemma restamp_skeleton: "skeleton (lww_of (snd (restamp_one n k cs))) = skeleton (lww_of (snd cs))"
  by (cases cs) (auto simp: restamp_one_def case_prod_unfold Let_def stamp_def on_file_def skeleton_update
      split: option.split)

lemma publish_skeleton: "skeleton (lww_of (publishAttachmentRegisters n ks s)) = skeleton (lww_of s)"
proof -
  have "skeleton (lww_of (snd (fold (restamp_one n) ks cs))) = skeleton (lww_of (snd cs))" for cs
    by (induction ks arbitrary: cs) (simp_all add: restamp_skeleton)
  then show ?thesis by (simp add: publishAttachmentRegisters_def Let_def case_prod_unfold)
qed

section \<open>What a publish sends\<close>

lemma service_frame [simp]:
  "sy_store (on_service f y) = sy_store y" "sy_service (on_service f y) = f (sy_service y)"
  "sy_service (on_store g y) = sy_service y" "sy_store (on_store g y) = g (sy_store y)"
  by (simp_all add: on_service_def on_store_def)

lemma settle_store [simp]: "sy_store (settle_status env y) = sy_store y"
  by (simp add: settle_status_def)

lemma docs_changed_store [simp]: "sy_store (docs_changed env ks y) = sy_store y"
  by (simp add: docs_changed_def)

lemma fold_store: "(\<And>x y. sy_store (f x y) = sy_store y) \<Longrightarrow> sy_store (fold f xs y) = sy_store y"
  by (induction xs arbitrary: y) simp_all

lemma deliver_file [simp]: "st_file (sy_store (deliver env y)) = st_file (sy_store y)"
  by (simp add: deliver_def Let_def fold_store)

lemma flush_file [simp]: "st_file (sy_store (flush env fi y)) = st_file (sy_store y)"
  by (simp add: flush_def Let_def case_prod_unfold)

lemma settle_fields [simp]:
  "sv_dirty (sy_service (settle_status env y)) = sv_dirty (sy_service y)"
  "sv_published (sy_service (settle_status env y)) = sv_published (sy_service y)"
  "sv_remoteAttachment (sy_service (settle_status env y)) = sv_remoteAttachment (sy_service y)"
  "sv_remoteReady (sy_service (settle_status env y)) = sv_remoteReady (sy_service y)"
  "sv_keys (sy_service (settle_status env y)) = sv_keys (sy_service y)"
  "sv_applyingRemote (sy_service (settle_status env y)) = sv_applyingRemote (sy_service y)"
  "sv_subscribed (sy_service (settle_status env y)) = sv_subscribed (sy_service y)"
  "sv_deviceId (sy_service (settle_status env y)) = sv_deviceId (sy_service y)"
  by (simp_all add: settle_status_def)

lemma mark_dirty_fields [simp]:
  "set (sv_dirty (mark_dirty k v)) = insert k (set (sv_dirty v))"
  "sv_published (mark_dirty k v) = sv_published v" "sv_remoteAttachment (mark_dirty k v) = sv_remoteAttachment v"
  "sv_remoteReady (mark_dirty k v) = sv_remoteReady v" "sv_keys (mark_dirty k v) = sv_keys v"
  "sv_applyingRemote (mark_dirty k v) = sv_applyingRemote v" "sv_subscribed (mark_dirty k v) = sv_subscribed v"
  "sv_deviceId (mark_dirty k v) = sv_deviceId v"
  by (auto simp: mark_dirty_def add_new_def)

lemma fold_mark_dirty [simp]:
  "set (sv_dirty (fold mark_dirty ks v)) = set ks \<union> set (sv_dirty v)"
  "sv_published (fold mark_dirty ks v) = sv_published v"
  "sv_remoteAttachment (fold mark_dirty ks v) = sv_remoteAttachment v"
  "sv_remoteReady (fold mark_dirty ks v) = sv_remoteReady v" "sv_keys (fold mark_dirty ks v) = sv_keys v"
  "sv_applyingRemote (fold mark_dirty ks v) = sv_applyingRemote v"
  "sv_subscribed (fold mark_dirty ks v) = sv_subscribed v" "sv_deviceId (fold mark_dirty ks v) = sv_deviceId v"
  by (induction ks arbitrary: v) auto

lemma listen_fields [simp]:
  "set (sv_dirty (listen_key k v)) = (if isAttachmentKey k then {} else {k}) \<union> set (sv_dirty v)"
  "sv_published (listen_key k v) = sv_published v" "sv_remoteAttachment (listen_key k v) = sv_remoteAttachment v"
  "sv_remoteReady (listen_key k v) = sv_remoteReady v" "sv_keys (listen_key k v) = sv_keys v"
  "sv_applyingRemote (listen_key k v) = sv_applyingRemote v" "sv_subscribed (listen_key k v) = sv_subscribed v"
  "sv_deviceId (listen_key k v) = sv_deviceId v"
  by (auto simp: listen_key_def)

lemma fold_listen [simp]:
  "set (sv_dirty (fold listen_key ks v)) = {k \<in> set ks. \<not> isAttachmentKey k} \<union> set (sv_dirty v)"
  "sv_published (fold listen_key ks v) = sv_published v"
  "sv_remoteAttachment (fold listen_key ks v) = sv_remoteAttachment v"
  "sv_remoteReady (fold listen_key ks v) = sv_remoteReady v" "sv_keys (fold listen_key ks v) = sv_keys v"
  "sv_applyingRemote (fold listen_key ks v) = sv_applyingRemote v"
  "sv_subscribed (fold listen_key ks v) = sv_subscribed v" "sv_deviceId (fold listen_key ks v) = sv_deviceId v"
  by (induction ks arbitrary: v) auto

lemma schedule_fields [simp]:
  "sv_dirty (schedulePublish v) = sv_dirty v" "sv_published (schedulePublish v) = sv_published v"
  "sv_remoteAttachment (schedulePublish v) = sv_remoteAttachment v"
  "sv_remoteReady (schedulePublish v) = sv_remoteReady v" "sv_keys (schedulePublish v) = sv_keys v"
  "sv_applyingRemote (schedulePublish v) = sv_applyingRemote v"
  "sv_subscribed (schedulePublish v) = sv_subscribed v" "sv_deviceId (schedulePublish v) = sv_deviceId v"
  by (simp_all add: schedulePublish_def)

lemma schedule_if [simp]: "sv_dirty (if b then schedulePublish v else v) = sv_dirty v"
  by simp

lemma docs_changed_fields [simp]:
  "set (sv_dirty (sy_service (docs_changed env ks y))) =
     (if sv_applyingRemote (sy_service y) then {} else {k \<in> set ks. \<not> isAttachmentKey k}) \<union> set (sv_dirty (sy_service y))"
  "sv_published (sy_service (docs_changed env ks y)) = sv_published (sy_service y)"
  "sv_remoteAttachment (sy_service (docs_changed env ks y)) = sv_remoteAttachment (sy_service y)"
  "sv_remoteReady (sy_service (docs_changed env ks y)) = sv_remoteReady (sy_service y)"
  "sv_keys (sy_service (docs_changed env ks y)) = sv_keys (sy_service y)"
  "sv_applyingRemote (sy_service (docs_changed env ks y)) = sv_applyingRemote (sy_service y)"
  "sv_subscribed (sy_service (docs_changed env ks y)) = sv_subscribed (sy_service y)"
  "sv_deviceId (sy_service (docs_changed env ks y)) = sv_deviceId (sy_service y)"
  by (auto simp: docs_changed_def Let_def)

lemma fold_docs_changed:
  "set (sv_dirty (sy_service (fold (docs_changed env) calls y))) =
     (if sv_applyingRemote (sy_service y) then {} else {k \<in> set (concat calls). \<not> isAttachmentKey k}) \<union>
     set (sv_dirty (sy_service y)) \<and>
   sv_published (sy_service (fold (docs_changed env) calls y)) = sv_published (sy_service y) \<and>
   sv_remoteAttachment (sy_service (fold (docs_changed env) calls y)) = sv_remoteAttachment (sy_service y) \<and>
   sv_remoteReady (sy_service (fold (docs_changed env) calls y)) = sv_remoteReady (sy_service y) \<and>
   sv_keys (sy_service (fold (docs_changed env) calls y)) = sv_keys (sy_service y) \<and>
   sv_applyingRemote (sy_service (fold (docs_changed env) calls y)) = sv_applyingRemote (sy_service y) \<and>
   sv_subscribed (sy_service (fold (docs_changed env) calls y)) = sv_subscribed (sy_service y) \<and>
   sv_deviceId (sy_service (fold (docs_changed env) calls y)) = sv_deviceId (sy_service y)"
  by (induction calls arbitrary: y) auto

lemma deliver_fields [simp]:
  "set (sv_dirty (sy_service (deliver env y))) =
     (if sv_applyingRemote (sy_service y) \<or> \<not> sv_subscribed (sy_service y) then {}
      else {k \<in> set (concat (st_notified (sy_store y))). \<not> isAttachmentKey k}) \<union> set (sv_dirty (sy_service y))"
  "sv_published (sy_service (deliver env y)) = sv_published (sy_service y)"
  "sv_remoteAttachment (sy_service (deliver env y)) = sv_remoteAttachment (sy_service y)"
  "sv_remoteReady (sy_service (deliver env y)) = sv_remoteReady (sy_service y)"
  "sv_keys (sy_service (deliver env y)) = sv_keys (sy_service y)"
  "sv_applyingRemote (sy_service (deliver env y)) = sv_applyingRemote (sy_service y)"
  "sv_subscribed (sy_service (deliver env y)) = sv_subscribed (sy_service y)"
  "sv_deviceId (sy_service (deliver env y)) = sv_deviceId (sy_service y)"
  using fold_docs_changed[of env "st_notified (sy_store y)" "on_store (\<lambda>s. s\<lparr>st_notified := []\<rparr>) y"]
  by (auto simp: deliver_def Let_def)

text \<open>A publish that does not reject sends every dirty register at its current stamp.\<close>

lemma doc_wires_mem:
  assumes "k \<in> set (sv_dirty (sy_service y))" "register_at (sy_store y) k = Some r"
  shows "sealDoc env (fi_iv fi) (sv_keys (sy_service y)) k (doc_json env (lw_value r)) (lw_hlc r) \<in> set (doc_wires env fi y)"
proof -
  have "\<exists>x. map_option
      (\<lambda>r. sealDoc env (fi_iv fi) (sv_keys (sy_service y)) k (doc_json env (lw_value r)) (lw_hlc r))
      (register_at (sy_store y) k) = Some x \<and>
      x = sealDoc env (fi_iv fi) (sv_keys (sy_service y)) k (doc_json env (lw_value r)) (lw_hlc r)"
    using assms(2) by simp
  then show ?thesis
    using assms(1) by (force simp: doc_wires_def List.map_filter_def)
qed

lemma seal_key_hlc [simp]: "ws_key (sealDoc env iv cr k j h) = k" "ws_hlc (sealDoc env iv cr k j h) = h"
  by (simp_all add: sealDoc_def Let_def)

definition was_published :: "sync \<Rightarrow> string \<Rightarrow> hlc \<Rightarrow> bool" where
  "was_published y k h \<longleftrightarrow> (\<exists>wires \<in> set (sv_published (sy_service y)). \<exists>w \<in> set wires. ws_key w = k \<and> ws_hlc w = h)"

lemma flush_publishes:
  assumes "\<not> flush_rejects env fi y" "k \<in> set (sv_dirty (sy_service y))" "register_at (sy_store y) k = Some r"
  shows "was_published (flush env fi y) k (lw_hlc r)"
proof -
  define w where "w = sealDoc env (fi_iv fi) (sv_keys (sy_service y)) k (doc_json env (lw_value r)) (lw_hlc r)"
  have w: "w \<in> set (doc_wires env fi y)" unfolding w_def by (rule doc_wires_mem[OF assms(2,3)])
  then have ne: "doc_wires env fi y @ zs \<noteq> []" for zs by auto
  have "\<exists>wires \<in> set (sv_published (sy_service (flush env fi y))). w \<in> set wires"
    using assms(1,2) w ne by (auto simp: flush_def Let_def case_prod_unfold)
  then show ?thesis unfolding was_published_def w_def by (metis seal_key_hlc)
qed

lemma flush_keeps_published: "was_published y k h \<Longrightarrow> was_published (flush env fi y) k h"
  by (auto simp: was_published_def flush_def Let_def case_prod_unfold)

section \<open>Properties of Push\<close>

abbreviation attachments :: "sync \<Rightarrow> registers" where
  "attachments y \<equiv> attachmentRegisters (lww_of (sy_store y))"

lemma filter_attachment_idem [simp]: "attachmentRegisters (attachmentRegisters r) = attachmentRegisters r"
  by (simp add: attachmentRegisters_def)

lemma push_target_attachment:
  assumes "js_wf a" "js_wf b"
  shows "attachmentRegisters (push_target (attachmentRegisters a) (attachmentRegisters b)) =
    push_target (attachmentRegisters a) (attachmentRegisters b)"
  unfolding attachmentRegisters_def[of "push_target _ _"]
proof (rule filter_True, safe)
  fix k r assume "(k, r) \<in> set (push_target (attachmentRegisters a) (attachmentRegisters b))"
  then have "k \<in> set (js_keys (push_target (attachmentRegisters a) (attachmentRegisters b)))"
    by force
  then show "isAttachmentKey k"
    using push_target_keys[OF attachment_wf[OF assms(2)]] assms by (auto simp: attachment_get split: if_splits)
qed

text \<open>What a committed plan leaves in the store.\<close>

lemma commit_store:
  assumes "synchronize_commit env now fi fenceOk pl y = (None, y')"
    and "js_wf (pl_target pl)" "js_wf (lww_of (sy_store y))"
  shows "skeleton (attachments y') = skeleton (attachmentRegisters (pl_target pl))"
proof -
  let ?s = "replaceAttachmentRegisters (pl_target pl) (sy_store y)"
  have "skeleton (lww_of (sy_store y')) = skeleton (lww_of ?s)"
    using assms(1) publish_skeleton
    by (auto simp: synchronize_commit_def Let_def split: if_splits)
  then have "skeleton (attachments y') = skeleton (attachmentRegisters (lww_of ?s))"
    by (rule skeleton_attachment)
  then show ?thesis using replaced_attachments[OF assms(2,3)] by simp
qed

lemma commit_succeeds:
  "fi_failure fi = NoFailure \<Longrightarrow> \<exists>y'. synchronize_commit env now fi True pl y = (None, y')"
  by (simp add: synchronize_commit_def Let_def flush_rejects_def)

lemma commit_remote:
  assumes "synchronize_commit env now fi fenceOk pl y = (None, y')" "pl_source pl = None" "pl_mode pl \<noteq> Pull"
  shows "sv_remoteAttachment (sy_service y') = attachmentRegisters (pl_target pl)"
  using assms by (auto simp: synchronize_commit_def Let_def case_prod_unfold flush_def split: if_splits)

lemma commit_publishes:
  assumes commit: "synchronize_commit env now fi fenceOk pl y = (None, y')" and fence: "needs_fence pl"
    and k: "k \<in> set (pl_keys pl)" and r: "register_at (sy_store y') k = Some r"
  shows "was_published y' k (lw_hlc r)"
proof -
  define y2 where "y2 = (if pl_source pl = None \<and> pl_mode pl \<noteq> Pull
      then on_service (\<lambda>v. v\<lparr>sv_remoteAttachment := attachmentRegisters (pl_target pl)\<rparr>)
        (on_store (replaceAttachmentRegisters (pl_target pl)) y)
      else on_store (replaceAttachmentRegisters (pl_target pl)) y)"
  define yp where "yp = on_service (fold mark_dirty (pl_keys pl))
      (deliver env (on_store (publishAttachmentRegisters now (pl_keys pl)) y2))"
  have nr: "\<not> flush_rejects env fi yp" and y': "y' = settle_status env
      (on_service (\<lambda>v. (schedulePublish (v\<lparr>sv_deviceSnapshotDirty := True\<rparr>))
         \<lparr>sv_localChanged := False, sv_remoteChanged := False\<rparr>) (flush env fi yp))"
    using commit fence by (auto simp: synchronize_commit_def Let_def y2_def yp_def split: if_splits)
  have same: "st_file (sy_store y') = st_file (sy_store yp)" by (simp add: y')
  have "was_published (flush env fi yp) k (lw_hlc r)"
    using flush_publishes[OF nr, of k r] k r by (simp add: same) (simp add: yp_def)
  then show ?thesis by (simp add: y' was_published_def)
qed

text \<open>
  C29. Push makes this device's tabs and focus the canonical ones: when it returns, local and canonical
  content agree, no local document has changed, every tab, order and focus known only to the
  canonical lane is gone, and every register of either side has been published at its current stamp.
\<close>

theorem pushed_workspace_is_canonical:
  assumes plan: "synchronize_plan env Push None y = Inr pl"
    and commit: "synchronize_commit env now fi True pl y = (None, y')"
    and wf: "js_wf (lww_of (sy_store y))" "js_wf (sv_remoteAttachment (sy_service y))"
  shows "\<not> workspacePending env y' \<and>
    (\<forall>k. isAttachmentKey k \<longrightarrow> doc_at (lww_of (sy_store y')) k = doc_at (lww_of (sy_store y)) k) \<and>
    (\<forall>k. isAttachmentKey k \<and>
       (register_at (sy_store y) k \<noteq> None \<or> js_get (sv_remoteAttachment (sy_service y)) k \<noteq> None) \<longrightarrow>
       (\<exists>r. register_at (sy_store y') k = Some r \<and> was_published y' k (lw_hlc r)))"
proof (intro conjI allI impI)
  let ?r = "attachmentRegisters (sv_remoteAttachment (sy_service y))"
  let ?t = "push_target (attachments y) ?r"
  have pl: "pl_target pl = ?t" "pl_keys pl = js_keys ?t" "pl_source pl = None" "pl_mode pl = Push"
    using plan by (auto simp: synchronize_plan_def Let_def split: if_splits)
  have att: "attachmentRegisters ?t = ?t" by (rule push_target_attachment[OF wf])
  have twf: "js_wf ?t" by (rule push_target_wf[OF attachment_wf[OF wf(1)]])
  have sk: "skeleton (attachments y') = skeleton ?t"
    using commit_store[OF commit _ wf(1)] twf by (simp add: pl att)
  have ywf: "js_wf (lww_of (sy_store y'))" if "js_keys (lww_of (sy_store y')) = js_keys m" "js_wf m" for m
    using that by (simp add: js_wf_def)
  show "\<not> workspacePending env y'"
    using commit_remote[OF commit] fingerprint_skeleton[OF sk, of env]
    by (simp add: workspacePending_def attachmentContentEqual_def pl att)
  have wf': "js_wf (lww_of (sy_store y'))"
  proof -
    have "skeleton (lww_of (sy_store y')) = skeleton (lww_of (replaceAttachmentRegisters ?t (sy_store y)))"
      using commit publish_skeleton by (auto simp: synchronize_commit_def Let_def pl split: if_splits)
    then show ?thesis
      using ywf[OF skeleton_keys] replaced_wf[OF wf(1)] by blast
  qed
  have get: "doc_at (lww_of (sy_store y')) k = doc_at ?t k"
    "register_at (sy_store y') k = None \<longleftrightarrow> js_get ?t k = None" if "isAttachmentKey k" for k
    using skeleton_doc[OF sk, of k] skeleton_none[OF sk, of k] that attachment_get[OF wf', of k]
    by (simp_all add: doc_at_def)
  show "doc_at (lww_of (sy_store y')) k = doc_at (lww_of (sy_store y)) k" if "isAttachmentKey k" for k
    using get(1)[OF that] that wf
    by (cases "js_get (sv_remoteAttachment (sy_service y)) k")
      (simp_all add: doc_at_def push_target_get attachment_wf attachment_get split: option.split)
  fix k assume k: "isAttachmentKey k \<and>
      (register_at (sy_store y) k \<noteq> None \<or> js_get (sv_remoteAttachment (sy_service y)) k \<noteq> None)"
  then have "k \<in> set (js_keys ?t)"
    unfolding push_target_keys[OF attachment_wf[OF wf(2)]] using wf by (simp add: attachment_get)
  then have kt: "k \<in> set (pl_keys pl)" and "js_get ?t k \<noteq> None" by (simp_all add: pl map_of_eq_None_iff)
  then obtain r where r: "register_at (sy_store y') k = Some r"
    using get(2)[of k] k by (cases "register_at (sy_store y') k") auto
  have "needs_fence pl" using kt by (auto simp: needs_fence_def pl(3))
  then show "\<exists>r. register_at (sy_store y') k = Some r \<and> was_published y' k (lw_hlc r)"
    using commit_publishes[OF commit _ kt r] r by blast
qed

text \<open>
  A concrete service: this Mac has a tab the canonical lane does not have, and the other way round.
\<close>

definition plain_env :: sync_env where
  "plain_env = \<lparr>we_collate = id, we_encodeURI = id, we_decodeURI = Some, we_stringify = (\<lambda>_. []),
     we_parse = (\<lambda>_. None), we_doc_json = (\<lambda>_. JBool True),
     we_json_doc = (\<lambda>_. WorkspaceFocusDoc \<lparr>wf_activeSpaceId = None, wf_activeTabId = None, wf_splitTabId = None\<rparr>),
     we_sign = (\<lambda>_. [])\<rparr>"

definition plain_crypto :: crypto where
  "plain_crypto = \<lparr>cr_hmac = (\<lambda>_. []), cr_encrypt = (\<lambda>_ _ p. p), cr_decrypt = (\<lambda>_ _ c. Some c),
     cr_sign = (\<lambda>_. []), cr_json = (\<lambda>_. []), cr_parse = (\<lambda>_. None)\<rparr>"

definition plain_flush :: flush_input where
  "plain_flush = \<lparr>fi_now = 60, fi_iv = (\<lambda>_. []), fi_failure = NoFailure\<rparr>"

definition tab_named :: "string \<Rightarrow> SyncedTabState" where
  "tab_named i = \<lparr>tp_id = i, tp_spaceId = ''p'', tp_createdAtMs = 1, ts_url = ''u'', ts_rank = ''0''\<rparr>"

definition other_tab :: registers where
  "other_tab = [(presence_key ''o'', \<lparr>lw_value = Some (TabPresenceDoc \<lparr>tp_id = ''o'', tp_spaceId = ''p'', tp_createdAtMs = 2\<rparr>),
     lw_hlc = \<lparr>physicalMs = 7, logical = 0, deviceId = ''b''\<rparr>\<rparr>)]"

definition two_tabs :: sync where
  "two_tabs = on_service (\<lambda>v. v\<lparr>sv_remoteReady := True, sv_remoteAttachment := other_tab\<rparr>)
     (deliver plain_env (on_store (openSyncedTab 50 (tab_named ''t''))
       (start_sync (new_sync ''a'' None plain_crypto (new_store None ''a'' None)))))"

lemma two_tabs_wf: "js_wf (lww_of (sy_store two_tabs))" "js_wf (sv_remoteAttachment (sy_service two_tabs))"
  by code_simp+

lemma pushed_workspace_is_canonical_witness:
  "\<exists>pl y'. synchronize_plan plain_env Push None two_tabs = Inr pl \<and>
     synchronize_commit plain_env 55 plain_flush True pl two_tabs = (None, y') \<and>
     \<not> workspacePending plain_env y' \<and> doc_at (lww_of (sy_store y')) (presence_key ''o'') = None"
proof -
  have p: "\<not> isl (synchronize_plan plain_env Push None two_tabs)" by code_simp
  then obtain pl where pl: "synchronize_plan plain_env Push None two_tabs = Inr pl"
    by (cases "synchronize_plan plain_env Push None two_tabs") auto
  obtain y' where y': "synchronize_commit plain_env 55 plain_flush True pl two_tabs = (None, y')"
    using commit_succeeds[of plain_flush plain_env 55 pl two_tabs] by (auto simp: plain_flush_def)
  have "isAttachmentKey (presence_key ''o'')" "doc_at (lww_of (sy_store two_tabs)) (presence_key ''o'') = None"
    by code_simp+
  then show ?thesis
    using pushed_workspace_is_canonical[OF pl y' two_tabs_wf] pl y' by auto
qed

section \<open>A change made while the fence is awaited\<close>

text \<open>
  C32. The target of a synchronization is computed before the session fence is awaited and replaces the
  registers after it.  Whatever happened in between, a tab, order or focus that is in no side of the
  plan is dropped without a tombstone: a tab opened while a Push or Merge waits for the fence
  disappears from the store.
\<close>

theorem change_during_fence_is_dropped:
  assumes "isAttachmentKey k" "js_get (pl_target pl) k = None"
    and "synchronize_commit env now fi fenceOk pl y' = (None, y'')"
    and "js_wf (pl_target pl)" "js_wf (lww_of (sy_store y'))"
  shows "register_at (sy_store y'') k = None"
proof -
  have "skeleton (lww_of (sy_store y'')) = skeleton (lww_of (replaceAttachmentRegisters (pl_target pl) (sy_store y')))"
    using assms(3) publish_skeleton by (auto simp: synchronize_commit_def Let_def split: if_splits)
  then show ?thesis
    using skeleton_none[of "lww_of (sy_store y'')" _ k] replaced_get[OF assms(4,5), of k] assms(1,2) by simp
qed

lemma change_during_fence_is_dropped_witness:
  "\<exists>pl. synchronize_plan plain_env Push None two_tabs = Inr pl \<and>
     (let y' = deliver plain_env (on_store (openSyncedTab 52 (tab_named ''n'')) two_tabs);
          y'' = snd (synchronize_commit plain_env 55 plain_flush True pl y')
      in register_at (sy_store y') (presence_key ''n'') \<noteq> None \<and>
         register_at (sy_store y'') (presence_key ''n'') = None)"
proof -
  let ?y = "deliver plain_env (on_store (openSyncedTab 52 (tab_named ''n'')) two_tabs)"
  let ?plan = "projr (synchronize_plan plain_env Push None two_tabs)"
  have p: "\<not> isl (synchronize_plan plain_env Push None two_tabs)" by code_simp
  then obtain pl where pl: "synchronize_plan plain_env Push None two_tabs = Inr pl"
    by (cases "synchronize_plan plain_env Push None two_tabs") auto
  obtain z where z: "synchronize_commit plain_env 55 plain_flush True pl ?y = (None, z)"
    using commit_succeeds[of plain_flush plain_env 55 pl ?y] by (auto simp: plain_flush_def)
  have "isAttachmentKey (presence_key ''n'')" "js_get (pl_target ?plan) (presence_key ''n'') = None"
    "js_wf (pl_target ?plan)" "js_wf (lww_of (sy_store ?y))" "register_at (sy_store ?y) (presence_key ''n'') \<noteq> None"
    by code_simp+
  then show ?thesis
    using change_during_fence_is_dropped[of "presence_key ''n''" pl plain_env 55 plain_flush True ?y z] pl z
    by (simp add: Let_def)
qed

section \<open>Merge\<close>

lemma decimal_digits: "list_all is_digit (decimal_text n)"
  using decimal_text_range by (fastforce simp: list_all_iff is_digit_def less_eq_char_def)

lemma decimal_not_Nil: "decimal_text n \<noteq> []"
  by (subst decimal_text.simps) simp

lemma decimal_no_dash: "decimal_text n \<noteq> CHR ''-'' # cs"
proof
  assume "decimal_text n = CHR ''-'' # cs"
  then have "CHR ''-'' \<in> set (decimal_text n)" by simp
  from decimal_text_range[OF this] show False by simp
qed

lemma parseRank_text [simp]: "parseRank (rank_text n) = n"
proof (cases "n < 0")
  case True
  then show ?thesis using decimal_digits decimal_not_Nil by (simp add: parseRank_def is_rank_def rank_text_def)
next
  case False
  obtain c cs where c: "decimal_text (nat n) = c # cs" using decimal_not_Nil by (cases "decimal_text (nat n)") auto
  have "c \<noteq> CHR ''-''" using decimal_no_dash[of "nat n" cs] c by auto
  moreover have "list_all is_digit (c # cs)" using decimal_digits[of "nat n"] c by simp
  moreover have "decimal_read (c # cs) = nat n" using decimal_read_text[of "nat n"] c by simp
  ultimately show ?thesis using False c by (simp add: parseRank_def is_rank_def rank_text_def)
qed

text \<open>The live tabs are those whose presence register holds a document.\<close>

lemma fold_live: "set (foldl (\<lambda>ids d. case d of TabPresenceDoc t \<Rightarrow> add_new (tp_id t) ids | _ \<Rightarrow> ids) acc ds) =
   set acc \<union> {tp_id t |t. TabPresenceDoc t \<in> set ds}"
proof (induction ds arbitrary: acc)
  case (Cons d ds)
  then show ?case by (cases d) (auto simp: add_new_def)
qed simp

lemma live_docs_mem: "js_wf regs \<Longrightarrow> d \<in> set (live_docs regs) \<longleftrightarrow> (\<exists>k. doc_at regs k = Some d)"
  by (auto simp: live_docs_def List.map_filter_def doc_at_def bind_eq_Some_conv js_wf_get image_iff)
    (metis option.sel)+

lemma live_tabs:
  assumes "well_keyed regs"
  shows "i \<in> set (liveTabIds regs) \<longleftrightarrow> (\<exists>t. doc_at regs (presence_key i) = Some (TabPresenceDoc t))"
proof -
  have key: "workspaceKeyFor d = k" if "doc_at regs k = Some d" for k d
    using that assms js_allD[of keyed_register regs k]
    by (auto simp: doc_at_def well_keyed_def keyed_register_def bind_eq_Some_conv)
  have "i \<in> set (liveTabIds regs) \<longleftrightarrow> (\<exists>t k. tp_id t = i \<and> doc_at regs k = Some (TabPresenceDoc t))"
    using fold_live[of "[]" "live_docs regs"] live_docs_mem[OF well_keyed_wf[OF assms]]
    by (auto simp: liveTabIds_def)
  then show ?thesis using key by fastforce
qed

text \<open>What merging has done so far.\<close>

definition tab_keys :: "string \<Rightarrow> string set" where
  "tab_keys i = {presence_key i, url_key i, order_key i}"

definition behind :: "registers \<Rightarrow> string set \<Rightarrow> string \<Rightarrow> int \<Rightarrow> bool" where
  "behind R only spaceId n \<longleftrightarrow>
     (\<forall>j u. j \<notin> only \<and> doc_at R (order_key j) = Some (TabOrderDoc u) \<and> to_spaceId u = spaceId \<longrightarrow>
       parseRank (to_rank u) < n)"

definition merged :: "registers \<Rightarrow> registers \<Rightarrow> string set \<Rightarrow> string set \<Rightarrow> registers \<Rightarrow> bool" where
  "merged L R only done_ids t \<longleftrightarrow>
     well_keyed t \<and>
     (\<forall>k. (\<forall>i \<in> done_ids. k \<notin> tab_keys i) \<longrightarrow> js_get t k = js_get R k) \<and>
     (\<forall>i \<in> done_ids. js_get t (presence_key i) = js_get L (presence_key i) \<and>
        (js_get L (url_key i) \<noteq> None \<longrightarrow> js_get t (url_key i) = js_get L (url_key i)) \<and>
        (\<forall>o1. doc_at L (order_key i) = Some (TabOrderDoc o1) \<longrightarrow>
          (\<exists>o2. doc_at t (order_key i) = Some (TabOrderDoc o2) \<and> to_tabId o2 = to_tabId o1 \<and>
             behind R only (to_spaceId o2) (parseRank (to_rank o2)))))"

lemma copied_get:
  "js_get (copy_register L q t) k = (if k = q \<and> js_get L k \<noteq> None then js_get L k else js_get t k)"
  by (cases "js_get L q") (auto simp: copy_register_def)

lemma copied_keyed: "well_keyed L \<Longrightarrow> well_keyed t \<Longrightarrow> well_keyed (copy_register L q t)"
  using js_allD[of keyed_register L q]
  by (auto simp: copy_register_def well_keyed_def js_all_set split: option.split)

lemma merge_tab_get:
  "js_get (mg_target (merge_tab L sp i g)) k =
     (if k = order_key i \<and> (\<exists>r u. js_get L k = Some r \<and> lw_value r = Some (TabOrderDoc u))
      then map_option (\<lambda>r. r\<lparr>lw_value := map_option (\<lambda>d. case d of TabOrderDoc u \<Rightarrow>
             TabOrderDoc (u\<lparr>to_spaceId := sp, to_rank := rank_text (mg_next g)\<rparr>) | _ \<Rightarrow> d) (lw_value r)\<rparr>) (js_get L k)
      else if k \<in> {presence_key i, url_key i} \<and> js_get L k \<noteq> None then js_get L k
      else js_get (mg_target g) k)"
proof (cases "js_get L (order_key i)")
  case None
  then show ?thesis by (auto simp: merge_tab_def Let_def copied_get)
next
  case (Some r)
  show ?thesis
  proof (cases "\<exists>u. lw_value r = Some (TabOrderDoc u)")
    case True
    then show ?thesis using Some by (auto simp add: merge_tab_def Let_def copied_get)
  next
    case False
    then have "mg_target (merge_tab L sp i g) =
        copy_register L (url_key i) (copy_register L (presence_key i) (mg_target g))"
      using Some by (simp add: merge_tab_def Let_def split: option.split WorkspaceDoc.split)
    then show ?thesis using False Some by (auto simp: copied_get)
  qed
qed

lemma merge_tab_next: "mg_next g \<le> mg_next (merge_tab L sp i g)"
  by (auto simp: merge_tab_def Let_def TAB_ORDER_STEP_def split: option.splits WorkspaceDoc.splits)

lemma merge_tab_keyed:
  assumes L: "well_keyed L" and g: "well_keyed (mg_target g)"
  shows "well_keyed (mg_target (merge_tab L sp i g))"
proof -
  let ?t = "copy_register L (url_key i) (copy_register L (presence_key i) (mg_target g))"
  have t: "well_keyed ?t" using L g by (intro copied_keyed)
  have ord: "well_keyed (js_set ?t (order_key i) (r\<lparr>lw_value := Some (TabOrderDoc (u\<lparr>to_spaceId := a, to_rank := b\<rparr>))\<rparr>))"
    if "js_get L (order_key i) = Some r" "lw_value r = Some (TabOrderDoc u)" for r u a b
  proof -
    have "to_tabId u = i"
      using that L js_allD[of keyed_register L "order_key i" r] by (simp add: well_keyed_def keyed_register_def)
    then show ?thesis using t by (simp add: well_keyed_def js_all_set keyed_register_def)
  qed
  show ?thesis
    using t ord by (simp add: merge_tab_def Let_def split: option.split WorkspaceDoc.split)
qed

lemma behind_mono: "behind R only sp m \<Longrightarrow> m \<le> n \<Longrightarrow> behind R only sp n"
  unfolding behind_def using order.strict_trans2 by blast

lemma tab_keys_disjoint: "i \<noteq> j \<Longrightarrow> k \<in> tab_keys i \<Longrightarrow> k \<notin> tab_keys j"
  by (auto simp: tab_keys_def)

lemma merge_tab_merged:
  assumes m: "merged L R only D (mg_target g)" and p: "js_get L (presence_key i) \<noteq> None"
    and b: "behind R only sp (mg_next g)" and L: "well_keyed L"
  shows "merged L R only (insert i D) (mg_target (merge_tab L sp i g))"
  unfolding merged_def
proof (intro conjI allI impI ballI)
  let ?t = "mg_target (merge_tab L sp i g)"
  have same: "js_get ?t k = js_get (mg_target g) k" if "k \<notin> tab_keys i" for k
    using that unfolding merge_tab_get by (auto simp: tab_keys_def)
  show "well_keyed ?t" using m L by (simp add: merged_def merge_tab_keyed)
  show "js_get ?t k = js_get R k" if "\<forall>j \<in> insert i D. k \<notin> tab_keys j" for k
    using that same m by (simp add: merged_def)
  fix j assume j: "j \<in> insert i D"
  have old: "js_get ?t k = js_get (mg_target g) k" if "j \<noteq> i" "k \<in> tab_keys j" for k
    using same tab_keys_disjoint[OF that] by blast
  show "js_get ?t (presence_key j) = js_get L (presence_key j)"
    using old[of "presence_key j"] m j p
    by (cases "j = i") (simp_all add: merged_def merge_tab_get tab_keys_def)
  show "js_get ?t (url_key j) = js_get L (url_key j)" if "js_get L (url_key j) \<noteq> None"
    using old[of "url_key j"] m j that
    by (cases "j = i") (simp_all add: merged_def merge_tab_get tab_keys_def)
  fix o1 assume o1: "doc_at L (order_key j) = Some (TabOrderDoc o1)"
  show "\<exists>o2. doc_at ?t (order_key j) = Some (TabOrderDoc o2) \<and> to_tabId o2 = to_tabId o1 \<and>
      behind R only (to_spaceId o2) (parseRank (to_rank o2))"
  proof (cases "j = i")
    case True
    then show ?thesis
      using o1 b by (auto simp: doc_at_def merge_tab_get bind_eq_Some_conv)
  next
    case False
    then have "doc_at ?t (order_key j) = doc_at (mg_target g) (order_key j)"
      using old[OF False, of "order_key j"] by (simp add: doc_at_def tab_keys_def)
    then show ?thesis using m j False o1 by (simp add: merged_def)
  qed
qed

lemma fold_merge_tab:
  assumes "merged L R only D (mg_target g)" "\<forall>i \<in> set is. js_get L (presence_key i) \<noteq> None"
    and "behind R only sp (mg_next g)" and L: "well_keyed L"
  shows "merged L R only (D \<union> set is) (mg_target (fold (merge_tab L sp) is g))"
  using assms(1-3)
proof (induction "is" arbitrary: D g)
  case (Cons i "is")
  have "merged L R only (insert i D) (mg_target (merge_tab L sp i g))"
    by (rule merge_tab_merged) (use Cons.prems L in auto)
  moreover have "behind R only sp (mg_next (merge_tab L sp i g))"
    using behind_mono[OF Cons.prems(3) merge_tab_next] .
  ultimately show ?case using Cons.IH[of "insert i D" "merge_tab L sp i g"] Cons.prems(2) by simp
qed simp

text \<open>The ranks a space is merged behind.\<close>

lemma foldl_max: "(m :: int) \<le> foldl max m ns \<and> (\<forall>n \<in> set ns. n \<le> foldl max m ns)"
proof (induction ns arbitrary: m)
  case (Cons a ns)
  show ?case using Cons.IH[of "max m a"] by simp
qed simp

lemma first_rank_above: "n \<in> set ns \<Longrightarrow> n < first_rank ns"
proof (cases ns)
  case (Cons m ms)
  assume "n \<in> set ns"
  then have "n \<le> foldl max m ms" using foldl_max[of m ms] Cons by auto
  then show ?thesis by (simp add: first_rank_def Cons TAB_ORDER_STEP_def)
qed simp

lemma first_rank_behind:
  assumes m: "merged L R only D t" and D: "D \<subseteq> only"
  shows "behind R only sp (first_rank (ranks_in sp t))"
  unfolding behind_def
proof (intro allI impI)
  fix j u assume j: "j \<notin> only \<and> doc_at R (order_key j) = Some (TabOrderDoc u) \<and> to_spaceId u = sp"
  then have "\<forall>i \<in> D. order_key j \<notin> tab_keys i" using D by (auto simp: tab_keys_def)
  then have "doc_at t (order_key j) = Some (TabOrderDoc u)"
    using m j by (simp add: merged_def doc_at_def)
  then have "TabOrderDoc u \<in> set (live_docs t)"
    using live_docs_mem[of t] m by (auto simp: merged_def well_keyed_wf)
  then have "parseRank (to_rank u) \<in> set (ranks_in sp t)"
    using j by (force simp: ranks_in_def List.map_filter_def)
  then show "parseRank (to_rank u) < first_rank (ranks_in sp t)" by (rule first_rank_above)
qed

lemma merge_space_merged:
  assumes "merged L R only D (fst tk)" "D \<subseteq> only" "\<forall>i \<in> set (snd sp). js_get L (presence_key i) \<noteq> None"
    and "well_keyed L"
  shows "merged L R only (D \<union> set (snd sp)) (fst (merge_space env L sp tk))"
proof (cases sp; cases tk)
  fix spaceId ids t ks assume "sp = (spaceId, ids)" "tk = (t, ks)"
  then show ?thesis
    using fold_merge_tab[of L R only D "\<lparr>mg_target = t, mg_keys = ks, mg_next = first_rank (ranks_in spaceId t)\<rparr>"
        "sort_key (\<lambda>i. (order_rank L i, we_collate env i)) ids" spaceId] first_rank_behind[of L R only D t spaceId] assms
    by (simp add: merge_space_def Let_def)
qed

lemma fold_merge_space:
  assumes "merged L R only D (fst tk)" "D \<union> set (concat (map snd sps)) \<subseteq> only"
    and "\<forall>i \<in> set (concat (map snd sps)). js_get L (presence_key i) \<noteq> None" and L: "well_keyed L"
  shows "merged L R only (D \<union> set (concat (map snd sps))) (fst (fold (merge_space env L) sps tk))"
  using assms(1-3)
proof (induction sps arbitrary: D tk)
  case (Cons sp sps)
  have one: "merged L R only (D \<union> set (snd sp)) (fst (merge_space env L sp tk))"
    by (rule merge_space_merged) (use Cons.prems L in auto)
  have eq: "D \<union> set (concat (map snd (sp # sps))) = (D \<union> set (snd sp)) \<union> set (concat (map snd sps))" by auto
  have "merged L R only ((D \<union> set (snd sp)) \<union> set (concat (map snd sps)))
      (fst (fold (merge_space env L) sps (merge_space env L sp tk)))"
    by (rule Cons.IH[OF one]) (use Cons.prems in auto)
  then show ?case unfolding eq by simp
qed simp

lemma js_set_values:
  "js_wf m \<Longrightarrow> set (js_set m k v) = insert (k, v) {p \<in> set m. fst p \<noteq> k}"
proof (induction m)
  case (Cons p m)
  then show ?case by (cases p) (auto simp: js_wf_def image_iff)
qed simp

lemma by_space_ids:
  assumes "\<forall>i \<in> set ids. \<exists>t. doc_at L (presence_key i) = Some (TabPresenceDoc t)"
  shows "set (concat (map snd (by_space L ids))) = set ids"
proof -
  let ?f = "\<lambda>m i. case doc_at L (presence_key i) of
       Some (TabPresenceDoc t) \<Rightarrow> js_set m (tp_spaceId t) (given (js_get m (tp_spaceId t)) [] @ [i]) | _ \<Rightarrow> m"
  have "js_wf (foldl ?f m ids) \<and> set (concat (map snd (foldl ?f m ids))) = set (concat (map snd m)) \<union> set ids"
    if "js_wf m" for m
    using assms that
  proof (induction ids arbitrary: m)
    case (Cons i ids)
    obtain t where t: "doc_at L (presence_key i) = Some (TabPresenceDoc t)" using Cons.prems(1) by auto
    let ?m = "js_set m (tp_spaceId t) (given (js_get m (tp_spaceId t)) [] @ [i])"
    have wf: "js_wf ?m" using Cons.prems(2) by (rule js_wf_set)
    let ?k = "tp_spaceId t" and ?rest = "{p \<in> set m. fst p \<noteq> tp_spaceId t}"
    have "set m = (case js_get m ?k of None \<Rightarrow> ?rest | Some vs \<Rightarrow> insert (?k, vs) ?rest)"
    proof (cases "js_get m ?k")
      case None
      then have "?k \<notin> fst ` set m" by (simp add: map_of_eq_None_iff)
      then have "set m = ?rest" by force
      then show ?thesis using None by simp
    next
      case (Some vs)
      then show ?thesis using js_wf_get[OF Cons.prems(2)] by auto
    qed
    then have "(\<Union>p \<in> set m. set (snd p)) = (\<Union>p \<in> (case js_get m ?k of None \<Rightarrow> ?rest
        | Some vs \<Rightarrow> insert (?k, vs) ?rest). set (snd p))"
      by (rule arg_cong[where f = "\<lambda>A. \<Union>p \<in> A. set (snd p)"])
    also have "\<dots> = set (given (js_get m ?k) []) \<union> (\<Union>p \<in> ?rest. set (snd p))"
      by (cases "js_get m ?k") simp_all
    finally have "(\<Union>p \<in> set m. set (snd p)) = set (given (js_get m ?k) []) \<union> (\<Union>p \<in> ?rest. set (snd p))" .
    then have "set (concat (map snd ?m)) = insert i (set (concat (map snd m)))"
      using js_set_values[OF Cons.prems(2), of ?k "given (js_get m ?k) [] @ [i]"] by simp
    then show ?case using Cons.IH[of ?m] Cons.prems(1) wf t by simp
  qed simp
  then show ?thesis by (simp add: by_space_def)
qed

text \<open>
  Merge loses no tab of either side.  The tabs live after it are those live on this device and
  those live at the source; a tab, order and focus the source knows keeps the source's register unless
  the tab is live only here; a tab live only here keeps its own presence and address, and its order is
  placed behind every tab order the source has in that space.
\<close>

theorem merge_keeps_every_tab:
  assumes L: "well_keyed L" and R: "well_keyed R"
    and T: "fst (mergeAttachmentRegisters env L (attachmentRegisters R)) = T"
    and only: "only = set (liveTabIds L) - set (liveTabIds (attachmentRegisters R))"
  shows "set (liveTabIds T) = set (liveTabIds L) \<union> set (liveTabIds (attachmentRegisters R)) \<and>
    (\<forall>k. isAttachmentKey k \<and> (\<forall>i \<in> only. k \<notin> tab_keys i) \<longrightarrow> js_get T k = js_get R k) \<and>
    (\<forall>i \<in> only. js_get T (presence_key i) = js_get L (presence_key i) \<and>
       (js_get L (url_key i) \<noteq> None \<longrightarrow> js_get T (url_key i) = js_get L (url_key i)) \<and>
       (\<forall>o1. doc_at L (order_key i) = Some (TabOrderDoc o1) \<longrightarrow>
         (\<exists>o2. doc_at T (order_key i) = Some (TabOrderDoc o2) \<and> to_tabId o2 = to_tabId o1 \<and>
            behind (attachmentRegisters R) only (to_spaceId o2) (parseRank (to_rank o2)))))"
proof -
  let ?R = "attachmentRegisters R"
  have Rk: "well_keyed ?R" using R by (simp add: attachmentRegisters_def well_keyed_filter)
  let ?ids = "filter (\<lambda>i. i \<notin> set (liveTabIds ?R)) (liveTabIds L)"
  have ids: "set ?ids = only" by (auto simp: only)
  have pres: "\<exists>t. doc_at L (presence_key i) = Some (TabPresenceDoc t)" if "i \<in> only" for i
    using that live_tabs[OF L] by (simp add: only)
  have conc: "set (concat (map snd (by_space L ?ids))) = only"
    using by_space_ids[of ?ids L] pres ids by blast
  have m0: "merged L ?R only {} (fst (?R, []::string list))" using Rk by (simp add: merged_def)
  have p: "\<forall>i \<in> only. js_get L (presence_key i) \<noteq> None"
    using pres by (auto simp: doc_at_def bind_eq_Some_conv)
  have "merged L ?R only ({} \<union> set (concat (map snd (by_space L ?ids))))
      (fst (fold (merge_space env L) (by_space L ?ids) (?R, [])))"
    by (rule fold_merge_space[OF m0 _ _ L]) (use p in \<open>simp_all only: conc Un_empty_left order_refl\<close>)
  then have m: "merged L ?R only only T"
    unfolding conc T[symmetric] mergeAttachmentRegisters_def Let_def by simp
  then have Tk: "well_keyed T" by (simp add: merged_def)
  have att: "js_get ?R k = js_get R k" if "isAttachmentKey k" for k
    using that attachment_get[OF well_keyed_wf[OF R]] by simp
  have rest: "js_get T k = js_get ?R k" if "\<forall>i \<in> only. k \<notin> tab_keys i" for k
    using m that by (simp add: merged_def)
  have pres_T: "doc_at T (presence_key i) = (if i \<in> only then doc_at L (presence_key i) else doc_at ?R (presence_key i))" for i
  proof (cases "i \<in> only")
    case True
    then show ?thesis using m by (simp add: merged_def doc_at_def)
  next
    case False
    then have "\<forall>j \<in> only. presence_key i \<notin> tab_keys j" by (auto simp: tab_keys_def)
    then show ?thesis using rest[of "presence_key i"] False by (simp add: doc_at_def)
  qed
  have "i \<in> set (liveTabIds T) \<longleftrightarrow> i \<in> set (liveTabIds L) \<or> i \<in> set (liveTabIds ?R)" for i
  proof (cases "i \<in> only")
    case True
    then show ?thesis using live_tabs[OF Tk, of i] live_tabs[OF L, of i] pres_T[of i] by (simp add: only)
  next
    case False
    then show ?thesis using live_tabs[OF Tk, of i] live_tabs[OF Rk, of i] pres_T[of i] by (auto simp: only)
  qed
  then have live: "set (liveTabIds T) = set (liveTabIds L) \<union> set (liveTabIds ?R)" by blast
  have keep: "\<forall>k. isAttachmentKey k \<and> (\<forall>i \<in> only. k \<notin> tab_keys i) \<longrightarrow> js_get T k = js_get R k"
    using rest att by simp
  note mine = m[unfolded merged_def, THEN conjunct2, THEN conjunct2]
  show ?thesis by (intro conjI live keep mine)
qed

lemma two_tabs_keyed: "well_keyed (attachments two_tabs)" "well_keyed other_tab"
proof -
  have "well_keyed m" if "js_wf m" "list_all (\<lambda>(k, r). keyed_register k r) m" for m
    using that by (auto simp: well_keyed_def js_all_def list_all_iff dest!: js_get_mem)
  moreover have "js_wf (attachments two_tabs) \<and> list_all (\<lambda>(k, r). keyed_register k r) (attachments two_tabs)"
    "js_wf other_tab \<and> list_all (\<lambda>(k, r). keyed_register k r) other_tab"
    by code_simp+
  ultimately show "well_keyed (attachments two_tabs)" "well_keyed other_tab" by blast+
qed

lemma merge_keeps_every_tab_witness:
  "set (liveTabIds (fst (mergeAttachmentRegisters plain_env (attachments two_tabs) (attachmentRegisters other_tab)))) =
     {''t'', ''o''}"
proof -
  have "set (liveTabIds (attachments two_tabs)) = {''t''}" "set (liveTabIds (attachmentRegisters other_tab)) = {''o''}"
    by code_simp+
  then show ?thesis using merge_keeps_every_tab[OF two_tabs_keyed refl refl, of plain_env] by auto
qed

end
