(* ===== verification/WorkspaceRuns.thy ===== *)
theory WorkspaceRuns
  imports WorkspaceConverge
begin

text \<open>
  The service and its store together: local operations with their notifications, remote documents,
  publishes, hydration, explicit synchronization and new keys, in any order.
\<close>

section \<open>Steps\<close>

datatype sync_op =
    SyncLocal store_op
  | SyncRemote nat "WorkspaceRecordWire list"
  | SyncTimer flush_input
  | SyncHydrated nat flush_input bool
  | SyncCommit nat flush_input bool sync_plan
  | SyncRekey crypto string

fun sync_step :: "sync_env \<Rightarrow> sync \<Rightarrow> sync_op \<Rightarrow> sync" where
  "sync_step env y (SyncLocal x) = deliver env (on_store (store_step (we_collate env) x) y)"
| "sync_step env y (SyncRemote n docs) = snd (handleRemoteDocs env n docs y)"
| "sync_step env y (SyncTimer fi) = publish_timer env fi y"
| "sync_step env y (SyncHydrated n fi ok) = handleHydrated env n fi ok y"
| "sync_step env y (SyncCommit n fi ok pl) = snd (synchronize_commit env n fi ok pl y)"
| "sync_step env y (SyncRekey keys a) = rekey keys a y"

text \<open>The operations a device performs on its store itself: a reload belongs to a new process.\<close>

fun own_op :: "store_op \<Rightarrow> bool" where
  "own_op (OpRemote n k v h) = False"
| "own_op (OpReload d c) = False"
| "own_op (OpReplaceAttachments regs) = False"
| "own_op _ = True"

fun sync_own :: "sync_op \<Rightarrow> bool" where
  "sync_own (SyncLocal x) = own_op x"
| "sync_own _ = True"

section \<open>Every own change is announced\<close>

text \<open>A register with a new stamp of this device, outside tabs and focus, is in a listener's call.\<close>

definition fresh_in :: "store \<Rightarrow> store \<Rightarrow> string \<Rightarrow> bool" where
  "fresh_in s s' k \<longleftrightarrow> \<not> isAttachmentKey k \<and>
     (\<exists>r'. register_at s' k = Some r' \<and> deviceId (lw_hlc r') = st_deviceId s \<and>
        (\<forall>r. register_at s k = Some r \<longrightarrow> lw_hlc r \<noteq> lw_hlc r'))"

definition announced :: "store \<Rightarrow> store \<Rightarrow> bool" where
  "announced s s' \<longleftrightarrow> js_wf (lww_of s) \<longrightarrow>
     js_wf (lww_of s') \<and> st_deviceId s' = st_deviceId s \<and>
     (\<exists>calls. st_notified s' = st_notified s @ calls \<and> (\<forall>k. fresh_in s s' k \<longrightarrow> k \<in> set (concat calls)))"

lemma announced_refl: "announced s s"
  by (simp add: announced_def fresh_in_def)

lemma announced_trans: "announced s t \<Longrightarrow> announced t u \<Longrightarrow> announced s u"
  unfolding announced_def[of s u]
proof
  assume st: "announced s t" and tu: "announced t u" and wf: "js_wf (lww_of s)"
  obtain c1 where c1: "st_notified t = st_notified s @ c1" "\<forall>k. fresh_in s t k \<longrightarrow> k \<in> set (concat c1)"
    and d1: "st_deviceId t = st_deviceId s" "js_wf (lww_of t)" using st wf by (auto simp: announced_def)
  obtain c2 where c2: "st_notified u = st_notified t @ c2" "\<forall>k. fresh_in t u k \<longrightarrow> k \<in> set (concat c2)"
    and d2: "st_deviceId u = st_deviceId t" "js_wf (lww_of u)" using tu d1(2) by (auto simp: announced_def)
  have "fresh_in s t k \<or> fresh_in t u k" if "fresh_in s u k" for k
    using that d1 unfolding fresh_in_def by (metis option.inject)
  then have "\<forall>k. fresh_in s u k \<longrightarrow> k \<in> set (concat (c1 @ c2))" using c1(2) c2(2) by fastforce
  then show "js_wf (lww_of u) \<and> st_deviceId u = st_deviceId s \<and>
      (\<exists>calls. st_notified u = st_notified s @ calls \<and> (\<forall>k. fresh_in s u k \<longrightarrow> k \<in> set (concat calls)))"
    using c1(1) c2(1) d1 d2 by auto
qed

lemma announced_fold: "(\<And>x s. announced s (f x s)) \<Longrightarrow> announced s (fold f xs s)"
proof (induction xs arbitrary: s)
  case (Cons x xs)
  then show ?case using announced_trans[of s "f x s"] by simp
qed (simp add: announced_refl)

text \<open>What changes no stamp needs no call, and what changes the registers of a call is announced.\<close>

lemma announced_quiet:
  assumes "st_deviceId s' = st_deviceId s" "st_notified s' = st_notified s"
    and "js_wf (lww_of s) \<Longrightarrow> js_wf (lww_of s')"
    and "\<And>k r'. js_wf (lww_of s) \<Longrightarrow> \<not> isAttachmentKey k \<Longrightarrow> register_at s' k = Some r' \<Longrightarrow>
      \<exists>r. register_at s k = Some r \<and> lw_hlc r = lw_hlc r'"
  shows "announced s s'"
  using assms by (force simp: announced_def fresh_in_def)

lemma announced_listed:
  assumes "st_deviceId s' = st_deviceId s" "st_notified s' = st_notified s @ [ks]"
    and "js_wf (lww_of s) \<Longrightarrow> js_wf (lww_of s')"
    and "\<And>k. k \<notin> set ks \<Longrightarrow> register_at s' k = register_at s k"
  shows "announced s s'"
proof -
  have "k \<in> set ks" if "fresh_in s s' k" for k
  proof (rule ccontr)
    assume "k \<notin> set ks"
    then have "register_at s' k = register_at s k" by (rule assms(4))
    then show False using that by (auto simp: fresh_in_def)
  qed
  then show ?thesis using assms(1-3) by (simp add: announced_def)
qed

lemma store_frame [simp]:
  "st_deviceId (on_file f s) = st_deviceId s" "st_notified (on_file f s) = st_notified s"
  "st_deviceId (scheduleWrite s) = st_deviceId s" "st_notified (scheduleWrite s) = st_notified s"
  "st_deviceId (notifyDocs ks s) = st_deviceId s" "st_notified (notifyDocs ks s) = st_notified s @ [ks]"
  "st_deviceId (snd (stamp n s)) = st_deviceId s" "st_notified (snd (stamp n s)) = st_notified s"
  by (simp_all add: on_file_def scheduleWrite_def notifyDocs_def stamp_def case_prod_unfold Let_def)

lemma stamped_frame [simp]:
  "st_deviceId (stamped_put n k v s) = st_deviceId s" "st_notified (stamped_put n k v s) = st_notified s"
  by (simp_all add: stamped_put_def case_prod_unfold Let_def)

lemma stamped_wf [simp]: "js_wf (lww_of s) \<Longrightarrow> js_wf (lww_of (stamped_put n k v s))"
  using stamped_put_file[of n k v s] by (auto intro: js_wf_set)

lemma stamped_get: "q \<noteq> k \<Longrightarrow> register_at (stamped_put n k v s) q = register_at s q"
  using stamped_put_file[of n k v s] by auto

lemma announced_file: "wk_lww (f (st_file s)) = lww_of s \<Longrightarrow> announced s (on_file f s)"
  by (rule announced_quiet) simp_all

lemma announced_schedule: "announced s t \<Longrightarrow> announced s (scheduleWrite t)"
  by (simp add: announced_def fresh_in_def)

lemma announced_record: "announced s (recordDoc n d s)"
  by (rule announced_listed[where ks = "[workspaceKeyFor d]"]) (simp_all add: recordDoc_def Let_def stamped_get)

lemma announced_tombstone: "announced s (recordTombstone n k s)"
  by (rule announced_listed[where ks = "[k]"]) (simp_all add: recordTombstone_def stamped_get)

lemma stamped_fold:
  "q \<notin> workspaceKeyFor ` set ds \<Longrightarrow>
     register_at (fold (\<lambda>d. stamped_put n (workspaceKeyFor d) (Some d)) ds s) q = register_at s q"
  "st_deviceId (fold (\<lambda>d. stamped_put n (workspaceKeyFor d) (Some d)) ds s) = st_deviceId s"
  "st_notified (fold (\<lambda>d. stamped_put n (workspaceKeyFor d) (Some d)) ds s) = st_notified s"
  "js_wf (lww_of s) \<Longrightarrow> js_wf (lww_of (fold (\<lambda>d. stamped_put n (workspaceKeyFor d) (Some d)) ds s))"
  by (induction ds arbitrary: s) (simp_all add: stamped_get)

lemma announced_records: "announced s (recordDocs n ds s)"
proof (cases "ds = []")
  case False
  then show ?thesis
    by (intro announced_listed[where ks = "map workspaceKeyFor ds"]) (simp_all add: recordDocs_def stamped_fold)
qed (simp add: recordDocs_def announced_refl)

lemma announced_after: "announced s (f s) \<Longrightarrow> (\<And>t. announced t (g t)) \<Longrightarrow> announced s (g (f s))"
  using announced_trans by blast

section \<open>Every operation of a store announces\<close>

lemma announced_prune: "announced s (on_file (\<lambda>f. pruneHistory t (f\<lparr>wk_history := h f\<rparr>)) s)"
  by (rule announced_quiet) (auto simp: pruneHistory_def Let_def js_wf_filter js_get_filter split: option.splits if_splits)

lemma announced_visit: "announced s (addHistoryVisit n v s)"
proof -
  define s1 where "s1 = on_file (\<lambda>f. pruneHistory (hv_atMs v) (f\<lparr>wk_history := wk_history f @ [(v, False)]\<rparr>)) s"
  have "announced s s1" unfolding s1_def by (rule announced_prune)
  then show ?thesis
    using announced_trans[OF _ announced_record] announced_schedule by (simp add: addHistoryVisit_def Let_def flip: s1_def)
qed

lemma announced_retitled: "announced s (on_file (retitled title v sh) s)"
  by (rule announced_quiet) (auto simp: retitled_def Let_def intro: js_wf_set split: option.splits if_splits)

lemma announced_title: "announced s (updateHistoryVisitTitle n i title s)"
proof (cases "find (\<lambda>(v, sh). hv_id v = i) (wk_history (st_file s))")
  case (Some c)
  obtain v sh where c: "c = (v, sh)" by fastforce
  define s1 where "s1 = on_file (retitled title v sh) s"
  have a: "announced s s1" unfolding s1_def by (rule announced_retitled)
  have b: "announced t (on_file (\<lambda>f. f\<lparr>wk_history := share_first i (wk_history f)\<rparr>) t)" for t
    by (rule announced_file) simp
  have "announced s (on_file (\<lambda>f. f\<lparr>wk_history := share_first i (wk_history f)\<rparr>) (recordDoc n d s1))" for d
    using announced_trans[OF announced_trans[OF a announced_record] b] .
  then show ?thesis
    using Some c a announced_schedule[OF a] announced_refl
    by (simp add: updateHistoryVisitTitle_def Let_def flip: s1_def)
qed (simp add: updateHistoryVisitTitle_def announced_refl)

text \<open>The two loops that call the listeners once, at their end.\<close>

definition listed :: "string list \<times> store \<Rightarrow> string list \<times> store \<Rightarrow> bool" where
  "listed c c' \<longleftrightarrow> set (fst c) \<subseteq> set (fst c') \<and> st_deviceId (snd c') = st_deviceId (snd c) \<and>
     st_notified (snd c') = st_notified (snd c) \<and>
     (js_wf (lww_of (snd c)) \<longrightarrow> js_wf (lww_of (snd c'))) \<and>
     (\<forall>k. k \<notin> set (fst c') \<longrightarrow> register_at (snd c') k = register_at (snd c) k)"

lemma listed_fold:
  assumes "\<And>x c. listed c (f x c)"
  shows "listed c (fold f xs c)"
proof (induction xs arbitrary: c)
  case (Cons x xs)
  have "listed c (f x c)" "listed (f x c) (fold f xs (f x c))" using assms Cons.IH by blast+
  then show ?case by (auto simp: listed_def)
qed (simp add: listed_def)

lemma clear_one_listed: "listed c (clear_one n i c)"
  by (cases c) (auto simp: listed_def clear_one_def stamped_get)

lemma restamp_one_listed: "listed c (restamp_one n k c)"
proof (cases c)
  case (Pair ks s)
  show ?thesis
  proof (cases "register_at s k")
    case (Some r)
    then show ?thesis using Pair
      by (auto simp: listed_def restamp_one_def case_prod_unfold Let_def js_wf_set)
  qed (simp add: Pair listed_def restamp_one_def)
qed

lemma announced_listing:
  assumes "listed ([], s) c"
  shows "announced s (if fst c = [] then snd c else notifyDocs (fst c) (scheduleWrite (snd c)))"
    and "announced s (if fst c = [] then scheduleWrite (snd c) else notifyDocs (fst c) (scheduleWrite (snd c)))"
proof -
  have "announced s (snd c)" if "fst c = []"
    using assms that by (intro announced_quiet) (auto simp: listed_def)
  moreover have "announced s (notifyDocs (fst c) (scheduleWrite (snd c)))"
    using assms by (intro announced_listed[where ks = "fst c"]) (auto simp: listed_def)
  ultimately show "announced s (if fst c = [] then snd c else notifyDocs (fst c) (scheduleWrite (snd c)))"
    and "announced s (if fst c = [] then scheduleWrite (snd c) else notifyDocs (fst c) (scheduleWrite (snd c)))"
    using announced_schedule by auto
qed

lemma announced_clear: "announced s (clearHistory n s)"
proof -
  let ?s0 = "on_file (\<lambda>f. f\<lparr>wk_history := []\<rparr>) s"
  let ?c = "fold (clear_one n) (map (hv_id \<circ> fst) (wk_history (st_file s))) ([], ?s0)"
  have "announced s ?s0" by (rule announced_file) simp
  moreover have "announced ?s0 (if fst ?c = [] then scheduleWrite (snd ?c) else notifyDocs (fst ?c) (scheduleWrite (snd ?c)))"
    by (rule announced_listing(2)) (rule listed_fold, rule clear_one_listed)
  moreover have "clearHistory n s =
      (if fst ?c = [] then scheduleWrite (snd ?c) else notifyDocs (fst ?c) (scheduleWrite (snd ?c)))"
    by (simp add: clearHistory_def Let_def case_prod_unfold)
  ultimately show ?thesis by (simp only: announced_trans)
qed

lemma announced_publish: "announced s (publishAttachmentRegisters n ks s)"
  using announced_listing(1)[OF listed_fold[of "restamp_one n", OF restamp_one_listed], of s ks]
  by (simp add: publishAttachmentRegisters_def Let_def case_prod_unfold)

lemma announced_drop_pin: "announced s (drop_pin n p s)"
  unfolding drop_pin_def by (rule announced_trans[OF _ announced_tombstone], rule announced_file) simp

lemma announced_close: "announced s (closeSyncedTab n i s)"
  by (simp add: closeSyncedTab_def Let_def announced_tombstone announced_refl)

lemma announced_remove_space: "announced s (removeSpace co n i s)"
proof -
  define s1 where "s1 = on_file (\<lambda>f. f\<lparr>wk_spaces := remove_first (\<lambda>x. sp_id x = i) (wk_spaces f)\<rparr>) s"
  define s2 where "s2 = fold (drop_pin n) (filter (\<lambda>p. pin_spaceId p = i) (wk_pins (st_file s1))) s1"
  define s3 where "s3 = fold (\<lambda>t. closeSyncedTab n (tp_id t)) (syncedTabsFor co i s2) s2"
  have "announced s s1" unfolding s1_def by (rule announced_file) simp
  moreover have "announced s1 s2" unfolding s2_def by (rule announced_fold) (rule announced_drop_pin)
  moreover have "announced s2 s3" unfolding s3_def by (rule announced_fold) (rule announced_close)
  ultimately have "announced s (recordTombstone n (space_key i) s3)"
    using announced_trans announced_tombstone by blast
  then show ?thesis
    using announced_refl by (simp add: removeSpace_def Let_def s1_def s2_def s3_def)
qed

lemma announced_settings: "announced s (updateSettings n p s)"
proof -
  have "announced s (on_file (\<lambda>f. f\<lparr>wk_settings := patched_settings p (wk_settings f)\<rparr>) s)"
    by (rule announced_file) simp
  then show ?thesis
    using announced_trans announced_fold[of "recordDoc n"] announced_record
    by (simp add: updateSettings_def Let_def)
qed

lemma announced_local_file: "(\<And>f. wk_lww (g f) = wk_lww f) \<Longrightarrow> announced s (recordDoc n d (on_file g s))"
  by (rule announced_trans[OF announced_file announced_record]) simp

lemma announced_local_tombstone: "(\<And>f. wk_lww (g f) = wk_lww f) \<Longrightarrow> announced s (recordTombstone n k (on_file g s))"
  by (rule announced_trans[OF announced_file announced_tombstone]) simp

lemma announced_plain: "(\<And>f. wk_lww (g f) = wk_lww f) \<Longrightarrow> announced s (scheduleWrite (on_file g s))"
  by (rule announced_schedule, rule announced_file) simp

lemma announced_state:
  "st_file s' = st_file s \<Longrightarrow> st_deviceId s' = st_deviceId s \<Longrightarrow> st_notified s' = st_notified s \<Longrightarrow> announced s s'"
  by (rule announced_quiet) simp_all

lemmas announced_ops = announced_refl announced_record announced_tombstone announced_records announced_visit
  announced_title announced_clear announced_publish announced_close announced_remove_space announced_settings
  announced_local_file announced_local_tombstone announced_plain

lemma announced_activity: "announced s (updateSyncedDeviceActivity n a s)"
  by (simp add: updateSyncedDeviceActivity_def announced_ops split: option.split)

lemma announced_focus: "announced s (updateSyncedWorkspaceFocus n f s)"
  by (simp add: updateSyncedWorkspaceFocus_def announced_ops)

lemma announced_pin: "announced s (updatePin n i p s)"
  by (simp add: updatePin_def Let_def announced_ops split: option.split)

lemma announced_step: "own_op x \<Longrightarrow> announced s (store_step co x s)"
proof (cases x)
  case (OpReceiveHlc n d h)
  then show ?thesis by (simp add: receiveWorkspaceHlc_def announced_state)
next
  case (OpNextSyncHlc n)
  then show ?thesis by (simp add: announced_state)
next
  case OpResetHlc
  then show ?thesis by (simp add: resetWorkspaceHlc_def announced_state)
next
  case OpWriteTimer
  then show ?thesis by (simp add: write_timer_def write_store_def announced_state)
next
  case OpFlush
  then show ?thesis by (simp add: flushSync_def write_store_def announced_state)
qed (simp_all add: upsertSpace_def upsertPin_def removePin_def addArchive_def setSpaceFolder_def
    removeSpaceFolder_def openSyncedTab_def updateSyncedTabUrl_def updateSyncedTabOrder_def
    updateSyncedTabOrders_def publishCurrentWorkspaceFocus_def store_setOriginOverride_def setSignInQueue_def
    markSignedIn_def setPermissionDecision_def setActiveSpaceId_def setActiveTabFor_def setSplitTabFor_def
    setTodayTabs_def markRealtimeTabsMigrated_def addNativeTransportDomain_def setDownloads_def
    setEgressConfig_def markManualSyncInitialized_def on_device_def Let_def announced_ops announced_activity
    announced_focus announced_pin)

section \<open>No own change is lost\<close>

definition kept_safe :: "sync \<Rightarrow> bool" where
  "kept_safe y \<longleftrightarrow>
     js_wf (lww_of (sy_store y)) \<and> sv_subscribed (sy_service y) \<and> \<not> sv_applyingRemote (sy_service y) \<and>
     st_notified (sy_store y) = [] \<and> st_deviceId (sy_store y) = sv_deviceId (sy_service y) \<and>
     (\<forall>k r. \<not> isAttachmentKey k \<longrightarrow> register_at (sy_store y) k = Some r \<longrightarrow>
        deviceId (lw_hlc r) = sv_deviceId (sy_service y) \<longrightarrow>
        k \<in> set (sv_dirty (sy_service y)) \<or> was_published y k (lw_hlc r))"

lemma was_published_service: "sv_published (sy_service z) = sv_published (sy_service y) \<Longrightarrow> was_published z k h = was_published y k h"
  by (simp add: was_published_def)

lemma service_safe:
  assumes "kept_safe y" "sy_store z = sy_store y"
    and "set (sv_dirty (sy_service y)) \<subseteq> set (sv_dirty (sy_service z))"
    and "sv_published (sy_service z) = sv_published (sy_service y)"
    and "sv_subscribed (sy_service z) = sv_subscribed (sy_service y)"
    and "sv_applyingRemote (sy_service z) = sv_applyingRemote (sy_service y)"
    and "sv_deviceId (sy_service z) = sv_deviceId (sy_service y)"
  shows "kept_safe z"
proof -
  have "k \<in> set (sv_dirty (sy_service z)) \<or> was_published z k (lw_hlc r)"
    if "\<not> isAttachmentKey k" "register_at (sy_store y) k = Some r" "deviceId (lw_hlc r) = sv_deviceId (sy_service y)" for k r
  proof -
    have "k \<in> set (sv_dirty (sy_service y)) \<or> was_published y k (lw_hlc r)"
      using assms(1) that by (simp add: kept_safe_def)
    then show ?thesis using assms(3) was_published_service[OF assms(4)] by blast
  qed
  then show ?thesis using assms(1,2,5-7) by (simp add: kept_safe_def)
qed

lemma safeD:
  "kept_safe y \<Longrightarrow> \<not> isAttachmentKey k \<Longrightarrow> register_at (sy_store y) k = Some r \<Longrightarrow>
   deviceId (lw_hlc r) = sv_deviceId (sy_service y) \<Longrightarrow>
   k \<in> set (sv_dirty (sy_service y)) \<or> was_published y k (lw_hlc r)"
  by (simp add: kept_safe_def)

lemma quiet_safe:
  assumes "kept_safe y" "st_notified (g (sy_store y)) = []" "st_deviceId (g (sy_store y)) = st_deviceId (sy_store y)"
    and "js_wf (lww_of (g (sy_store y)))"
    and "\<And>k r'. \<not> isAttachmentKey k \<Longrightarrow> register_at (g (sy_store y)) k = Some r' \<Longrightarrow>
      deviceId (lw_hlc r') = sv_deviceId (sy_service y) \<Longrightarrow>
      \<exists>r. register_at (sy_store y) k = Some r \<and> lw_hlc r = lw_hlc r'"
  shows "kept_safe (on_store g y)"
proof -
  have "k \<in> set (sv_dirty (sy_service y)) \<or> was_published (on_store g y) k (lw_hlc r')"
    if "\<not> isAttachmentKey k" "register_at (g (sy_store y)) k = Some r'" "deviceId (lw_hlc r') = sv_deviceId (sy_service y)" for k r'
  proof -
    have "\<exists>r. register_at (sy_store y) k = Some r \<and> lw_hlc r = lw_hlc r'" by (rule assms(5)) (fact that)+
    then obtain r where r: "register_at (sy_store y) k = Some r" "lw_hlc r = lw_hlc r'" by blast
    have "k \<in> set (sv_dirty (sy_service y)) \<or> was_published y k (lw_hlc r)"
      using safeD[OF assms(1) that(1) r(1)] r(2) that(3) by simp
    then show ?thesis using r(2) by (simp add: was_published_def)
  qed
  then show ?thesis using assms(1-4) by (simp add: kept_safe_def)
qed

lemma settle_safe: "kept_safe y \<Longrightarrow> kept_safe (settle_status env y)"
  by (rule service_safe) simp_all

lemma announced_safe:
  assumes safe: "kept_safe y" and ann: "announced (sy_store y) (g (sy_store y))"
  shows "kept_safe (deliver env (on_store g y))"
proof -
  let ?s = "sy_store y" and ?z = "deliver env (on_store g y)"
  have wf: "js_wf (lww_of ?s)" and none: "st_notified ?s = []" using safe by (simp_all add: kept_safe_def)
  obtain calls where c: "st_notified (g ?s) = calls" "\<forall>k. fresh_in ?s (g ?s) k \<longrightarrow> k \<in> set (concat calls)"
    and wf': "js_wf (lww_of (g ?s))" and dev: "st_deviceId (g ?s) = st_deviceId ?s"
    using ann wf none by (auto simp: announced_def)
  have dirty: "set (sv_dirty (sy_service ?z)) = {k \<in> set (concat calls). \<not> isAttachmentKey k} \<union> set (sv_dirty (sy_service y))"
    using safe c(1) by (simp add: kept_safe_def)
  have store: "st_notified (sy_store ?z) = []" "st_deviceId (sy_store ?z) = st_deviceId ?s"
    using dev by (simp_all add: deliver_def Let_def fold_store)
  have "k \<in> set (sv_dirty (sy_service ?z)) \<or> was_published ?z k (lw_hlc r')"
    if k: "\<not> isAttachmentKey k" "register_at (g ?s) k = Some r'" "deviceId (lw_hlc r') = sv_deviceId (sy_service y)" for k r'
  proof (cases "fresh_in ?s (g ?s) k")
    case True
    then show ?thesis using c(2) k(1) unfolding dirty by blast
  next
    case False
    have "deviceId (lw_hlc r') = st_deviceId ?s" using k(3) safe by (simp add: kept_safe_def)
    then obtain r where r: "register_at ?s k = Some r" "lw_hlc r = lw_hlc r'"
      using False k(1,2) by (auto simp: fresh_in_def)
    then have "k \<in> set (sv_dirty (sy_service y)) \<or> was_published y k (lw_hlc r')"
      using safe k by (auto simp: kept_safe_def)
    then show ?thesis unfolding dirty by (auto simp: was_published_def)
  qed
  then show ?thesis using safe wf' store by (simp add: kept_safe_def)
qed

lemma flush_store_frame [simp]:
  "st_notified (sy_store (flush env fi y)) = st_notified (sy_store y)"
  "st_deviceId (sy_store (flush env fi y)) = st_deviceId (sy_store y)"
  by (simp_all add: flush_def Let_def case_prod_unfold)

lemma flush_fields [simp]:
  "sv_subscribed (sy_service (flush env fi y)) = sv_subscribed (sy_service y)"
  "sv_applyingRemote (sy_service (flush env fi y)) = sv_applyingRemote (sy_service y)"
  "sv_deviceId (sy_service (flush env fi y)) = sv_deviceId (sy_service y)"
  by (simp_all add: flush_def Let_def case_prod_unfold schedulePublish_def)

lemma flush_rejects_dirty:
  "flush_rejects env fi y \<Longrightarrow> sv_dirty (sy_service (flush env fi y)) = sv_dirty (sy_service y)"
  by (simp add: flush_def Let_def case_prod_unfold)

lemma flush_safe:
  assumes safe: "kept_safe y"
  shows "kept_safe (flush env fi y)"
proof -
  have "k \<in> set (sv_dirty (sy_service (flush env fi y))) \<or> was_published (flush env fi y) k (lw_hlc r)"
    if k: "\<not> isAttachmentKey k" "register_at (sy_store y) k = Some r" "deviceId (lw_hlc r) = sv_deviceId (sy_service y)" for k r
  proof -
    have "k \<in> set (sv_dirty (sy_service y)) \<or> was_published y k (lw_hlc r)" using safe k by (simp add: kept_safe_def)
    then show ?thesis
      using flush_publishes[of env fi y k r] flush_keeps_published[of y k "lw_hlc r" env fi] k(2)
        flush_rejects_dirty[of env fi y] by (cases "flush_rejects env fi y") auto
  qed
  then show ?thesis using safe by (simp add: kept_safe_def)
qed

lemma replace_safe: "kept_safe y \<Longrightarrow> kept_safe (on_store (replaceAttachmentRegisters regs) y)"
proof (rule quiet_safe)
  assume safe: "kept_safe y"
  let ?s = "sy_store y"
  show "st_notified (replaceAttachmentRegisters regs ?s) = []"
    "st_deviceId (replaceAttachmentRegisters regs ?s) = st_deviceId ?s"
    using safe by (simp_all add: replaceAttachmentRegisters_def kept_safe_def)
  show "js_wf (lww_of (replaceAttachmentRegisters regs ?s))"
    using safe by (intro replaced_wf) (simp add: kept_safe_def)
  fix k r' assume k: "\<not> isAttachmentKey k" and r: "register_at (replaceAttachmentRegisters regs ?s) k = Some r'"
  have "js_get (fold (\<lambda>(k, r) m. js_set m k r) (attachmentRegisters regs) m) k = js_get m k" for m :: registers
    using k unfolding attachmentRegisters_def by (induction regs arbitrary: m) auto
  then have "register_at (replaceAttachmentRegisters regs ?s) k = register_at ?s k"
    using k by (simp add: replaceAttachmentRegisters_def put_all_lww js_get_filter_all flip: attachmentRegisters_def)
  then have "register_at ?s k = Some r'" using r by simp
  then show "\<exists>r. register_at ?s k = Some r \<and> lw_hlc r = lw_hlc r'" by blast
qed

lemma commit_safe:
  assumes safe: "kept_safe y"
  shows "kept_safe (snd (synchronize_commit env n fi ok pl y))"
proof -
  define y1 where "y1 = on_store (replaceAttachmentRegisters (pl_target pl)) y"
  define y2 where "y2 = (if pl_source pl = None \<and> pl_mode pl \<noteq> Pull
      then on_service (\<lambda>v. v\<lparr>sv_remoteAttachment := attachmentRegisters (pl_target pl)\<rparr>) y1 else y1)"
  define yp where "yp = on_service (fold mark_dirty (pl_keys pl))
      (deliver env (on_store (publishAttachmentRegisters n (pl_keys pl)) y2))"
  define y3 where "y3 = (if needs_fence pl then flush env fi yp else y2)"
  have s1: "kept_safe y1" unfolding y1_def by (rule replace_safe[OF safe])
  have s2: "kept_safe y2" by (rule service_safe[OF s1]) (simp_all add: y2_def)
  have sd: "kept_safe (deliver env (on_store (publishAttachmentRegisters n (pl_keys pl)) y2))"
    by (rule announced_safe[OF s2, where g = "publishAttachmentRegisters n (pl_keys pl)"]) (rule announced_publish)
  have sp: "kept_safe yp" unfolding yp_def by (rule service_safe[OF sd]) auto
  have s3: "kept_safe y3" using s2 flush_safe[OF sp] by (simp add: y3_def)
  have s4: "kept_safe (settle_status env (on_service (\<lambda>v. (schedulePublish (v\<lparr>sv_deviceSnapshotDirty := True\<rparr>))
      \<lparr>sv_localChanged := False, sv_remoteChanged := False\<rparr>) y3))"
    by (rule settle_safe, rule service_safe[OF s3]) (simp_all add: schedulePublish_def)
  have eq: "snd (synchronize_commit env n fi ok pl y) =
      (if needs_fence pl \<and> \<not> ok then y
       else if needs_fence pl \<and> flush_rejects env fi yp then y3
       else settle_status env (on_service (\<lambda>v. (schedulePublish (v\<lparr>sv_deviceSnapshotDirty := True\<rparr>))
      \<lparr>sv_localChanged := False, sv_remoteChanged := False\<rparr>) y3))"
    by (simp add: synchronize_commit_def Let_def y3_def yp_def y2_def y1_def)
  show ?thesis unfolding eq using safe s3 s4 by simp
qed

lemma bootstrap_safe: "kept_safe y \<Longrightarrow> kept_safe (snd (bootstrapCanonical env n fi ok y))"
proof -
  assume safe: "kept_safe y"
  let ?keys = "js_keys (attachments y)"
  let ?y1 = "deliver env (on_store (publishAttachmentRegisters n ?keys) y)"
  have s1: "kept_safe ?y1"
    by (rule announced_safe[OF safe, where g = "publishAttachmentRegisters n ?keys"]) (rule announced_publish)
  have "kept_safe (on_service (\<lambda>v. fold mark_dirty ?keys (v\<lparr>sv_remoteAttachment := attachmentRegisters (lww_of (sy_store ?y1)),
      sv_canonicalRecordsSeen := True\<rparr>)) ?y1)"
    by (rule service_safe[OF s1]) auto
  then show ?thesis using safe flush_safe by (simp add: bootstrapCanonical_def Let_def)
qed

lemma dirty_globals_fields [simp]:
  "set (sv_dirty (dirty_globals regs v)) = {k \<in> set (js_keys regs). \<not> isAttachmentKey k} \<union> set (sv_dirty v)"
  "sv_published (dirty_globals regs v) = sv_published v" "sv_subscribed (dirty_globals regs v) = sv_subscribed v"
  "sv_applyingRemote (dirty_globals regs v) = sv_applyingRemote v" "sv_deviceId (dirty_globals regs v) = sv_deviceId v"
  by (auto simp: dirty_globals_def)

lemma hydrated_safe: "kept_safe y \<Longrightarrow> kept_safe (handleHydrated env n fi ok y)"
proof -
  assume safe: "kept_safe y"
  define y1 where "y1 = on_service (\<lambda>v. v\<lparr>sv_remoteReady := True\<rparr>) y"
  define y2 where "y2 = (case (sv_shouldInheritFirstSnapshot (sy_service y1), initialRemoteSnapshot (sy_service y1)) of
      (True, Some regs) \<Rightarrow> on_service (\<lambda>v. v\<lparr>sv_localChanged := False, sv_remoteChanged := False\<rparr>)
        (on_store (replaceAttachmentRegisters regs) y1)
    | _ \<Rightarrow> y1)"
  define bt where "bt = (if sv_shouldInheritFirstSnapshot (sy_service y1) \<and> \<not> sv_canonicalRecordsSeen (sy_service y1)
      then bootstrapCanonical env n fi ok y2 else (False, y2))"
  have s1: "kept_safe y1" by (rule service_safe[OF safe]) (simp_all add: y1_def)
  have "kept_safe (on_service (\<lambda>v. v\<lparr>sv_localChanged := False, sv_remoteChanged := False\<rparr>)
      (on_store (replaceAttachmentRegisters regs) y1))" for regs
    by (rule service_safe[OF replace_safe[OF s1]]) simp_all
  then have s2: "kept_safe y2" using s1 by (simp add: y2_def split: bool.split option.split)
  have s3: "kept_safe (snd bt)" using s2 bootstrap_safe by (simp add: bt_def)
  let ?y4 = "on_store (markManualSyncInitialized (Some (sv_accountId (sy_service y1)))) (snd bt)"
  have mark: "st_notified (markManualSyncInitialized a s) = st_notified s"
    "st_deviceId (markManualSyncInitialized a s) = st_deviceId s" "lww_of (markManualSyncInitialized a s) = lww_of s" for a s
    by (simp_all add: markManualSyncInitialized_def on_device_def)
  have s4: "kept_safe ?y4" by (rule quiet_safe[OF s3]) (use s3 in \<open>simp_all add: mark kept_safe_def\<close>)
  have s5: "kept_safe (settle_status env (on_service (\<lambda>v. schedulePublish (dirty_globals (lww_of (sy_store (snd bt)))
      (v\<lparr>sv_shouldInheritFirstSnapshot := False, sv_deviceSnapshotDirty := True\<rparr>))) ?y4))"
    by (rule settle_safe, rule service_safe[OF s4]) auto
  have "handleHydrated env n fi ok y = (if fst bt then snd bt else settle_status env
      (on_service (\<lambda>v. schedulePublish (dirty_globals (lww_of (sy_store (snd bt)))
      (v\<lparr>sv_shouldInheritFirstSnapshot := False, sv_deviceSnapshotDirty := True\<rparr>))) ?y4))"
    by (simp only: handleHydrated_def Let_def case_prod_unfold bt_def y2_def y1_def)
  then show ?thesis using s3 s5 by simp
qed

lemma rekey_safe: "kept_safe y \<Longrightarrow> kept_safe (rekey keys a y)"
  by (erule service_safe) (auto simp: rekey_def Let_def)

text \<open>Remote documents: none of those applied is stamped by this device.\<close>

lemma receive_safe: "kept_safe y \<Longrightarrow> kept_safe (on_store (receiveWorkspaceHlc n d h) y)"
  by (rule quiet_safe) (simp_all add: receiveWorkspaceHlc_def kept_safe_def)

definition foreign :: "string \<Rightarrow> IncomingWorkspaceDoc list \<Rightarrow> bool" where
  "foreign own ds \<longleftrightarrow> list_all (\<lambda>d. deviceId (in_hlc d) \<noteq> own) ds"

lemma sort_wire_safe:
  assumes safe: "kept_safe y" and own: "foreign (sv_deviceId (sy_service y)) (sg_incoming g)"
    and out: "sort_wire env n w g y = (e, g', y')"
  shows "kept_safe y' \<and> foreign (sv_deviceId (sy_service y')) (sg_incoming g') \<and>
    sv_deviceId (sy_service y') = sv_deviceId (sy_service y)"
proof -
  let ?y = "on_store (receiveWorkspaceHlc n (sv_deviceId (sy_service y)) (ws_hlc w)) y"
  have r: "kept_safe ?y" by (rule receive_safe[OF safe])
  have snap: "kept_safe (on_service (\<lambda>v. v\<lparr>sv_deviceSnapshots := m v\<rparr>) ?y)" for m
    by (rule service_safe[OF r]) simp_all
  have seen: "kept_safe (on_service (\<lambda>v. v\<lparr>sv_canonicalRecordsSeen := True\<rparr>) ?y)"
    by (rule service_safe[OF r]) simp_all
  have cases: "(y' = ?y \<or> (\<exists>m. y' = on_service (\<lambda>v. v\<lparr>sv_deviceSnapshots := m v\<rparr>) ?y) \<or>
      y' = on_service (\<lambda>v. v\<lparr>sv_canonicalRecordsSeen := True\<rparr>) ?y) \<and>
      (sg_incoming g' = sg_incoming g \<or>
       (\<exists>d. sg_incoming g' = sg_incoming g @ [d] \<and> deviceId (in_hlc d) \<noteq> sv_deviceId (sy_service y)))"
    using out unfolding sort_wire_def Let_def
    by (auto split: option.splits if_splits sum.splits)
  have dev: "sv_deviceId (sy_service y') = sv_deviceId (sy_service y)" using cases by auto
  have "kept_safe y'" using cases r snap seen by blast
  moreover have "foreign (sv_deviceId (sy_service y)) (sg_incoming g')"
    using cases own by (auto simp: foreign_def)
  ultimately show ?thesis using dev by simp
qed

lemma sort_wires_safe:
  assumes "kept_safe y" "foreign (sv_deviceId (sy_service y)) (sg_incoming g)"
    and "sort_wires env n ws g y = (e, g', y')"
  shows "kept_safe y' \<and> foreign (sv_deviceId (sy_service y')) (sg_incoming g')"
  using assms
proof (induction ws arbitrary: g y)
  case (Cons w ws)
  obtain e1 g1 y1 where o: "sort_wire env n w g y = (e1, g1, y1)" using prod_cases3 by blast
  have one: "kept_safe y1 \<and> foreign (sv_deviceId (sy_service y1)) (sg_incoming g1)"
    using sort_wire_safe[OF Cons.prems(1,2) o] by blast
  show ?case
  proof (cases e1)
    case None
    then show ?thesis using Cons.IH[of y1 g1] Cons.prems(3) one o by simp
  next
    case (Some x)
    then show ?thesis using Cons.prems(3) one o by simp
  qed
qed simp

lemma apply_remote_quiet:
  assumes wf: "js_wf (lww_of s)" and k: "register_at (applyRemoteDoc n q v h s) k = Some r'"
  shows "(k = q \<and> lw_hlc r' = h) \<or> register_at s k = Some r'"
proof -
  let ?f = "case v of None \<Rightarrow> drop_by_key q (st_file s) | Some d \<Rightarrow> materialize n d (st_file s)"
  have "js_get (wk_lww ?f) k = Some r' \<Longrightarrow> register_at s k = Some r'"
  proof (cases v)
    case (Some d)
    then show "js_get (wk_lww ?f) k = Some r' \<Longrightarrow> register_at s k = Some r'"
      using wf by (cases d) (auto simp: pruneHistory_def Let_def js_get_filter split: option.splits if_splits)
  qed simp
  then show ?thesis using k by (auto simp: applyRemoteDoc_def split: if_splits)
qed

lemma apply_remote_frame [simp]:
  "st_notified (applyRemoteDoc n q v h s) = st_notified s" "st_deviceId (applyRemoteDoc n q v h s) = st_deviceId s"
  by (simp_all add: applyRemoteDoc_def)

lemma apply_remote_wf: "js_wf (lww_of s) \<Longrightarrow> js_wf (lww_of (applyRemoteDoc n q v h s))"
proof (cases v)
  case (Some d)
  assume "js_wf (lww_of s)"
  then have "js_wf (wk_lww (materialize n d (st_file s)))"
    by (cases d) (simp_all add: pruneHistory_def Let_def js_wf_filter)
  then show ?thesis using Some by (simp add: applyRemoteDoc_def js_wf_set)
qed (simp add: applyRemoteDoc_def js_wf_set)

lemma apply_list_safe:
  assumes "kept_safe y" "foreign (sv_deviceId (sy_service y)) ds"
  shows "kept_safe (on_store (fold (\<lambda>d. applyRemoteDoc n (in_key d) (in_value d) (in_hlc d)) ds) y)"
  using assms
proof (induction ds arbitrary: y)
  case Nil
  then show ?case by (simp add: on_store_def)
next
  case (Cons d ds)
  let ?y = "on_store (applyRemoteDoc n (in_key d) (in_value d) (in_hlc d)) y"
  have wf: "js_wf (lww_of (sy_store y))" using Cons.prems(1) by (simp add: kept_safe_def)
  have "kept_safe ?y"
  proof (rule quiet_safe[OF Cons.prems(1)])
    show "st_notified (applyRemoteDoc n (in_key d) (in_value d) (in_hlc d) (sy_store y)) = []"
      using Cons.prems(1) by (simp add: kept_safe_def)
    show "js_wf (lww_of (applyRemoteDoc n (in_key d) (in_value d) (in_hlc d) (sy_store y)))"
      by (rule apply_remote_wf[OF wf])
    fix k r' assume "register_at (applyRemoteDoc n (in_key d) (in_value d) (in_hlc d) (sy_store y)) k = Some r'"
      and own: "deviceId (lw_hlc r') = sv_deviceId (sy_service y)"
    then have "(k = in_key d \<and> lw_hlc r' = in_hlc d) \<or> register_at (sy_store y) k = Some r'"
      using apply_remote_quiet[OF wf] by blast
    then show "\<exists>r. register_at (sy_store y) k = Some r \<and> lw_hlc r = lw_hlc r'"
      using own Cons.prems(2) by (auto simp: foreign_def)
  qed simp
  moreover have "foreign (sv_deviceId (sy_service ?y)) ds" using Cons.prems(2) by (simp add: foreign_def)
  ultimately have "kept_safe (on_store (fold (\<lambda>d. applyRemoteDoc n (in_key d) (in_value d) (in_hlc d)) ds) ?y)"
    by (rule Cons.IH)
  then show ?case by (simp add: on_store_def)
qed

lemma apply_incoming_safe:
  "kept_safe y \<Longrightarrow> foreign (sv_deviceId (sy_service y)) ds \<Longrightarrow> kept_safe (on_store (apply_incoming n ds) y)"
proof -
  assume safe: "kept_safe y" and own: "foreign (sv_deviceId (sy_service y)) ds"
  have "foreign (sv_deviceId (sy_service y)) (decided (lww_of (sy_store y)) ds)"
    using own by (auto simp: foreign_def list_all_iff decided_mem)
  from apply_list_safe[OF safe this, of n] show ?thesis
    by (simp add: on_store_def apply_incoming_def Let_def decided_def)
qed

lemma remote_safe:
  assumes safe: "kept_safe y"
  shows "kept_safe (snd (handleRemoteDocs env n docs y))"
proof -
  obtain e g z where o: "sort_wires env n docs \<lparr>sg_incoming = [], sg_attachment = [], sg_snapshotChanged = False\<rparr> y = (e, g, z)"
    using prod_cases3 by blast
  have z: "kept_safe z" "foreign (sv_deviceId (sy_service z)) (sg_incoming g)"
    using sort_wires_safe[OF safe _ o] by (simp_all add: foreign_def)
  show ?thesis
  proof (cases e)
    case None
    define y1 where "y1 = (if sg_snapshotChanged g then settle_status env z else z)"
    define after where "after = merge_remote (sv_remoteAttachment (sy_service y1)) (sg_attachment g)"
    define y2 where "y2 = (if sg_attachment g = [] then y1
        else on_service (\<lambda>v. v\<lparr>sv_remoteAttachment := after\<rparr>) y1)"
    define y3 where "y3 = (if sg_attachment g \<noteq> [] \<and>
          \<not> attachmentContentEqual env (sv_remoteAttachment (sy_service y1)) after
        then settle_status env (on_service (\<lambda>v. v\<lparr>sv_remoteChanged :=
            (\<not> attachmentContentEqual env (attachmentRegisters (lww_of (sy_store y2))) after)\<rparr>) y2)
        else y2)"
    have s1: "kept_safe y1" "sv_deviceId (sy_service y1) = sv_deviceId (sy_service z)"
      using z settle_safe by (simp_all add: y1_def)
    have s2: "kept_safe y2" by (rule service_safe[OF s1(1)]) (simp_all add: y2_def)
    have "kept_safe (settle_status env (on_service (\<lambda>v. v\<lparr>sv_remoteChanged := b\<rparr>) y2))" for b
      by (rule settle_safe, rule service_safe[OF s2]) simp_all
    then have s3: "kept_safe y3" using s2 by (simp add: y3_def)
    have d3: "sv_deviceId (sy_service y3) = sv_deviceId (sy_service z)"
      using s1(2) by (simp add: y3_def y2_def)
    have s4: "kept_safe (on_store (apply_incoming n (sg_incoming g)) y3)"
      using apply_incoming_safe[OF s3] z(2) d3 by simp
    have "snd (handleRemoteDocs env n docs y) =
        (if md_apply (decideMerge (lww_of (sy_store y3)) (sg_incoming g)) \<noteq> []
         then settle_status env (on_store (apply_incoming n (sg_incoming g)) y3)
         else on_store (apply_incoming n (sg_incoming g)) y3)"
      unfolding handleRemoteDocs_def o None prod.case option.case Let_def
      by (simp only: y3_def y2_def after_def y1_def snd_conv)
    then show ?thesis using s4 settle_safe[OF s4, of env] by simp
  qed (use z o in \<open>simp add: handleRemoteDocs_def\<close>)
qed

lemma step_safe: "sync_own x \<Longrightarrow> kept_safe y \<Longrightarrow> kept_safe (sync_step env y x)"
proof (cases x)
  case (SyncLocal op)
  then show "sync_own x \<Longrightarrow> kept_safe y \<Longrightarrow> ?thesis"
    using announced_safe[where g = "store_step (we_collate env) op"] announced_step by simp
next
  case (SyncTimer fi)
  assume safe: "kept_safe y"
  have "kept_safe (on_service (\<lambda>v. v\<lparr>sv_publishTimer := False\<rparr>) y)" by (rule service_safe[OF safe]) simp_all
  then show ?thesis using SyncTimer safe flush_safe by (simp add: publish_timer_def)
qed (simp_all add: remote_safe hydrated_safe commit_safe rekey_safe)

interpretation sync_run: kept_invariant "\<lambda>y x. if sync_own x then sync_step env y x else y" kept_safe for env
  by unfold_locales (simp add: step_safe)


definition folder_run :: "sync_op list" where
  "folder_run = [SyncLocal (OpSetFolder 50 ''p'' ''Personal'')]"


end
