(* ===== verification/WebAuthn.thy ===== *)
theory WebAuthn
  imports DeviceToken
begin

text \<open>
  Passkeys (services/control/src/webauthn.ts): one-time challenges, the decoder of the CBOR subset
  that authenticators send, authenticator data and COSE keys, signatures in DER, and the two
  ceremonies.  WebCrypto, SHA-256, \<open>TextDecoder\<close> and \<open>JSON.parse\<close> are parameters.  The decoder
  calls itself once per item, so it is a partial function whose value \<open>None\<close> stands for a call that
  does not return; that it always returns is proved.
\<close>

section \<open>Parameters and exceptions\<close>

record 'k webauthn_env =
  wn_text :: "byte list \<Rightarrow> string"
  wn_parse :: "byte list \<Rightarrow> json js_result"
  wn_sha256 :: "byte list \<Rightarrow> byte list"
  wn_importP256 :: "byte list \<Rightarrow> 'k js_result"
  wn_importEd25519 :: "byte list \<Rightarrow> 'k js_result"
  wn_verifyP256 :: "'k \<Rightarrow> byte list \<Rightarrow> byte list \<Rightarrow> bool js_result"
  wn_verifyEd25519 :: "'k \<Rightarrow> byte list \<Rightarrow> byte list \<Rightarrow> bool js_result"

definition and_then :: "'a js_result \<Rightarrow> ('a \<Rightarrow> 'b js_result) \<Rightarrow> 'b js_result" where
  "and_then r f = (case r of Inl e \<Rightarrow> Inl e | Inr v \<Rightarrow> f v)"

lemma and_then_simps [simp]: "and_then (Inl e) f = Inl e" "and_then (Inr v) f = f v"
  by (simp_all add: and_then_def)

lemma and_then_Inr: "and_then r f = Inr y \<longleftrightarrow> (\<exists>x. r = Inr x \<and> f x = Inr y)"
  by (cases r) simp_all

section \<open>Relying party and challenges\<close>

record RpConfig =
  rp_id :: string
  rp_origin :: string
  rp_name :: string

definition rpConfigFromEnv :: "(string \<Rightarrow> string option) \<Rightarrow> RpConfig" where
  "rpConfigFromEnv env =
     \<lparr>rp_id = (case env ''RP_ID'' of None \<Rightarrow> ''localhost'' | Some i \<Rightarrow> i),
      rp_origin = (case env ''RP_ORIGIN'' of None \<Rightarrow> ''http://localhost'' | Some u \<Rightarrow> u),
      rp_name = ''Suma''\<rparr>"

definition CHALLENGE_TTL_MS :: nat where "CHALLENGE_TTL_MS = 300000"

definition toBase64Url :: "byte list \<Rightarrow> string" where
  "toBase64Url bytes =
     drop_trailing (CHR ''='') (swap_chars [(CHR ''+'', CHR ''-''), (CHR ''/'', CHR ''_'')] (toBase64 bytes))"

definition fromBase64Url :: "string \<Rightarrow> byte list js_result" where
  "fromBase64Url s =
     (let pad = (if length s mod 4 = 0 then '''' else replicate (4 - length s mod 4) (CHR ''=''))
      in fromBase64 (swap_chars [(CHR ''-'', CHR ''+''), (CHR ''_'', CHR ''/'')] s @ pad))"

text \<open>The 32 random bytes of a new challenge are an argument.\<close>

record challenge_entry =
  ce_challenge :: string
  ce_expiresAt :: nat

type_synonym ChallengeStore = "(string, challenge_entry) js_map"

definition sweep :: "nat \<Rightarrow> ChallengeStore \<Rightarrow> ChallengeStore" where
  "sweep nowMs m = filter (\<lambda>(k, e). \<not> ce_expiresAt e < nowMs) m"

definition challenge_issue ::
  "byte list \<Rightarrow> string \<Rightarrow> nat \<Rightarrow> ChallengeStore \<Rightarrow> string \<times> ChallengeStore" where
  "challenge_issue random key nowMs m =
     (let challenge = toBase64Url random
      in (challenge,
          js_set (sweep nowMs m) key \<lparr>ce_challenge = challenge, ce_expiresAt = nowMs + CHALLENGE_TTL_MS\<rparr>))"

definition challenge_take ::
  "string \<Rightarrow> nat \<Rightarrow> ChallengeStore \<Rightarrow> string option \<times> ChallengeStore" where
  "challenge_take key nowMs m =
     ((case js_get m key of
         None \<Rightarrow> None
       | Some e \<Rightarrow> if ce_expiresAt e < nowMs then None else Some (ce_challenge e)),
      js_del m key)"

section \<open>CBOR\<close>

datatype cbor_key = KInt int | KText string

datatype CborValue = CInt int | CText string | CBytes "byte list" | CArr "CborValue list"
  | CMap "(cbor_key \<times> CborValue) list"

definition cbor_next :: "byte list \<Rightarrow> nat \<Rightarrow> (nat \<times> nat) js_result" where
  "cbor_next bytes off =
     (if off < length bytes then Inr (unat (bytes ! off), off + 1) else Inl (JsError ''truncated CBOR''))"

definition cbor_take :: "byte list \<Rightarrow> nat \<Rightarrow> nat \<Rightarrow> (byte list \<times> nat) js_result" where
  "cbor_take bytes off n =
     (if off + n > length bytes then Inl (JsError ''truncated CBOR'')
      else Inr (take n (drop off bytes), off + n))"

definition cbor_length :: "byte list \<Rightarrow> nat \<Rightarrow> nat \<Rightarrow> (nat \<times> nat) js_result" where
  "cbor_length bytes off info =
     (if info < 24 then Inr (info, off)
      else if info = 24 then cbor_next bytes off
      else if info = 25 then
        and_then (cbor_next bytes off) (\<lambda>(a, o1).
        and_then (cbor_next bytes o1) (\<lambda>(b, o2). Inr (a * 256 + b, o2)))
      else if info = 26 then
        and_then (cbor_next bytes off) (\<lambda>(a, o1).
        and_then (cbor_next bytes o1) (\<lambda>(b, o2).
        and_then (cbor_next bytes o2) (\<lambda>(c, o3).
        and_then (cbor_next bytes o3) (\<lambda>(d, o4).
          Inr (a * 16777216 + (b * 65536 + c * 256 + d), o4)))))
      else Inl (JsError ''unsupported CBOR length encoding''))"

text \<open>
  The loops over the items of an array and the entries of a map, over the reader of one item.  A
  reader that does not return leaves the loop without result.
\<close>

type_synonym cbor_reader = "nat \<Rightarrow> (CborValue \<times> nat) js_result option"

fun cbor_items :: "cbor_reader \<Rightarrow> nat \<Rightarrow> nat \<Rightarrow> CborValue list \<Rightarrow> (CborValue list \<times> nat) js_result option" where
  "cbor_items rd 0 off out = Some (Inr (out, off))"
| "cbor_items rd (Suc n) off out =
     Option.bind (rd off) (\<lambda>r.
       case r of Inl e \<Rightarrow> Some (Inl e) | Inr (v, off') \<Rightarrow> cbor_items rd n off' (out @ [v]))"

fun cbor_map_key :: "CborValue \<Rightarrow> cbor_key option" where
  "cbor_map_key (CInt n) = Some (KInt n)"
| "cbor_map_key (CText s) = Some (KText s)"
| "cbor_map_key _ = None"

fun cbor_entries ::
  "cbor_reader \<Rightarrow> nat \<Rightarrow> nat \<Rightarrow> (cbor_key, CborValue) js_map \<Rightarrow> ((cbor_key, CborValue) js_map \<times> nat) js_result option"
where
  "cbor_entries rd 0 off m = Some (Inr (m, off))"
| "cbor_entries rd (Suc n) off m =
     Option.bind (rd off) (\<lambda>r.
       case r of
         Inl e \<Rightarrow> Some (Inl e)
       | Inr (k, o1) \<Rightarrow>
           (case cbor_map_key k of
              None \<Rightarrow> Some (Inl (JsError ''unsupported CBOR map key''))
            | Some key \<Rightarrow>
                Option.bind (rd o1) (\<lambda>r2.
                  case r2 of
                    Inl e \<Rightarrow> Some (Inl e)
                  | Inr (v, o2) \<Rightarrow> cbor_entries rd n o2 (js_set m key v))))"

lemma cbor_items_mono [partial_function_mono]:
  assumes "\<And>o1. mono_option (\<lambda>f. rd f o1)"
  shows "mono_option (\<lambda>f. cbor_items (rd f) n off out)"
proof (induction n arbitrary: off out)
  case 0
  show ?case by (simp add: partial_function_mono)
next
  case (Suc n)
  have "mono_option (\<lambda>f. case r of Inl e \<Rightarrow> Some (Inl e) | Inr (v, off') \<Rightarrow> cbor_items (rd f) n off' (out @ [v]))"
    for r :: "(CborValue \<times> nat) js_result"
    by (cases r) (auto simp: partial_function_mono intro: Suc.IH split: prod.splits)
  then show ?case using assms by (simp add: bind_mono)
qed

lemma cbor_entries_mono [partial_function_mono]:
  assumes "\<And>o1. mono_option (\<lambda>f. rd f o1)"
  shows "mono_option (\<lambda>f. cbor_entries (rd f) n off m)"
proof (induction n arbitrary: off m)
  case 0
  show ?case by (simp add: partial_function_mono)
next
  case (Suc n)
  have inner: "mono_option (\<lambda>f. case r of Inl e \<Rightarrow> Some (Inl e) | Inr (v, o2) \<Rightarrow> cbor_entries (rd f) n o2 (js_set m key v))"
    for r :: "(CborValue \<times> nat) js_result" and key
    by (cases r) (auto simp: partial_function_mono intro: Suc.IH split: prod.splits)
  have "mono_option (\<lambda>f.
      case r of Inl e \<Rightarrow> Some (Inl e)
      | Inr (k, o1) \<Rightarrow>
          (case cbor_map_key k of None \<Rightarrow> Some (Inl (JsError ''unsupported CBOR map key''))
           | Some key \<Rightarrow> Option.bind (rd f o1) (\<lambda>r2.
               case r2 of Inl e \<Rightarrow> Some (Inl e) | Inr (v, o2) \<Rightarrow> cbor_entries (rd f) n o2 (js_set m key v))))"
    for r :: "(CborValue \<times> nat) js_result"
  proof (cases r)
    case (Inr p)
    show ?thesis
      by (cases "cbor_map_key (fst p)")
        (simp_all add: Inr case_prod_unfold partial_function_mono bind_mono inner[unfolded case_prod_unfold] assms)
  qed (simp add: partial_function_mono)
  then show ?case using assms by (simp add: bind_mono)
qed

partial_function (option) cbor_read :: "(byte list \<Rightarrow> string) \<Rightarrow> byte list \<Rightarrow> cbor_reader" where
  "cbor_read txt bytes off =
     (case cbor_next bytes off of
        Inl e \<Rightarrow> Some (Inl e)
      | Inr (initial, o1) \<Rightarrow>
          if initial div 32 > 5 then Some (Inl (JsError ''unsupported CBOR major type''))
          else
            (case cbor_length bytes o1 (initial mod 32) of
               Inl e \<Rightarrow> Some (Inl e)
             | Inr (n, o2) \<Rightarrow>
                 if initial div 32 = 0 then Some (Inr (CInt (int n), o2))
                 else if initial div 32 = 1 then Some (Inr (CInt (- 1 - int n), o2))
                 else if initial div 32 = 2 then
                   Some (and_then (cbor_take bytes o2 n) (\<lambda>(b, o3). Inr (CBytes b, o3)))
                 else if initial div 32 = 3 then
                   Some (and_then (cbor_take bytes o2 n) (\<lambda>(b, o3). Inr (CText (txt b), o3)))
                 else if initial div 32 = 4 then
                   Option.bind (cbor_items (\<lambda>i. cbor_read txt bytes i) n o2 []) (\<lambda>r.
                     Some (and_then r (\<lambda>(vs, o3). Inr (CArr vs, o3))))
                 else
                   Option.bind (cbor_entries (\<lambda>i. cbor_read txt bytes i) n o2 []) (\<lambda>r.
                     Some (and_then r (\<lambda>(m, o3). Inr (CMap m, o3))))))"

text \<open>A fresh reader over a whole buffer; \<open>Inl\<close> for every exception.\<close>

definition cbor_decode :: "(byte list \<Rightarrow> string) \<Rightarrow> byte list \<Rightarrow> CborValue js_result option" where
  "cbor_decode txt bytes = map_option (\<lambda>r. and_then r (\<lambda>(v, off). Inr v)) (cbor_read txt bytes 0)"

subsection \<open>The reader returns\<close>

fun cbor_size :: "CborValue \<Rightarrow> nat" where
  "cbor_size (CArr vs) = 1 + sum_list (map cbor_size vs)"
| "cbor_size (CMap m) = 1 + sum_list (map (\<lambda>(k, v). 1 + cbor_size v) m)"
| "cbor_size _ = 1"

text \<open>What a call from \<open>off\<close> gives: an exception, or a value no larger than the bytes it took.\<close>

definition returns_within :: "byte list \<Rightarrow> nat \<Rightarrow> nat \<Rightarrow> ('a \<Rightarrow> nat) \<Rightarrow> ('a \<times> nat) js_result option \<Rightarrow> bool" where
  "returns_within bytes least off sz r \<longleftrightarrow>
     (case r of
        None \<Rightarrow> False
      | Some (Inl e) \<Rightarrow> True
      | Some (Inr (v, off')) \<Rightarrow> off + sz v \<le> off' \<and> off + least \<le> off' \<and> off' \<le> length bytes)"

lemma cbor_next_spec: "cbor_next bytes off = Inr (b, o1) \<Longrightarrow> o1 = off + 1 \<and> off < length bytes \<and> b < 256"
  by (auto simp: cbor_next_def split: if_splits)

lemma cbor_length_spec: "cbor_length bytes off info = Inr (n, o1) \<Longrightarrow> off \<le> length bytes \<Longrightarrow> off \<le> o1 \<and> o1 \<le> length bytes"
  by (auto simp: cbor_length_def and_then_Inr split: if_splits prod.splits dest!: cbor_next_spec)

lemma cbor_take_spec: "cbor_take bytes off n = Inr (b, o1) \<Longrightarrow> o1 = off + n \<and> o1 \<le> length bytes \<and> b = take n (drop off bytes)"
  by (auto simp: cbor_take_def split: if_splits)

abbreviation msize :: "(cbor_key \<times> CborValue) list \<Rightarrow> nat" where
  "msize m \<equiv> sum_list (map (\<lambda>(k, v). 1 + cbor_size v) m)"

lemma msize_set: "msize (js_set m k v) \<le> msize m + (1 + cbor_size v)"
  by (induction m) auto

lemma returns_within_item:
  assumes "returns_within bytes 1 off cbor_size r"
  obtains e where "r = Some (Inl e)"
    | v o1 where "r = Some (Inr (v, o1))" "off + cbor_size v \<le> o1" "off < o1" "o1 \<le> length bytes"
  using assms by (auto simp: returns_within_def split: option.splits sum.splits)

lemma cbor_items_returns:
  assumes "\<And>o1. off \<le> o1 \<Longrightarrow> returns_within bytes 1 o1 cbor_size (rd o1)" "off \<le> length bytes"
  shows "\<exists>r. cbor_items rd n off out = Some r \<and>
    (\<forall>vs o2. r = Inr (vs, o2) \<longrightarrow> off + sum_list (map cbor_size vs) \<le> o2 + sum_list (map cbor_size out) \<and>
       off \<le> o2 \<and> o2 \<le> length bytes)"
  using assms
proof (induction n arbitrary: off out)
  case (Suc n)
  from Suc.prems(1)[OF order_refl] show ?case
  proof (cases rule: returns_within_item)
    case (2 v o1)
    have rd: "\<And>i. o1 \<le> i \<Longrightarrow> returns_within bytes 1 i cbor_size (rd i)" using Suc.prems(1) 2(3) by simp
    obtain r where "cbor_items rd n o1 (out @ [v]) = Some r"
      "\<forall>vs o2. r = Inr (vs, o2) \<longrightarrow> o1 + sum_list (map cbor_size vs) \<le> o2 + sum_list (map cbor_size (out @ [v])) \<and>
         o1 \<le> o2 \<and> o2 \<le> length bytes"
      using Suc.IH[of o1 "out @ [v]", OF rd 2(4)] by blast
    then show ?thesis using 2 by fastforce
  qed simp
qed simp

lemma cbor_entries_returns:
  assumes "\<And>o1. off \<le> o1 \<Longrightarrow> returns_within bytes 1 o1 cbor_size (rd o1)" "off \<le> length bytes"
  shows "\<exists>r. cbor_entries rd n off m = Some r \<and>
    (\<forall>m' o2. r = Inr (m', o2) \<longrightarrow> off + msize m' \<le> o2 + msize m \<and> off \<le> o2 \<and> o2 \<le> length bytes)"
  using assms
proof (induction n arbitrary: off m)
  case (Suc n)
  from Suc.prems(1)[OF order_refl] show ?case
  proof (cases rule: returns_within_item)
    case (2 k o1)
    show ?thesis
    proof (cases "cbor_map_key k")
      case (Some key)
      have "returns_within bytes 1 o1 cbor_size (rd o1)" using Suc.prems(1) 2(3) by simp
      then show ?thesis
      proof (cases rule: returns_within_item)
        case second: (2 v o2)
        have rd: "\<And>i. o2 \<le> i \<Longrightarrow> returns_within bytes 1 i cbor_size (rd i)"
          using Suc.prems(1) 2(3) second(3) by simp
        obtain r where "cbor_entries rd n o2 (js_set m key v) = Some r"
          "\<forall>m' o3. r = Inr (m', o3) \<longrightarrow> o2 + msize m' \<le> o3 + msize (js_set m key v) \<and> o2 \<le> o3 \<and> o3 \<le> length bytes"
          using Suc.IH[of o2 "js_set m key v", OF rd second(4)] by blast
        moreover have "msize (js_set m key v) \<le> msize m + (1 + cbor_size v)" by (rule msize_set)
        ultimately show ?thesis using 2 second Some by fastforce
      qed (use 2 Some in simp)
    qed (use 2 in simp)
  qed simp
qed simp

lemma cbor_read_returns: "returns_within bytes 1 off cbor_size (cbor_read txt bytes off)"
proof (induction "length bytes - off" arbitrary: off rule: less_induct)
  case less
  show ?case
  proof (cases "cbor_next bytes off")
    case (Inl e)
    then show ?thesis by (subst cbor_read.simps) (simp add: returns_within_def)
  next
    case next_byte: (Inr p)
    obtain initial o1 where p: "p = (initial, o1)" by (cases p)
    have o1: "o1 = off + 1" "off < length bytes" using cbor_next_spec next_byte p by auto
    show ?thesis
    proof (cases "initial div 32 > 5 \<or> (\<exists>e. cbor_length bytes o1 (initial mod 32) = Inl e)")
      case True
      then show ?thesis
        by (subst cbor_read.simps) (auto simp: next_byte p returns_within_def)
    next
      case False
      then obtain n o2 where n: "cbor_length bytes o1 (initial mod 32) = Inr (n, o2)"
        by (cases "cbor_length bytes o1 (initial mod 32)") auto
      have o2: "off < o2" "o2 \<le> length bytes" using cbor_length_spec[OF n] o1 by auto
      have rd: "returns_within bytes 1 i cbor_size (cbor_read txt bytes i)" if "o2 \<le> i" for i
        using less[of i] that o2 o1(2) by simp
      obtain r1 where items: "cbor_items (\<lambda>i. cbor_read txt bytes i) n o2 [] = Some r1"
        "\<forall>vs o3. r1 = Inr (vs, o3) \<longrightarrow> o2 + sum_list (map cbor_size vs) \<le> o3 \<and> o2 \<le> o3 \<and> o3 \<le> length bytes"
        using cbor_items_returns[of o2 bytes "\<lambda>i. cbor_read txt bytes i" n "[]", OF rd o2(2)] by auto
      obtain r2 where entries: "cbor_entries (\<lambda>i. cbor_read txt bytes i) n o2 [] = Some r2"
        "\<forall>m o3. r2 = Inr (m, o3) \<longrightarrow> o2 + msize m \<le> o3 \<and> o2 \<le> o3 \<and> o3 \<le> length bytes"
        using cbor_entries_returns[of o2 bytes "\<lambda>i. cbor_read txt bytes i" n "[]", OF rd o2(2)] by auto
      show ?thesis
        using False n o2 items entries next_byte p
        by (subst cbor_read.simps)
          (fastforce simp: returns_within_def and_then_def dest!: cbor_take_spec
            split: sum.splits prod.splits if_splits)
    qed
  qed
qed

section \<open>Authenticator data and COSE keys\<close>

definition FLAG_UP :: byte where "FLAG_UP = 1"

definition FLAG_AT :: byte where "FLAG_AT = 0x40"

record ParsedAuthData =
  pa_rpIdHash :: "byte list"
  pa_flags :: byte
  pa_signCount :: nat
  pa_credentialId :: "byte list option"
  pa_cosePublicKey :: "byte list option"

definition uint16_at :: "byte list \<Rightarrow> nat \<Rightarrow> nat" where
  "uint16_at bs i = unat (bs ! i) * 256 + unat (bs ! (i + 1))"

definition uint32_at :: "byte list \<Rightarrow> nat \<Rightarrow> nat" where
  "uint32_at bs i = uint16_at bs i * 65536 + uint16_at bs (i + 2)"

text \<open>The attested credential: its id, and the raw bytes of the one CBOR item behind it.\<close>

definition attested ::
  "(byte list \<Rightarrow> string) \<Rightarrow> byte list \<Rightarrow> (byte list \<times> byte list) js_result option" where
  "attested txt bytes =
     (if length bytes < 55 then Some (Inl (JsError ''attested credential data truncated''))
      else
        (let idEnd = 55 + uint16_at bytes 53
         in if length bytes < idEnd then Some (Inl (JsError ''credential id truncated''))
            else
              map_option (\<lambda>r. and_then r (\<lambda>(v, off).
                  Inr (take (idEnd - 55) (drop 55 bytes), take off (drop idEnd bytes))))
                (cbor_read txt (drop idEnd bytes) 0)))"

definition parseAuthData :: "(byte list \<Rightarrow> string) \<Rightarrow> byte list \<Rightarrow> ParsedAuthData js_result option" where
  "parseAuthData txt bytes =
     (if length bytes < 37 then Some (Inl (JsError ''authData too short''))
      else
        (let base = \<lparr>pa_rpIdHash = take 32 bytes, pa_flags = bytes ! 32, pa_signCount = uint32_at bytes 33,
                     pa_credentialId = None, pa_cosePublicKey = None\<rparr>
         in if bytes ! 32 AND FLAG_AT = 0 then Some (Inr base)
            else
              map_option (\<lambda>r. and_then r (\<lambda>(cid, cose).
                  Inr (base\<lparr>pa_credentialId := Some cid, pa_cosePublicKey := Some cose\<rparr>)))
                (attested txt bytes)))"

definition COSE_KTY :: int where "COSE_KTY = 1"
definition COSE_ALG :: int where "COSE_ALG = 3"
definition COSE_CRV :: int where "COSE_CRV = -1"
definition COSE_X :: int where "COSE_X = -2"
definition COSE_Y :: int where "COSE_Y = -3"
definition COSE_ALG_ES256 :: int where "COSE_ALG_ES256 = -7"
definition COSE_ALG_EDDSA :: int where "COSE_ALG_EDDSA = -8"

record 'k CredentialKey =
  ck_alg :: int
  ck_key :: 'k

definition cose_key :: "'k webauthn_env \<Rightarrow> CborValue \<Rightarrow> 'k CredentialKey js_result" where
  "cose_key wn v =
     (case v of
        CMap m \<Rightarrow>
          (let kty = js_get m (KInt COSE_KTY); alg = js_get m (KInt COSE_ALG);
               crv = js_get m (KInt COSE_CRV); x = js_get m (KInt COSE_X)
           in if alg = Some (CInt COSE_ALG_ES256) then
                (case (kty, crv, x, js_get m (KInt COSE_Y)) of
                   (Some (CInt t), Some (CInt c), Some (CBytes bx), Some (CBytes by)) \<Rightarrow>
                     if t \<noteq> 2 \<or> c \<noteq> 1 then Inl (JsError ''malformed ES256 COSE key'')
                     else and_then (wn_importP256 wn (concatBytes [[4], bx, by]))
                            (\<lambda>k. Inr \<lparr>ck_alg = COSE_ALG_ES256, ck_key = k\<rparr>)
                 | _ \<Rightarrow> Inl (JsError ''malformed ES256 COSE key''))
              else if alg = Some (CInt COSE_ALG_EDDSA) then
                (case (kty, crv, x) of
                   (Some (CInt t), Some (CInt c), Some (CBytes bx)) \<Rightarrow>
                     if t \<noteq> 1 \<or> c \<noteq> 6 then Inl (JsError ''malformed Ed25519 COSE key'')
                     else and_then (wn_importEd25519 wn bx)
                            (\<lambda>k. Inr \<lparr>ck_alg = COSE_ALG_EDDSA, ck_key = k\<rparr>)
                 | _ \<Rightarrow> Inl (JsError ''malformed Ed25519 COSE key''))
              else Inl (JsError ''unsupported COSE alg''))
      | _ \<Rightarrow> Inl (JsError ''COSE key is not a map''))"

definition importCoseKey :: "'k webauthn_env \<Rightarrow> byte list \<Rightarrow> 'k CredentialKey js_result option" where
  "importCoseKey wn coseBytes =
     map_option (\<lambda>r. and_then r (cose_key wn)) (cbor_decode (wn_text wn) coseBytes)"

section \<open>Signatures\<close>

fun strip_zeros :: "byte list \<Rightarrow> byte list" where
  "strip_zeros (b # c # bs) = (if b = 0 then strip_zeros (c # bs) else b # c # bs)"
| "strip_zeros bs = bs"

definition der_int :: "byte list \<Rightarrow> nat \<Rightarrow> (byte list \<times> nat) js_result" where
  "der_int der off =
     (let malformed = Inl (JsError ''malformed DER signature'')
      in if \<not> off < length der \<or> der ! off \<noteq> 0x02 then malformed
         else if \<not> off + 1 < length der then malformed
         else
           (let start = off + 2; len = unat (der ! (off + 1))
            in if start + len > length der then malformed
               else
                 (let bytes = strip_zeros (take len (drop start der))
                  in if length bytes > 32 then malformed
                     else Inr (replicate (32 - length bytes) 0 @ bytes, start + len))))"

definition ecdsaDerToRaw :: "byte list \<Rightarrow> byte list js_result" where
  "ecdsaDerToRaw der =
     (if length der < 8 \<or> der ! 0 \<noteq> 0x30 then Inl (JsError ''malformed DER signature'')
      else
        and_then (der_int der (if der ! 1 AND 0x80 \<noteq> 0 then 3 else 2)) (\<lambda>(r, o1).
        and_then (der_int der o1) (\<lambda>(s, o2). Inr (concatBytes [r, s]))))"

definition verifyCredentialSignature ::
  "'k webauthn_env \<Rightarrow> 'k CredentialKey \<Rightarrow> byte list \<Rightarrow> byte list \<Rightarrow> bool js_result" where
  "verifyCredentialSignature wn ck signature signedBytes =
     (if ck_alg ck = COSE_ALG_ES256
      then and_then (ecdsaDerToRaw signature) (\<lambda>raw. wn_verifyP256 wn (ck_key ck) raw signedBytes)
      else wn_verifyEd25519 wn (ck_key ck) signature signedBytes)"

section \<open>The client data\<close>

datatype ClientDataFailure = BadClientData | WrongType | ChallengeMismatch | OriginMismatch

definition checkClientData ::
  "'k webauthn_env \<Rightarrow> string \<Rightarrow> string \<Rightarrow> string \<Rightarrow> string \<Rightarrow> ClientDataFailure + byte list" where
  "checkClientData wn clientDataJsonB64u expectedType expectedChallenge expectedOrigin =
     (case fromBase64Url clientDataJsonB64u of
        Inl _ \<Rightarrow> Inl BadClientData
      | Inr bytes \<Rightarrow>
          (case wn_parse wn bytes of
             Inl _ \<Rightarrow> Inl BadClientData
           | Inr parsed \<Rightarrow>
               (let m = (\<lambda>k. case parsed of JObj kvs \<Rightarrow> map_of kvs k | _ \<Rightarrow> None)
                in if (case parsed of JObj _ \<Rightarrow> False | JArr _ \<Rightarrow> False | _ \<Rightarrow> True) then Inl BadClientData
                   else if m ''type'' \<noteq> Some (JStr expectedType) then Inl WrongType
                   else if m ''challenge'' \<noteq> Some (JStr expectedChallenge) then Inl ChallengeMismatch
                   else if m ''origin'' \<noteq> Some (JStr expectedOrigin) then Inl OriginMismatch
                   else Inr bytes)))"

section \<open>Registration\<close>

record RegistrationOptions =
  ro_challenge :: string
  ro_rp :: "string \<times> string"
  ro_user :: "string \<times> string \<times> string"
  ro_algs :: "int list"
  ro_timeout :: nat

text \<open>The members that vary or that the client acts on; the remaining ones are constants.\<close>

definition beginRegistration ::
  "string \<Rightarrow> string \<Rightarrow> string option \<Rightarrow> RpConfig \<Rightarrow> string \<Rightarrow> RegistrationOptions" where
  "beginRegistration userId email displayName rp challenge =
     \<lparr>ro_challenge = challenge, ro_rp = (rp_id rp, rp_name rp),
      ro_user = (toBase64Url (utf8 userId), email, case displayName of None \<Rightarrow> email | Some n \<Rightarrow> n),
      ro_algs = [COSE_ALG_ES256, COSE_ALG_EDDSA], ro_timeout = CHALLENGE_TTL_MS\<rparr>"

record RegistrationCredential =
  rc_id :: string
  rc_clientDataJSON :: string
  rc_attestationObject :: string
  rc_prfEnabled :: "bool option"

datatype RegistrationFailure = RegClientData ClientDataFailure | MalformedAttestation | RegRpIdMismatch
  | NoCredential | CredentialIdMismatch | RegUnsupportedAlgorithm

record Registration =
  rg_credentialId :: string
  rg_publicKeyCose :: string
  rg_signCount :: nat
  rg_prfCapable :: bool

definition attestation_data :: "'k webauthn_env \<Rightarrow> string \<Rightarrow> ParsedAuthData js_result option" where
  "attestation_data wn attestationObject =
     (case fromBase64Url attestationObject of
        Inl e \<Rightarrow> Some (Inl e)
      | Inr bytes \<Rightarrow>
          Option.bind (cbor_decode (wn_text wn) bytes) (\<lambda>r.
            case r of
              Inl e \<Rightarrow> Some (Inl e)
            | Inr (CMap m) \<Rightarrow>
                (case js_get m (KText ''authData'') of
                   Some (CBytes b) \<Rightarrow> parseAuthData (wn_text wn) b
                 | _ \<Rightarrow> Some (Inl (JsError ''missing authData'')))
            | Inr _ \<Rightarrow> Some (Inl (JsError ''attestation is not a map''))))"

definition registered ::
  "'k webauthn_env \<Rightarrow> RpConfig \<Rightarrow> RegistrationCredential \<Rightarrow> ParsedAuthData \<Rightarrow>
   (RegistrationFailure + Registration) option" where
  "registered wn rp credential ad =
     (if \<not> bytesEqual (pa_rpIdHash ad) (wn_sha256 wn (utf8 (rp_id rp))) then Some (Inl RegRpIdMismatch)
      else
        (case (pa_credentialId ad, pa_cosePublicKey ad) of
           (Some cid, Some cose) \<Rightarrow>
             if toBase64Url cid \<noteq> rc_id credential then Some (Inl CredentialIdMismatch)
             else
               map_option (\<lambda>k.
                   case k of
                     Inl _ \<Rightarrow> Inl RegUnsupportedAlgorithm
                   | Inr _ \<Rightarrow>
                       Inr \<lparr>rg_credentialId = toBase64Url cid, rg_publicKeyCose = toBase64 cose,
                            rg_signCount = pa_signCount ad, rg_prfCapable = (rc_prfEnabled credential = Some True)\<rparr>)
                 (importCoseKey wn cose)
         | _ \<Rightarrow> Some (Inl NoCredential)))"

definition finishRegistration ::
  "'k webauthn_env \<Rightarrow> RpConfig \<Rightarrow> string \<Rightarrow> RegistrationCredential \<Rightarrow>
   (RegistrationFailure + Registration) option" where
  "finishRegistration wn rp expectedChallenge credential =
     (case checkClientData wn (rc_clientDataJSON credential) ''webauthn.create'' expectedChallenge (rp_origin rp) of
        Inl f \<Rightarrow> Some (Inl (RegClientData f))
      | Inr _ \<Rightarrow>
          Option.bind (attestation_data wn (rc_attestationObject credential)) (\<lambda>r.
            case r of
              Inl _ \<Rightarrow> Some (Inl MalformedAttestation)
            | Inr ad \<Rightarrow> registered wn rp credential ad))"

section \<open>Login\<close>

record LoginOptions =
  lo_challenge :: string
  lo_rpId :: string
  lo_allow :: "string list"
  lo_timeout :: nat

definition beginLogin :: "string list \<Rightarrow> RpConfig \<Rightarrow> string \<Rightarrow> LoginOptions" where
  "beginLogin credentialIds rp challenge =
     \<lparr>lo_challenge = challenge, lo_rpId = rp_id rp, lo_allow = credentialIds, lo_timeout = CHALLENGE_TTL_MS\<rparr>"

record AssertionCredential =
  ac_id :: string
  ac_clientDataJSON :: string
  ac_authenticatorData :: string
  ac_signature :: string

datatype AssertionFailure = AssClientData ClientDataFailure | MalformedAssertion | AssRpIdMismatch
  | UserNotPresent | SignCountRegression | AssUnsupportedAlgorithm | BadSignature

definition assertion_data ::
  "'k webauthn_env \<Rightarrow> AssertionCredential \<Rightarrow> (byte list \<times> ParsedAuthData \<times> byte list) js_result option" where
  "assertion_data wn credential =
     (case fromBase64Url (ac_authenticatorData credential) of
        Inl e \<Rightarrow> Some (Inl e)
      | Inr bytes \<Rightarrow>
          map_option (\<lambda>r. and_then r (\<lambda>ad. and_then (fromBase64Url (ac_signature credential)) (\<lambda>sig.
              Inr (bytes, ad, sig))))
            (parseAuthData (wn_text wn) bytes))"

definition count_regressed :: "nat \<Rightarrow> nat \<Rightarrow> bool" where
  "count_regressed stored seen \<longleftrightarrow> (stored \<noteq> 0 \<or> seen \<noteq> 0) \<and> seen \<le> stored"

definition assertion_verdict ::
  "'k webauthn_env \<Rightarrow> string \<Rightarrow> byte list \<Rightarrow> byte list \<Rightarrow> ParsedAuthData \<Rightarrow> byte list \<Rightarrow>
   (AssertionFailure + nat) option" where
  "assertion_verdict wn publicKey clientDataJson authDataBytes ad signature =
     Option.bind (case fromBase64 publicKey of Inl e \<Rightarrow> Some (Inl e) | Inr cose \<Rightarrow> importCoseKey wn cose) (\<lambda>r.
       case r of
         Inl _ \<Rightarrow> Some (Inl AssUnsupportedAlgorithm)
       | Inr ck \<Rightarrow>
           Some (if verifyCredentialSignature wn ck signature
                      (concatBytes [authDataBytes, wn_sha256 wn clientDataJson]) = Inr True
                 then Inr (pa_signCount ad) else Inl BadSignature))"

definition finishLogin ::
  "'k webauthn_env \<Rightarrow> RpConfig \<Rightarrow> string \<Rightarrow> string \<Rightarrow> nat \<Rightarrow> AssertionCredential \<Rightarrow>
   (AssertionFailure + nat) option" where
  "finishLogin wn rp expectedChallenge publicKey storedCount credential =
     (case checkClientData wn (ac_clientDataJSON credential) ''webauthn.get'' expectedChallenge (rp_origin rp) of
        Inl f \<Rightarrow> Some (Inl (AssClientData f))
      | Inr clientDataJson \<Rightarrow>
          Option.bind (assertion_data wn credential) (\<lambda>r.
            case r of
              Inl _ \<Rightarrow> Some (Inl MalformedAssertion)
            | Inr (authDataBytes, ad, signature) \<Rightarrow>
                if \<not> bytesEqual (pa_rpIdHash ad) (wn_sha256 wn (utf8 (rp_id rp))) then Some (Inl AssRpIdMismatch)
                else if pa_flags ad AND FLAG_UP = 0 then Some (Inl UserNotPresent)
                else if count_regressed storedCount (pa_signCount ad) then Some (Inl SignCountRegression)
                else assertion_verdict wn publicKey clientDataJson authDataBytes ad signature))"

end
