(* ===== verification/WebAuthnFacts.thy ===== *)
theory WebAuthnFacts
  imports WebAuthn
begin

text \<open>
  What the passkey ceremonies guarantee: they return on every input, the decoder inverts the encoder
  of the test suite (services/control/test/webauthn.test.ts), and an accepted login has passed every
  check.
\<close>

section \<open>The encoder of the tests\<close>

definition cborHead :: "nat \<Rightarrow> nat \<Rightarrow> byte list" where
  "cborHead major n =
     (let m = major * 32
      in if n < 24 then [of_nat (m + n)]
         else if n < 256 then [of_nat (m + 24), of_nat n]
         else [of_nat (m + 25), of_nat (n div 256), of_nat (n mod 256)])"

definition cborInt :: "int \<Rightarrow> byte list" where
  "cborInt n = (if n \<ge> 0 then cborHead 0 (nat n) else cborHead 1 (nat (- 1 - n)))"

definition cborBytes :: "byte list \<Rightarrow> byte list" where
  "cborBytes b = cborHead 2 (length b) @ b"

definition cborText :: "string \<Rightarrow> byte list" where
  "cborText s = cborHead 3 (length (utf8 s)) @ utf8 s"

fun cbor_key_bytes :: "cbor_key \<Rightarrow> byte list" where
  "cbor_key_bytes (KInt n) = cborInt n"
| "cbor_key_bytes (KText s) = cborText s"

definition cborMap :: "(cbor_key \<times> byte list) list \<Rightarrow> byte list" where
  "cborMap entries = cborHead 5 (length entries) @ concat (map (\<lambda>(k, v). cbor_key_bytes k @ v) entries)"

text \<open>The bytes of a whole value; the tests have no arrays, which have the head of major type 4.\<close>

fun cbor_bytes :: "CborValue \<Rightarrow> byte list" where
  "cbor_bytes (CInt n) = cborInt n"
| "cbor_bytes (CText s) = cborText s"
| "cbor_bytes (CBytes b) = cborBytes b"
| "cbor_bytes (CArr vs) = cborHead 4 (length vs) @ concat (map cbor_bytes vs)"
| "cbor_bytes (CMap m) = cborMap (map (\<lambda>(k, v). (k, cbor_bytes v)) m)"

text \<open>The values that encoder has bytes for; it raises on lengths of more than sixteen bits.\<close>

definition encodable_int :: "int \<Rightarrow> bool" where
  "encodable_int n \<longleftrightarrow> -65536 \<le> n \<and> n < 65536"

definition encodable_text :: "(byte list \<Rightarrow> string) \<Rightarrow> string \<Rightarrow> bool" where
  "encodable_text txt s \<longleftrightarrow> length (utf8 s) < 65536 \<and> txt (utf8 s) = s"

fun encodable_key :: "(byte list \<Rightarrow> string) \<Rightarrow> cbor_key \<Rightarrow> bool" where
  "encodable_key txt (KInt n) = encodable_int n"
| "encodable_key txt (KText s) = encodable_text txt s"

fun encodable :: "(byte list \<Rightarrow> string) \<Rightarrow> CborValue \<Rightarrow> bool" where
  "encodable txt (CInt n) = encodable_int n"
| "encodable txt (CText s) = encodable_text txt s"
| "encodable txt (CBytes b) = (length b < 65536)"
| "encodable txt (CArr vs) = (length vs < 65536 \<and> list_all (encodable txt) vs)"
| "encodable txt (CMap m) =
     (length m < 65536 \<and> distinct (map fst m) \<and> list_all (\<lambda>(k, v). encodable_key txt k \<and> encodable txt v) m)"

text \<open>The bytes \<open>xs\<close> stand in \<open>bytes\<close> from \<open>off\<close> on.\<close>

definition at_offset :: "byte list \<Rightarrow> nat \<Rightarrow> byte list \<Rightarrow> bool" where
  "at_offset bytes off xs \<longleftrightarrow> off \<le> length bytes \<and> (\<exists>zs. drop off bytes = xs @ zs)"

lemma drop_shift: "drop (off + k) bytes = drop k (drop off bytes)"
  by (simp add: add.commute)

lemma at_offset_append:
  "at_offset bytes off (xs @ ys) \<longleftrightarrow> at_offset bytes off xs \<and> at_offset bytes (off + length xs) ys"
proof
  assume "at_offset bytes off (xs @ ys)"
  then obtain zs where z: "off \<le> length bytes" "drop off bytes = xs @ ys @ zs" by (auto simp: at_offset_def)
  have "length bytes - off = length xs + (length ys + length zs)" using arg_cong[OF z(2), of length] by simp
  then have "length xs \<le> length bytes - off" by simp
  moreover have "drop (off + length xs) bytes = ys @ zs" using z(2) by (simp add: drop_shift)
  ultimately show "at_offset bytes off xs \<and> at_offset bytes (off + length xs) ys" using z by (auto simp: at_offset_def)
next
  assume a: "at_offset bytes off xs \<and> at_offset bytes (off + length xs) ys"
  then obtain zs where z: "off \<le> length bytes" "drop off bytes = xs @ zs" by (auto simp: at_offset_def)
  then have "drop (off + length xs) bytes = zs" by (simp add: drop_shift)
  with a z show "at_offset bytes off (xs @ ys)" by (auto simp: at_offset_def)
qed

lemma at_offset_one: "at_offset bytes off [x] \<longleftrightarrow> off < length bytes \<and> bytes ! off = x"
proof (cases "off < length bytes")
  case True
  then show ?thesis by (auto simp: at_offset_def Cons_nth_drop_Suc[symmetric])
qed (auto simp: at_offset_def)

lemma at_offset_Cons: "at_offset bytes off (x # xs) \<longleftrightarrow> off < length bytes \<and> bytes ! off = x \<and> at_offset bytes (off + 1) xs"
  using at_offset_append[of bytes off "[x]" xs] by (simp add: at_offset_one)

lemma at_offset_take: "at_offset bytes off xs \<Longrightarrow> cbor_take bytes off (length xs) = Inr (xs, off + length xs)"
proof -
  assume a: "at_offset bytes off xs"
  then obtain zs where z: "drop off bytes = xs @ zs" by (auto simp: at_offset_def)
  have "off + length xs \<le> length bytes"
    using a at_offset_append[of bytes off xs "[]"] by (simp add: at_offset_def)
  then show ?thesis using z by (simp add: cbor_take_def)
qed

text \<open>A head gives back its major type and its number.\<close>

lemma head_fields: "n < 32 \<Longrightarrow> (m * 32 + n) div 32 = (m :: nat)" "n < 32 \<Longrightarrow> (m * 32 + n) mod 32 = n"
  by (rule div_nat_eqI; simp) (rule mod_nat_eqI; simp)

lemma head_read:
  assumes "at_offset bytes off (cborHead major n)" "major \<le> 5" "n < 65536"
  obtains initial o1 where "cbor_next bytes off = Inr (initial, o1)" "initial div 32 = major"
    "cbor_length bytes o1 (initial mod 32) = Inr (n, off + length (cborHead major n))"
proof -
  have u: "unat (of_nat k :: byte) = k" if "k < 256" for k
    using that by (simp add: unat_of_nat)
  consider "n < 24" | "\<not> n < 24" "n < 256" | "\<not> n < 24" "\<not> n < 256" by blast
  then show ?thesis
  proof cases
    case 1
    then have "at_offset bytes off [of_nat (major * 32 + n)]" using assms(1) by (simp add: cborHead_def Let_def)
    then have "cbor_next bytes off = Inr (major * 32 + n, off + 1)"
      using u[of "major * 32 + n"] 1 assms(2) by (simp add: at_offset_one cbor_next_def)
    then show ?thesis
      using 1 head_fields[of n major] by (intro that[of "major * 32 + n" "off + 1"]) (simp_all add: cbor_length_def cborHead_def)
  next
    case 2
    then have "at_offset bytes off [of_nat (major * 32 + 24), of_nat n]"
      using assms(1) by (simp add: cborHead_def Let_def)
    then have "cbor_next bytes off = Inr (major * 32 + 24, off + 1)" "cbor_next bytes (off + 1) = Inr (n, off + 2)"
      using u[of "major * 32 + 24"] u[of n] 2 assms(2) by (simp_all add: at_offset_Cons cbor_next_def)
    then show ?thesis
      using 2 head_fields[of 24 major]
      by (intro that[of "major * 32 + 24" "off + 1"]) (simp_all add: cbor_length_def cborHead_def)
  next
    case 3
    then have "at_offset bytes off [of_nat (major * 32 + 25), of_nat (n div 256), of_nat (n mod 256)]"
      using assms(1) by (simp add: cborHead_def Let_def)
    moreover have "n div 256 < 256" using assms(3) by simp
    ultimately have "cbor_next bytes off = Inr (major * 32 + 25, off + 1)"
      "cbor_next bytes (off + 1) = Inr (n div 256, off + 2)" "cbor_next bytes (off + 2) = Inr (n mod 256, off + 3)"
      using u[of "major * 32 + 25"] u[of "n div 256"] u[of "n mod 256"] assms(2)
      by (simp_all add: at_offset_Cons cbor_next_def)
    then show ?thesis
      using 3 head_fields[of 25 major]
      by (intro that[of "major * 32 + 25" "off + 1"]) (simp_all add: cbor_length_def cborHead_def)
  qed
qed

section \<open>The decoder inverts the encoder\<close>

lemma read_int:
  assumes "at_offset bytes off (cborInt n)" "encodable_int n"
  shows "cbor_read txt bytes off = Some (Inr (CInt n, off + length (cborInt n)))"
proof (cases "n \<ge> 0")
  case True
  then have h: "at_offset bytes off (cborHead 0 (nat n))" "cborInt n = cborHead 0 (nat n)" "nat n < 65536"
    using assms by (auto simp: cborInt_def encodable_int_def)
  obtain initial o1 where "cbor_next bytes off = Inr (initial, o1)" "initial div 32 = 0"
    "cbor_length bytes o1 (initial mod 32) = Inr (nat n, off + length (cborHead 0 (nat n)))"
    using head_read[OF h(1) _ h(3)] by auto
  then show ?thesis using True h(2) by (subst cbor_read.simps) simp
next
  case False
  then have h: "at_offset bytes off (cborHead 1 (nat (- 1 - n)))" "cborInt n = cborHead 1 (nat (- 1 - n))"
    "nat (- 1 - n) < 65536"
    using assms by (auto simp: cborInt_def encodable_int_def)
  obtain initial o1 where "cbor_next bytes off = Inr (initial, o1)" "initial div 32 = 1"
    "cbor_length bytes o1 (initial mod 32) = Inr (nat (- 1 - n), off + length (cborHead 1 (nat (- 1 - n))))"
    using head_read[OF h(1) _ h(3)] by auto
  then show ?thesis using False h(2) by (subst cbor_read.simps) simp
qed

lemma read_bytes:
  assumes "at_offset bytes off (cborBytes b)" "length b < 65536"
  shows "cbor_read txt bytes off = Some (Inr (CBytes b, off + length (cborBytes b)))"
proof -
  have h: "at_offset bytes off (cborHead 2 (length b))" "at_offset bytes (off + length (cborHead 2 (length b))) b"
    using assms(1) by (simp_all add: cborBytes_def at_offset_append)
  obtain initial o1 where "cbor_next bytes off = Inr (initial, o1)" "initial div 32 = 2"
    "cbor_length bytes o1 (initial mod 32) = Inr (length b, off + length (cborHead 2 (length b)))"
    using head_read[OF h(1) _ assms(2)] by auto
  then show ?thesis using at_offset_take[OF h(2)]
    by (subst cbor_read.simps) (simp add: cborBytes_def add.assoc)
qed

lemma read_text:
  assumes "at_offset bytes off (cborText s)" "encodable_text txt s"
  shows "cbor_read txt bytes off = Some (Inr (CText s, off + length (cborText s)))"
proof -
  have h: "at_offset bytes off (cborHead 3 (length (utf8 s)))"
    "at_offset bytes (off + length (cborHead 3 (length (utf8 s)))) (utf8 s)"
    using assms(1) by (simp_all add: cborText_def at_offset_append)
  have l: "length (utf8 s) < 65536" "txt (utf8 s) = s" using assms(2) by (simp_all add: encodable_text_def)
  obtain initial o1 where "cbor_next bytes off = Inr (initial, o1)" "initial div 32 = 3"
    "cbor_length bytes o1 (initial mod 32) = Inr (length (utf8 s), off + length (cborHead 3 (length (utf8 s))))"
    using head_read[OF h(1) _ l(1)] by auto
  then show ?thesis using at_offset_take[OF h(2)] l(2)
    by (subst cbor_read.simps) (simp add: cborText_def add.assoc)
qed

fun key_value :: "cbor_key \<Rightarrow> CborValue" where
  "key_value (KInt n) = CInt n"
| "key_value (KText s) = CText s"

lemma key_value_key [simp]: "cbor_map_key (key_value k) = Some k"
  by (cases k) simp_all

lemma read_key:
  assumes "at_offset bytes off (cbor_key_bytes k)" "encodable_key txt k"
  shows "cbor_read txt bytes off = Some (Inr (key_value k, off + length (cbor_key_bytes k)))"
  using assms by (cases k) (simp_all add: read_int read_text)

lemma read_items:
  assumes "\<And>v o1. v \<in> set vs \<Longrightarrow> at_offset bytes o1 (cbor_bytes v) \<Longrightarrow>
      rd o1 = Some (Inr (v, o1 + length (cbor_bytes v)))"
    and "at_offset bytes off (concat (map cbor_bytes vs))"
  shows "cbor_items rd (length vs) off out = Some (Inr (out @ vs, off + length (concat (map cbor_bytes vs))))"
  using assms
proof (induction vs arbitrary: off out)
  case (Cons v vs)
  have "rd off = Some (Inr (v, off + length (cbor_bytes v)))"
    using Cons.prems by (simp add: at_offset_append)
  moreover have "cbor_items rd (length vs) (off + length (cbor_bytes v)) (out @ [v]) =
      Some (Inr ((out @ [v]) @ vs, off + length (cbor_bytes v) + length (concat (map cbor_bytes vs))))"
    using Cons.prems by (intro Cons.IH) (auto simp: at_offset_append)
  ultimately show ?case by (simp add: add.assoc)
qed simp

lemma js_set_fresh: "k \<notin> fst ` set m \<Longrightarrow> js_set m k v = m @ [(k, v)]"
  by (induction m) auto

abbreviation entry_bytes :: "cbor_key \<times> CborValue \<Rightarrow> byte list" where
  "entry_bytes e \<equiv> cbor_key_bytes (fst e) @ cbor_bytes (snd e)"

lemma read_entries:
  assumes "\<And>e o1. e \<in> set m \<Longrightarrow> at_offset bytes o1 (cbor_key_bytes (fst e)) \<Longrightarrow>
      rd o1 = Some (Inr (key_value (fst e), o1 + length (cbor_key_bytes (fst e))))"
    and "\<And>e o1. e \<in> set m \<Longrightarrow> at_offset bytes o1 (cbor_bytes (snd e)) \<Longrightarrow>
      rd o1 = Some (Inr (snd e, o1 + length (cbor_bytes (snd e))))"
    and "at_offset bytes off (concat (map entry_bytes m))" "distinct (map fst (acc @ m))"
  shows "cbor_entries rd (length m) off acc = Some (Inr (acc @ m, off + length (concat (map entry_bytes m))))"
  using assms
proof (induction m arbitrary: off acc)
  case (Cons e m)
  let ?o1 = "off + length (cbor_key_bytes (fst e))"
  let ?o2 = "?o1 + length (cbor_bytes (snd e))"
  have at: "at_offset bytes off (cbor_key_bytes (fst e))" "at_offset bytes ?o1 (cbor_bytes (snd e))"
    "at_offset bytes ?o2 (concat (map entry_bytes m))"
    using Cons.prems(3) by (simp_all add: at_offset_append add.assoc)
  have "cbor_entries rd (length m) ?o2 (acc @ [e]) = Some (Inr ((acc @ [e]) @ m, ?o2 + length (concat (map entry_bytes m))))"
    using Cons.prems at by (intro Cons.IH) auto
  moreover have "js_set acc (fst e) (snd e) = acc @ [e]" using Cons.prems(4) by (simp add: js_set_fresh)
  ultimately show ?case using Cons.prems(1)[OF _ at(1)] Cons.prems(2)[OF _ at(2)] by (simp add: add.assoc)
qed simp

lemma read_value:
  "at_offset bytes off (cbor_bytes v) \<Longrightarrow> encodable txt v \<Longrightarrow>
   cbor_read txt bytes off = Some (Inr (v, off + length (cbor_bytes v)))"
proof (induction v arbitrary: off rule: measure_induct_rule[where f = cbor_size])
  case (less v)
  show ?case
  proof (cases v)
    case (CArr vs)
    have h: "at_offset bytes off (cborHead 4 (length vs))" "length vs < 65536"
      "at_offset bytes (off + length (cborHead 4 (length vs))) (concat (map cbor_bytes vs))"
      using less.prems CArr by (simp_all add: at_offset_append)
    obtain initial o1 where n: "cbor_next bytes off = Inr (initial, o1)" "initial div 32 = 4"
      "cbor_length bytes o1 (initial mod 32) = Inr (length vs, off + length (cborHead 4 (length vs)))"
      using head_read[OF h(1) _ h(2)] by auto
    have smaller: "cbor_size w < cbor_size v" if "w \<in> set vs" for w
      using member_le_sum_list[of "cbor_size w" "map cbor_size vs"] that CArr by simp
    have "cbor_items (cbor_read txt bytes) (length vs) (off + length (cborHead 4 (length vs))) [] =
        Some (Inr ([] @ vs, off + length (cborHead 4 (length vs)) + length (concat (map cbor_bytes vs))))"
      using less.IH smaller less.prems(2) CArr h(3) by (intro read_items) (auto simp: list_all_iff)
    then show ?thesis using n CArr by (subst cbor_read.simps) (simp add: add.assoc)
  next
    case (CMap m)
    have c: "cbor_bytes v = cborHead 5 (length m) @ concat (map entry_bytes m)"
      using CMap by (simp add: cborMap_def case_prod_unfold comp_def)
    then have h: "at_offset bytes off (cborHead 5 (length m))" "length m < 65536"
      "at_offset bytes (off + length (cborHead 5 (length m))) (concat (map entry_bytes m))"
      using less.prems CMap by (simp_all add: at_offset_append)
    obtain initial o1 where n: "cbor_next bytes off = Inr (initial, o1)" "initial div 32 = 5"
      "cbor_length bytes o1 (initial mod 32) = Inr (length m, off + length (cborHead 5 (length m)))"
      using head_read[OF h(1) _ h(2)] by auto
    have smaller: "cbor_size (snd e) < cbor_size v" if "e \<in> set m" for e
      using member_le_sum_list[of "1 + cbor_size (snd e)" "map (\<lambda>(k, v). 1 + cbor_size v) m"] that CMap
      by (force simp: case_prod_unfold)
    have ok: "encodable_key txt (fst e)" "encodable txt (snd e)" if "e \<in> set m" for e
      using less.prems(2) CMap that by (auto simp: list_all_iff)
    have "cbor_entries (cbor_read txt bytes) (length m) (off + length (cborHead 5 (length m))) [] =
        Some (Inr ([] @ m, off + length (cborHead 5 (length m)) + length (concat (map entry_bytes m))))"
      using less.IH smaller ok less.prems(2) CMap h(3) by (intro read_entries) (auto intro: read_key)
    then show ?thesis using n CMap c by (subst cbor_read.simps) (simp add: add.assoc)
  qed (use less.prems in \<open>simp_all add: read_int read_text read_bytes\<close>)
qed

section \<open>The ceremonies return\<close>

lemma cbor_read_some: "\<exists>r. cbor_read txt bytes off = Some r"
  using cbor_read_returns[of bytes off "txt"] by (auto simp: returns_within_def split: option.splits)

lemma cbor_decode_some: "\<exists>r. cbor_decode txt bytes = Some r"
  using cbor_read_some by (fastforce simp: cbor_decode_def)

lemma parseAuthData_some: "\<exists>r. parseAuthData txt bytes = Some r"
proof -
  have "\<exists>r. attested txt bytes = Some r"
  proof -
    obtain r where "cbor_read txt (drop (55 + uint16_at bytes 53) bytes) 0 = Some r"
      using cbor_read_some by blast
    then show ?thesis by (simp add: attested_def Let_def)
  qed
  then show ?thesis by (auto simp: parseAuthData_def Let_def)
qed

lemma importCoseKey_some: "\<exists>r. importCoseKey wn cose = Some r"
  using cbor_decode_some by (fastforce simp: importCoseKey_def)

lemma attestation_data_some: "\<exists>r. attestation_data wn obj = Some r"
proof (cases "fromBase64Url obj")
  case (Inr bytes)
  obtain r where r: "cbor_decode (wn_text wn) bytes = Some r" using cbor_decode_some by blast
  show ?thesis
    using Inr r parseAuthData_some
    by (auto simp: attestation_data_def split: sum.splits CborValue.splits option.splits)
qed (simp add: attestation_data_def)

lemma finishRegistration_some: "\<exists>r. finishRegistration wn rp ch credential = Some r"
proof (cases "checkClientData wn (rc_clientDataJSON credential) ''webauthn.create'' ch (rp_origin rp)")
  case (Inr b)
  obtain r where r: "attestation_data wn (rc_attestationObject credential) = Some r"
    using attestation_data_some by blast
  have "\<exists>x. registered wn rp credential ad = Some x" for ad
    using importCoseKey_some by (fastforce simp: registered_def split: option.splits)
  with Inr r show ?thesis by (auto simp: finishRegistration_def split: sum.splits)
qed (simp add: finishRegistration_def)

lemma finishLogin_some: "\<exists>r. finishLogin wn rp ch publicKey n credential = Some r"
proof (cases "checkClientData wn (ac_clientDataJSON credential) ''webauthn.get'' ch (rp_origin rp)")
  case (Inr json)
  have "\<exists>r. assertion_data wn credential = Some r"
    using parseAuthData_some by (fastforce simp: assertion_data_def split: sum.splits)
  then obtain r where r: "assertion_data wn credential = Some r" by blast
  have "\<exists>x. assertion_verdict wn publicKey json bs ad sig = Some x" for bs ad sig
  proof (cases "fromBase64 publicKey")
    case (Inr cose)
    obtain r where "importCoseKey wn cose = Some r" using importCoseKey_some by blast
    with Inr show ?thesis by (simp add: assertion_verdict_def split: sum.splits)
  qed (simp add: assertion_verdict_def)
  with Inr r show ?thesis by (auto simp: finishLogin_def split: sum.splits prod.splits)
qed (simp add: finishLogin_def)

section \<open>Signatures in DER\<close>

definition der_encode_int :: "byte list \<Rightarrow> byte list" where
  "der_encode_int bytes =
     (let b = strip_zeros bytes; content = (if hd b AND 0x80 \<noteq> 0 then 0 # b else b)
      in 0x02 # of_nat (length content) # content)"

definition ecdsaRawToDer :: "byte list \<Rightarrow> byte list" where
  "ecdsaRawToDer raw =
     (let r = der_encode_int (take 32 raw); s = der_encode_int (drop 32 raw)
      in 0x30 # of_nat (length r + length s) # r @ s)"

lemma strip_zeros_split: "bs \<noteq> [] \<Longrightarrow> \<exists>k. bs = replicate k 0 @ strip_zeros bs \<and> strip_zeros bs \<noteq> []"
proof (induction bs rule: strip_zeros.induct)
  case (1 b c bs)
  show ?case
  proof (cases "b = 0")
    case True
    then obtain k where "c # bs = replicate k 0 @ strip_zeros (c # bs)" "strip_zeros (c # bs) \<noteq> []"
      using "1.IH" by auto
    then have "b # c # bs = replicate (Suc k) 0 @ strip_zeros (b # c # bs)" "strip_zeros (b # c # bs) \<noteq> []"
      using True by auto
    then show ?thesis by blast
  next
    case False
    then show ?thesis by (intro exI[of _ 0]) simp
  qed
qed auto

lemma strip_zeros_idem: "strip_zeros (strip_zeros bs) = strip_zeros bs"
  by (induction bs rule: strip_zeros.induct) auto

lemma strip_zero_Cons: "b \<noteq> [] \<Longrightarrow> strip_zeros (0 # b) = strip_zeros b"
  by (cases b) auto

lemma der_int_encoded:
  assumes "length bs = 32" "at_offset der off (der_encode_int bs)"
  shows "der_int der off = Inr (bs, off + length (der_encode_int bs))"
proof -
  let ?b = "strip_zeros bs"
  let ?c = "if hd ?b AND 0x80 \<noteq> 0 then 0 # ?b else ?b"
  obtain k where k: "bs = replicate k 0 @ ?b" "?b \<noteq> []" using strip_zeros_split[of bs] assms(1) by fastforce
  have len: "k + length ?b = 32" using arg_cong[OF k(1), of length] assms(1) by simp
  have c: "length ?c < 256" "strip_zeros ?c = ?b" using len k(2) by (auto simp: strip_zero_Cons strip_zeros_idem)
  have e: "der_encode_int bs = 0x02 # of_nat (length ?c) # ?c" by (simp add: der_encode_int_def Let_def)
  have at: "off < length der" "der ! off = 0x02" "off + 1 < length der" "der ! (off + 1) = of_nat (length ?c)"
    "at_offset der (off + 2) ?c"
    using assms(2) unfolding e by (simp_all add: at_offset_Cons)
  have u: "unat (der ! (off + 1)) = length ?c" using c(1) unfolding at(4) by (simp add: unat_of_nat)
  have t: "off + 2 + length ?c \<le> length der" "take (length ?c) (drop (off + 2) der) = ?c"
    using at_offset_take[OF at(5)] by (simp_all add: cbor_take_def split: if_splits)
  have "32 - length ?b = k" using len by simp
  then have "replicate (32 - length ?b) 0 @ ?b = bs" using k(1) by (simp only:)
  then show ?thesis
    using at(1-3) u t c(2) len unfolding e by (simp add: der_int_def Let_def)
qed

lemma der_int_length:
  assumes "length bs = 32"
  shows "3 \<le> length (der_encode_int bs) \<and> length (der_encode_int bs) \<le> 35"
proof -
  obtain k where k: "bs = replicate k 0 @ strip_zeros bs" "strip_zeros bs \<noteq> []"
    using strip_zeros_split[of bs] assms by fastforce
  have "k + length (strip_zeros bs) = 32" using arg_cong[OF k(1), of length] assms by simp
  then show ?thesis using k(2) by (auto simp: der_encode_int_def Let_def Suc_le_eq)
qed

lemma der_parts: "at_offset (a # b # r @ s) 2 r" "at_offset (a # b # r @ s) (2 + length r) s"
proof -
  have "at_offset (a # b # r @ s) (Suc (Suc 0)) r" "at_offset (a # b # r @ s) (Suc (Suc (length r))) s"
    by (simp_all add: at_offset_def)
  then show "at_offset (a # b # r @ s) 2 r" "at_offset (a # b # r @ s) (2 + length r) s"
    by (simp_all add: numeral_2_eq_2)
qed

lemma low_byte_msb: "n < 128 \<Longrightarrow> of_nat n AND (0x80 :: byte) = 0"
proof -
  assume "n < 128"
  then have "n AND 128 = 0" using and_exp_eq_0_iff_not_bit[of n 7] by (simp add: bit_iff_odd)
  then have "of_nat (n AND 128) = (0 :: byte)" by simp
  then show ?thesis by (simp add: of_nat_and_eq)
qed

section \<open>What an accepted login has passed\<close>

text \<open>The client signed this challenge for this origin; the authenticator this relying party.\<close>

definition login_checked ::
  "'k webauthn_env \<Rightarrow> RpConfig \<Rightarrow> string \<Rightarrow> string \<Rightarrow> nat \<Rightarrow> AssertionCredential \<Rightarrow> nat \<Rightarrow> bool" where
  "login_checked wn rp challenge publicKey storedCount credential count \<longleftrightarrow>
     (\<exists>json kvs authBytes ad sig cose ck.
        fromBase64Url (ac_clientDataJSON credential) = Inr json \<and> wn_parse wn json = Inr (JObj kvs) \<and>
        map_of kvs ''type'' = Some (JStr ''webauthn.get'') \<and> map_of kvs ''challenge'' = Some (JStr challenge) \<and>
        map_of kvs ''origin'' = Some (JStr (rp_origin rp)) \<and>
        fromBase64Url (ac_authenticatorData credential) = Inr authBytes \<and>
        parseAuthData (wn_text wn) authBytes = Some (Inr ad) \<and>
        bytesEqual (pa_rpIdHash ad) (wn_sha256 wn (utf8 (rp_id rp))) \<and>
        pa_flags ad AND FLAG_UP \<noteq> 0 \<and> count = pa_signCount ad \<and> \<not> count_regressed storedCount count \<and>
        fromBase64Url (ac_signature credential) = Inr sig \<and> fromBase64 publicKey = Inr cose \<and>
        importCoseKey wn cose = Some (Inr ck) \<and>
        verifyCredentialSignature wn ck sig (concatBytes [authBytes, wn_sha256 wn json]) = Inr True)"

lemma checkClientData_Inr:
  assumes "checkClientData wn b64 ty ch orig = Inr json"
  shows "fromBase64Url b64 = Inr json \<and> (\<exists>kvs. wn_parse wn json = Inr (JObj kvs) \<and>
    map_of kvs ''type'' = Some (JStr ty) \<and> map_of kvs ''challenge'' = Some (JStr ch) \<and>
    map_of kvs ''origin'' = Some (JStr orig))"
proof -
  obtain bytes parsed where p: "fromBase64Url b64 = Inr bytes" "wn_parse wn bytes = Inr parsed"
    using assms by (auto simp: checkClientData_def split: sum.splits)
  then show ?thesis using assms by (cases parsed) (auto simp: checkClientData_def Let_def split: if_splits)
qed

lemma login_accepted:
  assumes "finishLogin wn rp ch publicKey n credential = Some (Inr count)"
  shows "login_checked wn rp ch publicKey n credential count"
proof -
  obtain json where json: "checkClientData wn (ac_clientDataJSON credential) ''webauthn.get'' ch (rp_origin rp) = Inr json"
    using assms by (auto simp: finishLogin_def split: sum.splits)
  obtain r where r: "assertion_data wn credential = Some r"
    using assms json by (auto simp: finishLogin_def Option.bind_eq_Some_conv)
  moreover obtain p where "r = Inr p" using assms json r by (cases r) (auto simp: finishLogin_def)
  ultimately obtain authBytes ad sig where a: "assertion_data wn credential = Some (Inr (authBytes, ad, sig))"
    by (cases p) auto
  have v: "bytesEqual (pa_rpIdHash ad) (wn_sha256 wn (utf8 (rp_id rp)))" "pa_flags ad AND FLAG_UP \<noteq> 0"
    "\<not> count_regressed n (pa_signCount ad)"
    "assertion_verdict wn publicKey json authBytes ad sig = Some (Inr count)"
    using assms json a by (auto simp: finishLogin_def split: if_splits)
  have parts: "fromBase64Url (ac_authenticatorData credential) = Inr authBytes"
    "parseAuthData (wn_text wn) authBytes = Some (Inr ad)" "fromBase64Url (ac_signature credential) = Inr sig"
    using a by (auto simp: assertion_data_def and_then_Inr split: sum.splits)
  obtain cose where cose: "fromBase64 publicKey = Inr cose"
    using v(4) by (cases "fromBase64 publicKey") (simp_all add: assertion_verdict_def)
  obtain k where "importCoseKey wn cose = Some k" using importCoseKey_some by blast
  moreover obtain ck where "k = Inr ck" using v(4) cose calculation by (cases k) (simp_all add: assertion_verdict_def)
  ultimately obtain ck where k: "fromBase64 publicKey = Inr cose" "importCoseKey wn cose = Some (Inr ck)"
    "verifyCredentialSignature wn ck sig (concatBytes [authBytes, wn_sha256 wn json]) = Inr True"
    "count = pa_signCount ad"
    using v(4) cose by (simp add: assertion_verdict_def split: if_splits)
  show ?thesis
    using checkClientData_Inr[OF json] parts v(1-3) k unfolding login_checked_def by blast
qed

section \<open>Properties\<close>

text \<open>
  C25. The passkey code returns on every input.  The decoder comes back from any bytes and any
  offset, with an exception or with a value that has no more nodes than the bytes it took, so a head
  that claims four billion items costs no more than the bytes behind it; and so both ceremonies come
  back with a verdict.
\<close>

theorem passkey_ceremonies_return:
  "returns_within bytes 1 off cbor_size (cbor_read txt bytes off) \<and>
   (\<exists>r. finishRegistration wn rp challenge registration = Some r) \<and>
   (\<exists>r. finishLogin wn rp challenge publicKey storedCount assertion = Some r)"
  by (intro conjI cbor_read_returns finishRegistration_some finishLogin_some)

text \<open>
  C26. The decoder inverts the encoder of the tests: it reads an encoded value back, whatever follows
  it, and stops right behind it, which is how the end of the public key in the authenticator data is
  found.  A signature turned into DER is read back to its 64 raw bytes.
\<close>

theorem authenticator_encodings_round_trip:
  assumes "encodable txt v" "length raw = 64"
  shows "cbor_read txt (cbor_bytes v @ rest) 0 = Some (Inr (v, length (cbor_bytes v))) \<and>
    ecdsaDerToRaw (ecdsaRawToDer raw) = Inr raw"
proof
  have "at_offset (cbor_bytes v @ rest) 0 (cbor_bytes v)" by (simp add: at_offset_def)
  from read_value[OF this assms(1)]
  show "cbor_read txt (cbor_bytes v @ rest) 0 = Some (Inr (v, length (cbor_bytes v)))" by simp
next
  let ?r = "der_encode_int (take 32 raw)" and ?s = "der_encode_int (drop 32 raw)"
  let ?der = "ecdsaRawToDer raw"
  have d: "?der = 0x30 # of_nat (length ?r + length ?s) # ?r @ ?s" by (simp add: ecdsaRawToDer_def Let_def)
  have at: "at_offset ?der 2 ?r" "at_offset ?der (2 + length ?r) ?s"
    unfolding d by (simp_all only: der_parts)
  have len: "length (take 32 raw) = 32" "length (drop 32 raw) = 32" using assms(2) by simp_all
  have sum: "length ?r + length ?s < 128" "8 \<le> length ?der"
    using der_int_length[OF len(1)] der_int_length[OF len(2)] unfolding d by auto
  have "of_nat (length ?r + length ?s) AND (0x80 :: byte) = 0"
    using sum(1) by (rule low_byte_msb)
  then show "ecdsaDerToRaw ?der = Inr raw"
    using der_int_encoded[OF len(1) at(1)] der_int_encoded[OF len(2) at(2)] sum(2) unfolding d
    by (simp add: ecdsaDerToRaw_def concatBytes_def)
qed

definition ascii_text :: "byte list \<Rightarrow> string" where
  "ascii_text bs = map (\<lambda>b. char_of (unat b)) bs"

definition example_attestation :: CborValue where
  "example_attestation = CMap [(KText ''fmt'', CText ''none''), (KInt 1, CArr [CInt (-7)]), (KText ''authData'', CBytes [1, 2])]"

lemma example_encodable: "encodable ascii_text example_attestation"
  by (simp add: example_attestation_def encodable_text_def encodable_int_def utf8_def utf8_char_def ascii_text_def
      char_of_def bit_iff_odd)

lemma authenticator_encodings_round_trip_witness:
  "cbor_read ascii_text (cbor_bytes example_attestation @ [7]) 0 =
     Some (Inr (example_attestation, length (cbor_bytes example_attestation))) \<and>
   ecdsaDerToRaw (ecdsaRawToDer (replicate 64 0x81)) = Inr (replicate 64 0x81)"
  by (rule authenticator_encodings_round_trip[OF example_encodable]) simp

end
