(* ===== verification/MachineLife.thy ===== *)
theory MachineLife
  imports Prelude
begin

text \<open>
  The lifecycle of a user's machine: its states and legal moves
  (packages/protocol/src/machine.ts), the decision to suspend it
  (packages/protocol/src/lifecycle.ts), and what the control plane makes of the agent's last snapshot
  (services/control/src/app.ts, ahead of \<open>createApp\<close>).  The prices are floating-point numbers and are
  not modelled.  The dash of the explanations, a character above 255, is
  written with two hyphens.
\<close>

section \<open>States and moves\<close>

datatype MachineState = Provisioning | Running | Suspending | Suspended | Resuming | ColdBooting
  | Boosting | Boosted | Shrinking | MachineError

definition MACHINE_STATES :: "MachineState list" where
  "MACHINE_STATES =
     [Provisioning, Running, Suspending, Suspended, Resuming, ColdBooting, Boosting, Boosted, Shrinking, MachineError]"

fun state_text :: "MachineState \<Rightarrow> string" where
  "state_text Provisioning = ''provisioning''"
| "state_text Running = ''running''"
| "state_text Suspending = ''suspending''"
| "state_text Suspended = ''suspended''"
| "state_text Resuming = ''resuming''"
| "state_text ColdBooting = ''cold_booting''"
| "state_text Boosting = ''boosting''"
| "state_text Boosted = ''boosted''"
| "state_text Shrinking = ''shrinking''"
| "state_text MachineError = ''error''"

fun MACHINE_TRANSITIONS :: "MachineState \<Rightarrow> MachineState list" where
  "MACHINE_TRANSITIONS Provisioning = [Running, MachineError]"
| "MACHINE_TRANSITIONS Running = [Suspending, Boosting, MachineError]"
| "MACHINE_TRANSITIONS Suspending = [Suspended, MachineError]"
| "MACHINE_TRANSITIONS Suspended = [Resuming, ColdBooting, MachineError]"
| "MACHINE_TRANSITIONS Resuming = [Running, ColdBooting, MachineError]"
| "MACHINE_TRANSITIONS ColdBooting = [Running, MachineError]"
| "MACHINE_TRANSITIONS Boosting = [Boosted, MachineError]"
| "MACHINE_TRANSITIONS Boosted = [Shrinking, MachineError]"
| "MACHINE_TRANSITIONS Shrinking = [Running, MachineError]"
| "MACHINE_TRANSITIONS MachineError = [Provisioning, ColdBooting]"

definition canTransition :: "MachineState \<Rightarrow> MachineState \<Rightarrow> bool" where
  "canTransition from to \<longleftrightarrow> to \<in> set (MACHINE_TRANSITIONS from)"

record MachineSpec =
  ms_cpuKind :: string
  ms_cpus :: nat
  ms_memoryMb :: nat

definition DEFAULT_MACHINE_SPEC :: MachineSpec where
  "DEFAULT_MACHINE_SPEC = \<lparr>ms_cpuKind = ''shared'', ms_cpus = 2, ms_memoryMb = 2048\<rparr>"

definition SUSPEND_MEMORY_CEILING_MB :: nat where "SUSPEND_MEMORY_CEILING_MB = 2048"

section \<open>The decision to suspend\<close>

record ProcessTreeInfo =
  pt_ptyId :: string
  pt_command :: string
  pt_shellOnly :: bool
  pt_suspendOptIn :: bool
  pt_jobMode :: bool

record LifecycleInputs =
  li_clientsAttached :: nat
  li_processes :: "ProcessTreeInfo list"
  li_idleMs :: nat
  li_activeTransfers :: nat
  li_idleSuspendAfterMs :: nat

datatype SuspendVerdict = IdleShell | ClientAttached | ActiveTransfer | JobMode string
  | UserProcessAlive string | WithinIdleGrace

fun verdict_suspends :: "SuspendVerdict \<Rightarrow> bool" where
  "verdict_suspends IdleShell = True"
| "verdict_suspends _ = False"

definition DEFAULT_IDLE_SUSPEND_MS :: nat where "DEFAULT_IDLE_SUSPEND_MS = 300000"

definition decideSuspend :: "LifecycleInputs \<Rightarrow> SuspendVerdict" where
  "decideSuspend inputs =
     (if li_clientsAttached inputs > 0 then ClientAttached
      else if li_activeTransfers inputs > 0 then ActiveTransfer
      else
        (case find pt_jobMode (li_processes inputs) of
           Some job \<Rightarrow> JobMode (pt_ptyId job)
         | None \<Rightarrow>
             (case find (\<lambda>p. \<not> pt_shellOnly p \<and> \<not> pt_suspendOptIn p) (li_processes inputs) of
                Some working \<Rightarrow> UserProcessAlive (pt_ptyId working)
              | None \<Rightarrow>
                  if li_idleMs inputs < li_idleSuspendAfterMs inputs then WithinIdleGrace else IdleShell)))"

fun explainVerdict :: "SuspendVerdict \<Rightarrow> string" where
  "explainVerdict IdleShell = ''Idle -- suspending to stop billing.''"
| "explainVerdict ClientAttached = ''Awake because this Mac is connected.''"
| "explainVerdict (JobMode _) = ''Awake because a job is set to keep running.''"
| "explainVerdict (UserProcessAlive _) = ''Awake because a process is still running in your terminal.''"
| "explainVerdict ActiveTransfer = ''Awake because a transfer is in progress.''"
| "explainVerdict WithinIdleGrace = ''Idle -- will suspend shortly.''"

section \<open>The verdict over the agent's snapshot\<close>

definition ACTIVITY_SNAPSHOT_STALE_AFTER_MS :: nat where "ACTIVITY_SNAPSHOT_STALE_AFTER_MS = 120000"

record machine_activity =
  ma_clientsAttached :: nat
  ma_processes :: "ProcessTreeInfo list"
  ma_activeTransfers :: nat
  ma_lastInteractionAt :: nat
  ma_awakeMsAccrued :: nat
  ma_lastReportAt :: nat

datatype LifecycleVerdict = Known SuspendVerdict | ActivityUnknown

fun lifecycle_suspends :: "LifecycleVerdict \<Rightarrow> bool" where
  "lifecycle_suspends (Known v) = verdict_suspends v"
| "lifecycle_suspends ActivityUnknown = False"

fun explainLifecycle :: "LifecycleVerdict \<Rightarrow> string" where
  "explainLifecycle (Known v) = explainVerdict v"
| "explainLifecycle ActivityUnknown = ''Waiting for the machine to report in -- staying awake until it does.''"

fun verdictPtyId :: "LifecycleVerdict \<Rightarrow> string option" where
  "verdictPtyId (Known (JobMode p)) = Some p"
| "verdictPtyId (Known (UserProcessAlive p)) = Some p"
| "verdictPtyId _ = None"

text \<open>Times are epoch milliseconds; the difference of two instants may be negative.\<close>

definition activityVerdict :: "machine_activity \<Rightarrow> nat \<Rightarrow> LifecycleVerdict" where
  "activityVerdict activity nowMs =
     (if int nowMs - int (ma_lastReportAt activity) > int ACTIVITY_SNAPSHOT_STALE_AFTER_MS then ActivityUnknown
      else
        Known (decideSuspend
          \<lparr>li_clientsAttached = ma_clientsAttached activity, li_processes = ma_processes activity,
           li_idleMs = nowMs - ma_lastInteractionAt activity,
           li_activeTransfers = ma_activeTransfers activity,
           li_idleSuspendAfterMs = DEFAULT_IDLE_SUSPEND_MS\<rparr>))"

definition lifecycleVerdict :: "machine_activity option \<Rightarrow> nat \<Rightarrow> LifecycleVerdict" where
  "lifecycleVerdict activity nowMs =
     (case activity of None \<Rightarrow> ActivityUnknown | Some a \<Rightarrow> activityVerdict a nowMs)"

section \<open>What a verdict to suspend says\<close>

text \<open>Nothing that the product promises to keep running is running.\<close>

definition nothing_runs :: "nat \<Rightarrow> ProcessTreeInfo list \<Rightarrow> nat \<Rightarrow> bool" where
  "nothing_runs clients processes transfers \<longleftrightarrow>
     clients = 0 \<and> transfers = 0 \<and>
     (\<forall>p \<in> set processes. \<not> pt_jobMode p \<and> (pt_shellOnly p \<or> pt_suspendOptIn p))"

lemma decideSuspend_suspends:
  "verdict_suspends (decideSuspend i) \<longleftrightarrow>
     nothing_runs (li_clientsAttached i) (li_processes i) (li_activeTransfers i) \<and>
     li_idleSuspendAfterMs i \<le> li_idleMs i"
  by (auto simp: decideSuspend_def nothing_runs_def find_None_iff find_Some_iff split: option.splits)
    (meson nth_mem)+

lemma lifecycleVerdict_suspends:
  "lifecycle_suspends (lifecycleVerdict a now) \<longleftrightarrow>
     (\<exists>m. a = Some m \<and> nothing_runs (ma_clientsAttached m) (ma_processes m) (ma_activeTransfers m) \<and>
        now \<le> ma_lastReportAt m + ACTIVITY_SNAPSHOT_STALE_AFTER_MS \<and>
        DEFAULT_IDLE_SUSPEND_MS \<le> now - ma_lastInteractionAt m)"
  by (auto simp: lifecycleVerdict_def activityVerdict_def decideSuspend_suspends split: option.splits)

lemma no_self_move: "\<not> canTransition s s"
  by (cases s) (simp_all add: canTransition_def)

text \<open>Only a running machine suspends or boosts, and what was suspended or is starting gets back to running.\<close>

lemma into_suspending: "canTransition s Suspending \<longleftrightarrow> s = Running"
  by (cases s) (simp_all add: canTransition_def)

lemma into_boosting: "canTransition s Boosting \<longleftrightarrow> s = Running"
  by (cases s) (simp_all add: canTransition_def)

end
