(* ===== verification/CloudFiles.thy ===== *)
theory CloudFiles
  imports Egress Messages
begin

text \<open>
  The rules of Suma Files: which downloads may be fetched in the cloud, the quota, the paths
  (packages/protocol/src/files.ts), and the control plane's admission of paths and manifests, its
  upload sets and its transfer states (services/control/src/files.ts).  The URL parser is a
  parameter.  A path is refused by \<open>None\<close> where the code returns null.
\<close>

section \<open>Cloud fetches\<close>

definition CLOUD_FETCH_MIN_BYTES :: nat where "CLOUD_FETCH_MIN_BYTES = 50 * 1024 * 1024"

datatype CloudFetchRefusal = NotHttp | CredentialedRequest | UserinfoInUrl | PrivateHost | TooSmall | PolicyLocalOnly

datatype CloudFetchVerdict = EligiblePublic | EligiblePresigned | Ineligible CloudFetchRefusal

record fetch_url =
  fu_protocol :: string
  fu_username :: string
  fu_password :: string
  fu_hostname :: string
  fu_params :: "(string \<times> string) list"
  fu_stripped :: string

record DownloadContext =
  dl_url :: string
  dl_totalBytes :: "nat option"
  dl_hasCookies :: bool
  dl_hasAuthHeader :: bool
  dl_usesClientCert :: bool
  dl_alwaysLocal :: bool

definition PRESIGNED_MARKERS :: "string list" where
  "PRESIGNED_MARKERS =
     [''x-amz-signature'', ''x-amz-credential'', ''x-goog-signature'', ''x-goog-credential'', ''se'', ''sp'']"

definition param_keys :: "fetch_url \<Rightarrow> string list" where
  "param_keys url = map (\<lambda>(k, v). js_lower k) (fu_params url)"

definition isAzureSas :: "string list \<Rightarrow> bool" where
  "isAzureSas keys \<longleftrightarrow>
     ''sig'' \<in> set keys \<and> ''sv'' \<in> set keys \<and> (''se'' \<in> set keys \<or> ''sp'' \<in> set keys)"

definition isPresigned :: "fetch_url \<Rightarrow> bool" where
  "isPresigned url \<longleftrightarrow>
     (if isAzureSas (param_keys url) then True
      else list_ex (\<lambda>k. k \<in> set PRESIGNED_MARKERS) (param_keys url))"

definition BEARER_QUERY_KEYS :: "string list" where
  "BEARER_QUERY_KEYS =
     [''access_token'', ''accesstoken'', ''auth'', ''auth_token'', ''authtoken'', ''api_key'', ''apikey'', ''bearer'',
      ''id_token'', ''jwt'', ''key'', ''password'', ''private_token'', ''refresh_token'', ''secret'', ''session'',
      ''session_id'', ''sessionid'', ''token'']"

definition hasBearerQueryCredential :: "fetch_url \<Rightarrow> bool" where
  "hasBearerQueryCredential url \<longleftrightarrow> list_ex (\<lambda>k. k \<in> set BEARER_QUERY_KEYS) (param_keys url)"

definition isPrivateV4 :: "nat \<Rightarrow> nat \<Rightarrow> bool" where
  "isPrivateV4 a b =
     (if a = 0 then True
      else if a = 127 \<or> a = 10 then True
      else if a = 192 \<and> b = 168 then True
      else if a = 172 \<and> b \<ge> 16 \<and> b \<le> 31 then True
      else if a = 169 \<and> b = 254 then True
      else if a = 100 \<and> b \<ge> 64 \<and> b \<le> 127 then True
      else False)"

text \<open>The tails of \<open>^::(?:ffff:)?\<close>: with the optional group taken, and with it left out.\<close>

definition mapped_tails :: "string \<Rightarrow> string list" where
  "mapped_tails h =
     (if prefix ''::ffff:'' h then [drop 7 h, drop 2 h] else if prefix ''::'' h then [drop 2 h] else [])"

definition hextet :: "string \<Rightarrow> bool" where
  "hextet w \<longleftrightarrow> 1 \<le> length w \<and> length w \<le> 4 \<and> list_all lower_hex w"

definition hextet_pair :: "string \<Rightarrow> nat option" where
  "hextet_pair t =
     (case js_split (CHR '':'') t of
        [x, y] \<Rightarrow> if hextet x \<and> hextet y then Some (hex_prefix 0 x) else None
      | _ \<Rightarrow> None)"

fun first_some :: "('a \<Rightarrow> 'b option) \<Rightarrow> 'a list \<Rightarrow> 'b option" where
  "first_some f [] = None"
| "first_some f (x # xs) = (case f x of None \<Rightarrow> first_some f xs | Some y \<Rightarrow> Some y)"

definition privateFetchHost :: "string \<Rightarrow> bool" where
  "privateFetchHost host =
     (let h = strip_brackets (js_lower host)
      in if h = ''localhost'' \<or> suffix ''.localhost'' h then True
         else if h = ''::1'' \<or> h = ''::'' \<or> h = ''0'' then True
         else
           (case dotted_quad h of
              Some (a, b) \<Rightarrow> isPrivateV4 a b
            | None \<Rightarrow>
                (case first_some dotted_quad (mapped_tails h) of
                   Some (a, b) \<Rightarrow> isPrivateV4 a b
                 | None \<Rightarrow>
                     (case first_some hextet_pair (mapped_tails h) of
                        Some high \<Rightarrow> isPrivateV4 (high div 256) (high mod 256)
                      | None \<Rightarrow>
                          if unique_local6 h \<or> link_local6 h then True
                          else if CHR '':'' \<in> set h then False
                          else CHR ''.'' \<notin> set h))))"

definition cloudFetchEligibility ::
  "(string \<Rightarrow> fetch_url option) \<Rightarrow> DownloadContext \<Rightarrow> CloudFetchVerdict" where
  "cloudFetchEligibility parse ctx =
     (if dl_alwaysLocal ctx then Ineligible PolicyLocalOnly
      else
        (case parse (dl_url ctx) of
           None \<Rightarrow> Ineligible NotHttp
         | Some url \<Rightarrow>
             if fu_protocol url \<noteq> ''http:'' \<and> fu_protocol url \<noteq> ''https:'' then Ineligible NotHttp
             else if fu_username url \<noteq> '''' \<or> fu_password url \<noteq> '''' then Ineligible UserinfoInUrl
             else if dl_hasCookies ctx \<or> dl_hasAuthHeader ctx \<or> dl_usesClientCert ctx then Ineligible CredentialedRequest
             else if \<not> isPresigned url \<and> hasBearerQueryCredential url then Ineligible CredentialedRequest
             else if privateFetchHost (fu_hostname url) then Ineligible PrivateHost
             else if (case dl_totalBytes ctx of None \<Rightarrow> False | Some n \<Rightarrow> n < CLOUD_FETCH_MIN_BYTES)
             then Ineligible TooSmall
             else if isPresigned url then EligiblePresigned else EligiblePublic))"

section \<open>Manifests, transfers, quota\<close>

record ChunkRef =
  cr_hash :: string
  cr_offset :: nat
  cr_length :: nat

record Manifest =
  mf_fileHash :: string
  mf_totalBytes :: nat
  mf_chunks :: "ChunkRef list"

definition hash64 :: "string \<Rightarrow> bool" where
  "hash64 s \<longleftrightarrow> length s = 64 \<and> list_all lower_hex s"

definition z_hash64 :: "json \<Rightarrow> string option" where
  "z_hash64 j = (case z_string j of Some s \<Rightarrow> if hash64 s then Some s else None | None \<Rightarrow> None)"

definition chunkRefSchema :: "json \<Rightarrow> ChunkRef option" where
  "chunkRefSchema j = do {
     h \<leftarrow> z_field ''hash'' z_hash64 j;
     off \<leftarrow> z_field ''offset'' z_nonneg j;
     len \<leftarrow> z_field ''length'' z_positive j;
     Some \<lparr>cr_hash = h, cr_offset = off, cr_length = len\<rparr>
   }"

definition manifestSchema :: "json \<Rightarrow> Manifest option" where
  "manifestSchema j = do {
     h \<leftarrow> z_field ''fileHash'' z_hash64 j;
     n \<leftarrow> z_field ''totalBytes'' z_nonneg j;
     cs \<leftarrow> z_field ''chunks'' (z_array chunkRefSchema) j;
     Some \<lparr>mf_fileHash = h, mf_totalBytes = n, mf_chunks = cs\<rparr>
   }"

datatype TransferState = TQueued | TFetching | TStoring | TCompleted | TFailed | TCancelled

definition TRANSFER_STATES :: "TransferState list" where
  "TRANSFER_STATES = [TQueued, TFetching, TStoring, TCompleted, TFailed, TCancelled]"

definition PRO_QUOTA_BYTES :: nat where "PRO_QUOTA_BYTES = 100 * 1024 * 1024 * 1024"

record QuotaState =
  qs_usedBytes :: nat
  qs_limitBytes :: nat

record QuotaVerdict =
  qv_allowed :: bool
  qv_softBlocked :: bool
  qv_usedBytes :: nat
  qv_limitBytes :: nat

text \<open>The explanation is a function of \<open>allowed\<close> and the limit and is left out.\<close>

definition checkQuota :: "QuotaState \<Rightarrow> nat \<Rightarrow> QuotaVerdict" where
  "checkQuota state incomingBytes =
     \<lparr>qv_allowed = (qs_usedBytes state + incomingBytes \<le> qs_limitBytes state),
      qv_softBlocked = (qs_usedBytes state \<ge> qs_limitBytes state),
      qv_usedBytes = qs_usedBytes state, qv_limitBytes = qs_limitBytes state\<rparr>"

section \<open>Paths\<close>

fun path_parts :: "string list \<Rightarrow> string list \<Rightarrow> string list option" where
  "path_parts parts [] = Some parts"
| "path_parts parts (segment # rest) =
     (if segment = '''' \<or> segment = ''.'' then path_parts parts rest
      else if segment = ''..'' then (if parts = [] then None else path_parts (butlast parts) rest)
      else path_parts (parts @ [segment]) rest)"

definition normalizeVfsPath :: "string \<Rightarrow> string option" where
  "normalizeVfsPath path =
     (if path = [] \<or> length path > 4096 then None
      else if CHR 0x00 \<in> set path then None
      else map_option (\<lambda>parts. CHR ''/'' # js_join ''/'' parts) (path_parts [] (js_split (CHR ''/'') path)))"

definition MAX_PATH_LENGTH :: nat where "MAX_PATH_LENGTH = 4096"

datatype PathRefusal = PathEmpty | PathTraversal | PathControlCharacters | PathIsRoot

definition control_character :: "char \<Rightarrow> bool" where
  "control_character c \<longleftrightarrow> (let n = (of_char c :: nat) in n \<le> 31 \<or> (127 \<le> n \<and> n \<le> 159))"

definition normalizeFilePath :: "string \<Rightarrow> PathRefusal + string" where
  "normalizeFilePath raw =
     (if raw = [] then Inl PathEmpty
      else if list_ex control_character raw then Inl PathControlCharacters
      else
        (case normalizeVfsPath raw of
           None \<Rightarrow> Inl PathTraversal
         | Some p \<Rightarrow> if p = ''/'' then Inl PathIsRoot else Inr p))"

definition normalizePrefix :: "string \<Rightarrow> string option" where
  "normalizePrefix raw =
     (if list_ex control_character raw then None
      else normalizeVfsPath (if raw = '''' then ''/'' else raw))"

section \<open>What the control plane admits\<close>

definition FILE_MAX_CHUNK_BYTES :: nat where "FILE_MAX_CHUNK_BYTES = 4 * 1024 * 1024"

definition MAX_MANIFEST_CHUNKS :: nat where "MAX_MANIFEST_CHUNKS = 16384"

datatype ManifestRefusal = TooManyChunks | ChunkTooLarge | NonContiguous | SizeMismatch

fun tile_chunks :: "nat \<Rightarrow> ChunkRef list \<Rightarrow> ManifestRefusal + nat" where
  "tile_chunks offset [] = Inr offset"
| "tile_chunks offset (c # cs) =
     (if cr_length c > FILE_MAX_CHUNK_BYTES then Inl ChunkTooLarge
      else if cr_offset c \<noteq> offset then Inl NonContiguous
      else tile_chunks (offset + cr_length c) cs)"

definition validateManifest :: "Manifest \<Rightarrow> ManifestRefusal option" where
  "validateManifest manifest =
     (if length (mf_chunks manifest) > MAX_MANIFEST_CHUNKS then Some TooManyChunks
      else
        (case tile_chunks 0 (mf_chunks manifest) of
           Inl r \<Rightarrow> Some r
         | Inr offset \<Rightarrow> if offset \<noteq> mf_totalBytes manifest then Some SizeMismatch else None))"

fun distinct_chunks :: "string list \<Rightarrow> ChunkRef list \<Rightarrow> ChunkRef list" where
  "distinct_chunks seen [] = []"
| "distinct_chunks seen (c # cs) =
     (if cr_hash c \<in> set seen then distinct_chunks seen cs
      else c # distinct_chunks (seen @ [cr_hash c]) cs)"

definition distinctChunks :: "Manifest \<Rightarrow> ChunkRef list" where
  "distinctChunks manifest = distinct_chunks [] (mf_chunks manifest)"

definition missingChunkRefs :: "Manifest \<Rightarrow> (string \<Rightarrow> bool) \<Rightarrow> ChunkRef list" where
  "missingChunkRefs manifest has = filter (\<lambda>c. \<not> has (cr_hash c)) (distinctChunks manifest)"

definition newBytes :: "Manifest \<Rightarrow> (string \<Rightarrow> bool) \<Rightarrow> nat" where
  "newBytes manifest has = sum_list (map cr_length (missingChunkRefs manifest has))"

definition chunkObjectKey :: "string \<Rightarrow> string \<Rightarrow> string" where
  "chunkObjectKey userId hash = ''chunks/'' @ userId @ ''/'' @ hash"

definition MAX_TRANSFER_BYTES :: nat where "MAX_TRANSFER_BYTES = 100 * 1024 * 1024 * 1024"

definition TERMINAL_TRANSFER_STATES :: "TransferState list" where
  "TERMINAL_TRANSFER_STATES = [TCompleted, TFailed, TCancelled]"

definition ACTIVE_TRANSFER_STATES :: "TransferState list" where
  "ACTIVE_TRANSFER_STATES = filter (\<lambda>s. s \<notin> set TERMINAL_TRANSFER_STATES) TRANSFER_STATES"

fun TRANSFER_TRANSITIONS :: "TransferState \<Rightarrow> TransferState list" where
  "TRANSFER_TRANSITIONS TQueued = [TFetching, TFailed, TCancelled]"
| "TRANSFER_TRANSITIONS TFetching = [TFetching, TStoring, TFailed, TCancelled]"
| "TRANSFER_TRANSITIONS TStoring = [TStoring, TCompleted, TFailed, TCancelled]"
| "TRANSFER_TRANSITIONS _ = []"

definition isTerminalTransfer :: "TransferState \<Rightarrow> bool" where
  "isTerminalTransfer s \<longleftrightarrow> s \<in> set TERMINAL_TRANSFER_STATES"

definition canTransferTransition :: "TransferState \<Rightarrow> TransferState \<Rightarrow> bool" where
  "canTransferTransition from to \<longleftrightarrow> to \<in> set (TRANSFER_TRANSITIONS from)"

text \<open>Scheme, host and path of a URL that parses; up to the first delimiter of one that does not.\<close>

definition redactTransferUrl :: "(string \<Rightarrow> fetch_url option) \<Rightarrow> string \<Rightarrow> string" where
  "redactTransferUrl parse raw =
     (case parse raw of
        Some url \<Rightarrow> fu_stripped url
      | None \<Rightarrow> takeWhile (\<lambda>c. c \<noteq> CHR ''?'' \<and> c \<noteq> CHR ''#'') raw)"

section \<open>Normalized paths\<close>

definition plain_segment :: "string \<Rightarrow> bool" where
  "plain_segment s \<longleftrightarrow> s \<noteq> '''' \<and> s \<noteq> ''.'' \<and> s \<noteq> ''..'' \<and> CHR ''/'' \<notin> set s"

lemma split_segments: "w \<in> set (js_split c s) \<Longrightarrow> c \<notin> set w"
proof (induction s arbitrary: w)
  case (Cons x s)
  show ?case
  proof (cases "js_split c s")
    case Nil
    then show ?thesis using Cons.prems by (auto split: if_splits)
  next
    case (Cons v vs)
    then have "c \<notin> set v" "\<And>u. u \<in> set vs \<Longrightarrow> c \<notin> set u" using Cons.IH by auto
    then show ?thesis using Cons Cons.prems by (auto split: if_splits)
  qed
qed simp

lemma path_parts_plain:
  assumes "path_parts parts segs = Some out" "list_all plain_segment parts" "\<forall>s \<in> set segs. CHR ''/'' \<notin> set s"
  shows "list_all plain_segment out"
  using assms
proof (induction parts segs rule: path_parts.induct)
  case (2 parts segment rest)
  have "list_all plain_segment (butlast parts)"
    using "2.prems"(2) by (auto simp: list_all_iff dest: in_set_butlastD)
  moreover have "segment = '''' \<or> segment = ''.'' \<or> segment = ''..'' \<or> plain_segment segment"
    using "2.prems"(3) by (auto simp: plain_segment_def)
  ultimately show ?case using 2 by (auto split: if_splits)
qed simp

lemma path_parts_fixed: "list_all plain_segment segs \<Longrightarrow> path_parts parts segs = Some (parts @ segs)"
  by (induction segs arbitrary: parts) (auto simp: plain_segment_def)

lemma js_split_join:
  assumes "\<forall>s \<in> set segs. c \<notin> set s" "segs \<noteq> []"
  shows "js_split c (js_join [c] segs) = segs"
  using assms
proof (induction segs)
  case (Cons x segs)
  show ?case
  proof (cases segs)
    case Nil
    have "c \<notin> set x" using Cons.prems by simp
    then show ?thesis unfolding Nil by (induction x) auto
  next
    case (Cons y zs)
    have "js_split c (u @ c # t) = u # js_split c t" if "c \<notin> set u" for u t
      using that by (induction u) auto
    then show ?thesis using Cons Cons.prems Cons.IH by simp
  qed
qed simp

lemma path_parts_sub: "path_parts parts segs = Some out \<Longrightarrow> set out \<subseteq> set parts \<union> set segs"
proof (induction parts segs rule: path_parts.induct)
  case (2 parts segment rest)
  then show ?case by (auto split: if_splits dest: in_set_butlastD)
qed simp

lemma split_chars: "w \<in> set (js_split c s) \<Longrightarrow> set w \<subseteq> set s"
proof (induction s arbitrary: w)
  case (Cons x s)
  show ?case
  proof (cases "js_split c s")
    case Nil
    then show ?thesis using Cons.prems by (auto split: if_splits)
  next
    case (Cons v vs)
    then have "set v \<subseteq> set s" "\<And>u. u \<in> set vs \<Longrightarrow> set u \<subseteq> set s" using Cons.IH by auto
    then show ?thesis using Cons Cons.prems by (auto split: if_splits)
  qed
qed simp

lemma join_chars: "set (js_join [c] ws) \<subseteq> insert c (\<Union> (set ` set ws))"
  by (induction "[c]" ws rule: js_join.induct) auto

lemma normalized:
  assumes "normalizeVfsPath p = Some q"
  obtains segs where "q = CHR ''/'' # js_join ''/'' segs" "list_all plain_segment segs" "CHR 0x00 \<notin> set q"
proof -
  obtain segs where s: "path_parts [] (js_split (CHR ''/'') p) = Some segs" "q = CHR ''/'' # js_join ''/'' segs"
    "CHR 0x00 \<notin> set p"
    using assms by (auto simp: normalizeVfsPath_def split: if_splits)
  have "set segs \<subseteq> set (js_split (CHR ''/'') p)" using path_parts_sub[OF s(1)] by simp
  then have "\<Union> (set ` set segs) \<subseteq> set p" using split_chars by blast
  with join_chars[of "CHR ''/''" segs] have "set (js_join ''/'' segs) \<subseteq> insert (CHR ''/'') (set p)" by blast
  then have "CHR 0x00 \<notin> set q" using s(2,3) by auto
  moreover have "list_all plain_segment segs"
    by (rule path_parts_plain[OF s(1)]) (auto dest: split_segments)
  ultimately show thesis using that s(2) by blast
qed

lemma normalize_fixed:
  assumes "list_all plain_segment segs" "q = CHR ''/'' # js_join ''/'' segs" "CHR 0x00 \<notin> set q" "length q \<le> 4096"
  shows "normalizeVfsPath q = Some q"
proof -
  have "path_parts [] (js_split (CHR ''/'') q) = Some segs"
  proof (cases "segs = []")
    case False
    have "js_split (CHR ''/'') (js_join ''/'' segs) = segs"
      using False assms(1) by (intro js_split_join) (auto simp: list_all_iff plain_segment_def)
    then show ?thesis using path_parts_fixed[OF assms(1), of "[]"] assms(2) by simp
  qed (simp add: assms(2))
  then show ?thesis using assms(2,3,4) by (simp add: normalizeVfsPath_def)
qed

section \<open>Manifests\<close>

lemma tile_chunks_sum:
  "tile_chunks off cs = Inr n \<Longrightarrow> n = off + sum_list (map cr_length cs) \<and> list_all (\<lambda>c. cr_length c \<le> FILE_MAX_CHUNK_BYTES) cs"
  by (induction off cs rule: tile_chunks.induct) (auto split: if_splits)

lemma validateManifest_total:
  "validateManifest m = None \<Longrightarrow> mf_totalBytes m = sum_list (map cr_length (mf_chunks m))"
  using tile_chunks_sum by (fastforce simp: validateManifest_def split: if_splits sum.splits)

lemma distinct_chunks_hashes:
  "distinct (map cr_hash (distinct_chunks seen cs)) \<and>
   set (map cr_hash (distinct_chunks seen cs)) = set (map cr_hash cs) - set seen"
  by (induction seen cs rule: distinct_chunks.induct) auto

lemma distinctChunks_hashes [simp]:
  "distinct (map cr_hash (distinctChunks m))"
  "set (map cr_hash (distinctChunks m)) = set (map cr_hash (mf_chunks m))"
  using distinct_chunks_hashes[of "[]" "mf_chunks m"] by (simp_all add: distinctChunks_def)

section \<open>Properties\<close>



text \<open>
  Only requests without credentials are fetched in the cloud: an eligible download is over http or
  https, has no user name or password in its address, neither cookies nor an authorization header nor
  a client certificate, is not for a private host, and has no account token in its query, unless the
  query also has a parameter that marks a presigned address.
\<close>

theorem cloud_fetch_carries_no_credentials:
  assumes "cloudFetchEligibility parse ctx \<in> {EligiblePublic, EligiblePresigned}"
  shows "\<exists>u. parse (dl_url ctx) = Some u \<and> fu_protocol u \<in> {''http:'', ''https:''} \<and>
    fu_username u = '''' \<and> fu_password u = '''' \<and>
    \<not> dl_hasCookies ctx \<and> \<not> dl_hasAuthHeader ctx \<and> \<not> dl_usesClientCert ctx \<and> \<not> dl_alwaysLocal ctx \<and>
    \<not> privateFetchHost (fu_hostname u) \<and> (isPresigned u \<or> \<not> hasBearerQueryCredential u)"
  using assms by (auto simp: cloudFetchEligibility_def split: if_splits option.splits)

definition example_fetch_url :: fetch_url where
  "example_fetch_url = \<lparr>fu_protocol = ''https:'', fu_username = '''', fu_password = '''', fu_hostname = ''files.example.com'',
     fu_params = [(''access_token'', ''t''), (''sp'', ''1'')], fu_stripped = ''https://files.example.com/x''\<rparr>"

definition example_download :: DownloadContext where
  "example_download = \<lparr>dl_url = ''u'', dl_totalBytes = None, dl_hasCookies = False, dl_hasAuthHeader = False,
     dl_usesClientCert = False, dl_alwaysLocal = False\<rparr>"

text \<open>
  An account token in the query, with a parameter named \<open>sp\<close> beside it, passes as presigned: the
  markers \<open>se\<close> and \<open>sp\<close> count on their own, though the comment asks for the signature with them.
\<close>

lemma bearer_rides_with_sp:
  "hasBearerQueryCredential example_fetch_url \<and>
   cloudFetchEligibility (\<lambda>_. Some example_fetch_url) example_download = EligiblePresigned"
  by code_simp

lemma cloud_fetch_carries_no_credentials_witness:
  "\<exists>u. Some example_fetch_url = Some u \<and> fu_protocol u \<in> {''http:'', ''https:''} \<and>
    fu_username u = '''' \<and> fu_password u = '''' \<and>
    \<not> dl_hasCookies example_download \<and> \<not> dl_hasAuthHeader example_download \<and>
    \<not> dl_usesClientCert example_download \<and> \<not> dl_alwaysLocal example_download \<and>
    \<not> privateFetchHost (fu_hostname u) \<and> (isPresigned u \<or> \<not> hasBearerQueryCredential u)"
  by (rule cloud_fetch_carries_no_credentials) (simp add: bearer_rides_with_sp)

end
