(* ===== verification/ControlDb.thy ===== *)
theory ControlDb
  imports MachineLife CloudFiles Capability WebAuthn
begin

text \<open>
  The state of the control plane (services/control/src/db/schema.ts and the parts of
  \<open>createApp\<close> that live in memory).  A table is the list of its rows in the order of their
  insertion, a timestamp epoch milliseconds, an id a string; ids, random bytes and the clock are
  arguments of the operations.  A query that throws, as an insert does that breaks a unique column,
  makes the framework answer 500: \<open>Fault\<close>.  Column defaults are written out where a row is made.
\<close>

section \<open>Rows\<close>

datatype ComputeMode = CloudMode | LocalMode

record user_row =
  us_id :: string
  us_email :: string
  us_displayName :: "string option"
  us_homeRegion :: string
  us_features :: "string list"
  us_computeMode :: ComputeMode
  us_homeDeviceId :: "string option"
  us_createdAt :: nat

record invite_row =
  iv_code :: string
  iv_email :: "string option"
  iv_note :: "string option"
  iv_createdAt :: nat
  iv_redeemedByUserId :: "string option"
  iv_redeemedAt :: "nat option"

record enrollment_row =
  en_codeHash :: string
  en_userId :: string
  en_createdAt :: nat
  en_expiresAt :: nat
  en_redeemedAt :: "nat option"
  en_wrapSalt :: "string option"
  en_wrappers :: "(string \<times> string) list option"

record passkey_row =
  pk_id :: string
  pk_userId :: string
  pk_publicKey :: string
  pk_prfCapable :: bool
  pk_signCount :: nat
  pk_label :: "string option"
  pk_createdAt :: nat
  pk_lastUsedAt :: "nat option"

record device_row =
  dv_id :: string
  dv_userId :: string
  dv_name :: string
  dv_platform :: string
  dv_devicePublicKey :: string
  dv_enrolledAt :: nat
  dv_revokedAt :: "nat option"
  dv_revocationReason :: "string option"
  dv_lastSeenAt :: "nat option"

record space_row =
  cs_id :: string
  cs_userId :: string
  cs_name :: string
  cs_color :: string
  cs_position :: int
  cs_egressPolicy :: EgressPolicy
  cs_createdAt :: nat

datatype WrapperKind = PasskeyPrf | RecoveryCode | HardwareKey | KmsKey | EnrollmentCode

record wrapper_row =
  kw_id :: string
  kw_userId :: string
  kw_spaceId :: string
  kw_kind :: WrapperKind
  kw_credentialId :: string
  kw_salt :: string
  kw_wrapped :: string
  kw_createdAt :: nat

record machine_row =
  mc_id :: string
  mc_userId :: string
  mc_state :: MachineState
  mc_region :: string
  mc_cpuKind :: string
  mc_cpus :: nat
  mc_memoryMb :: nat
  mc_agentAddress :: "string option"
  mc_updatedAt :: nat
  mc_lastTransitionAt :: nat

record machine_event_row =
  me_id :: string
  me_machineId :: string
  me_fromState :: MachineState
  me_toState :: MachineState
  me_reconstructed :: bool
  me_detail :: "string option"
  me_createdAt :: nat

datatype UsageSource = AgentSource | GatewaySource

record usage_row =
  ug_id :: string
  ug_userId :: string
  ug_machineId :: string
  ug_periodStart :: nat
  ug_awakeMs :: nat
  ug_proxiedBytes :: nat
  ug_storageGb :: nat
  ug_source :: UsageSource
  ug_createdAt :: nat

record outbox_row =
  ob_id :: string
  ob_userId :: string
  ob_deviceId :: string
  ob_createdAt :: nat
  ob_deliveredAt :: "nat option"
  ob_attempts :: nat

record file_row =
  fl_id :: string
  fl_userId :: string
  fl_path :: string
  fl_sizeBytes :: nat
  fl_fileHash :: string
  fl_contentType :: "string option"
  fl_completedAt :: "nat option"
  fl_createdAt :: nat
  fl_updatedAt :: nat

record file_chunk_row =
  fc_fileId :: string
  fc_idx :: nat
  fc_hash :: string
  fc_offset :: nat
  fc_length :: nat

record chunk_row =
  ch_userId :: string
  ch_hash :: string
  ch_sizeBytes :: nat
  ch_refCount :: nat
  ch_storedAt :: "nat option"
  ch_createdAt :: nat

record transfer_row =
  tr_id :: string
  tr_userId :: string
  tr_url :: string
  tr_destPath :: string
  tr_state :: TransferState
  tr_receivedBytes :: nat
  tr_totalBytes :: nat
  tr_originDeviceId :: "string option"
  tr_error :: "string option"
  tr_startedAt :: nat
  tr_updatedAt :: nat

record audit_row =
  ae_userId :: string
  ae_actorDeviceId :: "string option"
  ae_type :: string
  ae_payload :: "(string \<times> json) list"
  ae_createdAt :: nat

section \<open>The state\<close>

text \<open>Calls to the provider of machines, in order.\<close>

datatype sandbox_call = SbProvision string string | SbSuspend string | SbResume string | SbColdBoot string
  | SbUpdateSpec string nat

record control =
  db_users :: "user_row list"
  db_invites :: "invite_row list"
  db_enrollmentCodes :: "enrollment_row list"
  db_passkeys :: "passkey_row list"
  db_devices :: "device_row list"
  db_spaces :: "space_row list"
  db_keyWrappers :: "wrapper_row list"
  db_machines :: "machine_row list"
  db_machineEvents :: "machine_event_row list"
  db_machineActivity :: "(string, machine_activity) js_map"
  db_usageSamples :: "usage_row list"
  db_revocationOutbox :: "outbox_row list"
  db_files :: "file_row list"
  db_fileChunks :: "file_chunk_row list"
  db_chunks :: "chunk_row list"
  db_transfers :: "transfer_row list"
  db_auditEvents :: "audit_row list"
  ct_challenges :: ChallengeStore
  ct_sandbox :: "sandbox_call list"
  ct_hubCalls :: "(string \<times> string) list"
  ct_objects :: "(string, nat) js_map"

definition empty_control :: control where
  "empty_control =
     \<lparr>db_users = [], db_invites = [], db_enrollmentCodes = [], db_passkeys = [], db_devices = [], db_spaces = [],
      db_keyWrappers = [], db_machines = [], db_machineEvents = [], db_machineActivity = [], db_usageSamples = [],
      db_revocationOutbox = [], db_files = [], db_fileChunks = [], db_chunks = [], db_transfers = [],
      db_auditEvents = [], ct_challenges = [], ct_sandbox = [], ct_hubCalls = [], ct_objects = []\<rparr>"

text \<open>
  What the app is created with: keys, cryptography, the environment, the URL parser, the text of
  dates, the presigned addresses of the object store (method, key, lifetime, length), and the answers
  of the session hub to the calls made of it, by the number of the call: acknowledged, no hub
  configured, or an exception.
\<close>

record 'k control_env =
  cn_tokens :: "'k token_crypto"
  cn_verifyKey :: 'k
  cn_sign :: "byte list \<Rightarrow> byte list"
  cn_envProvided :: bool
  cn_claimsText :: "DeviceTokenClaims \<Rightarrow> string \<Rightarrow> string"
  cn_capsText :: "CapabilityClaims \<Rightarrow> string"
  cn_webauthn :: "'k webauthn_env"
  cn_rp :: RpConfig
  cn_sha256Hex :: "string \<Rightarrow> string"
  cn_invitesRequired :: bool
  cn_adminToken :: "string option"
  cn_gatewayToken :: "string option"
  cn_parseUrl :: "string \<Rightarrow> fetch_url option"
  cn_isoDate :: "nat \<Rightarrow> string"
  cn_hub :: "nat \<Rightarrow> bool js_result"
  cn_presign :: "string \<Rightarrow> string \<Rightarrow> nat \<Rightarrow> nat option \<Rightarrow> string"

text \<open>What the authentication middleware puts into the context of a request, and the clock.\<close>

record caller =
  ca_userId :: string
  ca_deviceId :: "string option"
  ca_now :: nat

datatype 'b reply = Refused nat string "(string \<times> string) list" | Fault | Replied nat 'b

fun succeeds :: "'b reply \<Rightarrow> bool" where
  "succeeds (Replied _ _) = True"
| "succeeds _ = False"

section \<open>Queries\<close>

definition update_rows :: "('r \<Rightarrow> bool) \<Rightarrow> ('r \<Rightarrow> 'r) \<Rightarrow> 'r list \<Rightarrow> 'r list" where
  "update_rows P f rows = map (\<lambda>r. if P r then f r else r) rows"

lemma update_rows_len [simp]: "length (update_rows P f rows) = length rows"
  by (simp add: update_rows_def)

lemma update_rows_mem:
  "r \<in> set (update_rows P f rows) \<longleftrightarrow> (\<exists>r0 \<in> set rows. r = (if P r0 then f r0 else r0))"
  by (auto simp: update_rows_def)

lemma update_rows_map: "(\<And>r. g (f r) = g r) \<Longrightarrow> map g (update_rows P f rows) = map g rows"
  by (induction rows) (auto simp: update_rows_def)

text \<open>\<open>SELECT ... WHERE id = ...\<close>: the first of the rows there are.\<close>

abbreviation row_with :: "('r \<Rightarrow> bool) \<Rightarrow> 'r list \<Rightarrow> 'r option" where
  "row_with P rows \<equiv> find P rows"

lemma row_withD: "row_with P rows = Some r \<Longrightarrow> r \<in> set rows \<and> P r"
  by (auto simp: find_Some_iff)

lemma row_with_None: "row_with P rows = None \<longleftrightarrow> (\<forall>r \<in> set rows. \<not> P r)"
  by (auto simp: find_None_iff)

definition user_of :: "control \<Rightarrow> string \<Rightarrow> user_row option" where
  "user_of s uid = row_with (\<lambda>u. us_id u = uid) (db_users s)"

definition device_of :: "control \<Rightarrow> string \<Rightarrow> device_row option" where
  "device_of s did = row_with (\<lambda>d. dv_id d = did) (db_devices s)"

definition machine_for :: "control \<Rightarrow> string \<Rightarrow> machine_row option" where
  "machine_for s uid = row_with (\<lambda>m. mc_userId m = uid) (db_machines s)"

definition activity_of :: "control \<Rightarrow> string \<Rightarrow> machine_activity option" where
  "activity_of s mid = js_get (db_machineActivity s) mid"

definition ownedSpace :: "control \<Rightarrow> string \<Rightarrow> string \<Rightarrow> space_row option" where
  "ownedSpace s userId spaceId = row_with (\<lambda>p. cs_id p = spaceId \<and> cs_userId p = userId) (db_spaces s)"

definition audit ::
  "nat \<Rightarrow> string \<Rightarrow> string \<Rightarrow> (string \<times> json) list \<Rightarrow> string option \<Rightarrow> control \<Rightarrow> control" where
  "audit now userId typ payload actor s =
     s\<lparr>db_auditEvents := db_auditEvents s @
         [\<lparr>ae_userId = userId, ae_actorDeviceId = actor, ae_type = typ, ae_payload = payload, ae_createdAt = now\<rparr>]\<rparr>"

definition DAY_MS :: nat where "DAY_MS = 86400000"

definition MAX_CLOCK_SKEW_MS :: nat where "MAX_CLOCK_SKEW_MS = 300000"

definition isFutureDated :: "nat \<Rightarrow> nat \<Rightarrow> bool" where
  "isFutureDated epochMs nowMs \<longleftrightarrow> epochMs > nowMs + MAX_CLOCK_SKEW_MS"

end
