(* ===== verification/ControlAuth.thy ===== *)
theory ControlAuth
  imports ControlDb
begin

text \<open>
  Authentication in the control plane: bearer tokens (services/control/src/auth.ts), the secret of
  the egress gateway (gateway.ts), and the routes under \<open>/v1/auth\<close> of app.ts: challenges, proofs of
  possession of a device key, token refresh and passkeys.  A route takes the validated body of the
  request and gives the reply and the new state.
\<close>

section \<open>Bearer tokens\<close>

definition HUB_TOKEN_PREFIX :: string where "HUB_TOKEN_PREFIX = ''hbr_dev_''"

text \<open>\<open>UUID_RE\<close>, which ignores case.\<close>

definition uuid_shaped :: "string \<Rightarrow> bool" where
  "uuid_shaped s \<longleftrightarrow>
     (case js_split (CHR ''-'') s of
        [a, b, c, d, e] \<Rightarrow>
          map length [a, b, c, d, e] = [8, 4, 4, 4, 12] \<and>
          list_all (list_all (\<lambda>x. hex_value x \<noteq> None)) [a, b, c, d, e]
      | _ \<Rightarrow> False)"

definition hubTokenFor :: "string \<Rightarrow> string option \<Rightarrow> string" where
  "hubTokenFor userId dev =
     (case dev of None \<Rightarrow> HUB_TOKEN_PREFIX @ userId | Some d \<Rightarrow> HUB_TOKEN_PREFIX @ userId @ ''.'' @ d)"

definition bearer_of :: "string option \<Rightarrow> string option" where
  "bearer_of header =
     (case header of
        None \<Rightarrow> None
      | Some h \<Rightarrow> if prefix ''Bearer '' h then Some (drop (length ''Bearer '') h) else None)"

definition parseHubToken :: "string option \<Rightarrow> (string \<times> string option) option" where
  "parseHubToken header =
     (case bearer_of header of
        None \<Rightarrow> None
      | Some token \<Rightarrow>
          if \<not> prefix HUB_TOKEN_PREFIX token then None
          else
            (let rest = drop (length HUB_TOKEN_PREFIX) token;
                 dot = js_index_of rest (CHR ''.'') 0;
                 userId = (if dot = -1 then rest else take (nat dot) rest);
                 dev = (if dot = -1 then None else Some (drop (nat dot + 1) rest))
             in if \<not> uuid_shaped userId then None
                else if (case dev of None \<Rightarrow> False | Some d \<Rightarrow> \<not> uuid_shaped d) then None
                else Some (userId, dev)))"

record AuthenticatedDevice =
  ad_userId :: string
  ad_deviceId :: "string option"

text \<open>A device of this user that has not been revoked.\<close>

definition active_device :: "control \<Rightarrow> string \<Rightarrow> string \<Rightarrow> bool" where
  "active_device s userId dev \<longleftrightarrow>
     (case device_of s dev of None \<Rightarrow> False | Some d \<Rightarrow> dv_userId d = userId \<and> dv_revokedAt d = None)"

definition authenticate_jws ::
  "'k control_env \<Rightarrow> control \<Rightarrow> nat \<Rightarrow> string \<Rightarrow> AuthenticatedDevice option js_result" where
  "authenticate_jws cn s now token =
     (case verifyDeviceToken (cn_tokens cn) (cn_verifyKey cn) token (now div 1000) 30 of
        Inl e \<Rightarrow> Inl e
      | Inr (Inl _) \<Rightarrow> Inr None
      | Inr (Inr claims) \<Rightarrow>
          if \<not> uuid_shaped (dc_sub claims) \<or> \<not> uuid_shaped (dc_did claims) then Inr None
          else
            (case user_of s (dc_sub claims) of
               None \<Rightarrow> Inr None
             | Some user \<Rightarrow>
                 if dc_did claims = dc_sub claims then Inr (Some \<lparr>ad_userId = us_id user, ad_deviceId = None\<rparr>)
                 else if active_device s (us_id user) (dc_did claims)
                 then Inr (Some \<lparr>ad_userId = us_id user, ad_deviceId = Some (dc_did claims)\<rparr>)
                 else Inr None))"

definition authenticate_stub ::
  "'k control_env \<Rightarrow> control \<Rightarrow> string \<Rightarrow> AuthenticatedDevice option" where
  "authenticate_stub cn s token =
     (case parseHubToken (Some (''Bearer '' @ token)) of
        None \<Rightarrow> None
      | Some (userId, dev) \<Rightarrow>
          if cn_envProvided cn then None
          else
            (case user_of s userId of
               None \<Rightarrow> None
             | Some user \<Rightarrow>
                 (case dev of
                    None \<Rightarrow> Some \<lparr>ad_userId = us_id user, ad_deviceId = None\<rparr>
                  | Some d \<Rightarrow>
                      if active_device s (us_id user) d then Some \<lparr>ad_userId = us_id user, ad_deviceId = Some d\<rparr>
                      else None)))"

definition authenticateToken ::
  "'k control_env \<Rightarrow> control \<Rightarrow> nat \<Rightarrow> string option \<Rightarrow> AuthenticatedDevice option js_result" where
  "authenticateToken cn s now token =
     (case token of
        None \<Rightarrow> Inr None
      | Some t \<Rightarrow>
          if length (js_split (CHR ''.'') t) = 3 then authenticate_jws cn s now t
          else Inr (authenticate_stub cn s t))"

text \<open>The caller of a request that carries a good token; \<open>Inl None\<close> a 401, \<open>Inl (Some e)\<close> an exception.\<close>

definition bearerAuth ::
  "'k control_env \<Rightarrow> control \<Rightarrow> nat \<Rightarrow> string option \<Rightarrow> js_error option + caller" where
  "bearerAuth cn s now header =
     (case authenticateToken cn s now (bearer_of header) of
        Inl e \<Rightarrow> Inl (Some e)
      | Inr None \<Rightarrow> Inl None
      | Inr (Some i) \<Rightarrow> Inr \<lparr>ca_userId = ad_userId i, ca_deviceId = ad_deviceId i, ca_now = now\<rparr>)"

definition secretEquals :: "string \<Rightarrow> string \<Rightarrow> bool" where
  "secretEquals a b \<longleftrightarrow>
     length (utf8 a) = length (utf8 b) \<and>
     foldl (\<lambda>diff (x, y). diff OR (x XOR y)) 0 (zip (utf8 a) (utf8 b)) = 0"

text \<open>What the gateway's middleware refuses, if anything.\<close>

definition bearerGateway :: "'k control_env \<Rightarrow> string option \<Rightarrow> (nat \<times> string) option" where
  "bearerGateway cn header =
     (case (case cn_gatewayToken cn of Some '''' \<Rightarrow> None | t \<Rightarrow> t) of
        None \<Rightarrow> Some (503, ''unavailable'')
      | Some secret \<Rightarrow>
          (case (case bearer_of header of Some '''' \<Rightarrow> None | t \<Rightarrow> t) of
             None \<Rightarrow> Some (401, ''unauthorized'')
           | Some token \<Rightarrow> if secretEquals token secret then None else Some (401, ''unauthorized'')))"

section \<open>Tokens and proofs\<close>

record token_body =
  tb_deviceToken :: string
  tb_exp :: nat
  tb_credentialKind :: "string option"

definition mintDeviceToken ::
  "'k control_env \<Rightarrow> string \<Rightarrow> string \<Rightarrow> string \<Rightarrow> nat \<Rightarrow> token_body" where
  "mintDeviceToken cn userId dev jti now =
     (let iat = now div 1000; exp = iat + DEVICE_TOKEN_TTL_SECONDS;
          claims = \<lparr>dc_sub = userId, dc_did = dev, dc_iat = int iat, dc_exp = int exp\<rparr>
      in \<lparr>tb_deviceToken = signDeviceToken (cn_sign cn) (cn_claimsText cn claims jti), tb_exp = exp,
          tb_credentialKind = None\<rparr>)"

definition activeDevice :: "control \<Rightarrow> string \<Rightarrow> string \<Rightarrow> device_row option" where
  "activeDevice s userId dev =
     row_with (\<lambda>d. dv_id d = dev \<and> dv_userId d = userId \<and> dv_revokedAt d = None) (db_devices s)"

abbreviation deviceChallengeKey :: "string \<Rightarrow> string" where "deviceChallengeKey d \<equiv> ''device:'' @ d"
abbreviation webauthnRegisterKey :: "string \<Rightarrow> string" where "webauthnRegisterKey u \<equiv> ''webauthn-register:'' @ u"
abbreviation webauthnLoginKey :: "string \<Rightarrow> string" where "webauthnLoginKey u \<equiv> ''webauthn-login:'' @ u"

definition issue_challenge :: "byte list \<Rightarrow> string \<Rightarrow> nat \<Rightarrow> control \<Rightarrow> string \<times> control" where
  "issue_challenge random key now s =
     (let (c, m) = challenge_issue random key now (ct_challenges s) in (c, s\<lparr>ct_challenges := m\<rparr>))"

definition take_challenge :: "string \<Rightarrow> nat \<Rightarrow> control \<Rightarrow> string option \<times> control" where
  "take_challenge key now s =
     (let (c, m) = challenge_take key now (ct_challenges s) in (c, s\<lparr>ct_challenges := m\<rparr>))"

datatype proof_result = ProofThrows | ProofFailed string | ProofOk device_row

definition signature_valid :: "'k control_env \<Rightarrow> device_row \<Rightarrow> string \<Rightarrow> string \<Rightarrow> bool js_result" where
  "signature_valid cn device challenge signatureB64 =
     and_then (fromBase64 (dv_devicePublicKey device)) (\<lambda>raw.
     and_then (tc_import (cn_tokens cn) raw) (\<lambda>key.
     and_then (fromBase64 signatureB64) (\<lambda>sig.
       tc_verify (cn_tokens cn) key sig (deviceLoginSigningBytes (dv_id device) challenge))))"

definition verifyDeviceProof ::
  "'k control_env \<Rightarrow> nat \<Rightarrow> string \<Rightarrow> string \<Rightarrow> control \<Rightarrow> proof_result \<times> control" where
  "verifyDeviceProof cn now dev signatureB64 s =
     (let (challenge, s1) = take_challenge (deviceChallengeKey dev) now s
      in ((case challenge of
             None \<Rightarrow> ProofFailed ''challenge_expired''
           | Some c \<Rightarrow>
               if c = '''' then ProofFailed ''challenge_expired''
               else
                 (case device_of s1 dev of
                    None \<Rightarrow> ProofFailed ''unknown_device''
                  | Some device \<Rightarrow>
                      if dv_revokedAt device \<noteq> None then ProofFailed ''device_revoked''
                      else
                        (case signature_valid cn device c signatureB64 of
                           Inl _ \<Rightarrow> ProofThrows
                         | Inr False \<Rightarrow> ProofFailed ''bad_signature''
                         | Inr True \<Rightarrow> ProofOk device))),
          s1))"

definition unauthorized :: "string \<Rightarrow> 'b reply" where
  "unauthorized reason = Refused 401 ''unauthorized'' [(''reason'', reason)]"

section \<open>Device login\<close>

definition device_challenge :: "byte list \<Rightarrow> nat \<Rightarrow> string \<Rightarrow> control \<Rightarrow> string reply \<times> control" where
  "device_challenge random now dev s =
     (let (c, s1) = issue_challenge random (deviceChallengeKey dev) now s in (Replied 200 c, s1))"

definition device_credential ::
  "'k control_env \<Rightarrow> nat \<Rightarrow> string \<Rightarrow> string \<Rightarrow> string \<Rightarrow> string \<Rightarrow> control \<Rightarrow> token_body reply \<times> control" where
  "device_credential cn now jti dev devicePublicKey signature s =
     (case verifyDeviceProof cn now dev signature s of
        (ProofThrows, s1) \<Rightarrow> (Fault, s1)
      | (ProofFailed reason, s1) \<Rightarrow> (unauthorized reason, s1)
      | (ProofOk device, s1) \<Rightarrow>
          if dv_devicePublicKey device \<noteq> devicePublicKey then (unauthorized ''key_mismatch'', s1)
          else
            (Replied 201 ((mintDeviceToken cn (dv_userId device) (dv_id device) jti now)
               \<lparr>tb_credentialKind := Some ''device-key''\<rparr>),
             audit now (dv_userId device) ''auth.device_credential_registered''
               [(''deviceId'', JStr (dv_id device))] (Some (dv_id device)) s1))"

definition device_login ::
  "'k control_env \<Rightarrow> nat \<Rightarrow> string \<Rightarrow> string \<Rightarrow> string \<Rightarrow> control \<Rightarrow> token_body reply \<times> control" where
  "device_login cn now jti dev signature s =
     (case verifyDeviceProof cn now dev signature s of
        (ProofThrows, s1) \<Rightarrow> (Fault, s1)
      | (ProofFailed reason, s1) \<Rightarrow> (unauthorized reason, s1)
      | (ProofOk device, s1) \<Rightarrow>
          (Replied 200 ((mintDeviceToken cn (dv_userId device) (dv_id device) jti now)
             \<lparr>tb_credentialKind := Some ''device-key''\<rparr>), s1))"

text \<open>The refresh of a token that is presented as a bearer.\<close>

definition refresh_bearer ::
  "'k control_env \<Rightarrow> nat \<Rightarrow> string \<Rightarrow> string \<Rightarrow> control \<Rightarrow> token_body reply" where
  "refresh_bearer cn now jti bearer s =
     (case verifyDeviceToken (cn_tokens cn) (cn_verifyKey cn) bearer (now div 1000) 30 of
        Inl e \<Rightarrow> Fault
      | Inr (Inl f) \<Rightarrow> unauthorized (failure_text f)
      | Inr (Inr claims) \<Rightarrow>
          if dc_did claims = dc_sub claims then
            (if user_of s (dc_sub claims) = None then unauthorized ''unknown_user''
             else if list_ex (\<lambda>d. dv_userId d = dc_sub claims \<and> dv_revokedAt d = None) (db_devices s)
             then unauthorized ''bootstrap_consumed''
             else Replied 200 (mintDeviceToken cn (dc_sub claims) (dc_sub claims) jti now))
          else if activeDevice s (dc_sub claims) (dc_did claims) = None then unauthorized ''device_not_active''
          else Replied 200 (mintDeviceToken cn (dc_sub claims) (dc_did claims) jti now))"

definition refresh_proof ::
  "'k control_env \<Rightarrow> nat \<Rightarrow> string \<Rightarrow> (string \<times> string) option \<Rightarrow> control \<Rightarrow> token_body reply \<times> control" where
  "refresh_proof cn now jti body s =
     (case body of
        None \<Rightarrow> (unauthorized ''missing_credentials'', s)
      | Some (dev, signature) \<Rightarrow>
          (case verifyDeviceProof cn now dev signature s of
             (ProofThrows, s1) \<Rightarrow> (Fault, s1)
           | (ProofFailed reason, s1) \<Rightarrow> (unauthorized reason, s1)
           | (ProofOk device, s1) \<Rightarrow>
               (Replied 200 (mintDeviceToken cn (dv_userId device) (dv_id device) jti now), s1)))"

text \<open>\<open>body\<close>: the body of the request where it has the shape of a device login.\<close>

definition token_refresh ::
  "'k control_env \<Rightarrow> nat \<Rightarrow> string \<Rightarrow> string option \<Rightarrow> (string \<times> string) option \<Rightarrow> control \<Rightarrow>
   token_body reply \<times> control" where
  "token_refresh cn now jti header body s =
     (case bearer_of header of
        Some bearer \<Rightarrow>
          if length (js_split (CHR ''.'') bearer) = 3 then (refresh_bearer cn now jti bearer s, s)
          else refresh_proof cn now jti body s
      | None \<Rightarrow> refresh_proof cn now jti body s)"

section \<open>Passkeys\<close>

definition webauthn_register_begin ::
  "'k control_env \<Rightarrow> caller \<Rightarrow> byte list \<Rightarrow> control \<Rightarrow> RegistrationOptions reply \<times> control" where
  "webauthn_register_begin cn ca random s =
     (case user_of s (ca_userId ca) of
        None \<Rightarrow> (Refused 404 ''not_found'' [], s)
      | Some user \<Rightarrow>
          (let (c, s1) = issue_challenge random (webauthnRegisterKey (ca_userId ca)) (ca_now ca) s
           in (Replied 200 (beginRegistration (us_id user) (us_email user) (us_displayName user) (cn_rp cn) c), s1)))"

record register_body =
  rb_passkey :: passkey_row
  rb_token :: "token_body option"

fun client_data_text :: "ClientDataFailure \<Rightarrow> string" where
  "client_data_text BadClientData = ''bad_client_data''"
| "client_data_text WrongType = ''wrong_type''"
| "client_data_text ChallengeMismatch = ''challenge_mismatch''"
| "client_data_text OriginMismatch = ''origin_mismatch''"

fun registration_text :: "RegistrationFailure \<Rightarrow> string" where
  "registration_text (RegClientData f) = client_data_text f"
| "registration_text MalformedAttestation = ''malformed_attestation''"
| "registration_text RegRpIdMismatch = ''rp_id_mismatch''"
| "registration_text NoCredential = ''no_credential''"
| "registration_text CredentialIdMismatch = ''credential_id_mismatch''"
| "registration_text RegUnsupportedAlgorithm = ''unsupported_algorithm''"

fun assertion_text :: "AssertionFailure \<Rightarrow> string" where
  "assertion_text (AssClientData f) = client_data_text f"
| "assertion_text MalformedAssertion = ''malformed_assertion''"
| "assertion_text AssRpIdMismatch = ''rp_id_mismatch''"
| "assertion_text UserNotPresent = ''user_not_present''"
| "assertion_text SignCountRegression = ''sign_count_regression''"
| "assertion_text AssUnsupportedAlgorithm = ''unsupported_algorithm''"
| "assertion_text BadSignature = ''bad_signature''"

text \<open>The passkey is stored before the device the token would be bound to is looked up.\<close>

definition store_passkey ::
  "'k control_env \<Rightarrow> caller \<Rightarrow> string \<Rightarrow> string option \<Rightarrow> string option \<Rightarrow> Registration \<Rightarrow> control \<Rightarrow>
   register_body reply \<times> control" where
  "store_passkey cn ca jti dev label r s =
     (if row_with (\<lambda>p. pk_id p = rg_credentialId r) (db_passkeys s) \<noteq> None
      then (Refused 409 ''credential_exists'' [], s)
      else
        (let passkey = \<lparr>pk_id = rg_credentialId r, pk_userId = ca_userId ca, pk_publicKey = rg_publicKeyCose r,
                        pk_prfCapable = rg_prfCapable r, pk_signCount = rg_signCount r, pk_label = label,
                        pk_createdAt = ca_now ca, pk_lastUsedAt = None\<rparr>;
             s1 = audit (ca_now ca) (ca_userId ca) ''auth.passkey_registered''
                    [(''credentialId'', JStr (pk_id passkey)), (''prfCapable'', JBool (pk_prfCapable passkey))] None
                    (s\<lparr>db_passkeys := db_passkeys s @ [passkey]\<rparr>)
         in case dev of
              None \<Rightarrow> (Replied 201 \<lparr>rb_passkey = passkey, rb_token = None\<rparr>, s1)
            | Some d \<Rightarrow>
                (case activeDevice s1 (ca_userId ca) d of
                   None \<Rightarrow> (Refused 400 ''unknown_device'' [], s1)
                 | Some device \<Rightarrow>
                     (Replied 201 \<lparr>rb_passkey = passkey,
                        rb_token = Some (mintDeviceToken cn (ca_userId ca) (dv_id device) jti (ca_now ca))\<rparr>, s1))))"

definition webauthn_register_finish ::
  "'k control_env \<Rightarrow> caller \<Rightarrow> string \<Rightarrow> RegistrationCredential \<Rightarrow> string option \<Rightarrow> string option \<Rightarrow> control \<Rightarrow>
   register_body reply \<times> control" where
  "webauthn_register_finish cn ca jti credential dev label s =
     (let (challenge, s1) = take_challenge (webauthnRegisterKey (ca_userId ca)) (ca_now ca) s
      in case challenge of
           None \<Rightarrow> (Refused 400 ''challenge_expired'' [], s1)
         | Some c \<Rightarrow>
             if c = '''' then (Refused 400 ''challenge_expired'' [], s1)
             else
               (case finishRegistration (cn_webauthn cn) (cn_rp cn) c credential of
                  None \<Rightarrow> (Fault, s1)
                | Some (Inl f) \<Rightarrow> (Refused 400 ''registration_rejected'' [(''reason'', registration_text f)], s1)
                | Some (Inr r) \<Rightarrow> store_passkey cn ca jti dev label r s1))"

definition webauthn_login_begin ::
  "'k control_env \<Rightarrow> nat \<Rightarrow> byte list \<Rightarrow> string \<Rightarrow> control \<Rightarrow> LoginOptions reply \<times> control" where
  "webauthn_login_begin cn now random userId s =
     (let ids = map pk_id (filter (\<lambda>p. pk_userId p = userId) (db_passkeys s));
          (c, s1) = issue_challenge random (webauthnLoginKey userId) now s
      in (Replied 200 (beginLogin ids (cn_rp cn) c), s1))"

definition webauthn_login_finish ::
  "'k control_env \<Rightarrow> nat \<Rightarrow> string \<Rightarrow> string \<Rightarrow> string \<Rightarrow> AssertionCredential \<Rightarrow> control \<Rightarrow>
   token_body reply \<times> control" where
  "webauthn_login_finish cn now jti userId dev credential s =
     (let (challenge, s1) = take_challenge (webauthnLoginKey userId) now s
      in case challenge of
           None \<Rightarrow> (unauthorized ''challenge_expired'', s1)
         | Some c \<Rightarrow>
             if c = '''' then (unauthorized ''challenge_expired'', s1)
             else
               (case row_with (\<lambda>p. pk_id p = ac_id credential \<and> pk_userId p = userId) (db_passkeys s1) of
                  None \<Rightarrow> (unauthorized ''unknown_credential'', s1)
                | Some passkey \<Rightarrow>
                    (case finishLogin (cn_webauthn cn) (cn_rp cn) c (pk_publicKey passkey) (pk_signCount passkey) credential of
                       None \<Rightarrow> (Fault, s1)
                     | Some (Inl f) \<Rightarrow> (unauthorized (assertion_text f), s1)
                     | Some (Inr count) \<Rightarrow>
                         (case activeDevice s1 userId dev of
                            None \<Rightarrow> (unauthorized ''device_not_active'', s1)
                          | Some device \<Rightarrow>
                              (Replied 200 ((mintDeviceToken cn userId (dv_id device) jti now)
                                 \<lparr>tb_credentialKind := Some ''webauthn''\<rparr>),
                               s1\<lparr>db_passkeys := update_rows (\<lambda>p. pk_id p = pk_id passkey)
                                    (\<lambda>p. p\<lparr>pk_signCount := count, pk_lastUsedAt := Some now\<rparr>) (db_passkeys s1)\<rparr>)))))"

end
