(* ===== verification/ControlAccount.thy ===== *)
theory ControlAccount
  imports ControlAuth
begin

text \<open>
  Accounts in the control plane (services/control/src/app.ts): invites and their codes (invites.ts),
  sign-up behind them, and the account page.  The answer of the provider of machines is an argument.
\<close>

section \<open>Invites and sign-up\<close>

definition CODE_ALPHABET :: string where "CODE_ALPHABET = ''abcdefghjkmnpqrstuvwxyz23456789''"

definition CODE_LENGTH :: nat where "CODE_LENGTH = 12"

text \<open>One pass over a buffer of random bytes; then the loop over the buffers that are drawn.\<close>

fun code_chars :: "byte list \<Rightarrow> string \<Rightarrow> string" where
  "code_chars [] out = out"
| "code_chars (b # raw) out =
     (let limit = 256 - 256 mod length CODE_ALPHABET
      in code_chars raw
           (if unat b < limit \<and> length out < CODE_LENGTH
            then out @ [CODE_ALPHABET ! (unat b mod length CODE_ALPHABET)] else out))"

fun code_loop :: "byte list list \<Rightarrow> string \<Rightarrow> string option" where
  "code_loop draws out =
     (if \<not> length out < CODE_LENGTH then Some out
      else (case draws of [] \<Rightarrow> None | raw # rest \<Rightarrow> code_loop rest (code_chars raw out)))"

text \<open>\<open>None\<close>: the random bytes given do not suffice.\<close>

definition generateInviteCode :: "byte list list \<Rightarrow> string option" where
  "generateInviteCode draws = map_option (\<lambda>c. ''sm-inv-'' @ c) (code_loop draws '''')"

definition mint_invites ::
  "'k control_env \<Rightarrow> nat \<Rightarrow> string option \<Rightarrow> string list \<Rightarrow> string option \<Rightarrow> string option \<Rightarrow> control \<Rightarrow>
   (string \<times> string option) list reply \<times> control" where
  "mint_invites cn now header codes email note s =
     (case (case cn_adminToken cn of Some '''' \<Rightarrow> None | t \<Rightarrow> t) of
        None \<Rightarrow> (Refused 404 ''not_found'' [], s)
      | Some secret \<Rightarrow>
          if (case bearer_of header of None \<Rightarrow> True | Some t \<Rightarrow> \<not> secretEquals t secret)
          then (Refused 401 ''unauthorized'' [], s)
          else if \<not> distinct (codes @ map iv_code (db_invites s)) then (Fault, s)
          else
            (let bound = map_option js_lower email;
                 rows = map (\<lambda>c. \<lparr>iv_code = c, iv_email = bound, iv_note = note, iv_createdAt = now,
                                  iv_redeemedByUserId = None, iv_redeemedAt = None\<rparr>) codes
             in (Replied 201 (map (\<lambda>r. (iv_code r, iv_email r)) rows), s\<lparr>db_invites := db_invites s @ rows\<rparr>)))"

record signup_body =
  su_email :: string
  su_displayName :: "string option"
  su_homeRegion :: "string option"
  su_inviteCode :: "string option"
  su_computeMode :: "ComputeMode option"

record signup_ids =
  si_user :: string
  si_space :: string
  si_machine :: string
  si_jti :: string

record signup_reply =
  sr_user :: user_row
  sr_space :: space_row
  sr_machine :: "machine_row option"
  sr_bootstrap :: token_body

definition claimable :: "string \<Rightarrow> string \<Rightarrow> invite_row \<Rightarrow> bool" where
  "claimable code email r \<longleftrightarrow>
     iv_code r = code \<and> iv_redeemedAt r = None \<and> (iv_email r = None \<or> iv_email r = Some email)"

text \<open>The invite a sign-up claims: \<open>Inl\<close> a refusal, \<open>Inr None\<close> when none is asked for.\<close>

definition claim_invite ::
  "'k control_env \<Rightarrow> nat \<Rightarrow> string option \<Rightarrow> string \<Rightarrow> control \<Rightarrow> (string + string option) \<times> control" where
  "claim_invite cn now inviteCode email s =
     (if \<not> cn_invitesRequired cn then (Inr None, s)
      else
        (case inviteCode of
           None \<Rightarrow> (Inl ''invite_required'', s)
         | Some code \<Rightarrow>
             (case row_with (claimable code email) (db_invites s) of
                None \<Rightarrow> (Inl ''invite_invalid'', s)
              | Some r \<Rightarrow>
                  (Inr (Some (iv_code r)),
                   s\<lparr>db_invites := update_rows (claimable code email) (\<lambda>r. r\<lparr>iv_redeemedAt := Some now\<rparr>)
                       (db_invites s)\<rparr>))))"

definition DEFAULT_SPACE_NAME :: string where "DEFAULT_SPACE_NAME = ''Personal''"

definition DEFAULT_SPACE_COLOR :: string where "DEFAULT_SPACE_COLOR = ''#3B82F6''"

definition new_user :: "nat \<Rightarrow> string \<Rightarrow> string \<Rightarrow> signup_body \<Rightarrow> user_row" where
  "new_user now uid email body =
     \<lparr>us_id = uid, us_email = email, us_displayName = su_displayName body,
      us_homeRegion = (case su_homeRegion body of None \<Rightarrow> ''iad'' | Some r \<Rightarrow> r),
      us_features = DEFAULT_ACCOUNT_FEATURES,
      us_computeMode = (case su_computeMode body of None \<Rightarrow> CloudMode | Some m \<Rightarrow> m),
      us_homeDeviceId = None, us_createdAt = now\<rparr>"

definition record_redeemed :: "nat \<Rightarrow> string option \<Rightarrow> string \<Rightarrow> control \<Rightarrow> control" where
  "record_redeemed now claimed uid s =
     (case claimed of
        None \<Rightarrow> s
      | Some code \<Rightarrow>
          audit now uid ''invite.redeemed'' [(''code'', JStr code)] None
            (s\<lparr>db_invites := update_rows (\<lambda>r. iv_code r = code) (\<lambda>r. r\<lparr>iv_redeemedByUserId := Some uid\<rparr>)
                 (db_invites s)\<rparr>))"

definition new_space :: "nat \<Rightarrow> string \<Rightarrow> string \<Rightarrow> string \<Rightarrow> string \<Rightarrow> int \<Rightarrow> EgressPolicy \<Rightarrow> space_row" where
  "new_space now sid uid name color pos policy =
     \<lparr>cs_id = sid, cs_userId = uid, cs_name = name, cs_color = color, cs_position = pos,
      cs_egressPolicy = policy, cs_createdAt = now\<rparr>"

definition new_machine :: "nat \<Rightarrow> string \<Rightarrow> user_row \<Rightarrow> machine_row" where
  "new_machine now mid user =
     \<lparr>mc_id = mid, mc_userId = us_id user, mc_state = Provisioning, mc_region = us_homeRegion user,
      mc_cpuKind = ms_cpuKind DEFAULT_MACHINE_SPEC, mc_cpus = ms_cpus DEFAULT_MACHINE_SPEC,
      mc_memoryMb = ms_memoryMb DEFAULT_MACHINE_SPEC, mc_agentAddress = None, mc_updatedAt = now,
      mc_lastTransitionAt = now\<rparr>"

text \<open>
  A cloud account's machine: inserted, provisioned, and addressed where the provider says how.
  \<open>provision\<close> is the provider's answer; when it throws, what was stored stays.
\<close>

definition provision_machine ::
  "machine_row \<Rightarrow> string option js_result \<Rightarrow> control \<Rightarrow> machine_row js_result \<times> control" where
  "provision_machine m provision s =
     (let s1 = s\<lparr>db_machines := db_machines s @ [m],
                 ct_sandbox := ct_sandbox s @ [SbProvision (mc_userId m) (mc_id m)]\<rparr>
      in case provision of
           Inl e \<Rightarrow> (Inl e, s1)
         | Inr None \<Rightarrow> (Inr m, s1)
         | Inr (Some address) \<Rightarrow>
             (Inr (m\<lparr>mc_agentAddress := Some address\<rparr>),
              s1\<lparr>db_machines := update_rows (\<lambda>r. mc_id r = mc_id m) (\<lambda>r. r\<lparr>mc_agentAddress := Some address\<rparr>)
                   (db_machines s1)\<rparr>))"

fun mode_text :: "ComputeMode \<Rightarrow> string" where
  "mode_text CloudMode = ''cloud''"
| "mode_text LocalMode = ''local''"

definition signup_rest ::
  "'k control_env \<Rightarrow> nat \<Rightarrow> signup_ids \<Rightarrow> string option js_result \<Rightarrow> user_row \<Rightarrow> control \<Rightarrow>
   signup_reply reply \<times> control" where
  "signup_rest cn now ids provision user s =
     (let space = new_space now (si_space ids) (us_id user) DEFAULT_SPACE_NAME DEFAULT_SPACE_COLOR 0 Direct;
          s1 = s\<lparr>db_spaces := db_spaces s @ [space]\<rparr>;
          (made, s2) = (if us_computeMode user = CloudMode
                        then map_prod (map_sum id Some) id
                               (provision_machine (new_machine now (si_machine ids) user) provision s1)
                        else (Inr None, s1))
      in case made of
           Inl e \<Rightarrow> (Fault, s2)
         | Inr machine \<Rightarrow>
             (Replied 201 \<lparr>sr_user = user, sr_space = space, sr_machine = machine,
                sr_bootstrap = mintDeviceToken cn (us_id user) (us_id user) (si_jti ids) now\<rparr>,
              audit now (us_id user) ''account.created''
                [(''email'', JStr (us_email user)), (''computeMode'', JStr (mode_text (us_computeMode user)))] None s2))"

definition signup ::
  "'k control_env \<Rightarrow> nat \<Rightarrow> signup_ids \<Rightarrow> string option js_result \<Rightarrow> signup_body \<Rightarrow> control \<Rightarrow>
   signup_reply reply \<times> control" where
  "signup cn now ids provision body s =
     (let email = js_lower (su_email body)
      in if row_with (\<lambda>u. us_email u = email) (db_users s) \<noteq> None then (Refused 409 ''email_taken'' [], s)
         else
           (case claim_invite cn now (su_inviteCode body) email s of
              (Inl e, s1) \<Rightarrow> (Refused 403 e [], s1)
            | (Inr claimed, s1) \<Rightarrow>
                (let user = new_user now (si_user ids) email body;
                     s2 = record_redeemed now claimed (us_id user) (s1\<lparr>db_users := db_users s1 @ [user]\<rparr>)
                 in signup_rest cn now ids provision user s2)))"

record me_body =
  mb_user :: user_row
  mb_spaces :: "space_row list"
  mb_machine :: "machine_row option"
  mb_deviceCount :: nat

definition spaces_of :: "control \<Rightarrow> string \<Rightarrow> space_row list" where
  "spaces_of s uid = sort_key cs_position (filter (\<lambda>p. cs_userId p = uid) (db_spaces s))"

definition get_me :: "caller \<Rightarrow> control \<Rightarrow> me_body reply" where
  "get_me ca s =
     (case user_of s (ca_userId ca) of
        None \<Rightarrow> Refused 404 ''not_found'' []
      | Some user \<Rightarrow>
          Replied 200 \<lparr>mb_user = user, mb_spaces = spaces_of s (ca_userId ca),
            mb_machine = machine_for s (ca_userId ca),
            mb_deviceCount =
              length (filter (\<lambda>d. dv_userId d = ca_userId ca \<and> dv_revokedAt d = None) (db_devices s))\<rparr>)"

end
