(* ===== verification/ControlDevices.thy ===== *)
theory ControlDevices
  imports ControlAccount "HOL-Library.List_Lexorder" "HOL-Library.Char_ord"
begin

text \<open>
  Devices in the control plane (services/control/src/app.ts): enrollment codes, enrollment, renaming,
  and revocation, whose news to the session hub goes through the outbox (outbox.ts) until it is
  delivered; what a revocation cannot reach (revocation.ts).
\<close>

section \<open>Enrollment codes\<close>

definition ENROLLMENT_CODE_TTL_MS :: nat where "ENROLLMENT_CODE_TTL_MS = 600000"

abbreviation hashEnrollmentCode :: "'k control_env \<Rightarrow> string \<Rightarrow> string" where
  "hashEnrollmentCode cn code \<equiv> cn_sha256Hex cn code"

text \<open>The hash is the primary key of the table: a second row under it is an exception.\<close>

definition mint_enrollment_code ::
  "'k control_env \<Rightarrow> caller \<Rightarrow> string \<Rightarrow> string option \<Rightarrow> (string \<times> string) list option \<Rightarrow> control \<Rightarrow>
   nat reply \<times> control" where
  "mint_enrollment_code cn ca codeHash wrapSalt wrappers s =
     (let expiresAt = ca_now ca + ENROLLMENT_CODE_TTL_MS
      in if codeHash \<in> set (map en_codeHash (db_enrollmentCodes s)) then (Fault, s)
         else
           (Replied 201 expiresAt,
            audit (ca_now ca) (ca_userId ca) ''device.enrollment_code_minted''
              [(''expiresAt'', JStr (cn_isoDate cn expiresAt)),
               (''wrappedSecrets'', JInt (case wrappers of None \<Rightarrow> 0 | Some w \<Rightarrow> int (length w)))]
              (ca_deviceId ca)
              (s\<lparr>db_enrollmentCodes := db_enrollmentCodes s @
                   [\<lparr>en_codeHash = codeHash, en_userId = ca_userId ca, en_createdAt = ca_now ca,
                     en_expiresAt = expiresAt, en_redeemedAt = None, en_wrapSalt = wrapSalt,
                     en_wrappers = wrappers\<rparr>]\<rparr>)))"

definition redeemable :: "string \<Rightarrow> nat \<Rightarrow> enrollment_row \<Rightarrow> bool" where
  "redeemable hash now r \<longleftrightarrow> en_codeHash r = hash \<and> en_redeemedAt r = None \<and> en_expiresAt r > now"

record redeem_body =
  rd_user :: user_row
  rd_bootstrap :: token_body
  rd_wrapped :: "(string \<times> (string \<times> string) list) option"

definition redeem_enrollment_code ::
  "'k control_env \<Rightarrow> nat \<Rightarrow> string \<Rightarrow> string \<Rightarrow> control \<Rightarrow> redeem_body reply \<times> control" where
  "redeem_enrollment_code cn now jti code s =
     (let hash = hashEnrollmentCode cn code
      in case row_with (redeemable hash now) (db_enrollmentCodes s) of
           None \<Rightarrow> (Refused 401 ''invalid_or_expired_code'' [], s)
         | Some claimed \<Rightarrow>
             (let s1 = s\<lparr>db_enrollmentCodes := update_rows (redeemable hash now)
                           (\<lambda>r. r\<lparr>en_redeemedAt := Some now\<rparr>) (db_enrollmentCodes s)\<rparr>
              in case user_of s1 (en_userId claimed) of
                   None \<Rightarrow> (Refused 401 ''invalid_or_expired_code'' [], s1)
                 | Some user \<Rightarrow>
                     (Replied 200 \<lparr>rd_user = user, rd_bootstrap = mintDeviceToken cn (us_id user) (us_id user) jti now,
                        rd_wrapped = (case (en_wrapSalt claimed, en_wrappers claimed) of
                                        (Some salt, Some w) \<Rightarrow> Some (salt, w) | _ \<Rightarrow> None)\<rparr>,
                      audit now (us_id user) ''device.enrollment_code_redeemed'' [] None
                        (s1\<lparr>db_enrollmentCodes := update_rows (\<lambda>r. en_codeHash r = en_codeHash claimed)
                              (\<lambda>r. r\<lparr>en_wrapSalt := None, en_wrappers := None\<rparr>) (db_enrollmentCodes s1)\<rparr>))))"

section \<open>Devices\<close>

record enroll_body =
  eb_name :: string
  eb_platform :: string
  eb_devicePublicKey :: string

record enrolled =
  er_device :: device_row
  er_hubToken :: string
  er_isHomeMachine :: bool

definition takes_home_seat :: "string \<Rightarrow> user_row \<Rightarrow> bool" where
  "takes_home_seat uid u \<longleftrightarrow> us_id u = uid \<and> us_computeMode u = LocalMode \<and> us_homeDeviceId u = None"

text \<open>The first device of a local account becomes its home machine.\<close>

definition claim_home :: "nat \<Rightarrow> string \<Rightarrow> string \<Rightarrow> control \<Rightarrow> bool \<times> control" where
  "claim_home now uid dev s =
     (if row_with (takes_home_seat uid) (db_users s) = None then (False, s)
      else
        (True, audit now uid ''device.homeMachine'' [(''deviceId'', JStr dev)] (Some dev)
           (s\<lparr>db_users := update_rows (takes_home_seat uid) (\<lambda>u. u\<lparr>us_homeDeviceId := Some dev\<rparr>) (db_users s)\<rparr>)))"

definition new_device :: "nat \<Rightarrow> string \<Rightarrow> string \<Rightarrow> enroll_body \<Rightarrow> device_row" where
  "new_device now dev uid body =
     \<lparr>dv_id = dev, dv_userId = uid, dv_name = eb_name body, dv_platform = eb_platform body,
      dv_devicePublicKey = eb_devicePublicKey body, dv_enrolledAt = now, dv_revokedAt = None,
      dv_revocationReason = None, dv_lastSeenAt = None\<rparr>"

definition enroll_device :: "caller \<Rightarrow> string \<Rightarrow> enroll_body \<Rightarrow> control \<Rightarrow> enrolled reply \<times> control" where
  "enroll_device ca dev body s =
     (case row_with (\<lambda>d. dv_devicePublicKey d = eb_devicePublicKey body) (db_devices s) of
        Some existing \<Rightarrow>
          (Refused 409 (if dv_revokedAt existing \<noteq> None then ''device_revoked'' else ''device_already_enrolled'') [], s)
      | None \<Rightarrow>
          (let device = new_device (ca_now ca) dev (ca_userId ca) body;
               (isHome, s1) = claim_home (ca_now ca) (ca_userId ca) dev
                                (s\<lparr>db_devices := db_devices s @ [device]\<rparr>)
           in (Replied 201 \<lparr>er_device = device, er_hubToken = hubTokenFor (ca_userId ca) (Some dev),
                 er_isHomeMachine = isHome\<rparr>,
               audit (ca_now ca) (ca_userId ca) ''device.enrolled''
                 [(''deviceId'', JStr dev), (''name'', JStr (dv_name device))] (Some dev) s1)))"

definition list_devices :: "caller \<Rightarrow> control \<Rightarrow> (device_row \<times> bool) list reply" where
  "list_devices ca s =
     Replied 200 (map (\<lambda>d. (d, dv_revokedAt d \<noteq> None))
       (sort_key dv_enrolledAt (filter (\<lambda>d. dv_userId d = ca_userId ca) (db_devices s))))"

definition rename_device :: "caller \<Rightarrow> string \<Rightarrow> string \<Rightarrow> control \<Rightarrow> device_row reply \<times> control" where
  "rename_device ca dev name s =
     (case activeDevice s (ca_userId ca) dev of
        None \<Rightarrow> (Refused 404 ''not_found'' [], s)
      | Some device \<Rightarrow>
          (Replied 200 (device\<lparr>dv_name := name\<rparr>),
           audit (ca_now ca) (ca_userId ca) ''device.renamed'' [(''deviceId'', JStr dev), (''name'', JStr name)] (Some dev)
             (s\<lparr>db_devices := update_rows
                  (\<lambda>d. dv_id d = dev \<and> dv_userId d = ca_userId ca \<and> dv_revokedAt d = None)
                  (\<lambda>d. d\<lparr>dv_name := name\<rparr>) (db_devices s)\<rparr>)))"

section \<open>Revocation\<close>

definition MAX_OUTBOX_ATTEMPTS :: nat where "MAX_OUTBOX_ATTEMPTS = 20"

text \<open>A call to the session hub, and its answer.\<close>

definition notify_hub :: "'k control_env \<Rightarrow> string \<Rightarrow> string \<Rightarrow> control \<Rightarrow> bool js_result \<times> control" where
  "notify_hub cn uid dev s =
     (cn_hub cn (length (ct_hubCalls s)), s\<lparr>ct_hubCalls := ct_hubCalls s @ [(uid, dev)]\<rparr>)"

definition flush_one :: "'k control_env \<Rightarrow> nat \<Rightarrow> outbox_row \<Rightarrow> nat \<times> nat \<times> control \<Rightarrow> nat \<times> nat \<times> control" where
  "flush_one cn now row = (\<lambda>(delivered, pending, s).
     if ob_attempts row \<ge> MAX_OUTBOX_ATTEMPTS then (delivered, pending, s)
     else
       (let (ok, s1) = notify_hub cn (ob_userId row) (ob_deviceId row) s;
            set = (\<lambda>f. s1\<lparr>db_revocationOutbox :=
                     update_rows (\<lambda>r. ob_id r = ob_id row) f (db_revocationOutbox s1)\<rparr>)
        in case ok of
             Inr True \<Rightarrow> (delivered + 1, pending, set (\<lambda>r. r\<lparr>ob_deliveredAt := Some now\<rparr>))
           | Inr False \<Rightarrow> (delivered, pending + 1, s1)
           | Inl _ \<Rightarrow> (delivered, pending + 1, set (\<lambda>r. r\<lparr>ob_attempts := ob_attempts row + 1\<rparr>))))"

definition flushRevocationOutbox :: "'k control_env \<Rightarrow> nat \<Rightarrow> control \<Rightarrow> nat \<times> nat \<times> control" where
  "flushRevocationOutbox cn now s =
     fold (flush_one cn now) (filter (\<lambda>r. ob_deliveredAt r = None) (db_revocationOutbox s)) (0, 0, s)"

definition REMOTE_LOGOUT_URLS :: "(string \<times> string) list" where
  "REMOTE_LOGOUT_URLS =
     [(''github.com'', ''https://github.com/settings/sessions''),
      (''google.com'', ''https://myaccount.google.com/device-activity''),
      (''slack.com'', ''https://my.slack.com/account/settings#sessions'')]"

record AffectedOrigin =
  ao_domain :: string
  ao_label :: string
  ao_remoteLogoutUrl :: "string option"

definition affectedOriginsOnRevoke :: "AffectedOrigin list" where
  "affectedOriginsOnRevoke =
     map (\<lambda>o'. \<lparr>ao_domain = op_domain o', ao_label = op_label o',
                ao_remoteLogoutUrl = map_of REMOTE_LOGOUT_URLS (op_domain o')\<rparr>)
       (filter (\<lambda>o'. op_syncTier o' = 1) SEED_CORPUS)"

record revoke_body =
  rv_device :: device_row
  rv_affectedOrigins :: "AffectedOrigin list"
  rv_hubNotified :: bool

text \<open>The news of a revocation: to the hub now, or else into the outbox; then the backlog is drained.\<close>

definition spread_revocation ::
  "'k control_env \<Rightarrow> nat \<Rightarrow> string \<Rightarrow> string \<Rightarrow> string \<Rightarrow> control \<Rightarrow> bool \<times> control" where
  "spread_revocation cn now outboxId uid dev s =
     (let (answer, s1) = notify_hub cn uid dev s;
          hubNotified = (answer = Inr True);
          s2 = (if hubNotified then s1
                else s1\<lparr>db_revocationOutbox := db_revocationOutbox s1 @
                       [\<lparr>ob_id = outboxId, ob_userId = uid, ob_deviceId = dev, ob_createdAt = now,
                         ob_deliveredAt = None, ob_attempts = 0\<rparr>]\<rparr>);
          (delivered, pending, s3) = flushRevocationOutbox cn now s2
      in (hubNotified, s3))"

definition revoke_device ::
  "'k control_env \<Rightarrow> caller \<Rightarrow> string \<Rightarrow> string \<Rightarrow> string option \<Rightarrow> control \<Rightarrow> revoke_body reply \<times> control" where
  "revoke_device cn ca outboxId dev reason s =
     (case row_with (\<lambda>d. dv_id d = dev \<and> dv_userId d = ca_userId ca) (db_devices s) of
        None \<Rightarrow> (Refused 404 ''not_found'' [], s)
      | Some device \<Rightarrow>
          if dv_revokedAt device \<noteq> None then
            (Replied 200 \<lparr>rv_device = device, rv_affectedOrigins = affectedOriginsOnRevoke, rv_hubNotified = False\<rparr>, s)
          else
            (let revoke = (\<lambda>d. d\<lparr>dv_revokedAt := Some (ca_now ca), dv_revocationReason := reason\<rparr>);
                 s1 = audit (ca_now ca) (ca_userId ca) ''device.revoked''
                        [(''deviceId'', JStr dev), (''reason'', (case reason of None \<Rightarrow> JNull | Some r \<Rightarrow> JStr r))] None
                        (s\<lparr>db_devices := update_rows (\<lambda>d. dv_id d = dev) revoke (db_devices s)\<rparr>);
                 (hubNotified, s2) = spread_revocation cn (ca_now ca) outboxId (ca_userId ca) dev s1
             in (Replied 200 \<lparr>rv_device = revoke device, rv_affectedOrigins = affectedOriginsOnRevoke,
                   rv_hubNotified = hubNotified\<rparr>, s2)))"

text \<open>The queue as any authenticated caller reads it, newest first, by id among equals.\<close>

definition list_outbox :: "control \<Rightarrow> outbox_row list reply" where
  "list_outbox s = Replied 200 (rev (sort_key ob_createdAt (sort_key ob_id (db_revocationOutbox s))))"

end
