(* ===== verification/ControlSpaces.thy ===== *)
theory ControlSpaces
  imports ControlDevices
begin

text \<open>
  Spaces and the wrapped keys of a space in the control plane (services/control/src/app.ts,
  recovery.ts): the plane stores salts and wrapped secrets and opens none.
\<close>

section \<open>Spaces\<close>

definition list_spaces :: "caller \<Rightarrow> control \<Rightarrow> space_row list reply" where
  "list_spaces ca s = Replied 200 (spaces_of s (ca_userId ca))"

record create_space_body =
  csb_name :: string
  csb_color :: string
  csb_egressPolicy :: "EgressPolicy option"

definition create_space :: "caller \<Rightarrow> string \<Rightarrow> create_space_body \<Rightarrow> control \<Rightarrow> space_row reply \<times> control" where
  "create_space ca sid body s =
     (let mine = map cs_position (filter (\<lambda>p. cs_userId p = ca_userId ca) (db_spaces s));
          position = (if mine = [] then -1 else Max (set mine)) + 1;
          space = new_space (ca_now ca) sid (ca_userId ca) (csb_name body) (csb_color body) position
                    (case csb_egressPolicy body of None \<Rightarrow> Direct | Some p \<Rightarrow> p)
      in (Replied 201 space, s\<lparr>db_spaces := db_spaces s @ [space]\<rparr>))"

record patch_space_body =
  psb_name :: "string option"
  psb_color :: "string option"
  psb_position :: "nat option"
  psb_egressPolicy :: "EgressPolicy option"

definition patched_space :: "patch_space_body \<Rightarrow> space_row \<Rightarrow> space_row" where
  "patched_space b p =
     p\<lparr>cs_name := (case psb_name b of None \<Rightarrow> cs_name p | Some n \<Rightarrow> n),
       cs_color := (case psb_color b of None \<Rightarrow> cs_color p | Some c \<Rightarrow> c),
       cs_position := (case psb_position b of None \<Rightarrow> cs_position p | Some n \<Rightarrow> int n),
       cs_egressPolicy := (case psb_egressPolicy b of None \<Rightarrow> cs_egressPolicy p | Some e \<Rightarrow> e)\<rparr>"

fun policy_text :: "EgressPolicy \<Rightarrow> string" where
  "policy_text SumaIp = ''suma-ip''"
| "policy_text Direct = ''direct''"

definition patch_space :: "caller \<Rightarrow> string \<Rightarrow> patch_space_body \<Rightarrow> control \<Rightarrow> space_row reply \<times> control" where
  "patch_space ca sid body s =
     (case ownedSpace s (ca_userId ca) sid of
        None \<Rightarrow> (Refused 404 ''not_found'' [], s)
      | Some space \<Rightarrow>
          (let s1 = s\<lparr>db_spaces := update_rows (\<lambda>p. cs_id p = sid) (patched_space body) (db_spaces s)\<rparr>;
               s2 = (case psb_egressPolicy body of
                       None \<Rightarrow> s1
                     | Some to \<Rightarrow>
                         if to = cs_egressPolicy space then s1
                         else audit (ca_now ca) (ca_userId ca) ''space.updated''
                                [(''spaceId'', JStr sid),
                                 (''egressPolicy'', JObj [(''from'', JStr (policy_text (cs_egressPolicy space))),
                                                          (''to'', JStr (policy_text to))])] None s1)
           in (Replied 200 (patched_space body space), s2)))"

section \<open>Wrapped keys\<close>

fun kind_text :: "WrapperKind \<Rightarrow> string" where
  "kind_text PasskeyPrf = ''passkey-prf''"
| "kind_text RecoveryCode = ''recovery-code''"
| "kind_text HardwareKey = ''hardware-key''"
| "kind_text KmsKey = ''kms''"
| "kind_text EnrollmentCode = ''enrollment-code''"

definition wrapper_at :: "string \<Rightarrow> WrapperKind \<Rightarrow> string \<Rightarrow> wrapper_row \<Rightarrow> bool" where
  "wrapper_at sid kind cred w \<longleftrightarrow> kw_spaceId w = sid \<and> kw_kind w = kind \<and> kw_credentialId w = cred"

text \<open>\<open>INSERT ... ON CONFLICT (space, kind, credential) DO UPDATE\<close> of salt and wrapped secret.\<close>

definition upsert_wrapper :: "wrapper_row \<Rightarrow> control \<Rightarrow> wrapper_row \<times> control" where
  "upsert_wrapper w s =
     (let at = wrapper_at (kw_spaceId w) (kw_kind w) (kw_credentialId w);
          set = (\<lambda>r. r\<lparr>kw_salt := kw_salt w, kw_wrapped := kw_wrapped w\<rparr>)
      in case row_with at (db_keyWrappers s) of
           None \<Rightarrow> (w, s\<lparr>db_keyWrappers := db_keyWrappers s @ [w]\<rparr>)
         | Some existing \<Rightarrow> (set existing, s\<lparr>db_keyWrappers := update_rows at set (db_keyWrappers s)\<rparr>))"

definition new_wrapper ::
  "caller \<Rightarrow> string \<Rightarrow> string \<Rightarrow> WrapperKind \<Rightarrow> string \<Rightarrow> string \<Rightarrow> string \<Rightarrow> wrapper_row" where
  "new_wrapper ca wid sid kind cred salt wrapped =
     \<lparr>kw_id = wid, kw_userId = ca_userId ca, kw_spaceId = sid, kw_kind = kind, kw_credentialId = cred,
      kw_salt = salt, kw_wrapped = wrapped, kw_createdAt = ca_now ca\<rparr>"

definition put_wrapper ::
  "caller \<Rightarrow> string \<Rightarrow> string \<Rightarrow> WrapperKind \<Rightarrow> string \<Rightarrow> string \<Rightarrow> string \<Rightarrow> control \<Rightarrow> wrapper_row reply \<times> control" where
  "put_wrapper ca wid sid kind cred salt wrapped s =
     (case ownedSpace s (ca_userId ca) sid of
        None \<Rightarrow> (Refused 404 ''not_found'' [], s)
      | Some _ \<Rightarrow>
          (let existing = row_with (wrapper_at sid kind cred) (db_keyWrappers s);
               (w, s1) = upsert_wrapper (new_wrapper ca wid sid kind cred salt wrapped) s
           in (Replied 200 w,
               audit (ca_now ca) (ca_userId ca)
                 (if existing \<noteq> None then ''keys.wrapper_rotated'' else ''keys.wrapper_added'')
                 [(''spaceId'', JStr sid), (''kind'', JStr (kind_text kind)), (''credentialId'', JStr cred)] None s1)))"

definition list_wrappers :: "caller \<Rightarrow> string \<Rightarrow> WrapperKind option \<Rightarrow> control \<Rightarrow> wrapper_row list reply" where
  "list_wrappers ca sid kind s =
     (case ownedSpace s (ca_userId ca) sid of
        None \<Rightarrow> Refused 404 ''not_found'' []
      | Some _ \<Rightarrow>
          Replied 200 (sort_key kw_createdAt
            (filter (\<lambda>w. kw_spaceId w = sid \<and> (case kind of None \<Rightarrow> True | Some k \<Rightarrow> kw_kind w = k)) (db_keyWrappers s))))"

definition RECOVERY_CREDENTIAL_ID :: string where "RECOVERY_CREDENTIAL_ID = ''recovery''"

definition setRecoveryWrapper ::
  "caller \<Rightarrow> string \<Rightarrow> string \<Rightarrow> string \<Rightarrow> string \<Rightarrow> control \<Rightarrow> wrapper_row \<times> control" where
  "setRecoveryWrapper ca wid sid saltB64 wrappedB64 s =
     upsert_wrapper (new_wrapper ca wid sid RecoveryCode RECOVERY_CREDENTIAL_ID saltB64 wrappedB64) s"

definition set_recovery ::
  "caller \<Rightarrow> string \<Rightarrow> string \<Rightarrow> string \<Rightarrow> string \<Rightarrow> control \<Rightarrow> wrapper_row reply \<times> control" where
  "set_recovery ca wid sid saltB64 wrappedB64 s =
     (case ownedSpace s (ca_userId ca) sid of
        None \<Rightarrow> (Refused 404 ''not_found'' [], s)
      | Some _ \<Rightarrow>
          (let (w, s1) = setRecoveryWrapper ca wid sid saltB64 wrappedB64 s
           in (Replied 200 w, audit (ca_now ca) (ca_userId ca) ''keys.recovery_set'' [(''spaceId'', JStr sid)] None s1)))"

definition remove_wrapper :: "caller \<Rightarrow> string \<Rightarrow> string \<Rightarrow> control \<Rightarrow> unit reply \<times> control" where
  "remove_wrapper ca sid wid s =
     (let doomed = (\<lambda>w. kw_id w = wid \<and> kw_spaceId w = sid \<and> kw_userId w = ca_userId ca)
      in case row_with doomed (db_keyWrappers s) of
           None \<Rightarrow> (Refused 404 ''not_found'' [], s)
         | Some w \<Rightarrow>
             (Replied 200 (),
              audit (ca_now ca) (ca_userId ca) ''keys.wrapper_removed''
                [(''wrapperId'', JStr wid), (''spaceId'', JStr sid), (''kind'', JStr (kind_text (kw_kind w))),
                 (''credentialId'', JStr (kw_credentialId w))] None
                (s\<lparr>db_keyWrappers := filter (\<lambda>r. \<not> doomed r) (db_keyWrappers s)\<rparr>)))"

end
