(* ===== verification/ControlMachine.thy ===== *)
theory ControlMachine
  imports ControlSpaces
begin

text \<open>
  The machine of an account in the control plane (services/control/src/app.ts): its state and the
  history of its moves, the agent's reports, the guard in front of a suspend, Job Mode, capability
  tokens, usage and Boost behind its cap (abuse.ts).  \<open>answer\<close> is what the provider of machines
  answers to a call, the address of the agent where it knows one, or an exception.  A storage level is
  a number the plane only keeps and gives back.  A route runs to its end before the next, so the
  conditional writes on the state a route read always match.
\<close>

section \<open>State and moves\<close>

record machine_body =
  mcb_machine :: "machine_row option"
  mcb_events :: "machine_event_row list"
  mcb_homeDeviceId :: "string option"
  mcb_homeOnline :: bool

definition events_of :: "control \<Rightarrow> string \<Rightarrow> machine_event_row list" where
  "events_of s mid = filter (\<lambda>e. me_machineId e = mid) (db_machineEvents s)"

definition get_machine :: "(string \<Rightarrow> bool) \<Rightarrow> caller \<Rightarrow> control \<Rightarrow> machine_body reply" where
  "get_machine homeOnline ca s =
     (case machine_for s (ca_userId ca) of
        None \<Rightarrow>
          (case user_of s (ca_userId ca) of
             None \<Rightarrow> Refused 404 ''not_found'' []
           | Some user \<Rightarrow>
               if us_computeMode user = LocalMode
               then Replied 200 \<lparr>mcb_machine = None, mcb_events = [], mcb_homeDeviceId = us_homeDeviceId user,
                      mcb_homeOnline = homeOnline (ca_userId ca)\<rparr>
               else Refused 404 ''not_found'' [])
      | Some machine \<Rightarrow>
          Replied 200 \<lparr>mcb_machine = Some machine,
            mcb_events = take 20 (rev (sort_key me_createdAt (events_of s (mc_id machine)))),
            mcb_homeDeviceId = None, mcb_homeOnline = False\<rparr>)"

record transition_body =
  tn_to :: MachineState
  tn_reconstructed :: bool
  tn_detail :: "string option"
  tn_force :: bool

definition machine_spec :: "machine_row \<Rightarrow> MachineSpec" where
  "machine_spec m = \<lparr>ms_cpuKind = mc_cpuKind m, ms_cpus = mc_cpus m, ms_memoryMb = mc_memoryMb m\<rparr>"

definition moved :: "MachineState \<Rightarrow> nat \<Rightarrow> machine_row \<Rightarrow> machine_row" where
  "moved to now m = m\<lparr>mc_state := to, mc_updatedAt := now, mc_lastTransitionAt := now\<rparr>"

text \<open>The state of a machine written where it is still the one that was read, and the event of the move.\<close>

definition record_move ::
  "string \<Rightarrow> MachineState \<Rightarrow> (machine_row \<Rightarrow> machine_row) \<Rightarrow> machine_event_row \<Rightarrow> control \<Rightarrow> control" where
  "record_move mid from f event s =
     s\<lparr>db_machines := update_rows (\<lambda>m. mc_id m = mid \<and> mc_state m = from) f (db_machines s),
       db_machineEvents := db_machineEvents s @ [event]\<rparr>"

definition called :: "sandbox_call \<Rightarrow> control \<Rightarrow> control" where
  "called c s = s\<lparr>ct_sandbox := ct_sandbox s @ [c]\<rparr>"

definition set_address :: "string \<Rightarrow> string \<Rightarrow> control \<Rightarrow> control" where
  "set_address mid address s =
     s\<lparr>db_machines := update_rows (\<lambda>m. mc_id m = mid) (\<lambda>m. m\<lparr>mc_agentAddress := Some address\<rparr>) (db_machines s)\<rparr>"

text \<open>What a move asks of the provider; \<open>True\<close> when the call threw.\<close>

fun drive_provider ::
  "MachineState \<Rightarrow> string \<Rightarrow> string \<Rightarrow> string option js_result \<Rightarrow> control \<Rightarrow> bool \<times> control" where
  "drive_provider Provisioning uid mid answer s =
     (let s1 = called (SbProvision uid mid) s
      in case answer of
           Inl _ \<Rightarrow> (True, s1)
         | Inr None \<Rightarrow> (False, s1)
         | Inr (Some address) \<Rightarrow> (False, set_address mid address s1))"
| "drive_provider Suspending uid mid answer s = (isl answer, called (SbSuspend mid) s)"
| "drive_provider Resuming uid mid answer s = (isl answer, called (SbResume mid) s)"
| "drive_provider ColdBooting uid mid answer s = (isl answer, called (SbColdBoot mid) s)"
| "drive_provider _ uid mid answer s = (False, s)"

text \<open>The guard in front of a suspend: the refusal, unless the machine is idle or the user forces it.\<close>

definition verdict_reason :: "LifecycleVerdict \<Rightarrow> string" where
  "verdict_reason v =
     (case v of
        ActivityUnknown \<Rightarrow> ''activity_unknown''
      | Known IdleShell \<Rightarrow> ''idle_shell''
      | Known ClientAttached \<Rightarrow> ''client_attached''
      | Known ActiveTransfer \<Rightarrow> ''active_transfer''
      | Known (JobMode _) \<Rightarrow> ''job_mode''
      | Known (UserProcessAlive _) \<Rightarrow> ''user_process_alive''
      | Known WithinIdleGrace \<Rightarrow> ''within_idle_grace'')"

definition suspend_guard :: "transition_body \<Rightarrow> string \<Rightarrow> nat \<Rightarrow> control \<Rightarrow> (string \<times> string) list option" where
  "suspend_guard body mid now s =
     (if tn_to body = Suspending \<and> \<not> tn_force body then
        (let verdict = lifecycleVerdict (activity_of s mid) now
         in if lifecycle_suspends verdict then None
            else Some ((''reason'', verdict_reason verdict) #
                       (case verdictPtyId verdict of None \<Rightarrow> [] | Some p \<Rightarrow> [(''ptyId'', p)])))
      else None)"

definition move_event ::
  "string \<Rightarrow> string \<Rightarrow> MachineState \<Rightarrow> MachineState \<Rightarrow> bool \<Rightarrow> string option \<Rightarrow> nat \<Rightarrow> machine_event_row" where
  "move_event eid mid from to reconstructed detail now =
     \<lparr>me_id = eid, me_machineId = mid, me_fromState = from, me_toState = to, me_reconstructed = reconstructed,
      me_detail = detail, me_createdAt = now\<rparr>"

definition machine_transition ::
  "caller \<Rightarrow> string \<Rightarrow> string option js_result \<Rightarrow> transition_body \<Rightarrow> control \<Rightarrow>
   (machine_row \<times> machine_event_row) reply \<times> control" where
  "machine_transition ca eid answer body s =
     (case machine_for s (ca_userId ca) of
        None \<Rightarrow> (Refused 404 ''not_found'' [], s)
      | Some machine \<Rightarrow>
          (let from = mc_state machine; to = tn_to body; mid = mc_id machine; now = ca_now ca
           in if \<not> canTransition from to
              then (Refused 422 ''illegal_transition'' [(''from'', state_text from), (''to'', state_text to)], s)
              else
                (case suspend_guard body mid now s of
                   Some why \<Rightarrow> (Refused 409 ''would_interrupt_work'' why, s)
                 | None \<Rightarrow>
                     (let reconstructed = (from = ColdBooting \<and> to = Running \<or> tn_reconstructed body);
                          event = move_event eid mid from to reconstructed (tn_detail body) now;
                          s1 = record_move mid from (moved to now) event s;
                          (threw, s2) = drive_provider to (ca_userId ca) mid answer s1
                      in if threw then (Fault, s2)
                         else
                           (Replied 200 (moved to now machine, event),
                            audit now (ca_userId ca) ''machine.transition''
                              ([(''machineId'', JStr mid), (''from'', JStr (state_text from)), (''to'', JStr (state_text to)),
                                (''reconstructed'', JBool reconstructed)] @
                               (if to = Suspending then [(''force'', JBool (tn_force body))] else [])) None s2)))))"

section \<open>The agent's report and the lifecycle\<close>

record activity_report =
  ar_clientsAttached :: nat
  ar_processes :: "ProcessTreeInfo list"
  ar_activeTransfers :: nat
  ar_lastInteractionAt :: nat
  ar_awakeMsAccrued :: nat

definition out_of_range :: "string \<Rightarrow> string \<Rightarrow> 'b reply" where
  "out_of_range field reason = Refused 400 ''out_of_range'' [(''field'', field), (''reason'', reason)]"

definition report_activity ::
  "agent \<Rightarrow> nat \<Rightarrow> activity_report \<Rightarrow> control \<Rightarrow> LifecycleVerdict reply \<times> control" where
  "report_activity ag now body s =
     (case agentReportRefusal (ag_caps ag) of
        Some refusal \<Rightarrow> (Refused 403 ''capability_refused'' [(''reason'', refusal)], s)
      | None \<Rightarrow>
          if isFutureDated (ar_lastInteractionAt body) now then (out_of_range ''lastInteractionAt'' ''in_future'', s)
          else
            (let activity = \<lparr>ma_clientsAttached = ar_clientsAttached body, ma_processes = ar_processes body,
                   ma_activeTransfers = ar_activeTransfers body, ma_lastInteractionAt = ar_lastInteractionAt body,
                   ma_awakeMsAccrued = ar_awakeMsAccrued body, ma_lastReportAt = now\<rparr>
             in (Replied 200 (activityVerdict activity now),
                 s\<lparr>db_machineActivity := js_set (db_machineActivity s) (ag_machineId ag) activity\<rparr>)))"

record lifecycle_body =
  lb_verdict :: LifecycleVerdict
  lb_explanation :: string
  lb_wouldSuspendAt :: "nat option"
  lb_reportedAt :: "nat option"

definition machine_lifecycle :: "caller \<Rightarrow> control \<Rightarrow> lifecycle_body reply" where
  "machine_lifecycle ca s =
     (case machine_for s (ca_userId ca) of
        None \<Rightarrow> Refused 404 ''not_found'' []
      | Some machine \<Rightarrow>
          (let activity = activity_of s (mc_id machine); verdict = lifecycleVerdict activity (ca_now ca)
           in Replied 200
                \<lparr>lb_verdict = verdict, lb_explanation = explainLifecycle verdict,
                 lb_wouldSuspendAt =
                   (case activity of
                      Some a \<Rightarrow> if lifecycle_suspends verdict \<or> verdict = Known WithinIdleGrace
                                then Some (ma_lastInteractionAt a + DEFAULT_IDLE_SUSPEND_MS) else None
                    | None \<Rightarrow> None),
                 lb_reportedAt = map_option ma_lastReportAt activity\<rparr>))"

definition set_job_mode ::
  "caller \<Rightarrow> string \<Rightarrow> bool \<Rightarrow> control \<Rightarrow> (LifecycleVerdict \<times> string) reply \<times> control" where
  "set_job_mode ca ptyId enabled s =
     (case machine_for s (ca_userId ca) of
        None \<Rightarrow> (Refused 404 ''not_found'' [], s)
      | Some machine \<Rightarrow>
          (case activity_of s (mc_id machine) of
             None \<Rightarrow> (Refused 404 ''no_activity_reported'' [], s)
           | Some activity \<Rightarrow>
               if \<not> list_ex (\<lambda>p. pt_ptyId p = ptyId) (ma_processes activity) then (Refused 404 ''unknown_pty'' [], s)
               else
                 (let processes = map (\<lambda>p. if pt_ptyId p = ptyId then p\<lparr>pt_jobMode := enabled\<rparr> else p)
                        (ma_processes activity);
                      updated = activity\<lparr>ma_processes := processes\<rparr>;
                      verdict = activityVerdict updated (ca_now ca)
                  in (Replied 200 (verdict, explainLifecycle verdict),
                      audit (ca_now ca) (ca_userId ca) ''job.mode_changed''
                        [(''machineId'', JStr (mc_id machine)), (''ptyId'', JStr ptyId), (''enabled'', JBool enabled)]
                        (ca_deviceId ca)
                        (s\<lparr>db_machineActivity := js_set (db_machineActivity s) (mc_id machine) updated\<rparr>)))))"

section \<open>Capability tokens\<close>

text \<open>The distinct elements of a list, as a set in order of insertion gives them.\<close>

definition js_distinct :: "'a list \<Rightarrow> 'a list" where
  "js_distinct xs = rev (remdups (rev xs))"

lemma js_distinct_simps [simp]: "distinct (js_distinct xs)" "set (js_distinct xs) = set xs"
  by (simp_all add: js_distinct_def)

definition account_features :: "control \<Rightarrow> string \<Rightarrow> string list" where
  "account_features s uid = (case user_of s uid of None \<Rightarrow> [] | Some u \<Rightarrow> us_features u)"

record capability_body =
  cb_token :: string
  cb_exp :: int
  cb_caps :: "Capability list"

definition mint_capability ::
  "'k control_env \<Rightarrow> caller \<Rightarrow> string \<Rightarrow> Capability list \<Rightarrow> control \<Rightarrow> capability_body reply \<times> control" where
  "mint_capability cn ca jti asked s =
     (let caps = js_distinct asked
      in case machine_for s (ca_userId ca) of
           None \<Rightarrow> (Refused 404 ''not_found'' [], s)
         | Some machine \<Rightarrow>
             (let refused = refusedCaps caps (account_features s (ca_userId ca))
              in if refused \<noteq> []
                 then (Refused 403 ''capability_refused'' (map (\<lambda>c. (''caps'', cap_text c)) refused), s)
                 else
                   (let (token, claims) = mintCapabilityToken (cn_sign cn) (cn_capsText cn) jti (mc_id machine)
                          (ca_userId ca) caps (ca_now ca div 1000)
                    in (Replied 201 \<lparr>cb_token = token, cb_exp = cc_exp claims, cb_caps = caps\<rparr>,
                        audit (ca_now ca) (ca_userId ca) ''capability.minted''
                          [(''machineId'', JStr (mc_id machine)), (''caps'', JArr (map (JStr \<circ> cap_text) caps)),
                           (''jti'', JStr (cc_jti claims))] (ca_deviceId ca) s))))"

section \<open>Usage\<close>

definition MAX_SAMPLE_BACKFILL_MS :: nat where "MAX_SAMPLE_BACKFILL_MS = 90 * DAY_MS"

definition periodStartRefusal :: "nat \<Rightarrow> nat \<Rightarrow> string option" where
  "periodStartRefusal periodStart nowMs =
     (if isFutureDated periodStart nowMs then Some ''in_future''
      else if int periodStart < int nowMs - int MAX_SAMPLE_BACKFILL_MS then Some ''too_old'' else None)"

record agent_sample =
  as_periodStart :: nat
  as_awakeMs :: nat
  as_storageGb :: nat
  as_proxiedBytes :: "nat option"
  as_source :: "UsageSource option"

definition usage_sample ::
  "agent \<Rightarrow> nat \<Rightarrow> string \<Rightarrow> agent_sample \<Rightarrow> control \<Rightarrow> usage_row reply \<times> control" where
  "usage_sample ag now sampleId body s =
     (case agentReportRefusal (ag_caps ag) of
        Some refusal \<Rightarrow> (Refused 403 ''capability_refused'' [(''reason'', refusal)], s)
      | None \<Rightarrow>
          if as_proxiedBytes body \<noteq> None \<or> as_source body = Some GatewaySource
          then (Refused 403 ''egress_not_agent_reportable'' [], s)
          else
            (case periodStartRefusal (as_periodStart body) now of
               Some reason \<Rightarrow> (out_of_range ''periodStart'' reason, s)
             | None \<Rightarrow>
                 (let sample = \<lparr>ug_id = sampleId, ug_userId = ag_userId ag, ug_machineId = ag_machineId ag,
                        ug_periodStart = as_periodStart body, ug_awakeMs = as_awakeMs body, ug_proxiedBytes = 0,
                        ug_storageGb = as_storageGb body, ug_source = AgentSource, ug_createdAt = now\<rparr>
                  in (Replied 201 sample, s\<lparr>db_usageSamples := db_usageSamples s @ [sample]\<rparr>))))"

definition usage_egress ::
  "nat \<Rightarrow> string \<Rightarrow> string \<Rightarrow> nat \<Rightarrow> nat \<Rightarrow> control \<Rightarrow> usage_row reply \<times> control" where
  "usage_egress now sampleId userId periodStart proxiedBytes s =
     (case periodStartRefusal periodStart now of
        Some reason \<Rightarrow> (out_of_range ''periodStart'' reason, s)
      | None \<Rightarrow>
          (case machine_for s userId of
             None \<Rightarrow> (Refused 404 ''not_found'' [], s)
           | Some machine \<Rightarrow>
               (let sample = \<lparr>ug_id = sampleId, ug_userId = userId, ug_machineId = mc_id machine,
                      ug_periodStart = periodStart, ug_awakeMs = 0, ug_proxiedBytes = proxiedBytes,
                      ug_storageGb = 0, ug_source = GatewaySource, ug_createdAt = now\<rparr>
                in (Replied 201 sample, s\<lparr>db_usageSamples := db_usageSamples s @ [sample]\<rparr>))))"

definition BYTES_PER_GB :: nat where "BYTES_PER_GB = 1000000000"

definition maxProxiedGbPerDay :: nat where "maxProxiedGbPerDay = 20"

definition egressThrottled :: "nat \<Rightarrow> bool" where
  "egressThrottled proxiedBytesInLastDay \<longleftrightarrow> proxiedBytesInLastDay > maxProxiedGbPerDay * BYTES_PER_GB"

record usage_totals =
  ut_awakeMs :: nat
  ut_storageGb :: nat
  ut_proxiedBytes :: nat
  ut_lastDayProxiedBytes :: nat

text \<open>Each plane counts for the figures it is the source of.\<close>

definition count_sample :: "nat \<Rightarrow> usage_totals \<Rightarrow> usage_row \<Rightarrow> usage_totals" where
  "count_sample nowMs t row =
     (if ug_source row = GatewaySource then
        t\<lparr>ut_proxiedBytes := ut_proxiedBytes t + ug_proxiedBytes row,
          ut_lastDayProxiedBytes := ut_lastDayProxiedBytes t +
            (if int (ug_periodStart row) \<ge> int nowMs - int DAY_MS then ug_proxiedBytes row else 0)\<rparr>
      else t\<lparr>ut_awakeMs := ut_awakeMs t + ug_awakeMs row, ut_storageGb := ug_storageGb row\<rparr>)"

definition usage_totals_of :: "control \<Rightarrow> string \<Rightarrow> nat \<Rightarrow> nat \<Rightarrow> usage_totals" where
  "usage_totals_of s uid days nowMs =
     foldl (count_sample nowMs) \<lparr>ut_awakeMs = 0, ut_storageGb = 0, ut_proxiedBytes = 0, ut_lastDayProxiedBytes = 0\<rparr>
       (sort_key ug_periodStart (sort_key ug_createdAt
          (filter (\<lambda>r. ug_userId r = uid \<and> int (ug_periodStart r) \<ge> int nowMs - int (days * DAY_MS)) (db_usageSamples s))))"

text \<open>The totals and the throttle signal; the prices are floating point and left out.\<close>

definition usage_summary :: "caller \<Rightarrow> nat \<Rightarrow> control \<Rightarrow> (usage_totals \<times> bool) reply" where
  "usage_summary ca days s =
     (case machine_for s (ca_userId ca) of
        None \<Rightarrow> Refused 404 ''not_found'' []
      | Some _ \<Rightarrow>
          (let t = usage_totals_of s (ca_userId ca) days (ca_now ca)
           in Replied 200 (t, egressThrottled (ut_lastDayProxiedBytes t))))"

section \<open>Boost\<close>

definition maxBoostsPerDay :: nat where "maxBoostsPerDay = 5"

definition checkBoost :: "nat \<Rightarrow> (string \<times> string) option" where
  "checkBoost boostsInLastDay =
     (if boostsInLastDay \<ge> maxBoostsPerDay
      then Some (''boosts_per_day'',
             ''Boost limit reached: '' @ decimal_text boostsInLastDay @ '' boosts in the last 24 hours (max '' @
             decimal_text maxBoostsPerDay @ '').'')
      else None)"

definition boosts_today :: "control \<Rightarrow> string \<Rightarrow> nat \<Rightarrow> nat" where
  "boosts_today s mid now =
     length (filter (\<lambda>e. me_machineId e = mid \<and> me_toState e = Boosting \<and>
       int (me_createdAt e) \<ge> int now - int DAY_MS) (db_machineEvents s))"

definition machine_boost ::
  "caller \<Rightarrow> string \<Rightarrow> string option js_result \<Rightarrow> nat \<Rightarrow> control \<Rightarrow>
   (machine_row \<times> machine_event_row) reply \<times> control" where
  "machine_boost ca eid answer memoryMb s =
     (case machine_for s (ca_userId ca) of
        None \<Rightarrow> (Refused 404 ''not_found'' [], s)
      | Some machine \<Rightarrow>
          (let from = mc_state machine; mid = mc_id machine; now = ca_now ca
           in if \<not> canTransition from Boosting
              then (Refused 422 ''illegal_transition'' [(''from'', state_text from), (''to'', ''boosting'')], s)
              else
                (case checkBoost (boosts_today s mid now) of
                   Some (limit, reason) \<Rightarrow>
                     (Refused 429 ''abuse_limit'' [(''limit'', limit), (''reason'', reason)],
                      audit now (ca_userId ca) ''abuse.limit_hit''
                        [(''limit'', JStr limit), (''reason'', JStr reason),
                         (''count'', JInt (int (boosts_today s mid now))), (''max'', JInt (int maxBoostsPerDay))]
                        (ca_deviceId ca) s)
                 | None \<Rightarrow>
                     (let boost = (\<lambda>m. (moved Boosting now m)\<lparr>mc_memoryMb := memoryMb\<rparr>);
                          event = move_event eid mid from Boosting False
                                    (Some (''boost to '' @ decimal_text memoryMb @ '' MB'')) now;
                          s1 = called (SbUpdateSpec mid memoryMb) (record_move mid from boost event s)
                      in if isl answer then (Fault, s1)
                         else
                           (Replied 200 (boost machine, event),
                            audit now (ca_userId ca) ''machine.boosted''
                              [(''machineId'', JStr mid), (''memoryMb'', JInt (int memoryMb))] (ca_deviceId ca) s1)))))"

end
