(* ===== verification/ControlFiles.thy ===== *)
theory ControlFiles
  imports ControlMachine
begin

text \<open>
  Suma Files in the control plane (services/control/src/app.ts): manifests and the references they
  take on chunks, the receipt of an upload, quota, reading back, listing and deleting.  A chunk row is
  found by user and hash; the account lock makes a transaction one step.  Completing an upload asks
  the object store before its transaction, so it is two steps, between which other requests may run.
  Rows a query gives in no particular order come in the order of the table.
\<close>

section \<open>Chunks and their references\<close>

definition owned_chunk :: "string \<Rightarrow> string \<Rightarrow> chunk_row \<Rightarrow> bool" where
  "owned_chunk uid hash c \<longleftrightarrow> ch_userId c = uid \<and> ch_hash c = hash"

definition chunk_of :: "control \<Rightarrow> string \<Rightarrow> string \<Rightarrow> chunk_row option" where
  "chunk_of s uid hash = row_with (owned_chunk uid hash) (db_chunks s)"

definition quotaState :: "control \<Rightarrow> string \<Rightarrow> QuotaState" where
  "quotaState s uid =
     \<lparr>qs_usedBytes = sum_list (map ch_sizeBytes (filter (\<lambda>c. ch_userId c = uid \<and> ch_refCount c > 0) (db_chunks s))),
      qs_limitBytes = PRO_QUOTA_BYTES\<rparr>"

definition ownedFile :: "control \<Rightarrow> string \<Rightarrow> string \<Rightarrow> file_row option" where
  "ownedFile s uid fid = row_with (\<lambda>f. fl_id f = fid \<and> fl_userId f = uid) (db_files s)"

definition file_at :: "control \<Rightarrow> string \<Rightarrow> string \<Rightarrow> file_row option" where
  "file_at s uid path = row_with (\<lambda>f. fl_userId f = uid \<and> fl_path f = path) (db_files s)"

definition distinctFileHashes :: "control \<Rightarrow> string \<Rightarrow> string list" where
  "distinctFileHashes s fid = js_distinct (map fc_hash (filter (\<lambda>r. fc_fileId r = fid) (db_fileChunks s)))"

definition detachFileChunks :: "string \<Rightarrow> control \<Rightarrow> string list \<times> control" where
  "detachFileChunks fid s =
     (distinctFileHashes s fid, s\<lparr>db_fileChunks := filter (\<lambda>r. fc_fileId r \<noteq> fid) (db_fileChunks s)\<rparr>)"

text \<open>One claim less on each of the chunks; what is left without any is deleted and named.\<close>

definition releaseHashes :: "string \<Rightarrow> string list \<Rightarrow> control \<Rightarrow> string list \<times> control" where
  "releaseHashes uid hashes s =
     (let owned = (\<lambda>c. ch_userId c = uid \<and> ch_hash c \<in> set hashes);
          lowered = update_rows owned (\<lambda>c. c\<lparr>ch_refCount := ch_refCount c - 1\<rparr>) (db_chunks s);
          orphan = (\<lambda>c. owned c \<and> ch_refCount c = 0)
      in (map ch_hash (filter orphan lowered), s\<lparr>db_chunks := filter (\<lambda>c. \<not> orphan c) lowered\<rparr>))"

definition ownedChunks :: "control \<Rightarrow> string \<Rightarrow> string list \<Rightarrow> chunk_row list" where
  "ownedChunks s uid hashes = filter (\<lambda>c. ch_userId c = uid \<and> ch_hash c \<in> set hashes) (db_chunks s)"

definition deleteOrphanObjects :: "string \<Rightarrow> string list \<Rightarrow> control \<Rightarrow> control" where
  "deleteOrphanObjects uid hashes s =
     (let reclaimed = map ch_hash (ownedChunks s uid hashes);
          gone = filter (\<lambda>h. h \<notin> set reclaimed) hashes
      in s\<lparr>ct_objects := fold (\<lambda>h m. js_del m (chunkObjectKey uid h)) gone (ct_objects s)\<rparr>)"

text \<open>\<open>INSERT ... ON CONFLICT DO UPDATE\<close> of one chunk.\<close>

definition claim_chunk :: "nat \<Rightarrow> string \<Rightarrow> ChunkRef \<Rightarrow> chunk_row list \<Rightarrow> chunk_row list" where
  "claim_chunk now uid c rows =
     (if list_ex (owned_chunk uid (cr_hash c)) rows
      then update_rows (owned_chunk uid (cr_hash c)) (\<lambda>r. r\<lparr>ch_refCount := ch_refCount r + 1\<rparr>) rows
      else rows @ [\<lparr>ch_userId = uid, ch_hash = cr_hash c, ch_sizeBytes = cr_length c, ch_refCount = 1,
                    ch_storedAt = None, ch_createdAt = now\<rparr>])"

definition manifest_rows :: "string \<Rightarrow> Manifest \<Rightarrow> file_chunk_row list" where
  "manifest_rows fid manifest =
     map (\<lambda>(idx, c). \<lparr>fc_fileId = fid, fc_idx = idx, fc_hash = cr_hash c, fc_offset = cr_offset c,
                      fc_length = cr_length c\<rparr>) (enumerate 0 (mf_chunks manifest))"

definition attachChunks :: "nat \<Rightarrow> string \<Rightarrow> string \<Rightarrow> Manifest \<Rightarrow> control \<Rightarrow> control" where
  "attachChunks now uid fid manifest s =
     s\<lparr>db_chunks := fold (claim_chunk now uid) (distinctChunks manifest) (db_chunks s),
       db_fileChunks := db_fileChunks s @ manifest_rows fid manifest\<rparr>"

section \<open>Create from a manifest\<close>

record manifest_request =
  mr_path :: string
  mr_contentType :: "string option"
  mr_manifest :: Manifest

datatype 'a file_outcome = QuotaRefused QuotaVerdict nat | OutcomeOk 'a

record manifest_done =
  md_file :: file_row
  md_verdict :: QuotaVerdict
  md_orphans :: "string list"
  md_created :: bool
  md_missing :: "ChunkRef list"

fun path_refusal_text :: "PathRefusal \<Rightarrow> string" where
  "path_refusal_text PathEmpty = ''empty''"
| "path_refusal_text PathTraversal = ''traversal''"
| "path_refusal_text PathControlCharacters = ''control_characters''"
| "path_refusal_text PathIsRoot = ''is_root''"

fun manifest_refusal_text :: "ManifestRefusal \<Rightarrow> string" where
  "manifest_refusal_text TooManyChunks = ''too_many_chunks''"
| "manifest_refusal_text ChunkTooLarge = ''chunk_too_large''"
| "manifest_refusal_text NonContiguous = ''non_contiguous''"
| "manifest_refusal_text SizeMismatch = ''size_mismatch''"

text \<open>The row of the file, new or rewritten.\<close>

definition write_file ::
  "nat \<Rightarrow> string \<Rightarrow> string \<Rightarrow> string \<Rightarrow> manifest_request \<Rightarrow> control \<Rightarrow> file_row \<times> control" where
  "write_file now uid fid path body s =
     (case file_at s uid path of
        Some existing \<Rightarrow>
          (let set = (\<lambda>f. f\<lparr>fl_sizeBytes := mf_totalBytes (mr_manifest body), fl_fileHash := mf_fileHash (mr_manifest body),
                       fl_contentType := mr_contentType body, fl_completedAt := None, fl_updatedAt := now\<rparr>)
           in (set existing, s\<lparr>db_files := update_rows (\<lambda>f. fl_id f = fl_id existing) set (db_files s)\<rparr>))
      | None \<Rightarrow>
          (let file = \<lparr>fl_id = fid, fl_userId = uid, fl_path = path, fl_sizeBytes = mf_totalBytes (mr_manifest body),
                 fl_fileHash = mf_fileHash (mr_manifest body), fl_contentType = mr_contentType body,
                 fl_completedAt = None, fl_createdAt = now, fl_updatedAt = now\<rparr>
           in (file, s\<lparr>db_files := db_files s @ [file]\<rparr>)))"

text \<open>The transaction: the quota, the file, the new references before the old ones are given up.\<close>

definition manifest_incoming :: "control \<Rightarrow> string \<Rightarrow> Manifest \<Rightarrow> nat" where
  "manifest_incoming s uid manifest =
     (let wanted = distinctChunks manifest; known = map ch_hash (ownedChunks s uid (map cr_hash wanted))
      in sum_list (map cr_length (filter (\<lambda>c. cr_hash c \<notin> set known) wanted)))"

definition manifest_tx ::
  "nat \<Rightarrow> string \<Rightarrow> string \<Rightarrow> string \<Rightarrow> manifest_request \<Rightarrow> control \<Rightarrow> manifest_done file_outcome \<times> control" where
  "manifest_tx now uid fid path body s =
     (let manifest = mr_manifest body;
          incoming = manifest_incoming s uid manifest;
          verdict = checkQuota (quotaState s uid) incoming
      in if \<not> qv_allowed verdict then (QuotaRefused verdict incoming, s)
         else
           (let existing = file_at s uid path;
                (file, s1) = write_file now uid fid path body s;
                (releasing, s2) = (case existing of None \<Rightarrow> ([], s1) | Some e \<Rightarrow> detachFileChunks (fl_id e) s1);
                s3 = attachChunks now uid (fl_id file) manifest s2;
                (orphans, s4) = releaseHashes uid releasing s3;
                after = ownedChunks s4 uid (map cr_hash (distinctChunks manifest));
                stored = map ch_hash (filter (\<lambda>c. ch_storedAt c \<noteq> None) after)
            in (OutcomeOk \<lparr>md_file = file, md_verdict = verdict, md_orphans = orphans, md_created = (existing = None),
                  md_missing = missingChunkRefs manifest (\<lambda>h. h \<in> set stored)\<rparr>, s4)))"

record FileEntry =
  fe_id :: string
  fe_path :: string
  fe_sizeBytes :: nat
  fe_fileHash :: string
  fe_contentType :: "string option"
  fe_createdAtMs :: nat
  fe_updatedAtMs :: nat

definition fileEntryView :: "file_row \<Rightarrow> FileEntry" where
  "fileEntryView row =
     \<lparr>fe_id = fl_id row, fe_path = fl_path row, fe_sizeBytes = fl_sizeBytes row, fe_fileHash = fl_fileHash row,
      fe_contentType = fl_contentType row, fe_createdAtMs = fl_createdAt row, fe_updatedAtMs = fl_updatedAt row\<rparr>"

record manifest_reply =
  ml_file :: FileEntry
  ml_missing :: "ChunkRef list"
  ml_usedBytes :: nat
  ml_limitBytes :: nat

definition quota_exceeded :: "QuotaVerdict \<Rightarrow> 'b reply" where
  "quota_exceeded v = Refused 413 ''quota_exceeded''
     [(''usedBytes'', decimal_text (qv_usedBytes v)), (''limitBytes'', decimal_text (qv_limitBytes v))]"

definition quota_blocked :: "caller \<Rightarrow> string \<Rightarrow> nat \<Rightarrow> nat \<Rightarrow> control \<Rightarrow> control" where
  "quota_blocked ca path incoming used s =
     audit (ca_now ca) (ca_userId ca) ''files.quota_blocked''
       [(''path'', JStr path), (''incomingBytes'', JInt (int incoming)), (''usedBytes'', JInt (int used))] (ca_deviceId ca) s"

definition create_manifest ::
  "caller \<Rightarrow> string \<Rightarrow> manifest_request \<Rightarrow> control \<Rightarrow> manifest_reply reply \<times> control" where
  "create_manifest ca fid body s =
     (case normalizeFilePath (mr_path body) of
        Inl r \<Rightarrow> (Refused 400 ''invalid_path'' [(''reason'', path_refusal_text r)], s)
      | Inr path \<Rightarrow>
          (case validateManifest (mr_manifest body) of
             Some r \<Rightarrow> (Refused 400 ''invalid_manifest'' [(''reason'', manifest_refusal_text r)], s)
           | None \<Rightarrow>
               (case manifest_tx (ca_now ca) (ca_userId ca) fid path body s of
                  (QuotaRefused verdict incoming, s1) \<Rightarrow>
                    (quota_exceeded verdict, quota_blocked ca path incoming (qv_usedBytes verdict) s1)
                | (OutcomeOk d, s1) \<Rightarrow>
                    (Replied (if md_created d then 201 else 200)
                       \<lparr>ml_file = fileEntryView (md_file d), ml_missing = md_missing d,
                        ml_usedBytes = qv_usedBytes (md_verdict d), ml_limitBytes = qv_limitBytes (md_verdict d)\<rparr>,
                     deleteOrphanObjects (ca_userId ca) (md_orphans d) s1))))"

section \<open>The receipt of an upload\<close>

text \<open>What the object store says of the chunks not yet confirmed; objects of a wrong size are deleted.\<close>

record heads =
  hd_confirmed :: "string list"
  hd_missing :: "string list"
  hd_rejected :: "(string \<times> nat \<times> nat) list"

definition head_chunk :: "string \<Rightarrow> chunk_row \<Rightarrow> heads \<times> control \<Rightarrow> heads \<times> control" where
  "head_chunk uid row = (\<lambda>(h, s).
     if ch_storedAt row \<noteq> None then (h, s)
     else
       (let key = chunkObjectKey uid (ch_hash row)
        in case js_get (ct_objects s) key of
             None \<Rightarrow> (h\<lparr>hd_missing := hd_missing h @ [ch_hash row]\<rparr>, s)
           | Some bytes \<Rightarrow>
               if bytes \<noteq> ch_sizeBytes row then
                 (h\<lparr>hd_missing := hd_missing h @ [ch_hash row],
                    hd_rejected := hd_rejected h @ [(ch_hash row, ch_sizeBytes row, bytes)]\<rparr>,
                  s\<lparr>ct_objects := js_del (ct_objects s) key\<rparr>)
               else (h\<lparr>hd_confirmed := hd_confirmed h @ [ch_hash row]\<rparr>, s)))"

definition rejected_json :: "string \<times> nat \<times> nat \<Rightarrow> json" where
  "rejected_json = (\<lambda>(h, declared, stored). JObj [(''hash'', JStr h), (''declaredBytes'', JInt (int declared)),
     (''storedBytes'', JInt (int stored))])"

text \<open>The first step: \<open>None\<close> when the file is not the caller's.\<close>

definition complete_check :: "caller \<Rightarrow> string \<Rightarrow> control \<Rightarrow> heads option \<times> control" where
  "complete_check ca fid s =
     (case ownedFile s (ca_userId ca) fid of
        None \<Rightarrow> (None, s)
      | Some file \<Rightarrow>
          (let rows = ownedChunks s (ca_userId ca) (distinctFileHashes s fid);
               (h, s1) = fold (head_chunk (ca_userId ca)) rows (\<lparr>hd_confirmed = [], hd_missing = [], hd_rejected = []\<rparr>, s)
           in (Some h,
               if hd_rejected h = [] then s1
               else audit (ca_now ca) (ca_userId ca) ''files.chunk_rejected''
                      [(''fileId'', JStr fid), (''path'', JStr (fl_path file)),
                       (''count'', JInt (int (length (hd_rejected h)))),
                       (''chunks'', JArr (map rejected_json (take 20 (hd_rejected h))))] (ca_deviceId ca) s1)))"

definition mark_stored :: "nat \<Rightarrow> string \<Rightarrow> string list \<Rightarrow> control \<Rightarrow> control" where
  "mark_stored now uid hashes s =
     s\<lparr>db_chunks := update_rows (\<lambda>c. ch_userId c = uid \<and> ch_hash c \<in> set hashes \<and> ch_storedAt c = None)
          (\<lambda>c. c\<lparr>ch_storedAt := Some now\<rparr>) (db_chunks s)\<rparr>"

definition chunks_missing :: "string list \<Rightarrow> 'b reply" where
  "chunks_missing missing = Refused 409 ''chunks_missing'' (map (\<lambda>h. (''missing'', h)) missing)"

text \<open>The second step: the transaction.\<close>

definition complete_commit :: "caller \<Rightarrow> string \<Rightarrow> heads \<Rightarrow> control \<Rightarrow> FileEntry reply \<times> control" where
  "complete_commit ca fid h s =
     (let uid = ca_userId ca; now = ca_now ca; s1 = mark_stored now uid (hd_confirmed h) s
      in if hd_missing h \<noteq> [] then (chunks_missing (hd_missing h), s1)
         else
           (case ownedFile s1 uid fid of
              None \<Rightarrow> (Refused 404 ''not_found'' [], s1)
            | Some current \<Rightarrow>
                (let unstored = map ch_hash (filter (\<lambda>c. ch_storedAt c = None)
                       (ownedChunks s1 uid (distinctFileHashes s1 fid)))
                 in if unstored \<noteq> [] then (chunks_missing unstored, s1)
                    else
                      (let done = (\<lambda>f. f\<lparr>fl_completedAt := Some now, fl_updatedAt := now\<rparr>)
                       in (Replied 200 (fileEntryView (done current)),
                           audit now uid ''files.uploaded''
                             [(''fileId'', JStr fid), (''path'', JStr (fl_path current)),
                              (''sizeBytes'', JInt (int (fl_sizeBytes current)))] (ca_deviceId ca)
                             (s1\<lparr>db_files := update_rows (\<lambda>f. fl_id f = fid) done (db_files s1)\<rparr>))))))"

definition complete_upload :: "caller \<Rightarrow> string \<Rightarrow> control \<Rightarrow> FileEntry reply \<times> control" where
  "complete_upload ca fid s =
     (case complete_check ca fid s of
        (None, s1) \<Rightarrow> (Refused 404 ''not_found'' [], s1)
      | (Some h, s1) \<Rightarrow> complete_commit ca fid h s1)"

section \<open>Reading\<close>

definition files_quota :: "caller \<Rightarrow> control \<Rightarrow> (QuotaVerdict \<times> nat) reply" where
  "files_quota ca s =
     Replied 200 (checkQuota (quotaState s (ca_userId ca)) 0,
       length (filter (\<lambda>f. fl_userId f = ca_userId ca) (db_files s)))"

definition path_file :: "caller \<Rightarrow> string \<Rightarrow> control \<Rightarrow> (file_row \<Rightarrow> 'b reply) \<Rightarrow> 'b reply" where
  "path_file ca raw s k =
     (case normalizeFilePath raw of
        Inl r \<Rightarrow> Refused 400 ''invalid_path'' [(''reason'', path_refusal_text r)]
      | Inr path \<Rightarrow>
          (case file_at s (ca_userId ca) path of
             None \<Rightarrow> Refused 404 ''not_found'' []
           | Some file \<Rightarrow> k file))"

definition files_stat :: "caller \<Rightarrow> string \<Rightarrow> control \<Rightarrow> (FileEntry \<times> bool \<times> nat) reply" where
  "files_stat ca raw s =
     path_file ca raw s (\<lambda>file.
       Replied 200 (fileEntryView file, fl_completedAt file \<noteq> None,
         length (filter (\<lambda>r. fc_fileId r = fl_id file) (db_fileChunks s))))"

definition stored_manifest :: "control \<Rightarrow> file_row \<Rightarrow> Manifest" where
  "stored_manifest s file =
     \<lparr>mf_fileHash = fl_fileHash file, mf_totalBytes = fl_sizeBytes file,
      mf_chunks = map (\<lambda>r. \<lparr>cr_hash = fc_hash r, cr_offset = fc_offset r, cr_length = fc_length r\<rparr>)
        (sort_key fc_idx (filter (\<lambda>r. fc_fileId r = fl_id file) (db_fileChunks s)))\<rparr>"

definition read_manifest :: "caller \<Rightarrow> string \<Rightarrow> control \<Rightarrow> Manifest reply" where
  "read_manifest ca raw s =
     path_file ca raw s (\<lambda>file.
       if fl_completedAt file = None then Refused 409 ''incomplete'' [] else Replied 200 (stored_manifest s file))"

definition PRESIGN_TTL_SECONDS :: nat where "PRESIGN_TTL_SECONDS = 900"

text \<open>An upload address, or none when the chunk is stored already; then the size.\<close>

definition chunk_upload_url :: "'k control_env \<Rightarrow> caller \<Rightarrow> string \<Rightarrow> control \<Rightarrow> (string option \<times> nat) reply" where
  "chunk_upload_url cn ca hash s =
     (case chunk_of s (ca_userId ca) hash of
        None \<Rightarrow> Refused 404 ''not_found'' []
      | Some chunk \<Rightarrow>
          (let verdict = checkQuota (quotaState s (ca_userId ca)) 0
           in if qv_softBlocked verdict then quota_exceeded verdict
              else if ch_storedAt chunk \<noteq> None then Replied 200 (None, ch_sizeBytes chunk)
              else Replied 200 (Some (cn_presign cn ''PUT'' (chunkObjectKey (ca_userId ca) hash) PRESIGN_TTL_SECONDS
                                   (Some (ch_sizeBytes chunk))), ch_sizeBytes chunk)))"

definition chunk_download_url :: "'k control_env \<Rightarrow> caller \<Rightarrow> string \<Rightarrow> control \<Rightarrow> (string \<times> nat) reply" where
  "chunk_download_url cn ca hash s =
     (case chunk_of s (ca_userId ca) hash of
        None \<Rightarrow> Refused 404 ''not_found'' []
      | Some chunk \<Rightarrow>
          if ch_storedAt chunk = None then Refused 404 ''not_found'' []
          else Replied 200 (cn_presign cn ''GET'' (chunkObjectKey (ca_userId ca) hash) PRESIGN_TTL_SECONDS None,
                 ch_sizeBytes chunk))"

text \<open>What the object store does with an upload to an address it was given.\<close>

definition put_object :: "string \<Rightarrow> string \<Rightarrow> nat \<Rightarrow> control \<Rightarrow> control" where
  "put_object uid hash bytes s = s\<lparr>ct_objects := js_set (ct_objects s) (chunkObjectKey uid hash) bytes\<rparr>"

section \<open>Listing and deleting\<close>

fun escapeLike :: "string \<Rightarrow> string" where
  "escapeLike [] = []"
| "escapeLike (c # cs) =
     (if c = CHR 0x5C \<or> c = CHR ''%'' \<or> c = CHR ''_'' then CHR 0x5C # c # escapeLike cs else c # escapeLike cs)"

text \<open>The LIKE of the database, with backslash as the escape.\<close>

fun like_match :: "string \<Rightarrow> string \<Rightarrow> bool" where
  "like_match [] s = (s = [])"
| "like_match (p # ps) s =
     (if p = CHR ''%'' then like_match ps s \<or> (case s of [] \<Rightarrow> False | _ # t \<Rightarrow> like_match (p # ps) t)
      else if p = CHR ''_'' then (case s of [] \<Rightarrow> False | _ # t \<Rightarrow> like_match ps t)
      else if p = CHR 0x5C then
        (case ps of [] \<Rightarrow> False | q # qs \<Rightarrow> (case s of [] \<Rightarrow> False | c # t \<Rightarrow> c = q \<and> like_match qs t))
      else (case s of [] \<Rightarrow> False | c # t \<Rightarrow> c = p \<and> like_match ps t))"

record files_page =
  fp_files :: "(FileEntry \<times> bool) list"
  fp_nextCursor :: "string option"

text \<open>\<open>collate\<close>: the sort key of a text in the collation of the database.\<close>

definition listed_files ::
  "(string \<Rightarrow> nat list) \<Rightarrow> string \<Rightarrow> string \<Rightarrow> string option \<Rightarrow> control \<Rightarrow> file_row list" where
  "listed_files collate uid normalized cursor s =
     sort_key (\<lambda>f. collate (fl_path f))
       (filter (\<lambda>f. fl_userId f = uid \<and>
          (normalized = ''/'' \<or> fl_path f = normalized \<or> like_match (escapeLike normalized @ ''/%'') (fl_path f)) \<and>
          (case cursor of None \<Rightarrow> True | Some c \<Rightarrow> collate (fl_path f) > collate c)) (db_files s))"

definition list_files ::
  "(string \<Rightarrow> nat list) \<Rightarrow> caller \<Rightarrow> string option \<Rightarrow> nat \<Rightarrow> string option \<Rightarrow> control \<Rightarrow> files_page reply" where
  "list_files collate ca pre limit cursor s =
     (case (case pre of None \<Rightarrow> Some ''/'' | Some p \<Rightarrow> normalizePrefix p) of
        None \<Rightarrow> Refused 400 ''invalid_path'' [(''reason'', ''traversal'')]
      | Some normalized \<Rightarrow>
          (let rows = take (limit + 1) (listed_files collate (ca_userId ca) normalized cursor s);
               page = take limit rows
           in Replied 200
                \<lparr>fp_files = map (\<lambda>f. (fileEntryView f, fl_completedAt f \<noteq> None)) page,
                 fp_nextCursor = (if length rows > limit \<and> page \<noteq> [] then Some (fl_path (last page)) else None)\<rparr>))"

definition delete_file :: "caller \<Rightarrow> string \<Rightarrow> control \<Rightarrow> string reply \<times> control" where
  "delete_file ca fid s =
     (case ownedFile s (ca_userId ca) fid of
        None \<Rightarrow> (Refused 404 ''not_found'' [], s)
      | Some file \<Rightarrow>
          (let (hashes, s1) = detachFileChunks (fl_id file) s;
               (orphans, s2) = releaseHashes (ca_userId ca) hashes s1;
               s3 = s2\<lparr>db_files := filter (\<lambda>f. fl_id f \<noteq> fl_id file) (db_files s2)\<rparr>
           in (Replied 200 (fl_path file),
               audit (ca_now ca) (ca_userId ca) ''files.deleted''
                 [(''fileId'', JStr (fl_id file)), (''path'', JStr (fl_path file)),
                  (''sizeBytes'', JInt (int (fl_sizeBytes file)))] (ca_deviceId ca)
                 (deleteOrphanObjects (ca_userId ca) orphans s3))))"

end
