(* ===== verification/ControlTransfers.thy ===== *)
theory ControlTransfers
  imports ControlFiles
begin

text \<open>
  Cloud fetches in the control plane (services/control/src/app.ts): admission, progress reported by
  the agent or relayed by a device, cancelling, listing.
\<close>

section \<open>Transfers\<close>

record Transfer =
  tv_id :: string
  tv_url :: string
  tv_destPath :: string
  tv_state :: TransferState
  tv_receivedBytes :: nat
  tv_totalBytes :: nat
  tv_originDeviceId :: "string option"
  tv_error :: "string option"
  tv_startedAtMs :: nat
  tv_updatedAtMs :: nat

definition transferView :: "'k control_env \<Rightarrow> transfer_row \<Rightarrow> Transfer" where
  "transferView cn row =
     \<lparr>tv_id = tr_id row, tv_url = redactTransferUrl (cn_parseUrl cn) (tr_url row), tv_destPath = tr_destPath row,
      tv_state = tr_state row, tv_receivedBytes = tr_receivedBytes row, tv_totalBytes = tr_totalBytes row,
      tv_originDeviceId = tr_originDeviceId row, tv_error = tr_error row, tv_startedAtMs = tr_startedAt row,
      tv_updatedAtMs = tr_updatedAt row\<rparr>"

definition list_transfers ::
  "'k control_env \<Rightarrow> caller \<Rightarrow> TransferState option \<Rightarrow> nat \<Rightarrow> control \<Rightarrow> Transfer list reply" where
  "list_transfers cn ca state limit s =
     Replied 200 (map (transferView cn) (take limit
       (rev (sort_key tr_startedAt (sort_key tr_id
          (filter (\<lambda>t. tr_userId t = ca_userId ca \<and> (case state of None \<Rightarrow> True | Some st \<Rightarrow> tr_state t = st))
             (db_transfers s)))))))"

definition maxActiveTransfers :: nat where "maxActiveTransfers = 32"

definition checkActiveTransfers :: "nat \<Rightarrow> (string \<times> string) option" where
  "checkActiveTransfers activeTransfers =
     (if activeTransfers \<ge> maxActiveTransfers
      then Some (''active_transfers'',
             ''Transfer limit reached: '' @ decimal_text activeTransfers @ '' already queued or running (max '' @
             decimal_text maxActiveTransfers @ ''). Existing transfers keep going.'')
      else None)"

definition active_transfers :: "control \<Rightarrow> string \<Rightarrow> nat" where
  "active_transfers s uid =
     length (filter (\<lambda>t. tr_userId t = uid \<and> tr_state t \<in> set ACTIVE_TRANSFER_STATES) (db_transfers s))"

record transfer_request =
  tq_url :: string
  tq_destPath :: string
  tq_totalBytes :: "nat option"

fun fetch_refusal_text :: "CloudFetchRefusal \<Rightarrow> string" where
  "fetch_refusal_text NotHttp = ''not_http''"
| "fetch_refusal_text UserinfoInUrl = ''userinfo_in_url''"
| "fetch_refusal_text CredentialedRequest = ''credentialed_request''"
| "fetch_refusal_text PrivateHost = ''private_host''"
| "fetch_refusal_text TooSmall = ''too_small''"
| "fetch_refusal_text PolicyLocalOnly = ''policy_local_only''"

definition fetch_context :: "transfer_request \<Rightarrow> DownloadContext" where
  "fetch_context body =
     \<lparr>dl_url = tq_url body, dl_totalBytes = tq_totalBytes body, dl_hasCookies = False, dl_hasAuthHeader = False,
      dl_usesClientCert = False, dl_alwaysLocal = False\<rparr>"

definition new_transfer :: "caller \<Rightarrow> string \<Rightarrow> string \<Rightarrow> transfer_request \<Rightarrow> transfer_row" where
  "new_transfer ca tid path body =
     \<lparr>tr_id = tid, tr_userId = ca_userId ca, tr_url = tq_url body, tr_destPath = path, tr_state = TQueued,
      tr_receivedBytes = 0, tr_totalBytes = (case tq_totalBytes body of None \<Rightarrow> 0 | Some n \<Rightarrow> n),
      tr_originDeviceId = ca_deviceId ca, tr_error = None, tr_startedAt = ca_now ca, tr_updatedAt = ca_now ca\<rparr>"

definition verdict_text :: "CloudFetchVerdict \<Rightarrow> string" where
  "verdict_text v =
     (case v of EligiblePublic \<Rightarrow> ''public'' | EligiblePresigned \<Rightarrow> ''presigned'' | Ineligible r \<Rightarrow> fetch_refusal_text r)"

text \<open>The transaction under the account lock: the quota, then the number of transfers in flight.\<close>

definition admit_transfer ::
  "'k control_env \<Rightarrow> caller \<Rightarrow> string \<Rightarrow> string \<Rightarrow> CloudFetchVerdict \<Rightarrow> transfer_request \<Rightarrow> control \<Rightarrow>
   (Transfer \<times> CloudFetchVerdict) reply \<times> control" where
  "admit_transfer cn ca tid path eligibility body s =
     (let admissionBytes = (case tq_totalBytes body of None \<Rightarrow> CLOUD_FETCH_MIN_BYTES | Some n \<Rightarrow> n);
          verdict = checkQuota (quotaState s (ca_userId ca)) admissionBytes;
          active = active_transfers s (ca_userId ca)
      in if \<not> qv_allowed verdict
         then (quota_exceeded verdict, quota_blocked ca path admissionBytes (qv_usedBytes verdict) s)
         else
           (case checkActiveTransfers active of
              Some (limit, reason) \<Rightarrow>
                (Refused 429 ''abuse_limit'' [(''limit'', limit), (''reason'', reason)],
                 audit (ca_now ca) (ca_userId ca) ''abuse.limit_hit''
                   [(''limit'', JStr limit), (''reason'', JStr reason), (''count'', JInt (int active)),
                    (''max'', JInt (int maxActiveTransfers))] (ca_deviceId ca) s)
            | None \<Rightarrow>
                (let transfer = new_transfer ca tid path body
                 in (Replied 201 (transferView cn transfer, eligibility),
                     audit (ca_now ca) (ca_userId ca) ''transfer.created''
                       [(''transferId'', JStr tid),
                        (''host'', (case cn_parseUrl cn (tq_url body) of None \<Rightarrow> JNull | Some u \<Rightarrow> JStr (fu_hostname u))),
                        (''destPath'', JStr path), (''eligibility'', JStr (verdict_text eligibility))] (ca_deviceId ca)
                       (s\<lparr>db_transfers := db_transfers s @ [transfer]\<rparr>)))))"

definition create_transfer ::
  "'k control_env \<Rightarrow> caller \<Rightarrow> string \<Rightarrow> transfer_request \<Rightarrow> control \<Rightarrow>
   (Transfer \<times> CloudFetchVerdict) reply \<times> control" where
  "create_transfer cn ca tid body s =
     (case normalizeFilePath (tq_destPath body) of
        Inl r \<Rightarrow> (Refused 400 ''invalid_path'' [(''reason'', path_refusal_text r)], s)
      | Inr path \<Rightarrow>
          if ''cloud-fetch'' \<notin> set (account_features s (ca_userId ca))
          then (Refused 403 ''feature_required'' [(''feature'', ''cloud-fetch'')], s)
          else
            (case cloudFetchEligibility (cn_parseUrl cn) (fetch_context body) of
               Ineligible r \<Rightarrow> (Refused 422 ''not_eligible'' [(''reason'', fetch_refusal_text r)], s)
             | eligibility \<Rightarrow> admit_transfer cn ca tid path eligibility body s))"

section \<open>Progress\<close>

fun transfer_state_text :: "TransferState \<Rightarrow> string" where
  "transfer_state_text TQueued = ''queued''"
| "transfer_state_text TFetching = ''fetching''"
| "transfer_state_text TStoring = ''storing''"
| "transfer_state_text TCompleted = ''completed''"
| "transfer_state_text TFailed = ''failed''"
| "transfer_state_text TCancelled = ''cancelled''"

record progress_report =
  pr_transferId :: string
  pr_state :: TransferState
  pr_receivedBytes :: nat
  pr_totalBytes :: "nat option"
  pr_error :: "string option"

text \<open>What a report is refused for, in the order of the checks.\<close>

definition progress_refusal :: "transfer_row \<Rightarrow> progress_report \<Rightarrow> (nat \<times> string \<times> (string \<times> string) list) option" where
  "progress_refusal t body =
     (let from = tr_state t;
          total = (if tr_totalBytes t > 0 then tr_totalBytes t else (case pr_totalBytes body of None \<Rightarrow> 0 | Some n \<Rightarrow> n))
      in if isTerminalTransfer from then Some (409, ''transfer_terminal'', [(''state'', transfer_state_text from)])
         else if \<not> canTransferTransition from (pr_state body)
         then Some (409, ''illegal_transition'',
                [(''from'', transfer_state_text from), (''to'', transfer_state_text (pr_state body))])
         else if (case pr_totalBytes body of None \<Rightarrow> False | Some n \<Rightarrow> tr_totalBytes t > 0 \<and> n \<noteq> tr_totalBytes t)
         then Some (400, ''out_of_range'', [(''field'', ''totalBytes''), (''reason'', ''total_changed'')])
         else if pr_receivedBytes body < tr_receivedBytes t
         then Some (400, ''out_of_range'', [(''field'', ''receivedBytes''), (''reason'', ''decreased'')])
         else if total > 0 \<and> pr_receivedBytes body > total
         then Some (400, ''out_of_range'', [(''field'', ''receivedBytes''), (''reason'', ''exceeds_total'')])
         else None)"

definition progressed :: "'k control_env \<Rightarrow> nat \<Rightarrow> progress_report \<Rightarrow> transfer_row \<Rightarrow> transfer_row" where
  "progressed cn now body t =
     t\<lparr>tr_state := pr_state body, tr_receivedBytes := pr_receivedBytes body,
       tr_totalBytes := (if tr_totalBytes t > 0 then tr_totalBytes t
                         else (case pr_totalBytes body of None \<Rightarrow> 0 | Some n \<Rightarrow> n)),
       tr_error := pr_error body, tr_updatedAt := now,
       tr_url := (if isTerminalTransfer (pr_state body) then redactTransferUrl (cn_parseUrl cn) (tr_url t) else tr_url t)\<rparr>"

definition transfer_of :: "control \<Rightarrow> string \<Rightarrow> string \<Rightarrow> transfer_row option" where
  "transfer_of s uid tid = row_with (\<lambda>t. tr_id t = tid \<and> tr_userId t = uid) (db_transfers s)"

definition updateTransferProgress ::
  "'k control_env \<Rightarrow> nat \<Rightarrow> string \<Rightarrow> progress_report \<Rightarrow> control \<Rightarrow> Transfer reply \<times> control" where
  "updateTransferProgress cn now uid body s =
     (case transfer_of s uid (pr_transferId body) of
        None \<Rightarrow> (Refused 404 ''not_found'' [], s)
      | Some t \<Rightarrow>
          (case progress_refusal t body of
             Some (status, e, extras) \<Rightarrow> (Refused status e extras, s)
           | None \<Rightarrow>
               (Replied 200 (transferView cn (progressed cn now body t)),
                s\<lparr>db_transfers := update_rows (\<lambda>r. tr_id r = tr_id t \<and> tr_state r = tr_state t) (progressed cn now body)
                     (db_transfers s)\<rparr>)))"

definition agent_progress ::
  "'k control_env \<Rightarrow> agent \<Rightarrow> nat \<Rightarrow> progress_report \<Rightarrow> control \<Rightarrow> Transfer reply \<times> control" where
  "agent_progress cn ag now body s =
     (case transferReportRefusal (ag_caps ag) of
        Some refusal \<Rightarrow> (Refused 403 ''capability_refused'' [(''reason'', refusal)], s)
      | None \<Rightarrow> updateTransferProgress cn now (ag_userId ag) body s)"

definition device_progress ::
  "'k control_env \<Rightarrow> caller \<Rightarrow> progress_report \<Rightarrow> control \<Rightarrow> Transfer reply \<times> control" where
  "device_progress cn ca body s = updateTransferProgress cn (ca_now ca) (ca_userId ca) body s"

definition cancel_transfer ::
  "'k control_env \<Rightarrow> caller \<Rightarrow> string \<Rightarrow> control \<Rightarrow> Transfer reply \<times> control" where
  "cancel_transfer cn ca tid s =
     (case transfer_of s (ca_userId ca) tid of
        None \<Rightarrow> (Refused 404 ''not_found'' [], s)
      | Some t \<Rightarrow>
          (let from = tr_state t;
               cancelled = (\<lambda>r. r\<lparr>tr_state := TCancelled, tr_url := redactTransferUrl (cn_parseUrl cn) (tr_url t),
                                  tr_updatedAt := ca_now ca\<rparr>)
           in if isTerminalTransfer from
              then (Refused 409 ''transfer_terminal'' [(''state'', transfer_state_text from)], s)
              else
                (Replied 200 (transferView cn (cancelled t)),
                 audit (ca_now ca) (ca_userId ca) ''transfer.cancelled''
                   [(''transferId'', JStr tid), (''destPath'', JStr (tr_destPath t)),
                    (''from'', JStr (transfer_state_text from))] (ca_deviceId ca)
                   (s\<lparr>db_transfers := update_rows (\<lambda>r. tr_id r = tid \<and> tr_state r = from) cancelled
                        (db_transfers s)\<rparr>))))"

end
