(* ===== verification/ControlPlane.thy ===== *)
theory ControlPlane
  imports ControlTransfers
begin

text \<open>
  The control plane as a whole (\<open>createApp\<close> of services/control/src/app.ts): the middleware that sends a
  request to one of the three families of credentials, the routes that change state behind it, the
  periodic drain of the outbox, and runs.  A request gives its status and the new state; a route that
  only reads changes nothing and is left out of the steps.
\<close>

fun status :: "'b reply \<Rightarrow> nat" where
  "status (Refused n _ _) = n"
| "status Fault = 500"
| "status (Replied n _) = n"

abbreviation answered :: "'b reply \<times> control \<Rightarrow> nat \<times> control" where
  "answered \<equiv> map_prod status id"

section \<open>Requests\<close>

datatype public_op =
    DeviceChallenge "byte list" string
  | DeviceCredential string string string string
  | DeviceLogin string string string
  | TokenRefresh string "string option" "(string \<times> string) option"
  | LoginBegin "byte list" string
  | LoginFinish string string string AssertionCredential
  | RedeemCode string string
  | SignUp signup_ids "string option js_result" signup_body
  | MintInvites "string option" "string list" "string option" "string option"

datatype device_op =
    RegisterBegin "byte list"
  | RegisterFinish string RegistrationCredential "string option" "string option"
  | MintCode string "string option" "(string \<times> string) list option"
  | Enroll string enroll_body
  | RenameDevice string string
  | RevokeDevice string string "string option"
  | CreateSpace string create_space_body
  | PatchSpace string patch_space_body
  | PutWrapper string string WrapperKind string string string
  | SetRecovery string string string string
  | RemoveWrapper string string
  | Transition string "string option js_result" transition_body
  | SetJobMode string bool
  | MintCapability string "Capability list"
  | Boost string "string option js_result" nat
  | CreateManifest string manifest_request
  | CompleteUpload string
  | DeleteFile string
  | CreateTransfer string transfer_request
  | DeviceProgress progress_report
  | CancelTransfer string

datatype agent_op =
    ReportActivity activity_report
  | UsageSample string agent_sample
  | AgentProgress progress_report

datatype control_op =
    PublicOp nat public_op
  | DeviceOp nat "string option" device_op
  | AgentOp nat "string option" agent_op
  | EgressOp nat "string option" string string nat nat
  | OutboxDrain nat
  | PutObject string string nat

section \<open>Routes\<close>

fun public_step :: "'k control_env \<Rightarrow> nat \<Rightarrow> public_op \<Rightarrow> control \<Rightarrow> nat \<times> control" where
  "public_step cn now (DeviceChallenge random dev) s = answered (device_challenge random now dev s)"
| "public_step cn now (DeviceCredential jti dev key sig) s = answered (device_credential cn now jti dev key sig s)"
| "public_step cn now (DeviceLogin jti dev sig) s = answered (device_login cn now jti dev sig s)"
| "public_step cn now (TokenRefresh jti header body) s = answered (token_refresh cn now jti header body s)"
| "public_step cn now (LoginBegin random uid) s = answered (webauthn_login_begin cn now random uid s)"
| "public_step cn now (LoginFinish jti uid dev cred) s = answered (webauthn_login_finish cn now jti uid dev cred s)"
| "public_step cn now (RedeemCode jti code) s = answered (redeem_enrollment_code cn now jti code s)"
| "public_step cn now (SignUp ids provision body) s = answered (signup cn now ids provision body s)"
| "public_step cn now (MintInvites header codes email note) s = answered (mint_invites cn now header codes email note s)"

fun device_step :: "'k control_env \<Rightarrow> caller \<Rightarrow> device_op \<Rightarrow> control \<Rightarrow> nat \<times> control" where
  "device_step cn ca (RegisterBegin random) s = answered (webauthn_register_begin cn ca random s)"
| "device_step cn ca (RegisterFinish jti cred dev label) s = answered (webauthn_register_finish cn ca jti cred dev label s)"
| "device_step cn ca (MintCode hash salt wrappers) s = answered (mint_enrollment_code cn ca hash salt wrappers s)"
| "device_step cn ca (Enroll dev body) s = answered (enroll_device ca dev body s)"
| "device_step cn ca (RenameDevice dev name) s = answered (rename_device ca dev name s)"
| "device_step cn ca (RevokeDevice outboxId dev reason) s = answered (revoke_device cn ca outboxId dev reason s)"
| "device_step cn ca (CreateSpace sid body) s = answered (create_space ca sid body s)"
| "device_step cn ca (PatchSpace sid body) s = answered (patch_space ca sid body s)"
| "device_step cn ca (PutWrapper wid sid kind cred salt wrapped) s = answered (put_wrapper ca wid sid kind cred salt wrapped s)"
| "device_step cn ca (SetRecovery wid sid salt wrapped) s = answered (set_recovery ca wid sid salt wrapped s)"
| "device_step cn ca (RemoveWrapper sid wid) s = answered (remove_wrapper ca sid wid s)"
| "device_step cn ca (Transition eid answer body) s = answered (machine_transition ca eid answer body s)"
| "device_step cn ca (SetJobMode ptyId enabled) s = answered (set_job_mode ca ptyId enabled s)"
| "device_step cn ca (MintCapability jti caps) s = answered (mint_capability cn ca jti caps s)"
| "device_step cn ca (Boost eid answer memoryMb) s = answered (machine_boost ca eid answer memoryMb s)"
| "device_step cn ca (CreateManifest fid body) s = answered (create_manifest ca fid body s)"
| "device_step cn ca (CompleteUpload fid) s = answered (complete_upload ca fid s)"
| "device_step cn ca (DeleteFile fid) s = answered (delete_file ca fid s)"
| "device_step cn ca (CreateTransfer tid body) s = answered (create_transfer cn ca tid body s)"
| "device_step cn ca (DeviceProgress body) s = answered (device_progress cn ca body s)"
| "device_step cn ca (CancelTransfer tid) s = answered (cancel_transfer cn ca tid s)"

fun agent_step :: "'k control_env \<Rightarrow> agent \<Rightarrow> nat \<Rightarrow> agent_op \<Rightarrow> control \<Rightarrow> nat \<times> control" where
  "agent_step cn ag now (ReportActivity body) s = answered (report_activity ag now body s)"
| "agent_step cn ag now (UsageSample sid body) s = answered (usage_sample ag now sid body s)"
| "agent_step cn ag now (AgentProgress body) s = answered (agent_progress cn ag now body s)"

section \<open>The middleware\<close>

text \<open>The owner of a machine, as \<open>bearerAgent\<close> looks it up.\<close>

definition machine_owner :: "control \<Rightarrow> string \<Rightarrow> string option" where
  "machine_owner s mid = map_option mc_userId (row_with (\<lambda>m. mc_id m = mid) (db_machines s))"

text \<open>
  An upload to a presigned address: the object store refuses a body whose length is not the one that
  was signed, the declared size of the chunk.
\<close>

fun control_request :: "'k control_env \<Rightarrow> control_op \<Rightarrow> control \<Rightarrow> nat \<times> control" where
  "control_request cn (PublicOp now op) s = public_step cn now op s"
| "control_request cn (DeviceOp now header op) s =
     (case bearerAuth cn s now header of
        Inl None \<Rightarrow> (401, s)
      | Inl (Some _) \<Rightarrow> (500, s)
      | Inr ca \<Rightarrow> device_step cn ca op s)"
| "control_request cn (AgentOp now header op) s =
     (case bearerAgent (cn_tokens cn) (cn_verifyKey cn) (machine_owner s) (now div 1000) header of
        Inl _ \<Rightarrow> (401, s)
      | Inr ag \<Rightarrow> agent_step cn ag now op s)"
| "control_request cn (EgressOp now header sid uid start bytes) s =
     (case bearerGateway cn header of
        Some (code, _) \<Rightarrow> (code, s)
      | None \<Rightarrow> answered (usage_egress now sid uid start bytes s))"
| "control_request cn (OutboxDrain now) s = (200, snd (snd (flushRevocationOutbox cn now s)))"
| "control_request cn (PutObject uid hash bytes) s =
     (case chunk_of s uid hash of
        None \<Rightarrow> (403, s)
      | Some c \<Rightarrow> if bytes = ch_sizeBytes c then (200, put_object uid hash bytes s) else (403, s))"

section \<open>Runs\<close>

text \<open>Ids come from a generator of random ids; a request whose id is taken does not happen.\<close>

fun fresh_device_op :: "device_op \<Rightarrow> control \<Rightarrow> bool" where
  "fresh_device_op (Enroll dev _) s \<longleftrightarrow> dev \<notin> set (map dv_id (db_devices s))"
| "fresh_device_op (RevokeDevice oid _ _) s \<longleftrightarrow> oid \<notin> set (map ob_id (db_revocationOutbox s))"
| "fresh_device_op (CreateSpace sid _) s \<longleftrightarrow> sid \<notin> set (map cs_id (db_spaces s))"
| "fresh_device_op (PutWrapper wid _ _ _ _ _) s \<longleftrightarrow> wid \<notin> set (map kw_id (db_keyWrappers s))"
| "fresh_device_op (SetRecovery wid _ _ _) s \<longleftrightarrow> wid \<notin> set (map kw_id (db_keyWrappers s))"
| "fresh_device_op (CreateManifest fid _) s \<longleftrightarrow> fid \<notin> set (map fl_id (db_files s))"
| "fresh_device_op (CreateTransfer tid _) s \<longleftrightarrow> tid \<notin> set (map tr_id (db_transfers s))"
| "fresh_device_op _ s \<longleftrightarrow> True"

fun fresh_op :: "control_op \<Rightarrow> control \<Rightarrow> bool" where
  "fresh_op (PublicOp _ (SignUp ids _ _)) s \<longleftrightarrow>
     si_user ids \<notin> set (map us_id (db_users s)) \<and> si_space ids \<notin> set (map cs_id (db_spaces s)) \<and>
     si_machine ids \<notin> set (map mc_id (db_machines s)) \<and> CHR ''/'' \<notin> set (si_user ids)"
| "fresh_op (DeviceOp _ _ op) s \<longleftrightarrow> fresh_device_op op s"
| "fresh_op _ s \<longleftrightarrow> True"

definition control_step :: "'k control_env \<Rightarrow> control \<Rightarrow> control_op \<Rightarrow> control" where
  "control_step cn s op = (if fresh_op op s then snd (control_request cn op s) else s)"

abbreviation control_run :: "'k control_env \<Rightarrow> control_op list \<Rightarrow> control" where
  "control_run cn ops \<equiv> foldl (control_step cn) empty_control ops"

end
