(* ===== verification/ControlFrames.thy ===== *)
theory ControlFrames
  imports ControlPlane
begin

text \<open>
  What the routes of the control plane leave alone.  The tables are gathered into views; a route keeps
  every view but the ones it is about.
\<close>

section \<open>Views\<close>

definition files_view :: "control \<Rightarrow> file_row list \<times> file_chunk_row list \<times> chunk_row list \<times> (string, nat) js_map" where
  "files_view s = (db_files s, db_fileChunks s, db_chunks s, ct_objects s)"

definition machine_view :: "control \<Rightarrow> machine_row list \<times> machine_event_row list" where
  "machine_view s = (db_machines s, db_machineEvents s)"

definition outbox_view :: "control \<Rightarrow> device_row list \<times> outbox_row list \<times> (string \<times> string) list" where
  "outbox_view s = (db_devices s, db_revocationOutbox s, ct_hubCalls s)"

definition keys_view :: "control \<Rightarrow> space_row list \<times> wrapper_row list" where
  "keys_view s = (db_spaces s, db_keyWrappers s)"

definition codes_view :: "control \<Rightarrow> invite_row list \<times> enrollment_row list" where
  "codes_view s = (db_invites s, db_enrollmentCodes s)"

named_theorems frame "what a route leaves alone"
named_theorems views "the views and what only the audit trail sees"

lemmas [views] = files_view_def machine_view_def outbox_view_def keys_view_def codes_view_def

lemma audit_views [simp]:
  "files_view (audit now u t p a s) = files_view s" "machine_view (audit now u t p a s) = machine_view s"
  "outbox_view (audit now u t p a s) = outbox_view s" "keys_view (audit now u t p a s) = keys_view s"
  "codes_view (audit now u t p a s) = codes_view s" "db_transfers (audit now u t p a s) = db_transfers s"
  "db_users (audit now u t p a s) = db_users s" "db_passkeys (audit now u t p a s) = db_passkeys s"
  "ct_challenges (audit now u t p a s) = ct_challenges s"
  "db_machineActivity (audit now u t p a s) = db_machineActivity s"
  "db_usageSamples (audit now u t p a s) = db_usageSamples s"
  by (simp_all add: audit_def views)

lemma audit_tables [simp]:
  "db_files (audit now u t p a s) = db_files s" "db_fileChunks (audit now u t p a s) = db_fileChunks s"
  "db_chunks (audit now u t p a s) = db_chunks s" "ct_objects (audit now u t p a s) = ct_objects s"
  "db_machines (audit now u t p a s) = db_machines s" "db_machineEvents (audit now u t p a s) = db_machineEvents s"
  "db_devices (audit now u t p a s) = db_devices s" "db_revocationOutbox (audit now u t p a s) = db_revocationOutbox s"
  "ct_hubCalls (audit now u t p a s) = ct_hubCalls s" "db_spaces (audit now u t p a s) = db_spaces s"
  "db_keyWrappers (audit now u t p a s) = db_keyWrappers s" "db_invites (audit now u t p a s) = db_invites s"
  "db_enrollmentCodes (audit now u t p a s) = db_enrollmentCodes s"
  by (simp_all add: audit_def)

text \<open>All the views at once, but those of the part a route belongs to.\<close>

definition beside_auth where
  "beside_auth s = (files_view s, machine_view s, outbox_view s, keys_view s, codes_view s, db_transfers s, db_users s)"

definition beside_account where
  "beside_account s = (files_view s, db_transfers s, db_passkeys s, ct_challenges s)"

definition beside_machine where
  "beside_machine s = (files_view s, outbox_view s, keys_view s, codes_view s, db_transfers s, db_users s, db_passkeys s,
     ct_challenges s)"

definition beside_files where
  "beside_files s = (machine_view s, outbox_view s, keys_view s, codes_view s, db_users s, db_passkeys s, ct_challenges s)"

section \<open>Authentication\<close>

lemma challenge_frame [simp]:
  "beside_auth (snd (issue_challenge random key now s)) = beside_auth s"
  "beside_auth (snd (take_challenge key now s)) = beside_auth s"
  "db_passkeys (snd (issue_challenge random key now s)) = db_passkeys s"
  "db_passkeys (snd (take_challenge key now s)) = db_passkeys s"
  by (simp_all add: issue_challenge_def take_challenge_def beside_auth_def views split: prod.split)

lemma auth_audit [simp]: "beside_auth (audit now u t p a s) = beside_auth s"
  by (simp add: beside_auth_def)

lemma auth_passkeys [simp]: "beside_auth (s\<lparr>db_passkeys := x\<rparr>) = beside_auth s"
  by (simp add: beside_auth_def views)

lemma proof_frame [simp]: "beside_auth (snd (verifyDeviceProof cn now dev sig s)) = beside_auth s"
  "db_passkeys (snd (verifyDeviceProof cn now dev sig s)) = db_passkeys s"
  by (simp_all add: verifyDeviceProof_def split_beta Let_def)

lemma device_auth_frame [frame]:
  "beside_auth (snd (device_challenge random now dev s)) = beside_auth s"
  "beside_auth (snd (device_credential cn now jti dev key sig s)) = beside_auth s"
  "beside_auth (snd (device_login cn now jti dev sig s)) = beside_auth s"
  by (auto simp: device_challenge_def device_credential_def device_login_def split_beta split: proof_result.split)

lemma refresh_frame [frame]: "beside_auth (snd (token_refresh cn now jti header body s)) = beside_auth s"
  by (auto simp: token_refresh_def refresh_proof_def split_beta split: proof_result.split option.split)

lemma passkey_frame [frame]:
  "beside_auth (snd (webauthn_register_begin cn ca random s)) = beside_auth s"
  "beside_auth (snd (webauthn_register_finish cn ca jti cred dev label s)) = beside_auth s"
  "beside_auth (snd (webauthn_login_begin cn now random uid s)) = beside_auth s"
  "beside_auth (snd (webauthn_login_finish cn now jti uid dev2 cred2 s)) = beside_auth s"
  by (auto simp: webauthn_register_begin_def webauthn_register_finish_def store_passkey_def webauthn_login_begin_def
      webauthn_login_finish_def Let_def split_beta split: option.split sum.split)

section \<open>Accounts, devices and spaces\<close>

lemma account_audit [simp]: "beside_account (audit now u t p a s) = beside_account s"
  by (simp add: beside_account_def)

lemma account_tables [simp]:
  "beside_account (s\<lparr>db_users := x1\<rparr>) = beside_account s" "beside_account (s\<lparr>db_invites := x2\<rparr>) = beside_account s"
  "beside_account (s\<lparr>db_enrollmentCodes := x3\<rparr>) = beside_account s"
  "beside_account (s\<lparr>db_devices := x4\<rparr>) = beside_account s" "beside_account (s\<lparr>db_spaces := x5\<rparr>) = beside_account s"
  "beside_account (s\<lparr>db_keyWrappers := x6\<rparr>) = beside_account s"
  "beside_account (s\<lparr>db_revocationOutbox := x7\<rparr>) = beside_account s"
  "beside_account (s\<lparr>ct_hubCalls := x8\<rparr>) = beside_account s"
  "beside_account (s\<lparr>db_machines := x9, ct_sandbox := x10\<rparr>) = beside_account s"
  "beside_account (s\<lparr>db_machines := x9\<rparr>) = beside_account s" "beside_account (s\<lparr>ct_sandbox := x10\<rparr>) = beside_account s"
  by (simp_all add: beside_account_def views)

lemma invite_frame [frame]: "beside_account (snd (mint_invites cn now header codes email note s)) = beside_account s"
  by (auto simp: mint_invites_def Let_def split: option.split)

lemma claim_frame [simp]: "beside_account (snd (claim_invite cn now code email s)) = beside_account s"
  by (auto simp: claim_invite_def split: option.split)

lemma provision_frame [simp]: "beside_account (snd (provision_machine m answer s)) = beside_account s"
  by (auto simp: provision_machine_def Let_def split: sum.split option.split)

lemma signup_frame [frame]: "beside_account (snd (signup cn now ids answer body s)) = beside_account s"
  by (auto simp: signup_def signup_rest_def record_redeemed_def Let_def split_beta split: sum.split option.split)

lemma code_frame [frame]:
  "beside_account (snd (mint_enrollment_code cn ca hash salt wrappers s)) = beside_account s"
  "beside_account (snd (redeem_enrollment_code cn now jti code s)) = beside_account s"
  by (auto simp: mint_enrollment_code_def redeem_enrollment_code_def Let_def split: option.split)

lemma notify_frame [simp]: "beside_account (snd (notify_hub cn uid dev s)) = beside_account s"
  by (simp add: notify_hub_def)

lemma flush_one_frame [simp]: "beside_account (snd (snd (flush_one cn now row t))) = beside_account (snd (snd t))"
  by (auto simp: flush_one_def Let_def split_beta split: sum.split bool.split)

lemma flush_fold_frame: "beside_account (snd (snd (fold (flush_one cn now) rows t))) = beside_account (snd (snd t))"
  by (induction rows arbitrary: t) simp_all

lemma flush_frame [simp]: "beside_account (snd (snd (flushRevocationOutbox cn now s))) = beside_account s"
  by (simp add: flushRevocationOutbox_def flush_fold_frame)

lemma device_frame [frame]:
  "beside_account (snd (enroll_device ca dev body s)) = beside_account s"
  "beside_account (snd (rename_device ca dev name s)) = beside_account s"
  "beside_account (snd (revoke_device cn ca oid dev reason s)) = beside_account s"
  by (auto simp: enroll_device_def claim_home_def rename_device_def revoke_device_def spread_revocation_def Let_def
      split_beta split: option.split)

lemma space_frame [frame]:
  "beside_account (snd (create_space ca sid body1 s)) = beside_account s"
  "beside_account (snd (patch_space ca sid body2 s)) = beside_account s"
  "beside_account (snd (put_wrapper ca wid sid kind cred salt wrapped s)) = beside_account s"
  "beside_account (snd (set_recovery ca wid sid salt wrapped s)) = beside_account s"
  "beside_account (snd (remove_wrapper ca sid wid s)) = beside_account s"
  by (auto simp: create_space_def patch_space_def put_wrapper_def set_recovery_def setRecoveryWrapper_def
      upsert_wrapper_def remove_wrapper_def Let_def split_beta split: option.split)

section \<open>The machine\<close>

lemma machine_audit [simp]: "beside_machine (audit now u t p a s) = beside_machine s"
  by (simp add: beside_machine_def)

lemma machine_tables [simp]:
  "beside_machine (s\<lparr>db_machines := x1\<rparr>) = beside_machine s" "beside_machine (record_move mid from f e s) = beside_machine s"
  "beside_machine (called c s) = beside_machine s" "beside_machine (set_address mid a s) = beside_machine s"
  "beside_machine (s\<lparr>db_machineActivity := x2\<rparr>) = beside_machine s"
  "beside_machine (s\<lparr>db_usageSamples := x3\<rparr>) = beside_machine s"
  by (simp_all add: beside_machine_def views record_move_def called_def set_address_def)

lemma drive_frame [simp]: "beside_machine (snd (drive_provider to uid mid answer s)) = beside_machine s"
  by (cases to) (auto simp: Let_def split: sum.split option.split)

lemma machine_frame [frame]:
  "beside_machine (snd (machine_transition ca eid answer body1 s)) = beside_machine s"
  "beside_machine (snd (report_activity ag now body2 s)) = beside_machine s"
  "beside_machine (snd (set_job_mode ca ptyId enabled s)) = beside_machine s"
  "beside_machine (snd (mint_capability cn ca jti caps s)) = beside_machine s"
  "beside_machine (snd (usage_sample ag now sid body3 s)) = beside_machine s"
  "beside_machine (snd (usage_egress now sid uid start bytes s)) = beside_machine s"
  "beside_machine (snd (machine_boost ca eid answer mb s)) = beside_machine s"
  by (auto simp: machine_transition_def report_activity_def set_job_mode_def mint_capability_def usage_sample_def
      usage_egress_def machine_boost_def Let_def split_beta split: option.split)

section \<open>Files and transfers\<close>

lemma files_audit [simp]: "beside_files (audit now u t p a s) = beside_files s"
  by (simp add: beside_files_def)

lemma files_tables [simp]:
  "beside_files (s\<lparr>db_files := x1\<rparr>) = beside_files s" "beside_files (s\<lparr>db_fileChunks := x2\<rparr>) = beside_files s"
  "beside_files (s\<lparr>db_chunks := x3\<rparr>) = beside_files s" "beside_files (s\<lparr>ct_objects := x4\<rparr>) = beside_files s"
  "beside_files (s\<lparr>db_transfers := x5\<rparr>) = beside_files s"
  "beside_files (attachChunks now uid fid m s) = beside_files s" "beside_files (deleteOrphanObjects uid hs s) = beside_files s"
  "beside_files (mark_stored now uid hs s) = beside_files s" "beside_files (put_object uid h n s) = beside_files s"
  "beside_files (quota_blocked ca path a b s) = beside_files s"
  by (simp_all add: beside_files_def views attachChunks_def deleteOrphanObjects_def mark_stored_def put_object_def
      quota_blocked_def Let_def)

lemma release_frame [simp]:
  "beside_files (snd (detachFileChunks fid s)) = beside_files s" "beside_files (snd (releaseHashes uid hs s)) = beside_files s"
  "beside_files (snd (write_file now uid fid path body s)) = beside_files s"
  by (auto simp: detachFileChunks_def releaseHashes_def write_file_def Let_def split: option.split)

lemma manifest_tx_frame [simp]: "beside_files (snd (manifest_tx now uid fid path body s)) = beside_files s"
  by (auto simp: manifest_tx_def Let_def split_beta split: option.split)

lemma head_frame: "beside_files (snd (fold (head_chunk uid) rows t)) = beside_files (snd t)"
proof (induction rows arbitrary: t)
  case (Cons r rows)
  have "beside_files (snd (head_chunk uid r t)) = beside_files (snd t)"
    by (auto simp: head_chunk_def Let_def split_beta split: option.split)
  then show ?case using Cons.IH by simp
qed simp

lemma complete_frame [simp]:
  "beside_files (snd (complete_check ca fid s)) = beside_files s" "beside_files (snd (complete_commit ca fid h s)) = beside_files s"
  by (auto simp: complete_check_def complete_commit_def head_frame Let_def split_beta split: option.split)

lemma files_frame [frame]:
  "beside_files (snd (create_manifest ca fid body1 s)) = beside_files s"
  "beside_files (snd (complete_upload ca fid s)) = beside_files s"
  "beside_files (snd (delete_file ca fid s)) = beside_files s"
  "beside_files (snd (create_transfer cn ca tid body2 s)) = beside_files s"
  "beside_files (snd (agent_progress cn ag now body3 s)) = beside_files s"
  "beside_files (snd (device_progress cn ca body3 s)) = beside_files s"
  "beside_files (snd (cancel_transfer cn ca tid s)) = beside_files s"
  by (auto simp: create_manifest_def complete_upload_def delete_file_def create_transfer_def admit_transfer_def
      agent_progress_def device_progress_def updateTransferProgress_def cancel_transfer_def Let_def split_beta
      split: option.split sum.split file_outcome.split CloudFetchVerdict.split)


text \<open>A transfer is no file, and a file no transfer.\<close>

lemma transfers_keep_files [frame]:
  "files_view (snd (create_transfer cn ca tid body2 s)) = files_view s"
  "files_view (snd (updateTransferProgress cn now uid body3 s)) = files_view s"
  "files_view (snd (agent_progress cn ag now body3 s)) = files_view s"
  "files_view (snd (device_progress cn ca body3 s)) = files_view s"
  "files_view (snd (cancel_transfer cn ca tid s)) = files_view s"
proof -
  have t: "files_view (s\<lparr>db_transfers := x\<rparr>) = files_view s" for x by (simp add: views)
  then show p: "files_view (snd (updateTransferProgress cn now uid body3 s)) = files_view s" for now uid body3
    by (auto simp: updateTransferProgress_def Let_def split: option.split)
  show "files_view (snd (create_transfer cn ca tid body2 s)) = files_view s"
    by (auto simp: create_transfer_def admit_transfer_def quota_blocked_def Let_def t
        split: option.split sum.split CloudFetchVerdict.split)
  show "files_view (snd (agent_progress cn ag now body3 s)) = files_view s"
    "files_view (snd (device_progress cn ca body3 s)) = files_view s"
    by (auto simp: agent_progress_def device_progress_def p split: option.split)
  show "files_view (snd (cancel_transfer cn ca tid s)) = files_view s"
    by (auto simp: cancel_transfer_def Let_def t split: option.split)
qed

section \<open>A request\<close>

lemmas auth_frames = device_auth_frame refresh_frame passkey_frame
lemmas account_frames = invite_frame signup_frame code_frame device_frame space_frame flush_frame

lemma beside_authD:
  "beside_auth s' = beside_auth s \<Longrightarrow> files_view s' = files_view s \<and> machine_view s' = machine_view s \<and>
     outbox_view s' = outbox_view s \<and> keys_view s' = keys_view s \<and> codes_view s' = codes_view s \<and>
     db_transfers s' = db_transfers s \<and> db_users s' = db_users s"
  by (simp add: beside_auth_def)

lemma beside_accountD:
  "beside_account s' = beside_account s \<Longrightarrow> files_view s' = files_view s \<and> db_transfers s' = db_transfers s \<and>
     db_passkeys s' = db_passkeys s \<and> ct_challenges s' = ct_challenges s"
  by (simp add: beside_account_def)

lemma beside_machineD:
  "beside_machine s' = beside_machine s \<Longrightarrow> files_view s' = files_view s \<and> outbox_view s' = outbox_view s \<and>
     keys_view s' = keys_view s \<and> codes_view s' = codes_view s \<and> db_transfers s' = db_transfers s \<and>
     db_users s' = db_users s \<and> db_passkeys s' = db_passkeys s \<and> ct_challenges s' = ct_challenges s"
  by (simp add: beside_machine_def)

lemma beside_filesD:
  "beside_files s' = beside_files s \<Longrightarrow> machine_view s' = machine_view s \<and> outbox_view s' = outbox_view s \<and>
     keys_view s' = keys_view s \<and> codes_view s' = codes_view s \<and> db_users s' = db_users s \<and>
     db_passkeys s' = db_passkeys s \<and> ct_challenges s' = ct_challenges s"
  by (simp add: beside_files_def)

lemmas kept = auth_frames[THEN beside_authD] account_frames[THEN beside_accountD]
  machine_frame[THEN beside_machineD] files_frame[THEN beside_filesD] transfers_keep_files

text \<open>The requests that can change the files, the machines, the devices and the transfers.\<close>

fun changes_files :: "control_op \<Rightarrow> bool" where
  "changes_files (DeviceOp _ _ (CreateManifest _ _)) = True"
| "changes_files (DeviceOp _ _ (CompleteUpload _)) = True"
| "changes_files (DeviceOp _ _ (DeleteFile _)) = True"
| "changes_files (PutObject _ _ _) = True"
| "changes_files _ = False"

lemma files_kept:
  assumes "\<not> changes_files op"
  shows "files_view (control_step cn s op) = files_view s"
proof (cases op)
  case (PublicOp now x)
  then show ?thesis by (cases x) (simp_all add: control_step_def kept)
next
  case (DeviceOp now h x)
  then show ?thesis using assms by (cases x) (simp_all add: control_step_def kept split: sum.split option.split)
next
  case (AgentOp now h x)
  then show ?thesis by (cases x) (simp_all add: control_step_def kept split: sum.split)
qed (use assms in \<open>simp_all add: control_step_def kept split: option.split\<close>)

end
