(* ===== verification/ControlRefs.thy ===== *)
theory ControlRefs
  imports ControlFrames
begin

text \<open>
  The references of Suma Files: a chunk row counts exactly the files that name the chunk.  A table of
  chunks keeps the count \<open>K\<close> (\<open>counts\<close>); taking references adds to \<open>K\<close> and releasing subtracts from it,
  so the operations on files need only say which claims they add and drop.  Then the quota.
\<close>

section \<open>A table of chunks that keeps a count\<close>

abbreviation chunk_key :: "chunk_row \<Rightarrow> string \<times> string" where
  "chunk_key c \<equiv> (ch_userId c, ch_hash c)"

definition counts :: "chunk_row list \<Rightarrow> (string \<Rightarrow> string \<Rightarrow> nat) \<Rightarrow> bool" where
  "counts rows K \<longleftrightarrow>
     distinct (map chunk_key rows) \<and>
     (\<forall>c \<in> set rows. ch_refCount c = K (ch_userId c) (ch_hash c) \<and> 0 < ch_refCount c) \<and>
     (\<forall>u h. 0 < K u h \<longrightarrow> (u, h) \<in> chunk_key ` set rows)"

abbreviation among :: "string \<Rightarrow> string set \<Rightarrow> string \<Rightarrow> string \<Rightarrow> nat" where
  "among uid H u h \<equiv> (if u = uid \<and> h \<in> H then 1 else 0)"

definition fresh_chunk :: "nat \<Rightarrow> string \<Rightarrow> ChunkRef \<Rightarrow> chunk_row" where
  "fresh_chunk now uid c =
     \<lparr>ch_userId = uid, ch_hash = cr_hash c, ch_sizeBytes = cr_length c, ch_refCount = 1, ch_storedAt = None,
      ch_createdAt = now\<rparr>"

abbreviation one_more :: "chunk_row \<Rightarrow> chunk_row" where
  "one_more r \<equiv> r\<lparr>ch_refCount := ch_refCount r + 1\<rparr>"

definition unknown_to :: "chunk_row list \<Rightarrow> string \<Rightarrow> ChunkRef \<Rightarrow> bool" where
  "unknown_to rows uid c \<longleftrightarrow> (uid, cr_hash c) \<notin> chunk_key ` set rows"

lemma owned_ex: "list_ex (owned_chunk uid (cr_hash c)) rows \<longleftrightarrow> \<not> unknown_to rows uid c"
  by (auto simp: list_ex_iff owned_chunk_def unknown_to_def)

text \<open>What the inserts come to.\<close>

lemma claim_fold:
  "distinct (map cr_hash cs) \<Longrightarrow>
   fold (claim_chunk now uid) cs rows =
     update_rows (\<lambda>r. ch_userId r = uid \<and> ch_hash r \<in> cr_hash ` set cs) one_more rows @
     map (fresh_chunk now uid) (filter (unknown_to rows uid) cs)"
proof (induction cs arbitrary: rows)
  case (Cons c cs)
  have d: "distinct (map cr_hash cs)" "cr_hash c \<notin> cr_hash ` set cs" using Cons.prems by auto
  show ?case
  proof (cases "unknown_to rows uid c")
    case True
    have step: "claim_chunk now uid c rows = rows @ [fresh_chunk now uid c]"
      using True owned_ex[of uid c rows] by (simp add: claim_chunk_def fresh_chunk_def)
    have "unknown_to (rows @ [fresh_chunk now uid c]) uid c' \<longleftrightarrow> unknown_to rows uid c'" if "c' \<in> set cs" for c'
    proof -
      have "cr_hash c' \<in> cr_hash ` set cs" using that by (rule imageI)
      then have "cr_hash c' \<noteq> cr_hash c" using d(2) by metis
      then show ?thesis by (simp add: unknown_to_def fresh_chunk_def)
    qed
    then have f: "filter (unknown_to (rows @ [fresh_chunk now uid c]) uid) cs = filter (unknown_to rows uid) cs"
      by (simp cong: filter_cong)
    have u: "update_rows (\<lambda>r. ch_userId r = uid \<and> ch_hash r \<in> cr_hash ` set (c # cs)) one_more rows =
        update_rows (\<lambda>r. ch_userId r = uid \<and> ch_hash r \<in> cr_hash ` set cs) one_more rows"
      using True by (auto simp: update_rows_def unknown_to_def image_iff)
    have "fold (claim_chunk now uid) (c # cs) rows = fold (claim_chunk now uid) cs (rows @ [fresh_chunk now uid c])"
      by (simp add: step)
    also have "\<dots> = update_rows (\<lambda>r. ch_userId r = uid \<and> ch_hash r \<in> cr_hash ` set cs) one_more
        (rows @ [fresh_chunk now uid c]) @ map (fresh_chunk now uid) (filter (unknown_to rows uid) cs)"
      using Cons.IH[OF d(1), of "rows @ [fresh_chunk now uid c]"] f by simp
    finally show ?thesis using True d(2) unfolding u by (simp add: update_rows_def fresh_chunk_def)
  next
    case False
    have step: "claim_chunk now uid c rows = update_rows (owned_chunk uid (cr_hash c)) one_more rows"
      using False owned_ex[of uid c rows] by (simp add: claim_chunk_def)
    have k: "chunk_key ` set (update_rows (owned_chunk uid (cr_hash c)) one_more rows) = chunk_key ` set rows"
      unfolding set_map[symmetric] by (subst update_rows_map) simp_all
    have f: "unknown_to (update_rows (owned_chunk uid (cr_hash c)) one_more rows) uid = unknown_to rows uid"
      by (rule ext) (simp only: unknown_to_def k)
    have u: "update_rows (\<lambda>r. ch_userId r = uid \<and> ch_hash r \<in> cr_hash ` set cs) one_more
        (update_rows (owned_chunk uid (cr_hash c)) one_more rows) =
      update_rows (\<lambda>r. ch_userId r = uid \<and> ch_hash r \<in> cr_hash ` set (c # cs)) one_more rows"
      using d(2) by (auto simp: update_rows_def owned_chunk_def)
    have "fold (claim_chunk now uid) (c # cs) rows =
        fold (claim_chunk now uid) cs (update_rows (owned_chunk uid (cr_hash c)) one_more rows)"
      by (simp only: fold_simps step)
    also have "\<dots> = update_rows (\<lambda>r. ch_userId r = uid \<and> ch_hash r \<in> cr_hash ` set (c # cs)) one_more rows @
        map (fresh_chunk now uid) (filter (unknown_to rows uid) cs)"
      unfolding Cons.IH[OF d(1)] f u ..
    finally show ?thesis by (simp only: filter.simps False if_False)
  qed
qed (simp add: update_rows_def)

lemma counts_attach:
  assumes c: "counts rows K" and d: "distinct (map cr_hash cs)"
  shows "counts (fold (claim_chunk now uid) cs rows) (\<lambda>u h. K u h + among uid (cr_hash ` set cs) u h)"
proof -
  let ?H = "cr_hash ` set cs" and ?new = "filter (unknown_to rows uid) cs"
  let ?up = "update_rows (\<lambda>r. ch_userId r = uid \<and> ch_hash r \<in> ?H) one_more rows"
  have k: "map chunk_key ?up = map chunk_key rows" by (rule update_rows_map) simp
  have ks: "chunk_key ` set ?up = chunk_key ` set rows" using arg_cong[OF k, of set] unfolding set_map .
  have n: "chunk_key ` set (map (fresh_chunk now uid) ?new) = (\<lambda>c. (uid, cr_hash c)) ` set ?new"
    unfolding set_map image_image by (rule image_cong) (simp_all only: fresh_chunk_def chunk_row.simps)
  have "distinct (map chunk_key (?up @ map (fresh_chunk now uid) ?new))"
  proof -
    have "distinct (map cr_hash ?new)" using d by (rule distinct_map_filter)
    moreover have "map chunk_key (map (fresh_chunk now uid) ?new) = map (Pair uid) (map cr_hash ?new)"
      by (simp add: fresh_chunk_def)
    ultimately have "distinct (map chunk_key (map (fresh_chunk now uid) ?new))"
      by (simp add: distinct_map inj_on_def)
    moreover have "chunk_key ` set ?up \<inter> chunk_key ` set (map (fresh_chunk now uid) ?new) = {}"
      unfolding ks n by (auto simp: unknown_to_def)
    moreover have "distinct (map chunk_key ?up)" using c k by (simp add: counts_def)
    ultimately show ?thesis by (simp add: image_comp)
  qed
  moreover have "ch_refCount r = K (ch_userId r) (ch_hash r) + among uid ?H (ch_userId r) (ch_hash r) \<and> 0 < ch_refCount r"
    if "r \<in> set (?up @ map (fresh_chunk now uid) ?new)" for r
  proof -
    from that consider r0 where "r0 \<in> set rows" "r = (if ch_userId r0 = uid \<and> ch_hash r0 \<in> ?H then one_more r0 else r0)"
      | x where "x \<in> set cs" "unknown_to rows uid x" "r = fresh_chunk now uid x"
      by (auto simp: update_rows_mem)
    then show ?thesis
    proof cases
      case 1
      then have "ch_refCount r0 = K (ch_userId r0) (ch_hash r0)" "0 < ch_refCount r0" using c by (auto simp: counts_def)
      then show ?thesis using 1(2) by simp
    next
      case 2
      then have "K uid (cr_hash x) = 0" using c by (auto simp: counts_def unknown_to_def)
      then show ?thesis using 2 by (auto simp: fresh_chunk_def)
    qed
  qed
  moreover have "(u, h) \<in> chunk_key ` set (?up @ map (fresh_chunk now uid) ?new)" if "0 < K u h + among uid ?H u h" for u h
  proof (cases "(u, h) \<in> chunk_key ` set rows")
    case False
    then have "K u h = 0" using c by (auto simp: counts_def)
    then have "u = uid" "h \<in> ?H" using that by (auto split: if_splits)
    then have "(u, h) \<in> (\<lambda>c. (uid, cr_hash c)) ` set ?new" using False by (auto simp: unknown_to_def)
    then show ?thesis unfolding n[symmetric] by (simp add: image_Un)
  next
    case True
    then have "(u, h) \<in> chunk_key ` set ?up" unfolding ks .
    then show ?thesis unfolding set_append image_Un by (rule UnI1)
  qed
  ultimately show ?thesis unfolding claim_fold[OF d] counts_def by blast
qed

abbreviation one_less :: "chunk_row \<Rightarrow> chunk_row" where
  "one_less r \<equiv> r\<lparr>ch_refCount := ch_refCount r - 1\<rparr>"

lemma filtered_mem:
  "r \<in> set (filter Q (update_rows P g rows)) \<longleftrightarrow>
     (\<exists>r0 \<in> set rows. r = (if P r0 then g r0 else r0) \<and> Q (if P r0 then g r0 else r0))"
  by (auto simp: update_rows_def)

lemma one_less_key: "chunk_key (if P then one_less r else r) = chunk_key r"
  by simp

text \<open>The rows a release leaves.\<close>

lemma release_mem:
  "r \<in> set (db_chunks (snd (releaseHashes uid hs s))) \<longleftrightarrow>
     (\<exists>r0 \<in> set (db_chunks s). r = (if ch_userId r0 = uid \<and> ch_hash r0 \<in> set hs then one_less r0 else r0) \<and>
        \<not> (ch_userId r0 = uid \<and> ch_hash r0 \<in> set hs \<and> ch_refCount r0 \<le> 1))"
proof -
  let ?f = "\<lambda>r0. if ch_userId r0 = uid \<and> ch_hash r0 \<in> set hs then one_less r0 else r0"
  let ?orphan = "\<lambda>r. (ch_userId r = uid \<and> ch_hash r \<in> set hs) \<and> ch_refCount r = 0"
  have "?orphan (?f r0) \<longleftrightarrow> ch_userId r0 = uid \<and> ch_hash r0 \<in> set hs \<and> ch_refCount r0 \<le> 1" for r0 by auto
  moreover have "db_chunks (snd (releaseHashes uid hs s)) = filter (\<lambda>r. \<not> ?orphan r)
      (update_rows (\<lambda>r. ch_userId r = uid \<and> ch_hash r \<in> set hs) one_less (db_chunks s))"
    by (simp only: releaseHashes_def Let_def snd_conv) simp
  then have "r \<in> set (db_chunks (snd (releaseHashes uid hs s))) \<longleftrightarrow>
      (\<exists>r0 \<in> set (db_chunks s). r = ?f r0 \<and> \<not> ?orphan (?f r0))"
    by (simp only: filtered_mem)
  ultimately show ?thesis by simp
qed

lemma counts_release:
  assumes c: "counts (db_chunks s) K" and o: "\<And>h. h \<in> set hs \<Longrightarrow> 0 < K uid h"
  shows "counts (db_chunks (snd (releaseHashes uid hs s))) (\<lambda>u h. K u h - among uid (set hs) u h)"
proof -
  let ?rows = "db_chunks (snd (releaseHashes uid hs s))"
  have "distinct (map chunk_key ?rows)"
  proof -
    have "map chunk_key (update_rows (\<lambda>c. ch_userId c = uid \<and> ch_hash c \<in> set hs) one_less (db_chunks s)) =
        map chunk_key (db_chunks s)"
      by (rule update_rows_map) simp
    then have "distinct (map chunk_key (update_rows (\<lambda>c. ch_userId c = uid \<and> ch_hash c \<in> set hs) one_less (db_chunks s)))"
      using c by (simp add: counts_def)
    then show ?thesis by (auto simp: releaseHashes_def Let_def intro: distinct_map_filter)
  qed
  moreover have "ch_refCount r = K (ch_userId r) (ch_hash r) - among uid (set hs) (ch_userId r) (ch_hash r) \<and> 0 < ch_refCount r"
    if r: "r \<in> set ?rows" for r
  proof -
    obtain r0 where r0: "r0 \<in> set (db_chunks s)" "r = (if ch_userId r0 = uid \<and> ch_hash r0 \<in> set hs then one_less r0 else r0)"
      "\<not> (ch_userId r0 = uid \<and> ch_hash r0 \<in> set hs \<and> ch_refCount r0 \<le> 1)"
      using r by (auto simp: release_mem)
    moreover have "ch_refCount r0 = K (ch_userId r0) (ch_hash r0)" "0 < ch_refCount r0" using c r0(1) by (auto simp: counts_def)
    ultimately show ?thesis by auto
  qed
  moreover have "(u, h) \<in> chunk_key ` set ?rows" if "0 < K u h - among uid (set hs) u h" for u h
  proof -
    have "0 < K u h" using that by auto
    then have "(u, h) \<in> chunk_key ` set (db_chunks s)" using c by (simp add: counts_def)
    then obtain r0 where r0: "r0 \<in> set (db_chunks s)" "chunk_key r0 = (u, h)" by (auto simp del: Pair_inject)
    then have "ch_refCount r0 = K u h" using c by (auto simp: counts_def)
    then have "\<not> (ch_userId r0 = uid \<and> ch_hash r0 \<in> set hs \<and> ch_refCount r0 \<le> 1)" using that r0(2) by auto
    then have "chunk_key (if ch_userId r0 = uid \<and> ch_hash r0 \<in> set hs then one_less r0 else r0) \<in> chunk_key ` set ?rows"
      using r0(1) by (intro imageI) (auto simp: release_mem)
    then show ?thesis unfolding one_less_key r0(2) .
  qed
  ultimately show ?thesis unfolding counts_def by blast
qed

section \<open>Claims\<close>

abbreviation names :: "control \<Rightarrow> string \<Rightarrow> string set" where
  "names s fid \<equiv> set (distinctFileHashes s fid)"

lemma names_iff: "h \<in> names s fid \<longleftrightarrow> (\<exists>r \<in> set (db_fileChunks s). fc_fileId r = fid \<and> fc_hash r = h)"
  by (auto simp: distinctFileHashes_def)

text \<open>The files of a user that name a chunk.\<close>

definition owners :: "control \<Rightarrow> (string \<times> string) list" where
  "owners s = map (\<lambda>f. (fl_id f, fl_userId f)) (db_files s)"

definition claims :: "control \<Rightarrow> string \<Rightarrow> string \<Rightarrow> nat" where
  "claims s u h = length (filter (\<lambda>(i, v). v = u \<and> h \<in> names s i) (owners s))"

definition refs_ok :: "control \<Rightarrow> bool" where
  "refs_ok s \<longleftrightarrow>
     counts (db_chunks s) (claims s) \<and> distinct (map fl_id (db_files s)) \<and>
     distinct (map (\<lambda>f. (fl_userId f, fl_path f)) (db_files s)) \<and>
     (\<forall>r \<in> set (db_fileChunks s). fc_fileId r \<in> fl_id ` set (db_files s))"

lemma claims_cong:
  "owners s' = owners s \<Longrightarrow> db_fileChunks s' = db_fileChunks s \<Longrightarrow> claims s' = claims s"
  by (intro ext) (simp add: claims_def distinctFileHashes_def)

lemma claims_view: "files_view s' = files_view s \<Longrightarrow> refs_ok s' = refs_ok s"
  using claims_cong[of s' s] by (simp add: refs_ok_def files_view_def owners_def)

lemma count_one:
  assumes "distinct (map fst xs)" "(i, v) \<in> set xs"
  shows "length (filter P xs) = length (filter (\<lambda>y. fst y \<noteq> i \<and> P y) xs) + (if P (i, v) then 1 else 0)"
  using assms
proof (induction xs)
  case (Cons x xs)
  show ?case
  proof (cases "x = (i, v)")
    case True
    then have "fst y \<noteq> i" if "y \<in> set xs" for y using that Cons.prems(1) by force
    then have "filter (\<lambda>y. fst y \<noteq> i \<and> P y) xs = filter P xs" by (simp cong: filter_cong)
    then show ?thesis using True by simp
  next
    case False
    then have m: "(i, v) \<in> set xs" using Cons.prems(2) by simp
    then have "i \<in> fst ` set xs" by (metis fst_conv image_eqI)
    then have "fst x \<noteq> i" using Cons.prems(1) by auto
    then show ?thesis using m Cons by simp
  qed
qed simp

text \<open>One file names other chunks than it did.\<close>

lemma claims_rewrite:
  assumes "distinct (map fst (owners s))" "(i, v) \<in> set (owners s)" "owners s' = owners s"
    and "\<And>j. j \<noteq> i \<Longrightarrow> names s' j = names s j"
  shows "claims s' u h + among v (names s i) u h = claims s u h + among v (names s' i) u h"
proof -
  have "filter (\<lambda>y. fst y \<noteq> i \<and> (case y of (j, w) \<Rightarrow> w = u \<and> h \<in> names s' j)) (owners s) =
      filter (\<lambda>y. fst y \<noteq> i \<and> (case y of (j, w) \<Rightarrow> w = u \<and> h \<in> names s j)) (owners s)"
    by (rule filter_cong) (auto simp: assms(4))
  then show ?thesis
    unfolding claims_def assms(3) count_one[OF assms(1,2), of "\<lambda>(j, w). w = u \<and> h \<in> names s' j"]
      count_one[OF assms(1,2), of "\<lambda>(j, w). w = u \<and> h \<in> names s j"] by auto
qed

text \<open>One file more, and one file less.\<close>

lemma claims_new:
  assumes "owners s' = owners s @ [(i, v)]" "i \<notin> fst ` set (owners s)" "\<And>j. j \<noteq> i \<Longrightarrow> names s' j = names s j"
  shows "claims s' u h = claims s u h + among v (names s' i) u h"
proof -
  have "filter (\<lambda>(j, w). w = u \<and> h \<in> names s' j) (owners s) = filter (\<lambda>(j, w). w = u \<and> h \<in> names s j) (owners s)"
  proof (rule filter_cong)
    fix y assume "y \<in> set (owners s)"
    then have "fst y \<noteq> i" using assms(2) by (metis image_eqI)
    then show "(case y of (j, w) \<Rightarrow> w = u \<and> h \<in> names s' j) = (case y of (j, w) \<Rightarrow> w = u \<and> h \<in> names s j)"
      using assms(3) by (cases y) simp
  qed simp
  then show ?thesis by (simp add: claims_def assms(1))
qed

lemma claims_gone:
  assumes "distinct (map fst (owners s))" "(i, v) \<in> set (owners s)" "owners s' = filter (\<lambda>y. fst y \<noteq> i) (owners s)"
    and "\<And>j. j \<noteq> i \<Longrightarrow> names s' j = names s j"
  shows "claims s' u h = claims s u h - among v (names s i) u h"
proof -
  have "filter (\<lambda>(j, w). w = u \<and> h \<in> names s' j) (filter (\<lambda>y. fst y \<noteq> i) (owners s)) =
      filter (\<lambda>y. fst y \<noteq> i \<and> (case y of (j, w) \<Rightarrow> w = u \<and> h \<in> names s j)) (owners s)"
    unfolding filter_filter by (rule filter_cong) (auto simp: assms(4))
  then show ?thesis
    unfolding claims_def assms(3) count_one[OF assms(1,2), of "\<lambda>(j, w). w = u \<and> h \<in> names s j"] by auto
qed

lemma claims_pos: "(i, v) \<in> set (owners s) \<Longrightarrow> h \<in> names s i \<Longrightarrow> 0 < claims s v h"
  unfolding claims_def by (simp only: length_greater_0_conv) (auto simp: filter_empty_conv)

lemma refs_owners: "refs_ok s \<Longrightarrow> distinct (map fst (owners s))"
  by (simp add: refs_ok_def owners_def comp_def)

section \<open>Creating, replacing and deleting a file\<close>

abbreviation manifest_hashes :: "Manifest \<Rightarrow> string set" where
  "manifest_hashes m \<equiv> cr_hash ` set (mf_chunks m)"

lemma manifest_rows_set:
  "(\<exists>r \<in> set (manifest_rows fid m). P (fc_fileId r) (fc_hash r)) \<longleftrightarrow> (\<exists>h \<in> manifest_hashes m. P fid h)"
proof -
  have "set (map (\<lambda>r. (fc_fileId r, fc_hash r)) (manifest_rows fid m)) = (\<lambda>h. (fid, h)) ` manifest_hashes m"
  proof -
    have "map (\<lambda>r. (fc_fileId r, fc_hash r)) (manifest_rows fid m) = map (\<lambda>c. (fid, cr_hash c)) (map snd (enumerate 0 (mf_chunks m)))"
      unfolding manifest_rows_def map_map comp_def split_beta by (simp del: map_snd_enumerate)
    then show ?thesis by (simp add: image_image)
  qed
  note S = this
  have "(\<exists>r \<in> set (manifest_rows fid m). P (fc_fileId r) (fc_hash r)) \<longleftrightarrow>
      (\<exists>p \<in> set (map (\<lambda>r. (fc_fileId r, fc_hash r)) (manifest_rows fid m)). P (fst p) (snd p))"
    by simp
  also have "\<dots> \<longleftrightarrow> (\<exists>h \<in> manifest_hashes m. P fid h)" unfolding S by simp
  finally show ?thesis .
qed

lemma attach_simps [simp]:
  "db_files (attachChunks now uid fid m s) = db_files s"
  "db_fileChunks (attachChunks now uid fid m s) = db_fileChunks s @ manifest_rows fid m"
  "db_chunks (attachChunks now uid fid m s) = fold (claim_chunk now uid) (distinctChunks m) (db_chunks s)"
  "ct_objects (attachChunks now uid fid m s) = ct_objects s"
  by (simp_all add: attachChunks_def)

lemma release_simps [simp]:
  "db_files (snd (releaseHashes uid hs s)) = db_files s"
  "db_fileChunks (snd (releaseHashes uid hs s)) = db_fileChunks s"
  "ct_objects (snd (releaseHashes uid hs s)) = ct_objects s"
  by (simp_all add: releaseHashes_def Let_def)

lemma detach_simps [simp]:
  "fst (detachFileChunks fid s) = distinctFileHashes s fid"
  "db_files (snd (detachFileChunks fid s)) = db_files s" "db_chunks (snd (detachFileChunks fid s)) = db_chunks s"
  "db_fileChunks (snd (detachFileChunks fid s)) = filter (\<lambda>r. fc_fileId r \<noteq> fid) (db_fileChunks s)"
  "ct_objects (snd (detachFileChunks fid s)) = ct_objects s"
  by (simp_all add: detachFileChunks_def)

lemma delete_orphans_simps [simp]:
  "db_files (deleteOrphanObjects uid hs s) = db_files s" "db_chunks (deleteOrphanObjects uid hs s) = db_chunks s"
  "db_fileChunks (deleteOrphanObjects uid hs s) = db_fileChunks s"
  by (simp_all add: deleteOrphanObjects_def Let_def)

lemma attach_release:
  assumes "counts (db_chunks s) K" "\<And>h. h \<in> set old \<Longrightarrow> 0 < K uid h"
  shows "counts (db_chunks (snd (releaseHashes uid old (attachChunks now uid fid m s))))
    (\<lambda>u h. K u h + among uid (manifest_hashes m) u h - among uid (set old) u h)"
proof -
  have "cr_hash ` set (distinctChunks m) = manifest_hashes m" using distinctChunks_hashes(2)[of m] by simp
  then have "counts (db_chunks (attachChunks now uid fid m s)) (\<lambda>u h. K u h + among uid (manifest_hashes m) u h)"
    using counts_attach[OF assms(1) distinctChunks_hashes(1), of now uid m] by simp
  then show ?thesis by (rule counts_release) (use assms(2) in fastforce)
qed

text \<open>The file of a manifest after the transaction: the row, its id, what it releases and what stays.\<close>

lemma file_atD: "file_at s uid path = Some f \<Longrightarrow> f \<in> set (db_files s) \<and> fl_userId f = uid \<and> fl_path f = path"
  by (auto simp: file_at_def dest: row_withD)

lemma file_at_None: "file_at s uid path = None \<Longrightarrow> (uid, path) \<notin> set (map (\<lambda>f. (fl_userId f, fl_path f)) (db_files s))"
  by (auto simp: file_at_def row_with_None)

definition new_file :: "nat \<Rightarrow> string \<Rightarrow> string \<Rightarrow> string \<Rightarrow> manifest_request \<Rightarrow> file_row" where
  "new_file now uid fid path body =
     \<lparr>fl_id = fid, fl_userId = uid, fl_path = path, fl_sizeBytes = mf_totalBytes (mr_manifest body),
      fl_fileHash = mf_fileHash (mr_manifest body), fl_contentType = mr_contentType body,
      fl_completedAt = None, fl_createdAt = now, fl_updatedAt = now\<rparr>"

lemma new_file_simps [simp]:
  "fl_id (new_file now uid fid path body) = fid" "fl_userId (new_file now uid fid path body) = uid"
  "fl_path (new_file now uid fid path body) = path" "fl_completedAt (new_file now uid fid path body) = None"
  by (simp_all add: new_file_def)

lemma write_file_new:
  "file_at s uid path = None \<Longrightarrow> write_file now uid fid path body s =
     (new_file now uid fid path body, s\<lparr>db_files := db_files s @ [new_file now uid fid path body]\<rparr>)"
  by (simp add: write_file_def new_file_def Let_def)

definition rewritten :: "nat \<Rightarrow> manifest_request \<Rightarrow> file_row \<Rightarrow> file_row" where
  "rewritten now body f =
     f\<lparr>fl_sizeBytes := mf_totalBytes (mr_manifest body), fl_fileHash := mf_fileHash (mr_manifest body),
       fl_contentType := mr_contentType body, fl_completedAt := None, fl_updatedAt := now\<rparr>"

lemma rewritten_simps [simp]:
  "fl_id (rewritten now body f) = fl_id f" "fl_userId (rewritten now body f) = fl_userId f"
  "fl_path (rewritten now body f) = fl_path f" "fl_completedAt (rewritten now body f) = None"
  by (simp_all add: rewritten_def)

lemma write_file_old:
  "file_at s uid path = Some f \<Longrightarrow> write_file now uid fid path body s =
     (rewritten now body f, s\<lparr>db_files := update_rows (\<lambda>g. fl_id g = fl_id f) (rewritten now body) (db_files s)\<rparr>)"
  by (simp add: write_file_def rewritten_def[abs_def])


text \<open>What a manifest's transaction leaves, replacing a file and making one.\<close>

lemma manifest_tx_old:
  assumes "file_at s uid path = Some f" "manifest_tx now uid fid path body s = (OutcomeOk d, s')"
  shows "\<exists>s2. s' = snd (releaseHashes uid (distinctFileHashes s (fl_id f)) (attachChunks now uid (fl_id f) (mr_manifest body) s2)) \<and>
      db_files s2 = update_rows (\<lambda>g. fl_id g = fl_id f) (rewritten now body) (db_files s) \<and> db_chunks s2 = db_chunks s \<and>
      db_fileChunks s2 = filter (\<lambda>r. fc_fileId r \<noteq> fl_id f) (db_fileChunks s) \<and> ct_objects s2 = ct_objects s \<and>
      md_orphans d = fst (releaseHashes uid (distinctFileHashes s (fl_id f)) (attachChunks now uid (fl_id f) (mr_manifest body) s2)) \<and>
      qv_allowed (checkQuota (quotaState s uid) (manifest_incoming s uid (mr_manifest body)))"
  using assms
  by (intro exI[of _ "snd (detachFileChunks (fl_id f)
        (s\<lparr>db_files := update_rows (\<lambda>g. fl_id g = fl_id f) (rewritten now body) (db_files s)\<rparr>))"])
    (auto simp: manifest_tx_def write_file_old Let_def split_beta distinctFileHashes_def split: if_splits)

lemma manifest_tx_new:
  assumes "file_at s uid path = None" "manifest_tx now uid fid path body s = (OutcomeOk d, s')"
  shows "s' = snd (releaseHashes uid [] (attachChunks now uid fid (mr_manifest body)
        (s\<lparr>db_files := db_files s @ [new_file now uid fid path body]\<rparr>))) \<and> md_orphans d = [] \<and>
      qv_allowed (checkQuota (quotaState s uid) (manifest_incoming s uid (mr_manifest body)))"
  using assms
  by (auto simp: manifest_tx_def write_file_new Let_def split_beta releaseHashes_def split: if_splits)

lemma manifest_tx_quota: "manifest_tx now uid fid path body s = (QuotaRefused v n, s') \<Longrightarrow> s' = s"
  by (auto simp: manifest_tx_def Let_def split_beta split: if_splits)


lemma owners_mem: "(i, v) \<in> set (owners s) \<longleftrightarrow> (\<exists>f \<in> set (db_files s). fl_id f = i \<and> fl_userId f = v)"
  by (auto simp: owners_def)

lemma names_after:
  assumes "db_fileChunks s' = filter (\<lambda>r. fc_fileId r \<noteq> i) (db_fileChunks s) @ manifest_rows i m"
  shows "names s' i = manifest_hashes m" "\<And>j. j \<noteq> i \<Longrightarrow> names s' j = names s j"
proof -
  have "h \<in> names s' j \<longleftrightarrow> (\<exists>r \<in> set (db_fileChunks s). fc_fileId r \<noteq> i \<and> fc_fileId r = j \<and> fc_hash r = h) \<or>
      (\<exists>h' \<in> manifest_hashes m. i = j \<and> h' = h)" for h j
    unfolding names_iff assms set_append bex_Un manifest_rows_set[of i m "\<lambda>a b. a = j \<and> b = h"] by auto
  note mem = this
  show "names s' i = manifest_hashes m" by (rule set_eqI, subst mem) auto
  show "names s' j = names s j" if "j \<noteq> i" for j
    by (rule set_eqI, subst mem) (use that in \<open>auto simp: names_iff\<close>)
qed

lemma refs_manifest:
  assumes ok: "refs_ok s" and fid: "fid \<notin> fl_id ` set (db_files s)"
    and tx: "manifest_tx now uid fid path body s = (OutcomeOk d, s')"
  shows "refs_ok s'"
proof (cases "file_at s uid path")
  case None
  let ?f = "new_file now uid fid path body" and ?m = "mr_manifest body"
  let ?s2 = "s\<lparr>db_files := db_files s @ [?f]\<rparr>"
  have s': "s' = snd (releaseHashes uid [] (attachChunks now uid fid ?m ?s2))"
    using manifest_tx_new[OF None tx] by simp
  have none: "filter (\<lambda>r. fc_fileId r \<noteq> fid) (db_fileChunks s) = db_fileChunks s"
    using ok fid by (auto simp: refs_ok_def filter_id_conv)
  have "db_fileChunks s' = filter (\<lambda>r. fc_fileId r \<noteq> fid) (db_fileChunks s) @ manifest_rows fid ?m"
    by (simp add: s' none)
  note n = names_after[OF this]
  have "claims s' u h = claims s u h + among uid (manifest_hashes ?m) u h" for u h
    unfolding n(1)[symmetric]
    by (rule claims_new) (use fid n(2) in \<open>auto simp: s' owners_def\<close>)
  then have "claims s' = (\<lambda>u h. claims s u h + among uid (manifest_hashes ?m) u h - among uid (set []) u h)" by (intro ext) simp
  moreover have "counts (db_chunks ?s2) (claims s)" using ok by (simp add: refs_ok_def)
  ultimately have "counts (db_chunks s') (claims s')"
    unfolding s' using attach_release[of ?s2 "claims s" "[]" uid now fid ?m] by simp
  moreover have "fc_fileId r \<in> fl_id ` set (db_files s')" if "r \<in> set (db_fileChunks s')" for r
    using that ok by (auto simp: s' refs_ok_def manifest_rows_def)
  ultimately show ?thesis
    using ok fid file_at_None[OF None] by (auto simp: refs_ok_def s')
next
  case (Some f)
  let ?m = "mr_manifest body" and ?old = "distinctFileHashes s (fl_id f)"
  have f: "f \<in> set (db_files s)" "fl_userId f = uid" using file_atD[OF Some] by auto
  obtain s2 where s': "s' = snd (releaseHashes uid ?old (attachChunks now uid (fl_id f) ?m s2))"
    and s2: "db_files s2 = update_rows (\<lambda>g. fl_id g = fl_id f) (rewritten now body) (db_files s)"
      "db_chunks s2 = db_chunks s" "db_fileChunks s2 = filter (\<lambda>r. fc_fileId r \<noteq> fl_id f) (db_fileChunks s)"
    using manifest_tx_old[OF Some tx] by blast
  have own: "owners s' = owners s"
    unfolding owners_def by (simp add: s' s2(1)) (rule update_rows_map; simp)
  have in_own: "(fl_id f, uid) \<in> set (owners s)" using f by (auto simp: owners_mem)
  have "db_fileChunks s' = filter (\<lambda>r. fc_fileId r \<noteq> fl_id f) (db_fileChunks s) @ manifest_rows (fl_id f) ?m"
    by (simp add: s' s2)
  note n = names_after[OF this]
  have c: "claims s' u h + among uid (set ?old) u h = claims s u h + among uid (manifest_hashes ?m) u h" for u h
    using claims_rewrite[OF refs_owners[OF ok] in_own own n(2), of u h] unfolding n(1) .
  then have "claims s' = (\<lambda>u h. claims s u h + among uid (manifest_hashes ?m) u h - among uid (set ?old) u h)"
    by (intro ext) (metis add_diff_cancel_right')
  moreover have "counts (db_chunks s2) (claims s)" using ok by (simp add: refs_ok_def s2)
  then have "counts (db_chunks s') (\<lambda>u h. claims s u h + among uid (manifest_hashes ?m) u h - among uid (set ?old) u h)"
    unfolding s' by (rule attach_release) (rule claims_pos[OF in_own])
  ultimately have "counts (db_chunks s') (claims s')" by simp
  moreover have "map fl_id (db_files s') = map fl_id (db_files s)"
    "map (\<lambda>g. (fl_userId g, fl_path g)) (db_files s') = map (\<lambda>g. (fl_userId g, fl_path g)) (db_files s)"
    by (simp_all add: s' s2(1)) (rule update_rows_map; simp)+
  moreover from this have "fl_id ` set (db_files s') = fl_id ` set (db_files s)" by (metis set_map)
  moreover have "fc_fileId r \<in> fl_id ` set (db_files s)" if "r \<in> set (db_fileChunks s')" for r
    using that ok f(1) by (auto simp: s' s2 refs_ok_def manifest_rows_def)
  ultimately show ?thesis using ok by (simp add: refs_ok_def)
qed

lemma refs_delete:
  assumes ok: "refs_ok s"
  shows "refs_ok (snd (delete_file ca fid s))"
proof (cases "ownedFile s (ca_userId ca) fid")
  case None
  then show ?thesis using ok by (simp add: delete_file_def)
next
  case (Some f)
  let ?uid = "ca_userId ca" and ?old = "distinctFileHashes s (fl_id f)" and ?s' = "snd (delete_file ca fid s)"
  let ?s1 = "snd (detachFileChunks (fl_id f) s)"
  have f: "f \<in> set (db_files s)" "fl_userId f = ?uid" using Some by (auto simp: ownedFile_def dest: row_withD)
  have s': "db_files ?s' = filter (\<lambda>g. fl_id g \<noteq> fl_id f) (db_files s)"
    "db_chunks ?s' = db_chunks (snd (releaseHashes ?uid ?old ?s1))"
    "db_fileChunks ?s' = filter (\<lambda>r. fc_fileId r \<noteq> fl_id f) (db_fileChunks s)"
    using Some by (simp_all add: delete_file_def Let_def split_beta)
  have in_own: "(fl_id f, ?uid) \<in> set (owners s)" using f by (auto simp: owners_mem)
  have "owners ?s' = filter (\<lambda>y. fst y \<noteq> fl_id f) (owners s)" unfolding owners_def s'(1) by (simp add: filter_map comp_def)
  moreover have "names ?s' j = names s j" if "j \<noteq> fl_id f" for j
    using that by (auto simp: set_eq_iff names_iff s'(3) simp del: js_distinct_simps)
  ultimately have "claims ?s' = (\<lambda>u h. claims s u h - among ?uid (set ?old) u h)"
    by (intro ext) (rule claims_gone[OF refs_owners[OF ok] in_own])
  moreover have "counts (db_chunks ?s1) (claims s)" using ok by (simp add: refs_ok_def)
  then have "counts (db_chunks (snd (releaseHashes ?uid ?old ?s1))) (\<lambda>u h. claims s u h - among ?uid (set ?old) u h)"
    by (rule counts_release) (rule claims_pos[OF in_own])
  ultimately have "counts (db_chunks ?s') (claims ?s')" by (simp add: s'(2))
  moreover have "fc_fileId r \<in> fl_id ` set (db_files ?s')" if "r \<in> set (db_fileChunks ?s')" for r
  proof -
    have "fc_fileId r \<noteq> fl_id f" "fc_fileId r \<in> fl_id ` set (db_files s)" using that ok by (auto simp: s' refs_ok_def)
    then obtain g where "g \<in> set (db_files s)" "fc_fileId r = fl_id g" "fl_id g \<noteq> fl_id f" by auto
    then show ?thesis by (simp add: s')
  qed
  ultimately show ?thesis using ok by (simp add: refs_ok_def s' distinct_map_filter)
qed

text \<open>What only the store of objects or the times in a row see.\<close>

lemma refs_same:
  assumes "refs_ok s" "db_fileChunks s' = db_fileChunks s"
    and "map (\<lambda>f. (fl_id f, fl_userId f, fl_path f)) (db_files s') = map (\<lambda>f. (fl_id f, fl_userId f, fl_path f)) (db_files s)"
    and "map (\<lambda>c. (ch_userId c, ch_hash c, ch_refCount c)) (db_chunks s') = map (\<lambda>c. (ch_userId c, ch_hash c, ch_refCount c)) (db_chunks s)"
  shows "refs_ok s'"
proof -
  note f = arg_cong[OF assms(3), of "map g" for g] and c = arg_cong[OF assms(4), of "map g" for g]
  have "owners s' = owners s" using f[of "\<lambda>(i, u, p). (i, u)"] by (simp add: owners_def comp_def)
  then have k: "claims s' = claims s" using assms(2) by (rule claims_cong)
  have ids: "map fl_id (db_files s') = map fl_id (db_files s)"
    and paths: "map (\<lambda>f. (fl_userId f, fl_path f)) (db_files s') = map (\<lambda>f. (fl_userId f, fl_path f)) (db_files s)"
    using f[of "\<lambda>(i, u, p). i"] f[of "\<lambda>(i, u, p). (u, p)"] by (simp_all add: comp_def)
  have keys: "map chunk_key (db_chunks s') = map chunk_key (db_chunks s)"
    using c[of "\<lambda>(u, h, n). (u, h)"] by (simp add: comp_def)
  have rows: "(\<lambda>c. (ch_userId c, ch_hash c, ch_refCount c)) ` set (db_chunks s') =
      (\<lambda>c. (ch_userId c, ch_hash c, ch_refCount c)) ` set (db_chunks s)"
    using arg_cong[OF assms(4), of set] unfolding set_map .
  have "ch_refCount c = claims s (ch_userId c) (ch_hash c) \<and> 0 < ch_refCount c" if "c \<in> set (db_chunks s')" for c
  proof -
    have "(ch_userId c, ch_hash c, ch_refCount c) \<in> (\<lambda>c. (ch_userId c, ch_hash c, ch_refCount c)) ` set (db_chunks s)"
      using that unfolding rows[symmetric] by (rule imageI)
    then show ?thesis using assms(1) by (auto simp: refs_ok_def counts_def)
  qed
  moreover have "chunk_key ` set (db_chunks s') = chunk_key ` set (db_chunks s)"
    using arg_cong[OF keys, of set] unfolding set_map .
  moreover have "fl_id ` set (db_files s') = fl_id ` set (db_files s)"
    using arg_cong[OF ids, of set] unfolding set_map .
  ultimately show ?thesis
    using assms(1) unfolding refs_ok_def counts_def k ids paths keys assms(2) by (intro conjI) metis+
qed

lemma head_keeps: "\<exists>x. snd (fold (head_chunk uid) rows t) = (snd t)\<lparr>ct_objects := x\<rparr>"
proof (induction rows arbitrary: t)
  case Nil
  have "snd t = (snd t)\<lparr>ct_objects := ct_objects (snd t)\<rparr>" by simp
  then show ?case by (metis fold_Nil id_apply)
next
  case (Cons r rows)
  have same: "\<exists>x. c = c\<lparr>ct_objects := x\<rparr>" for c :: control by (rule exI[of _ "ct_objects c"]) simp
  have "\<exists>x. snd (head_chunk uid r t) = (snd t)\<lparr>ct_objects := x\<rparr>"
    by (auto simp: head_chunk_def Let_def split_beta intro: same split: option.split)
  then obtain x where x: "snd (head_chunk uid r t) = (snd t)\<lparr>ct_objects := x\<rparr>" by blast
  obtain y where "snd (fold (head_chunk uid) rows (head_chunk uid r t)) = (snd (head_chunk uid r t))\<lparr>ct_objects := y\<rparr>"
    using Cons.IH by blast
  then have "snd (fold (head_chunk uid) (r # rows) t) = (snd t)\<lparr>ct_objects := y\<rparr>" using x by simp
  then show ?case by blast
qed

lemma mark_stored_simps [simp]:
  "db_files (mark_stored now uid hs s) = db_files s" "db_fileChunks (mark_stored now uid hs s) = db_fileChunks s"
  "ct_objects (mark_stored now uid hs s) = ct_objects s"
  by (simp_all add: mark_stored_def)

lemma refs_mark [simp]: "refs_ok s \<Longrightarrow> refs_ok (mark_stored now uid hs s)"
  by (rule refs_same) (simp_all add: mark_stored_def, rule update_rows_map, simp)

lemma refs_objects: "refs_ok s \<Longrightarrow> refs_ok (s\<lparr>ct_objects := x\<rparr>)"
  by (rule refs_same) simp_all

lemma refs_audit [simp]: "refs_ok (audit now u t p a s) = refs_ok s"
  by (rule claims_view) simp

lemma refs_complete: "refs_ok s \<Longrightarrow> refs_ok (snd (complete_upload ca fid s))"
proof -
  assume ok: "refs_ok s"
  have c: "refs_ok (snd (complete_check ca fid s))"
    using ok head_keeps[of "ca_userId ca"] refs_objects
    by (auto simp: complete_check_def Let_def split_beta split: option.split) metis+
  have d: "refs_ok t \<Longrightarrow> refs_ok (t\<lparr>db_files := update_rows (\<lambda>f. fl_id f = fid)
      (\<lambda>f. f\<lparr>fl_completedAt := Some now, fl_updatedAt := now\<rparr>) (db_files t)\<rparr>)" for t now
    by (rule refs_same) (simp_all, rule update_rows_map, simp)
  have "refs_ok t \<Longrightarrow> refs_ok (snd (complete_commit ca fid h t))" for h t
    using d[OF refs_mark, of t "ca_now ca" "ca_now ca" "ca_userId ca" "hd_confirmed h"]
    by (auto simp: complete_commit_def Let_def split: option.split)
  then show ?thesis using c by (auto simp: complete_upload_def split_beta split: option.split)
qed

lemma refs_create:
  assumes "refs_ok s" "fid \<notin> fl_id ` set (db_files s)"
  shows "refs_ok (snd (create_manifest ca fid body s))"
proof -
  have "refs_ok (snd (manifest_tx (ca_now ca) (ca_userId ca) fid path body s))" for path
  proof (cases "fst (manifest_tx (ca_now ca) (ca_userId ca) fid path body s)")
    case (QuotaRefused v n)
    then show ?thesis using assms(1) manifest_tx_quota by (metis prod.collapse)
  next
    case (OutcomeOk d)
    then show ?thesis using refs_manifest[OF assms] by (metis prod.collapse)
  qed
  then show ?thesis
    using assms(1)
    by (auto simp: create_manifest_def quota_blocked_def deleteOrphanObjects_def Let_def split_beta refs_objects
        split: sum.split option.split file_outcome.split)
qed

lemma refs_step: "refs_ok s \<Longrightarrow> refs_ok (control_step cn s op)"
proof -
  assume ok: "refs_ok s"
  show ?thesis
  proof (cases "changes_files op")
    case False
    then show ?thesis using ok claims_view[OF files_kept[OF False], of cn s] by blast
  next
    case True
    then show ?thesis
      using ok refs_create refs_complete refs_delete
      by (cases op rule: changes_files.cases)
        (auto simp: control_step_def put_object_def refs_objects split: sum.split option.split)
  qed
qed

lemma refs_empty: "refs_ok empty_control"
  by (simp add: refs_ok_def empty_control_def counts_def claims_def owners_def)

interpretation reference_run: kept_invariant "control_step cn" refs_ok for cn
  by unfold_locales (rule refs_step)

section \<open>The quota\<close>

definition usage :: "chunk_row list \<Rightarrow> string \<Rightarrow> nat" where
  "usage rows u = sum_list (map ch_sizeBytes (filter (\<lambda>c. ch_userId c = u \<and> ch_refCount c > 0) rows))"

lemma quota_usage: "qs_usedBytes (quotaState s u) = usage (db_chunks s) u" "qs_limitBytes (quotaState s u) = PRO_QUOTA_BYTES"
  by (simp_all add: quotaState_def usage_def)

lemma usage_append [simp]: "usage (xs @ ys) u = usage xs u + usage ys u"
  by (simp add: usage_def)

lemma usage_more:
  "\<forall>c \<in> set rows. 0 < ch_refCount c \<Longrightarrow> usage (update_rows P one_more rows) u = usage rows u"
  by (induction rows) (auto simp: usage_def update_rows_def)

lemma usage_stored: "usage (update_rows P (\<lambda>c. c\<lparr>ch_storedAt := x\<rparr>) rows) u = usage rows u"
  by (induction rows) (auto simp: usage_def update_rows_def)

lemma usage_less: "usage (filter Q (update_rows P one_less rows)) u \<le> usage rows u"
  by (induction rows) (auto simp: usage_def update_rows_def)

lemma usage_new:
  "usage (map (fresh_chunk now uid) cs) u = (if u = uid then sum_list (map cr_length cs) else 0)"
  by (induction cs) (auto simp: usage_def fresh_chunk_def)

lemma incoming_new:
  "manifest_incoming s uid m = sum_list (map cr_length (filter (unknown_to (db_chunks s) uid) (distinctChunks m)))"
proof -
  have "filter (\<lambda>c. cr_hash c \<notin> set (map ch_hash (ownedChunks s uid (map cr_hash (distinctChunks m))))) (distinctChunks m) =
      filter (unknown_to (db_chunks s) uid) (distinctChunks m)"
  proof (rule filter_cong[OF refl])
    fix c assume "c \<in> set (distinctChunks m)"
    then have "cr_hash c \<in> cr_hash ` set (distinctChunks m)" by (rule imageI)
    then show "cr_hash c \<notin> set (map ch_hash (ownedChunks s uid (map cr_hash (distinctChunks m)))) \<longleftrightarrow>
        unknown_to (db_chunks s) uid c"
      unfolding ownedChunks_def unknown_to_def by (fastforce simp: image_iff)
  qed
  then show ?thesis by (simp add: manifest_incoming_def Let_def)
qed

lemma usage_attach:
  assumes "refs_ok s" "db_chunks s2 = db_chunks s"
  shows "usage (db_chunks (attachChunks now uid fid m s2)) u =
    usage (db_chunks s) u + (if u = uid then manifest_incoming s uid m else 0)"
proof -
  have "\<forall>c \<in> set (db_chunks s). 0 < ch_refCount c" using assms(1) unfolding refs_ok_def counts_def by blast
  then show ?thesis
    unfolding attach_simps(3) claim_fold[OF distinctChunks_hashes(1)] assms(2) usage_append usage_new incoming_new
    by (simp only: usage_more)
qed

lemma usage_release: "usage (db_chunks (snd (releaseHashes uid hs s))) u \<le> usage (db_chunks s) u"
  by (simp only: releaseHashes_def Let_def snd_conv) (simp add: usage_less del: One_nat_def)

definition within_quota :: "control \<Rightarrow> bool" where
  "within_quota s \<longleftrightarrow> (\<forall>u. usage (db_chunks s) u \<le> PRO_QUOTA_BYTES)"

lemma quota_manifest:
  assumes "refs_ok s" "within_quota s"
  shows "within_quota (snd (manifest_tx now uid fid path body s))"
proof (cases "manifest_tx now uid fid path body s")
  case (Pair r s')
  show ?thesis
  proof (cases r)
    case (QuotaRefused v n)
    then show ?thesis using assms(2) Pair manifest_tx_quota[of now uid fid path body s v n s'] by simp
  next
    case (OutcomeOk d)
    let ?m = "mr_manifest body"
    obtain s2 i old where s': "s' = snd (releaseHashes uid old (attachChunks now uid i ?m s2))" "db_chunks s2 = db_chunks s"
      and q: "qv_allowed (checkQuota (quotaState s uid) (manifest_incoming s uid ?m))"
    proof (cases "file_at s uid path")
      case None
      then show ?thesis using manifest_tx_new[OF None, of now fid body d s'] Pair OutcomeOk
        by (intro that[of "[]" fid "s\<lparr>db_files := db_files s @ [new_file now uid fid path body]\<rparr>"]) auto
    next
      case (Some f)
      then show ?thesis using manifest_tx_old[OF Some, of now fid body d s'] Pair OutcomeOk that by blast
    qed
    have "usage (db_chunks s') u \<le> PRO_QUOTA_BYTES" for u
    proof -
      have "usage (db_chunks s') u \<le> usage (db_chunks s) u + (if u = uid then manifest_incoming s uid ?m else 0)"
        using usage_release[of uid old "attachChunks now uid i ?m s2" u]
        unfolding s'(1) usage_attach[OF assms(1) s'(2), of now uid i ?m u] .
      moreover have "usage (db_chunks s) uid + manifest_incoming s uid ?m \<le> PRO_QUOTA_BYTES"
        using q by (simp add: checkQuota_def quota_usage)
      ultimately show ?thesis using assms(2) by (auto simp: within_quota_def intro: le_trans split: if_splits)
    qed
    then show ?thesis by (simp add: within_quota_def Pair)
  qed
qed

lemma quota_step:
  assumes "refs_ok s \<and> within_quota s"
  shows "refs_ok (control_step cn s op) \<and> within_quota (control_step cn s op)"
proof
  show "refs_ok (control_step cn s op)" using assms refs_step by blast
  have aud: "within_quota (audit now u t p a x) = within_quota x" for now u t p a x by (simp add: within_quota_def)
  have fold_head: "db_chunks (snd (fold (head_chunk uid) rows t)) = db_chunks (snd t)" for uid rows t
    using head_keeps[of uid rows t] by auto
  show "within_quota (control_step cn s op)"
  proof (cases "changes_files op")
    case False
    then show ?thesis using assms files_kept[OF False, of cn s] by (simp add: within_quota_def files_view_def)
  next
    case True
    have c: "within_quota (snd (create_manifest ca fid body s))" for ca fid body
      using assms quota_manifest[of s "ca_now ca" "ca_userId ca" fid _ body]
      by (auto simp: create_manifest_def quota_blocked_def aud within_quota_def Let_def split_beta
          split: sum.split option.split file_outcome.split)
    have m: "within_quota (snd (complete_upload ca fid s))" for ca fid
      using assms by (auto simp: complete_upload_def complete_check_def complete_commit_def within_quota_def Let_def
          split_beta fold_head mark_stored_def usage_stored split: option.split)
    have d: "within_quota (snd (delete_file ca fid s))" for ca fid
    proof -
      have "usage (db_chunks (snd (releaseHashes (ca_userId ca) hs (snd (detachFileChunks i s))))) u \<le> PRO_QUOTA_BYTES" for hs i u
        using assms usage_release[of "ca_userId ca" hs "snd (detachFileChunks i s)" u]
        by (auto simp: within_quota_def intro: le_trans)
      then show ?thesis
        using assms by (auto simp: delete_file_def within_quota_def Let_def split_beta split: option.split)
    qed
    show ?thesis
      using assms True c m d
      by (cases op rule: changes_files.cases)
        (auto simp: control_step_def put_object_def within_quota_def split: sum.split option.split)
  qed
qed

lemma quota_empty: "within_quota empty_control"
  by (simp add: within_quota_def empty_control_def usage_def)

interpretation quota_run: kept_invariant "control_step cn" "\<lambda>s. refs_ok s \<and> within_quota s" for cn
  by unfold_locales (rule quota_step)

end
