(* ===== verification/ControlStore.thy ===== *)
theory ControlStore
  imports ControlRefs
begin

text \<open>
  What a completed file promises: every chunk it names has a row confirmed stored, and the object store
  holds an object of the declared size under its key.  Users and hashes give distinct keys as no user
  id has a slash in it.
\<close>

section \<open>Users\<close>

definition plain_users :: "control \<Rightarrow> bool" where
  "plain_users s \<longleftrightarrow> (\<forall>u \<in> set (db_users s). CHR ''/'' \<notin> set (us_id u))"

lemma plain_users_ids: "plain_users s \<longleftrightarrow> (\<forall>i \<in> us_id ` set (db_users s). CHR ''/'' \<notin> set i)"
  by (simp add: plain_users_def)

lemma users_signup:
  "us_id ` set (db_users (snd (signup cn now ids answer body s))) \<subseteq> insert (si_user ids) (us_id ` set (db_users s))"
proof -
  have c: "db_users (snd (claim_invite cn now code email s)) = db_users s" for code email
    by (auto simp: claim_invite_def split: option.split)
  have p: "db_users (snd (provision_machine m answer t)) = db_users t" for m t
    by (auto simp: provision_machine_def Let_def split: sum.split option.split)
  have r: "db_users (record_redeemed now claimed uid t) = db_users t" for claimed uid t
    by (auto simp: record_redeemed_def split: option.split)
  show ?thesis
    by (auto simp: signup_def signup_rest_def Let_def split_beta c p r new_user_def split: sum.split option.split)
qed

lemma users_enroll: "us_id ` set (db_users (snd (enroll_device ca dev body s))) = us_id ` set (db_users s)"
proof -
  have "map us_id (update_rows P (\<lambda>u. u\<lparr>us_homeDeviceId := x\<rparr>) rows) = map us_id rows" for P x rows
    by (rule update_rows_map) simp
  then have e: "us_id ` set (update_rows P (\<lambda>u. u\<lparr>us_homeDeviceId := x\<rparr>) rows) = us_id ` set rows" for P x rows
    by (metis set_map)
  show ?thesis
    by (cases "row_with (takes_home_seat (ca_userId ca)) (db_users s)")
      (simp_all add: enroll_device_def claim_home_def Let_def split_beta e split: option.split)
qed

lemma users_else:
  "db_users (snd (mint_invites cn now header codes email note s)) = db_users s"
  "db_users (snd (mint_enrollment_code cn ca hash salt wrappers s)) = db_users s"
  "db_users (snd (redeem_enrollment_code cn now jti code s)) = db_users s"
  "db_users (snd (rename_device ca dev name s)) = db_users s"
  "db_users (snd (create_space ca sid body1 s)) = db_users s"
  "db_users (snd (patch_space ca sid body2 s)) = db_users s"
  "db_users (snd (put_wrapper ca wid sid kind cred salt2 wrapped s)) = db_users s"
  "db_users (snd (set_recovery ca wid sid salt2 wrapped s)) = db_users s"
  "db_users (snd (remove_wrapper ca sid wid s)) = db_users s"
  by (auto simp: mint_invites_def mint_enrollment_code_def redeem_enrollment_code_def rename_device_def create_space_def
      patch_space_def put_wrapper_def set_recovery_def setRecoveryWrapper_def upsert_wrapper_def remove_wrapper_def Let_def
      split_beta split: option.split)

lemma users_flush: "db_users (snd (snd (flushRevocationOutbox cn now s))) = db_users s"
proof -
  have "db_users (snd (snd (flush_one cn now row t))) = db_users (snd (snd t))" for row t
    by (auto simp: flush_one_def notify_hub_def Let_def split_beta split: sum.split bool.split)
  then have "db_users (snd (snd (fold (flush_one cn now) rows t))) = db_users (snd (snd t))" for rows t
    by (induction rows arbitrary: t) simp_all
  then show ?thesis by (simp add: flushRevocationOutbox_def)
qed

lemma users_revoke: "db_users (snd (revoke_device cn ca oid dev reason s)) = db_users s"
  by (auto simp: revoke_device_def spread_revocation_def notify_hub_def users_flush Let_def split_beta split: option.split)

lemma plain_users_step:
  assumes "plain_users s"
  shows "plain_users (control_step cn s op)"
proof (cases op)
  case (PublicOp now x)
  show ?thesis
  proof (cases x)
    case (SignUp ids answer body)
    have "us_id ` set (db_users (control_step cn s op)) \<subseteq> insert (si_user ids) (us_id ` set (db_users s))"
      using users_signup[of cn now ids answer body s] by (auto simp: PublicOp SignUp control_step_def)
    moreover have "CHR ''/'' \<notin> set (si_user ids) \<or> control_step cn s op = s"
      by (auto simp: PublicOp SignUp control_step_def)
    ultimately show ?thesis using assms by (auto simp: plain_users_def)
  qed (use assms in \<open>simp_all add: PublicOp control_step_def plain_users_def kept users_else\<close>)
next
  case (DeviceOp now h x)
  have "us_id ` set (db_users (control_step cn s op)) = us_id ` set (db_users s)"
    unfolding DeviceOp
    by (cases x) (simp_all add: control_step_def kept users_else users_enroll users_revoke split: sum.split option.split)
  then show ?thesis using assms by (simp only: plain_users_ids)
next
  case (AgentOp now h x)
  then show ?thesis
    using assms by (cases x) (simp_all add: control_step_def plain_users_def kept split: sum.split)
qed (use assms in \<open>simp_all add: control_step_def plain_users_def kept users_flush put_object_def split: option.split\<close>)

lemma bearer_user: "bearerAuth cn s now h = Inr ca \<Longrightarrow> ca_now ca = now \<and> (\<exists>u \<in> set (db_users s). us_id u = ca_userId ca)"
  by (auto simp: bearerAuth_def authenticateToken_def authenticate_jws_def authenticate_stub_def user_of_def Let_def
      dest!: row_withD split: option.splits sum.splits if_splits prod.splits)


section \<open>Objects\<close>

lemma object_key_inj:
  assumes "chunkObjectKey u h = chunkObjectKey v k" "CHR ''/'' \<notin> set u" "CHR ''/'' \<notin> set v"
  shows "u = v \<and> h = k"
proof -
  have e: "u @ CHR ''/'' # h = v @ CHR ''/'' # k" using assms(1) by (simp add: chunkObjectKey_def)
  have t: "takeWhile (\<lambda>c. c \<noteq> CHR ''/'') (w @ CHR ''/'' # r) = w" if "CHR ''/'' \<notin> set w" for w r
    using that by (induction w) auto
  have "u = v" using arg_cong[OF e, of "takeWhile (\<lambda>c. c \<noteq> CHR ''/'')"] t[OF assms(2)] t[OF assms(3)] by metis
  then show ?thesis using e by simp
qed

abbreviation object_of :: "control \<Rightarrow> chunk_row \<Rightarrow> nat option" where
  "object_of s c \<equiv> js_get (ct_objects s) (chunkObjectKey (ch_userId c) (ch_hash c))"

definition store_ok :: "control \<Rightarrow> bool" where
  "store_ok s \<longleftrightarrow>
     refs_ok s \<and> plain_users s \<and>
     (\<forall>c \<in> set (db_chunks s). CHR ''/'' \<notin> set (ch_userId c)) \<and>
     (\<forall>c \<in> set (db_chunks s). ch_storedAt c \<noteq> None \<longrightarrow> object_of s c = Some (ch_sizeBytes c)) \<and>
     (\<forall>f \<in> set (db_files s). fl_completedAt f \<noteq> None \<longrightarrow>
        (\<forall>c \<in> set (db_chunks s). ch_userId c = fl_userId f \<longrightarrow> ch_hash c \<in> names s (fl_id f) \<longrightarrow> ch_storedAt c \<noteq> None))"

text \<open>A row after the transaction of a manifest was there, the same but for its count, or is new and unstored.\<close>

definition descends :: "chunk_row list \<Rightarrow> chunk_row \<Rightarrow> bool" where
  "descends rows c \<longleftrightarrow>
     (\<exists>c0 \<in> set rows. chunk_key c0 = chunk_key c \<and> ch_storedAt c0 = ch_storedAt c \<and> ch_sizeBytes c0 = ch_sizeBytes c)"

lemma attach_descends:
  assumes "c \<in> set (db_chunks (attachChunks now uid fid m s))"
  shows "descends (db_chunks s) c \<or> ch_storedAt c = None \<and> ch_userId c = uid \<and> chunk_key c \<notin> chunk_key ` set (db_chunks s)"
proof -
  have "c \<in> set (update_rows (\<lambda>r. ch_userId r = uid \<and> ch_hash r \<in> cr_hash ` set (distinctChunks m)) one_more (db_chunks s)) \<or>
      (\<exists>x. unknown_to (db_chunks s) uid x \<and> c = fresh_chunk now uid x)"
    using assms unfolding attach_simps(3) claim_fold[OF distinctChunks_hashes(1)] by auto
  then show ?thesis
  proof
    assume "c \<in> set (update_rows (\<lambda>r. ch_userId r = uid \<and> ch_hash r \<in> cr_hash ` set (distinctChunks m)) one_more (db_chunks s))"
    then obtain c0 where "c0 \<in> set (db_chunks s)"
      "c = (if ch_userId c0 = uid \<and> ch_hash c0 \<in> cr_hash ` set (distinctChunks m) then one_more c0 else c0)"
      unfolding update_rows_mem by blast
    then show ?thesis unfolding descends_def by (intro disjI1 bexI[of _ c0]) simp_all
  next
    assume "\<exists>x. unknown_to (db_chunks s) uid x \<and> c = fresh_chunk now uid x"
    then show ?thesis unfolding unknown_to_def by (elim exE conjE) (simp only: fresh_chunk_def chunk_row.simps simp_thms)
  qed
qed

lemma release_descends:
  assumes "c \<in> set (db_chunks (snd (releaseHashes uid hs s)))"
  shows "descends (db_chunks s) c"
proof -
  obtain c0 where "c0 \<in> set (db_chunks s)" "c = (if ch_userId c0 = uid \<and> ch_hash c0 \<in> set hs then one_less c0 else c0)"
    using assms unfolding release_mem by blast
  then show ?thesis unfolding descends_def by (intro bexI[of _ c0]) simp_all
qed

lemma descends_same: "db_chunks s2 = rows \<Longrightarrow> c \<in> set rows \<Longrightarrow> descends rows c"
  unfolding descends_def by blast

text \<open>Deleting objects nobody claims.\<close>

lemma delete_objects_get:
  "js_get (fold (\<lambda>h m. js_del m (chunkObjectKey uid h)) hs m) k =
     (if k \<in> chunkObjectKey uid ` set hs then None else js_get m k)"
  by (induction hs arbitrary: m) auto

lemma orphans_kept:
  assumes "c \<in> set (db_chunks s)" "CHR ''/'' \<notin> set (ch_userId c)" "CHR ''/'' \<notin> set uid"
  shows "object_of (deleteOrphanObjects uid hs s) c = object_of s c"
proof -
  have "chunkObjectKey (ch_userId c) (ch_hash c) \<notin>
      chunkObjectKey uid ` {h \<in> set hs. h \<notin> set (map ch_hash (ownedChunks s uid hs))}"
  proof
    assume "chunkObjectKey (ch_userId c) (ch_hash c) \<in>
      chunkObjectKey uid ` {h \<in> set hs. h \<notin> set (map ch_hash (ownedChunks s uid hs))}"
    then obtain h where h: "chunkObjectKey (ch_userId c) (ch_hash c) = chunkObjectKey uid h" "h \<in> set hs"
      "h \<notin> set (map ch_hash (ownedChunks s uid hs))" by blast
    have "ch_userId c = uid \<and> ch_hash c = h" using object_key_inj[OF h(1)] assms by blast
    then have "c \<in> set (ownedChunks s uid hs)" using assms(1) h(2) by (simp add: ownedChunks_def)
    then show False using h(3) \<open>ch_userId c = uid \<and> ch_hash c = h\<close> by auto
  qed
  then show ?thesis by (simp add: deleteOrphanObjects_def Let_def delete_objects_get)
qed


section \<open>The receipt\<close>

lemma head_step:
  "(\<forall>k. k \<noteq> chunkObjectKey uid (ch_hash c) \<or> ch_storedAt c \<noteq> None \<longrightarrow>
      js_get (ct_objects (snd (head_chunk uid c t))) k = js_get (ct_objects (snd t)) k) \<and>
   (\<forall>h. h \<in> set (hd_confirmed (fst (head_chunk uid c t))) \<longrightarrow> h \<in> set (hd_confirmed (fst t)) \<or>
      h = ch_hash c \<and> ch_storedAt c = None \<and>
      js_get (ct_objects (snd (head_chunk uid c t))) (chunkObjectKey uid h) = Some (ch_sizeBytes c))"
  by (auto simp: head_chunk_def Let_def split_beta split: option.split)

lemma head_objects:
  "js_get (ct_objects (snd (fold (head_chunk uid) rows t))) k = js_get (ct_objects (snd t)) k"
  if "\<forall>c \<in> set rows. ch_storedAt c = None \<longrightarrow> chunkObjectKey uid (ch_hash c) \<noteq> k"
  using that
proof (induction rows arbitrary: t)
  case (Cons c rows)
  then have "js_get (ct_objects (snd (head_chunk uid c t))) k = js_get (ct_objects (snd t)) k"
    using head_step[of uid c t] by auto
  then show ?case using Cons by simp
qed simp

lemma head_confirmed:
  assumes "distinct (map ch_hash rows)" "h \<in> set (hd_confirmed (fst (fold (head_chunk uid) rows t)))"
  shows "h \<in> set (hd_confirmed (fst t)) \<or> (\<exists>c \<in> set rows. ch_hash c = h \<and> ch_storedAt c = None \<and>
      js_get (ct_objects (snd (fold (head_chunk uid) rows t))) (chunkObjectKey uid h) = Some (ch_sizeBytes c))"
  using assms
proof (induction rows arbitrary: t)
  case (Cons c rows)
  let ?t = "head_chunk uid c t"
  have d: "distinct (map ch_hash rows)" "ch_hash c \<notin> ch_hash ` set rows" using Cons.prems(1) by auto
  have "h \<in> set (hd_confirmed (fst (fold (head_chunk uid) rows ?t)))" using Cons.prems(2) by simp
  from Cons.IH[OF d(1) this] show ?case
  proof
    assume "h \<in> set (hd_confirmed (fst ?t))"
    then have "h \<in> set (hd_confirmed (fst t)) \<or> h = ch_hash c \<and> ch_storedAt c = None \<and>
        js_get (ct_objects (snd ?t)) (chunkObjectKey uid h) = Some (ch_sizeBytes c)"
      using head_step[of uid c t] by (simp only: simp_thms)
    then show ?thesis
    proof
      assume m: "h = ch_hash c \<and> ch_storedAt c = None \<and>
        js_get (ct_objects (snd ?t)) (chunkObjectKey uid h) = Some (ch_sizeBytes c)"
      have "chunkObjectKey uid (ch_hash c') \<noteq> chunkObjectKey uid h" if "c' \<in> set rows" for c'
      proof -
        have "ch_hash c' \<in> ch_hash ` set rows" using that by (rule imageI)
        then show ?thesis using d(2) m by (auto simp: chunkObjectKey_def)
      qed
      then have "js_get (ct_objects (snd (fold (head_chunk uid) rows ?t))) (chunkObjectKey uid h) =
          js_get (ct_objects (snd ?t)) (chunkObjectKey uid h)"
        by (intro head_objects) simp
      then have "ch_hash c = h \<and> ch_storedAt c = None \<and>
          js_get (ct_objects (snd (fold (head_chunk uid) (c # rows) t))) (chunkObjectKey uid h) = Some (ch_sizeBytes c)"
        using m by auto
      then show ?thesis by (intro disjI2 bexI[of _ c]) (simp_all only: list.set_intros)
    qed simp
  next
    assume "\<exists>c' \<in> set rows. ch_hash c' = h \<and> ch_storedAt c' = None \<and>
      js_get (ct_objects (snd (fold (head_chunk uid) rows ?t))) (chunkObjectKey uid h) = Some (ch_sizeBytes c')"
    then show ?thesis by simp
  qed
qed simp


section \<open>Every request keeps the promise\<close>

lemma key_unique:
  assumes "refs_ok s" "c \<in> set (db_chunks s)" "c' \<in> set (db_chunks s)" "chunk_key c = chunk_key c'"
  shows "c = c'"
proof -
  have "inj_on chunk_key (set (db_chunks s))" using assms(1) unfolding refs_ok_def counts_def distinct_map by blast
  then show ?thesis by (rule inj_onD[OF _ assms(4,2,3)])
qed

lemma store_rows:
  assumes ok: "store_ok s" and r: "refs_ok s'" "db_users s' = db_users s"
    and chunks: "\<And>c. c \<in> set (db_chunks s') \<Longrightarrow> descends (db_chunks s) c \<or>
       ch_storedAt c = None \<and> CHR ''/'' \<notin> set (ch_userId c) \<and> chunk_key c \<notin> chunk_key ` set (db_chunks s)"
    and objects: "\<And>c. c \<in> set (db_chunks s') \<Longrightarrow> CHR ''/'' \<notin> set (ch_userId c) \<Longrightarrow> object_of s' c = object_of s c"
    and files: "\<And>f. f \<in> set (db_files s') \<Longrightarrow> fl_completedAt f \<noteq> None \<Longrightarrow>
       f \<in> set (db_files s) \<and> names s' (fl_id f) = names s (fl_id f)"
  shows "store_ok s'"
proof -
  have plain: "CHR ''/'' \<notin> set (ch_userId c)" if "c \<in> set (db_chunks s')" for c
    using chunks[OF that] ok by (auto simp: store_ok_def descends_def)
  have "object_of s' c = Some (ch_sizeBytes c)" if c: "c \<in> set (db_chunks s')" "ch_storedAt c \<noteq> None" for c
  proof -
    obtain c0 where c0: "c0 \<in> set (db_chunks s)" "chunk_key c0 = chunk_key c" "ch_storedAt c0 = ch_storedAt c"
      "ch_sizeBytes c0 = ch_sizeBytes c"
      using chunks[OF c(1)] c(2) unfolding descends_def by blast
    have "object_of s c0 = Some (ch_sizeBytes c0)" using ok c0(1,3) c(2) unfolding store_ok_def by metis
    then show ?thesis using objects[OF c(1) plain[OF c(1)]] c0 by simp
  qed
  moreover have "ch_storedAt c \<noteq> None"
    if f: "f \<in> set (db_files s')" "fl_completedAt f \<noteq> None" and c: "c \<in> set (db_chunks s')"
      "ch_userId c = fl_userId f" "ch_hash c \<in> names s' (fl_id f)" for f c
  proof -
    have old: "f \<in> set (db_files s)" "ch_hash c \<in> names s (fl_id f)" using files[OF f] c(3) by auto
    have "0 < claims s (fl_userId f) (ch_hash c)"
      by (rule claims_pos[of "fl_id f"]) (use old in \<open>auto simp: owners_mem\<close>)
    then have "chunk_key c \<in> chunk_key ` set (db_chunks s)"
      using ok c(2) by (simp add: store_ok_def refs_ok_def counts_def)
    then obtain c0 where c0: "c0 \<in> set (db_chunks s)" "chunk_key c0 = chunk_key c" "ch_storedAt c0 = ch_storedAt c"
      using chunks[OF c(1)] unfolding descends_def by blast
    have "ch_userId c0 = fl_userId f" "ch_hash c0 \<in> names s (fl_id f)" using c0(2) c(2) old(2) by simp_all
    then have "ch_storedAt c0 \<noteq> None" using ok c0(1) old(1) f(2) unfolding store_ok_def by metis
    then show ?thesis using c0(3) by simp
  qed
  moreover have "plain_users s'" using ok r(2) by (simp add: store_ok_def plain_users_def)
  ultimately show ?thesis using r(1) plain unfolding store_ok_def by blast
qed

lemma store_manifest:
  assumes ok: "store_ok s" and fid: "fid \<notin> fl_id ` set (db_files s)" and u: "CHR ''/'' \<notin> set uid"
    and tx: "manifest_tx now uid fid path body s = (OutcomeOk d, s')"
  shows "store_ok (deleteOrphanObjects uid (md_orphans d) s')"
proof -
  have refs: "refs_ok s" using ok by (simp add: store_ok_def)
  let ?m = "mr_manifest body"
  obtain i old s2 where s': "s' = snd (releaseHashes uid old (attachChunks now uid i ?m s2))"
    and s2: "db_chunks s2 = db_chunks s" "ct_objects s2 = ct_objects s"
      "db_fileChunks s2 = filter (\<lambda>r. fc_fileId r \<noteq> i) (db_fileChunks s)"
    and files: "\<And>f. f \<in> set (db_files s2) \<Longrightarrow> fl_completedAt f \<noteq> None \<Longrightarrow> f \<in> set (db_files s) \<and> fl_id f \<noteq> i"
  proof (cases "file_at s uid path")
    case None
    have "filter (\<lambda>r. fc_fileId r \<noteq> fid) (db_fileChunks s) = db_fileChunks s"
      using refs fid by (auto simp: refs_ok_def filter_id_conv)
    then show ?thesis
      using manifest_tx_new[OF None tx] fid
      by (intro that[of "[]" fid "s\<lparr>db_files := db_files s @ [new_file now uid fid path body]\<rparr>"]) auto
  next
    case (Some f)
    obtain s2 where s2: "s' = snd (releaseHashes uid (distinctFileHashes s (fl_id f)) (attachChunks now uid (fl_id f) ?m s2))"
      "db_files s2 = update_rows (\<lambda>g. fl_id g = fl_id f) (rewritten now body) (db_files s)" "db_chunks s2 = db_chunks s"
      "db_fileChunks s2 = filter (\<lambda>r. fc_fileId r \<noteq> fl_id f) (db_fileChunks s)" "ct_objects s2 = ct_objects s"
      using manifest_tx_old[OF Some tx] by blast
    show ?thesis
    proof (rule that[OF s2(1,3,5,4)])
      fix g assume "g \<in> set (db_files s2)" "fl_completedAt g \<noteq> None"
      then obtain g0 where "g0 \<in> set (db_files s)" "g = (if fl_id g0 = fl_id f then rewritten now body g0 else g0)"
        "fl_completedAt g \<noteq> None"
        unfolding s2(2) update_rows_mem by blast
      then show "g \<in> set (db_files s) \<and> fl_id g \<noteq> fl_id f" by (cases "fl_id g0 = fl_id f") simp_all
    qed
  qed
  have "db_fileChunks s' = filter (\<lambda>r. fc_fileId r \<noteq> i) (db_fileChunks s) @ manifest_rows i ?m" by (simp add: s' s2(3))
  note n = names_after(2)[OF this]
  have r: "refs_ok (deleteOrphanObjects uid (md_orphans d) s')"
    using refs_manifest[OF refs fid tx] by (simp add: deleteOrphanObjects_def Let_def refs_objects)
  have users: "db_users (deleteOrphanObjects uid (md_orphans d) s') = db_users s"
    using manifest_tx_frame[of now uid fid path body s] tx by (simp add: beside_files_def deleteOrphanObjects_def Let_def)
  have names: "names (deleteOrphanObjects uid hs s') j = names s' j" for hs j by (simp add: distinctFileHashes_def)
  show ?thesis
  proof (rule store_rows[OF ok r users])
    fix c assume "c \<in> set (db_chunks (deleteOrphanObjects uid (md_orphans d) s'))"
    then have "c \<in> set (db_chunks s')" by simp
    then obtain c1 where c1: "c1 \<in> set (db_chunks (attachChunks now uid i ?m s2))" "chunk_key c1 = chunk_key c"
      "ch_storedAt c1 = ch_storedAt c" "ch_sizeBytes c1 = ch_sizeBytes c"
      using release_descends unfolding s' descends_def by blast
    have same: "ch_userId c1 = ch_userId c" "ch_hash c1 = ch_hash c" using c1(2) by simp_all
    from attach_descends[OF c1(1)]
    show "descends (db_chunks s) c \<or> ch_storedAt c = None \<and> CHR ''/'' \<notin> set (ch_userId c) \<and>
        chunk_key c \<notin> chunk_key ` set (db_chunks s)"
    proof
      assume "descends (db_chunks s2) c1"
      then show ?thesis using c1(2-4) unfolding s2(1) descends_def by simp
    next
      assume "ch_storedAt c1 = None \<and> ch_userId c1 = uid \<and> chunk_key c1 \<notin> chunk_key ` set (db_chunks s2)"
      then have new: "ch_storedAt c = None" "ch_userId c = uid" "chunk_key c \<notin> chunk_key ` set (db_chunks s)"
        unfolding s2(1) c1(3) same by blast+
      have "CHR ''/'' \<notin> set (ch_userId c)" using u unfolding new(2) .
      then show ?thesis using new(1,3) by (intro disjI2 conjI)
    qed
  next
    fix c assume c: "c \<in> set (db_chunks (deleteOrphanObjects uid (md_orphans d) s'))" "CHR ''/'' \<notin> set (ch_userId c)"
    then have "object_of (deleteOrphanObjects uid (md_orphans d) s') c = object_of s' c" by (intro orphans_kept) (simp_all add: u)
    then show "object_of (deleteOrphanObjects uid (md_orphans d) s') c = object_of s c" by (simp add: s' s2(2))
  next
    fix f assume "f \<in> set (db_files (deleteOrphanObjects uid (md_orphans d) s'))" "fl_completedAt f \<noteq> None"
    then have "f \<in> set (db_files s) \<and> fl_id f \<noteq> i" by (intro files) (simp_all add: s')
    then show "f \<in> set (db_files s) \<and> names (deleteOrphanObjects uid (md_orphans d) s') (fl_id f) = names s (fl_id f)"
      using n by (simp add: names)
  qed
qed


lemma store_delete:
  assumes ok: "store_ok s" and u: "CHR ''/'' \<notin> set (ca_userId ca)"
  shows "store_ok (snd (delete_file ca fid s))"
proof (cases "ownedFile s (ca_userId ca) fid")
  case None
  then show ?thesis using ok by (simp add: delete_file_def)
next
  case (Some f)
  let ?uid = "ca_userId ca" and ?old = "distinctFileHashes s (fl_id f)" and ?s' = "snd (delete_file ca fid s)"
  let ?s2 = "snd (releaseHashes ?uid ?old (snd (detachFileChunks (fl_id f) s)))"
  let ?s3 = "?s2\<lparr>db_files := filter (\<lambda>g. fl_id g \<noteq> fl_id f) (db_files s)\<rparr>"
  obtain os where s': "db_files ?s' = db_files ?s3" "db_chunks ?s' = db_chunks ?s2" "db_fileChunks ?s' = db_fileChunks ?s2"
    "ct_objects ?s' = ct_objects (deleteOrphanObjects ?uid os ?s3)"
    using Some by (simp add: delete_file_def Let_def split_beta)
  have fc: "db_fileChunks ?s' = filter (\<lambda>r. fc_fileId r \<noteq> fl_id f) (db_fileChunks s)" by (simp add: s'(3))
  show ?thesis
  proof (rule store_rows[OF ok])
    show "refs_ok ?s'" using ok by (intro refs_delete) (simp add: store_ok_def)
    show "db_users ?s' = db_users s" using files_frame(3)[of ca fid s] by (simp add: beside_files_def)
  next
    fix c assume "c \<in> set (db_chunks ?s')"
    then show "descends (db_chunks s) c \<or> ch_storedAt c = None \<and> CHR ''/'' \<notin> set (ch_userId c) \<and>
        chunk_key c \<notin> chunk_key ` set (db_chunks s)"
      using release_descends[of c ?uid ?old "snd (detachFileChunks (fl_id f) s)"] unfolding s'(2) detach_simps(3) by blast
  next
    fix c assume "c \<in> set (db_chunks ?s')" "CHR ''/'' \<notin> set (ch_userId c)"
    then show "object_of ?s' c = object_of s c"
      using orphans_kept[of c ?s3 ?uid os] u by (simp add: s'(2,4))
  next
    fix g assume "g \<in> set (db_files ?s')"
    then have "g \<in> set (db_files s)" "fl_id g \<noteq> fl_id f" unfolding s'(1) by simp_all
    then show "g \<in> set (db_files s) \<and> names ?s' (fl_id g) = names s (fl_id g)"
      by (auto simp: set_eq_iff names_iff fc)
  qed
qed

lemma store_put: "store_ok s \<Longrightarrow> store_ok (snd (control_request cn (PutObject uid hash bytes) s))"
proof -
  assume ok: "store_ok s"
  show ?thesis
  proof (cases "chunk_of s uid hash")
    case (Some c0)
    then have c0: "c0 \<in> set (db_chunks s)" "ch_userId c0 = uid" "ch_hash c0 = hash"
      by (auto simp: chunk_of_def owned_chunk_def dest: row_withD)
    show ?thesis
    proof (cases "bytes = ch_sizeBytes c0")
      case True
      let ?s' = "put_object uid hash bytes s"
      have "object_of ?s' c = (if c = c0 then Some (ch_sizeBytes c0) else object_of s c)" if c: "c \<in> set (db_chunks s)" for c
      proof (cases "chunkObjectKey (ch_userId c) (ch_hash c) = chunkObjectKey uid hash")
        case True
        moreover have "CHR ''/'' \<notin> set (ch_userId c)" "CHR ''/'' \<notin> set uid" using ok c c0(1,2) unfolding store_ok_def by metis+
        ultimately have "chunk_key c = chunk_key c0" using object_key_inj c0(2,3) by metis
        then have "c = c0" using key_unique[OF _ c c0(1)] ok unfolding store_ok_def by blast
        then show ?thesis using \<open>bytes = ch_sizeBytes c0\<close> c0 by (simp add: put_object_def)
      next
        case False
        then show ?thesis using c0 by (auto simp: put_object_def)
      qed
      then have "\<forall>c \<in> set (db_chunks ?s'). ch_storedAt c \<noteq> None \<longrightarrow> object_of ?s' c = Some (ch_sizeBytes c)"
        using ok by (simp add: store_ok_def put_object_def)
      moreover have "refs_ok ?s'" using ok by (simp add: put_object_def refs_objects store_ok_def)
      ultimately show ?thesis
        using ok Some True by (simp add: store_ok_def put_object_def plain_users_def distinctFileHashes_def)
    qed (use ok Some in simp)
  qed (use ok in simp)
qed


lemma store_files_update:
  assumes ok: "store_ok s"
    and stored: "\<And>c. c \<in> set (db_chunks s) \<Longrightarrow> ch_userId c = uid \<Longrightarrow> ch_hash c \<in> names s fid \<Longrightarrow> ch_storedAt c \<noteq> None"
    and own: "\<And>f. f \<in> set (db_files s) \<Longrightarrow> fl_id f = fid \<Longrightarrow> fl_userId f = uid"
  shows "store_ok (s\<lparr>db_files := update_rows (\<lambda>f. fl_id f = fid)
    (\<lambda>f. f\<lparr>fl_completedAt := Some now, fl_updatedAt := now\<rparr>) (db_files s)\<rparr>)" (is "store_ok ?s'")
proof -
  have n: "names ?s' j = names s j" for j by (simp add: distinctFileHashes_def)
  have "refs_ok ?s'" proof (rule refs_same)
    show "refs_ok s" using ok by (simp add: store_ok_def)
    show "map (\<lambda>f. (fl_id f, fl_userId f, fl_path f)) (db_files ?s') = map (\<lambda>f. (fl_id f, fl_userId f, fl_path f)) (db_files s)"
      by simp (rule update_rows_map, simp)
  qed simp_all
  moreover have "ch_storedAt c \<noteq> None"
    if f: "f \<in> set (db_files ?s')" "fl_completedAt f \<noteq> None" and c: "c \<in> set (db_chunks s)"
      "ch_userId c = fl_userId f" "ch_hash c \<in> names s (fl_id f)" for f c
  proof -
    obtain f0 where f0: "f0 \<in> set (db_files s)"
      "f = (if fl_id f0 = fid then f0\<lparr>fl_completedAt := Some now, fl_updatedAt := now\<rparr> else f0)"
      using f(1) by (auto simp: update_rows_mem)
    show ?thesis
    proof (cases "fl_id f0 = fid")
      case True
      then show ?thesis using stored[OF c(1)] own[OF f0(1)] c(2,3) f0(2) by simp
    next
      case False
      then have "f = f0" using f0(2) by simp
      then show ?thesis using ok f0(1) f(2) c unfolding store_ok_def by blast
    qed
  qed
  moreover have "plain_users ?s'" using ok by (simp add: store_ok_def plain_users_def)
  moreover have "db_chunks ?s' = db_chunks s" "\<And>c. object_of ?s' c = object_of s c" by simp_all
  ultimately show ?thesis using ok unfolding store_ok_def n by simp
qed

lemma store_view: "files_view s' = files_view s \<Longrightarrow> db_users s' = db_users s \<Longrightarrow> store_ok s' = store_ok s"
  using claims_view[of s' s] by (simp add: store_ok_def plain_users_def distinctFileHashes_def files_view_def)

lemma store_audit [simp]: "store_ok (audit now u t p a s) = store_ok s"
  by (rule store_view) simp_all

text \<open>The first step keeps the objects of stored rows, and what it confirms is there.\<close>

lemma store_check:
  assumes ok: "store_ok s" and check: "complete_check ca fid s = (Some h, s')"
  shows "store_ok s' \<and> db_chunks s' = db_chunks s \<and> db_files s' = db_files s \<and>
    (\<forall>c \<in> set (db_chunks s). ch_userId c = ca_userId ca \<longrightarrow> ch_hash c \<in> set (hd_confirmed h) \<longrightarrow>
       object_of s' c = Some (ch_sizeBytes c))"
proof -
  let ?uid = "ca_userId ca"
  let ?rows = "ownedChunks s ?uid (distinctFileHashes s fid)"
  let ?t = "fold (head_chunk ?uid) ?rows (\<lparr>hd_confirmed = [], hd_missing = [], hd_rejected = []\<rparr>, s)"
  have h: "h = fst ?t" and s': "files_view s' = files_view (snd ?t) \<and> db_users s' = db_users (snd ?t)"
    using check by (auto simp: complete_check_def Let_def split_beta split: option.splits if_splits)
  obtain x where x: "snd ?t = s\<lparr>ct_objects := x\<rparr>" using head_keeps[of ?uid ?rows] by (metis snd_conv)
  have refs: "refs_ok s" using ok by (simp add: store_ok_def)
  have rows: "c \<in> set ?rows \<Longrightarrow> c \<in> set (db_chunks s) \<and> ch_userId c = ?uid" for c by (simp add: ownedChunks_def)
  have "distinct (map ch_hash ?rows)"
    unfolding distinct_map
  proof
    have "distinct (map chunk_key (db_chunks s))" using refs by (simp add: refs_ok_def counts_def)
    then show "distinct ?rows" by (simp add: ownedChunks_def distinct_map)
    show "inj_on ch_hash (set ?rows)"
    proof (rule inj_onI)
      fix c c' assume "c \<in> set ?rows" "c' \<in> set ?rows" "ch_hash c = ch_hash c'"
      then show "c = c'" using rows by (intro key_unique[OF refs]) auto
    qed
  qed
  note conf = head_confirmed[OF this, of _ ?uid "(\<lparr>hd_confirmed = [], hd_missing = [], hd_rejected = []\<rparr>, s)"]
  have stored: "object_of (snd ?t) c = object_of s c" if c: "c \<in> set (db_chunks s)" "ch_storedAt c \<noteq> None" for c
  proof -
    have "chunkObjectKey ?uid (ch_hash c') \<noteq> chunkObjectKey (ch_userId c) (ch_hash c)"
      if "c' \<in> set ?rows" "ch_storedAt c' = None" for c'
    proof
      assume k: "chunkObjectKey ?uid (ch_hash c') = chunkObjectKey (ch_userId c) (ch_hash c)"
      have c': "c' \<in> set (db_chunks s)" "ch_userId c' = ?uid" using rows[OF that(1)] by auto
      have "CHR ''/'' \<notin> set (ch_userId c)" "CHR ''/'' \<notin> set (ch_userId c')" using ok c(1) c'(1) unfolding store_ok_def by blast+
      then have "chunk_key c' = chunk_key c" using object_key_inj k c'(2) by metis
      then have "c' = c" using key_unique[OF refs c'(1) c(1)] by blast
      then show False using that(2) c(2) by simp
    qed
    then show ?thesis using head_objects[of ?rows ?uid] by simp
  qed
  have "object_of (snd ?t) c = Some (ch_sizeBytes c)"
    if c: "c \<in> set (db_chunks s)" "ch_userId c = ?uid" "ch_hash c \<in> set (hd_confirmed h)" for c
  proof -
    obtain c' where c': "c' \<in> set ?rows" "ch_hash c' = ch_hash c"
      "js_get (ct_objects (snd ?t)) (chunkObjectKey ?uid (ch_hash c)) = Some (ch_sizeBytes c')"
      using conf[of "ch_hash c"] c(3) unfolding h by auto
    have "c' = c" using rows[OF c'(1)] c(1,2) c'(2) by (intro key_unique[OF refs]) auto
    then show ?thesis using c'(3) c(2) by simp
  qed
  moreover have "store_ok (snd ?t)"
    using ok stored unfolding store_ok_def x by (auto simp: refs_objects plain_users_def distinctFileHashes_def)
  moreover have "store_ok s' = store_ok (snd ?t)" by (rule store_view) (use s' in simp_all)
  moreover have "db_chunks s' = db_chunks s" "db_files s' = db_files s" "ct_objects s' = ct_objects (snd ?t)"
    using s' x by (simp_all add: files_view_def)
  ultimately show ?thesis by simp
qed


lemma store_mark:
  assumes ok: "store_ok s"
    and there: "\<And>c. c \<in> set (db_chunks s) \<Longrightarrow> ch_userId c = uid \<Longrightarrow> ch_hash c \<in> set hs \<Longrightarrow> object_of s c = Some (ch_sizeBytes c)"
  shows "store_ok (mark_stored now uid hs s)"
proof -
  let ?s' = "mark_stored now uid hs s"
  have mem: "\<exists>c0 \<in> set (db_chunks s). chunk_key c0 = chunk_key c \<and> ch_sizeBytes c0 = ch_sizeBytes c \<and>
      (ch_storedAt c0 = ch_storedAt c \<or> ch_userId c0 = uid \<and> ch_hash c0 \<in> set hs \<and> ch_storedAt c \<noteq> None)"
    if "c \<in> set (db_chunks ?s')" for c
  proof -
    have "c \<in> set (update_rows (\<lambda>c. ch_userId c = uid \<and> ch_hash c \<in> set hs \<and> ch_storedAt c = None)
        (\<lambda>c. c\<lparr>ch_storedAt := Some now\<rparr>) (db_chunks s))"
      using that by (simp add: mark_stored_def)
    then obtain c0 where "c0 \<in> set (db_chunks s)"
      "c = (if ch_userId c0 = uid \<and> ch_hash c0 \<in> set hs \<and> ch_storedAt c0 = None then c0\<lparr>ch_storedAt := Some now\<rparr> else c0)"
      unfolding update_rows_mem by blast
    then show ?thesis by (intro bexI[of _ c0]) auto
  qed
  have o: "object_of ?s' c = object_of s c" for c by simp
  have n: "names ?s' j = names s j" for j by (simp add: distinctFileHashes_def)
  have "object_of s c = Some (ch_sizeBytes c)" if c: "c \<in> set (db_chunks ?s')" "ch_storedAt c \<noteq> None" for c
  proof -
    obtain c0 where c0: "c0 \<in> set (db_chunks s)" "chunk_key c0 = chunk_key c" "ch_sizeBytes c0 = ch_sizeBytes c"
      "ch_storedAt c0 = ch_storedAt c \<or> ch_userId c0 = uid \<and> ch_hash c0 \<in> set hs"
      using mem[OF c(1)] by blast
    have "object_of s c0 = Some (ch_sizeBytes c0)"
      using c0(4) there[OF c0(1)] ok c0(1) c(2) unfolding store_ok_def by metis
    then show ?thesis using c0(2,3) by simp
  qed
  moreover have "ch_storedAt c \<noteq> None"
    if f: "f \<in> set (db_files s)" "fl_completedAt f \<noteq> None" and c: "c \<in> set (db_chunks ?s')"
      "ch_userId c = fl_userId f" "ch_hash c \<in> names s (fl_id f)" for f c
  proof -
    obtain c0 where c0: "c0 \<in> set (db_chunks s)" "ch_userId c0 = ch_userId c" "ch_hash c0 = ch_hash c"
      "ch_storedAt c0 = ch_storedAt c \<or> ch_storedAt c \<noteq> None"
      using mem[OF c(1)] by auto
    then have "ch_storedAt c0 \<noteq> None" using ok f c(2,3) unfolding store_ok_def by metis
    then show ?thesis using c0(4) by metis
  qed
  moreover have "CHR ''/'' \<notin> set (ch_userId c)" if "c \<in> set (db_chunks ?s')" for c
    using mem[OF that] ok unfolding store_ok_def by auto
  moreover have "plain_users ?s'" using ok by (simp add: store_ok_def plain_users_def mark_stored_def)
  ultimately show ?thesis using ok refs_mark[of s now uid hs] unfolding store_ok_def n o by simp
qed

lemma own_file:
  "refs_ok s \<Longrightarrow> ownedFile s uid fid = Some f \<Longrightarrow> g \<in> set (db_files s) \<Longrightarrow> fl_id g = fid \<Longrightarrow> fl_userId g = uid"
proof -
  assume r: "refs_ok s" and f: "ownedFile s uid fid = Some f" and g: "g \<in> set (db_files s)" "fl_id g = fid"
  have "f \<in> set (db_files s)" "fl_id f = fid" "fl_userId f = uid" using f by (auto simp: ownedFile_def dest: row_withD)
  moreover have "inj_on fl_id (set (db_files s))" using r unfolding refs_ok_def distinct_map by blast
  ultimately have "f = g" using g by (metis inj_onD)
  then show "fl_userId g = uid" using \<open>fl_userId f = uid\<close> by simp
qed

lemma store_commit:
  assumes ok: "store_ok s"
    and there: "\<And>c. c \<in> set (db_chunks s) \<Longrightarrow> ch_userId c = ca_userId ca \<Longrightarrow> ch_hash c \<in> set (hd_confirmed h) \<Longrightarrow>
      object_of s c = Some (ch_sizeBytes c)"
  shows "store_ok (snd (complete_commit ca fid h s))"
proof -
  let ?uid = "ca_userId ca" and ?now = "ca_now ca"
  let ?s1 = "mark_stored ?now ?uid (hd_confirmed h) s"
  have s1: "store_ok ?s1" by (rule store_mark[OF ok there])
  have refs: "refs_ok ?s1" using s1 by (simp add: store_ok_def)
  show ?thesis
  proof (cases "hd_missing h = [] \<and> ownedFile ?s1 ?uid fid \<noteq> None \<and>
      filter (\<lambda>c. ch_storedAt c = None) (ownedChunks ?s1 ?uid (distinctFileHashes ?s1 fid)) = []")
    case True
    then obtain f where f: "ownedFile ?s1 ?uid fid = Some f" by auto
    have "store_ok (?s1\<lparr>db_files := update_rows (\<lambda>f. fl_id f = fid)
        (\<lambda>f. f\<lparr>fl_completedAt := Some ?now, fl_updatedAt := ?now\<rparr>) (db_files ?s1)\<rparr>)"
    proof (rule store_files_update[OF s1])
      fix c assume "c \<in> set (db_chunks ?s1)" "ch_userId c = ?uid" "ch_hash c \<in> names ?s1 fid"
      then have "c \<in> set (ownedChunks ?s1 ?uid (distinctFileHashes ?s1 fid))" by (simp add: ownedChunks_def)
      then show "ch_storedAt c \<noteq> None" using True by (auto simp: filter_empty_conv)
    next
      fix g assume "g \<in> set (db_files ?s1)" "fl_id g = fid"
      then show "fl_userId g = ?uid" by (rule own_file[OF refs f])
    qed
    then show ?thesis using True f by (simp add: complete_commit_def Let_def)
  next
    case False
    then show ?thesis using s1 by (auto simp: complete_commit_def Let_def split: option.split)
  qed
qed

lemma store_complete: "store_ok s \<Longrightarrow> store_ok (snd (complete_upload ca fid s))"
proof -
  assume ok: "store_ok s"
  show ?thesis
  proof (cases "complete_check ca fid s")
    case (Pair h s')
    show ?thesis
    proof (cases h)
      case None
      then have "s' = s" using Pair by (auto simp: complete_check_def Let_def split_beta split: option.splits)
      then show ?thesis using ok None Pair by (simp add: complete_upload_def)
    next
      case (Some h')
      note c = store_check[OF ok Pair[unfolded Some]]
      have "store_ok (snd (complete_commit ca fid h' s'))" by (rule store_commit) (use c in auto)
      then show ?thesis using Some Pair by (simp add: complete_upload_def)
    qed
  qed
qed

lemma store_step: "store_ok s \<Longrightarrow> store_ok (control_step cn s op)"
proof -
  assume ok: "store_ok s"
  show ?thesis
  proof (cases "changes_files op")
    case False
    have f: "files_view (control_step cn s op) = files_view s" by (rule files_kept[OF False])
    moreover have "refs_ok (control_step cn s op)" "plain_users (control_step cn s op)"
      using ok refs_step plain_users_step by (auto simp: store_ok_def)
    ultimately show ?thesis using ok by (simp add: store_ok_def files_view_def distinctFileHashes_def)
  next
    case True
    have plain: "CHR ''/'' \<notin> set (ca_userId ca)" if "bearerAuth cn s now h = Inr ca" for now h ca
      using bearer_user[OF that] ok by (auto simp: store_ok_def plain_users_def)
    have create: "store_ok (snd (create_manifest ca fid body s))"
      if "CHR ''/'' \<notin> set (ca_userId ca)" "fid \<notin> fl_id ` set (db_files s)" for ca fid body
    proof -
      have "store_ok (snd (manifest_tx (ca_now ca) (ca_userId ca) fid path body s))"
        if "fst (manifest_tx (ca_now ca) (ca_userId ca) fid path body s) = QuotaRefused v n" for path v n
        using that ok manifest_tx_quota by (metis prod.collapse)
      moreover have "store_ok (deleteOrphanObjects (ca_userId ca) (md_orphans d)
          (snd (manifest_tx (ca_now ca) (ca_userId ca) fid path body s)))"
        if "fst (manifest_tx (ca_now ca) (ca_userId ca) fid path body s) = OutcomeOk d" for path d
        using store_manifest[OF ok \<open>fid \<notin> fl_id ` set (db_files s)\<close> \<open>CHR ''/'' \<notin> set (ca_userId ca)\<close>] that
        by (metis prod.collapse)
      ultimately show ?thesis
        using ok by (auto simp: create_manifest_def quota_blocked_def split_beta split: sum.split option.split file_outcome.split)
    qed
    show ?thesis
      using True
    proof (cases op rule: changes_files.cases)
      case (1 now h fid body)
      then show ?thesis using ok create plain by (auto simp: control_step_def split: sum.split option.split)
    next
      case (2 now h fid)
      then show ?thesis using ok store_complete by (auto simp: control_step_def split: sum.split option.split)
    next
      case (3 now h fid)
      then show ?thesis using ok store_delete plain by (auto simp: control_step_def split: sum.split option.split)
    next
      case (4 uid hash bytes)
      then show ?thesis using ok store_put by (simp add: control_step_def del: control_request.simps)
    qed simp_all
  qed
qed

lemma store_empty: "store_ok empty_control"
  using refs_empty by (simp add: store_ok_def plain_users_def) (simp add: empty_control_def)

interpretation receipt_run: kept_invariant "control_step cn" store_ok for cn
  by unfold_locales (rule store_step)

end
