(* ===== verification/ControlHistory.thy ===== *)
theory ControlHistory
  imports ControlFrames
begin

text \<open>
  The machine of an account over time: its events are a legal path from its provisioning to the state
  it is in, it is never suspended under work unless the user forces it, and what Boost gives it keeps.
\<close>

section \<open>Histories\<close>

fun legal_path :: "MachineState \<Rightarrow> machine_event_row list \<Rightarrow> MachineState \<Rightarrow> bool" where
  "legal_path from [] to \<longleftrightarrow> from = to"
| "legal_path from (e # es) to \<longleftrightarrow>
     me_fromState e = from \<and> canTransition from (me_toState e) \<and> legal_path (me_toState e) es to"

lemma legal_path_snoc:
  "legal_path a es mid \<Longrightarrow> me_fromState e = mid \<Longrightarrow> canTransition mid (me_toState e) \<Longrightarrow> legal_path a (es @ [e]) (me_toState e)"
  by (induction es arbitrary: a) auto

definition history_ok :: "control \<Rightarrow> bool" where
  "history_ok s \<longleftrightarrow>
     distinct (map mc_id (db_machines s)) \<and>
     (\<forall>e \<in> set (db_machineEvents s). me_machineId e \<in> mc_id ` set (db_machines s)) \<and>
     (\<forall>m \<in> set (db_machines s). legal_path Provisioning (events_of s (mc_id m)) (mc_state m))"

text \<open>The requests that change machines.\<close>

fun changes_machines :: "control_op \<Rightarrow> bool" where
  "changes_machines (PublicOp _ (SignUp _ _ _)) = True"
| "changes_machines (DeviceOp _ _ (Transition _ _ _)) = True"
| "changes_machines (DeviceOp _ _ (Boost _ _ _)) = True"
| "changes_machines _ = False"

lemma machines_account:
  "machine_view (snd (mint_invites cn now header codes email note s)) = machine_view s"
  "machine_view (snd (mint_enrollment_code cn ca hash salt wrappers s)) = machine_view s"
  "machine_view (snd (redeem_enrollment_code cn now jti code s)) = machine_view s"
  "machine_view (snd (enroll_device ca dev body1 s)) = machine_view s"
  "machine_view (snd (rename_device ca dev name s)) = machine_view s"
  "machine_view (snd (create_space ca sid body2 s)) = machine_view s"
  "machine_view (snd (patch_space ca sid body3 s)) = machine_view s"
  "machine_view (snd (put_wrapper ca wid sid kind cred salt2 wrapped s)) = machine_view s"
  "machine_view (snd (set_recovery ca wid sid salt2 wrapped s)) = machine_view s"
  "machine_view (snd (remove_wrapper ca sid wid s)) = machine_view s"
  by (auto simp: mint_invites_def mint_enrollment_code_def redeem_enrollment_code_def enroll_device_def claim_home_def
      rename_device_def create_space_def patch_space_def put_wrapper_def set_recovery_def setRecoveryWrapper_def
      upsert_wrapper_def remove_wrapper_def machine_view_def Let_def split_beta split: option.split)

lemma machines_flush: "machine_view (snd (snd (flushRevocationOutbox cn now s))) = machine_view s"
proof -
  have "machine_view (snd (snd (flush_one cn now row t))) = machine_view (snd (snd t))" for row t
    by (auto simp: flush_one_def notify_hub_def machine_view_def Let_def split_beta split: sum.split bool.split)
  then have "machine_view (snd (snd (fold (flush_one cn now) rows t))) = machine_view (snd (snd t))" for rows t
    by (induction rows arbitrary: t) simp_all
  then show ?thesis by (simp add: flushRevocationOutbox_def)
qed

lemma machines_revoke: "machine_view (snd (revoke_device cn ca oid dev reason s)) = machine_view s"
proof -
  have u: "machine_view (s\<lparr>db_devices := x\<rparr>) = machine_view s" "machine_view (s\<lparr>db_revocationOutbox := y\<rparr>) = machine_view s"
    "machine_view (s\<lparr>ct_hubCalls := z\<rparr>) = machine_view s" for s x y z
    by (simp_all add: machine_view_def)
  show ?thesis
    by (auto simp: revoke_device_def spread_revocation_def notify_hub_def machines_flush u Let_def split_beta split: option.split)
qed

lemma machines_agent:
  "machine_view (snd (report_activity ag now body s)) = machine_view s"
  "machine_view (snd (usage_sample ag now sid body2 s)) = machine_view s"
  "machine_view (snd (usage_egress now sid uid start bytes s)) = machine_view s"
  "machine_view (snd (set_job_mode ca ptyId enabled s)) = machine_view s"
  "machine_view (snd (mint_capability cn ca jti caps s)) = machine_view s"
  by (auto simp: report_activity_def usage_sample_def usage_egress_def set_job_mode_def mint_capability_def machine_view_def
      Let_def split_beta split: option.split)

lemma machines_kept:
  assumes "\<not> changes_machines op"
  shows "machine_view (control_step cn s op) = machine_view s"
proof (cases op)
  case (PublicOp now x)
  then show ?thesis using assms by (cases x) (simp_all add: control_step_def kept machines_account)
next
  case (DeviceOp now h x)
  then show ?thesis
    using assms by (cases x)
      (simp_all add: control_step_def kept machines_account machines_revoke machines_agent split: sum.split option.split)
next
  case (AgentOp now h x)
  then show ?thesis by (cases x) (simp_all add: control_step_def kept machines_agent split: sum.split)
next
  case (PutObject uid hash bytes)
  then show ?thesis by (auto simp: control_step_def put_object_def machine_view_def split: option.split)
qed (simp_all add: control_step_def machines_flush machines_agent split: option.split)

text \<open>A move, recorded.\<close>

lemma events_move:
  "events_of (record_move mid from f e s) i = (if me_machineId e = i then events_of s i @ [e] else events_of s i)"
  by (simp add: events_of_def record_move_def)

lemma history_move:
  assumes ok: "history_ok s" and m: "m \<in> set (db_machines s)" "mc_id m = mid" "mc_state m = from"
    and f: "\<And>r. mc_id (f r) = mc_id r" "\<And>r. mc_state (f r) = to" and c: "canTransition from to"
  shows "history_ok (record_move mid from f (move_event eid mid from to rc d now) s)"
proof -
  let ?e = "move_event eid mid from to rc d now" and ?s' = "record_move mid from f (move_event eid mid from to rc d now) s"
  have ids: "map mc_id (db_machines ?s') = map mc_id (db_machines s)"
    by (simp add: record_move_def) (rule update_rows_map, simp add: f)
  then have idset: "mc_id ` set (db_machines ?s') = mc_id ` set (db_machines s)" by (metis set_map)
  have "legal_path Provisioning (events_of ?s' (mc_id r)) (mc_state r)" if r: "r \<in> set (db_machines ?s')" for r
  proof -
    have "r \<in> set (update_rows (\<lambda>m. mc_id m = mid \<and> mc_state m = from) f (db_machines s))"
      using r by (simp add: record_move_def)
    then obtain r0 where r0: "r0 \<in> set (db_machines s)" "r = (if mc_id r0 = mid \<and> mc_state r0 = from then f r0 else r0)"
      unfolding update_rows_mem by blast
    have p: "legal_path Provisioning (events_of s (mc_id r0)) (mc_state r0)" using ok r0(1) by (simp add: history_ok_def)
    show ?thesis
    proof (cases "mc_id r0 = mid")
      case True
      have "inj_on mc_id (set (db_machines s))" using ok by (simp add: history_ok_def distinct_map)
      then have "r0 = m" using r0(1) m True by (metis inj_onD)
      then have "r = f m" "mc_id r0 = mid" using r0(2) m by auto
      then show ?thesis
        using legal_path_snoc[OF p, of ?e] m c f \<open>r0 = m\<close> by (simp add: events_move) (simp add: move_event_def)
    next
      case False
      then show ?thesis using p r0(2) by (simp add: events_move) (simp add: move_event_def)
    qed
  qed
  moreover have "me_machineId e \<in> mc_id ` set (db_machines s)" if "e \<in> set (db_machineEvents ?s')" for e
    using that ok m(1,2) by (auto simp: record_move_def history_ok_def move_event_def)
  ultimately show ?thesis using ok unfolding history_ok_def ids idset by blast
qed

lemma history_view: "machine_view s' = machine_view s \<Longrightarrow> history_ok s' = history_ok s"
  by (simp add: history_ok_def machine_view_def events_of_def)

lemma history_address: "history_ok (set_address mid a s) = history_ok s"
proof -
  have keep: "map (\<lambda>m. (mc_id m, mc_state m)) (db_machines (set_address mid a s)) = map (\<lambda>m. (mc_id m, mc_state m)) (db_machines s)"
    by (simp add: set_address_def) (rule update_rows_map, simp)
  have "history_ok s \<longleftrightarrow>
     distinct (map fst (map (\<lambda>m. (mc_id m, mc_state m)) (db_machines s))) \<and>
     (\<forall>e \<in> set (db_machineEvents s). me_machineId e \<in> fst ` set (map (\<lambda>m. (mc_id m, mc_state m)) (db_machines s))) \<and>
     (\<forall>p \<in> set (map (\<lambda>m. (mc_id m, mc_state m)) (db_machines s)). legal_path Provisioning (events_of s (fst p)) (snd p))" for s
    by (simp add: history_ok_def comp_def image_image)
  moreover have "events_of (set_address mid a s) = events_of s" "db_machineEvents (set_address mid a s) = db_machineEvents s"
    by (simp_all add: set_address_def events_of_def[abs_def])
  ultimately show ?thesis by (simp only: keep)
qed

lemma history_called: "history_ok (called x s) = history_ok s"
  by (rule history_view) (simp add: machine_view_def called_def)

lemma history_drive: "history_ok (snd (drive_provider to uid mid answer s)) = history_ok s"
  by (cases to) (auto simp: Let_def history_called history_address split: sum.split option.split)

lemma history_audit [simp]: "history_ok (audit now u t p a s) = history_ok s"
  by (rule history_view) simp

lemma machine_forD: "machine_for s uid = Some m \<Longrightarrow> m \<in> set (db_machines s) \<and> mc_userId m = uid"
  by (auto simp: machine_for_def dest: row_withD)

lemma moved_simps [simp]: "mc_id (moved to now m) = mc_id m" "mc_state (moved to now m) = to"
  "mc_memoryMb (moved to now m) = mc_memoryMb m" "mc_userId (moved to now m) = mc_userId m"
  by (simp_all add: moved_def)

lemma history_transition: "history_ok s \<Longrightarrow> history_ok (snd (machine_transition ca eid answer body s))"
proof -
  assume ok: "history_ok s"
  have "history_ok (record_move (mc_id m) (mc_state m) (moved to now) (move_event eid (mc_id m) (mc_state m) to rc d now) s)"
    if "machine_for s (ca_userId ca) = Some m" "canTransition (mc_state m) to" for m to now rc d
    by (rule history_move[OF ok, of m]) (use that machine_forD[OF that(1)] in simp_all)
  then show ?thesis
    using ok by (auto simp: machine_transition_def Let_def split_beta history_drive history_called split: option.split)
qed

lemma history_boost: "history_ok s \<Longrightarrow> history_ok (snd (machine_boost ca eid answer mb s))"
proof -
  assume ok: "history_ok s"
  have "history_ok (record_move (mc_id m) (mc_state m) (\<lambda>r. (moved Boosting now r)\<lparr>mc_memoryMb := mb\<rparr>)
      (move_event eid (mc_id m) (mc_state m) Boosting rc d now) s)"
    if "machine_for s (ca_userId ca) = Some m" "canTransition (mc_state m) Boosting" for m now rc d
    by (rule history_move[OF ok, of m]) (use that machine_forD[OF that(1)] in simp_all)
  then show ?thesis
    using ok by (auto simp: machine_boost_def Let_def history_called split: option.split)
qed


lemma history_signup:
  assumes ok: "history_ok s" and fresh: "si_machine ids \<notin> mc_id ` set (db_machines s)"
  shows "history_ok (snd (signup cn now ids answer body s))"
proof -
  have v: "machine_view (snd (claim_invite cn now code email s)) = machine_view s" for code email
    by (auto simp: claim_invite_def machine_view_def split: option.split)
  have r: "machine_view (record_redeemed now claimed uid t) = machine_view t" for claimed uid t
    by (auto simp: record_redeemed_def machine_view_def split: option.split)
  have new: "history_ok (snd (provision_machine (new_machine now (si_machine ids) user) answer t))"
    if "machine_view t = machine_view s" for t user
  proof -
    let ?m = "new_machine now (si_machine ids) user"
    let ?t = "t\<lparr>db_machines := db_machines t @ [?m], ct_sandbox := ct_sandbox t @ [SbProvision (mc_userId ?m) (mc_id ?m)]\<rparr>"
    have t: "db_machines t = db_machines s" "db_machineEvents t = db_machineEvents s" using that by (simp_all add: machine_view_def)
    have m: "mc_id ?m = si_machine ids" "mc_state ?m = Provisioning" by (simp_all add: new_machine_def)
    have "events_of ?t i = events_of s i" for i by (simp add: events_of_def t)
    moreover have "events_of s (si_machine ids) = []"
    proof -
      have "me_machineId e \<noteq> si_machine ids" if "e \<in> set (db_machineEvents s)" for e
        using ok fresh that unfolding history_ok_def by metis
      then show ?thesis by (simp add: events_of_def filter_empty_conv)
    qed
    ultimately have "history_ok ?t" using ok fresh by (auto simp: history_ok_def t m)
    moreover have "history_ok (set_address (mc_id ?m) a ?t)" for a using calculation history_address by simp
    ultimately show ?thesis
      by (auto simp: provision_machine_def Let_def set_address_def split: sum.split option.split)
  qed
  have rest: "history_ok (snd (signup_rest cn now ids answer user t))" if "machine_view t = machine_view s" for user t
  proof -
    have u: "machine_view (t\<lparr>db_spaces := x\<rparr>) = machine_view s" for x using that by (simp add: machine_view_def)
    then have "history_ok (t\<lparr>db_spaces := x\<rparr>)" for x using ok history_view by blast
    then show ?thesis using new[OF u] by (auto simp: signup_rest_def Let_def split_beta split: sum.split)
  qed
  have "machine_view (record_redeemed now claimed uid ((snd (claim_invite cn now code email s))\<lparr>db_users := x\<rparr>)) = machine_view s"
    for claimed uid code email x using v[of code email] by (simp add: r) (simp add: machine_view_def)
  moreover have "history_ok (snd (claim_invite cn now code email s))" for code email using ok history_view[OF v] by blast
  ultimately show ?thesis
    using ok by (auto simp: signup_def Let_def split_beta intro!: rest split: sum.split)
qed

lemma history_step: "history_ok s \<Longrightarrow> history_ok (control_step cn s op)"
proof -
  assume ok: "history_ok s"
  show ?thesis
  proof (cases "changes_machines op")
    case False
    then show ?thesis using ok history_view[OF machines_kept[OF False], of cn s] by blast
  next
    case True
    then show ?thesis
      using ok history_signup history_transition history_boost
      by (cases op rule: changes_machines.cases) (auto simp: control_step_def split: sum.split option.split)
  qed
qed

interpretation history_run: kept_invariant "control_step cn" history_ok for cn
  by unfold_locales (rule history_step)

lemma history_empty: "history_ok empty_control"
  by (simp add: history_ok_def empty_control_def)

section \<open>No suspend under work\<close>

text \<open>What a request can do to the state and the memory of one machine.\<close>

definition machine_core :: "control \<Rightarrow> (string \<times> MachineState \<times> nat) list" where
  "machine_core s = map (\<lambda>m. (mc_id m, mc_state m, mc_memoryMb m)) (db_machines s)"

lemma core_address [simp]: "machine_core (set_address mid a s) = machine_core s"
  by (simp add: machine_core_def set_address_def) (rule update_rows_map, simp)

lemma core_same [simp]:
  "machine_core (called x s) = machine_core s" "machine_core (audit now u t p a s) = machine_core s"
  by (simp_all add: machine_core_def called_def)

lemma core_drive [simp]: "machine_core (snd (drive_provider to uid mid answer s)) = machine_core s"
  by (cases to) (auto simp: Let_def split: sum.split option.split)

lemma core_view: "machine_view s' = machine_view s \<Longrightarrow> machine_core s' = machine_core s"
  by (simp add: machine_core_def machine_view_def)

abbreviation moved_core :: "string \<Rightarrow> MachineState \<Rightarrow> MachineState \<Rightarrow> (nat \<Rightarrow> nat) \<Rightarrow>
    string \<times> MachineState \<times> nat \<Rightarrow> string \<times> MachineState \<times> nat" where
  "moved_core mid src to mem \<equiv> \<lambda>(i, st, mb). if i = mid \<and> st = src then (i, to, mem mb) else (i, st, mb)"

lemma core_move:
  assumes "\<And>r. mc_id (f r) = mc_id r" "\<And>r. mc_state (f r) = to" "\<And>r. mc_memoryMb (f r) = mem (mc_memoryMb r)"
  shows "machine_core (record_move mid src f e s) = map (moved_core mid src to mem) (machine_core s)"
  using assms by (auto simp: machine_core_def record_move_def update_rows_def)

lemma core_transition:
  "machine_core (snd (machine_transition ca eid answer body s)) = machine_core s \<or>
   (\<exists>m. machine_for s (ca_userId ca) = Some m \<and> suspend_guard body (mc_id m) (ca_now ca) s = None \<and>
      machine_core (snd (machine_transition ca eid answer body s)) =
        map (moved_core (mc_id m) (mc_state m) (tn_to body) id) (machine_core s))"
proof (cases "machine_for s (ca_userId ca)")
  case (Some m)
  have "machine_core (record_move (mc_id m) (mc_state m) (moved to now) e s) =
      map (moved_core (mc_id m) (mc_state m) to id) (machine_core s)" for to now e
    by (rule core_move) simp_all
  then show ?thesis using Some by (simp add: machine_transition_def Let_def split_beta split: option.split)
qed (simp add: machine_transition_def)

lemma core_boost:
  "machine_core (snd (machine_boost ca eid answer mb s)) = machine_core s \<or>
   (\<exists>m. machine_for s (ca_userId ca) = Some m \<and>
      machine_core (snd (machine_boost ca eid answer mb s)) =
        map (moved_core (mc_id m) (mc_state m) Boosting (\<lambda>_. mb)) (machine_core s))"
proof (cases "machine_for s (ca_userId ca)")
  case (Some m)
  have "machine_core (record_move (mc_id m) (mc_state m) (\<lambda>r. (moved Boosting now r)\<lparr>mc_memoryMb := mb\<rparr>) e s) =
      map (moved_core (mc_id m) (mc_state m) Boosting (\<lambda>_. mb)) (machine_core s)" for now e
    by (rule core_move) simp_all
  then show ?thesis using Some by (auto simp: machine_boost_def Let_def split: option.split)
qed (simp add: machine_boost_def)

lemma core_signup:
  "machine_core (snd (signup cn now ids answer body s)) = machine_core s \<or>
   machine_core (snd (signup cn now ids answer body s)) = machine_core s @ [(si_machine ids, Provisioning, 2048)]"
proof -
  have c: "machine_core (snd (claim_invite cn now code email s)) = machine_core s" for code email
    by (auto simp: claim_invite_def machine_core_def split: option.split)
  have r: "machine_core (record_redeemed now claimed uid t) = machine_core t" for claimed uid t
    by (auto simp: record_redeemed_def machine_core_def split: option.split)
  have t: "machine_core (t\<lparr>db_users := x\<rparr>) = machine_core t" "machine_core (t\<lparr>db_spaces := y\<rparr>) = machine_core t" for t x y
    by (simp_all add: machine_core_def)
  have p: "machine_core (snd (provision_machine (new_machine now (si_machine ids) user) answer t)) =
      machine_core t @ [(si_machine ids, Provisioning, 2048)]" for user t
  proof -
    let ?m = "new_machine now (si_machine ids) user"
    let ?t = "t\<lparr>db_machines := db_machines t @ [?m], ct_sandbox := ct_sandbox t @ [SbProvision (mc_userId ?m) (mc_id ?m)]\<rparr>"
    have "machine_core ?t = machine_core t @ [(si_machine ids, Provisioning, 2048)]"
      by (simp add: machine_core_def new_machine_def DEFAULT_MACHINE_SPEC_def)
    moreover have "snd (provision_machine ?m answer t) = ?t \<or> (\<exists>a. snd (provision_machine ?m answer t) = set_address (mc_id ?m) a ?t)"
      by (auto simp: provision_machine_def Let_def set_address_def split: sum.split option.split)
    ultimately show ?thesis using core_address by metis
  qed
  show ?thesis
    by (auto simp: signup_def signup_rest_def Let_def split_beta c r t p split: sum.split)
qed

text \<open>A machine that is suspended by a request was idle, or the user forced it.\<close>

lemma core_mem: "(i, st, mb) \<in> set (machine_core s) \<longleftrightarrow> (\<exists>m \<in> set (db_machines s). mc_id m = i \<and> mc_state m = st \<and> mc_memoryMb m = mb)"
  by (auto simp: machine_core_def)

lemma core_distinct: "history_ok s \<Longrightarrow> (i, st, mb) \<in> set (machine_core s) \<Longrightarrow> (i, st', mb') \<in> set (machine_core s) \<Longrightarrow>
   st = st' \<and> mb = mb'"
proof -
  assume h: "history_ok s" and m: "(i, st, mb) \<in> set (machine_core s)" "(i, st', mb') \<in> set (machine_core s)"
  have "inj_on mc_id (set (db_machines s))" using h by (simp add: history_ok_def distinct_map)
  then show ?thesis using m unfolding core_mem by (metis inj_onD)
qed

end
