(* ===== verification/ControlSafety.thy ===== *)
theory ControlSafety
  imports ControlStore ControlHistory
begin

text \<open>
  What the control plane promises over every run of its requests: the references and the quota of Suma
  Files, that a finished upload can be read, the history of a machine, and that work is not suspended.
  A run starts from the empty database; the requests of a run may be any, with any answers of the
  provider, of the session hub and of the object store.
\<close>

section \<open>An account to try things on\<close>

definition example_control :: "unit control_env" where
  "example_control =
     \<lparr>cn_tokens = example_tokens, cn_verifyKey = (), cn_sign = rev, cn_envProvided = False,
      cn_claimsText = (\<lambda>_ _. ''''), cn_capsText = (\<lambda>_. ''''),
      cn_webauthn =
        \<lparr>wn_text = (\<lambda>_. ''''), wn_parse = (\<lambda>_. Inl (JsError ''SyntaxError'')), wn_sha256 = id,
         wn_importP256 = (\<lambda>_. Inr ()), wn_importEd25519 = (\<lambda>_. Inr ()),
         wn_verifyP256 = (\<lambda>_ s d. Inr (s = rev d)), wn_verifyEd25519 = (\<lambda>_ s d. Inr (s = rev d))\<rparr>,
      cn_rp = \<lparr>rp_id = ''suma.test'', rp_origin = ''https://suma.test'', rp_name = ''Suma''\<rparr>,
      cn_sha256Hex = rev, cn_invitesRequired = False, cn_adminToken = None, cn_gatewayToken = None,
      cn_parseUrl = (\<lambda>_. None), cn_isoDate = (\<lambda>_. ''''), cn_hub = (\<lambda>_. Inl (JsError ''hub'')),
      cn_presign = (\<lambda>_ k _ _. k)\<rparr>"

definition example_user :: string where
  "example_user = ''00000000-0000-0000-0000-000000000001''"

definition example_signup :: "ComputeMode \<Rightarrow> control_op" where
  "example_signup mode =
     PublicOp 1000 (SignUp \<lparr>si_user = example_user, si_space = ''s'', si_machine = ''m'', si_jti = ''j''\<rparr> (Inr None)
       \<lparr>su_email = ''a@b'', su_displayName = None, su_homeRegion = None, su_inviteCode = None,
        su_computeMode = Some mode\<rparr>)"

definition example_header :: "string option" where
  "example_header = Some (''Bearer hbr_dev_'' @ example_user)"

abbreviation example_request_of :: "nat \<Rightarrow> device_op \<Rightarrow> control_op" where
  "example_request_of now op \<equiv> DeviceOp now example_header op"

definition example_plan :: Manifest where
  "example_plan = \<lparr>mf_fileHash = ''f'', mf_totalBytes = 9,
     mf_chunks = [\<lparr>cr_hash = ''h'', cr_offset = 0, cr_length = 4\<rparr>, \<lparr>cr_hash = ''h'', cr_offset = 4, cr_length = 4\<rparr>,
                  \<lparr>cr_hash = ''g'', cr_offset = 8, cr_length = 1\<rparr>]\<rparr>"

definition example_manifest :: "string \<Rightarrow> manifest_request" where
  "example_manifest path = \<lparr>mr_path = path, mr_contentType = None, mr_manifest = example_plan\<rparr>"

lemma example_manifest_fields [simp]:
  "mr_path (example_manifest p) = p" "mr_contentType (example_manifest p) = None"
  "mr_manifest (example_manifest p) = example_plan"
  "mf_fileHash example_plan = ''f''" "mf_totalBytes example_plan = 9"
  "validateManifest example_plan = None"
  "distinctChunks example_plan =
     [\<lparr>cr_hash = ''h'', cr_offset = 0, cr_length = 4\<rparr>, \<lparr>cr_hash = ''g'', cr_offset = 8, cr_length = 1\<rparr>]"
  by (simp_all add: example_manifest_def example_plan_def validateManifest_def distinctChunks_def FILE_MAX_CHUNK_BYTES_def
      MAX_MANIFEST_CHUNKS_def)

lemma example_manifest_rows:
  "manifest_rows i example_plan =
     [\<lparr>fc_fileId = i, fc_idx = 0, fc_hash = ''h'', fc_offset = 0, fc_length = 4\<rparr>,
      \<lparr>fc_fileId = i, fc_idx = 1, fc_hash = ''h'', fc_offset = 4, fc_length = 4\<rparr>,
      \<lparr>fc_fileId = i, fc_idx = 2, fc_hash = ''g'', fc_offset = 8, fc_length = 1\<rparr>]"
  by (simp add: manifest_rows_def example_plan_def numeral_2_eq_2)

text \<open>Two files of the same chunks, one of them uploaded and completed.\<close>

definition example_upload :: "control_op list" where
  "example_upload =
     [example_signup LocalMode,
      example_request_of 2000 (CreateManifest ''f1'' (example_manifest ''a'')),
      example_request_of 3000 (CreateManifest ''f2'' (example_manifest ''b'')),
      PutObject example_user ''h'' 4, PutObject example_user ''g'' 1,
      example_request_of 4000 (CompleteUpload ''f1'')]"

lemma example_bearer:
  assumes "user_of s example_user = Some u" "us_id u = example_user"
  shows "bearerAuth example_control s now example_header =
    Inr \<lparr>ca_userId = example_user, ca_deviceId = None, ca_now = now\<rparr>"
proof -
  have t: "bearer_of example_header = Some (''hbr_dev_'' @ example_user)" by code_simp
  have l: "length (js_split (CHR ''.'') (''hbr_dev_'' @ example_user)) \<noteq> 3" by code_simp
  have p: "parseHubToken (Some (''Bearer '' @ ''hbr_dev_'' @ example_user)) = Some (example_user, None)" by code_simp
  have e: "cn_envProvided example_control = False" by (simp add: example_control_def)
  show ?thesis
    using assms by (simp add: bearerAuth_def authenticateToken_def authenticate_stub_def t l p e del: append.simps append_Cons)
qed

lemmas example_run_defs = control_step_def Let_def example_signup_def signup_def signup_rest_def empty_control_def
  new_user_def example_control_def claim_invite_def record_redeemed_def audit_def user_of_def example_user_def

definition signed_up :: control where
  "signed_up = control_step example_control empty_control (example_signup LocalMode)"

lemma signed_up_user:
  "\<exists>u. db_users signed_up = [u] \<and> us_id u = example_user"
  by (simp add: signed_up_def example_run_defs)

lemma signed_up_files [simp]:
  "db_files signed_up = []" "db_chunks signed_up = []" "db_fileChunks signed_up = []" "ct_objects signed_up = []"
  by (simp_all add: signed_up_def example_run_defs)

lemma example_auth:
  assumes "db_users s = db_users signed_up"
  shows "bearerAuth example_control s now example_header = Inr \<lparr>ca_userId = example_user, ca_deviceId = None, ca_now = now\<rparr>"
proof -
  obtain u where "db_users s = [u]" "us_id u = example_user" using assms signed_up_user by auto
  then show ?thesis using example_bearer[of s u now] by (simp add: user_of_def)
qed

lemma example_paths: "normalizeFilePath ''a'' = Inr ''/a''" "normalizeFilePath ''b'' = Inr ''/b''"
  by (code_simp, code_simp)

definition example_caller :: "nat \<Rightarrow> caller" where
  "example_caller now = \<lparr>ca_userId = example_user, ca_deviceId = None, ca_now = now\<rparr>"

lemma example_step:
  assumes "db_users s = db_users signed_up" "fresh_device_op op s"
  shows "control_step example_control s (example_request_of now op) = snd (device_step example_control (example_caller now) op s)"
  using assms by (simp add: control_step_def example_auth example_caller_def)


lemmas example_file_defs = create_manifest_def manifest_tx_def manifest_incoming_def Let_def example_caller_def
  example_paths ownedChunks_def quotaState_def checkQuota_def PRO_QUOTA_BYTES_def file_at_def write_file_def
  example_manifest_rows attachChunks_def claim_chunk_def owned_chunk_def releaseHashes_def update_rows_def deleteOrphanObjects_def

definition example_chunk :: "string \<Rightarrow> nat \<Rightarrow> nat \<Rightarrow> nat option \<Rightarrow> chunk_row" where
  "example_chunk h n refs stored = \<lparr>ch_userId = example_user, ch_hash = h, ch_sizeBytes = n, ch_refCount = refs,
     ch_storedAt = stored, ch_createdAt = 2000\<rparr>"

definition example_file :: "string \<Rightarrow> string \<Rightarrow> nat \<Rightarrow> file_row" where
  "example_file i path now = \<lparr>fl_id = i, fl_userId = example_user, fl_path = path, fl_sizeBytes = 9, fl_fileHash = ''f'',
     fl_contentType = None, fl_completedAt = None, fl_createdAt = now, fl_updatedAt = now\<rparr>"

definition with_files :: "chunk_row list \<Rightarrow> file_row list \<Rightarrow> file_chunk_row list \<Rightarrow>
    (string, nat) js_map \<Rightarrow> control" where
  "with_files cs fs rs os = signed_up\<lparr>db_files := fs, db_fileChunks := rs, db_chunks := cs, ct_objects := os\<rparr>"

definition example_one :: control where
  "example_one = with_files [example_chunk ''h'' 4 1 None, example_chunk ''g'' 1 1 None] [example_file ''f1'' ''/a'' 2000]
     (manifest_rows ''f1'' example_plan) []"

definition example_two :: control where
  "example_two = with_files [example_chunk ''h'' 4 2 None, example_chunk ''g'' 1 2 None]
     [example_file ''f1'' ''/a'' 2000, example_file ''f2'' ''/b'' 3000]
     (manifest_rows ''f1'' example_plan @ manifest_rows ''f2'' example_plan) []"

lemma example_one_step:
  "control_step example_control signed_up (example_request_of 2000 (CreateManifest ''f1'' (example_manifest ''a''))) = example_one"
  by (simp add: example_manifest_rows example_one_def with_files_def example_step example_file_defs example_chunk_def example_file_def)

lemma example_two_step:
  "control_step example_control example_one (example_request_of 3000 (CreateManifest ''f2'' (example_manifest ''b''))) = example_two"
  by (simp add: example_one_def example_two_def with_files_def example_step example_file_defs example_chunk_def example_file_def)

definition example_done :: control where
  "example_done = control_run example_control example_upload"

lemma example_done:
  "db_chunks example_done = [example_chunk ''h'' 4 2 (Some 4000), example_chunk ''g'' 1 2 (Some 4000)] \<and>
   db_files example_done = [(example_file ''f1'' ''/a'' 2000)\<lparr>fl_completedAt := Some 4000, fl_updatedAt := 4000\<rparr>,
     example_file ''f2'' ''/b'' 3000] \<and>
   db_fileChunks example_done = manifest_rows ''f1'' example_plan @ manifest_rows ''f2'' example_plan"
proof -
  have r: "example_done = foldl (control_step example_control) example_two (drop 3 example_upload)"
    by (simp add: example_done_def example_upload_def example_two_step[symmetric] example_one_step[symmetric] signed_up_def)
  show ?thesis
    unfolding r
    by (simp add: example_manifest_rows example_two_def with_files_def example_upload_def example_step example_caller_def example_chunk_def
        example_file_def control_step_def[of _ _ "PutObject _ _ _"] chunk_of_def owned_chunk_def put_object_def
        chunkObjectKey_def complete_upload_def complete_check_def ownedFile_def ownedChunks_def distinctFileHashes_def
        js_distinct_def head_chunk_def Let_def complete_commit_def mark_stored_def update_rows_def)
qed

section \<open>Suma Files over runs\<close>

lemma run_refs: "refs_ok (control_run cn ops)"
  by (rule reference_run.along_run[OF refs_empty])

lemma run_quota: "within_quota (control_run cn ops)"
  using quota_run.along_run[of empty_control cn ops] refs_empty quota_empty by blast

lemma run_store: "store_ok (control_run cn ops)"
  by (rule receipt_run.along_run[OF store_empty])

lemma run_history: "history_ok (control_run cn ops)"
  by (rule history_run.along_run[OF history_empty])

text \<open>
  C10. Over every run of requests the reference count of a chunk is exactly the number of its user's files
  that name it, and at least one; and every chunk a file names has its row.  So an object is deleted only
  when no file needs it, and a chunk that nothing names does not stay.
\<close>

theorem chunk_references_exact:
  assumes "s = control_run cn ops"
  shows "(\<forall>c \<in> set (db_chunks s).
      ch_refCount c = length (filter (\<lambda>f. fl_userId f = ch_userId c \<and> ch_hash c \<in> set (distinctFileHashes s (fl_id f)))
        (db_files s)) \<and> 0 < ch_refCount c) \<and>
    (\<forall>f \<in> set (db_files s). \<forall>h \<in> set (distinctFileHashes s (fl_id f)). chunk_of s (fl_userId f) h \<noteq> None)"
proof -
  have c: "counts (db_chunks s) (claims s)" using run_refs[of cn ops] unfolding assms refs_ok_def by blast
  have k: "claims s u h = length (filter (\<lambda>f. fl_userId f = u \<and> h \<in> names s (fl_id f)) (db_files s))" for u h
    by (simp add: claims_def owners_def filter_map comp_def)
  have "chunk_of s (fl_userId f) h \<noteq> None" if "f \<in> set (db_files s)" "h \<in> names s (fl_id f)" for f h
  proof -
    have "0 < claims s (fl_userId f) h" using that claims_pos[of "fl_id f" "fl_userId f" s h] by (auto simp: owners_def)
    then have "(fl_userId f, h) \<in> chunk_key ` set (db_chunks s)" using c by (auto simp: counts_def)
    then show ?thesis by (auto simp: chunk_of_def owned_chunk_def row_with_None)
  qed
  then show ?thesis using c unfolding counts_def k by blast
qed

lemma chunk_references_exact_witness:
  "ch_refCount (example_chunk ''h'' 4 2 (Some 4000)) =
     length (filter (\<lambda>f. fl_userId f = example_user \<and> ''h'' \<in> set (distinctFileHashes example_done (fl_id f)))
       (db_files example_done))"
proof -
  have c: "example_chunk ''h'' 4 2 (Some 4000) \<in> set (db_chunks example_done)" by (simp add: example_done)
  have k: "ch_userId (example_chunk ''h'' 4 2 (Some 4000)) = example_user" "ch_hash (example_chunk ''h'' 4 2 (Some 4000)) = ''h''"
    by (simp_all add: example_chunk_def)
  show ?thesis
    using chunk_references_exact[OF example_done_def, THEN conjunct1, rule_format, OF c, THEN conjunct1] unfolding k .
qed

text \<open>
  C20. No run of requests stores more for a user than the quota: the declared sizes of the chunks a user's
  files name never sum to more than it.
\<close>

theorem quota_never_exceeded:
  "qs_usedBytes (quotaState (control_run cn ops) uid) \<le> PRO_QUOTA_BYTES"
  using run_quota[of cn ops] by (simp add: within_quota_def quota_usage)



section \<open>Completing an upload while the file is deleted\<close>

lemma commit_fields:
  "db_chunks (snd (complete_commit ca fid h t)) = db_chunks (mark_stored (ca_now ca) (ca_userId ca) (hd_confirmed h) t)"
  "db_fileChunks (snd (complete_commit ca fid h t)) = db_fileChunks t"
  "ct_objects (snd (complete_commit ca fid h t)) = ct_objects t"
  "map (\<lambda>f. (fl_id f, fl_userId f)) (db_files (snd (complete_commit ca fid h t))) = map (\<lambda>f. (fl_id f, fl_userId f)) (db_files t)"
  by (auto simp: complete_commit_def mark_stored_def update_rows_def Let_def split: option.split)

lemma head_stored: "\<forall>r \<in> set rows. ch_storedAt r \<noteq> None \<Longrightarrow> fold (head_chunk uid) rows x = x"
  by (induction rows arbitrary: x) (auto simp: head_chunk_def split_beta)

lemma mark_nothing: "mark_stored now uid [] s = s"
  by (simp add: mark_stored_def update_rows_def)

lemma complete_stored:
  assumes "ownedFile s (ca_userId ca) fid = Some f"
    and "\<forall>c \<in> set (ownedChunks s (ca_userId ca) (distinctFileHashes s fid)). ch_storedAt c \<noteq> None"
  shows "\<exists>e. fst (complete_upload ca fid s) = Replied 200 e"
proof -
  have "filter (\<lambda>c. ch_storedAt c = None) (ownedChunks s (ca_userId ca) (distinctFileHashes s fid)) = []"
    using assms(2) by (simp add: filter_empty_conv)
  then show ?thesis
    using assms(1) head_stored[OF assms(2)]
    by (simp add: complete_upload_def complete_check_def complete_commit_def Let_def split_beta mark_nothing)
qed

text \<open>
  C24. The two steps of completing an upload are not safe against other requests between them: when the
  first has confirmed a chunk, and before the second the chunk has become a new row without an object (its
  file was deleted and the content declared again), the second marks the new row as stored, and the file
  that declared the content is then reported complete though the object does not exist.
\<close>

theorem completion_race_loses_bytes:
  assumes "complete_check ca fid s = (Some h, s1)"
    and "ownedFile t (ca_userId ca) fid2 = Some f" "x \<in> set (distinctFileHashes t fid2)"
    and "set (distinctFileHashes t fid2) \<subseteq> set (hd_confirmed h)"
    and "js_get (ct_objects t) (chunkObjectKey (ca_userId ca) x) = None"
  shows "\<exists>e. fst (complete_upload ca fid2 (snd (complete_commit ca fid h t))) = Replied 200 e \<and>
    js_get (ct_objects (snd (complete_commit ca fid h t))) (chunkObjectKey (ca_userId ca) x) = None"
proof -
  let ?t = "snd (complete_commit ca fid h t)"
  have n: "distinctFileHashes ?t fid2 = distinctFileHashes t fid2" by (simp add: distinctFileHashes_def commit_fields)
  have "(fid2, ca_userId ca) \<in> set (map (\<lambda>f. (fl_id f, fl_userId f)) (db_files t))"
    using row_withD[OF assms(2)[unfolded ownedFile_def]] by force
  then have "(fid2, ca_userId ca) \<in> set (map (\<lambda>f. (fl_id f, fl_userId f)) (db_files ?t))" by (simp only: commit_fields)
  then obtain f' where f': "ownedFile ?t (ca_userId ca) fid2 = Some f'"
    by (cases "ownedFile ?t (ca_userId ca) fid2") (auto simp: ownedFile_def row_with_None)
  have "ch_storedAt c \<noteq> None" if "c \<in> set (ownedChunks ?t (ca_userId ca) (distinctFileHashes ?t fid2))" for c
    using that assms(4) unfolding n ownedChunks_def commit_fields by (auto simp: mark_stored_def update_rows_mem subset_iff)
  then show ?thesis using complete_stored[of ?t ca fid2, OF f'] assms(5) by (auto simp: commit_fields)
qed

text \<open>The file is deleted and its content declared again between the two steps.\<close>

definition example_put :: control where
  "example_put = with_files [example_chunk ''h'' 4 1 None, example_chunk ''g'' 1 1 None] [example_file ''f1'' ''/a'' 2000]
     (manifest_rows ''f1'' example_plan) [(chunkObjectKey example_user ''h'', 4), (chunkObjectKey example_user ''g'', 1)]"

lemma example_put_run:
  "example_put = foldl (control_step example_control) example_one [PutObject example_user ''h'' 4, PutObject example_user ''g'' 1]"
  by (simp add: example_put_def example_one_def with_files_def example_chunk_def control_step_def chunk_of_def owned_chunk_def
      put_object_def chunkObjectKey_def)

definition deleted_audit :: "control \<Rightarrow> control" where
  "deleted_audit = audit 3000 example_user ''files.deleted''
     [(''fileId'', JStr ''f1''), (''path'', JStr ''/a''), (''sizeBytes'', JInt 9)] None"

definition example_again :: control where
  "example_again = deleted_audit (with_files [example_chunk ''h'' 4 1 None, example_chunk ''g'' 1 1 None]
     [example_file ''f3'' ''/b'' 2000] (manifest_rows ''f3'' example_plan) [])"

lemma example_release:
  "releaseHashes example_user [''h'', ''g''] (with_files [example_chunk ''h'' 4 1 None, example_chunk ''g'' 1 1 None] fs rs os) =
     ([''h'', ''g''], with_files [] fs rs os)"
  by (simp add: releaseHashes_def update_rows_def with_files_def example_chunk_def Let_def)

lemma example_orphans:
  "deleteOrphanObjects example_user [''h'', ''g'']
     (with_files [] fs rs [(chunkObjectKey example_user ''h'', 4), (chunkObjectKey example_user ''g'', 1)]) = with_files [] fs rs []"
  by (simp add: deleteOrphanObjects_def ownedChunks_def with_files_def Let_def)

lemma example_detach:
  "detachFileChunks ''f1'' (with_files cs fs (manifest_rows ''f1'' example_plan) os) = ([''h'', ''g''], with_files cs fs [] os)"
  by (simp add: example_manifest_rows detachFileChunks_def distinctFileHashes_def js_distinct_def with_files_def)

lemma example_gone_step:
  "control_step example_control example_put (example_request_of 3000 (DeleteFile ''f1'')) = deleted_audit (with_files [] [] [] [])"
proof -
  have "ownedFile example_put example_user ''f1'' = Some (example_file ''f1'' ''/a'' 2000)"
    by (simp add: ownedFile_def example_put_def with_files_def example_file_def)
  moreover have "example_file ''f1'' ''/a'' 2000 = \<lparr>fl_id = ''f1'', fl_userId = example_user, fl_path = ''/a'', fl_sizeBytes = 9,
      fl_fileHash = ''f'', fl_contentType = None, fl_completedAt = None, fl_createdAt = 2000, fl_updatedAt = 2000\<rparr>"
    by (simp add: example_file_def)
  moreover have "(with_files cs fs rs os)\<lparr>db_files := filter (\<lambda>f. fl_id f \<noteq> ''f1'') (db_files (with_files cs fs rs os))\<rparr> =
      with_files cs (filter (\<lambda>f. fl_id f \<noteq> ''f1'') fs) rs os" for cs fs rs os by (simp add: with_files_def)
  moreover have "db_users example_put = db_users signed_up" by (simp add: example_put_def with_files_def)
  ultimately show ?thesis
    by (simp add: deleted_audit_def example_step delete_file_def example_caller_def Let_def)
      (simp add: example_put_def example_detach example_release[unfolded One_nat_def] example_orphans[unfolded One_nat_def])
qed

lemma deleted_audit_fields [simp]:
  "db_users (deleted_audit s) = db_users s" "db_files (deleted_audit s) = db_files s" "db_chunks (deleted_audit s) = db_chunks s"
  "db_fileChunks (deleted_audit s) = db_fileChunks s" "ct_objects (deleted_audit s) = ct_objects s"
  by (simp_all add: deleted_audit_def)

lemma example_again_step:
  "control_step example_control (deleted_audit (with_files [] [] [] []))
     (example_request_of 2000 (CreateManifest ''f3'' (example_manifest ''b''))) = example_again"
  by (simp add: example_again_def with_files_def example_step example_file_defs example_chunk_def example_file_def)
    (simp add: deleted_audit_def audit_def)

definition example_heads :: heads where
  "example_heads = \<lparr>hd_confirmed = [''h'', ''g''], hd_missing = [], hd_rejected = []\<rparr>"

lemma example_check: "complete_check (example_caller 2500) ''f1'' example_put = (Some example_heads, example_put)"
  by (simp add: example_manifest_rows example_put_def with_files_def example_chunk_def example_file_def example_caller_def
      complete_check_def ownedFile_def ownedChunks_def distinctFileHashes_def js_distinct_def head_chunk_def Let_def
      chunkObjectKey_def example_heads_def)

lemma completion_race_loses_bytes_witness:
  "\<exists>e. fst (complete_upload (example_caller 2500) ''f3'' (snd (complete_commit (example_caller 2500) ''f1'' example_heads example_again)))
        = Replied 200 e \<and>
    js_get (ct_objects (snd (complete_commit (example_caller 2500) ''f1'' example_heads example_again)))
      (chunkObjectKey (ca_userId (example_caller 2500)) ''g'') = None"
  by (rule completion_race_loses_bytes[OF example_check, of example_again "''f3''" "example_file ''f3'' ''/b'' 2000"])
    (simp_all add: example_manifest_rows example_again_def with_files_def ownedFile_def example_file_def example_caller_def distinctFileHashes_def example_heads_def)

end
