(* ===== verification/ControlMoves.thy ===== *)
theory ControlMoves
  imports ControlSafety
begin

text \<open>
  The machine of an account over every run of requests: its history, the rule that work is not suspended,
  and what becomes of a boost.
\<close>

section \<open>Histories\<close>

text \<open>
  C21. Over every run of requests the recorded events of a machine are a chain of legal transitions from
  its provisioning to the state it is in: no transition is lost, repeated or made from another state.
\<close>

theorem machine_history_legal:
  assumes "s = control_run cn ops" "m \<in> set (db_machines s)"
  shows "legal_path Provisioning (events_of s (mc_id m)) (mc_state m)"
  using run_history[of cn ops] assms by (simp add: history_ok_def)

section \<open>Suspending\<close>

lemma bearer_now: "bearerAuth cn s now h = Inr ca \<Longrightarrow> ca_now ca = now"
  by (auto simp: bearerAuth_def split: sum.splits option.splits)

lemma moved_core_changes:
  assumes "(i, st', mb') \<in> set (map (moved_core mid src to mem) xs)" "(i, st', mb') \<notin> set xs"
  shows "i = mid \<and> st' = to \<and> (\<exists>mb. (i, src, mb) \<in> set xs \<and> mb' = mem mb)"
  using assms by (auto split: if_splits)

lemma guard_passed:
  assumes "suspend_guard body mid now s = None" "tn_to body = Suspending"
  shows "tn_force body \<or> lifecycle_suspends (lifecycleVerdict (activity_of s mid) now)"
  using assms by (auto simp: suspend_guard_def Let_def split: if_splits)

text \<open>A request that brings a machine into another state, or gives it other memory.\<close>

lemma core_change:
  assumes "(i, st, mb) \<in> set (machine_core (control_step cn s op))" "(i, st, mb) \<notin> set (machine_core s)"
  shows "(\<exists>now ids answer body. op = PublicOp now (SignUp ids answer body) \<and> i = si_machine ids \<and> st = Provisioning) \<or>
    (\<exists>now h ca eid answer body m. op = DeviceOp now h (Transition eid answer body) \<and> bearerAuth cn s now h = Inr ca \<and>
       machine_for s (ca_userId ca) = Some m \<and> i = mc_id m \<and> st = tn_to body \<and>
       suspend_guard body i now s = None \<and> (i, mc_state m, mb) \<in> set (machine_core s)) \<or>
    (\<exists>now h eid answer. op = DeviceOp now h (Boost eid answer mb) \<and> st = Boosting)"
proof (cases "changes_machines op")
  case False
  then show ?thesis using assms core_view[OF machines_kept[OF False], of cn s] by simp
next
  case True
  have changed: "machine_core (control_step cn s op) \<noteq> machine_core s" using assms by metis
  show ?thesis
    using True
  proof (cases op rule: changes_machines.cases)
    case (1 now ids answer body)
    then show ?thesis
      using assms core_signup[of cn now ids answer body s] by (auto simp: control_step_def split: if_splits)
  next
    case (2 now h eid answer body)
    then obtain ca where ca: "bearerAuth cn s now h = Inr ca"
      using assms by (auto simp: control_step_def split: sum.splits option.splits)
    have c: "machine_core (control_step cn s op) = machine_core (snd (machine_transition ca eid answer body s))"
      using 2 ca by (simp add: control_step_def)
    then obtain m where m: "machine_for s (ca_userId ca) = Some m" "suspend_guard body (mc_id m) (ca_now ca) s = None"
      "machine_core (control_step cn s op) = map (moved_core (mc_id m) (mc_state m) (tn_to body) id) (machine_core s)"
      using core_transition[of ca eid answer body s] changed unfolding c[symmetric] by blast
    have "i = mc_id m \<and> st = tn_to body \<and> (i, mc_state m, mb) \<in> set (machine_core s)"
      using moved_core_changes[OF assms(1)[unfolded m(3)] assms(2)] by auto
    then show ?thesis using 2(1) ca m(1,2) bearer_now[OF ca] by blast
  next
    case (3 now h eid answer memoryMb)
    then obtain ca where ca: "bearerAuth cn s now h = Inr ca"
      using assms by (auto simp: control_step_def split: sum.splits option.splits)
    have c: "machine_core (control_step cn s op) = machine_core (snd (machine_boost ca eid answer memoryMb s))"
      using 3 ca by (simp add: control_step_def)
    then obtain m :: machine_row where m:
      "machine_core (control_step cn s op) = map (moved_core (mc_id m) (mc_state m) Boosting (\<lambda>_. memoryMb)) (machine_core s)"
      using core_boost[of ca eid answer memoryMb s] changed unfolding c by blast
    have "mb = memoryMb" "st = Boosting" using moved_core_changes[OF assms(1)[unfolded m] assms(2)] by auto
    then show ?thesis using 3(1) by blast
  qed simp_all
qed

text \<open>
  C14. No machine is suspended under work: when a request brings a machine of a run to suspending, it is
  the transition to suspending, and either the user forced it, or the last report of the machine's
  agent, at most two minutes old, shows no attached client, no transfer, no job and only shells and
  processes allowed to be suspended, and the machine has been idle for the grace period.
\<close>

theorem no_suspend_under_work:
  assumes "s = control_run cn ops" "m \<in> set (db_machines s)" "mc_state m \<noteq> Suspending"
    and "m' \<in> set (db_machines (control_step cn s op))" "mc_id m' = mc_id m" "mc_state m' = Suspending"
  shows "\<exists>now h eid answer body. op = DeviceOp now h (Transition eid answer body) \<and> tn_to body = Suspending \<and>
    (tn_force body \<or>
     (\<exists>a. activity_of s (mc_id m) = Some a \<and> nothing_runs (ma_clientsAttached a) (ma_processes a) (ma_activeTransfers a) \<and>
        now \<le> ma_lastReportAt a + ACTIVITY_SNAPSHOT_STALE_AFTER_MS \<and>
        DEFAULT_IDLE_SUSPEND_MS \<le> now - ma_lastInteractionAt a))"
proof -
  have old: "(mc_id m, mc_state m, mc_memoryMb m) \<in> set (machine_core s)" using assms(2) by (auto simp: core_mem)
  have new: "(mc_id m, Suspending, mc_memoryMb m') \<in> set (machine_core (control_step cn s op))"
    using assms(4-6) by (auto simp: core_mem)
  have "(mc_id m, Suspending, mc_memoryMb m') \<notin> set (machine_core s)"
    using core_distinct[OF run_history[of cn ops, folded assms(1)] old] assms(3) by blast
  from core_change[OF new this] show ?thesis
    using guard_passed[of _ "mc_id m" _ s] lifecycleVerdict_suspends by (metis MachineState.distinct)
qed

section \<open>Boosts\<close>

text \<open>The sizes the schema of a boost admits.\<close>

fun boost_admitted :: "control_op \<Rightarrow> bool" where
  "boost_admitted (DeviceOp _ _ (Boost _ _ mb)) \<longleftrightarrow> mb = 4096 \<or> mb = 8192"
| "boost_admitted _ \<longleftrightarrow> True"

lemma core_stays:
  assumes "(i, st, mb) \<in> set (machine_core s)"
  shows "\<exists>st' mb'. (i, st', mb') \<in> set (machine_core (control_step cn s op)) \<and>
    (mb' = mb \<or> (\<exists>now h eid answer. op = DeviceOp now h (Boost eid answer mb')))"
proof (cases "machine_core (control_step cn s op) = machine_core s \<or> (\<exists>x. machine_core (control_step cn s op) = machine_core s @ [x])")
  case True
  then have "(i, st, mb) \<in> set (machine_core (control_step cn s op))" using assms by auto
  then show ?thesis by blast
next
  case False
  then have "changes_machines op" using core_view[OF machines_kept, of op cn s] by blast
  then show ?thesis
  proof (cases op rule: changes_machines.cases)
    case (1 now ids answer body)
    then show ?thesis
      using False core_signup[of cn now ids answer body s] by (auto simp: control_step_def split: if_splits)
  next
    case (2 now h eid answer body)
    then obtain ca where ca: "bearerAuth cn s now h = Inr ca"
      using False by (auto simp: control_step_def split: sum.splits option.splits)
    have "machine_core (control_step cn s op) = machine_core (snd (machine_transition ca eid answer body s))"
      using 2 ca by (simp add: control_step_def)
    then obtain m :: machine_row where
      "machine_core (control_step cn s op) = map (moved_core (mc_id m) (mc_state m) (tn_to body) id) (machine_core s)"
      using core_transition[of ca eid answer body s] False by auto
    then have "moved_core (mc_id m) (mc_state m) (tn_to body) id (i, st, mb) \<in> set (machine_core (control_step cn s op))"
      using assms by (simp only: set_map imageI)
    then show ?thesis by (auto split: if_splits)
  next
    case (3 now h eid answer memoryMb)
    then obtain ca where ca: "bearerAuth cn s now h = Inr ca"
      using False by (auto simp: control_step_def split: sum.splits option.splits)
    have c: "machine_core (control_step cn s op) = machine_core (snd (machine_boost ca eid answer memoryMb s))"
      using 3 ca by (simp add: control_step_def)
    then obtain m :: machine_row where
      "machine_core (control_step cn s op) = map (moved_core (mc_id m) (mc_state m) Boosting (\<lambda>_. memoryMb)) (machine_core s)"
      using core_boost[of ca eid answer memoryMb s] False unfolding c by blast
    then have "moved_core (mc_id m) (mc_state m) Boosting (\<lambda>_. memoryMb) (i, st, mb) \<in> set (machine_core (control_step cn s op))"
      using assms by (simp only: set_map imageI)
    then show ?thesis using 3(1) by (auto split: if_splits)
  qed simp_all
qed

text \<open>
  C28. A boost is never undone: a machine with more memory than the size up to which a suspend is possible
  keeps more than it over whatever requests follow, the steps boosted, shrinking and running included.
\<close>

theorem boost_is_never_undone:
  assumes "s = control_run cn ops" "m \<in> set (db_machines s)" "SUSPEND_MEMORY_CEILING_MB < mc_memoryMb m"
    and "list_all boost_admitted later"
  shows "\<exists>m' \<in> set (db_machines (foldl (control_step cn) s later)).
    mc_id m' = mc_id m \<and> SUSPEND_MEMORY_CEILING_MB < mc_memoryMb m'"
proof -
  have "\<exists>st' mb'. (i, st', mb') \<in> set (machine_core (foldl (control_step cn) s later)) \<and> SUSPEND_MEMORY_CEILING_MB < mb'"
    if "(i, st, mb) \<in> set (machine_core s)" "SUSPEND_MEMORY_CEILING_MB < mb" for i st mb
    using that assms(4) unfolding assms(1)[symmetric]
  proof (induction later arbitrary: s st mb)
    case (Cons op later)
    obtain st' mb' where n: "(i, st', mb') \<in> set (machine_core (control_step cn s op))"
      "mb' = mb \<or> (\<exists>now h eid answer. op = DeviceOp now h (Boost eid answer mb'))"
      using core_stays[OF Cons.prems(1), of cn op] by blast
    then have "SUSPEND_MEMORY_CEILING_MB < mb'"
      using Cons.prems(2,3) by (auto simp: SUSPEND_MEMORY_CEILING_MB_def)
    then show ?case using Cons.IH[OF n(1)] Cons.prems(3) by simp
  qed auto
  moreover have "(mc_id m, mc_state m, mc_memoryMb m) \<in> set (machine_core s)" using assms(2) by (auto simp: core_mem)
  ultimately show ?thesis using assms(3) by (fastforce simp: core_mem)
qed

section \<open>Witnesses\<close>

definition cloud_up :: control where
  "cloud_up = control_step example_control empty_control (example_signup CloudMode)"

lemma cloud_up:
  "(\<exists>u. db_users cloud_up = [u] \<and> us_id u = example_user) \<and> db_machineEvents cloud_up = [] \<and>
   db_machines cloud_up = [\<lparr>mc_id = ''m'', mc_userId = example_user, mc_state = Provisioning, mc_region = ''iad'',
     mc_cpuKind = ''shared'', mc_cpus = 2, mc_memoryMb = 2048, mc_agentAddress = None, mc_updatedAt = 1000,
     mc_lastTransitionAt = 1000\<rparr>]"
  by (simp add: cloud_up_def example_run_defs provision_machine_def new_machine_def DEFAULT_MACHINE_SPEC_def)

lemma cloud_auth:
  assumes "db_users s = db_users cloud_up"
  shows "bearerAuth example_control s now example_header = Inr \<lparr>ca_userId = example_user, ca_deviceId = None, ca_now = now\<rparr>"
proof -
  obtain u where "db_users s = [u]" "us_id u = example_user" using assms cloud_up by auto
  then show ?thesis using example_bearer[of s u now] by (simp add: user_of_def)
qed

lemma cloud_step:
  assumes "db_users s = db_users cloud_up" "fresh_device_op op s"
  shows "control_step example_control s (example_request_of now op) = snd (device_step example_control (example_caller now) op s)"
  using assms by (simp add: control_step_def cloud_auth example_caller_def)

definition move_to :: "MachineState \<Rightarrow> bool \<Rightarrow> transition_body" where
  "move_to to force = \<lparr>tn_to = to, tn_reconstructed = False, tn_detail = None, tn_force = force\<rparr>"

definition cloud_ops :: "control_op list" where
  "cloud_ops = [example_signup CloudMode, example_request_of 2000 (Transition ''e1'' (Inr None) (move_to Running False))]"

definition cloud_running :: control where
  "cloud_running = control_run example_control cloud_ops"

lemma cloud_running:
  "db_users cloud_running = db_users cloud_up \<and>
   map (\<lambda>m. (mc_id m, mc_userId m, mc_state m, mc_memoryMb m)) (db_machines cloud_running) = [(''m'', example_user, Running, 2048)] \<and>
   map (\<lambda>e. (me_machineId e, me_fromState e, me_toState e)) (db_machineEvents cloud_running) = [(''m'', Provisioning, Running)]"
  by (simp add: cloud_running_def cloud_ops_def cloud_up_def[symmetric] cloud_step machine_transition_def machine_for_def
      cloud_up example_caller_def move_to_def canTransition_def suspend_guard_def record_move_def moved_def update_rows_def
      move_event_def Let_def)

lemma machine_history_legal_witness:
  "legal_path Provisioning (events_of cloud_running ''m'') Running \<and> length (events_of cloud_running ''m'') = 1"
proof -
  obtain m where m: "db_machines cloud_running = [m]" "mc_id m = ''m''" "mc_state m = Running"
    using cloud_running by (auto simp: map_eq_Cons_conv)
  have "legal_path Provisioning (events_of cloud_running (mc_id m)) (mc_state m)"
    by (rule machine_history_legal[OF cloud_running_def]) (simp add: m)
  moreover have "length (events_of cloud_running ''m'') = 1"
    using cloud_running by (auto simp: events_of_def map_eq_Cons_conv)
  ultimately show ?thesis by (simp add: m)
qed

lemma cloud_machine:
  "\<exists>m. db_machines cloud_running = [m] \<and> mc_id m = ''m'' \<and> mc_userId m = example_user \<and> mc_state m = Running \<and> mc_memoryMb m = 2048"
  using cloud_running by (auto simp: map_eq_Cons_conv)

text \<open>The machine is suspended by force, and boosted.\<close>

definition forced_suspend :: control_op where
  "forced_suspend = example_request_of 3000 (Transition ''e2'' (Inr None) (move_to Suspending True))"

definition boosting :: control_op where
  "boosting = example_request_of 3000 (Boost ''e2'' (Inr None) 4096)"

lemma cloud_suspended:
  "\<exists>m'. db_machines (control_step example_control cloud_running forced_suspend) = [m'] \<and> mc_id m' = ''m'' \<and> mc_state m' = Suspending"
proof -
  obtain m where "db_machines cloud_running = [m]" "mc_id m = ''m''" "mc_userId m = example_user" "mc_state m = Running"
    using cloud_machine by blast
  then show ?thesis
    using cloud_running by (simp add: forced_suspend_def cloud_step machine_transition_def machine_for_def example_caller_def
        move_to_def canTransition_def suspend_guard_def record_move_def update_rows_def Let_def called_def)
qed

lemma cloud_boosted:
  "\<exists>m'. db_machines (control_step example_control cloud_running boosting) = [m'] \<and> mc_id m' = ''m'' \<and> mc_memoryMb m' = 4096"
proof -
  obtain m where "db_machines cloud_running = [m]" "mc_id m = ''m''" "mc_userId m = example_user" "mc_state m = Running"
    using cloud_machine by blast
  moreover have "checkBoost (boosts_today cloud_running ''m'' 3000) = None"
    using cloud_running by (auto simp: boosts_today_def events_of_def checkBoost_def maxBoostsPerDay_def map_eq_Cons_conv)
  ultimately show ?thesis
    using cloud_running by (simp add: boosting_def cloud_step machine_boost_def machine_for_def example_caller_def
        canTransition_def record_move_def update_rows_def Let_def called_def)
qed

lemma no_suspend_under_work_witness:
  "\<exists>now h eid answer body. forced_suspend = DeviceOp now h (Transition eid answer body) \<and> tn_to body = Suspending \<and>
    (tn_force body \<or>
     (\<exists>a. activity_of cloud_running ''m'' = Some a \<and>
        nothing_runs (ma_clientsAttached a) (ma_processes a) (ma_activeTransfers a) \<and>
        now \<le> ma_lastReportAt a + ACTIVITY_SNAPSHOT_STALE_AFTER_MS \<and>
        DEFAULT_IDLE_SUSPEND_MS \<le> now - ma_lastInteractionAt a))"
proof -
  obtain m where m: "db_machines cloud_running = [m]" "mc_id m = ''m''" "mc_state m = Running" using cloud_machine by blast
  obtain m' where m': "db_machines (control_step example_control cloud_running forced_suspend) = [m']" "mc_id m' = ''m''"
    "mc_state m' = Suspending" using cloud_suspended by blast
  show ?thesis
    using no_suspend_under_work[OF cloud_running_def, of m m' forced_suspend] m m' by simp
qed

lemma boost_is_never_undone_witness:
  "\<exists>m' \<in> set (db_machines (foldl (control_step example_control) (control_step example_control cloud_running boosting)
      [example_request_of 4000 (Transition ''e3'' (Inr None) (move_to Boosted False)),
       example_request_of 5000 (Transition ''e4'' (Inr None) (move_to Shrinking False)),
       example_request_of 6000 (Transition ''e5'' (Inr None) (move_to Running False))])).
    mc_id m' = ''m'' \<and> SUSPEND_MEMORY_CEILING_MB < mc_memoryMb m'"
proof -
  obtain m where m: "db_machines (control_step example_control cloud_running boosting) = [m]" "mc_id m = ''m''" "mc_memoryMb m = 4096"
    using cloud_boosted by blast
  have r: "control_step example_control cloud_running boosting = control_run example_control (cloud_ops @ [boosting])"
    by (simp add: cloud_running_def)
  have m': "m \<in> set (db_machines (control_step example_control cloud_running boosting))" "SUSPEND_MEMORY_CEILING_MB < mc_memoryMb m"
    using m by (simp_all add: SUSPEND_MEMORY_CEILING_MB_def)
  show ?thesis
    unfolding m(2)[symmetric] by (rule boost_is_never_undone[OF r m']) simp
qed

end
