(* ===== verification/ControlFetches.thy ===== *)
theory ControlFetches
  imports ControlMoves
begin

text \<open>
  Cloud fetches over every run of requests: which addresses are kept, what is left of them afterwards, the
  counters, and how many are under way.
\<close>

section \<open>The requests that change transfers\<close>

fun changes_transfers :: "control_op \<Rightarrow> bool" where
  "changes_transfers (DeviceOp _ _ (CreateTransfer _ _)) = True"
| "changes_transfers (DeviceOp _ _ (DeviceProgress _)) = True"
| "changes_transfers (DeviceOp _ _ (CancelTransfer _)) = True"
| "changes_transfers (AgentOp _ _ (AgentProgress _)) = True"
| "changes_transfers _ = False"

lemma transfers_tables [simp]:
  "db_transfers (attachChunks now uid fid m s) = db_transfers s" "db_transfers (deleteOrphanObjects uid hs s) = db_transfers s"
  "db_transfers (mark_stored now uid hs s) = db_transfers s" "db_transfers (put_object uid h n s) = db_transfers s"
  "db_transfers (quota_blocked ca path a b s) = db_transfers s"
  "db_transfers (snd (detachFileChunks fid s)) = db_transfers s" "db_transfers (snd (releaseHashes uid hs s)) = db_transfers s"
  "db_transfers (snd (write_file now uid fid path body s)) = db_transfers s"
  by (auto simp: attachChunks_def deleteOrphanObjects_def mark_stored_def put_object_def quota_blocked_def
      detachFileChunks_def releaseHashes_def write_file_def Let_def split: option.split)

lemma transfers_tx [simp]: "db_transfers (snd (manifest_tx now uid fid path body s)) = db_transfers s"
  by (auto simp: manifest_tx_def Let_def split_beta split: option.split)

lemma transfers_head: "db_transfers (snd (fold (head_chunk uid) rows t)) = db_transfers (snd t)"
proof (induction rows arbitrary: t)
  case (Cons r rows)
  have "db_transfers (snd (head_chunk uid r t)) = db_transfers (snd t)"
    by (auto simp: head_chunk_def Let_def split_beta split: option.split)
  then show ?case using Cons.IH by simp
qed simp

lemma files_keep_transfers:
  "db_transfers (snd (create_manifest ca fid body s)) = db_transfers s"
  "db_transfers (snd (complete_upload ca fid s)) = db_transfers s"
  "db_transfers (snd (delete_file ca fid s)) = db_transfers s"
  by (auto simp: create_manifest_def complete_upload_def complete_check_def complete_commit_def delete_file_def
      transfers_head Let_def split_beta split: option.split sum.split file_outcome.split)

lemma transfers_kept:
  assumes "\<not> changes_transfers op"
  shows "db_transfers (control_step cn s op) = db_transfers s"
proof (cases op)
  case (PublicOp now x)
  then show ?thesis by (cases x) (simp_all add: control_step_def kept)
next
  case (DeviceOp now h x)
  then show ?thesis
    using assms by (cases x) (simp_all add: control_step_def kept files_keep_transfers split: sum.split option.split)
next
  case (AgentOp now h x)
  then show ?thesis using assms by (cases x) (simp_all add: control_step_def kept split: sum.split)
qed (simp_all add: control_step_def kept split: option.split)

section \<open>One transfer\<close>

text \<open>The address of a transfer: one the cloud may fetch while the transfer moves, and the rest of one afterwards.\<close>

definition fetchable :: "'k control_env \<Rightarrow> string \<Rightarrow> bool" where
  "fetchable cn url \<longleftrightarrow>
     (\<exists>total. cloudFetchEligibility (cn_parseUrl cn) \<lparr>dl_url = url, dl_totalBytes = total, dl_hasCookies = False,
        dl_hasAuthHeader = False, dl_usesClientCert = False, dl_alwaysLocal = False\<rparr> \<in> {EligiblePublic, EligiblePresigned})"

definition transfer_ok :: "'k control_env \<Rightarrow> transfer_row \<Rightarrow> bool" where
  "transfer_ok cn t \<longleftrightarrow>
     (if isTerminalTransfer (tr_state t)
      then \<exists>url. fetchable cn url \<and> tr_url t = redactTransferUrl (cn_parseUrl cn) url
      else fetchable cn (tr_url t)) \<and>
     (0 < tr_totalBytes t \<longrightarrow> tr_receivedBytes t \<le> tr_totalBytes t)"

definition transfers_ok :: "'k control_env \<Rightarrow> control \<Rightarrow> bool" where
  "transfers_ok cn s \<longleftrightarrow> distinct (map tr_id (db_transfers s)) \<and> (\<forall>t \<in> set (db_transfers s). transfer_ok cn t) \<and>
     (\<forall>uid. active_transfers s uid \<le> maxActiveTransfers)"

lemma progressed_ok:
  assumes "transfer_ok cn t" "progress_refusal t body = None"
  shows "transfer_ok cn (progressed cn now body t)"
  using assms by (auto simp: transfer_ok_def progress_refusal_def progressed_def Let_def split: if_splits option.splits)

lemma active_iff: "st \<in> set ACTIVE_TRANSFER_STATES \<longleftrightarrow> \<not> isTerminalTransfer st"
  by (cases st) (simp_all add: ACTIVE_TRANSFER_STATES_def TRANSFER_STATES_def isTerminalTransfer_def TERMINAL_TRANSFER_STATES_def)

lemma filter_update_le:
  assumes "\<And>r. r \<in> set rows \<Longrightarrow> P r \<Longrightarrow> Q (f r) \<Longrightarrow> Q r"
  shows "length (filter Q (update_rows P f rows)) \<le> length (filter Q rows)"
  using assms by (induction rows) (auto simp: update_rows_def le_SucI)

text \<open>A transfer that was moving is brought into another state.\<close>

lemma transfers_update:
  assumes ok: "transfers_ok cn s" and t: "t \<in> set (db_transfers s)" "\<not> isTerminalTransfer (tr_state t)"
    and f: "\<And>r. tr_id (f r) = tr_id r" "\<And>r. tr_userId (f r) = tr_userId r" "transfer_ok cn (f t)"
    and s': "db_transfers s' = update_rows (\<lambda>r. tr_id r = tr_id t \<and> tr_state r = tr_state t) f (db_transfers s)"
  shows "transfers_ok cn s'"
proof -
  have ids: "map tr_id (db_transfers s') = map tr_id (db_transfers s)"
    unfolding s' by (rule update_rows_map) (simp add: f)
  have inj: "inj_on tr_id (set (db_transfers s))" using ok by (simp add: transfers_ok_def distinct_map)
  have "transfer_ok cn r" if r: "r \<in> set (db_transfers s')" for r
  proof -
    obtain r0 where r0: "r0 \<in> set (db_transfers s)" "r = (if tr_id r0 = tr_id t \<and> tr_state r0 = tr_state t then f r0 else r0)"
      using r unfolding s' update_rows_mem by blast
    then have "tr_id r0 = tr_id t \<Longrightarrow> r0 = t" using inj t(1) by (metis inj_onD)
    then show ?thesis using r0 ok f(3) by (cases "tr_id r0 = tr_id t") (auto simp: transfers_ok_def)
  qed
  moreover have "active_transfers s' uid \<le> maxActiveTransfers" for uid
  proof -
    have "active_transfers s' uid \<le> active_transfers s uid"
      unfolding active_transfers_def s' by (rule filter_update_le) (use t(2) in \<open>auto simp: active_iff f\<close>)
    then show ?thesis using ok by (auto simp: transfers_ok_def intro: le_trans)
  qed
  ultimately show ?thesis using ok ids by (simp add: transfers_ok_def)
qed

lemma transfers_same: "db_transfers s' = db_transfers s \<Longrightarrow> transfers_ok cn s' = transfers_ok cn s"
  by (simp add: transfers_ok_def active_transfers_def)

lemma transfer_ofD: "transfer_of s uid tid = Some t \<Longrightarrow> t \<in> set (db_transfers s) \<and> tr_id t = tid \<and> tr_userId t = uid"
  by (auto simp: transfer_of_def dest: row_withD)

lemma transfers_progress:
  assumes "transfers_ok cn s"
  shows "transfers_ok cn (snd (updateTransferProgress cn now uid body s))"
proof (cases "transfer_of s uid (pr_transferId body)")
  case (Some t)
  note t = transfer_ofD[OF Some]
  show ?thesis
  proof (cases "progress_refusal t body")
    case None
    have "transfer_ok cn (progressed cn now body t)" using None assms t by (auto simp: transfers_ok_def intro: progressed_ok)
    moreover have "\<not> isTerminalTransfer (tr_state t)" using None by (auto simp: progress_refusal_def Let_def)
    ultimately show ?thesis
      using Some None t by (intro transfers_update[OF assms, of t "progressed cn now body"])
        (simp_all add: updateTransferProgress_def progressed_def)
  qed (use Some assms in \<open>auto simp: updateTransferProgress_def\<close>)
qed (use assms in \<open>simp add: updateTransferProgress_def\<close>)

lemma transfers_cancel:
  assumes "transfers_ok cn s"
  shows "transfers_ok cn (snd (cancel_transfer cn ca tid s))"
proof (cases "transfer_of s (ca_userId ca) tid")
  case (Some t)
  note t = transfer_ofD[OF Some]
  show ?thesis
  proof (cases "isTerminalTransfer (tr_state t)")
    case False
    let ?f = "\<lambda>r. r\<lparr>tr_state := TCancelled, tr_url := redactTransferUrl (cn_parseUrl cn) (tr_url t), tr_updatedAt := ca_now ca\<rparr>"
    have c: "isTerminalTransfer TCancelled" by (simp add: isTerminalTransfer_def TERMINAL_TRANSFER_STATES_def)
    moreover have "transfer_ok cn t" using assms t by (simp add: transfers_ok_def)
    ultimately have "transfer_ok cn (?f t)" using False by (auto simp: transfer_ok_def)
    then show ?thesis
      using Some False t by (intro transfers_update[OF assms, of t ?f]) (simp_all add: cancel_transfer_def Let_def)
  qed (use Some assms in \<open>simp add: cancel_transfer_def Let_def\<close>)
qed (use assms in \<open>simp add: cancel_transfer_def\<close>)

lemma transfers_new:
  assumes ok: "transfers_ok cn s" and fresh: "tid \<notin> tr_id ` set (db_transfers s)"
  shows "transfers_ok cn (snd (create_transfer cn ca tid body s))"
proof -
  let ?t = "new_transfer ca tid path body"
  have "transfers_ok cn (snd (admit_transfer cn ca tid path e body s))"
    if e: "cloudFetchEligibility (cn_parseUrl cn) (fetch_context body) \<in> {EligiblePublic, EligiblePresigned}" for path e
  proof (cases "checkActiveTransfers (active_transfers s (ca_userId ca))")
    case None
    let ?t = "new_transfer ca tid path body" and ?s = "s\<lparr>db_transfers := db_transfers s @ [new_transfer ca tid path body]\<rparr>"
    have "fetchable cn (tq_url body)" using e unfolding fetchable_def fetch_context_def by blast
    then have "transfer_ok cn ?t"
      by (simp add: transfer_ok_def new_transfer_def isTerminalTransfer_def TERMINAL_TRANSFER_STATES_def)
    moreover have "active_transfers ?s uid \<le> maxActiveTransfers" for uid
      using ok None by (auto simp: active_transfers_def transfers_ok_def checkActiveTransfers_def new_transfer_def
          maxActiveTransfers_def split: if_splits)
    ultimately have "transfers_ok cn ?s" using ok fresh by (auto simp: transfers_ok_def new_transfer_def)
    then show ?thesis
      using ok None by (auto simp: admit_transfer_def Let_def transfers_same[of "quota_blocked _ _ _ _ s" s]
          transfers_same[of "audit _ _ _ _ _ ?s" ?s])
  qed (use ok in \<open>auto simp: admit_transfer_def Let_def transfers_same[of "quota_blocked _ _ _ _ s" s]
      transfers_same[of "audit _ _ _ _ _ s" s]\<close>)
  then show ?thesis
    using ok by (auto simp: create_transfer_def split: sum.split CloudFetchVerdict.split)
qed

lemma transfers_step: "transfers_ok cn s \<Longrightarrow> transfers_ok cn (control_step cn s op)"
proof -
  assume ok: "transfers_ok cn s"
  show ?thesis
  proof (cases "changes_transfers op")
    case False
    then show ?thesis using ok transfers_same[OF transfers_kept[OF False]] by blast
  next
    case True
    then show ?thesis
      using ok transfers_progress transfers_cancel transfers_new
      by (cases op rule: changes_transfers.cases)
        (auto simp: control_step_def device_progress_def agent_progress_def split: sum.split option.split)
  qed
qed

interpretation transfer_run: kept_invariant "control_step cn" "transfers_ok cn" for cn
  by unfold_locales (rule transfers_step)

lemma transfers_empty: "transfers_ok cn empty_control"
  by (simp add: transfers_ok_def empty_control_def active_transfers_def)

section \<open>Over runs\<close>


definition fetching :: "unit control_env" where
  "fetching = example_control\<lparr>cn_parseUrl := (\<lambda>_. Some example_fetch_url)\<rparr>"

definition fetch_request :: transfer_request where
  "fetch_request = \<lparr>tq_url = ''https://files.example.com/x'', tq_destPath = ''a'', tq_totalBytes = None\<rparr>"

lemma fetch_request_fields: "tq_destPath fetch_request = ''a''" "tq_totalBytes fetch_request = None"
  by (simp_all add: fetch_request_def)

definition fetch_ops :: "control_op list" where
  "fetch_ops = [example_signup LocalMode, example_request_of 2000 (CreateTransfer ''t'' fetch_request)]"

lemma fetch_up:
  "\<exists>u. db_users (control_step fetching empty_control (example_signup LocalMode)) = [u] \<and> us_id u = example_user \<and>
     ''cloud-fetch'' \<in> set (us_features u)"
  "db_transfers (control_step fetching empty_control (example_signup LocalMode)) = []"
  "db_chunks (control_step fetching empty_control (example_signup LocalMode)) = []"
  by (simp_all add: fetching_def example_run_defs DEFAULT_ACCOUNT_FEATURES_def)

lemma fetch_auth:
  assumes "user_of s example_user = Some u" "us_id u = example_user"
  shows "bearerAuth fetching s now example_header = Inr (example_caller now)"
proof -
  have "bearerAuth fetching s now example_header = bearerAuth example_control s now example_header"
    by (auto simp: bearerAuth_def authenticateToken_def authenticate_jws_def authenticate_stub_def fetching_def
        split: option.split)
  then show ?thesis using example_bearer[OF assms] by (simp add: example_caller_def)
qed

lemma fetch_run:
  "db_transfers (control_run fetching fetch_ops) = [new_transfer (example_caller 2000) ''t'' ''/a'' fetch_request]"
proof -
  obtain u where u: "db_users (control_step fetching empty_control (example_signup LocalMode)) = [u]" "us_id u = example_user"
    "''cloud-fetch'' \<in> set (us_features u)" using fetch_up(1) by blast
  have e: "cloudFetchEligibility (\<lambda>_. Some example_fetch_url) (fetch_context fetch_request) = EligiblePresigned" by code_simp
  then have e': "cloudFetchEligibility (cn_parseUrl fetching) (fetch_context fetch_request) = EligiblePresigned" by (simp add: fetching_def)
  show ?thesis
    using u fetch_up(2,3)
    by (simp add: fetch_ops_def control_step_def[of _ _ "DeviceOp _ _ _"] fetch_auth user_of_def create_transfer_def
        fetch_request_fields example_paths account_features_def e'
        example_caller_def admit_transfer_def Let_def checkQuota_def quotaState_def PRO_QUOTA_BYTES_def CLOUD_FETCH_MIN_BYTES_def
        checkActiveTransfers_def active_transfers_def maxActiveTransfers_def)
qed


end
