(* ===== verification/ControlRevocation.thy ===== *)
theory ControlRevocation
  imports ControlMoves
begin

text \<open>
  Revocation over every run of requests: a revoked device stays out of the control plane, and the news
  of its revocation is never lost on the way to the session hub.
\<close>

section \<open>The requests that change devices and the outbox\<close>

fun changes_devices :: "control_op \<Rightarrow> bool" where
  "changes_devices (DeviceOp _ _ (Enroll _ _)) = True"
| "changes_devices (DeviceOp _ _ (RenameDevice _ _)) = True"
| "changes_devices (DeviceOp _ _ (RevokeDevice _ _ _)) = True"
| "changes_devices (OutboxDrain _) = True"
| "changes_devices _ = False"

lemma outbox_signup: "outbox_view (snd (signup cn now ids answer body s)) = outbox_view s"
proof -
  have u: "outbox_view (s\<lparr>db_users := x1\<rparr>) = outbox_view s" "outbox_view (s\<lparr>db_invites := x2\<rparr>) = outbox_view s"
    "outbox_view (s\<lparr>db_spaces := x3\<rparr>) = outbox_view s" "outbox_view (s\<lparr>db_machines := x4\<rparr>) = outbox_view s"
    "outbox_view (s\<lparr>ct_sandbox := x5\<rparr>) = outbox_view s" for s x1 x2 x3 x4 x5 by (simp_all add: outbox_view_def)
  have c: "outbox_view (snd (claim_invite cn now code email s)) = outbox_view s" for code email s
    by (auto simp: claim_invite_def u split: option.split)
  have r: "outbox_view (record_redeemed now claimed uid s) = outbox_view s" for claimed uid s
    by (auto simp: record_redeemed_def u split: option.split)
  have p: "outbox_view (snd (provision_machine m answer s)) = outbox_view s" for m s
    by (auto simp: provision_machine_def outbox_view_def Let_def split: sum.split option.split)
  show ?thesis by (auto simp: signup_def signup_rest_def Let_def split_beta u c r p split: sum.split)
qed

lemma outbox_account:
  "outbox_view (snd (mint_invites cn now header codes email note s)) = outbox_view s"
  "outbox_view (snd (mint_enrollment_code cn ca hash salt wrappers s)) = outbox_view s"
  "outbox_view (snd (redeem_enrollment_code cn now jti code s)) = outbox_view s"
  "outbox_view (snd (create_space ca sid body2 s)) = outbox_view s"
  "outbox_view (snd (patch_space ca sid body3 s)) = outbox_view s"
  "outbox_view (snd (put_wrapper ca wid sid kind cred salt2 wrapped s)) = outbox_view s"
  "outbox_view (snd (set_recovery ca wid sid salt2 wrapped s)) = outbox_view s"
  "outbox_view (snd (remove_wrapper ca sid wid s)) = outbox_view s"
  by (auto simp: mint_invites_def mint_enrollment_code_def redeem_enrollment_code_def create_space_def patch_space_def
      put_wrapper_def set_recovery_def setRecoveryWrapper_def upsert_wrapper_def remove_wrapper_def outbox_view_def
      Let_def split_beta split: option.split)

lemma outbox_kept:
  assumes "\<not> changes_devices op"
  shows "outbox_view (control_step cn s op) = outbox_view s"
proof (cases op)
  case (PublicOp now x)
  then show ?thesis by (cases x) (simp_all add: control_step_def kept outbox_account outbox_signup)
next
  case (DeviceOp now h x)
  then show ?thesis
    using assms by (cases x) (simp_all add: control_step_def kept outbox_account split: sum.split option.split)
next
  case (AgentOp now h x)
  then show ?thesis by (cases x) (simp_all add: control_step_def kept split: sum.split)
next
  case (PutObject uid hash bytes)
  then show ?thesis by (auto simp: control_step_def put_object_def outbox_view_def split: option.split)
qed (use assms in \<open>simp_all add: control_step_def kept split: option.split\<close>)

section \<open>A revocation is final\<close>

text \<open>The devices of a user that have been revoked: none is lost, none comes back.\<close>

definition revoked_ids :: "control \<Rightarrow> (string \<times> string) set" where
  "revoked_ids s = {(dv_userId d, dv_id d) | d. d \<in> set (db_devices s) \<and> dv_revokedAt d \<noteq> None}"

definition devices_ok :: "control \<Rightarrow> bool" where
  "devices_ok s \<longleftrightarrow> distinct (map dv_id (db_devices s)) \<and> distinct (map ob_id (db_revocationOutbox s))"

lemma devices_flush [simp]: "db_devices (snd (snd (flushRevocationOutbox cn now s))) = db_devices s"
proof -
  have "db_devices (snd (snd (flush_one cn now row t))) = db_devices (snd (snd t))" for row t
    by (auto simp: flush_one_def notify_hub_def Let_def split_beta split: sum.split bool.split)
  then have "db_devices (snd (snd (fold (flush_one cn now) rows t))) = db_devices (snd (snd t))" for rows t
    by (induction rows arbitrary: t) simp_all
  then show ?thesis by (simp add: flushRevocationOutbox_def)
qed

lemma outbox_ids_flush [simp]:
  "map ob_id (db_revocationOutbox (snd (snd (flushRevocationOutbox cn now s)))) = map ob_id (db_revocationOutbox s)"
proof -
  have "map ob_id (db_revocationOutbox (snd (snd (flush_one cn now row t)))) = map ob_id (db_revocationOutbox (snd (snd t)))" for row t
    by (auto simp: flush_one_def notify_hub_def Let_def split_beta update_rows_def split: sum.split bool.split)
  then have "map ob_id (db_revocationOutbox (snd (snd (fold (flush_one cn now) rows t)))) =
      map ob_id (db_revocationOutbox (snd (snd t)))" for rows t
    by (induction rows arbitrary: t) simp_all
  then show ?thesis by (simp add: flushRevocationOutbox_def)
qed

lemma devices_enroll:
  "db_devices (snd (enroll_device ca dev body s)) = db_devices s \<or>
   db_devices (snd (enroll_device ca dev body s)) = db_devices s @ [new_device (ca_now ca) dev (ca_userId ca) body]"
  "db_revocationOutbox (snd (enroll_device ca dev body s)) = db_revocationOutbox s"
  "ct_hubCalls (snd (enroll_device ca dev body s)) = ct_hubCalls s"
  by (auto simp: enroll_device_def claim_home_def Let_def split_beta split: option.split)

lemma devices_rename:
  "\<exists>f. (\<forall>d. dv_id (f d) = dv_id d \<and> dv_userId (f d) = dv_userId d \<and> dv_revokedAt (f d) = dv_revokedAt d) \<and>
     db_devices (snd (rename_device ca dev name s)) = map f (db_devices s)"
  "db_revocationOutbox (snd (rename_device ca dev name s)) = db_revocationOutbox s"
  "ct_hubCalls (snd (rename_device ca dev name s)) = ct_hubCalls s"
proof -
  let ?g = "\<lambda>d. if dv_id d = dev \<and> dv_userId d = ca_userId ca \<and> dv_revokedAt d = None then d\<lparr>dv_name := name\<rparr> else d"
  have "db_devices (snd (rename_device ca dev name s)) = map ?g (db_devices s) \<or>
      db_devices (snd (rename_device ca dev name s)) = map id (db_devices s)"
    by (simp add: rename_device_def update_rows_def split: option.split)
  then show "\<exists>f. (\<forall>d. dv_id (f d) = dv_id d \<and> dv_userId (f d) = dv_userId d \<and> dv_revokedAt (f d) = dv_revokedAt d) \<and>
     db_devices (snd (rename_device ca dev name s)) = map f (db_devices s)"
    by (elim disjE) (intro exI[of _ ?g], simp, intro exI[of _ id], simp)
qed (auto simp: rename_device_def split: option.split)

text \<open>What a revocation comes to: nothing, or the mark on the device and the news of it.\<close>

lemma revoke_cases:
  obtains (nothing) "snd (revoke_device cn ca oid dev reason s) = s"
  | (done') d where "d \<in> set (db_devices s)" "dv_id d = dev" "dv_userId d = ca_userId ca" "dv_revokedAt d = None"
      "snd (revoke_device cn ca oid dev reason s) = snd (spread_revocation cn (ca_now ca) oid (ca_userId ca) dev
         (audit (ca_now ca) (ca_userId ca) ''device.revoked''
            [(''deviceId'', JStr dev), (''reason'', (case reason of None \<Rightarrow> JNull | Some r \<Rightarrow> JStr r))] None
            (s\<lparr>db_devices := update_rows (\<lambda>d. dv_id d = dev)
                 (\<lambda>d. d\<lparr>dv_revokedAt := Some (ca_now ca), dv_revocationReason := reason\<rparr>) (db_devices s)\<rparr>)))"
proof (cases "row_with (\<lambda>d. dv_id d = dev \<and> dv_userId d = ca_userId ca) (db_devices s)")
  case None
  show ?thesis by (rule nothing) (simp add: revoke_device_def None)
next
  case (Some d)
  note d = row_withD[OF Some]
  show ?thesis
  proof (cases "dv_revokedAt d")
    case None
    show ?thesis by (rule done'[of d]) (use d None Some in \<open>simp_all add: revoke_device_def Let_def split_beta\<close>)
  next
    case (Some t)
    show ?thesis by (rule nothing) (simp add: revoke_device_def Some \<open>row_with _ _ = _\<close>)
  qed
qed

lemma spread_devices [simp]: "db_devices (snd (spread_revocation cn now oid uid dev s)) = db_devices s"
  by (simp add: spread_revocation_def notify_hub_def Let_def split_beta)


lemma devices_step:
  assumes "devices_ok s"
  shows "devices_ok (control_step cn s op) \<and> revoked_ids s \<subseteq> revoked_ids (control_step cn s op)"
proof (cases "changes_devices op")
  case False
  then show ?thesis using outbox_kept[OF False, of cn s] assms by (auto simp: devices_ok_def revoked_ids_def outbox_view_def)
next
  case True
  have sub: "revoked_ids s \<subseteq> revoked_ids s'" if "db_devices s' = map f (db_devices s)"
    "\<And>d. dv_id (f d) = dv_id d \<and> dv_userId (f d) = dv_userId d \<and> (dv_revokedAt d \<noteq> None \<longrightarrow> dv_revokedAt (f d) \<noteq> None)"
    for s' f
  proof
    fix p assume "p \<in> revoked_ids s"
    then obtain d where "d \<in> set (db_devices s)" "dv_revokedAt d \<noteq> None" "p = (dv_userId d, dv_id d)"
      by (auto simp: revoked_ids_def)
    then have "f d \<in> set (db_devices s')" "dv_revokedAt (f d) \<noteq> None" "p = (dv_userId (f d), dv_id (f d))" using that by auto
    then show "p \<in> revoked_ids s'" unfolding revoked_ids_def by blast
  qed
  have same: "devices_ok s \<and> revoked_ids s \<subseteq> revoked_ids s" using assms by simp
  have enroll: "devices_ok (snd (enroll_device ca dev body s)) \<and> revoked_ids s \<subseteq> revoked_ids (snd (enroll_device ca dev body s))"
    if "dev \<notin> dv_id ` set (db_devices s)" for ca dev body
    using devices_enroll(1)[of ca dev body s] devices_enroll(2)[of ca dev body s] that assms
    by (auto simp: devices_ok_def revoked_ids_def new_device_def)
  have rename: "devices_ok (snd (rename_device ca dev name s)) \<and> revoked_ids s \<subseteq> revoked_ids (snd (rename_device ca dev name s))"
    for ca dev name
  proof -
    obtain f where f: "\<forall>d. dv_id (f d) = dv_id d \<and> dv_userId (f d) = dv_userId d \<and> dv_revokedAt (f d) = dv_revokedAt d"
      "db_devices (snd (rename_device ca dev name s)) = map f (db_devices s)"
      using devices_rename(1)[of ca dev name s] by blast
    have "map dv_id (map f (db_devices s)) = map dv_id (db_devices s)" using f(1) by simp
    then show ?thesis using sub[OF f(2)] f devices_rename(2)[of ca dev name s] assms by (simp add: devices_ok_def comp_def)
  qed
  have revoke: "devices_ok (snd (revoke_device cn ca oid dev reason s)) \<and>
      revoked_ids s \<subseteq> revoked_ids (snd (revoke_device cn ca oid dev reason s))"
    if fresh: "oid \<notin> ob_id ` set (db_revocationOutbox s)" for ca oid dev reason
  proof (cases rule: revoke_cases[of cn ca oid dev reason s])
    case nothing
    then show ?thesis using assms by simp
  next
    case (done' d)
    let ?g = "\<lambda>d. if dv_id d = dev then d\<lparr>dv_revokedAt := Some (ca_now ca), dv_revocationReason := reason\<rparr> else d"
    let ?s' = "snd (revoke_device cn ca oid dev reason s)"
    have d: "db_devices ?s' = map ?g (db_devices s)" unfolding done'(5) by (simp add: update_rows_def)
    have ids: "map dv_id (db_devices ?s') = map dv_id (db_devices s)" unfolding d by simp
    moreover have "set (map ob_id (db_revocationOutbox ?s')) \<subseteq> insert oid (ob_id ` set (db_revocationOutbox s)) \<and>
        distinct (map ob_id (db_revocationOutbox ?s'))"
      using fresh assms unfolding done'(5) by (auto simp: spread_revocation_def notify_hub_def Let_def split_beta devices_ok_def)
    ultimately show ?thesis using sub[OF d] assms unfolding devices_ok_def ids by simp
  qed
  show ?thesis
    using True
  proof (cases op rule: changes_devices.cases)
    case (1 now h dev body)
    then show ?thesis using enroll same by (auto simp: control_step_def split: sum.split option.split)
  next
    case (2 now h dev name)
    then show ?thesis using rename same by (auto simp: control_step_def split: sum.split option.split)
  next
    case (3 now h oid dev reason)
    then show ?thesis using revoke same by (auto simp: control_step_def split: sum.split option.split)
  next
    case (4 now)
    have "map ob_id (db_revocationOutbox (control_step cn s op)) = map ob_id (db_revocationOutbox s)"
      "db_devices (control_step cn s op) = db_devices s" using 4 by (simp_all add: control_step_def)
    then show ?thesis using assms by (simp add: devices_ok_def revoked_ids_def)
  qed simp_all
qed

interpretation device_run: kept_invariant "control_step cn" "\<lambda>s. devices_ok s \<and> R \<subseteq> revoked_ids s" for cn R
  by unfold_locales (use devices_step in blast)

lemma devices_empty: "devices_ok empty_control"
  by (simp add: devices_ok_def empty_control_def)

text \<open>What a revoked device meets.\<close>

lemma revoked_row:
  assumes "devices_ok t" "(u, dev) \<in> revoked_ids t"
  shows "\<exists>d. device_of t dev = Some d \<and> dv_revokedAt d \<noteq> None" "activeDevice t v dev = None" "\<not> active_device t v dev"
proof -
  have inj: "inj_on dv_id (set (db_devices t))" using assms(1) by (simp add: devices_ok_def distinct_map)
  obtain d where d: "d \<in> set (db_devices t)" "dv_id d = dev" "dv_revokedAt d \<noteq> None" using assms(2) by (auto simp: revoked_ids_def)
  have only: "d' = d" if "d' \<in> set (db_devices t)" "dv_id d' = dev" for d' using inj d that by (metis inj_onD)
  show f: "\<exists>d. device_of t dev = Some d \<and> dv_revokedAt d \<noteq> None"
  proof (cases "device_of t dev")
    case None
    then show ?thesis using d by (auto simp: device_of_def row_with_None)
  next
    case (Some d')
    then have "d' = d" using only row_withD[OF Some[unfolded device_of_def]] by blast
    then show ?thesis using Some d by simp
  qed
  show "activeDevice t v dev = None"
    unfolding activeDevice_def row_with_None
  proof (intro ballI notI)
    fix x assume x: "x \<in> set (db_devices t)" "dv_id x = dev \<and> dv_userId x = v \<and> dv_revokedAt x = None"
    then have "x = d" using only by blast
    then show False using x d(3) by simp
  qed
  show "\<not> active_device t v dev" using f by (auto simp: active_device_def)
qed

lemma bearer_device:
  assumes "bearerAuth cn t now h = Inr ca" "ca_deviceId ca = Some dev"
  shows "active_device t (ca_userId ca) dev"
  using assms by (auto simp: bearerAuth_def authenticateToken_def authenticate_jws_def authenticate_stub_def
      split: sum.splits option.splits if_splits)

lemma challenge_devices [simp]: "db_devices (snd (take_challenge key now s)) = db_devices s"
  by (simp add: take_challenge_def split: prod.split)

lemma proof_refused:
  assumes "\<exists>d. device_of t dev = Some d \<and> dv_revokedAt d \<noteq> None"
  shows "fst (verifyDeviceProof cn now dev sig t) \<noteq> ProofOk x"
proof -
  have "device_of (snd (take_challenge key now t)) dev = device_of t dev" for key by (simp add: device_of_def)
  then show ?thesis using assms by (auto simp: verifyDeviceProof_def Let_def split_beta split: option.split)
qed

text \<open>
  C11. A revocation is final: from the revocation of a device on, over whatever requests follow, no bearer
  token authenticates a request as the device, and neither the proof of its key nor a passkey nor a token
  it still has gets it a new token.
\<close>

theorem revocation_is_final:
  assumes "s = control_run cn ops" "d \<in> set (db_devices s)" "dv_revokedAt d \<noteq> None"
    and "t = foldl (control_step cn) s later"
  shows "(\<forall>now h ca. bearerAuth cn t now h = Inr ca \<longrightarrow> ca_deviceId ca \<noteq> Some (dv_id d)) \<and>
    (\<forall>now jti sig. \<not> succeeds (fst (device_login cn now jti (dv_id d) sig t))) \<and>
    (\<forall>now jti key sig. \<not> succeeds (fst (device_credential cn now jti (dv_id d) key sig t))) \<and>
    (\<forall>now jti uid cred. \<not> succeeds (fst (webauthn_login_finish cn now jti uid (dv_id d) cred t))) \<and>
    (\<forall>now jti sig. \<not> succeeds (fst (token_refresh cn now jti None (Some (dv_id d, sig)) t))) \<and>
    (\<forall>now jti bearer claims. verifyDeviceToken (cn_tokens cn) (cn_verifyKey cn) bearer (now div 1000) 30 = Inr (Inr claims) \<longrightarrow>
       dc_did claims = dv_id d \<longrightarrow> dc_sub claims \<noteq> dv_id d \<longrightarrow> \<not> succeeds (refresh_bearer cn now jti bearer t))"
proof -
  have "devices_ok s" using device_run.along_run[of empty_control "{}" cn ops] devices_empty assms(1) by simp
  moreover have r: "(dv_userId d, dv_id d) \<in> revoked_ids s" using assms(2,3) by (auto simp: revoked_ids_def)
  ultimately have t: "devices_ok t" "(dv_userId d, dv_id d) \<in> revoked_ids t"
    using device_run.along_run[of s "revoked_ids s" cn later] assms(4) by auto
  note out = revoked_row[OF t]
  have "succeeds (fst (device_login cn now jti (dv_id d) sig t)) \<Longrightarrow> False"
    "succeeds (fst (device_credential cn now jti (dv_id d) key sig t)) \<Longrightarrow> False"
    "succeeds (fst (refresh_proof cn now jti (Some (dv_id d, sig)) t)) \<Longrightarrow> False" for now jti key sig
    using proof_refused[OF out(1)]
    by (auto simp: device_login_def device_credential_def refresh_proof_def unauthorized_def split_beta
        split: proof_result.splits if_splits)
  moreover have "\<not> succeeds (fst (webauthn_login_finish cn now jti uid (dv_id d) cred t))" for now jti uid cred
  proof -
    have "activeDevice (snd (take_challenge key now t)) uid (dv_id d) = None" for key
      using out(2)[of uid] by (simp add: activeDevice_def)
    then show ?thesis by (auto simp: webauthn_login_finish_def unauthorized_def Let_def split_beta split: option.split sum.split)
  qed
  moreover have "\<not> succeeds (refresh_bearer cn now jti bearer t)"
    if "verifyDeviceToken (cn_tokens cn) (cn_verifyKey cn) bearer (now div 1000) 30 = Inr (Inr claims)"
      "dc_did claims = dv_id d" "dc_sub claims \<noteq> dv_id d" for now jti bearer claims
    using that out(2)[of "dc_sub claims"] by (simp add: refresh_bearer_def unauthorized_def)
  moreover have "ca_deviceId ca \<noteq> Some (dv_id d)" if "bearerAuth cn t now h = Inr ca" for now h ca
    using bearer_device[OF that] out(3) by blast
  moreover have "token_refresh cn now jti None body t = refresh_proof cn now jti body t" for now jti body
    by (simp add: token_refresh_def bearer_of_def)
  ultimately show ?thesis by metis
qed

section \<open>The news of a revocation\<close>

text \<open>The hub has acknowledged the revocation, or the outbox still holds it.\<close>

definition acked :: "'k control_env \<Rightarrow> control \<Rightarrow> string \<times> string \<Rightarrow> bool" where
  "acked cn s p \<longleftrightarrow> (\<exists>n < length (ct_hubCalls s). ct_hubCalls s ! n = p \<and> cn_hub cn n = Inr True)"

definition queued :: "control \<Rightarrow> string \<times> string \<Rightarrow> bool" where
  "queued s p \<longleftrightarrow> (\<exists>r \<in> set (db_revocationOutbox s). (ob_userId r, ob_deviceId r) = p \<and> ob_deliveredAt r = None)"

abbreviation told :: "'k control_env \<Rightarrow> control \<Rightarrow> string \<times> string \<Rightarrow> bool" where
  "told cn s p \<equiv> acked cn s p \<or> queued s p"

abbreviation addressed :: "control \<Rightarrow> (string \<times> string \<times> string) list" where
  "addressed s \<equiv> map (\<lambda>r. (ob_id r, ob_userId r, ob_deviceId r)) (db_revocationOutbox s)"

lemma acked_more: "acked cn s p \<Longrightarrow> ct_hubCalls s' = ct_hubCalls s @ xs \<Longrightarrow> acked cn s' p"
  by (force simp: acked_def nth_append)

lemma acked_now: "ct_hubCalls s' = ct_hubCalls s @ [p] \<Longrightarrow> cn_hub cn (length (ct_hubCalls s)) = Inr True \<Longrightarrow> acked cn s' p"
  by (auto simp: acked_def nth_append intro!: exI[of _ "length (ct_hubCalls s)"])

lemma flush_one_calls: "\<exists>xs. ct_hubCalls (snd (snd (flush_one cn now row t))) = ct_hubCalls (snd (snd t)) @ xs"
  by (auto simp: flush_one_def notify_hub_def Let_def split_beta split: sum.split bool.split)

lemma flush_one_addressed: "addressed (snd (snd (flush_one cn now row t))) = addressed (snd (snd t))"
  by (auto simp: flush_one_def notify_hub_def Let_def split_beta update_rows_def split: sum.split bool.split)

lemma update_queued:
  assumes "queued s p" "db_revocationOutbox s' = update_rows P f (db_revocationOutbox s)"
    and "\<And>r. ob_userId (f r) = ob_userId r \<and> ob_deviceId (f r) = ob_deviceId r"
    and "\<And>r. r \<in> set (db_revocationOutbox s) \<Longrightarrow> P r \<Longrightarrow> ob_deliveredAt (f r) \<noteq> ob_deliveredAt r \<Longrightarrow> (ob_userId r, ob_deviceId r) \<noteq> p"
  shows "queued s' p"
proof -
  obtain r where r: "r \<in> set (db_revocationOutbox s)" "(ob_userId r, ob_deviceId r) = p" "ob_deliveredAt r = None"
    using assms(1) by (auto simp: queued_def)
  have "(if P r then f r else r) \<in> set (db_revocationOutbox s')" unfolding assms(2) update_rows_mem using r(1) by blast
  moreover have "ob_deliveredAt (if P r then f r else r) = None" using assms(4)[OF r(1)] r(2,3) by metis
  ultimately show ?thesis unfolding queued_def using assms(3) r(2) by (metis (full_types))
qed

lemma flush_one_told:
  assumes t: "told cn (snd (snd t)) p" and d: "distinct (map fst (addressed (snd (snd t))))"
    and row: "(ob_id row, ob_userId row, ob_deviceId row) \<in> set (addressed (snd (snd t)))"
  shows "told cn (snd (snd (flush_one cn now row t))) p"
proof -
  obtain a b s where s: "t = (a, b, s)" by (cases t)
  let ?s' = "snd (snd (flush_one cn now row t))"
  have more: "acked cn s p \<Longrightarrow> told cn ?s' p" using acked_more[of cn s p ?s'] flush_one_calls[of cn now row t] s by auto
  show ?thesis
  proof (cases "acked cn s p \<or> ob_attempts row \<ge> MAX_OUTBOX_ATTEMPTS")
    case True
    then show ?thesis using more t s by (auto simp: flush_one_def)
  next
    case False
    then have q: "queued s p" and few: "\<not> ob_attempts row \<ge> MAX_OUTBOX_ATTEMPTS" using t s by auto
    let ?s1 = "s\<lparr>ct_hubCalls := ct_hubCalls s @ [(ob_userId row, ob_deviceId row)]\<rparr>"
    have own: "(ob_userId r, ob_deviceId r) = (ob_userId row, ob_deviceId row)"
      if "r \<in> set (db_revocationOutbox s)" "ob_id r = ob_id row" for r
    proof -
      have "(\<lambda>r. (ob_id r, ob_userId r, ob_deviceId r)) r \<in> set (addressed s)" unfolding set_map using that(1) by (rule imageI)
      then have "(ob_id row, ob_userId r, ob_deviceId r) \<in> set (addressed (snd (snd t)))" using that(2) s by simp
      then show ?thesis using eq_key_imp_eq_value[OF d _ row] by simp
    qed
    consider "cn_hub cn (length (ct_hubCalls s)) = Inr True" | "cn_hub cn (length (ct_hubCalls s)) = Inr False"
      | e where "cn_hub cn (length (ct_hubCalls s)) = Inl e" by (cases "cn_hub cn (length (ct_hubCalls s))") auto
    then show ?thesis
    proof cases
      case 1
      then have s': "db_revocationOutbox ?s' = update_rows (\<lambda>r. ob_id r = ob_id row) (\<lambda>r. r\<lparr>ob_deliveredAt := Some now\<rparr>) (db_revocationOutbox s)"
        "ct_hubCalls ?s' = ct_hubCalls s @ [(ob_userId row, ob_deviceId row)]"
        using few s by (simp_all add: flush_one_def notify_hub_def Let_def)
      show ?thesis
      proof (cases "p = (ob_userId row, ob_deviceId row)")
        case True
        then show ?thesis using acked_now[of ?s' s p cn] s'(2) 1 by simp
      next
        case False
        then have "queued ?s' p" by (intro update_queued[OF q s'(1)]) (use own in auto)
        then show ?thesis by simp
      qed
    next
      case 2
      then have "db_revocationOutbox ?s' = db_revocationOutbox s" using few s by (simp add: flush_one_def notify_hub_def Let_def)
      then show ?thesis using q by (simp add: queued_def)
    next
      case 3
      then have s': "db_revocationOutbox ?s' = update_rows (\<lambda>r. ob_id r = ob_id row) (\<lambda>r. r\<lparr>ob_attempts := ob_attempts row + 1\<rparr>) (db_revocationOutbox s)"
        using few s by (simp add: flush_one_def notify_hub_def Let_def)
      have "queued ?s' p" by (rule update_queued[OF q s']) simp_all
      then show ?thesis by simp
    qed
  qed
qed

lemma flush_told:
  assumes "told cn s p" "distinct (map ob_id (db_revocationOutbox s))"
  shows "told cn (snd (snd (flushRevocationOutbox cn now s))) p"
proof -
  have "told cn (snd (snd (fold (flush_one cn now) rows t))) p"
    if "told cn (snd (snd t)) p" "distinct (map fst (addressed (snd (snd t))))"
      "(\<lambda>r. (ob_id r, ob_userId r, ob_deviceId r)) ` set rows \<subseteq> set (addressed (snd (snd t)))" for rows t
    using that
  proof (induction rows arbitrary: t)
    case (Cons row rows)
    have "told cn (snd (snd (flush_one cn now row t))) p" by (rule flush_one_told[OF Cons.prems(1,2)]) (use Cons.prems(3) in simp)
    then show ?case using Cons.IH[of "flush_one cn now row t"] Cons.prems(2,3) unfolding flush_one_addressed by simp
  qed simp
  moreover have "map fst (addressed s) = map ob_id (db_revocationOutbox s)" by simp
  ultimately show ?thesis
    unfolding flushRevocationOutbox_def using assms by (metis (no_types, lifting) image_mono list.set_map set_filter snd_conv mem_Collect_eq subsetI)
qed

definition news_ok :: "'k control_env \<Rightarrow> control \<Rightarrow> bool" where
  "news_ok cn s \<longleftrightarrow> devices_ok s \<and> (\<forall>p \<in> revoked_ids s. told cn s p)"

lemma told_view: "outbox_view s' = outbox_view s \<Longrightarrow> told cn s' p = told cn s p"
  by (simp add: outbox_view_def acked_def queued_def)

lemma revoked_view: "db_devices s' = db_devices s \<Longrightarrow> revoked_ids s' = revoked_ids s"
  by (simp add: revoked_ids_def)

lemma spread_told:
  assumes "distinct (map ob_id (db_revocationOutbox s))" "oid \<notin> ob_id ` set (db_revocationOutbox s)"
    and "told cn s p \<or> p = (uid, dev)"
  shows "told cn (snd (spread_revocation cn now oid uid dev s)) p"
proof -
  let ?s1 = "s\<lparr>ct_hubCalls := ct_hubCalls s @ [(uid, dev)]\<rparr>"
  let ?row = "\<lparr>ob_id = oid, ob_userId = uid, ob_deviceId = dev, ob_createdAt = now, ob_deliveredAt = None, ob_attempts = 0\<rparr>"
  let ?s2 = "if cn_hub cn (length (ct_hubCalls s)) = Inr True then ?s1
    else ?s1\<lparr>db_revocationOutbox := db_revocationOutbox ?s1 @ [?row]\<rparr>"
  have r: "snd (spread_revocation cn now oid uid dev s) = snd (snd (flushRevocationOutbox cn now ?s2))"
    by (simp add: spread_revocation_def notify_hub_def Let_def split_beta)
  have "distinct (map ob_id (db_revocationOutbox ?s2))" using assms(1,2) by auto
  moreover have "told cn ?s2 p"
  proof (cases "p = (uid, dev) \<and> cn_hub cn (length (ct_hubCalls s)) = Inr True")
    case True
    then show ?thesis using acked_now[of ?s2 s p cn] by auto
  next
    case False
    then have "acked cn s p \<or> queued s p \<or> p = (uid, dev) \<and> cn_hub cn (length (ct_hubCalls s)) \<noteq> Inr True" using assms(3) by blast
    then show ?thesis using acked_more[of cn s p ?s2 "[(uid, dev)]"] by (auto simp: queued_def)
  qed
  ultimately show ?thesis unfolding r by (rule flush_told[rotated])
qed

lemma revoked_revoke:
  assumes "devices_ok s"
  shows "p \<in> revoked_ids (snd (revoke_device cn ca oid dev reason s)) \<Longrightarrow> p \<in> revoked_ids s \<or> p = (ca_userId ca, dev)"
proof (cases rule: revoke_cases[of cn ca oid dev reason s])
  case (done' d)
  assume "p \<in> revoked_ids (snd (revoke_device cn ca oid dev reason s))"
  then obtain x where x: "p = (dv_userId x, dv_id x)" "dv_revokedAt x \<noteq> None"
    "x \<in> set (update_rows (\<lambda>d. dv_id d = dev) (\<lambda>d. d\<lparr>dv_revokedAt := Some (ca_now ca), dv_revocationReason := reason\<rparr>) (db_devices s))"
    unfolding revoked_ids_def done'(5) by auto
  then obtain y where y: "y \<in> set (db_devices s)"
    "x = (if dv_id y = dev then y\<lparr>dv_revokedAt := Some (ca_now ca), dv_revocationReason := reason\<rparr> else y)"
    unfolding update_rows_mem by blast
  have inj: "inj_on dv_id (set (db_devices s))" using assms by (simp add: devices_ok_def distinct_map)
  have "y = d" if "dv_id y = dev" by (rule inj_onD[OF inj _ y(1) done'(1)]) (simp add: that done'(2))
  then show ?thesis using x y done'(2,3) by (cases "dv_id y = dev") (auto simp: revoked_ids_def)
qed simp

lemma news_step:
  assumes ok: "news_ok cn s"
  shows "news_ok cn (control_step cn s op)"
proof -
  have dev: "devices_ok (control_step cn s op)" using devices_step ok by (auto simp: news_ok_def)
  have d: "devices_ok s" and old: "\<And>p. p \<in> revoked_ids s \<Longrightarrow> told cn s p" using ok by (auto simp: news_ok_def)
  have ids: "distinct (map ob_id (db_revocationOutbox s))" using d by (simp add: devices_ok_def)
  have "told cn (control_step cn s op) p" if p: "p \<in> revoked_ids (control_step cn s op)" for p
  proof (cases "changes_devices op")
    case False
    note v = outbox_kept[OF False, of cn s]
    have "p \<in> revoked_ids s" using p v revoked_view[of "control_step cn s op" s] by (simp add: outbox_view_def)
    then show ?thesis using old told_view[OF v] by blast
  next
    case True
    then show ?thesis
    proof (cases op rule: changes_devices.cases)
      case (1 now h i body)
      have "told cn (snd (enroll_device ca i body s)) p" if "p \<in> revoked_ids (snd (enroll_device ca i body s))" for ca
      proof -
        have "p \<in> revoked_ids s" using that devices_enroll(1)[of ca i body s] by (fastforce simp: revoked_ids_def new_device_def)
        then show ?thesis using old devices_enroll(2,3)[of ca i body s] by (simp add: acked_def queued_def)
      qed
      then show ?thesis using 1 p old by (auto simp: control_step_def split: sum.splits option.splits if_splits)
    next
      case (2 now h i name)
      have "told cn (snd (rename_device ca i name s)) p" if "p \<in> revoked_ids (snd (rename_device ca i name s))" for ca
      proof -
        obtain f where "\<forall>d. dv_id (f d) = dv_id d \<and> dv_userId (f d) = dv_userId d \<and> dv_revokedAt (f d) = dv_revokedAt d"
          "db_devices (snd (rename_device ca i name s)) = map f (db_devices s)"
          using devices_rename(1)[of ca i name s] by blast
        then have "p \<in> revoked_ids s" using that by (fastforce simp: revoked_ids_def)
        then show ?thesis using old devices_rename(2,3)[of ca i name s] by (simp add: acked_def queued_def)
      qed
      then show ?thesis using 2 p old by (auto simp: control_step_def split: sum.splits option.splits if_splits)
    next
      case (3 now h oid i reason)
      have "told cn (snd (revoke_device cn ca oid i reason s)) p"
        if r: "p \<in> revoked_ids (snd (revoke_device cn ca oid i reason s))" and f: "oid \<notin> ob_id ` set (db_revocationOutbox s)" for ca
      proof (cases rule: revoke_cases[of cn ca oid i reason s])
        case nothing
        then show ?thesis using r old by simp
      next
        case (done' x)
        have "told cn s p \<or> p = (ca_userId ca, i)" using revoked_revoke[OF d r] old by blast
        then show ?thesis unfolding done'(5) by (intro spread_told) (use ids f in \<open>auto simp: acked_def queued_def\<close>)
      qed
      then show ?thesis using 3 p old by (auto simp: control_step_def split: sum.splits option.splits if_splits)
    next
      case (4 now)
      have "p \<in> revoked_ids s" using p 4 revoked_view[of "control_step cn s op" s] by (simp add: control_step_def)
      then show ?thesis using flush_told[OF old ids] 4 by (simp add: control_step_def)
    qed simp_all
  qed
  then show ?thesis using dev by (simp add: news_ok_def)
qed

interpretation news_run: kept_invariant "control_step cn" "news_ok cn" for cn
  by unfold_locales (rule news_step)

lemma news_empty: "news_ok cn empty_control"
  by (simp add: news_ok_def devices_empty revoked_ids_def) (simp add: empty_control_def)

text \<open>A drain while the hub acknowledges.\<close>

lemma fold_calls: "\<exists>xs. ct_hubCalls (snd (snd (fold (flush_one cn now) rows t))) = ct_hubCalls (snd (snd t)) @ xs"
proof (induction rows arbitrary: t)
  case (Cons row rows)
  then show ?case using flush_one_calls[of cn now row t] by (metis append.assoc fold_simps(2))
qed simp

lemma fold_acks:
  assumes "row \<in> set rows" "ob_attempts row < MAX_OUTBOX_ATTEMPTS"
    and "\<And>n. length (ct_hubCalls (snd (snd t))) \<le> n \<Longrightarrow> cn_hub cn n = Inr True"
  shows "acked cn (snd (snd (fold (flush_one cn now) rows t))) (ob_userId row, ob_deviceId row)"
  using assms
proof (induction rows arbitrary: t)
  case (Cons r rows)
  let ?t = "flush_one cn now r t"
  show ?case
  proof (cases "r = row")
    case True
    have "ct_hubCalls (snd (snd ?t)) = ct_hubCalls (snd (snd t)) @ [(ob_userId row, ob_deviceId row)]"
      using True Cons.prems(2,3) by (simp add: flush_one_def notify_hub_def Let_def split_beta)
    then have "acked cn (snd (snd ?t)) (ob_userId row, ob_deviceId row)" using acked_now Cons.prems(3) by blast
    then show ?thesis using acked_more fold_calls[of cn now rows ?t] by (metis fold_simps(2))
  next
    case False
    have "length (ct_hubCalls (snd (snd t))) \<le> length (ct_hubCalls (snd (snd ?t)))" using flush_one_calls[of cn now r t] by auto
    then have "acked cn (snd (snd (fold (flush_one cn now) rows ?t))) (ob_userId row, ob_deviceId row)"
      by (intro Cons.IH) (use Cons.prems False in auto)
    then show ?thesis by simp
  qed
qed simp

text \<open>
  C13. The news of a revocation is never lost: over every run of requests and whatever the session hub
  answers, for each revoked device the hub has acknowledged a call about it, or an undelivered row of the
  outbox names it.  And the next drain of the outbox during which the hub acknowledges its calls brings
  the news there, unless twenty attempts have failed before.
\<close>

theorem revocation_reaches_hub:
  assumes "s = control_run cn ops" "d \<in> set (db_devices s)" "dv_revokedAt d \<noteq> None"
  shows "(acked cn s (dv_userId d, dv_id d) \<or>
      (\<exists>r \<in> set (db_revocationOutbox s). ob_userId r = dv_userId d \<and> ob_deviceId r = dv_id d \<and> ob_deliveredAt r = None)) \<and>
    ((\<forall>n \<ge> length (ct_hubCalls s). cn_hub cn n = Inr True) \<longrightarrow>
     (\<forall>r \<in> set (db_revocationOutbox s). ob_deviceId r = dv_id d \<longrightarrow> ob_attempts r < 20) \<longrightarrow>
     acked cn (control_step cn s (OutboxDrain now)) (dv_userId d, dv_id d))"
proof -
  have "(dv_userId d, dv_id d) \<in> revoked_ids s" using assms(2,3) by (auto simp: revoked_ids_def)
  then have t: "told cn s (dv_userId d, dv_id d)"
    using news_run.along_run[OF news_empty, of cn ops] assms(1) by (simp add: news_ok_def)
  have drained: "control_step cn s (OutboxDrain now) = snd (snd (flushRevocationOutbox cn now s))" by (simp add: control_step_def)
  have "acked cn (control_step cn s (OutboxDrain now)) (dv_userId d, dv_id d)"
    if hub: "\<forall>n \<ge> length (ct_hubCalls s). cn_hub cn n = Inr True"
      and few: "\<forall>r \<in> set (db_revocationOutbox s). ob_deviceId r = dv_id d \<longrightarrow> ob_attempts r < 20"
  proof (cases "acked cn s (dv_userId d, dv_id d)")
    case True
    then show ?thesis
      unfolding drained flushRevocationOutbox_def using acked_more fold_calls[of cn now _ "(0, 0, s)"] by (metis snd_conv)
  next
    case False
    then obtain r where r: "r \<in> set (db_revocationOutbox s)" "(ob_userId r, ob_deviceId r) = (dv_userId d, dv_id d)"
      "ob_deliveredAt r = None" using t by (auto simp: queued_def)
    have "acked cn (snd (snd (fold (flush_one cn now) (filter (\<lambda>r. ob_deliveredAt r = None) (db_revocationOutbox s)) (0, 0, s))))
        (ob_userId r, ob_deviceId r)"
      by (rule fold_acks) (use r few hub in \<open>auto simp: MAX_OUTBOX_ATTEMPTS_def\<close>)
    then show ?thesis unfolding drained flushRevocationOutbox_def using r(2) by simp
  qed
  then show ?thesis using t by (auto simp: queued_def)
qed

section \<open>Witnesses\<close>

text \<open>A device is enrolled and revoked; the hub is not reached.\<close>

definition enroll_ops :: "control_op list" where
  "enroll_ops = [example_signup LocalMode,
     example_request_of 2000 (Enroll ''d'' \<lparr>eb_name = ''n'', eb_platform = ''macos'', eb_devicePublicKey = ''k''\<rparr>)]"

definition revoke_ops :: "control_op list" where
  "revoke_ops = enroll_ops @ [example_request_of 3000 (RevokeDevice ''o'' ''d'' None)]"

lemma example_authed:
  assumes "user_of s example_user = Some u" "us_id u = example_user" "fresh_device_op op s"
  shows "control_step example_control s (example_request_of now op) = snd (device_step example_control (example_caller now) op s)"
  using assms by (simp add: control_step_def example_bearer example_caller_def)

lemma enrolled_device:
  "\<exists>u. user_of (control_run example_control enroll_ops) example_user = Some u \<and> us_id u = example_user"
  "\<exists>d. db_devices (control_run example_control enroll_ops) = [d] \<and> dv_id d = ''d'' \<and> dv_userId d = example_user \<and> dv_revokedAt d = None"
  "db_revocationOutbox (control_run example_control enroll_ops) = []" "ct_hubCalls (control_run example_control enroll_ops) = []"
proof -
  obtain u where u: "db_users signed_up = [u]" "us_id u = example_user" using signed_up_user by blast
  have o: "user_of signed_up example_user = Some u" by (simp add: user_of_def u)
  have d: "db_devices signed_up = []" "db_revocationOutbox signed_up = []" "ct_hubCalls signed_up = []"
    by (simp_all add: signed_up_def example_run_defs)
  have r: "control_run example_control enroll_ops = snd (enroll_device (example_caller 2000) ''d''
      \<lparr>eb_name = ''n'', eb_platform = ''macos'', eb_devicePublicKey = ''k''\<rparr> signed_up)"
    unfolding enroll_ops_def using example_authed[OF o u(2)] by (simp add: signed_up_def[symmetric] d)
  show "\<exists>u. user_of (control_run example_control enroll_ops) example_user = Some u \<and> us_id u = example_user"
    unfolding r using u by (auto simp: enroll_device_def d claim_home_def user_of_def takes_home_seat_def update_rows_def Let_def)
  show "\<exists>d. db_devices (control_run example_control enroll_ops) = [d] \<and> dv_id d = ''d'' \<and> dv_userId d = example_user \<and> dv_revokedAt d = None"
    unfolding r by (auto simp: enroll_device_def d claim_home_def new_device_def example_caller_def Let_def)
  show "db_revocationOutbox (control_run example_control enroll_ops) = []" "ct_hubCalls (control_run example_control enroll_ops) = []"
    unfolding r by (auto simp: enroll_device_def d claim_home_def Let_def)
qed

lemma revoked_device:
  "\<exists>d. db_devices (control_run example_control revoke_ops) = [d] \<and> dv_id d = ''d'' \<and> dv_userId d = example_user \<and> dv_revokedAt d \<noteq> None"
  "\<not> acked example_control (control_run example_control revoke_ops) p"
proof -
  obtain u where u: "user_of (control_run example_control enroll_ops) example_user = Some u" "us_id u = example_user"
    using enrolled_device(1) by blast
  obtain d where d: "db_devices (control_run example_control enroll_ops) = [d]" "dv_id d = ''d''" "dv_userId d = example_user"
    "dv_revokedAt d = None" using enrolled_device(2) by blast
  have r: "control_run example_control revoke_ops =
      snd (revoke_device example_control (example_caller 3000) ''o'' ''d'' None (control_run example_control enroll_ops))"
    unfolding revoke_ops_def using example_authed[OF u] enrolled_device(3) by simp
  show "\<exists>d. db_devices (control_run example_control revoke_ops) = [d] \<and> dv_id d = ''d'' \<and> dv_userId d = example_user \<and> dv_revokedAt d \<noteq> None"
    unfolding r using d by (simp add: revoke_device_def example_caller_def Let_def split_beta update_rows_def)
  show "\<not> acked example_control (control_run example_control revoke_ops) p" by (simp add: acked_def example_control_def)
qed

lemma revocation_is_final_witness:
  "\<not> succeeds (fst (device_login example_control 4000 ''j'' ''d'' ''x'' (control_run example_control revoke_ops)))"
proof -
  obtain d where d: "db_devices (control_run example_control revoke_ops) = [d]" "dv_id d = ''d''" "dv_revokedAt d \<noteq> None"
    using revoked_device(1) by blast
  have "d \<in> set (db_devices (control_run example_control revoke_ops))" using d(1) by simp
  then show ?thesis
    using revocation_is_final[of _ example_control revoke_ops d _ "[]", OF refl _ d(3) refl] d(2) by simp
qed

lemma revocation_reaches_hub_witness:
  "\<exists>r \<in> set (db_revocationOutbox (control_run example_control revoke_ops)).
     ob_userId r = example_user \<and> ob_deviceId r = ''d'' \<and> ob_deliveredAt r = None"
proof -
  obtain d where d: "db_devices (control_run example_control revoke_ops) = [d]" "dv_id d = ''d''" "dv_userId d = example_user"
    "dv_revokedAt d \<noteq> None" using revoked_device(1) by blast
  have "d \<in> set (db_devices (control_run example_control revoke_ops))" using d(1) by simp
  from revocation_reaches_hub[OF refl this d(4), THEN conjunct1] show ?thesis
    using revoked_device(2) d(2,3) by simp
qed

end
