(* ===== verification/ControlCodes.thy ===== *)
theory ControlCodes
  imports ControlRevocation
begin

text \<open>
  Codes that admit: an enrollment code lets in one device, an invite one account, whatever requests come
  between two attempts.
\<close>

section \<open>Spent codes\<close>

definition code_spent :: "string \<Rightarrow> control \<Rightarrow> bool" where
  "code_spent hash s \<longleftrightarrow> hash \<in> en_codeHash ` set (db_enrollmentCodes s) \<and>
     (\<forall>r \<in> set (db_enrollmentCodes s). en_codeHash r = hash \<longrightarrow> en_redeemedAt r \<noteq> None)"

definition invite_spent :: "string \<Rightarrow> control \<Rightarrow> bool" where
  "invite_spent code s \<longleftrightarrow> code \<in> iv_code ` set (db_invites s) \<and>
     (\<forall>r \<in> set (db_invites s). iv_code r = code \<longrightarrow> iv_redeemedAt r \<noteq> None)"

lemma update_spent:
  assumes "\<And>r. key (f r) = key r" "\<And>r. spent r \<Longrightarrow> spent (f r)"
    and "k \<in> key ` set rows \<and> (\<forall>r \<in> set rows. key r = k \<longrightarrow> spent r)"
  shows "k \<in> key ` set (update_rows P f rows) \<and> (\<forall>r \<in> set (update_rows P f rows). key r = k \<longrightarrow> spent r)"
proof
  have "map key (update_rows P f rows) = map key rows" by (rule update_rows_map) (rule assms(1))
  then have "key ` set (update_rows P f rows) = key ` set rows" by (metis set_map)
  then show "k \<in> key ` set (update_rows P f rows)" using assms(3) by blast
  show "\<forall>r \<in> set (update_rows P f rows). key r = k \<longrightarrow> spent r"
  proof (intro ballI impI)
    fix r assume r: "r \<in> set (update_rows P f rows)" "key r = k"
    then obtain r0 where r0: "r0 \<in> set rows" "r = (if P r0 then f r0 else r0)" unfolding update_rows_mem by blast
    then have "key r0 = k" using r(2) assms(1)[of r0] by (cases "P r0") simp_all
    then have "spent r0" using assms(3) r0(1) by blast
    then show "spent r" using r0(2) assms(2)[of r0] by (cases "P r0") simp_all
  qed
qed

text \<open>The requests that touch codes.\<close>

fun changes_codes :: "control_op \<Rightarrow> bool" where
  "changes_codes (PublicOp _ (SignUp _ _ _)) = True"
| "changes_codes (PublicOp _ (MintInvites _ _ _ _)) = True"
| "changes_codes (PublicOp _ (RedeemCode _ _)) = True"
| "changes_codes (DeviceOp _ _ (MintCode _ _ _)) = True"
| "changes_codes _ = False"

lemma codes_flush [simp]: "codes_view (snd (snd (flushRevocationOutbox cn now s))) = codes_view s"
proof -
  have "codes_view (snd (snd (flush_one cn now row t))) = codes_view (snd (snd t))" for row t
    by (auto simp: flush_one_def notify_hub_def codes_view_def Let_def split_beta split: sum.split bool.split)
  then have "codes_view (snd (snd (fold (flush_one cn now) rows t))) = codes_view (snd (snd t))" for rows t
    by (induction rows arbitrary: t) simp_all
  then show ?thesis by (simp add: flushRevocationOutbox_def)
qed

lemma codes_devices:
  "codes_view (snd (enroll_device ca dev body s)) = codes_view s"
  "codes_view (snd (rename_device ca dev name s)) = codes_view s"
  "codes_view (snd (create_space ca sid body2 s)) = codes_view s"
  "codes_view (snd (patch_space ca sid body3 s)) = codes_view s"
  "codes_view (snd (put_wrapper ca wid sid kind cred salt2 wrapped s)) = codes_view s"
  "codes_view (snd (set_recovery ca wid sid salt2 wrapped s)) = codes_view s"
  "codes_view (snd (remove_wrapper ca sid wid s)) = codes_view s"
  by (auto simp: enroll_device_def claim_home_def rename_device_def create_space_def patch_space_def
      put_wrapper_def set_recovery_def setRecoveryWrapper_def upsert_wrapper_def remove_wrapper_def codes_view_def
      Let_def split_beta split: option.split)

lemma codes_revoke: "codes_view (snd (revoke_device cn ca oid dev reason s)) = codes_view s"
proof -
  have u: "codes_view (s\<lparr>db_devices := x\<rparr>) = codes_view s" "codes_view (s\<lparr>db_revocationOutbox := y\<rparr>) = codes_view s"
    "codes_view (s\<lparr>ct_hubCalls := z\<rparr>) = codes_view s" for s x y z
    by (simp_all add: codes_view_def)
  show ?thesis
    by (cases rule: revoke_cases[of cn ca oid dev reason s])
      (auto simp: spread_revocation_def notify_hub_def u Let_def split_beta)
qed

lemma codes_kept:
  assumes "\<not> changes_codes op"
  shows "codes_view (control_step cn s op) = codes_view s"
proof (cases op)
  case (PublicOp now x)
  then show ?thesis using assms by (cases x) (simp_all add: control_step_def kept)
next
  case (DeviceOp now h x)
  then show ?thesis
    using assms by (cases x) (simp_all add: control_step_def kept codes_devices codes_revoke split: sum.split option.split)
next
  case (AgentOp now h x)
  then show ?thesis by (cases x) (simp_all add: control_step_def kept split: sum.split)
next
  case (PutObject uid hash bytes)
  then show ?thesis by (auto simp: control_step_def put_object_def codes_view_def split: option.split)
qed (simp_all add: control_step_def kept split: option.split)

lemma codes_signup:
  "db_enrollmentCodes (snd (signup cn now ids answer body s)) = db_enrollmentCodes s"
  "invite_spent c s \<Longrightarrow> invite_spent c (snd (signup cn now ids answer body s))"
proof -
  have e: "db_enrollmentCodes (snd (claim_invite cn now code email s)) = db_enrollmentCodes s"
    "db_enrollmentCodes (record_redeemed now claimed uid s) = db_enrollmentCodes s"
    "db_enrollmentCodes (snd (provision_machine m answer s)) = db_enrollmentCodes s" for code email claimed uid m s
    by (auto simp: claim_invite_def record_redeemed_def provision_machine_def Let_def split: option.split sum.split)
  show "db_enrollmentCodes (snd (signup cn now ids answer body s)) = db_enrollmentCodes s"
    by (auto simp: signup_def signup_rest_def Let_def split_beta e split: sum.split)
  assume c: "invite_spent c s"
  have v: "invite_spent c s' = invite_spent c s" if "db_invites s' = db_invites s" for s s' using that by (simp add: invite_spent_def)
  have claim: "invite_spent c (snd (claim_invite cn now code email s))" for code email
    using c update_spent[of iv_code "\<lambda>r. r\<lparr>iv_redeemedAt := Some now\<rparr>" "\<lambda>r. iv_redeemedAt r \<noteq> None" c "db_invites s"]
    by (auto simp: claim_invite_def invite_spent_def split: option.split)
  have recorded: "invite_spent c (record_redeemed now claimed uid t)" if "invite_spent c t" for claimed uid t
    using that update_spent[of iv_code "\<lambda>r. r\<lparr>iv_redeemedByUserId := Some uid\<rparr>" "\<lambda>r. iv_redeemedAt r \<noteq> None" c "db_invites t"]
    by (auto simp: record_redeemed_def invite_spent_def split: option.split)
  have "db_invites (snd (signup_rest cn now ids answer user t)) = db_invites t" for user t
    by (auto simp: signup_rest_def provision_machine_def Let_def split_beta split: sum.split option.split)
  then have rest: "invite_spent c (snd (signup_rest cn now ids answer user t)) = invite_spent c t" for user t using v by blast
  have "invite_spent c ((snd (claim_invite cn now code email s))\<lparr>db_users := x\<rparr>)" for code email x
    using claim[of code email] by (simp add: invite_spent_def)
  then show "invite_spent c (snd (signup cn now ids answer body s))"
    using c claim by (auto simp: signup_def Let_def split_beta rest intro!: recorded split: sum.split)
qed

lemma codes_invites:
  "db_enrollmentCodes (snd (mint_invites cn now header codes email note s)) = db_enrollmentCodes s"
  "invite_spent c s \<Longrightarrow> invite_spent c (snd (mint_invites cn now header codes email note s))"
  by (auto simp: mint_invites_def invite_spent_def Let_def split: option.split)

lemma codes_mint:
  "db_invites (snd (mint_enrollment_code cn ca hash salt wrappers s)) = db_invites s"
  "code_spent h s \<Longrightarrow> code_spent h (snd (mint_enrollment_code cn ca hash salt wrappers s))"
  by (auto simp: mint_enrollment_code_def code_spent_def Let_def)

lemma codes_redeem:
  "db_invites (snd (redeem_enrollment_code cn now jti code s)) = db_invites s"
  "code_spent h s \<Longrightarrow> code_spent h (snd (redeem_enrollment_code cn now jti code s))"
proof -
  show "db_invites (snd (redeem_enrollment_code cn now jti code s)) = db_invites s"
    by (auto simp: redeem_enrollment_code_def Let_def split: option.split)
  let ?spent = "\<lambda>r. en_redeemedAt r \<noteq> None"
  assume "code_spent h s"
  then have s1: "h \<in> en_codeHash ` set (update_rows P (\<lambda>r. r\<lparr>en_redeemedAt := Some now\<rparr>) (db_enrollmentCodes s)) \<and>
      (\<forall>r \<in> set (update_rows P (\<lambda>r. r\<lparr>en_redeemedAt := Some now\<rparr>) (db_enrollmentCodes s)). en_codeHash r = h \<longrightarrow> ?spent r)" for P
    by (intro update_spent) (simp_all add: code_spent_def)
  have s2: "h \<in> en_codeHash ` set (update_rows P (\<lambda>r. r\<lparr>en_wrapSalt := None, en_wrappers := None\<rparr>) rows) \<and>
      (\<forall>r \<in> set (update_rows P (\<lambda>r. r\<lparr>en_wrapSalt := None, en_wrappers := None\<rparr>) rows). en_codeHash r = h \<longrightarrow> ?spent r)"
    if "h \<in> en_codeHash ` set rows \<and> (\<forall>r \<in> set rows. en_codeHash r = h \<longrightarrow> ?spent r)" for P rows
    by (rule update_spent[OF _ _ that]) simp_all
  show "code_spent h (snd (redeem_enrollment_code cn now jti code s))"
    using \<open>code_spent h s\<close> s1 s2[OF s1] by (simp add: redeem_enrollment_code_def code_spent_def Let_def split: option.split)
qed

lemma spent_step:
  "code_spent h s \<Longrightarrow> code_spent h (control_step cn s op)"
  "invite_spent c s \<Longrightarrow> invite_spent c (control_step cn s op)"
proof -
  have v: "code_spent h s' = code_spent h s \<and> invite_spent c s' = invite_spent c s" if "codes_view s' = codes_view s" for s'
    using that by (simp add: codes_view_def code_spent_def invite_spent_def)
  have e: "code_spent h s' = code_spent h s" if "db_enrollmentCodes s' = db_enrollmentCodes s" for s' using that by (simp add: code_spent_def)
  have i: "invite_spent c s' = invite_spent c s" if "db_invites s' = db_invites s" for s' using that by (simp add: invite_spent_def)
  have "(code_spent h s \<longrightarrow> code_spent h (control_step cn s op)) \<and> (invite_spent c s \<longrightarrow> invite_spent c (control_step cn s op))"
  proof (cases "changes_codes op")
    case False
    then show ?thesis using v[OF codes_kept[OF False]] by blast
  next
    case True
    then show ?thesis
      using e[OF codes_signup(1)] codes_signup(2) e[OF codes_invites(1)] codes_invites(2) i[OF codes_mint(1)] codes_mint(2)
        i[OF codes_redeem(1)] codes_redeem(2)
      by (cases op rule: changes_codes.cases) (auto simp: control_step_def split: sum.split option.split)
  qed
  then show "code_spent h s \<Longrightarrow> code_spent h (control_step cn s op)"
    "invite_spent c s \<Longrightarrow> invite_spent c (control_step cn s op)" by blast+
qed

interpretation code_run: kept_invariant "control_step cn" "code_spent h" for cn h
  by unfold_locales (rule spent_step)

interpretation invite_run: kept_invariant "control_step cn" "invite_spent c" for cn c
  by unfold_locales (rule spent_step)

section \<open>Codes are keys\<close>

definition codes_ok :: "control \<Rightarrow> bool" where
  "codes_ok s \<longleftrightarrow> distinct (map en_codeHash (db_enrollmentCodes s)) \<and> distinct (map iv_code (db_invites s))"

lemma ids_signup: "map iv_code (db_invites (snd (signup cn now ids answer body s))) = map iv_code (db_invites s)"
proof -
  have c: "map iv_code (db_invites (snd (claim_invite cn now code email s))) = map iv_code (db_invites s)" for code email
    by (auto simp: claim_invite_def intro!: update_rows_map split: option.split)
  have r: "map iv_code (db_invites (record_redeemed now claimed uid t)) = map iv_code (db_invites t)" for claimed uid t
    by (auto simp: record_redeemed_def intro!: update_rows_map split: option.split)
  have "db_invites (snd (signup_rest cn now ids answer user t)) = db_invites t" for user t
    by (auto simp: signup_rest_def provision_machine_def Let_def split_beta split: sum.split option.split)
  then show ?thesis by (auto simp: signup_def Let_def split_beta c r split: sum.split)
qed

lemma ids_redeem: "map en_codeHash (db_enrollmentCodes (snd (redeem_enrollment_code cn now jti code s))) = map en_codeHash (db_enrollmentCodes s)"
proof -
  have "map en_codeHash (update_rows P (\<lambda>r. r\<lparr>en_redeemedAt := x\<rparr>) rows) = map en_codeHash rows"
    "map en_codeHash (update_rows P (\<lambda>r. r\<lparr>en_wrapSalt := None, en_wrappers := None\<rparr>) rows) = map en_codeHash rows"
    for P x and rows :: "enrollment_row list"
    by (rule update_rows_map, simp)+
  then show ?thesis by (simp add: redeem_enrollment_code_def Let_def split: option.split)
qed

lemma codes_ok_step: "codes_ok s \<Longrightarrow> codes_ok (control_step cn s op)"
proof -
  assume ok: "codes_ok s"
  have m: "codes_ok (snd (mint_invites cn now hdr codes email nt s))" for now hdr codes email nt
    using ok by (auto simp: codes_ok_def mint_invites_def Let_def comp_def split: option.split)
  have e: "codes_ok (snd (mint_enrollment_code cn ca hash salt wrappers s))" for ca hash salt wrappers
    using ok by (auto simp: codes_ok_def mint_enrollment_code_def Let_def)
  show ?thesis
  proof (cases "changes_codes op")
    case False
    then show ?thesis using codes_kept[OF False, of cn s] ok by (simp add: codes_ok_def codes_view_def)
  next
    case True
    then show ?thesis
      using ok m e
      by (cases op rule: changes_codes.cases)
        (auto simp: control_step_def codes_ok_def ids_signup ids_redeem codes_signup(1) codes_redeem(1) split: sum.split option.split)
  qed
qed

interpretation codes_run: kept_invariant "control_step cn" codes_ok for cn
  by unfold_locales (rule codes_ok_step)

lemma codes_empty: "codes_ok empty_control"
  by (simp add: codes_ok_def empty_control_def)

text \<open>A success spends the code; a spent code has no success.\<close>

lemma redeem_spends:
  assumes "codes_ok s" "succeeds (fst (redeem_enrollment_code cn now jti code s))"
  shows "code_spent (hashEnrollmentCode cn code) (snd (redeem_enrollment_code cn now jti code s))"
proof -
  let ?h = "hashEnrollmentCode cn code"
  obtain r where r: "row_with (redeemable ?h now) (db_enrollmentCodes s) = Some r"
    using assms(2) by (cases "row_with (redeemable ?h now) (db_enrollmentCodes s)") (simp_all add: redeem_enrollment_code_def Let_def)
  note m = row_withD[OF r]
  let ?rows = "update_rows (redeemable ?h now) (\<lambda>r. r\<lparr>en_redeemedAt := Some now\<rparr>) (db_enrollmentCodes s)"
  have inj: "inj_on en_codeHash (set (db_enrollmentCodes s))" using assms(1) by (simp add: codes_ok_def distinct_map)
  have "?h \<in> en_codeHash ` set (db_enrollmentCodes s)" using m imageI[OF m[THEN conjunct1], of en_codeHash] by (simp add: redeemable_def)
  moreover have "map en_codeHash ?rows = map en_codeHash (db_enrollmentCodes s)" by (rule update_rows_map) simp
  ultimately have "?h \<in> en_codeHash ` set ?rows" by (metis set_map)
  moreover have "en_redeemedAt x \<noteq> None" if x: "x \<in> set ?rows" "en_codeHash x = ?h" for x
  proof -
    obtain y where y: "y \<in> set (db_enrollmentCodes s)" "x = (if redeemable ?h now y then y\<lparr>en_redeemedAt := Some now\<rparr> else y)"
      using x(1) unfolding update_rows_mem by blast
    then have "en_codeHash y = ?h" using x(2) by (auto split: if_splits)
    then have "y = r" by (intro inj_onD[OF inj _ y(1)]) (use m in \<open>auto simp: redeemable_def\<close>)
    then show ?thesis using y(2) m by simp
  qed
  ultimately have s: "?h \<in> en_codeHash ` set ?rows \<and> (\<forall>x \<in> set ?rows. en_codeHash x = ?h \<longrightarrow> en_redeemedAt x \<noteq> None)" by blast
  have "?h \<in> en_codeHash ` set (update_rows P (\<lambda>r. r\<lparr>en_wrapSalt := None, en_wrappers := None\<rparr>) ?rows) \<and>
      (\<forall>x \<in> set (update_rows P (\<lambda>r. r\<lparr>en_wrapSalt := None, en_wrappers := None\<rparr>) ?rows). en_codeHash x = ?h \<longrightarrow> en_redeemedAt x \<noteq> None)" for P
    by (rule update_spent[OF _ _ s]) simp_all
  then show ?thesis using s r by (simp add: redeem_enrollment_code_def code_spent_def Let_def split: option.split)
qed

lemma spent_refuses:
  assumes "code_spent (hashEnrollmentCode cn code) t"
  shows "\<not> succeeds (fst (redeem_enrollment_code cn now jti code t))"
proof -
  have "row_with (redeemable (hashEnrollmentCode cn code) now) (db_enrollmentCodes t) = None"
    using assms by (auto simp: row_with_None redeemable_def code_spent_def)
  then show ?thesis by (simp add: redeem_enrollment_code_def Let_def)
qed

lemma signup_spends:
  assumes "codes_ok s" "cn_invitesRequired cn" "succeeds (fst (signup cn now ids answer body s))"
  shows "\<exists>c. su_inviteCode body = Some c \<and> invite_spent c (snd (signup cn now ids answer body s))"
proof -
  let ?email = "js_lower (su_email body)"
  obtain c where c: "su_inviteCode body = Some c"
    using assms(2,3) by (cases "su_inviteCode body") (auto simp: signup_def claim_invite_def Let_def split: if_splits)
  obtain r where r: "row_with (claimable c ?email) (db_invites s) = Some r"
    using assms(2,3) c by (cases "row_with (claimable c ?email) (db_invites s)")
      (auto simp: signup_def claim_invite_def Let_def split: if_splits)
  note m = row_withD[OF r]
  let ?rows = "update_rows (claimable c ?email) (\<lambda>r. r\<lparr>iv_redeemedAt := Some now\<rparr>) (db_invites s)"
  have inj: "inj_on iv_code (set (db_invites s))" using assms(1) by (simp add: codes_ok_def distinct_map)
  have "c \<in> iv_code ` set (db_invites s)" using m imageI[OF m[THEN conjunct1], of iv_code] by (simp add: claimable_def)
  moreover have "map iv_code ?rows = map iv_code (db_invites s)" by (rule update_rows_map) simp
  ultimately have "c \<in> iv_code ` set ?rows" by (metis set_map)
  moreover have "iv_redeemedAt x \<noteq> None" if x: "x \<in> set ?rows" "iv_code x = c" for x
  proof -
    obtain y where y: "y \<in> set (db_invites s)" "x = (if claimable c ?email y then y\<lparr>iv_redeemedAt := Some now\<rparr> else y)"
      using x(1) unfolding update_rows_mem by blast
    then have "iv_code y = c" using x(2) by (auto split: if_splits)
    then have "y = r" by (intro inj_onD[OF inj _ y(1)]) (use m in \<open>auto simp: claimable_def\<close>)
    then show ?thesis using y(2) m by simp
  qed
  ultimately have spent: "invite_spent c (s\<lparr>db_invites := ?rows, db_users := x\<rparr>)" for x by (simp add: invite_spent_def)
  have recorded: "invite_spent c (record_redeemed now claimed uid t)" if "invite_spent c t" for claimed uid t
    using that update_spent[of iv_code "\<lambda>r. r\<lparr>iv_redeemedByUserId := Some uid\<rparr>" "\<lambda>r. iv_redeemedAt r \<noteq> None" c "db_invites t"]
    by (auto simp: record_redeemed_def invite_spent_def split: option.split)
  have "db_invites (snd (signup_rest cn now ids answer user t)) = db_invites t" for user t
    by (auto simp: signup_rest_def provision_machine_def Let_def split_beta split: sum.split option.split)
  then have rest: "invite_spent c (snd (signup_rest cn now ids answer user t)) = invite_spent c t" for user t
    by (simp add: invite_spent_def)
  have "invite_spent c (snd (signup cn now ids answer body s))"
    using assms(2,3) c r spent by (auto simp: signup_def claim_invite_def Let_def rest intro!: recorded split: if_splits)
  then show ?thesis using c by blast
qed

lemma invite_refuses:
  assumes "cn_invitesRequired cn" "su_inviteCode body = Some c" "invite_spent c t"
  shows "\<not> succeeds (fst (signup cn now ids answer body t))"
proof -
  have "row_with (claimable c email) (db_invites t) = None" for email
    using assms(3) by (auto simp: row_with_None claimable_def invite_spent_def)
  then show ?thesis using assms(1,2) by (simp add: signup_def claim_invite_def Let_def)
qed

text \<open>
  C23. Codes that admit work once.  When a code of a run has been redeemed for the enrollment of a device,
  or an invite for a new account where invites are asked for, no later attempt with it succeeds, whatever
  requests come in between and whoever makes it.
\<close>

theorem codes_work_once:
  assumes "s = control_run cn ops"
  shows "(succeeds (fst (redeem_enrollment_code cn now jti code s)) \<longrightarrow>
      \<not> succeeds (fst (redeem_enrollment_code cn now' jti' code
        (foldl (control_step cn) (snd (redeem_enrollment_code cn now jti code s)) later)))) \<and>
    (cn_invitesRequired cn \<longrightarrow> succeeds (fst (signup cn now ids answer body s)) \<longrightarrow> su_inviteCode body' = su_inviteCode body \<longrightarrow>
      \<not> succeeds (fst (signup cn now' ids' answer' body'
        (foldl (control_step cn) (snd (signup cn now ids answer body s)) later))))"
proof -
  have ok: "codes_ok s" using codes_run.along_run[OF codes_empty, of cn ops] assms by simp
  show ?thesis
    using code_run.along_run[OF redeem_spends[OF ok]] spent_refuses invite_run.along_run signup_spends[OF ok] invite_refuses
    by (metis (no_types, lifting))
qed

definition code_ops :: "control_op list" where
  "code_ops = [example_signup LocalMode, example_request_of 2000 (MintCode ''hash'' None None)]"

lemma codes_work_once_witness:
  "succeeds (fst (redeem_enrollment_code example_control 3000 ''j'' ''hsah'' (control_run example_control code_ops))) \<and>
   \<not> succeeds (fst (redeem_enrollment_code example_control 4000 ''i'' ''hsah''
        (snd (redeem_enrollment_code example_control 3000 ''j'' ''hsah'' (control_run example_control code_ops)))))"
proof
  obtain u where u: "db_users signed_up = [u]" "us_id u = example_user" using signed_up_user by blast
  have o: "user_of signed_up example_user = Some u" by (simp add: user_of_def u)
  have e: "db_enrollmentCodes signed_up = []" by (simp add: signed_up_def example_run_defs)
  have h: "hashEnrollmentCode example_control ''hsah'' = ''hash''" by (simp add: example_control_def)
  have r: "control_run example_control code_ops = snd (mint_enrollment_code example_control (example_caller 2000) ''hash'' None None signed_up)"
    unfolding code_ops_def using example_authed[OF o u(2)] by (simp add: signed_up_def[symmetric])
  show s: "succeeds (fst (redeem_enrollment_code example_control 3000 ''j'' ''hsah'' (control_run example_control code_ops)))"
    unfolding r by (simp add: redeem_enrollment_code_def mint_enrollment_code_def e h redeemable_def example_caller_def Let_def
        ENROLLMENT_CODE_TTL_MS_def user_of_def u audit_def)
  show "\<not> succeeds (fst (redeem_enrollment_code example_control 4000 ''i'' ''hsah''
        (snd (redeem_enrollment_code example_control 3000 ''j'' ''hsah'' (control_run example_control code_ops)))))"
    using codes_work_once[of _ example_control code_ops 3000 "''j''" "''hsah''" 4000 "''i''" "[]", OF refl] s by simp
qed

end
