(* ===== verification/Spec2Isabelle.thy ===== *)
theory Spec2Isabelle
  imports Hlc Encoding Cookie Continuity Corpus Egress Chunking Messages SyncQueue EngineState Engine EngineFacts EngineSafety Hub HubFacts HubKeyed HubSafety DeviceToken Gateway GatewayFacts GatewaySafety SessionEdge EdgeSafety Capability Relay Workspace WorkspaceStore WorkspaceFacts WorkspaceSafety WorkspaceSync WorkspaceMerge WorkspaceConverge WorkspaceRuns WebAuthn WebAuthnFacts MachineLife CloudFiles ControlDb ControlAuth ControlAccount ControlDevices ControlSpaces ControlMachine ControlFiles ControlTransfers ControlPlane ControlFrames ControlRefs ControlStore ControlHistory ControlSafety ControlMoves ControlFetches ControlRevocation ControlCodes
begin

text \<open>
  Suma keeps the sessions of a user's browsers in step, gives every account a machine and files in the
  cloud, and reaches origins through a gateway.  This development models the TypeScript parts that carry
  that logic and proves what they promise.  A property is a theorem behind a text that starts with its
  number, its witness the theorem of the same name that ends in \<open>_witness\<close>.

  \<^bold>\<open>The parts and how they interact.\<close>  Each device runs the sync engine (packages/sync-engine) over its
  browser's cookies and the workspace service (apps/desktop/src/main/sync) over its documents.  Both seal
  their records, stamp them by a hybrid logical clock (packages/protocol) and send them to the session
  hub of the user (services/sessionhub), which orders and keeps them, holds writer leases and serves the
  gateway.  The control plane (services/control) knows accounts, devices, keys, machines and files, gives
  out the tokens the session plane checks, and tells the hub of a revocation.

  \<^bold>\<open>Theories and code.\<close>
  \<^item> \<^verbatim>\<open>Prelude\<close>: JavaScript maps as association lists, strings, numbers in text, the contracts shared
    by several components: \<open>newest_cell\<close> for a newest-wins cell, \<open>kept_invariant\<close> for an invariant that every
    step keeps, and with them what follows over runs.
  \<^item> \<^verbatim>\<open>Hlc, Encoding, Cookie, Continuity, Corpus, Messages, DeviceToken, Capability\<close>: packages/protocol
    and packages/config, with services/sessionhub/src/auth.ts and services/control/src/capabilities.ts.
    Lemmas: order and text of stamps, encodings that invert each other, what a verified token says.
  \<^item> \<^verbatim>\<open>Egress, Chunking\<close>: packages/egress-policy and packages/chunking.  The streaming builder refines
    the one over a whole buffer.
  \<^item> \<^verbatim>\<open>SyncQueue, EngineState, Engine, EngineFacts, EngineSafety\<close>: packages/sync-engine, its state a record
    of maps, every operation whole.  Lemmas: the book-keeping invariant, causal descent, convergence of
    replicas, what a queue drains.
  \<^item> \<^verbatim>\<open>Hub, HubFacts, HubKeyed, HubSafety\<close>: the hub of services/sessionhub/src/hub-core.ts, storage as a
    map from keys to values, frames as steps.
  \<^item> \<^verbatim>\<open>Gateway, GatewayFacts, GatewaySafety\<close>: gateway-core.ts, its cookie jars and fetches.
  \<^item> \<^verbatim>\<open>SessionEdge, EdgeSafety\<close>: index.ts, session-hub.ts and http.ts around hub and gateway.
  \<^item> \<^verbatim>\<open>Relay\<close>: services/control/src/relay.ts.
  \<^item> \<^verbatim>\<open>Workspace, WorkspaceStore, WorkspaceFacts, WorkspaceSafety, WorkspaceSync, WorkspaceMerge,
    WorkspaceConverge, WorkspaceRuns\<close>: the documents, their store and their synchronization in
    apps/desktop/src/main.
  \<^item> \<^verbatim>\<open>WebAuthn, WebAuthnFacts\<close>: services/control/src/webauthn.ts: challenges, the CBOR decoder,
    both ceremonies.
  \<^item> \<^verbatim>\<open>MachineLife, CloudFiles\<close>: the rules of machines and files (packages/protocol/src/machine.ts,
    lifecycle.ts, files.ts; services/control/src/files.ts).
  \<^item> \<^verbatim>\<open>ControlDb\<close> holds the tables of services/control/src/db/schema.ts as lists of rows and the parameters
    of \<open>createApp\<close>; \<^verbatim>\<open>ControlAuth, ControlAccount, ControlDevices, ControlSpaces, ControlMachine,
    ControlFiles, ControlTransfers\<close> its routes, one function each, from validated body to reply and new
    state; \<^verbatim>\<open>ControlPlane\<close> the middleware, a request as a step, and runs.
  \<^item> \<^verbatim>\<open>ControlFrames\<close> says what each route leaves alone; on it rest the invariants of \<^verbatim>\<open>ControlRefs\<close> (a chunk
    counts the files that name it; the quota), \<^verbatim>\<open>ControlStore\<close> (a complete file has its objects),
    \<^verbatim>\<open>ControlHistory\<close> (the moves of a machine), and the properties over runs in \<^verbatim>\<open>ControlSafety,
    ControlMoves, ControlFetches, ControlRevocation, ControlCodes\<close>.

  \<^bold>\<open>Modelling.\<close>  A string is a list of code units.  An exception is a value (\<open>js_result\<close>), a refusal a reply
  with its status.  Integers that stay below two to the 53rd are naturals or integers; the rolling hash of
  the chunker, bytes and bitwise operations are words.  Cryptography, \<open>JSON.parse\<close>, URL parsing, text
  decoding and collation are parameters; where a property needs a law of them it is a hypothesis and the
  witness gives a function that has it.  Loops are recursive functions, terminating by a measure where
  the recursion is not structural; no fuel is used.  The CBOR decoder is a \<open>partial_function\<close> whose
  value is \<open>None\<close> where it would not return, and it is shown to return on every input.  The generator of
  invite codes takes the random buffers it draws as a list and gives \<open>None\<close> when they run out.

  \<^bold>\<open>The control plane.\<close>  A route runs to its end before the next request, so the conflicts its
  conditional writes guard against do not arise and their 409 is left out; the exception is completing an
  upload, which asks the object store outside its transaction and is two steps
  (\<open>complete_check\<close>, \<open>complete_commit\<close>).  A transaction under the account lock is one step.  Ids are
  fresh; foreign keys hold; rows a query gives in no order come in the order of the table.  The object
  store always answers, and takes an upload only to a presigned address, with the length declared.
  The provider's answer is an argument of the request, the session hub's a function of the number of the
  call.  Bodies are those the schemas admit.  Texts that explain a refusal are left out where no client
  branches on them.

  \<^bold>\<open>What the properties show.\<close>  Replicas of the engine and of the workspace converge, the hub never goes
  back in versions, and no local change is lost (\<^verbatim>\<open>EngineFacts, HubSafety, WorkspaceConverge,
  WorkspaceRuns\<close>); revoked devices stay out of the hub, the edge and the control plane, and the news of a
  revocation is not lost (\<^verbatim>\<open>HubSafety, EdgeSafety, ControlRevocation\<close>); cookies stay on their site and the
  gateway off private networks (\<^verbatim>\<open>GatewaySafety\<close>); reference counts, quota and receipts of files are
  exact (\<^verbatim>\<open>ControlSafety\<close>); machines move legally and are not suspended under work (\<^verbatim>\<open>ControlMoves\<close>);
  decoders return and invert their encoders (\<^verbatim>\<open>WebAuthnFacts, Chunking, CloudFiles\<close>).  Some theorems show
  what the code does not keep from happening: a verdict that depends on the order of delivery, a change
  dropped during a fence, an upload completed without its bytes, a boost that never ends.

  \<^bold>\<open>Not modelled.\<close>  The Electron application around the modelled services (windows, tabs, dialogs,
  downloads, chat, voice, media, the signer), whose logic is the order of calls into Electron and other
  libraries; React views; the web site; the providers of machines and of object storage, which are
  clients of external services; the inference proxy; prices, which are floating point; the audit page,
  a query; process start and the database driver; the agent and the egress gateway, which are written
  in Rust; tests.
\<close>

end
